(* ===== verification/Prelude.thy ===== *)
theory Prelude
  imports Main "HOL-Library.Product_Lexorder"
begin

text \<open>
  Shared vocabulary of the development: the types that stand for Python and PostgreSQL
  values, the sum monad in which every raise is an \<open>Inl\<close>, and tables as lists of rows
  with the queries the repositories issue (lookup by key, filtered update, ordered and
  limited select, delete). The collections \<open>res_simps\<close> and \<open>tbl_simps\<close> carry the
  proofs of the component theories.
\<close>

named_theorems res_simps \<open>rules of the error monad\<close>
named_theorems tbl_simps \<open>rules of the table operations\<close>

section \<open>Values\<close>

text \<open>
  A \<open>uuid.UUID\<close> is its 128-bit number (PostgreSQL orders the type bytewise, which is the
  numeric order). A \<open>datetime\<close> is a count of microseconds, the resolution of both Python
  and PostgreSQL; \<open>timedelta(seconds=n)\<close> is \<open>seconds n\<close>. Python and database integers are
  unbounded \<open>int\<close>s, the database bounds being CHECK constraints.
\<close>

type_synonym uuid = nat
type_synonym time = int
type_synonym bytes = "nat list"

definition seconds :: "int \<Rightarrow> time" where
  "seconds n = 1000000 * n"

lemma seconds_mono: "0 < n \<Longrightarrow> t < t + seconds n"
  by (simp add: seconds_def)

lemma seconds_less_iff [simp]: "seconds a < seconds b \<longleftrightarrow> a < b"
  by (simp add: seconds_def)

lemma seconds_le_iff [simp]: "seconds a \<le> seconds b \<longleftrightarrow> a \<le> b"
  by (simp add: seconds_def)

section \<open>Results\<close>

text \<open>A raise aborts the transaction: the state of the failing branch is dropped.\<close>

definition andThen :: "'e + 'a \<Rightarrow> ('a \<Rightarrow> 'e + 'b) \<Rightarrow> 'e + 'b" where
  "andThen m f = (case m of Inl e \<Rightarrow> Inl e | Inr x \<Rightarrow> f x)"

definition guard_res :: "bool \<Rightarrow> 'e \<Rightarrow> 'e + unit" where
  "guard_res b e = (if b then Inr () else Inl e)"

lemma andThen_Inl [simp, res_simps]: "andThen (Inl e) f = Inl e"
  by (simp add: andThen_def)

lemma andThen_Inr [simp, res_simps]: "andThen (Inr x) f = f x"
  by (simp add: andThen_def)

lemma andThen_eq_Inr [res_simps]:
  "andThen m f = Inr y \<longleftrightarrow> (\<exists>x. m = Inr x \<and> f x = Inr y)"
  by (cases m) auto

lemma andThen_eq_Inl [res_simps]:
  "andThen m f = Inl e \<longleftrightarrow> m = Inl e \<or> (\<exists>x. m = Inr x \<and> f x = Inl e)"
  by (cases m) auto

lemma guard_res_eq_Inr [simp, res_simps]: "guard_res b e = Inr u \<longleftrightarrow> b"
  by (simp add: guard_res_def)

lemma guard_res_eq_Inl [simp, res_simps]: "guard_res b e = Inl e' \<longleftrightarrow> \<not> b \<and> e' = e"
  by (auto simp: guard_res_def)

lemma guard_res_True [simp]: "guard_res True e = Inr ()"
  by (simp add: guard_res_def)

text \<open>A loop that threads a state and stops at the first raise.\<close>

fun fold_res :: "('x \<Rightarrow> 's \<Rightarrow> 'e + 's) \<Rightarrow> 'x list \<Rightarrow> 's \<Rightarrow> 'e + 's" where
  "fold_res f [] s = Inr s"
| "fold_res f (x # xs) s = andThen (f x s) (fold_res f xs)"

lemma fold_res_invariant:
  assumes "fold_res f xs s = Inr t" and "P s"
    and "\<And>x s t. x \<in> set xs \<Longrightarrow> P s \<Longrightarrow> f x s = Inr t \<Longrightarrow> P t"
  shows "P t"
  using assms
proof (induction xs arbitrary: s)
  case (Cons x xs)
  from Cons.prems(1) obtain u where u: "f x s = Inr u" and rest: "fold_res f xs u = Inr t"
    by (auto simp: andThen_eq_Inr)
  from Cons.prems(2,3) u have "P u" by (metis list.set_intros(1))
  with rest Cons.prems(3) show ?case using Cons.IH by (metis list.set_intros(2))
qed simp

lemma fold_res_total:
  assumes "P s" and "\<And>x s. x \<in> set xs \<Longrightarrow> P s \<Longrightarrow> \<exists>t. f x s = Inr t \<and> P t"
  shows "\<exists>t. fold_res f xs s = Inr t \<and> P t"
  using assms
proof (induction xs arbitrary: s)
  case (Cons x xs)
  then obtain u where "f x s = Inr u" "P u" by (metis list.set_intros(1))
  with Cons show ?case by (metis andThen_Inr fold_res.simps(2) list.set_intros(2))
qed simp

section \<open>Tables\<close>

text \<open>
  A table is the list of its rows; \<open>key\<close> reads the primary key. \<open>row_by\<close> is
  \<open>SELECT ... WHERE key = k\<close>, \<open>put_row\<close> writes a loaded row back, \<open>del_rows\<close> is
  \<open>DELETE ... WHERE\<close>.
\<close>

definition row_by :: "('r \<Rightarrow> 'k) \<Rightarrow> 'k \<Rightarrow> 'r list \<Rightarrow> 'r option" where
  "row_by key k rows = find (\<lambda>r. key r = k) rows"

definition put_row :: "('r \<Rightarrow> 'k) \<Rightarrow> 'r \<Rightarrow> 'r list \<Rightarrow> 'r list" where
  "put_row key r rows = map (\<lambda>x. if key x = key r then r else x) rows"

definition del_rows :: "('r \<Rightarrow> bool) \<Rightarrow> 'r list \<Rightarrow> 'r list" where
  "del_rows P rows = filter (\<lambda>r. \<not> P r) rows"

definition order_by :: "('r \<Rightarrow> 'k::linorder) \<Rightarrow> 'r list \<Rightarrow> 'r list" where
  "order_by f rows = sort_key f rows"

definition sql_limit :: "int \<Rightarrow> 'r list \<Rightarrow> 'r list" where
  "sql_limit n rows = take (nat n) rows"

lemma set_order_by [simp, tbl_simps]: "set (order_by f rows) = set rows"
  by (simp add: order_by_def)

lemma sorted_order_by [simp, tbl_simps]: "sorted (map f (order_by f rows))"
  by (simp add: order_by_def)

lemma length_order_by [simp, tbl_simps]: "length (order_by f rows) = length rows"
  by (simp add: order_by_def)

lemma set_sql_limit: "set (sql_limit n rows) \<subseteq> set rows"
  by (simp add: sql_limit_def set_take_subset)

lemma length_sql_limit [simp]: "length (sql_limit n rows) = min (length rows) (nat n)"
  by (simp add: sql_limit_def)

lemma set_put_row: "set (put_row key r rows) \<subseteq> insert r (set rows)"
  by (auto simp: put_row_def)

lemma set_del_rows [simp, tbl_simps]: "set (del_rows P rows) = {r \<in> set rows. \<not> P r}"
  by (auto simp: del_rows_def)

lemma length_put_row [simp, tbl_simps]: "length (put_row key r rows) = length rows"
  by (simp add: put_row_def)

lemma keys_put_row [simp, tbl_simps]: "map key (put_row key r rows) = map key rows"
  by (induction rows) (auto simp: put_row_def)

lemma row_by_SomeD: "row_by key k rows = Some r \<Longrightarrow> r \<in> set rows \<and> key r = k"
  by (induction rows) (auto simp: row_by_def split: if_splits)

lemma row_by_None_iff: "row_by key k rows = None \<longleftrightarrow> k \<notin> key ` set rows"
  by (induction rows) (auto simp: row_by_def)

lemma row_by_Some_iff:
  assumes "distinct (map key rows)"
  shows "row_by key k rows = Some r \<longleftrightarrow> r \<in> set rows \<and> key r = k"
  using assms by (induction rows) (auto simp: row_by_def)

lemma row_by_put_row [simp, tbl_simps]:
  "row_by key k (put_row key r rows) =
     (if k = key r then map_option (\<lambda>_. r) (row_by key k rows) else row_by key k rows)"
  by (induction rows) (auto simp: row_by_def put_row_def)

lemma row_by_append:
  "row_by key k (xs @ ys) = (case row_by key k xs of None \<Rightarrow> row_by key k ys | Some r \<Rightarrow> Some r)"
  by (induction xs) (auto simp: row_by_def)

lemma row_by_Cons: "row_by key k (x # xs) = (if key x = k then Some x else row_by key k xs)"
  by (simp add: row_by_def)

lemma row_by_Nil [simp]: "row_by key k [] = None"
  by (simp add: row_by_def)

lemma put_row_id: "row_by key (key r) rows = None \<Longrightarrow> put_row key r rows = rows"
  by (induction rows) (auto simp: row_by_def put_row_def split: if_splits)

lemma put_row_member:
  "row_by key (key r) rows = Some x \<Longrightarrow> r \<in> set (put_row key r rows)"
  by (induction rows) (auto simp: row_by_def put_row_def split: if_splits)

lemma put_row_Cons:
  "put_row key r (x # xs) = (if key x = key r then r else x) # put_row key r xs"
  by (simp add: put_row_def)

lemma put_row_Nil [simp]: "put_row key r [] = []"
  by (simp add: put_row_def)

text \<open>
  \<open>UPDATE ... WHERE P\<close> rewrites every row that satisfies \<open>P\<close>; \<open>rowcount\<close> is the
  number of rows it touched. The write is rejected as a whole when a new row violates
  the table's CHECK constraints.
\<close>

definition update_where ::
  "('r \<Rightarrow> bool) \<Rightarrow> 'e \<Rightarrow> ('r \<Rightarrow> bool) \<Rightarrow> ('r \<Rightarrow> 'r) \<Rightarrow> 'r list \<Rightarrow> 'e + ('r list \<times> nat)" where
  "update_where ok err P f rows =
     (if \<forall>r \<in> set rows. P r \<longrightarrow> ok (f r)
      then Inr (map (\<lambda>r. if P r then f r else r) rows, length (filter P rows))
      else Inl err)"

lemma update_where_InrD:
  assumes "update_where ok err P f rows = Inr (rows', n)"
  shows "rows' = map (\<lambda>r. if P r then f r else r) rows \<and> n = length (filter P rows)"
  using assms by (auto simp: update_where_def split: if_splits)

lemma row_by_map_update:
  assumes "\<And>r. key (f r) = key r"
  shows "row_by key k (map (\<lambda>r. if P r then f r else r) rows) =
         map_option (\<lambda>r. if P r then f r else r) (row_by key k rows)"
  using assms by (induction rows) (auto simp: row_by_def)

lemma keys_map_update:
  assumes "\<And>r. key (f r) = key r"
  shows "map key (map (\<lambda>r. if P r then f r else r) rows) = map key rows"
  using assms by (induction rows) auto

lemma ball_map_update:
  "(\<forall>r \<in> set (map (\<lambda>r. if P r then f r else r) rows). Q r) \<longleftrightarrow>
     (\<forall>r \<in> set rows. Q (if P r then f r else r))"
  by auto

text \<open>The rows of a primary-key predicate: at most one.\<close>

lemma filter_key_row_by:
  assumes "distinct (map key rows)"
  shows "filter (\<lambda>r. key r = k \<and> Q r) rows =
         (case row_by key k rows of None \<Rightarrow> [] | Some r \<Rightarrow> if Q r then [r] else [])"
  using assms
proof (induction rows)
  case (Cons x rows)
  have "k = key x \<Longrightarrow> filter (\<lambda>r. key r = k \<and> Q r) rows = []"
    using Cons.prems by (fastforce simp: filter_empty_conv image_iff)
  with Cons show ?case by (auto simp: row_by_Cons)
qed simp

lemma row_by_del_rows:
  "k' \<noteq> k \<Longrightarrow> row_by key k' (del_rows (\<lambda>r. key r = k) rows) = row_by key k' rows"
  by (induction rows) (auto simp: del_rows_def row_by_Cons)

text \<open>A column that the new row keeps is unchanged by the write.\<close>

lemma map_put_row_same:
  assumes "row_by key (key r) rows = Some old" and "g r = g old" and "distinct (map key rows)"
  shows "map g (put_row key r rows) = map g rows"
  using assms
proof (induction rows)
  case (Cons x rows)
  have "key x = key r \<Longrightarrow> put_row key r rows = rows"
    using Cons.prems(3) put_row_id [of key r rows] by (simp add: row_by_None_iff)
  with Cons show ?case by (auto simp: row_by_Cons put_row_Cons split: if_splits)
qed simp

text \<open>Counting rows.\<close>

lemma length_filter_mono:
  "(\<And>x. x \<in> set xs \<Longrightarrow> P x \<Longrightarrow> Q x) \<Longrightarrow> length (filter P xs) \<le> length (filter Q xs)"
  by (induction xs) (auto intro: le_SucI)

lemma length_filter_disjoint:
  "(\<And>x. x \<in> set xs \<Longrightarrow> \<not> (P x \<and> Q x)) \<Longrightarrow>
     length (filter P xs) + length (filter Q xs) = length (filter (\<lambda>x. P x \<or> Q x) xs)"
  by (induction xs) auto

lemma length_filter_put_row_le:
  assumes "row_by key (key r) rows = Some old" and "P r \<Longrightarrow> P old" and "distinct (map key rows)"
  shows "length (filter P (put_row key r rows)) \<le> length (filter P rows)"
  using assms
proof (induction rows)
  case (Cons x rows)
  have "key x = key r \<Longrightarrow> put_row key r rows = rows"
    using Cons.prems(3) put_row_id [of key r rows] by (simp add: row_by_None_iff)
  with Cons show ?case by (auto simp: row_by_Cons put_row_Cons split: if_splits)
qed simp

section \<open>Writing loaded rows back\<close>

text \<open>
  Flushing a changed row: the database refuses it when it violates the CHECK constraints
  of its table. \<open>write_rows\<close> is a loop over loaded rows that changes and flushes each.
\<close>

definition write_row :: "('r \<Rightarrow> 'k) \<Rightarrow> ('r \<Rightarrow> bool) \<Rightarrow> 'e \<Rightarrow> 'r \<Rightarrow> 'r list \<Rightarrow> 'e + 'r list" where
  "write_row key ok err r rows = (if ok r then Inr (put_row key r rows) else Inl err)"

definition write_rows ::
  "('r \<Rightarrow> 'k) \<Rightarrow> ('r \<Rightarrow> bool) \<Rightarrow> 'e \<Rightarrow> ('r \<Rightarrow> 'r) \<Rightarrow> 'r list \<Rightarrow> 'r list \<Rightarrow> 'e + 'r list" where
  "write_rows key ok err f picked rows = fold_res (\<lambda>j. write_row key ok err (f j)) picked rows"

lemma write_row_eq_Inr [res_simps]:
  "write_row key ok err r rows = Inr rows' \<longleftrightarrow> ok r \<and> rows' = put_row key r rows"
  by (auto simp: write_row_def)

lemma write_row_ok [simp]: "ok r \<Longrightarrow> write_row key ok err r rows = Inr (put_row key r rows)"
  by (simp add: write_row_def)

lemma write_rows_simps [simp]:
  "write_rows key ok err f [] rows = Inr rows"
  "write_rows key ok err f (j # picked) rows =
     andThen (write_row key ok err (f j) rows) (write_rows key ok err f picked)"
  by (simp_all add: write_rows_def [abs_def])

text \<open>
  The loop over distinct loaded rows rewrites exactly those rows, each once.
\<close>

lemma write_rows_Inr_row_by:
  assumes "write_rows key ok err f picked rows = Inr rows'"
    and "distinct (map key picked)" and "\<And>j. key (f j) = key j"
    and "\<And>j. j \<in> set picked \<Longrightarrow> row_by key (key j) rows = Some j"
  shows "row_by key k rows' =
         map_option (\<lambda>r. if r \<in> set picked then f r else r) (row_by key k rows)"
  using assms
proof (induction picked arbitrary: rows)
  case Nil
  then show ?case by (cases "row_by key k rows") auto
next
  case (Cons j picked)
  let ?mid = "put_row key (f j) rows"
  have rest: "write_rows key ok err f picked ?mid = Inr rows'"
    using Cons.prems(1) by (auto simp: andThen_eq_Inr write_row_eq_Inr)
  have diff: "\<And>i. i \<in> set picked \<Longrightarrow> key i \<noteq> key j"
    using Cons.prems(2) by (metis distinct.simps(2) image_eqI list.set_map list.simps(9))
  then have "\<And>i. i \<in> set picked \<Longrightarrow> row_by key (key i) ?mid = Some i"
    using Cons.prems(3,4) by auto
  then have "row_by key k rows' =
      map_option (\<lambda>r. if r \<in> set picked then f r else r) (row_by key k ?mid)"
    using Cons.IH [OF rest] Cons.prems(2,3) by auto
  moreover have "f j \<notin> set picked" using diff Cons.prems(3) by metis
  moreover have "j \<notin> set picked" using Cons.prems(2) by auto
  ultimately show ?case
    using Cons.prems(3,4) row_by_SomeD [of key k rows]
    by (cases "row_by key k rows") (auto split: if_splits)
qed

lemma write_rows_total:
  assumes "\<forall>j \<in> set picked. ok (f j)"
  shows "\<exists>rows'. write_rows key ok err f picked rows = Inr rows'"
  using assms by (induction picked arbitrary: rows) auto

lemma write_rows_picked_ok:
  "write_rows key ok err f picked rows = Inr rows' \<Longrightarrow> j \<in> set picked \<Longrightarrow> ok (f j)"
  by (induction picked arbitrary: rows) (auto simp: andThen_eq_Inr write_row_eq_Inr)

lemma write_rows_keys:
  "write_rows key ok err f picked rows = Inr rows' \<Longrightarrow> map key rows' = map key rows"
  by (induction picked arbitrary: rows) (auto simp: andThen_eq_Inr write_row_eq_Inr)

lemma write_rows_all_ok:
  "write_rows key ok err f picked rows = Inr rows' \<Longrightarrow> \<forall>r \<in> set rows. ok r \<Longrightarrow>
     \<forall>r \<in> set rows'. ok r"
  by (induction picked arbitrary: rows)
     (auto simp: andThen_eq_Inr write_row_eq_Inr dest!: subsetD [OF set_put_row])

text \<open>With distinct keys the loop is the map that rewrites the picked rows.\<close>

lemma rows_eqI:
  assumes "map key xs = map key ys" and "distinct (map key xs)"
    and "\<And>k. row_by key k xs = row_by key k ys"
  shows "xs = ys"
  using assms
proof (induction xs arbitrary: ys)
  case (Cons x xs)
  then obtain y zs where ys: "ys = y # zs" by (cases ys) auto
  with Cons.prems(3) [of "key x"] Cons.prems(1) have "x = y" by (simp add: row_by_Cons)
  have "row_by key k xs = row_by key k zs" for k
  proof (cases "k = key x")
    case True
    then show ?thesis
      using Cons.prems(1,2) ys by (metis (no_types, lifting) distinct.simps(2) list.set_map
          list.simps(9) list.inject row_by_None_iff)
  next
    case False
    then show ?thesis
      using Cons.prems(3) [of k] Cons.prems(1) ys by (simp add: row_by_Cons)
  qed
  with Cons ys \<open>x = y\<close> show ?case by simp
qed simp

lemma write_rows_map:
  assumes "write_rows key ok err f picked rows = Inr rows'"
    and "distinct (map key rows)" and "distinct (map key picked)"
    and "set picked \<subseteq> set rows" and "\<And>j. key (f j) = key j"
  shows "rows' = map (\<lambda>r. if r \<in> set picked then f r else r) rows"
proof (rule rows_eqI [of key])
  have mem: "\<And>j. j \<in> set picked \<Longrightarrow> row_by key (key j) rows = Some j"
    using assms(2,4) by (auto simp: row_by_Some_iff)
  show "map key rows' = map key (map (\<lambda>r. if r \<in> set picked then f r else r) rows)"
    using write_rows_keys [OF assms(1)] by (simp add: keys_map_update [of key f] assms(5))
  show "distinct (map key rows')" using write_rows_keys [OF assms(1)] assms(2) by simp
  show "row_by key k rows' = row_by key k (map (\<lambda>r. if r \<in> set picked then f r else r) rows)" for k
    using write_rows_Inr_row_by [OF assms(1,3,5) mem]
    by (simp add: row_by_map_update [of key f] assms(5))
qed

lemma distinct_map_filter_sub:
  "distinct (map key rows) \<Longrightarrow> distinct (map key (filter P rows))"
  by (simp add: distinct_map_filter)

lemma distinct_map_order_limit:
  "distinct (map key rows) \<Longrightarrow> distinct (map key (sql_limit n (order_by g rows)))"
  by (simp add: sql_limit_def order_by_def take_map [symmetric] distinct_map distinct_take
      inj_on_subset [OF _ set_take_subset])

lemma distinct_map_order_by: "distinct (map key rows) \<Longrightarrow> distinct (map key (order_by g rows))"
  by (simp add: order_by_def distinct_map)

text \<open>What an ordered and limited select leaves out is not smaller than what it returns.\<close>

lemma order_by_limit_le:
  assumes "x \<in> set (sql_limit n (order_by f rows))" and "y \<in> set rows"
    and "y \<notin> set (sql_limit n (order_by f rows))"
  shows "f x \<le> f y"
proof -
  let ?xs = "order_by f rows"
  have "y \<in> set (take (nat n) ?xs @ drop (nat n) ?xs)" using assms(2) by simp
  then have y: "y \<in> set (drop (nat n) ?xs)" using assms(3) by (simp only: set_append sql_limit_def Un_iff) simp
  have "sorted (map f (take (nat n) ?xs) @ map f (drop (nat n) ?xs))"
    by (simp only: map_append [symmetric] append_take_drop_id sorted_order_by)
  with assms(1) y show ?thesis by (auto simp: sorted_append sql_limit_def)
qed

section \<open>Row evolution\<close>

text \<open>
  \<open>evolves key R rows rows'\<close>: every row of the old table is still there under its key, and
  the new row is \<open>R\<close>-related to it. An operation's effect on a table is proved once per
  operation in this form; reflexive and transitive \<open>R\<close> compose over loops and runs.
\<close>

definition evolves :: "('r \<Rightarrow> 'k) \<Rightarrow> ('r \<Rightarrow> 'r \<Rightarrow> bool) \<Rightarrow> 'r list \<Rightarrow> 'r list \<Rightarrow> bool" where
  "evolves key R rows rows' \<longleftrightarrow>
     (\<forall>k r. row_by key k rows = Some r \<longrightarrow> (\<exists>r'. row_by key k rows' = Some r' \<and> R r r'))"

lemma evolvesD:
  "evolves key R rows rows' \<Longrightarrow> row_by key k rows = Some r \<Longrightarrow>
     \<exists>r'. row_by key k rows' = Some r' \<and> R r r'"
  by (simp add: evolves_def)

lemma evolves_refl: "reflp R \<Longrightarrow> evolves key R rows rows"
  by (auto simp: evolves_def reflp_def)

lemma evolves_trans:
  "transp R \<Longrightarrow> evolves key R a b \<Longrightarrow> evolves key R b c \<Longrightarrow> evolves key R a c"
  unfolding evolves_def transp_def by metis

lemma evolves_append: "reflp R \<Longrightarrow> evolves key R rows (rows @ new)"
  by (auto simp: evolves_def row_by_append reflp_def)

lemma evolves_put_row:
  assumes "reflp R" and "row_by key (key r') rows = Some r" and "R r r'"
  shows "evolves key R rows (put_row key r' rows)"
  using assms by (auto simp: evolves_def reflp_def)

lemma evolves_map_update:
  assumes "reflp R" and "\<And>r. key (f r) = key r" and "\<And>r. P r \<Longrightarrow> R r (f r)"
  shows "evolves key R rows (map (\<lambda>r. if P r then f r else r) rows)"
  using assms by (auto simp: evolves_def row_by_map_update reflp_def)

lemma evolves_write_rows:
  assumes "write_rows key ok err f picked rows = Inr rows'" and "reflp R"
    and "distinct (map key picked)" and "\<And>j. key (f j) = key j"
    and "\<And>j. j \<in> set picked \<Longrightarrow> row_by key (key j) rows = Some j"
    and "\<And>j. j \<in> set picked \<Longrightarrow> R j (f j)"
  shows "evolves key R rows rows'"
  using assms write_rows_Inr_row_by [OF assms(1,3,4,5)]
  by (auto simp: evolves_def reflp_def)

lemma evolves_keys:
  "evolves key R rows rows' \<Longrightarrow> key ` set rows \<subseteq> key ` set rows'"
  by (metis evolves_def image_subsetI option.distinct(1) option.exhaust row_by_None_iff imageI)

section \<open>Ordered optional reads\<close>

text \<open>
  \<open>column > t\<close> with a NULL column is not true: \<open>opt_gt\<close> and \<open>opt_le\<close> are the
  comparisons of a nullable column.
\<close>

definition opt_gt :: "time option \<Rightarrow> time \<Rightarrow> bool" where
  "opt_gt c t = (case c of None \<Rightarrow> False | Some x \<Rightarrow> x > t)"

definition opt_le :: "time option \<Rightarrow> time \<Rightarrow> bool" where
  "opt_le c t = (case c of None \<Rightarrow> False | Some x \<Rightarrow> x \<le> t)"

lemma opt_gt_simps [simp]: "opt_gt None t = False" "opt_gt (Some x) t = (t < x)"
  by (simp_all add: opt_gt_def)

lemma opt_le_simps [simp]: "opt_le None t = False" "opt_le (Some x) t = (x \<le> t)"
  by (simp_all add: opt_le_def)

text \<open>\<open>column IS NOT NULL AND P(column)\<close>\<close>

definition present :: "'a option \<Rightarrow> ('a \<Rightarrow> bool) \<Rightarrow> bool" where
  "present x P = (case x of None \<Rightarrow> False | Some t \<Rightarrow> P t)"

lemma present_iff [simp]: "present x P \<longleftrightarrow> (\<exists>t. x = Some t \<and> P t)"
  by (cases x) (simp_all add: present_def)

lemma opt_gt_not_le: "opt_gt c t \<Longrightarrow> \<not> opt_le c t"
  by (cases c) auto

end
