(* ===== verification/Byte_Progress.thy ===== *)
theory Byte_Progress
  imports Prelude
begin

text \<open>
  Download percentages: \<open>downloads/byte_progress.py\<close>, which turns observed bytes into a percentage
  and decides when it is written to the database, and the \<open>CoalescingProgressWriter\<close> of
  \<open>downloads/process_download.py\<close>, which keeps at most one such write in flight. Times are
  microseconds of the monotonic clock; the constants of the code are multiples of half a second.
\<close>

section \<open>Percentages\<close>

definition PROGRESS_PERCENT_MIN :: int where "PROGRESS_PERCENT_MIN = 0"
definition PROGRESS_PERCENT_MAX :: int where "PROGRESS_PERCENT_MAX = 99"
definition PROGRESS_WRITE_INTERVAL :: time where "PROGRESS_WRITE_INTERVAL = 500000"
definition PROGRESS_BACKOFF_INITIAL :: time where "PROGRESS_BACKOFF_INITIAL = 500000"
definition PROGRESS_BACKOFF_MAX :: time where "PROGRESS_BACKOFF_MAX = 8000000"

definition progress_percent :: "int \<Rightarrow> int option \<Rightarrow> int option \<Rightarrow> int option" where
  "progress_percent observed_bytes expected_bytes previous =
     (case expected_bytes of
        None \<Rightarrow> None
      | Some expected \<Rightarrow>
          if expected \<le> 0 then None
          else
            let observed = max 0 observed_bytes;
                raw = (observed * 100) div expected;
                bounded = min PROGRESS_PERCENT_MAX (max PROGRESS_PERCENT_MIN raw)
            in (case previous of None \<Rightarrow> Some bounded | Some p \<Rightarrow> Some (max p bounded)))"

definition should_persist_percent :: "int option \<Rightarrow> int option \<Rightarrow> time \<Rightarrow> time \<Rightarrow> bool" where
  "should_persist_percent candidate stored elapsed min_interval =
     (case candidate of
        None \<Rightarrow> False
      | Some c \<Rightarrow>
          (case stored of
             None \<Rightarrow> True
           | Some s \<Rightarrow> \<not> c \<le> s \<and> min_interval \<le> elapsed))"

section \<open>The gate\<close>

record gate =
  g_min_interval :: time
  g_backoff_initial :: time
  g_backoff_max :: time
  g_backoff :: time
  max_observed_percent :: "int option"
  last_persisted_percent :: "int option"
  last_persist_attempt_at :: "time option"
  last_successful_write_at :: "time option"
  ownership_lost :: bool
  observed_sample_count :: nat
  persisted_update_count :: nat

definition new_gate :: gate where
  "new_gate =
     \<lparr>g_min_interval = PROGRESS_WRITE_INTERVAL, g_backoff_initial = PROGRESS_BACKOFF_INITIAL,
      g_backoff_max = PROGRESS_BACKOFF_MAX, g_backoff = PROGRESS_BACKOFF_INITIAL,
      max_observed_percent = None, last_persisted_percent = None, last_persist_attempt_at = None,
      last_successful_write_at = None, ownership_lost = False, observed_sample_count = 0,
      persisted_update_count = 0\<rparr>"

definition throttle_elapsed :: "time \<Rightarrow> gate \<Rightarrow> time" where
  "throttle_elapsed now g =
     (case last_successful_write_at g of None \<Rightarrow> g_min_interval g | Some t \<Rightarrow> now - t)"

definition in_backoff :: "time \<Rightarrow> gate \<Rightarrow> bool" where
  "in_backoff now g =
     (case last_persist_attempt_at g of
        None \<Rightarrow> False
      | Some a \<Rightarrow>
          (case last_successful_write_at g of
             Some w \<Rightarrow> if a \<le> w then False else now - a < g_backoff g
           | None \<Rightarrow> now - a < g_backoff g))"

definition should_attempt_persist :: "time \<Rightarrow> time \<Rightarrow> gate \<Rightarrow> bool" where
  "should_attempt_persist now now2 g =
     (if ownership_lost g then False
      else if \<not> should_persist_percent (max_observed_percent g) (last_persisted_percent g)
                (throttle_elapsed now g) (g_min_interval g) then False
      else \<not> in_backoff now2 g)"

definition note_observed :: "time \<Rightarrow> time \<Rightarrow> int option \<Rightarrow> gate \<Rightarrow> int option \<times> gate" where
  "note_observed now now2 candidate g =
     (case candidate of
        None \<Rightarrow> (None, g)
      | Some c \<Rightarrow>
          if ownership_lost g then (None, g)
          else
            let g' = g\<lparr>max_observed_percent :=
                         Some (case max_observed_percent g of None \<Rightarrow> c | Some m \<Rightarrow> max m c)\<rparr>
            in if \<not> should_attempt_persist now now2 g' then (None, g')
               else (max_observed_percent g', g'))"

definition mark_persisted :: "time \<Rightarrow> int \<Rightarrow> gate \<Rightarrow> gate" where
  "mark_persisted now percent g =
     g\<lparr>last_persisted_percent := Some percent, last_successful_write_at := Some now,
       last_persist_attempt_at := Some now, g_backoff := g_backoff_initial g,
       persisted_update_count := persisted_update_count g + 1\<rparr>"

definition mark_attempt_failed :: "time \<Rightarrow> gate \<Rightarrow> gate" where
  "mark_attempt_failed now g =
     g\<lparr>last_persist_attempt_at := Some now,
       g_backoff := min (max (g_backoff g) (g_backoff_initial g) * 2) (g_backoff_max g)\<rparr>"

definition mark_ownership_lost :: "gate \<Rightarrow> gate" where
  "mark_ownership_lost g = g\<lparr>ownership_lost := True\<rparr>"

text \<open>The fenced write that \<open>ingest\<close> awaits: it applies, is refused, or raises.\<close>

datatype persist_outcome = Applied | Refused | Raised

text \<open>
  One call of \<open>ingest\<close>: the observation, the clock readings before and after the write, and what
  the write would do. \<open>ingest\<close> returns the percentage it passed to \<open>persist\<close>, if it called it.
\<close>

record sample =
  s_observed :: int
  s_expected :: "int option"
  s_force :: bool
  s_now :: time
  s_now2 :: time
  s_after :: time
  s_outcome :: persist_outcome

definition attempt :: "sample \<Rightarrow> int \<Rightarrow> gate \<Rightarrow> int option \<times> gate" where
  "attempt s to_write g =
     (Some to_write,
      case s_outcome s of
        Raised \<Rightarrow> mark_attempt_failed (s_after s) g
      | Applied \<Rightarrow> mark_persisted (s_after s) to_write g
      | Refused \<Rightarrow> mark_ownership_lost g)"

definition ingest :: "sample \<Rightarrow> gate \<Rightarrow> int option \<times> gate" where
  "ingest s g0 =
     (if ownership_lost g0 then (None, g0)
      else
        let g = g0\<lparr>observed_sample_count := observed_sample_count g0 + 1\<rparr>;
            candidate = progress_percent (s_observed s) (s_expected s) (max_observed_percent g)
        in if s_force s then
             (case candidate of
                None \<Rightarrow> (None, g)
              | Some c \<Rightarrow>
                  let to_write = (case max_observed_percent g of None \<Rightarrow> c | Some m \<Rightarrow> max m c);
                      g' = g\<lparr>max_observed_percent := Some to_write\<rparr>
                  in (case last_persisted_percent g' of
                        Some p \<Rightarrow> if to_write \<le> p then (None, g') else attempt s to_write g'
                      | None \<Rightarrow> attempt s to_write g'))
           else
             (case note_observed (s_now s) (s_now2 s) candidate g of
                (None, g') \<Rightarrow> (None, g')
              | (Some to_write, g') \<Rightarrow> attempt s to_write g'))"

text \<open>A stage is a series of samples; \<open>attempts\<close> keeps each sample with what it tried to write.\<close>

fun ingest_all :: "sample list \<Rightarrow> gate \<Rightarrow> (sample \<times> int) list \<times> gate" where
  "ingest_all [] g = ([], g)"
| "ingest_all (s # ss) g =
     (case ingest s g of
        (w, g1) \<Rightarrow>
          (case ingest_all ss g1 of
             (ws, g2) \<Rightarrow> ((case w of None \<Rightarrow> [] | Some p \<Rightarrow> [(s, p)]) @ ws, g2)))"

definition confirmed :: "(sample \<times> int) list \<Rightarrow> (sample \<times> int) list" where
  "confirmed ws = filter (\<lambda>(s, _). s_outcome s = Applied) ws"

definition diagnostic_snapshot :: "bool \<Rightarrow> gate \<Rightarrow> nat \<times> nat \<times> int option \<times> bool" where
  "diagnostic_snapshot expected_size_known g =
     (observed_sample_count g, persisted_update_count g, last_persisted_percent g, expected_size_known)"

section \<open>The best percentage of a stage\<close>

text \<open>What the samples of a stage amount to, for a known size.\<close>

definition percent_of :: "int \<Rightarrow> int \<Rightarrow> int" where
  "percent_of expected observed = min 99 (max 0 observed * 100 div expected)"

lemma percent_of_range: "0 < e \<Longrightarrow> 0 \<le> percent_of e n \<and> percent_of e n \<le> 99"
  by (simp add: percent_of_def pos_imp_zdiv_nonneg_iff)

lemma percent_of_mono: "0 < e \<Longrightarrow> a \<le> b \<Longrightarrow> percent_of e a \<le> percent_of e b"
  unfolding percent_of_def by (intro min.mono order.refl zdiv_mono1 mult_right_mono max.mono) auto

lemma percent_of_max: "0 < e \<Longrightarrow> percent_of e (max a b) = max (percent_of e a) (percent_of e b)"
  using percent_of_mono [of e a b] percent_of_mono [of e b a] by (auto simp: max_def)

lemma percent_of_nonpos: "n \<le> 0 \<Longrightarrow> percent_of e n = 0"
  by (simp add: percent_of_def)

lemma progress_percent_eq:
  "0 < e \<Longrightarrow> progress_percent n (Some e) prev =
     Some (case prev of None \<Rightarrow> percent_of e n | Some p \<Rightarrow> max p (percent_of e n))"
  by (auto simp: progress_percent_def percent_of_def PROGRESS_PERCENT_MAX_def PROGRESS_PERCENT_MIN_def
      Let_def pos_imp_zdiv_nonneg_iff max_absorb2 split: option.splits)

lemma progress_percent_bounds:
  assumes "progress_percent n e prev = Some c"
    and "\<And>p. prev = Some p \<Longrightarrow> 0 \<le> p \<and> p \<le> 99"
  shows "0 \<le> c" "c \<le> 99" "\<And>p. prev = Some p \<Longrightarrow> p \<le> c"
proof -
  obtain e' where e: "e = Some e'" "0 < e'"
    using assms(1) by (auto simp: progress_percent_def split: option.splits if_splits)
  show "0 \<le> c" "c \<le> 99" "\<And>p. prev = Some p \<Longrightarrow> p \<le> c"
    using assms percent_of_range [OF e(2), of n]
    by (auto simp: e progress_percent_eq split: option.splits)
qed

section \<open>What one sample does\<close>

text \<open>The settings of a gate never change, and what was persisted was observed.\<close>

definition gate_ok :: "gate \<Rightarrow> bool" where
  "gate_ok g \<longleftrightarrow>
     g_min_interval g = PROGRESS_WRITE_INTERVAL \<and> g_backoff_initial g = PROGRESS_BACKOFF_INITIAL \<and>
     g_backoff_max g = PROGRESS_BACKOFF_MAX \<and>
     PROGRESS_BACKOFF_INITIAL \<le> g_backoff g \<and>
     (\<forall>m. max_observed_percent g = Some m \<longrightarrow> 0 \<le> m \<and> m \<le> 99) \<and>
     (\<forall>p. last_persisted_percent g = Some p \<longrightarrow>
        (\<exists>m. max_observed_percent g = Some m \<and> p \<le> m)) \<and>
     (last_persisted_percent g = None \<longleftrightarrow> last_successful_write_at g = None)"

lemma new_gate_ok: "gate_ok new_gate"
  by (simp add: gate_ok_def new_gate_def)

text \<open>
  The two ways a sample ends: it only raises the observed maximum, or it attempts to write the new
  maximum, which is above everything persisted.
\<close>

definition observed_by :: "sample \<Rightarrow> gate \<Rightarrow> gate" where
  "observed_by s g =
     g\<lparr>observed_sample_count := observed_sample_count g + 1,
       max_observed_percent :=
         (case progress_percent (s_observed s) (s_expected s) (max_observed_percent g) of
            None \<Rightarrow> max_observed_percent g | Some c \<Rightarrow> Some c)\<rparr>"

lemma observed_by_simps [simp]:
  "g_min_interval (observed_by s g) = g_min_interval g"
  "g_backoff_initial (observed_by s g) = g_backoff_initial g"
  "g_backoff_max (observed_by s g) = g_backoff_max g"
  "g_backoff (observed_by s g) = g_backoff g"
  "last_persisted_percent (observed_by s g) = last_persisted_percent g"
  "last_persist_attempt_at (observed_by s g) = last_persist_attempt_at g"
  "last_successful_write_at (observed_by s g) = last_successful_write_at g"
  "ownership_lost (observed_by s g) = ownership_lost g"
  "persisted_update_count (observed_by s g) = persisted_update_count g"
  by (simp_all add: observed_by_def)

definition may_attempt :: "sample \<Rightarrow> gate \<Rightarrow> bool" where
  "may_attempt s g \<longleftrightarrow>
     (\<forall>p m. last_persisted_percent g = Some p \<longrightarrow>
        max_observed_percent g = Some m \<longrightarrow> p < m) \<and>
     (\<not> s_force s \<longrightarrow> should_attempt_persist (s_now s) (s_now2 s) g)"

lemma max_with_candidate:
  assumes "gate_ok g"
    and "progress_percent n e (max_observed_percent g) = Some c"
  shows "(case max_observed_percent g of None \<Rightarrow> c | Some m \<Rightarrow> max m c) = c"
  using progress_percent_bounds(3) [OF assms(2)] assms(1)
  by (auto simp: gate_ok_def max_absorb2 split: option.splits)

lemma record_update_same:
  "g\<lparr>observed_sample_count := n, max_observed_percent := max_observed_percent g\<rparr>
     = g\<lparr>observed_sample_count := n\<rparr>"
  by simp

lemma quiet_or_tried:
  assumes ok: "gate_ok g" and own: "\<not> ownership_lost g"
    and cand: "progress_percent (s_observed s) (s_expected s) (max_observed_percent g) = Some c"
  shows "ingest s g =
     (if may_attempt s (observed_by s g) then attempt s c (observed_by s g) else (None, observed_by s g))"
proof -
  note best = max_with_candidate [OF ok cand]
  have obs: "observed_by s g = g\<lparr>observed_sample_count := observed_sample_count g + 1,
      max_observed_percent := Some c\<rparr>"
    by (simp add: observed_by_def cand)
  show ?thesis
  proof (cases "s_force s")
    case True
    then show ?thesis
      using own by (simp add: ingest_def Let_def cand best obs may_attempt_def not_le split: option.split)
  next
    case False
    have stored: "should_attempt_persist (s_now s) (s_now2 s) (observed_by s g) \<Longrightarrow>
        \<forall>p m. last_persisted_percent (observed_by s g) = Some p \<longrightarrow>
          max_observed_percent (observed_by s g) = Some m \<longrightarrow> p < m"
      by (auto simp: should_attempt_persist_def should_persist_percent_def split: if_splits option.splits)
    have "note_observed (s_now s) (s_now2 s) (Some c) (g\<lparr>observed_sample_count := observed_sample_count g + 1\<rparr>)
        = (if should_attempt_persist (s_now s) (s_now2 s) (observed_by s g) then Some c else None,
           observed_by s g)"
      using own by (simp add: note_observed_def Let_def best obs)
    then show ?thesis
      using own False stored by (auto simp: ingest_def Let_def cand may_attempt_def)
  qed
qed

lemma no_candidate:
  assumes "progress_percent (s_observed s) (s_expected s) (max_observed_percent g) = None"
  shows "ingest s g = (None, if ownership_lost g then g else observed_by s g)"
  using assms by (simp add: ingest_def note_observed_def observed_by_def Let_def)

lemma ingest_cases:
  assumes ok: "gate_ok g" and run: "ingest s g = (w, g')"
  obtains
    (lost) "ownership_lost g" "w = None" "g' = g"
  | (quiet) "\<not> ownership_lost g" "w = None" "g' = observed_by s g"
  | (tried) m where "\<not> ownership_lost g" "w = Some m"
      "max_observed_percent (observed_by s g) = Some m"
      "may_attempt s (observed_by s g)" "g' = snd (attempt s m (observed_by s g))"
proof (cases "ownership_lost g")
  case True
  with run show ?thesis by (intro lost) (simp_all add: ingest_def)
next
  case own: False
  show ?thesis
  proof (cases "progress_percent (s_observed s) (s_expected s) (max_observed_percent g)")
    case None
    with run own show ?thesis by (intro quiet) (simp_all add: no_candidate)
  next
    case (Some c)
    have m: "max_observed_percent (observed_by s g) = Some c"
      by (simp add: observed_by_def Some)
    show ?thesis
      using run own quiet_or_tried [OF ok own Some] tried [OF own _ m] quiet
      by (auto simp: attempt_def split: if_splits)
  qed
qed

lemma observed_by_ok: "gate_ok g \<Longrightarrow> gate_ok (observed_by s g)"
proof -
  assume ok: "gate_ok g"
  show ?thesis
  proof (cases "progress_percent (s_observed s) (s_expected s) (max_observed_percent g)")
    case (Some c)
    have "0 \<le> c" "c \<le> 99" "\<And>p. max_observed_percent g = Some p \<Longrightarrow> p \<le> c"
      using progress_percent_bounds [OF Some] ok by (auto simp: gate_ok_def)
    with ok show ?thesis
      by (fastforce simp: gate_ok_def observed_by_def Some)
  qed (use ok in \<open>simp add: gate_ok_def observed_by_def\<close>)
qed

lemma attempt_ok:
  assumes "gate_ok g" and "max_observed_percent g = Some m"
  shows "gate_ok (snd (attempt s m g))"
  using assms
  by (auto simp: gate_ok_def attempt_def mark_persisted_def mark_attempt_failed_def
      mark_ownership_lost_def PROGRESS_BACKOFF_INITIAL_def PROGRESS_BACKOFF_MAX_def
      split: persist_outcome.split)

lemma ingest_ok:
  assumes ok: "gate_ok g" and run: "ingest s g = (w, g')"
  shows "gate_ok g'"
  using ok run by (cases rule: ingest_cases [OF ok run]) (simp_all add: observed_by_ok attempt_ok)

section \<open>A whole stage\<close>

lemma attempt_last:
  "last_persisted_percent (snd (attempt s m g)) =
     (if s_outcome s = Applied then Some m else last_persisted_percent g)"
  "persisted_update_count (snd (attempt s m g)) =
     (if s_outcome s = Applied then persisted_update_count g + 1 else persisted_update_count g)"
  "ownership_lost (snd (attempt s m g)) \<longleftrightarrow> s_outcome s = Refused \<or> ownership_lost g"
  "max_observed_percent (snd (attempt s m g)) = max_observed_percent g"
  by (simp_all add: attempt_def mark_persisted_def mark_attempt_failed_def mark_ownership_lost_def
      split: persist_outcome.split)

lemma tried_range:
  assumes "gate_ok g" "ingest s g = (Some m, g')"
  shows "0 \<le> m" "m \<le> 99" "\<And>q. last_persisted_percent g = Some q \<Longrightarrow> q < m"
    "\<not> ownership_lost g" "g' = snd (attempt s m (observed_by s g))"
  using assms(2) observed_by_ok [OF assms(1), of s]
  by (auto elim!: ingest_cases [OF assms(1)] simp: may_attempt_def gate_ok_def)

lemma ingest_None_keeps:
  assumes "gate_ok g" "ingest s g = (None, g')"
  shows "last_persisted_percent g' = last_persisted_percent g"
    "persisted_update_count g' = persisted_update_count g"
    "ownership_lost g' = ownership_lost g"
    "last_persist_attempt_at g' = last_persist_attempt_at g"
  using assms(2) by (auto elim!: ingest_cases [OF assms(1)])

lemma lost_is_final: "ownership_lost g \<Longrightarrow> ingest_all ss g = ([], g)"
  by (induction ss) (simp_all add: ingest_def)

lemma confirmed_simps [simp]:
  "confirmed [] = []"
  "confirmed (x # ws) = (if s_outcome (fst x) = Applied then x # confirmed ws else confirmed ws)"
  by (simp_all add: confirmed_def split: prod.split)

lemma set_confirmed: "x \<in> set (confirmed ws) \<Longrightarrow> x \<in> set ws"
  by (auto simp: confirmed_def)

definition stage_report :: "(sample \<times> int) list \<Rightarrow> gate \<Rightarrow> gate \<Rightarrow> bool" where
  "stage_report ws g g2 \<longleftrightarrow>
     sorted_wrt (<) (map snd (confirmed ws)) \<and>
     (\<forall>x\<in>set ws. 0 \<le> snd x \<and> snd x \<le> 99 \<and>
        (\<forall>q. last_persisted_percent g = Some q \<longrightarrow> q < snd x)) \<and>
     (\<forall>x\<in>set (butlast ws). s_outcome (fst x) \<noteq> Refused) \<and>
     persisted_update_count g2 = persisted_update_count g + length (confirmed ws) \<and>
     last_persisted_percent g2 =
       (if confirmed ws = [] then last_persisted_percent g else Some (snd (last (confirmed ws))))"

lemma stage_report_step:
  assumes ok: "gate_ok g" and step: "ingest s g = (Some m, g1)"
    and rest: "ingest_all ss g1 = (ws, g2)" and rep: "stage_report ws g1 g2"
  shows "stage_report ((s, m) # ws) g g2"
proof -
  note t = tried_range [OF ok step]
  have g1: "last_persisted_percent g1 = (if s_outcome s = Applied then Some m else last_persisted_percent g)"
    "persisted_update_count g1 =
       (if s_outcome s = Applied then persisted_update_count g + 1 else persisted_update_count g)"
    by (simp_all add: t(5) attempt_last)
  have "ws = []" if "s_outcome s = Refused"
  proof -
    have "ownership_lost g1" by (simp add: t(5) attempt_last that)
    with rest show ?thesis by (simp add: lost_is_final)
  qed
  then show ?thesis
    using rep t(1-3) g1 set_confirmed [of _ ws] unfolding stage_report_def
    by (cases "s_outcome s") (fastforce split: if_splits)+
qed

lemma stage_reports: "gate_ok g \<Longrightarrow> ingest_all ss g = (ws, g2) \<Longrightarrow> stage_report ws g g2"
proof (induction ss arbitrary: g ws)
  case Nil
  then show ?case by (simp add: stage_report_def)
next
  case (Cons s ss)
  obtain w g1 where step: "ingest s g = (w, g1)" by (cases "ingest s g") auto
  obtain ws' where rest: "ingest_all ss g1 = (ws', g2)"
    and ws: "ws = (case w of None \<Rightarrow> [] | Some p \<Rightarrow> [(s, p)]) @ ws'"
    using Cons.prems(2) step by (auto split: prod.splits)
  have rep: "stage_report ws' g1 g2"
    using Cons.IH [OF ingest_ok [OF Cons.prems(1) step] rest] .
  show ?case
  proof (cases w)
    case None
    with rep ws ingest_None_keeps [OF Cons.prems(1), of s g1] step show ?thesis
      by (simp add: stage_report_def)
  next
    case (Some m)
    then show ?thesis
      using stage_report_step [OF Cons.prems(1) _ rest rep] step ws by simp
  qed
qed

text \<open>The readings of the clock are in the order in which they are taken.\<close>

definition clocked :: "sample list \<Rightarrow> bool" where
  "clocked ss \<longleftrightarrow>
     (\<forall>s\<in>set ss. s_now s \<le> s_now2 s \<and> s_now2 s \<le> s_after s) \<and>
     sorted_wrt (\<lambda>a b. s_after a \<le> s_now b) ss"

lemma unforced_waits:
  assumes ok: "gate_ok g" and step: "ingest s g = (Some m, g')" and "\<not> s_force s"
    and prev: "last_persist_attempt_at g = Some a" and "s_now s \<le> s_now2 s"
  shows "a + PROGRESS_WRITE_INTERVAL \<le> s_now2 s"
proof -
  from ok step have "may_attempt s (observed_by s g)" by (auto elim: ingest_cases)
  then have "should_attempt_persist (s_now s) (s_now2 s) (observed_by s g)"
    using assms(3) by (simp add: may_attempt_def)
  then show ?thesis
    using ok prev assms(5)
    by (auto simp: should_attempt_persist_def should_persist_percent_def in_backoff_def
        throttle_elapsed_def gate_ok_def PROGRESS_WRITE_INTERVAL_def PROGRESS_BACKOFF_INITIAL_def
        split: if_splits option.splits)
qed

lemma attempt_time:
  "s_outcome s \<noteq> Refused \<Longrightarrow> last_persist_attempt_at (snd (attempt s m g)) = Some (s_after s)"
  by (cases "s_outcome s") (simp_all add: attempt_def mark_persisted_def mark_attempt_failed_def)

definition spaced :: "sample \<times> int \<Rightarrow> sample \<times> int \<Rightarrow> bool" where
  "spaced a b \<longleftrightarrow>
     s_force (fst b) \<or> s_after (fst a) + PROGRESS_WRITE_INTERVAL \<le> s_now2 (fst b)"

lemma attempts_spaced:
  assumes "gate_ok g" "ingest_all ss g = (ws, g2)" "clocked ss"
    and "\<And>a s. last_persist_attempt_at g = Some a \<Longrightarrow> s \<in> set ss \<Longrightarrow> a \<le> s_now s"
  shows "sorted_wrt spaced ws \<and>
    (\<forall>a. last_persist_attempt_at g = Some a \<longrightarrow>
       (\<forall>x\<in>set ws. s_force (fst x) \<or> a + PROGRESS_WRITE_INTERVAL \<le> s_now2 (fst x)))"
  using assms
proof (induction ss arbitrary: g ws)
  case Nil
  then show ?case by simp
next
  case (Cons s ss)
  note ok = Cons.prems(1)
  obtain w g1 where step: "ingest s g = (w, g1)" by (cases "ingest s g") auto
  obtain ws' where rest: "ingest_all ss g1 = (ws', g2)"
    and ws: "ws = (case w of None \<Rightarrow> [] | Some p \<Rightarrow> [(s, p)]) @ ws'"
    using Cons.prems(2) step by (auto split: prod.splits)
  have clk: "clocked ss" "s_now s \<le> s_now2 s" "s_now2 s \<le> s_after s"
    "\<And>b. b \<in> set ss \<Longrightarrow> s_after s \<le> s_now b"
    using Cons.prems(3) by (auto simp: clocked_def)
  note IH = Cons.IH [OF ingest_ok [OF ok step] rest clk(1)]
  show ?case
  proof (cases w)
    case None
    with IH ws Cons.prems(4) ingest_None_keeps [OF ok, of s g1] step show ?thesis by auto
  next
    case (Some m)
    note t = tried_range [OF ok step [unfolded Some]]
    have here: "s_force s \<or> a + PROGRESS_WRITE_INTERVAL \<le> s_now2 s"
      if "last_persist_attempt_at g = Some a" for a
      using unforced_waits [OF ok step [unfolded Some] _ that] clk(2) by blast
    show ?thesis
    proof (cases "s_outcome s = Refused")
      case True
      with t(5) rest have "ws' = []" by (simp add: attempt_last lost_is_final)
      with ws Some here show ?thesis by simp
    next
      case False
      with t(5) have at: "last_persist_attempt_at g1 = Some (s_after s)" by (simp add: attempt_time)
      with IH clk(4) have later: "sorted_wrt spaced ws'"
        "\<forall>x\<in>set ws'. s_force (fst x) \<or> s_after s + PROGRESS_WRITE_INTERVAL \<le> s_now2 (fst x)"
        by auto
      have "a \<le> s_after s" if "last_persist_attempt_at g = Some a" for a
        using Cons.prems(4) [OF that, of s] clk(2,3) by simp
      note before = this
      have "s_force (fst x) \<or> a + PROGRESS_WRITE_INTERVAL \<le> s_now2 (fst x)"
        if "x \<in> set ws" "last_persist_attempt_at g = Some a" for x a
        using that later(2) here [OF that(2)] before [OF that(2)] ws Some by auto
      moreover have "sorted_wrt spaced ws"
        using later ws Some by (simp add: spaced_def)
      ultimately show ?thesis by blast
    qed
  qed
qed

text \<open>C32. The percentages written during a stage strictly increase and stay between 0 and 99, the gate
  remembers exactly the last confirmed one and counts them, a refused write is the last one tried,
  and after any attempt, failed or not, the next unforced one waits at least half a second.
\<close>

theorem stage_writes_increase:
  assumes "ingest_all ss new_gate = (ws, g)" and "clocked ss"
  shows "sorted_wrt (<) (map snd (confirmed ws)) \<and>
    (\<forall>(s, p)\<in>set ws. 0 \<le> p \<and> p \<le> 99) \<and>
    last_persisted_percent g = (if confirmed ws = [] then None else Some (snd (last (confirmed ws)))) \<and>
    persisted_update_count g = length (confirmed ws) \<and>
    (\<forall>x\<in>set (butlast ws). s_outcome (fst x) \<noteq> Refused) \<and>
    sorted_wrt (\<lambda>(a, _) (b, _). \<not> s_force b \<longrightarrow> s_after a + 500000 \<le> s_now2 b) ws"
proof -
  have "stage_report ws new_gate g" by (rule stage_reports [OF new_gate_ok assms(1)])
  moreover have "sorted_wrt spaced ws"
    using attempts_spaced [OF new_gate_ok assms] by (simp add: new_gate_def)
  then have "sorted_wrt (\<lambda>(a, _) (b, _). \<not> s_force b \<longrightarrow> s_after a + 500000 \<le> s_now2 b) ws"
    by (rule sorted_wrt_mono_rel [rotated]) (auto simp: spaced_def PROGRESS_WRITE_INTERVAL_def)
  ultimately show ?thesis
    by (auto simp: stage_report_def new_gate_def)
qed

text \<open>A stage of 1000 bytes: the second sample is throttled, the third write fails, the last is forced.\<close>

definition stage_sample :: "int \<Rightarrow> bool \<Rightarrow> time \<Rightarrow> persist_outcome \<Rightarrow> sample" where
  "stage_sample n force t out =
     \<lparr>s_observed = n, s_expected = Some 1000, s_force = force, s_now = t, s_now2 = t, s_after = t + 1,
      s_outcome = out\<rparr>"

definition sample_stage :: "sample list" where
  "sample_stage =
     [stage_sample 100 False 0 Applied, stage_sample 200 False 200000 Applied,
      stage_sample 500 False 600000 Raised, stage_sample 700 False 800000 Applied]"

lemmas gate_defs =
  new_gate_def ingest_def progress_percent_def note_observed_def attempt_def mark_persisted_def
  mark_attempt_failed_def should_attempt_persist_def should_persist_percent_def throttle_elapsed_def
  in_backoff_def PROGRESS_PERCENT_MAX_def PROGRESS_PERCENT_MIN_def PROGRESS_WRITE_INTERVAL_def
  PROGRESS_BACKOFF_INITIAL_def PROGRESS_BACKOFF_MAX_def stage_sample_def Let_def

lemma sample_stage_run:
  "fst (ingest_all sample_stage new_gate) =
     [(stage_sample 100 False 0 Applied, 10), (stage_sample 500 False 600000 Raised, 50)]"
  by (simp add: sample_stage_def gate_defs)

lemma stage_writes_increase_witness:
  "persisted_update_count (snd (ingest_all sample_stage new_gate)) = 1 \<and>
   last_persisted_percent (snd (ingest_all sample_stage new_gate)) = Some 10"
proof -
  have clk: "clocked sample_stage" by (simp add: clocked_def sample_stage_def stage_sample_def)
  have "confirmed (fst (ingest_all sample_stage new_gate)) = [(stage_sample 100 False 0 Applied, 10)]"
    by (simp add: sample_stage_run) (simp add: stage_sample_def)
  with stage_writes_increase [OF prod.collapse [symmetric] clk] show ?thesis by simp
qed

section \<open>The last sample of a stage\<close>

lemma known_size_max:
  assumes ok: "gate_ok g" and e: "s_expected s = Some e" "0 < e" and "\<not> ownership_lost g"
    and run: "ingest s g = (w, g')"
  shows "max_observed_percent g' =
    Some (case max_observed_percent g of
            None \<Rightarrow> percent_of e (s_observed s) | Some p \<Rightarrow> max p (percent_of e (s_observed s)))"
proof -
  have "max_observed_percent g' = max_observed_percent (observed_by s g)"
    using ok run by (cases rule: ingest_cases [OF ok run]) (simp_all add: assms(4) attempt_last)
  then show ?thesis by (simp add: observed_by_def e progress_percent_eq split: option.split)
qed

fun best_observed :: "int \<Rightarrow> sample list \<Rightarrow> int" where
  "best_observed b [] = b"
| "best_observed b (s # ss) = best_observed (max b (s_observed s)) ss"

lemma stage_best:
  assumes "gate_ok g" "ingest_all ss g = (ws, g2)" "\<not> ownership_lost g" "0 < e"
    and "\<And>s. s \<in> set ss \<Longrightarrow> s_expected s = Some e \<and> s_outcome s \<noteq> Refused"
    and "max_observed_percent g = Some (percent_of e b) \<or> (max_observed_percent g = None \<and> ss \<noteq> [] \<and> b \<le> 0)"
  shows "max_observed_percent g2 = Some (percent_of e (best_observed b ss)) \<and>
    \<not> ownership_lost g2 \<and> gate_ok g2"
  using assms
proof (induction ss arbitrary: g ws b)
  case Nil
  then show ?case by simp
next
  case (Cons s ss)
  note ok = Cons.prems(1)
  obtain w g1 where step: "ingest s g = (w, g1)" by (cases "ingest s g") auto
  obtain ws' where rest: "ingest_all ss g1 = (ws', g2)"
    using Cons.prems(2) step by (auto split: prod.splits)
  have s: "s_expected s = Some e" "s_outcome s \<noteq> Refused" using Cons.prems(5) by auto
  have "max_observed_percent g1 = Some (percent_of e (max b (s_observed s)))"
    using known_size_max [OF ok s(1) Cons.prems(4,3) step] Cons.prems(6) percent_of_range [OF Cons.prems(4)]
    by (auto simp: percent_of_max [OF Cons.prems(4)] percent_of_nonpos max_absorb2)
  moreover have "\<not> ownership_lost g1"
    using ok step Cons.prems(3) s(2)
    by (cases rule: ingest_cases [OF ok step]) (simp_all add: attempt_last)
  ultimately show ?case
    using Cons.IH [OF ingest_ok [OF ok step] rest _ Cons.prems(4), of "max b (s_observed s)"]
      Cons.prems(5) by auto
qed

lemma ingest_all_append:
  "ingest_all (ss @ ts) g =
     (case ingest_all ss g of (ws, g1) \<Rightarrow> (case ingest_all ts g1 of (vs, g2) \<Rightarrow> (ws @ vs, g2)))"
  by (induction ss arbitrary: g) (auto split: prod.splits)

lemma forced_sample_persists:
  assumes ok: "gate_ok g" and "\<not> ownership_lost g" "s_expected s = Some e" "0 < e"
    and f: "s_force s" "s_outcome s = Applied" and run: "ingest s g = (w, g')"
  shows "last_persisted_percent g' = max_observed_percent g'"
proof -
  obtain c where c: "progress_percent (s_observed s) (s_expected s) (max_observed_percent g) = Some c"
    using assms(3,4) by (simp add: progress_percent_eq)
  have m: "max_observed_percent (observed_by s g) = Some c" by (simp add: observed_by_def c)
  have le: "p \<le> c" if "last_persisted_percent g = Some p" for p
    using observed_by_ok [OF ok, of s] that m by (auto simp: gate_ok_def)
  show ?thesis
  proof (cases "may_attempt s (observed_by s g)")
    case True
    with run quiet_or_tried [OF ok assms(2) c] have "g' = snd (attempt s c (observed_by s g))"
      by (metis snd_conv)
    with m f(2) show ?thesis by (simp add: attempt_last)
  next
    case False
    then obtain p where "last_persisted_percent g = Some p" "\<not> p < c"
      using f(1) m by (auto simp: may_attempt_def)
    with le have "last_persisted_percent g = Some c" by force
    with False run quiet_or_tried [OF ok assms(2) c] m show ?thesis by auto
  qed
qed

text \<open>When the size is known, no write is refused and the forced write at the end of the stage
  applies, the percentage in the database is that of the largest number of bytes seen, whatever
  was throttled or failed before.
\<close>

theorem final_sample_is_stored:
  assumes "ingest_all (ss @ [s]) new_gate = (ws, g)" and "0 < e"
    and "\<forall>x\<in>set (ss @ [s]). s_expected x = Some e \<and> s_outcome x \<noteq> Refused"
    and "s_force s" and "s_outcome s = Applied"
  shows "last_persisted_percent g =
    Some (min 99 (Max (set (0 # map s_observed (ss @ [s]))) * 100 div e))"
proof -
  obtain us g1 where pre: "ingest_all ss new_gate = (us, g1)" by (cases "ingest_all ss new_gate") auto
  obtain w where last: "ingest s g1 = (w, g)"
    using assms(1) pre by (auto simp: ingest_all_append split: prod.splits)
  have g1: "gate_ok g1 \<and> \<not> ownership_lost g1"
  proof (cases "ss = []")
    case True
    with pre have "g1 = new_gate" by simp
    moreover have "\<not> ownership_lost new_gate" by (simp add: new_gate_def)
    ultimately show ?thesis by (simp add: new_gate_ok)
  next
    case False
    then show ?thesis
      using stage_best [OF new_gate_ok pre _ assms(2), of 0] assms(3) by (simp add: new_gate_def)
  qed
  have "max_observed_percent g = Some (percent_of e (best_observed 0 (ss @ [s])))"
    using stage_best [OF new_gate_ok assms(1) _ assms(2), of 0] assms(3) by (simp add: new_gate_def)
  moreover have "last_persisted_percent g = max_observed_percent g"
    using forced_sample_persists [OF _ _ _ assms(2,4,5) last] g1 assms(3) by simp
  moreover have "best_observed b xs = Max (set (b # map s_observed xs))" for b xs
  proof (induction xs arbitrary: b)
    case (Cons x xs)
    then show ?case by (cases "xs = []") (simp_all add: max.assoc)
  qed simp
  ultimately show ?thesis by (simp add: percent_of_def)
qed

lemma final_sample_is_stored_witness:
  "last_persisted_percent
     (snd (ingest_all (sample_stage @ [stage_sample 640 True 900000 Applied]) new_gate)) = Some 70"
  using final_sample_is_stored
    [of sample_stage "stage_sample 640 True 900000 Applied"
      "fst (ingest_all (sample_stage @ [stage_sample 640 True 900000 Applied]) new_gate)"
      "snd (ingest_all (sample_stage @ [stage_sample 640 True 900000 Applied]) new_gate)" 1000]
  by (simp add: sample_stage_def stage_sample_def)

section \<open>One write at a time\<close>

text \<open>
  \<open>CoalescingProgressWriter\<close>. The task is the coroutine \<open>_drain\<close>: created and not yet run, awaiting
  \<open>persist\<close> of a value, or done. Everything between two awaits is one step.
\<close>

datatype drain_task = NoTask | Created | Persisting int | Done

record writer =
  w_latest :: "int option"
  w_task :: drain_task
  w_closed :: bool
  spawn_count :: nat
  observe_count :: nat

definition new_writer :: writer where
  "new_writer = \<lparr>w_latest = None, w_task = NoTask, w_closed = False, spawn_count = 0, observe_count = 0\<rparr>"

definition task_idle :: "writer \<Rightarrow> bool" where
  "task_idle w \<longleftrightarrow> w_task w = NoTask \<or> w_task w = Done"

definition spawn :: "writer \<Rightarrow> writer" where
  "spawn w = w\<lparr>spawn_count := spawn_count w + 1, w_task := Created\<rparr>"

definition observe :: "int \<Rightarrow> writer \<Rightarrow> writer" where
  "observe observed_bytes w =
     (if w_closed w then w
      else
        let v = max 0 observed_bytes;
            w1 = w\<lparr>observe_count := observe_count w + 1,
                   w_latest := Some (case w_latest w of None \<Rightarrow> v | Some l \<Rightarrow> max l v)\<rparr>
        in if task_idle w1 then spawn w1 else w1)"

text \<open>The loop test of \<open>_drain\<close>: the first time it runs, and again after each \<open>persist\<close>.\<close>

definition drain_test :: "writer \<Rightarrow> writer" where
  "drain_test w =
     (case w_latest w of
        Some v \<Rightarrow> if \<not> w_closed w then w\<lparr>w_latest := None, w_task := Persisting v\<rparr> else w\<lparr>w_task := Done\<rparr>
      | None \<Rightarrow> w\<lparr>w_task := Done\<rparr>)"

text \<open>
  One turn of the task: \<open>ok\<close> tells whether the \<open>persist\<close> it was awaiting returned or raised. The
  result also carries the value that was handed to the callback before.
\<close>

definition drain_turn :: "bool \<Rightarrow> writer \<Rightarrow> int option \<times> writer" where
  "drain_turn ok w =
     (case w_task w of
        NoTask \<Rightarrow> (None, w)
      | Done \<Rightarrow> (None, w)
      | Created \<Rightarrow> (None, drain_test w)
      | Persisting v \<Rightarrow> (Some v, if ok then drain_test w else w\<lparr>w_task := Done\<rparr>))"

text \<open>\<open>flush\<close> up to its await, and \<open>aclose\<close>, which cancels the task.\<close>

definition flush_start :: "writer \<Rightarrow> writer" where
  "flush_start w =
     (if w_closed w then w
      else if w_latest w \<noteq> None \<and> task_idle w then spawn w
      else w)"

definition aclose :: "writer \<Rightarrow> writer" where
  "aclose w = (let w1 = w\<lparr>w_closed := True\<rparr> in if task_idle w1 then w1 else w1\<lparr>w_task := Done\<rparr>)"

text \<open>How many turns the task still has when no sample arrives any more.\<close>

fun pending_turns :: "writer \<Rightarrow> nat" where
  "pending_turns w =
     (case w_task w of NoTask \<Rightarrow> 0 | Done \<Rightarrow> 0 | Created \<Rightarrow> 1 | Persisting _ \<Rightarrow> 1) +
     (case w_latest w of None \<Rightarrow> 0 | Some _ \<Rightarrow> 1)"

lemma drain_turn_progress: "\<not> task_idle w \<Longrightarrow> pending_turns (snd (drain_turn ok w)) < pending_turns w"
  by (cases "w_task w"; cases "w_latest w")
     (auto simp: task_idle_def drain_turn_def drain_test_def)

text \<open>The await of \<open>flush\<close>: turns of the task until it is done, and what it delivered.\<close>

function await_drain :: "bool list \<Rightarrow> writer \<Rightarrow> int list \<times> writer" where
  "await_drain oks w =
     (if task_idle w then ([], w)
      else
        (case drain_turn (oks = [] \<or> hd oks) w of
           (v, w1) \<Rightarrow>
             (case await_drain (tl oks) w1 of
                (vs, w2) \<Rightarrow> ((case v of None \<Rightarrow> [] | Some x \<Rightarrow> [x]) @ vs, w2))))"
  by pat_completeness auto
termination
  by (relation "measure (\<lambda>(_, w). pending_turns w)")
     (simp, simp del: pending_turns.simps, metis drain_turn_progress snd_conv)

declare await_drain.simps [simp del]

text \<open>What happens between the start of the tool and the flush.\<close>

datatype writer_event = Observed int | Turn

fun writer_run :: "writer_event list \<Rightarrow> writer \<Rightarrow> int list \<times> writer" where
  "writer_run [] w = ([], w)"
| "writer_run (e # es) w =
     (case (case e of Observed n \<Rightarrow> (None, observe n w) | Turn \<Rightarrow> drain_turn True w) of
        (v, w1) \<Rightarrow>
          (case writer_run es w1 of
             (vs, w2) \<Rightarrow> ((case v of None \<Rightarrow> [] | Some x \<Rightarrow> [x]) @ vs, w2)))"

fun observed_values :: "writer_event list \<Rightarrow> int list" where
  "observed_values [] = []"
| "observed_values (Observed n # es) = max 0 n # observed_values es"
| "observed_values (Turn # es) = observed_values es"

text \<open>
  Every value seen is covered by one that was delivered (\<open>ds\<close>), is in flight or is next, and only
  values that were seen are ever delivered.
\<close>

definition in_hand :: "writer \<Rightarrow> int list" where
  "in_hand w = (case w_task w of Persisting v \<Rightarrow> [v] | _ \<Rightarrow> []) @
     (case w_latest w of None \<Rightarrow> [] | Some v \<Rightarrow> [v])"

definition covers :: "int list \<Rightarrow> int list \<Rightarrow> bool" where
  "covers ys xs \<longleftrightarrow> set ys \<subseteq> set xs \<and> (\<forall>x\<in>set xs. \<exists>y\<in>set ys. x \<le> y)"

definition writer_ok :: "int list \<Rightarrow> int list \<Rightarrow> writer \<Rightarrow> bool" where
  "writer_ok xs ds w \<longleftrightarrow>
     \<not> w_closed w \<and> (w_latest w \<noteq> None \<longrightarrow> \<not> task_idle w) \<and> covers (ds @ in_hand w) xs"

lemma covers_Max: "covers ys xs \<Longrightarrow> xs \<noteq> [] \<Longrightarrow> Max (set ys) = Max (set xs)"
  by (rule Max_eq_if) (auto simp: covers_def)

lemma observe_writer_ok: "writer_ok xs ds w \<Longrightarrow> writer_ok (xs @ [max 0 n]) ds (observe n w)"
  by (cases "w_task w"; cases "w_latest w")
     (auto simp: writer_ok_def observe_def spawn_def task_idle_def in_hand_def covers_def Let_def max_def
        intro: order.trans)

lemma drain_turn_writer_ok:
  assumes "writer_ok xs ds w" "drain_turn True w = (v, w1)"
  shows "writer_ok xs (ds @ (case v of None \<Rightarrow> [] | Some x \<Rightarrow> [x])) w1"
  using assms
  by (cases "w_task w"; cases "w_latest w")
     (auto simp: writer_ok_def drain_turn_def drain_test_def task_idle_def in_hand_def covers_def)

lemma writer_run_ok:
  "writer_ok xs ds w \<Longrightarrow> writer_run es w = (vs, w1) \<Longrightarrow> writer_ok (xs @ observed_values es) (ds @ vs) w1"
proof (induction es arbitrary: xs ds w vs)
  case (Cons e es)
  obtain v w' where step: "(case e of Observed n \<Rightarrow> (None, observe n w) | Turn \<Rightarrow> drain_turn True w) = (v, w')"
    by fastforce
  obtain vs' where rest: "writer_run es w' = (vs', w1)"
    and vs: "vs = (case v of None \<Rightarrow> [] | Some x \<Rightarrow> [x]) @ vs'"
    using Cons.prems(2) step by (auto split: prod.splits)
  show ?case
  proof (cases e)
    case (Observed n)
    then show ?thesis
      using Cons.IH [OF observe_writer_ok [OF Cons.prems(1), of n]] step rest vs by simp
  next
    case Turn
    then show ?thesis
      using Cons.IH [OF drain_turn_writer_ok [OF Cons.prems(1)]] step rest vs by simp
  qed
qed simp

lemma await_drain_ok:
  "writer_ok xs ds w \<Longrightarrow> await_drain [] w = (vs, w1) \<Longrightarrow> writer_ok xs (ds @ vs) w1 \<and> task_idle w1"
proof (induction "pending_turns w" arbitrary: w ds vs rule: less_induct)
  case less
  show ?case
  proof (cases "task_idle w")
    case True
    with less.prems show ?thesis by (simp add: await_drain.simps)
  next
    case False
    obtain v w' where step: "drain_turn True w = (v, w')" by fastforce
    obtain vs' where rest: "await_drain [] w' = (vs', w1)"
      and vs: "vs = (case v of None \<Rightarrow> [] | Some x \<Rightarrow> [x]) @ vs'"
      using less.prems(2) step False
      by (subst (asm) await_drain.simps) (auto split: prod.splits)
    have "pending_turns w' < pending_turns w"
      using drain_turn_progress [OF False, of True] step by simp
    from less.hyps [OF this drain_turn_writer_ok [OF less.prems(1) step] rest] vs
    show ?thesis by simp
  qed
qed

text \<open>
  When the tool has ended, a last observation followed by \<open>flush\<close> leaves the writer idle with
  nothing pending, and the largest value it ever handed to the callback is the largest one seen.
\<close>

theorem flush_delivers_best:
  assumes "writer_run es new_writer = (ds, w)"
    and "await_drain [] (flush_start (observe n w)) = (vs, w1)"
  shows "task_idle w1 \<and> w_latest w1 = None \<and>
    Max (set (ds @ vs)) = Max (set (observed_values es @ [max 0 n]))"
proof -
  have "writer_ok [] [] new_writer"
    by (simp add: writer_ok_def new_writer_def in_hand_def covers_def)
  from observe_writer_ok [OF writer_run_ok [OF this assms(1)], of n]
  have ok: "writer_ok (observed_values es @ [max 0 n]) ds (observe n w)" by simp
  then have "flush_start (observe n w) = observe n w"
    by (auto simp: flush_start_def writer_ok_def)
  with await_drain_ok [OF ok] assms(2)
  have *: "writer_ok (observed_values es @ [max 0 n]) (ds @ vs) w1" "task_idle w1" by simp_all
  then have "in_hand w1 = []" "w_latest w1 = None"
    by (auto simp: writer_ok_def in_hand_def task_idle_def split: drain_task.splits)
  with * covers_Max [of "ds @ vs" "observed_values es @ [max 0 n]"] show ?thesis
    by (simp add: writer_ok_def)
qed

lemma flush_delivers_best_witness:
  "Max (set (fst (writer_run [Observed 5, Turn, Observed 9] new_writer) @
        fst (await_drain [] (flush_start (observe 7 (snd (writer_run [Observed 5, Turn, Observed 9] new_writer))))))) = 9"
  using flush_delivers_best
    [of "[Observed 5, Turn, Observed 9]"
      "fst (writer_run [Observed 5, Turn, Observed 9] new_writer)"
      "snd (writer_run [Observed 5, Turn, Observed 9] new_writer)" 7
      "fst (await_drain [] (flush_start (observe 7 (snd (writer_run [Observed 5, Turn, Observed 9] new_writer)))))"
      "snd (await_drain [] (flush_start (observe 7 (snd (writer_run [Observed 5, Turn, Observed 9] new_writer)))))"]
  by simp

end
