(* ===== verification/Domain_Errors.thy ===== *)
theory Domain_Errors
  imports Prelude
begin

text \<open>
  The error catalogues of \<open>downloads/errors.py\<close>, \<open>jobs/errors.py\<close>, \<open>quota/errors.py\<close>,
  \<open>payments/errors.py\<close> and \<open>premium/errors.py\<close>, and the one sum type \<open>error\<close> in which
  the operations report what the source raises. \<open>IntegrityError\<close> is the database's
  refusal of a write that violates a constraint, \<open>UncaughtError\<close> a built-in exception (named)
  that no handler of the modelled code catches.
\<close>

datatype DownloadErrorCode =
    DOWNLOADS_DISABLED | DOWNLOAD_JOB_NOT_FOUND | PARENT_JOB_NOT_READY
  | FORMAT_NOT_FOUND | FORMAT_NOT_ELIGIBLE | FORMAT_UNAVAILABLE
  | MEDIA_CAPABILITY_REQUIRES_PREMIUM | MEDIA_CAPABILITY_UNAVAILABLE
  | PROVIDER_CAPABILITY_DISABLED | DOWNLOAD_TIMEOUT | DOWNLOAD_TOO_LARGE
  | DOWNLOAD_TOOL_FAILED | DOWNLOAD_INVALID_OUTPUT | DOWNLOAD_STORAGE_UNAVAILABLE
  | DOWNLOAD_EXPIRED | DELIVERY_DISABLED | DOWNLOAD_NOT_READY
  | MUXING_UNAVAILABLE | MUXING_FAILED | MUXING_TIMEOUT | MUXED_OUTPUT_INVALID
  | DELIVERY_IN_PROGRESS | QUOTA_STATE_INCOHERENT | INTERNAL_ERROR

datatype JobErrorCode =
    JOB_NOT_FOUND | JOB_EXPIRED | CAPACITY_UNAVAILABLE | IDEMPOTENCY_CONFLICT
  | INVALID_ACCESS_TOKEN | MEDIA_INSPECTION_FAILED | DURATION_TOO_LONG | FILE_TOO_LARGE
  | JOB_INTERNAL_ERROR

text \<open>The HTTP status a download error carries (\<open>_HTTP_STATUS\<close>).\<close>

fun http_status_for :: "DownloadErrorCode \<Rightarrow> int" where
  "http_status_for DOWNLOADS_DISABLED = 503"
| "http_status_for DOWNLOAD_JOB_NOT_FOUND = 404"
| "http_status_for PARENT_JOB_NOT_READY = 409"
| "http_status_for FORMAT_NOT_FOUND = 404"
| "http_status_for FORMAT_NOT_ELIGIBLE = 422"
| "http_status_for FORMAT_UNAVAILABLE = 422"
| "http_status_for MEDIA_CAPABILITY_REQUIRES_PREMIUM = 403"
| "http_status_for MEDIA_CAPABILITY_UNAVAILABLE = 422"
| "http_status_for PROVIDER_CAPABILITY_DISABLED = 422"
| "http_status_for DOWNLOAD_TIMEOUT = 504"
| "http_status_for DOWNLOAD_TOO_LARGE = 413"
| "http_status_for DOWNLOAD_TOOL_FAILED = 422"
| "http_status_for DOWNLOAD_INVALID_OUTPUT = 422"
| "http_status_for DOWNLOAD_STORAGE_UNAVAILABLE = 503"
| "http_status_for DOWNLOAD_EXPIRED = 410"
| "http_status_for DELIVERY_DISABLED = 503"
| "http_status_for DOWNLOAD_NOT_READY = 409"
| "http_status_for MUXING_UNAVAILABLE = 422"
| "http_status_for MUXING_FAILED = 422"
| "http_status_for MUXING_TIMEOUT = 504"
| "http_status_for MUXED_OUTPUT_INVALID = 422"
| "http_status_for DELIVERY_IN_PROGRESS = 409"
| "http_status_for QUOTA_STATE_INCOHERENT = 409"
| "http_status_for INTERNAL_ERROR = 500"

fun job_http_status_for :: "JobErrorCode \<Rightarrow> int" where
  "job_http_status_for JOB_NOT_FOUND = 404"
| "job_http_status_for JOB_EXPIRED = 410"
| "job_http_status_for CAPACITY_UNAVAILABLE = 503"
| "job_http_status_for IDEMPOTENCY_CONFLICT = 409"
| "job_http_status_for INVALID_ACCESS_TOKEN = 400"
| "job_http_status_for MEDIA_INSPECTION_FAILED = 422"
| "job_http_status_for DURATION_TOO_LONG = 422"
| "job_http_status_for FILE_TOO_LARGE = 413"
| "job_http_status_for JOB_INTERNAL_ERROR = 500"

text \<open>The catalogue texts (\<open>_PUBLIC_MESSAGES\<close>).\<close>

fun public_message_for :: "DownloadErrorCode \<Rightarrow> string" where
  "public_message_for DOWNLOADS_DISABLED =
     ''Downloads are not available.''"
| "public_message_for DOWNLOAD_JOB_NOT_FOUND =
     ''Download job not found.''"
| "public_message_for PARENT_JOB_NOT_READY =
     ''The media job is not ready for download.''"
| "public_message_for FORMAT_NOT_FOUND =
     ''The requested format was not found.''"
| "public_message_for FORMAT_NOT_ELIGIBLE =
     ''The requested format is not eligible.''"
| "public_message_for FORMAT_UNAVAILABLE =
     ''The requested format is no longer available.''"
| "public_message_for MEDIA_CAPABILITY_REQUIRES_PREMIUM =
     ''An active Premium entitlement is required for this media option.''"
| "public_message_for MEDIA_CAPABILITY_UNAVAILABLE =
     ''The requested media option is not available for this source.''"
| "public_message_for PROVIDER_CAPABILITY_DISABLED =
     ''This action is not available for this source.''"
| "public_message_for DOWNLOAD_TIMEOUT =
     ''The download timed out.''"
| "public_message_for DOWNLOAD_TOO_LARGE =
     ''The download exceeds the allowed size.''"
| "public_message_for DOWNLOAD_TOOL_FAILED =
     ''The download tool failed.''"
| "public_message_for DOWNLOAD_INVALID_OUTPUT =
     ''The download produced invalid output.''"
| "public_message_for DOWNLOAD_STORAGE_UNAVAILABLE =
     ''Download storage is temporarily unavailable.''"
| "public_message_for DOWNLOAD_EXPIRED =
     ''The download job or artifact expired.''"
| "public_message_for DELIVERY_DISABLED =
     ''Artifact delivery is not available.''"
| "public_message_for DOWNLOAD_NOT_READY =
     ''The download artifact is not ready for delivery.''"
| "public_message_for MUXING_UNAVAILABLE =
     ''This media is not available as a combined video and audio file.''"
| "public_message_for MUXING_FAILED =
     ''Combining video and audio failed.''"
| "public_message_for MUXING_TIMEOUT =
     ''Combining video and audio timed out.''"
| "public_message_for MUXED_OUTPUT_INVALID =
     ''The combined file could not be validated.''"
| "public_message_for DELIVERY_IN_PROGRESS =
     ''A download is already in progress. Wait for it to finish, then try again.''"
| "public_message_for QUOTA_STATE_INCOHERENT =
     ''This download cannot be upgraded right now.''"
| "public_message_for INTERNAL_ERROR =
     ''An unexpected error occurred.''"

fun job_public_message_for :: "JobErrorCode \<Rightarrow> string" where
  "job_public_message_for JOB_NOT_FOUND =
     ''Job not found.''"
| "job_public_message_for JOB_EXPIRED =
     ''Job or file expired.''"
| "job_public_message_for CAPACITY_UNAVAILABLE =
     ''Service is temporarily at capacity.''"
| "job_public_message_for IDEMPOTENCY_CONFLICT =
     ''The access token was already used for a different request.''"
| "job_public_message_for INVALID_ACCESS_TOKEN =
     ''The access token is invalid.''"
| "job_public_message_for MEDIA_INSPECTION_FAILED =
     ''Media inspection failed.''"
| "job_public_message_for DURATION_TOO_LONG =
     ''Media is longer than the 2-hour maximum.''"
| "job_public_message_for FILE_TOO_LARGE =
     ''File exceeds limit.''"
| "job_public_message_for JOB_INTERNAL_ERROR =
     ''An unexpected error occurred.''"

text \<open>
  \<open>sanitize_internal_reason\<close>: only a full match of \<open>[A-Z][A-Z0-9_]{0,63}\<close> is kept as a
  diagnostic reason.
\<close>

definition upper_ascii :: "char \<Rightarrow> bool" where
  "upper_ascii c \<longleftrightarrow> 65 \<le> (of_char c :: nat) \<and> (of_char c :: nat) \<le> 90"

definition digit_ascii :: "char \<Rightarrow> bool" where
  "digit_ascii c \<longleftrightarrow> 48 \<le> (of_char c :: nat) \<and> (of_char c :: nat) \<le> 57"

definition safe_internal_reason :: "string \<Rightarrow> bool" where
  "safe_internal_reason r =
     (case r of
        [] \<Rightarrow> False
      | c # cs \<Rightarrow> upper_ascii c \<and> length cs \<le> 63 \<and>
          list_all (\<lambda>x. upper_ascii x \<or> digit_ascii x \<or> x = CHR ''_'') cs)"

definition sanitize_internal_reason :: "string option \<Rightarrow> string option" where
  "sanitize_internal_reason raw =
     (case raw of
        None \<Rightarrow> None
      | Some r \<Rightarrow> if safe_internal_reason r then Some r else Some ''REDACTED_INTERNAL_REASON'')"

text \<open>What a raised \<open>DownloadError\<close> or \<open>JobError\<close> object holds (\<open>__init__\<close>).\<close>

record 'c raised =
  r_code :: 'c
  r_message :: string
  r_http_status :: int
  r_internal_reason :: "string option"

definition new_download_error ::
  "DownloadErrorCode \<Rightarrow> string option \<Rightarrow> string option \<Rightarrow> int option \<Rightarrow> DownloadErrorCode raised" where
  "new_download_error code message internal_reason http_status =
     \<lparr>r_code = code, r_message = public_message_for code,
      r_http_status = (case http_status of Some h \<Rightarrow> h | None \<Rightarrow> http_status_for code),
      r_internal_reason = sanitize_internal_reason internal_reason\<rparr>"

definition new_job_error ::
  "JobErrorCode \<Rightarrow> string option \<Rightarrow> string option \<Rightarrow> int option \<Rightarrow> JobErrorCode raised" where
  "new_job_error code message internal_reason http_status =
     \<lparr>r_code = code, r_message = job_public_message_for code,
      r_http_status = (case http_status of Some h \<Rightarrow> h | None \<Rightarrow> job_http_status_for code),
      r_internal_reason = sanitize_internal_reason internal_reason\<rparr>"

text \<open>\<open>QuotaStatus\<close>, which \<open>FreeQuotaExceededError\<close> carries.\<close>

record QuotaStatus =
  qs_tier :: string
  qs_download_limit :: "int option"
  qs_downloads_used :: "int option"
  qs_downloads_reserved :: "int option"
  qs_downloads_remaining :: "int option"
  qs_reset_at :: "time option"
  qs_window_seconds :: "int option"
  qs_premium_expires_at :: "time option"

datatype PaymentErrorKind =
    PaymentsDisabledError | PaymentIdentityRequiredError | UnknownProductError
  | InvalidIdempotencyKeyError | IdempotencyConflictError | PaymentOrderNotFoundError
  | InvalidCallbackError | PaymentInvariantError

text \<open>\<open>InspectionErrorKind\<close> (\<open>media_inspection/errors.py\<close>) and its catalogue.\<close>

datatype InspectionErrorKind =
    INSPECTION_UNSUPPORTED_PROVIDER | INSPECTION_TOOL_UNAVAILABLE | INSPECTION_TIMEOUT
  | INSPECTION_OUTPUT_LIMIT_EXCEEDED | INSPECTION_INVALID_OUTPUT | INSPECTION_PROVIDER_MISMATCH
  | INSPECTION_MEDIA_UNAVAILABLE | INSPECTION_POLICY_REJECTED | INSPECTION_CANCELLED
  | INTERNAL_INSPECTION_ERROR

fun inspection_public_message :: "InspectionErrorKind \<Rightarrow> string" where
  "inspection_public_message INSPECTION_UNSUPPORTED_PROVIDER =
     ''Media inspection is not available for this provider.''"
| "inspection_public_message INSPECTION_TOOL_UNAVAILABLE =
     ''Media inspection is not configured on this server.''"
| "inspection_public_message INSPECTION_TIMEOUT = ''Media inspection timed out.''"
| "inspection_public_message INSPECTION_OUTPUT_LIMIT_EXCEEDED =
     ''Media inspection output exceeded allowed limits.''"
| "inspection_public_message INSPECTION_INVALID_OUTPUT =
     ''Media inspection returned invalid metadata.''"
| "inspection_public_message INSPECTION_PROVIDER_MISMATCH =
     ''Media inspection result did not match the expected provider.''"
| "inspection_public_message INSPECTION_MEDIA_UNAVAILABLE = ''The media could not be inspected.''"
| "inspection_public_message INSPECTION_POLICY_REJECTED =
     ''The media violates inspection policy limits.''"
| "inspection_public_message INSPECTION_CANCELLED = ''Media inspection was cancelled.''"
| "inspection_public_message INTERNAL_INSPECTION_ERROR =
     ''An unexpected media inspection error occurred.''"

datatype error =
    DownloadError DownloadErrorCode string
  | DownloadErrorHttp DownloadErrorCode string int
  | JobError JobErrorCode string
  | QuotaInvariantError string
  | InspectionError InspectionErrorKind string
  | AnonymousIdentityRequiredError
  | FreeQuotaExceededError QuotaStatus
  | PaymentError PaymentErrorKind
  | PremiumEntitlementInvariantError
  | IntegrityError string
  | ValueError string
  | UncaughtError string

type_synonym 'a res = "error + 'a"

text \<open>
  \<open>DownloadErrorHttp\<close> is a \<open>DownloadError\<close> raised with an explicit \<open>http_status\<close>
  argument; the catalogue status applies otherwise (\<open>DownloadError.__init__\<close>).
\<close>

fun error_http_status :: "error \<Rightarrow> int option" where
  "error_http_status (DownloadError c r) = Some (http_status_for c)"
| "error_http_status (DownloadErrorHttp c r h) = Some h"
| "error_http_status (JobError c r) = Some (job_http_status_for c)"
| "error_http_status AnonymousIdentityRequiredError = Some 428"
| "error_http_status (FreeQuotaExceededError s) = Some 429"
| "error_http_status _ = None"

lemma safe_internal_reason_chars:
  "safe_internal_reason r \<Longrightarrow>
     list_all (\<lambda>c. upper_ascii c \<or> digit_ascii c \<or> c = CHR ''_'') r \<and> 1 \<le> length r \<and> length r \<le> 64"
  by (cases r) (auto simp: safe_internal_reason_def)

lemma sanitized_is_safe: "sanitize_internal_reason raw = Some r \<Longrightarrow> safe_internal_reason r"
  by (auto simp: sanitize_internal_reason_def safe_internal_reason_def upper_ascii_def
      digit_ascii_def split: option.splits if_splits)

text \<open>Nothing a caller supplies as text reaches a raised download error: the message is the
  catalogue text of the code, the status an HTTP error status unless one is passed explicitly,
  and a diagnostic reason is at most 64 upper-case letters, digits and underscores.\<close>

theorem new_download_error_is_sanitized:
  "r_message (new_download_error code message reason http) = public_message_for code \<and>
   (http = None \<longrightarrow> 400 \<le> r_http_status (new_download_error code message reason http) \<and>
                   r_http_status (new_download_error code message reason http) < 600) \<and>
   (\<forall>r. r_internal_reason (new_download_error code message reason http) = Some r \<longrightarrow>
      length r \<le> 64 \<and> list_all (\<lambda>c. upper_ascii c \<or> digit_ascii c \<or> c = CHR ''_'') r)"
proof -
  have "400 \<le> http_status_for code \<and> http_status_for code < 600" by (cases code) simp_all
  moreover have "length r \<le> 64 \<and> list_all (\<lambda>c. upper_ascii c \<or> digit_ascii c \<or> c = CHR ''_'') r"
    if "sanitize_internal_reason reason = Some r" for r
    using safe_internal_reason_chars [OF sanitized_is_safe [OF that]] by simp
  ultimately show ?thesis by (simp add: new_download_error_def)
qed

theorem new_download_error_is_sanitized_witness:
  "r_internal_reason (new_download_error DOWNLOAD_TIMEOUT None (Some ''/srv/secret path'') None) =
     Some ''REDACTED_INTERNAL_REASON'' \<and>
   list_all (\<lambda>c. upper_ascii c \<or> digit_ascii c \<or> c = CHR ''_'') ''REDACTED_INTERNAL_REASON''"
proof -
  have "r_internal_reason (new_download_error DOWNLOAD_TIMEOUT None (Some ''/srv/secret path'') None) =
     Some ''REDACTED_INTERNAL_REASON''"
    by (simp add: new_download_error_def sanitize_internal_reason_def safe_internal_reason_def
        upper_ascii_def)
  with new_download_error_is_sanitized [of DOWNLOAD_TIMEOUT None "Some ''/srv/secret path''" None]
  show ?thesis by blast
qed

end
