(* ===== verification/Job_States.thy ===== *)
theory Job_States
  imports Domain_Errors
begin

text \<open>
  The four public state machines: inspection jobs (\<open>jobs/states.py\<close>), download jobs and
  their progress stages (\<open>downloads/states.py\<close>, \<open>downloads/progress.py\<close>) and payment
  orders (\<open>payments/states.py\<close>). The locale \<open>transition_table\<close> is the interface the
  repositories use: an allowlist of edges and a guard that accepts exactly its edges.
\<close>

section \<open>The interface of a fail-closed state machine\<close>

locale transition_table =
  fixes allowed :: "'s \<Rightarrow> 's list"
    and guard :: "'s \<Rightarrow> 's \<Rightarrow> 'e + unit"
    and final :: "'s \<Rightarrow> bool"
  assumes guard_iff: "guard s t = Inr () \<longleftrightarrow> t \<in> set (allowed s)"
    and final_iff: "final s \<longleftrightarrow> allowed s = []"
    and irrefl: "s \<notin> set (allowed s)"
    and sink: "\<exists>t. final t \<and> (s = t \<or> t \<in> set (allowed s))"
begin

inductive moves :: "'s \<Rightarrow> 's list \<Rightarrow> 's \<Rightarrow> bool" where
  moves_nil: "moves s [] s"
| moves_cons: "guard s t = Inr () \<Longrightarrow> moves t ts u \<Longrightarrow> moves s (t # ts) u"

lemma final_stuck: "final s \<Longrightarrow> \<not> guard s t = Inr ()"
  by (simp add: guard_iff final_iff)

lemma moves_from_final: "moves s ts u \<Longrightarrow> final s \<Longrightarrow> ts = [] \<and> u = s"
  by (induction rule: moves.induct) (auto simp: final_stuck)

lemma can_finish: "\<exists>ts u. length ts \<le> 1 \<and> moves s ts u \<and> final u"
proof -
  obtain t where t: "final t" "s = t \<or> t \<in> set (allowed s)" using sink by blast
  show ?thesis
  proof (cases "s = t")
    case True
    with t show ?thesis by (intro exI [of _ "[]"] exI [of _ t]) (auto intro: moves_nil)
  next
    case False
    with t have "guard s t = Inr ()" by (simp add: guard_iff)
    then have "moves s [t] t" by (intro moves_cons moves_nil)
    with t show ?thesis by (intro exI [of _ "[t]"] exI [of _ t]) auto
  qed
qed

end

section \<open>Inspection jobs\<close>

datatype MediaJobState = MJ_QUEUED | MJ_INSPECTING | MJ_INSPECTED | MJ_FAILED | MJ_EXPIRED

fun MediaJobState_value :: "MediaJobState \<Rightarrow> string" where
  "MediaJobState_value MJ_QUEUED = ''queued''"
| "MediaJobState_value MJ_INSPECTING = ''inspecting''"
| "MediaJobState_value MJ_INSPECTED = ''inspected''"
| "MediaJobState_value MJ_FAILED = ''failed''"
| "MediaJobState_value MJ_EXPIRED = ''expired''"

definition MediaJobState_of :: "string \<Rightarrow> MediaJobState option" where
  "MediaJobState_of raw =
     find (\<lambda>s. MediaJobState_value s = raw)
       [MJ_QUEUED, MJ_INSPECTING, MJ_INSPECTED, MJ_FAILED, MJ_EXPIRED]"

fun mj_allowed :: "MediaJobState \<Rightarrow> MediaJobState list" where
  "mj_allowed MJ_QUEUED = [MJ_INSPECTING, MJ_EXPIRED]"
| "mj_allowed MJ_INSPECTING = [MJ_QUEUED, MJ_INSPECTED, MJ_FAILED, MJ_EXPIRED]"
| "mj_allowed MJ_INSPECTED = [MJ_EXPIRED]"
| "mj_allowed MJ_FAILED = [MJ_EXPIRED]"
| "mj_allowed MJ_EXPIRED = []"

definition mj_assert_transition :: "MediaJobState \<Rightarrow> MediaJobState \<Rightarrow> unit res" where
  "mj_assert_transition s t =
     guard_res (t \<in> set (mj_allowed s)) (JobError JOB_INTERNAL_ERROR ''ILLEGAL_STATE_TRANSITION'')"

text \<open>The string form: an unknown spelling on either side is its own error.\<close>

definition mj_assert_transition_raw :: "string \<Rightarrow> string \<Rightarrow> unit res" where
  "mj_assert_transition_raw a b =
     (case (MediaJobState_of a, MediaJobState_of b) of
        (Some s, Some t) \<Rightarrow> mj_assert_transition s t
      | _ \<Rightarrow> Inl (JobError JOB_INTERNAL_ERROR ''UNKNOWN_JOB_STATE''))"

definition mj_is_terminal :: "string \<Rightarrow> bool" where
  "mj_is_terminal raw =
     (case MediaJobState_of raw of
        None \<Rightarrow> True
      | Some s \<Rightarrow> s \<in> {MJ_INSPECTED, MJ_FAILED, MJ_EXPIRED})"

interpretation mj: transition_table mj_allowed mj_assert_transition "\<lambda>s. s = MJ_EXPIRED"
proof
  fix s t :: MediaJobState
  show "mj_assert_transition s t = Inr () \<longleftrightarrow> t \<in> set (mj_allowed s)"
    by (simp add: mj_assert_transition_def)
  show "s = MJ_EXPIRED \<longleftrightarrow> mj_allowed s = []" by (cases s) auto
  show "s \<notin> set (mj_allowed s)" by (cases s) auto
  show "\<exists>t. t = MJ_EXPIRED \<and> (s = t \<or> t \<in> set (mj_allowed s))" by (cases s) auto
qed

section \<open>Download jobs\<close>

datatype MediaDownloadJobState =
  DJ_QUEUED | DJ_DOWNLOADING | DJ_READY | DJ_FAILED | DJ_CANCELLED | DJ_EXPIRED

fun MediaDownloadJobState_value :: "MediaDownloadJobState \<Rightarrow> string" where
  "MediaDownloadJobState_value DJ_QUEUED = ''queued''"
| "MediaDownloadJobState_value DJ_DOWNLOADING = ''downloading''"
| "MediaDownloadJobState_value DJ_READY = ''ready''"
| "MediaDownloadJobState_value DJ_FAILED = ''failed''"
| "MediaDownloadJobState_value DJ_CANCELLED = ''cancelled''"
| "MediaDownloadJobState_value DJ_EXPIRED = ''expired''"

definition MediaDownloadJobState_of :: "string \<Rightarrow> MediaDownloadJobState option" where
  "MediaDownloadJobState_of raw =
     find (\<lambda>s. MediaDownloadJobState_value s = raw)
       [DJ_QUEUED, DJ_DOWNLOADING, DJ_READY, DJ_FAILED, DJ_CANCELLED, DJ_EXPIRED]"

text \<open>\<open>PR9_STORED_PUBLIC_STATES\<close>: the values the column may hold.\<close>

definition PR9_STORED_PUBLIC_STATES :: "MediaDownloadJobState list" where
  "PR9_STORED_PUBLIC_STATES = [DJ_QUEUED, DJ_DOWNLOADING, DJ_READY, DJ_FAILED, DJ_EXPIRED]"

datatype DownloadProgressStage =
    PS_QUEUED | PS_INSPECTING | PS_DOWNLOADING_VIDEO | PS_DOWNLOADING_AUDIO | PS_MUXING
  | PS_VERIFYING | PS_PUBLISHING | PS_RETRYING | PS_READY | PS_FAILED | PS_CANCELLED
  | PS_EXPIRED

definition is_stored_cancelled ::
  "MediaDownloadJobState \<Rightarrow> DownloadProgressStage option \<Rightarrow> time option \<Rightarrow> bool" where
  "is_stored_cancelled st stage cancel_at \<longleftrightarrow>
     st = DJ_EXPIRED \<and> stage = Some PS_CANCELLED \<and> cancel_at \<noteq> None"

definition project_public_state ::
  "MediaDownloadJobState \<Rightarrow> DownloadProgressStage option \<Rightarrow> time option
     \<Rightarrow> MediaDownloadJobState" where
  "project_public_state st stage cancel_at =
     (if is_stored_cancelled st stage cancel_at then DJ_CANCELLED else st)"

fun dj_allowed :: "MediaDownloadJobState \<Rightarrow> MediaDownloadJobState list" where
  "dj_allowed DJ_QUEUED = [DJ_DOWNLOADING, DJ_CANCELLED, DJ_EXPIRED]"
| "dj_allowed DJ_DOWNLOADING = [DJ_QUEUED, DJ_READY, DJ_FAILED, DJ_CANCELLED, DJ_EXPIRED]"
| "dj_allowed DJ_READY = [DJ_EXPIRED]"
| "dj_allowed DJ_FAILED = [DJ_EXPIRED]"
| "dj_allowed DJ_CANCELLED = [DJ_EXPIRED]"
| "dj_allowed DJ_EXPIRED = []"

definition dj_assert_transition ::
  "MediaDownloadJobState \<Rightarrow> MediaDownloadJobState \<Rightarrow> unit res" where
  "dj_assert_transition s t =
     guard_res (t \<in> set (dj_allowed s)) (DownloadError INTERNAL_ERROR ''ILLEGAL_STATE_TRANSITION'')"

definition dj_assert_transition_raw :: "string \<Rightarrow> string \<Rightarrow> unit res" where
  "dj_assert_transition_raw a b =
     (case (MediaDownloadJobState_of a, MediaDownloadJobState_of b) of
        (Some s, Some t) \<Rightarrow> dj_assert_transition s t
      | _ \<Rightarrow> Inl (DownloadError INTERNAL_ERROR ''UNKNOWN_DOWNLOAD_STATE''))"

definition dj_is_terminal :: "string \<Rightarrow> bool" where
  "dj_is_terminal raw =
     (case MediaDownloadJobState_of raw of
        None \<Rightarrow> True
      | Some s \<Rightarrow> s \<in> {DJ_READY, DJ_FAILED, DJ_CANCELLED, DJ_EXPIRED})"

interpretation dj: transition_table dj_allowed dj_assert_transition "\<lambda>s. s = DJ_EXPIRED"
proof
  fix s t :: MediaDownloadJobState
  show "dj_assert_transition s t = Inr () \<longleftrightarrow> t \<in> set (dj_allowed s)"
    by (simp add: dj_assert_transition_def)
  show "s = DJ_EXPIRED \<longleftrightarrow> dj_allowed s = []" by (cases s) auto
  show "s \<notin> set (dj_allowed s)" by (cases s) auto
  show "\<exists>t. t = DJ_EXPIRED \<and> (s = t \<or> t \<in> set (dj_allowed s))" by (cases s) auto
qed

section \<open>Progress stages\<close>

definition TERMINAL_PROGRESS :: "DownloadProgressStage list" where
  "TERMINAL_PROGRESS = [PS_READY, PS_FAILED, PS_CANCELLED, PS_EXPIRED]"

definition ACTIVE_PROGRESS :: "DownloadProgressStage list" where
  "ACTIVE_PROGRESS = [PS_QUEUED, PS_INSPECTING, PS_DOWNLOADING_VIDEO, PS_DOWNLOADING_AUDIO,
     PS_MUXING, PS_VERIFYING, PS_PUBLISHING, PS_RETRYING]"

fun ps_allowed :: "DownloadProgressStage \<Rightarrow> DownloadProgressStage list" where
  "ps_allowed PS_QUEUED =
     [PS_INSPECTING, PS_DOWNLOADING_VIDEO, PS_CANCELLED, PS_EXPIRED, PS_FAILED]"
| "ps_allowed PS_INSPECTING =
     [PS_DOWNLOADING_VIDEO, PS_DOWNLOADING_AUDIO, PS_RETRYING, PS_FAILED, PS_CANCELLED, PS_EXPIRED]"
| "ps_allowed PS_DOWNLOADING_VIDEO =
     [PS_DOWNLOADING_AUDIO, PS_MUXING, PS_VERIFYING, PS_PUBLISHING, PS_RETRYING, PS_FAILED,
      PS_CANCELLED, PS_EXPIRED]"
| "ps_allowed PS_DOWNLOADING_AUDIO =
     [PS_MUXING, PS_PUBLISHING, PS_RETRYING, PS_FAILED, PS_CANCELLED, PS_EXPIRED]"
| "ps_allowed PS_MUXING = [PS_VERIFYING, PS_RETRYING, PS_FAILED, PS_CANCELLED, PS_EXPIRED]"
| "ps_allowed PS_VERIFYING = [PS_PUBLISHING, PS_RETRYING, PS_FAILED, PS_CANCELLED, PS_EXPIRED]"
| "ps_allowed PS_PUBLISHING = [PS_READY, PS_RETRYING, PS_FAILED, PS_CANCELLED, PS_EXPIRED]"
| "ps_allowed PS_RETRYING = [PS_QUEUED, PS_INSPECTING, PS_FAILED, PS_CANCELLED, PS_EXPIRED]"
| "ps_allowed PS_READY = [PS_EXPIRED]"
| "ps_allowed PS_FAILED = [PS_EXPIRED]"
| "ps_allowed PS_CANCELLED = [PS_EXPIRED]"
| "ps_allowed PS_EXPIRED = []"

fun DownloadProgressStage_value :: "DownloadProgressStage \<Rightarrow> string" where
  "DownloadProgressStage_value PS_QUEUED = ''queued''"
| "DownloadProgressStage_value PS_INSPECTING = ''inspecting''"
| "DownloadProgressStage_value PS_DOWNLOADING_VIDEO = ''downloading_video''"
| "DownloadProgressStage_value PS_DOWNLOADING_AUDIO = ''downloading_audio''"
| "DownloadProgressStage_value PS_MUXING = ''muxing''"
| "DownloadProgressStage_value PS_VERIFYING = ''verifying''"
| "DownloadProgressStage_value PS_PUBLISHING = ''publishing''"
| "DownloadProgressStage_value PS_RETRYING = ''retrying''"
| "DownloadProgressStage_value PS_READY = ''ready''"
| "DownloadProgressStage_value PS_FAILED = ''failed''"
| "DownloadProgressStage_value PS_CANCELLED = ''cancelled''"
| "DownloadProgressStage_value PS_EXPIRED = ''expired''"

definition parse_progress_stage :: "string \<Rightarrow> DownloadProgressStage res" where
  "parse_progress_stage raw =
     (case find (\<lambda>s. DownloadProgressStage_value s = raw) (ACTIVE_PROGRESS @ TERMINAL_PROGRESS) of
        Some s \<Rightarrow> Inr s
      | None \<Rightarrow> Inl (DownloadError INTERNAL_ERROR ''UNKNOWN_PROGRESS_STAGE''))"

lemma parse_progress_stage_value: "parse_progress_stage (DownloadProgressStage_value s) = Inr s"
  by (cases s) (simp_all add: parse_progress_stage_def ACTIVE_PROGRESS_def TERMINAL_PROGRESS_def)

definition is_terminal_progress :: "string \<Rightarrow> bool res" where
  "is_terminal_progress raw =
     andThen (parse_progress_stage raw) (\<lambda>s. Inr (s \<in> set TERMINAL_PROGRESS))"

definition assert_progress_transition ::
  "DownloadProgressStage \<Rightarrow> DownloadProgressStage \<Rightarrow> unit res" where
  "assert_progress_transition s t =
     (if s = t then Inr ()
      else if s \<in> set TERMINAL_PROGRESS \<and> t \<notin> set (ps_allowed s)
      then Inl (DownloadError INTERNAL_ERROR ''TERMINAL_PROGRESS_IMMUTABLE'')
      else guard_res (t \<in> set (ps_allowed s))
             (DownloadError INTERNAL_ERROR ''ILLEGAL_PROGRESS_TRANSITION''))"

fun progress_for_public_state :: "MediaDownloadJobState \<Rightarrow> DownloadProgressStage" where
  "progress_for_public_state DJ_QUEUED = PS_QUEUED"
| "progress_for_public_state DJ_DOWNLOADING = PS_INSPECTING"
| "progress_for_public_state DJ_READY = PS_READY"
| "progress_for_public_state DJ_FAILED = PS_FAILED"
| "progress_for_public_state DJ_CANCELLED = PS_CANCELLED"
| "progress_for_public_state DJ_EXPIRED = PS_EXPIRED"

lemma assert_progress_transition_iff:
  "assert_progress_transition s t = Inr () \<longleftrightarrow> s = t \<or> t \<in> set (ps_allowed s)"
  by (auto simp: assert_progress_transition_def)

section \<open>Payment orders\<close>

datatype PaymentOrderState = PO_CREATED | PO_PENDING | PO_PAID | PO_EXPIRED

fun po_allowed :: "PaymentOrderState \<Rightarrow> PaymentOrderState list" where
  "po_allowed PO_CREATED = [PO_PENDING, PO_EXPIRED]"
| "po_allowed PO_PENDING = [PO_PAID, PO_EXPIRED]"
| "po_allowed PO_PAID = []"
| "po_allowed PO_EXPIRED = []"

definition assert_payment_transition :: "PaymentOrderState \<Rightarrow> PaymentOrderState \<Rightarrow> unit res" where
  "assert_payment_transition s t =
     guard_res (t \<in> set (po_allowed s)) (ValueError ''illegal payment order state transition'')"

interpretation po: transition_table po_allowed assert_payment_transition
  "\<lambda>s. s = PO_PAID \<or> s = PO_EXPIRED"
proof
  fix s t :: PaymentOrderState
  show "assert_payment_transition s t = Inr () \<longleftrightarrow> t \<in> set (po_allowed s)"
    by (simp add: assert_payment_transition_def)
  show "(s = PO_PAID \<or> s = PO_EXPIRED) \<longleftrightarrow> po_allowed s = []" by (cases s) auto
  show "s \<notin> set (po_allowed s)" by (cases s) auto
  show "\<exists>t. (t = PO_PAID \<or> t = PO_EXPIRED) \<and> (s = t \<or> t \<in> set (po_allowed s))"
    by (cases s) auto
qed

end
