(* ===== verification/Schema.thy ===== *)
theory Schema
  imports Job_States Complex_Main
begin

text \<open>
  The database: one record per table row, as the SQLAlchemy models declare them, each
  with the table's CHECK constraints as a predicate on a row, and the record \<open>db\<close> of all
  tables. Enumerated columns are the enumerations themselves (their CHECK constraint lists
  exactly the values); nullable columns are options.
\<close>

section \<open>JSON documents\<close>

text \<open>
  Values of JSONB columns after decoding. A finite float is the rational it denotes.
\<close>

datatype json =
    JNull | JBool bool | JInt int | JFloat rat | JStr string
  | JArr "json list" | JObj "(string \<times> json) list"

section \<open>media\_jobs\<close>

record media_job =
  mj_id :: uuid
  mj_schema_version :: int
  mj_result_version :: int
  mj_public_state :: MediaJobState
  mj_provider_id :: string
  mj_canonical_provider_url :: string
  mj_media_id :: string
  mj_hostname :: string
  mj_path :: string
  mj_scheme :: string
  mj_port :: "int option"
  mj_credential_hash :: bytes
  mj_request_fingerprint :: bytes
  mj_result_metadata :: "json option"
  mj_public_error_code :: "string option"
  mj_attempt_count :: int
  mj_max_attempts :: int
  mj_available_at :: time
  mj_lease_owner :: "string option"
  mj_lease_expires_at :: "time option"
  mj_fence_token :: int
  mj_created_at :: time
  mj_updated_at :: time
  mj_started_at :: "time option"
  mj_completed_at :: "time option"
  mj_expires_at :: time

definition no_query_fragment :: "string \<Rightarrow> bool" where
  "no_query_fragment u \<longleftrightarrow> CHR ''?'' \<notin> set u \<and> CHR ''#'' \<notin> set u"

definition media_job_lease_ok :: "media_job \<Rightarrow> bool" where
  "media_job_lease_ok j \<longleftrightarrow>
     (mj_public_state j = MJ_INSPECTING \<and> mj_lease_owner j \<noteq> None \<and> mj_lease_expires_at j \<noteq> None) \<or>
     (mj_public_state j \<noteq> MJ_INSPECTING \<and> mj_lease_owner j = None \<and> mj_lease_expires_at j = None)"

definition media_job_result_ok :: "media_job \<Rightarrow> bool" where
  "media_job_result_ok j \<longleftrightarrow>
     (mj_public_state j = MJ_INSPECTED \<and> mj_result_metadata j \<noteq> None \<and>
        mj_public_error_code j = None \<and> mj_completed_at j \<noteq> None) \<or>
     (mj_public_state j = MJ_FAILED \<and> mj_result_metadata j = None \<and>
        mj_public_error_code j \<noteq> None \<and> mj_completed_at j \<noteq> None) \<or>
     (mj_public_state j \<noteq> MJ_INSPECTED \<and> mj_public_state j \<noteq> MJ_FAILED \<and>
        mj_result_metadata j = None \<and> mj_public_error_code j = None)"

definition media_job_ok :: "media_job \<Rightarrow> bool" where
  "media_job_ok j \<longleftrightarrow>
     no_query_fragment (mj_canonical_provider_url j) \<and> 0 \<le> mj_attempt_count j \<and>
     1 \<le> mj_max_attempts j \<and> 0 \<le> mj_fence_token j \<and>
     length (mj_credential_hash j) = 32 \<and> length (mj_request_fingerprint j) = 32 \<and>
     1 \<le> mj_schema_version j \<and> 0 \<le> mj_result_version j \<and>
     mj_scheme j = ''https'' \<and> mj_port j = None \<and>
     media_job_lease_ok j \<and> media_job_result_ok j"

section \<open>media\_download\_jobs\<close>

record download_job =
  dj_id :: uuid
  dj_media_job_id :: uuid
  dj_schema_version :: int
  dj_public_state :: MediaDownloadJobState
  dj_format_option_id :: string
  dj_provider_id :: string
  dj_canonical_provider_url :: string
  dj_media_id :: string
  dj_hostname :: string
  dj_path :: string
  dj_scheme :: string
  dj_port :: "int option"
  dj_selected_format_snapshot :: json
  dj_attempt_count :: int
  dj_max_attempts :: int
  dj_available_at :: time
  dj_lease_owner :: "string option"
  dj_lease_expires_at :: "time option"
  dj_fence_token :: int
  dj_artifact_id :: "uuid option"
  dj_artifact_bytes :: "int option"
  dj_artifact_content_type :: "string option"
  dj_artifact_container :: "string option"
  dj_public_error_code :: "string option"
  dj_progress_stage :: DownloadProgressStage
  dj_cancel_requested_at :: "time option"
  dj_suggested_filename :: "string option"
  dj_progress_percent :: "int option"
  dj_created_at :: time
  dj_updated_at :: time
  dj_started_at :: "time option"
  dj_completed_at :: "time option"
  dj_expires_at :: time

text \<open>\<open>ck_media_download_jobs_lease_state\<close>\<close>

definition download_job_lease_ok :: "download_job \<Rightarrow> bool" where
  "download_job_lease_ok j \<longleftrightarrow>
     (dj_public_state j = DJ_DOWNLOADING \<and> dj_lease_owner j \<noteq> None \<and> dj_lease_expires_at j \<noteq> None) \<or>
     (dj_public_state j \<noteq> DJ_DOWNLOADING \<and> dj_lease_owner j = None \<and> dj_lease_expires_at j = None)"

text \<open>\<open>ck_media_download_jobs_result_state\<close> and \<open>..._artifact_bytes_positive\<close>\<close>

definition no_artifact :: "download_job \<Rightarrow> bool" where
  "no_artifact j \<longleftrightarrow> dj_artifact_id j = None \<and> dj_artifact_bytes j = None \<and>
     dj_artifact_container j = None \<and> dj_artifact_content_type j = None"

definition download_job_result_ok :: "download_job \<Rightarrow> bool" where
  "download_job_result_ok j \<longleftrightarrow>
     (dj_public_state j = DJ_READY \<and> dj_artifact_id j \<noteq> None \<and>
        present (dj_artifact_bytes j) (\<lambda>b. 0 < b) \<and>
        dj_artifact_container j \<noteq> None \<and> dj_artifact_content_type j \<noteq> None \<and>
        dj_public_error_code j = None \<and> dj_completed_at j \<noteq> None) \<or>
     (dj_public_state j = DJ_FAILED \<and> no_artifact j \<and> dj_completed_at j \<noteq> None \<and>
        present (dj_public_error_code j) (\<lambda>c. 1 \<le> length c \<and> length c \<le> 64)) \<or>
     (dj_public_state j \<in> {DJ_QUEUED, DJ_DOWNLOADING, DJ_EXPIRED} \<and> no_artifact j \<and>
        dj_public_error_code j = None)"

text \<open>\<open>..._progress_state\<close>, \<open>..._cancel_requested\<close> and \<open>..._progress_percent\<close>\<close>

definition download_job_progress_ok :: "download_job \<Rightarrow> bool" where
  "download_job_progress_ok j \<longleftrightarrow>
     (dj_public_state j = DJ_QUEUED \<and> dj_progress_stage j \<in> {PS_QUEUED, PS_RETRYING}) \<or>
     (dj_public_state j = DJ_DOWNLOADING \<and>
        dj_progress_stage j \<in> {PS_INSPECTING, PS_DOWNLOADING_VIDEO, PS_DOWNLOADING_AUDIO,
                               PS_MUXING, PS_VERIFYING, PS_PUBLISHING}) \<or>
     (dj_public_state j = DJ_READY \<and> dj_progress_stage j = PS_READY) \<or>
     (dj_public_state j = DJ_FAILED \<and> dj_progress_stage j = PS_FAILED) \<or>
     (dj_public_state j = DJ_EXPIRED \<and> dj_progress_stage j \<in> {PS_EXPIRED, PS_CANCELLED})"

definition download_job_cancel_ok :: "download_job \<Rightarrow> bool" where
  "download_job_cancel_ok j \<longleftrightarrow>
     (dj_cancel_requested_at j = None \<and> dj_progress_stage j \<noteq> PS_CANCELLED) \<or>
     (dj_cancel_requested_at j \<noteq> None \<and>
        (dj_public_state j = DJ_DOWNLOADING \<or>
         (dj_public_state j = DJ_EXPIRED \<and> dj_progress_stage j = PS_CANCELLED)))"

definition download_job_percent_ok :: "download_job \<Rightarrow> bool" where
  "download_job_percent_ok j \<longleftrightarrow>
     (case dj_progress_percent j of
        None \<Rightarrow> True
      | Some p \<Rightarrow> 0 \<le> p \<and> p \<le> 99 \<and> dj_public_state j = DJ_DOWNLOADING \<and>
          dj_progress_stage j \<in> {PS_DOWNLOADING_VIDEO, PS_DOWNLOADING_AUDIO})"

text \<open>
  \<open>char_length\<close> of a text that is held as its UTF-8 octets: continuation octets do not count.
\<close>

definition char_length :: "string \<Rightarrow> nat" where
  "char_length s = length (filter (\<lambda>c. of_char c div (64::nat) \<noteq> 2) s)"

definition download_job_filename_ok :: "download_job \<Rightarrow> bool" where
  "download_job_filename_ok j \<longleftrightarrow>
     (case dj_suggested_filename j of
        None \<Rightarrow> True
      | Some f \<Rightarrow> 1 \<le> char_length f \<and> char_length f \<le> 255 \<and> CHR ''/'' \<notin> set f \<and>
          CHR 0x5C \<notin> set f \<and> CHR 0x0A \<notin> set f \<and> CHR 0x0D \<notin> set f)"

definition download_job_ok :: "download_job \<Rightarrow> bool" where
  "download_job_ok j \<longleftrightarrow>
     dj_public_state j \<noteq> DJ_CANCELLED \<and> no_query_fragment (dj_canonical_provider_url j) \<and>
     0 \<le> dj_attempt_count j \<and> 1 \<le> dj_max_attempts j \<and> 0 \<le> dj_fence_token j \<and>
     1 \<le> dj_schema_version j \<and> dj_scheme j = ''https'' \<and> dj_port j = None \<and>
     download_job_lease_ok j \<and> download_job_result_ok j \<and> download_job_progress_ok j \<and>
     download_job_cancel_ok j \<and> download_job_percent_ok j \<and> download_job_filename_ok j"

section \<open>anonymous\_clients, free\_download\_quota\_entries, free\_download\_delivery\_ranges\<close>

record anonymous_client =
  ac_id :: uuid
  ac_token_hash :: bytes
  ac_created_at :: time
  ac_expires_at :: time

definition client_ok :: "anonymous_client \<Rightarrow> bool" where
  "client_ok c \<longleftrightarrow> length (ac_token_hash c) = 32 \<and> ac_created_at c < ac_expires_at c"

datatype quota_state = Q_RESERVED | Q_CONSUMED | Q_RELEASED | Q_EXPIRED

record quota_entry =
  qe_id :: uuid
  qe_anonymous_client_id :: uuid
  qe_download_job_id :: uuid
  qe_state :: quota_state
  qe_reserved_at :: time
  qe_reservation_expires_at :: time
  qe_consumed_at :: "time option"
  qe_released_at :: "time option"

definition entry_lifecycle_ok :: "quota_entry \<Rightarrow> bool" where
  "entry_lifecycle_ok e \<longleftrightarrow>
     (qe_state e = Q_RESERVED \<and> qe_consumed_at e = None \<and> qe_released_at e = None) \<or>
     (qe_state e = Q_CONSUMED \<and> qe_released_at e = None \<and>
        present (qe_consumed_at e) (\<lambda>t. qe_reserved_at e \<le> t)) \<or>
     (qe_state e \<in> {Q_RELEASED, Q_EXPIRED} \<and> qe_consumed_at e = None \<and>
        present (qe_released_at e) (\<lambda>t. qe_reserved_at e \<le> t))"

definition entry_ok :: "quota_entry \<Rightarrow> bool" where
  "entry_ok e \<longleftrightarrow> qe_reserved_at e < qe_reservation_expires_at e \<and> entry_lifecycle_ok e"

datatype range_state = R_ACTIVE | R_CLOSED

record delivery_range =
  dr_id :: uuid
  dr_quota_entry_id :: uuid
  dr_artifact_id :: uuid
  dr_fence_token :: int
  dr_artifact_bytes :: int
  dr_request_start :: int
  dr_request_end_exclusive :: int
  dr_served_end_exclusive :: int
  dr_state :: range_state
  dr_started_at :: time
  dr_lease_expires_at :: "time option"
  dr_closed_at :: "time option"

definition range_lifecycle_ok :: "delivery_range \<Rightarrow> bool" where
  "range_lifecycle_ok r \<longleftrightarrow>
     (dr_state r = R_ACTIVE \<and> dr_closed_at r = None \<and>
        present (dr_lease_expires_at r) (\<lambda>t. dr_started_at r < t)) \<or>
     (dr_state r = R_CLOSED \<and> dr_lease_expires_at r = None \<and>
        present (dr_closed_at r) (\<lambda>t. dr_started_at r \<le> t))"

definition range_ok :: "delivery_range \<Rightarrow> bool" where
  "range_ok r \<longleftrightarrow>
     0 < dr_artifact_bytes r \<and> 0 \<le> dr_fence_token r \<and>
     0 \<le> dr_request_start r \<and> dr_request_start r < dr_request_end_exclusive r \<and>
     dr_request_end_exclusive r \<le> dr_artifact_bytes r \<and>
     dr_request_start r \<le> dr_served_end_exclusive r \<and>
     dr_served_end_exclusive r \<le> dr_request_end_exclusive r \<and>
     range_lifecycle_ok r"

section \<open>media\_delivery\_grants\<close>

record delivery_grant =
  gr_id :: uuid
  gr_download_job_id :: uuid
  gr_token_hash :: bytes
  gr_artifact_id :: uuid
  gr_fence_token :: int
  gr_created_at :: time
  gr_expires_at :: time
  gr_revoked_at :: "time option"

definition grant_ok :: "delivery_grant \<Rightarrow> bool" where
  "grant_ok g \<longleftrightarrow>
     gr_created_at g < gr_expires_at g \<and> length (gr_token_hash g) = 32 \<and>
     0 \<le> gr_fence_token g \<and>
     (case gr_revoked_at g of None \<Rightarrow> True | Some t \<Rightarrow> gr_created_at g \<le> t)"

section \<open>payment\_orders, premium\_entitlements\<close>

record payment_order =
  po_id :: uuid
  po_public_id :: uuid
  po_anonymous_client_id :: uuid
  po_provider :: string
  po_provider_invoice_id :: int
  po_product_code :: string
  po_amount_minor :: int
  po_currency :: string
  po_entitlement_duration_seconds :: int
  po_status :: PaymentOrderState
  po_is_test :: bool
  po_receipt_json :: string
  po_creation_idempotency_hash :: bytes
  po_created_at :: time
  po_updated_at :: time
  po_pending_at :: "time option"
  po_paid_at :: "time option"
  po_provider_callback_at :: "time option"
  po_expires_at :: time
  po_provider_operation_key :: "string option"

definition order_lifecycle_ok :: "payment_order \<Rightarrow> bool" where
  "order_lifecycle_ok r \<longleftrightarrow>
     (po_status r = PO_CREATED \<and> po_pending_at r = None \<and> po_paid_at r = None \<and>
        po_provider_callback_at r = None) \<or>
     (po_status r = PO_PENDING \<and> po_pending_at r \<noteq> None \<and> po_paid_at r = None \<and>
        po_provider_callback_at r = None) \<or>
     (po_status r = PO_PAID \<and>
        present (po_pending_at r) (\<lambda>p. present (po_paid_at r) (\<lambda>q.
          present (po_provider_callback_at r) (\<lambda>c. p \<le> q \<and> p \<le> c)))) \<or>
     (po_status r = PO_EXPIRED \<and> po_paid_at r = None \<and> po_provider_callback_at r = None)"

definition order_ok :: "payment_order \<Rightarrow> bool" where
  "order_ok r \<longleftrightarrow>
     po_provider r = ''robokassa'' \<and> 0 < po_provider_invoice_id r \<and> 0 < po_amount_minor r \<and>
     po_currency r = ''RUB'' \<and> po_entitlement_duration_seconds r = 86400 \<and> po_is_test r \<and>
     length (po_creation_idempotency_hash r) = 32 \<and>
     2 \<le> char_length (po_receipt_json r) \<and> char_length (po_receipt_json r) \<le> 4096 \<and>
     po_created_at r < po_expires_at r \<and> order_lifecycle_ok r"

record premium_entitlement =
  pe_id :: uuid
  pe_public_id :: uuid
  pe_anonymous_client_id :: uuid
  pe_source_payment_order_id :: uuid
  pe_product_code :: string
  pe_starts_at :: time
  pe_expires_at :: time
  pe_created_at :: time

definition entitlement_ok :: "premium_entitlement \<Rightarrow> bool" where
  "entitlement_ok e \<longleftrightarrow> pe_starts_at e < pe_expires_at e"

section \<open>The database\<close>

record db =
  media_jobs :: "media_job list"
  download_jobs :: "download_job list"
  clients :: "anonymous_client list"
  quota_entries :: "quota_entry list"
  ranges :: "delivery_range list"
  grants :: "delivery_grant list"
  orders :: "payment_order list"
  entitlements :: "premium_entitlement list"

definition empty_db :: db where
  "empty_db = \<lparr>media_jobs = [], download_jobs = [], clients = [], quota_entries = [],
     ranges = [], grants = [], orders = [], entitlements = []\<rparr>"

text \<open>Writing a table back unchanged.\<close>

lemma db_same [simp]:
  "d\<lparr>media_jobs := media_jobs d\<rparr> = d" "d\<lparr>download_jobs := download_jobs d\<rparr> = d"
  "d\<lparr>clients := clients d\<rparr> = d" "d\<lparr>quota_entries := quota_entries d\<rparr> = d"
  "d\<lparr>ranges := ranges d\<rparr> = d" "d\<lparr>grants := grants d\<rparr> = d"
  "d\<lparr>orders := orders d\<rparr> = d" "d\<lparr>entitlements := entitlements d\<rparr> = d"
  by (cases d; simp)+

lemmas media_job_ok_defs = media_job_ok_def media_job_lease_ok_def media_job_result_ok_def
lemmas download_job_ok_defs = download_job_ok_def download_job_lease_ok_def
  download_job_result_ok_def download_job_progress_ok_def download_job_cancel_ok_def
  download_job_percent_ok_def download_job_filename_ok_def no_artifact_def
lemmas entry_ok_defs = entry_ok_def entry_lifecycle_ok_def
lemmas range_ok_defs = range_ok_def range_lifecycle_ok_def
lemmas order_ok_defs = order_ok_def order_lifecycle_ok_def char_length_def

end
