(* ===== verification/Premium.thy ===== *)
theory Premium
  imports Schema
begin

text \<open>
  Premium entitlements: the capability projection (\<open>premium/policy.py\<close>), the repository
  (\<open>premium/repository.py\<close>), the service (\<open>premium/service.py\<close>) and the reconciliation of
  paid orders (\<open>premium/reconcile.py\<close>). Fresh uuids are arguments; \<open>now\<close> is the value
  \<open>database_now\<close> returned.
\<close>

section \<open>Capability\<close>

record PremiumCapability =
  pc_is_premium :: bool
  pc_premium_expires_at :: "time option"
  pc_product_code :: "string option"

definition capability_from_entitlement :: "premium_entitlement option \<Rightarrow> PremiumCapability" where
  "capability_from_entitlement ent =
     (case ent of
        None \<Rightarrow> \<lparr>pc_is_premium = False, pc_premium_expires_at = None, pc_product_code = None\<rparr>
      | Some e \<Rightarrow> \<lparr>pc_is_premium = True, pc_premium_expires_at = Some (pe_expires_at e),
                  pc_product_code = Some (pe_product_code e)\<rparr>)"

section \<open>Repository\<close>

definition get_by_source_payment_order_id :: "uuid \<Rightarrow> db \<Rightarrow> premium_entitlement option" where
  "get_by_source_payment_order_id oid d = row_by pe_source_payment_order_id oid (entitlements d)"

definition get_active_for_client :: "uuid \<Rightarrow> time \<Rightarrow> db \<Rightarrow> premium_entitlement option" where
  "get_active_for_client client now d =
     (case sql_limit 1 (order_by (\<lambda>e. - pe_expires_at e)
             (filter (\<lambda>e. pe_anonymous_client_id e = client \<and> pe_starts_at e \<le> now \<and>
                          now < pe_expires_at e) (entitlements d))) of
        [] \<Rightarrow> None
      | e # _ \<Rightarrow> Some e)"

text \<open>The insert: CHECK, primary key, two unique constraints and two foreign keys.\<close>

definition pe_insert :: "premium_entitlement \<Rightarrow> db \<Rightarrow> db res" where
  "pe_insert row d =
     (if entitlement_ok row \<and> pe_id row \<notin> pe_id ` set (entitlements d) \<and>
         pe_public_id row \<notin> pe_public_id ` set (entitlements d) \<and>
         pe_source_payment_order_id row \<notin> pe_source_payment_order_id ` set (entitlements d) \<and>
         pe_anonymous_client_id row \<in> ac_id ` set (clients d) \<and>
         pe_source_payment_order_id row \<in> po_id ` set (orders d)
      then Inr (d\<lparr>entitlements := entitlements d @ [row]\<rparr>)
      else Inl (IntegrityError ''premium_entitlements''))"

definition ensure_for_paid_order ::
  "uuid \<Rightarrow> uuid \<Rightarrow> payment_order \<Rightarrow> time \<Rightarrow> db \<Rightarrow> ((premium_entitlement \<times> bool) \<times> db) res" where
  "ensure_for_paid_order fresh_id fresh_public order now d =
     (case po_paid_at order of
        None \<Rightarrow> Inl PremiumEntitlementInvariantError
      | Some starts_at \<Rightarrow>
          if po_status order \<noteq> PO_PAID \<or> po_entitlement_duration_seconds order \<le> 0
          then Inl PremiumEntitlementInvariantError
          else (case get_by_source_payment_order_id (po_id order) d of
            Some existing \<Rightarrow> Inr ((existing, False), d)
          | None \<Rightarrow>
              let expires_at = starts_at + seconds (po_entitlement_duration_seconds order)
              in if expires_at \<le> starts_at then Inl PremiumEntitlementInvariantError
                 else
                   let row = \<lparr>pe_id = fresh_id, pe_public_id = fresh_public,
                         pe_anonymous_client_id = po_anonymous_client_id order,
                         pe_source_payment_order_id = po_id order,
                         pe_product_code = po_product_code order, pe_starts_at = starts_at,
                         pe_expires_at = expires_at, pe_created_at = now\<rparr>
                   in case pe_insert row d of
                        Inr d' \<Rightarrow> Inr ((row, True), d')
                      | Inl _ \<Rightarrow>
                          (case get_by_source_payment_order_id (po_id order) d of
                             None \<Rightarrow> Inl PremiumEntitlementInvariantError
                           | Some existing \<Rightarrow> Inr ((existing, False), d))))"

section \<open>Service\<close>

text \<open>\<open>PremiumEntitlementService.status_for_client\<close>: the capability and its entitlement.\<close>

definition status_for_client ::
  "time \<Rightarrow> uuid \<Rightarrow> db \<Rightarrow> PremiumCapability \<times> premium_entitlement option" where
  "status_for_client now client d =
     (let ent = get_active_for_client client now d in (capability_from_entitlement ent, ent))"

text \<open>
  \<open>public_dict\<close>: the remaining time is truncated to whole seconds; the timestamp is kept as
  a time, its ISO spelling is not modelled.
\<close>

record PremiumPublic =
  pp_active :: bool
  pp_expires_at :: "time option"
  pp_product_code :: "string option"
  pp_remaining_seconds :: "int option"

definition premium_public_dict :: "PremiumCapability \<Rightarrow> time \<Rightarrow> PremiumPublic" where
  "premium_public_dict cap now =
     (case (pc_is_premium cap, pc_premium_expires_at cap) of
        (True, Some t) \<Rightarrow>
          \<lparr>pp_active = True, pp_expires_at = Some t, pp_product_code = pc_product_code cap,
           pp_remaining_seconds =
             Some (max 0 (if t - now \<ge> 0 then (t - now) div 1000000
                          else - ((now - t) div 1000000)))\<rparr>
      | _ \<Rightarrow> \<lparr>pp_active = False, pp_expires_at = None, pp_product_code = None,
              pp_remaining_seconds = None\<rparr>)"

section \<open>Reconciliation\<close>

record PremiumReconcileResult =
  prr_scanned :: nat
  prr_created :: nat
  prr_reused :: nat

text \<open>Ascending \<open>paid_at\<close> with NULL last; \<open>fresh\<close> gives the uuids drawn for an order.\<close>

definition paid_at_key :: "payment_order \<Rightarrow> int \<times> time" where
  "paid_at_key r = (case po_paid_at r of None \<Rightarrow> (1, 0) | Some t \<Rightarrow> (0, t))"

definition paid_without_entitlement :: "db \<Rightarrow> payment_order list" where
  "paid_without_entitlement d =
     order_by paid_at_key
       (filter (\<lambda>r. po_status r = PO_PAID \<and> get_by_source_payment_order_id (po_id r) d = None)
         (orders d))"

definition reconcile_paid_orders_without_entitlement ::
  "(uuid \<Rightarrow> uuid \<times> uuid) \<Rightarrow> time \<Rightarrow> db \<Rightarrow> (PremiumReconcileResult \<times> db) res" where
  "reconcile_paid_orders_without_entitlement fresh now d =
     (let rows = paid_without_entitlement d
      in andThen
           (fold_res (\<lambda>order (created, reused, d).
              andThen (ensure_for_paid_order (fst (fresh (po_id order))) (snd (fresh (po_id order)))
                         order now d)
                (\<lambda>((e, was_created), d'). Inr (if was_created then (created + 1, reused, d')
                                              else (created, reused + 1, d')))) rows (0, 0, d))
           (\<lambda>(created, reused, d'). Inr (\<lparr>prr_scanned = length rows, prr_created = created,
                                          prr_reused = reused\<rparr>, d')))"

section \<open>Invariant\<close>

definition orders_wf :: "db \<Rightarrow> bool" where
  "orders_wf d \<longleftrightarrow>
     (\<forall>r \<in> set (orders d). order_ok r \<and> po_anonymous_client_id r \<in> ac_id ` set (clients d)) \<and>
     distinct (map po_id (orders d))"

definition entitlements_wf :: "db \<Rightarrow> bool" where
  "entitlements_wf d \<longleftrightarrow>
     (\<forall>e \<in> set (entitlements d). entitlement_ok e \<and>
        pe_anonymous_client_id e \<in> ac_id ` set (clients d) \<and>
        pe_source_payment_order_id e \<in> po_id ` set (orders d)) \<and>
     distinct (map pe_id (entitlements d)) \<and> distinct (map pe_public_id (entitlements d)) \<and>
     distinct (map pe_source_payment_order_id (entitlements d))"

text \<open>The entitlement that belongs to a paid order.\<close>

definition entitles :: "payment_order \<Rightarrow> premium_entitlement \<Rightarrow> bool" where
  "entitles order e \<longleftrightarrow>
     pe_source_payment_order_id e = po_id order \<and>
     pe_anonymous_client_id e = po_anonymous_client_id order \<and>
     po_paid_at order = Some (pe_starts_at e) \<and>
     pe_expires_at e = pe_starts_at e + seconds (po_entitlement_duration_seconds order)"

lemma pe_insert_wf: "pe_insert row d = Inr d' \<Longrightarrow> entitlements_wf d \<Longrightarrow> entitlements_wf d'"
  by (auto simp: pe_insert_def entitlements_wf_def split: if_splits)

lemma pe_insert_frame:
  "pe_insert row d = Inr d' \<Longrightarrow> d' = d\<lparr>entitlements := entitlements d @ [row]\<rparr>"
  by (simp add: pe_insert_def split: if_splits)

lemma ensure_wf:
  "ensure_for_paid_order i p order now d = Inr (r, d') \<Longrightarrow> entitlements_wf d \<Longrightarrow> entitlements_wf d'"
  by (auto simp: ensure_for_paid_order_def Let_def split: option.splits if_splits sum.splits
      dest: pe_insert_wf)

lemma get_by_source_append:
  "get_by_source_payment_order_id oid (d\<lparr>entitlements := entitlements d @ [row]\<rparr>) =
     (case get_by_source_payment_order_id oid d of
        Some e \<Rightarrow> Some e
      | None \<Rightarrow> if pe_source_payment_order_id row = oid then Some row else None)"
  by (auto simp: get_by_source_payment_order_id_def row_by_append row_by_Cons split: option.splits)

lemma get_by_source_None:
  "get_by_source_payment_order_id oid d = None \<longleftrightarrow>
     oid \<notin> pe_source_payment_order_id ` set (entitlements d)"
  by (simp add: get_by_source_payment_order_id_def row_by_None_iff)

text \<open>A paid order that has no entitlement gets one, when the drawn uuids are new.\<close>

lemma ensure_creates:
  assumes "order \<in> set (orders d)" and "orders_wf d" and "po_status order = PO_PAID"
    and "get_by_source_payment_order_id (po_id order) d = None"
    and "i \<notin> pe_id ` set (entitlements d)" and "p \<notin> pe_public_id ` set (entitlements d)"
  shows "\<exists>e. ensure_for_paid_order i p order now d =
            Inr ((e, True), d\<lparr>entitlements := entitlements d @ [e]\<rparr>) \<and> entitles order e \<and>
            pe_id e = i \<and> pe_public_id e = p"
proof -
  have ok: "order_ok order" and cl: "po_anonymous_client_id order \<in> ac_id ` set (clients d)"
    using assms(1,2) by (auto simp: orders_wf_def)
  from ok assms(3) obtain t where t: "po_paid_at order = Some t"
    and dur: "po_entitlement_duration_seconds order = 86400"
    by (auto simp: order_ok_defs)
  have "po_id order \<in> po_id ` set (orders d)" using assms(1) by blast
  moreover have "po_id order \<notin> pe_source_payment_order_id ` set (entitlements d)"
    using assms(4) by (simp add: get_by_source_None)
  ultimately show ?thesis
    using assms(3-6) t dur cl
    by (simp add: ensure_for_paid_order_def pe_insert_def Let_def entitlement_ok_def seconds_def
        entitles_def)
qed

lemma ensure_reuses:
  assumes "get_by_source_payment_order_id (po_id order) d = Some e"
    and "po_status order = PO_PAID" and "order_ok order"
  shows "ensure_for_paid_order i p order now d = Inr ((e, False), d)"
proof -
  from assms(2,3) obtain t where "po_paid_at order = Some t"
    and "po_entitlement_duration_seconds order = 86400"
    by (auto simp: order_ok_defs)
  with assms show ?thesis by (simp add: ensure_for_paid_order_def)
qed

text \<open>Issuing Premium for a paid order is idempotent: the first call stores exactly one
  entitlement, for the order's client, from the moment of payment for the purchased duration;
  every later call returns that entitlement, reports that nothing was created and changes
  nothing, whatever uuids and time it is given.\<close>

theorem ensure_for_paid_order_once:
  assumes "order \<in> set (orders d)" and "orders_wf d" and "entitlements_wf d"
    and "po_status order = PO_PAID" and "get_by_source_payment_order_id (po_id order) d = None"
    and "i \<notin> pe_id ` set (entitlements d)" and "p \<notin> pe_public_id ` set (entitlements d)"
  shows "\<exists>e d'. ensure_for_paid_order i p order now d = Inr ((e, True), d') \<and>
            entitles order e \<and> entitlements d' = entitlements d @ [e] \<and> entitlements_wf d' \<and>
            (\<forall>i' p' now'. ensure_for_paid_order i' p' order now' d' = Inr ((e, False), d'))"
proof -
  obtain e where e: "ensure_for_paid_order i p order now d =
      Inr ((e, True), d\<lparr>entitlements := entitlements d @ [e]\<rparr>)" "entitles order e"
    using ensure_creates [OF assms(1,2,4-7)] by blast
  let ?d = "d\<lparr>entitlements := entitlements d @ [e]\<rparr>"
  have ok: "order_ok order" using assms(1,2) by (simp add: orders_wf_def)
  have "get_by_source_payment_order_id (po_id order) ?d = Some e"
    using assms(5) e(2) by (simp add: get_by_source_append entitles_def)
  from ensure_reuses [OF this assms(4) ok] e ensure_wf [OF e(1) assms(3)] show ?thesis
    by (intro exI [of _ e] exI [of _ ?d]) simp
qed

section \<open>Status\<close>

lemma hd_order_by_max:
  assumes "rows \<noteq> []"
  shows "\<exists>e. sql_limit 1 (order_by (\<lambda>e. - f e) rows) = [e] \<and> e \<in> set rows \<and>
             (\<forall>x \<in> set rows. f x \<le> (f e :: int))"
proof -
  let ?s = "order_by (\<lambda>e. - f e) rows"
  have "?s \<noteq> []" using assms by (metis length_0_conv length_order_by)
  then obtain e es where s: "?s = e # es" by (cases ?s) auto
  have set: "set rows = insert e (set es)" using s set_order_by [of "\<lambda>e. - f e" rows] by simp
  have "sorted (map (\<lambda>e. - f e) (e # es))" using sorted_order_by [of "\<lambda>e. - f e" rows] s by simp
  then have "\<forall>x \<in> set rows. f x \<le> f e" unfolding set by auto
  with s set show ?thesis by (simp add: sql_limit_def)
qed

text \<open>A client is Premium exactly while one of its entitlement windows is open, and the
  expiry reported is the end of the window that stays open longest.\<close>

theorem status_for_client_correct:
  "let active = {e \<in> set (entitlements d). pe_anonymous_client_id e = client \<and>
                   pe_starts_at e \<le> now \<and> now < pe_expires_at e};
       cap = fst (status_for_client now client d)
   in (pc_is_premium cap \<longleftrightarrow> active \<noteq> {}) \<and>
      (active \<noteq> {} \<longrightarrow> pc_premium_expires_at cap = Some (Max (pe_expires_at ` active)))"
proof -
  let ?rows = "filter (\<lambda>e. pe_anonymous_client_id e = client \<and> pe_starts_at e \<le> now \<and>
      now < pe_expires_at e) (entitlements d)"
  show ?thesis
  proof (cases "?rows = []")
    case True
    then have "get_active_for_client client now d = None"
      by (simp add: get_active_for_client_def order_by_def sql_limit_def)
    moreover have "{e \<in> set (entitlements d). pe_anonymous_client_id e = client \<and>
        pe_starts_at e \<le> now \<and> now < pe_expires_at e} = {}"
      using True by (auto simp: filter_empty_conv)
    ultimately show ?thesis
      by (simp add: status_for_client_def Let_def capability_from_entitlement_def)
  next
    case False
    from hd_order_by_max [OF False, of pe_expires_at] obtain e where
      e: "get_active_for_client client now d = Some e" "e \<in> set ?rows"
      and mx: "\<forall>x \<in> set ?rows. pe_expires_at x \<le> pe_expires_at e"
      by (auto simp: get_active_for_client_def)
    have set: "{e \<in> set (entitlements d). pe_anonymous_client_id e = client \<and>
        pe_starts_at e \<le> now \<and> now < pe_expires_at e} = set ?rows" by auto
    have "Max (pe_expires_at ` set ?rows) = pe_expires_at e"
      using e(2) mx by (intro Max_eqI) auto
    then show ?thesis
      unfolding Let_def status_for_client_def set e(1)
      using e(2) by (auto simp: capability_from_entitlement_def)
  qed
qed

section \<open>Reconciliation is complete and idempotent\<close>

abbreviation reconcile_one ::
  "(uuid \<Rightarrow> uuid \<times> uuid) \<Rightarrow> time \<Rightarrow> payment_order \<Rightarrow> nat \<times> nat \<times> db \<Rightarrow> (nat \<times> nat \<times> db) res" where
  "reconcile_one fresh now \<equiv> (\<lambda>order (created, reused, d).
     andThen (ensure_for_paid_order (fst (fresh (po_id order))) (snd (fresh (po_id order)))
                order now d)
       (\<lambda>((e, was_created), d'). Inr (if was_created then (created + 1, reused, d')
                                     else (created, reused + 1, d'))))"

definition fresh_uuids :: "(uuid \<Rightarrow> uuid \<times> uuid) \<Rightarrow> uuid set \<Rightarrow> db \<Rightarrow> bool" where
  "fresh_uuids fresh ids d \<longleftrightarrow>
     inj_on (\<lambda>i. fst (fresh i)) ids \<and> inj_on (\<lambda>i. snd (fresh i)) ids \<and>
     (\<forall>i \<in> ids. fst (fresh i) \<notin> pe_id ` set (entitlements d) \<and>
               snd (fresh i) \<notin> pe_public_id ` set (entitlements d))"

lemma reconcile_loop:
  assumes "set rows \<subseteq> set (orders d)" and "orders_wf d"
    and "\<forall>r \<in> set rows. po_status r = PO_PAID \<and> get_by_source_payment_order_id (po_id r) d = None"
    and "distinct (map po_id rows)" and "fresh_uuids fresh (po_id ` set rows) d"
  shows "\<exists>es. fold_res (reconcile_one fresh now) rows (c, r, d) =
            Inr (c + length rows, r, d\<lparr>entitlements := entitlements d @ es\<rparr>) \<and>
          list_all2 entitles rows es"
  using assms
proof (induction rows arbitrary: c d)
  case Nil
  show ?case by (rule exI [of _ "[]"]) simp
next
  case (Cons order rows)
  let ?i = "fst (fresh (po_id order))" and ?p = "snd (fresh (po_id order))"
  have inj: "inj_on (\<lambda>i. fst (fresh i)) (po_id ` set (order # rows))"
    "inj_on (\<lambda>i. snd (fresh i)) (po_id ` set (order # rows))"
    and new: "\<And>i. i \<in> po_id ` set (order # rows) \<Longrightarrow>
      fst (fresh i) \<notin> pe_id ` set (entitlements d) \<and> snd (fresh i) \<notin> pe_public_id ` set (entitlements d)"
    using Cons.prems(5) unfolding fresh_uuids_def by blast+
  obtain e where e: "ensure_for_paid_order ?i ?p order now d =
      Inr ((e, True), d\<lparr>entitlements := entitlements d @ [e]\<rparr>)"
    and ent: "entitles order e" and ids: "pe_id e = ?i" "pe_public_id e = ?p"
    using ensure_creates [of order d ?i ?p now] Cons.prems(1-3) new [of "po_id order"] by auto
  let ?d = "d\<lparr>entitlements := entitlements d @ [e]\<rparr>"
  have other: "po_id o' \<noteq> po_id order" if "o' \<in> set rows" for o'
    using imageI [OF that, of po_id] Cons.prems(4) by auto
  have src: "pe_source_payment_order_id e = po_id order" using ent by (simp add: entitles_def)
  have "\<exists>es. fold_res (reconcile_one fresh now) rows (c + 1, r, ?d) =
      Inr (c + 1 + length rows, r, ?d\<lparr>entitlements := entitlements ?d @ es\<rparr>) \<and> list_all2 entitles rows es"
  proof (rule Cons.IH)
    show "set rows \<subseteq> set (orders ?d)" using Cons.prems(1) by simp
    show "orders_wf ?d" using Cons.prems(2) by (simp add: orders_wf_def)
    show "\<forall>r\<in>set rows. po_status r = PO_PAID \<and> get_by_source_payment_order_id (po_id r) ?d = None"
    proof
      fix r assume "r \<in> set rows"
      with Cons.prems(3) other [OF this] src
      show "po_status r = PO_PAID \<and> get_by_source_payment_order_id (po_id r) ?d = None"
        by (simp add: get_by_source_append)
    qed
    show "distinct (map po_id rows)" using Cons.prems(4) by simp
    show "fresh_uuids fresh (po_id ` set rows) ?d"
      unfolding fresh_uuids_def
    proof (intro conjI ballI)
      show "inj_on (\<lambda>i. fst (fresh i)) (po_id ` set rows)" "inj_on (\<lambda>i. snd (fresh i)) (po_id ` set rows)"
        by (rule inj_on_subset [OF inj(1)], force) (rule inj_on_subset [OF inj(2)], force)
      fix i assume i: "i \<in> po_id ` set rows"
      then have "i \<noteq> po_id order" using other by auto
      with i have "fst (fresh i) \<noteq> ?i" "snd (fresh i) \<noteq> ?p"
        using inj_onD [OF inj(1), of i "po_id order"] inj_onD [OF inj(2), of i "po_id order"] by auto
      then show "fst (fresh i) \<notin> pe_id ` set (entitlements ?d)"
        "snd (fresh i) \<notin> pe_public_id ` set (entitlements ?d)"
        using new [of i] i ids by simp_all
    qed
  qed
  then obtain es where "fold_res (reconcile_one fresh now) rows (c + 1, r, ?d) =
      Inr (c + 1 + length rows, r, ?d\<lparr>entitlements := entitlements ?d @ es\<rparr>)"
    and es: "list_all2 entitles rows es" by blast
  moreover have "reconcile_one fresh now order (c, r, d) = Inr (c + 1, r, ?d)" by (simp add: e)
  ultimately have "fold_res (reconcile_one fresh now) (order # rows) (c, r, d) =
      Inr (c + length (order # rows), r, d\<lparr>entitlements := entitlements d @ (e # es)\<rparr>)"
    by simp
  with ent es show ?case by (intro exI [of _ "e # es"]) simp
qed

lemma reconcile_wf:
  assumes "reconcile_paid_orders_without_entitlement fresh now d = Inr (res, d')" and "entitlements_wf d"
  shows "entitlements_wf d'"
proof -
  obtain c r where f: "fold_res (reconcile_one fresh now) (paid_without_entitlement d) (0, 0, d) = Inr (c, r, d')"
    using assms(1)
    by (auto simp: reconcile_paid_orders_without_entitlement_def Let_def andThen_eq_Inr)
  have "(\<lambda>(_, _, d). entitlements_wf d) (c, r, d')"
  proof (rule fold_res_invariant [where P = "\<lambda>(_, _, d). entitlements_wf d", OF f])
    fix x s t assume "case s of (_, _, d) \<Rightarrow> entitlements_wf d" and "reconcile_one fresh now x s = Inr t"
    then show "case t of (_, _, d) \<Rightarrow> entitlements_wf d"
      by (cases s) (auto simp: andThen_eq_Inr dest: ensure_wf split: if_splits)
  qed (simp add: assms(2))
  then show ?thesis by simp
qed

lemma paid_without_entitlement_set:
  "set (paid_without_entitlement d) =
     {r \<in> set (orders d). po_status r = PO_PAID \<and> get_by_source_payment_order_id (po_id r) d = None}"
  by (auto simp: paid_without_entitlement_def)

lemma reconcile_nothing:
  assumes "\<forall>r \<in> set (orders d). po_status r = PO_PAID \<longrightarrow> get_by_source_payment_order_id (po_id r) d \<noteq> None"
  shows "reconcile_paid_orders_without_entitlement fresh now d =
     Inr (\<lparr>prr_scanned = 0, prr_created = 0, prr_reused = 0\<rparr>, d)"
proof -
  have "paid_without_entitlement d = []"
    using paid_without_entitlement_set [of d] assms by (metis (mono_tags, lifting) Collect_empty_eq set_empty)
  then show ?thesis by (simp add: reconcile_paid_orders_without_entitlement_def)
qed

text \<open>Reconciliation grants what is missing and only that: it creates one entitlement for
  each paid order that had none, keeps every existing one, and afterwards every paid order has
  an entitlement; a second run scans, creates and changes nothing.\<close>

theorem reconcile_complete_and_idempotent:
  assumes "orders_wf d" and "entitlements_wf d" and "fresh_uuids fresh (po_id ` set (orders d)) d"
  shows "\<exists>res es d'. reconcile_paid_orders_without_entitlement fresh now d = Inr (res, d') \<and>
     prr_created res = prr_scanned res \<and> prr_reused res = 0 \<and>
     d' = d\<lparr>entitlements := entitlements d @ es\<rparr> \<and>
     list_all2 entitles (paid_without_entitlement d) es \<and> entitlements_wf d' \<and>
     (\<forall>r \<in> set (orders d'). po_status r = PO_PAID \<longrightarrow> get_by_source_payment_order_id (po_id r) d' \<noteq> None) \<and>
     (\<forall>fresh' now'. reconcile_paid_orders_without_entitlement fresh' now' d' =
        Inr (\<lparr>prr_scanned = 0, prr_created = 0, prr_reused = 0\<rparr>, d'))"
proof -
  let ?rows = "paid_without_entitlement d"
  have sub: "set ?rows \<subseteq> set (orders d)" by (auto simp: paid_without_entitlement_set)
  have "distinct (map po_id ?rows)"
    using assms(1) unfolding paid_without_entitlement_def orders_wf_def
    by (blast intro: distinct_map_order_by distinct_map_filter_sub)
  moreover have "fresh_uuids fresh (po_id ` set ?rows) d"
    using assms(3) sub unfolding fresh_uuids_def by (meson image_mono inj_on_subset subsetD)
  ultimately obtain es where
    f: "fold_res (reconcile_one fresh now) ?rows (0, 0, d) =
          Inr (length ?rows, 0, d\<lparr>entitlements := entitlements d @ es\<rparr>)"
    and es: "list_all2 entitles ?rows es"
    using reconcile_loop [OF sub assms(1), of fresh now 0 0] by (auto simp: paid_without_entitlement_set)
  let ?d = "d\<lparr>entitlements := entitlements d @ es\<rparr>"
  have run: "reconcile_paid_orders_without_entitlement fresh now d =
      Inr (\<lparr>prr_scanned = length ?rows, prr_created = length ?rows, prr_reused = 0\<rparr>, ?d)"
    using f by (simp add: reconcile_paid_orders_without_entitlement_def Let_def)
  have all: "get_by_source_payment_order_id (po_id r) ?d \<noteq> None"
    if "r \<in> set (orders ?d)" "po_status r = PO_PAID" for r
  proof (cases "get_by_source_payment_order_id (po_id r) d = None")
    case True
    with that have "r \<in> set ?rows" by (simp add: paid_without_entitlement_set)
    with es obtain e where "e \<in> set es" "entitles r e"
      by (metis in_set_conv_nth list_all2_conv_all_nth)
    then have "po_id r \<in> pe_source_payment_order_id ` set es" by (force simp: entitles_def)
    then show ?thesis by (simp add: get_by_source_None image_Un)
  qed (simp add: get_by_source_None image_Un)
  with run es reconcile_wf [OF run assms(2)] reconcile_nothing [of ?d] show ?thesis
    by (intro exI [of _ "\<lparr>prr_scanned = length ?rows, prr_created = length ?rows, prr_reused = 0\<rparr>"]
        exI [of _ es] exI [of _ ?d]) auto
qed

section \<open>A sample\<close>

definition sample_client :: anonymous_client where
  "sample_client = \<lparr>ac_id = 1, ac_token_hash = replicate 32 1, ac_created_at = 0,
     ac_expires_at = seconds 1000\<rparr>"

definition sample_paid_order :: payment_order where
  "sample_paid_order = \<lparr>po_id = 5, po_public_id = 6, po_anonymous_client_id = 1,
     po_provider = ''robokassa'', po_provider_invoice_id = 1, po_product_code = ''premium_24h'',
     po_amount_minor = 9900, po_currency = ''RUB'', po_entitlement_duration_seconds = 86400,
     po_status = PO_PAID, po_is_test = True, po_receipt_json = ''{}'',
     po_creation_idempotency_hash = replicate 32 2, po_created_at = 0, po_updated_at = 3,
     po_pending_at = Some 1, po_paid_at = Some 2, po_provider_callback_at = Some 2,
     po_expires_at = seconds 900, po_provider_operation_key = None\<rparr>"

definition sample_paid_db :: db where
  "sample_paid_db = empty_db\<lparr>clients := [sample_client], orders := [sample_paid_order]\<rparr>"

lemmas sample_paid_defs = sample_paid_db_def sample_client_def sample_paid_order_def empty_db_def

lemma sample_paid_db_wf: "orders_wf sample_paid_db" "entitlements_wf sample_paid_db"
  by (simp_all add: sample_paid_defs orders_wf_def entitlements_wf_def order_ok_defs seconds_def)

theorem ensure_for_paid_order_once_witness:
  "\<exists>e d'. ensure_for_paid_order 7 8 sample_paid_order 3 sample_paid_db = Inr ((e, True), d') \<and>
     entitles sample_paid_order e"
  using ensure_for_paid_order_once [of sample_paid_order sample_paid_db 7 8 3] sample_paid_db_wf
  by (simp add: sample_paid_defs get_by_source_payment_order_id_def) blast

theorem status_for_client_correct_witness:
  "pc_is_premium (fst (status_for_client 5 1 (sample_paid_db\<lparr>entitlements :=
     [\<lparr>pe_id = 7, pe_public_id = 8, pe_anonymous_client_id = 1, pe_source_payment_order_id = 5,
       pe_product_code = ''premium_24h'', pe_starts_at = 2, pe_expires_at = 2 + seconds 86400,
       pe_created_at = 3\<rparr>]\<rparr>)))"
  using status_for_client_correct [of "sample_paid_db\<lparr>entitlements :=
     [\<lparr>pe_id = 7, pe_public_id = 8, pe_anonymous_client_id = 1, pe_source_payment_order_id = 5,
       pe_product_code = ''premium_24h'', pe_starts_at = 2, pe_expires_at = 2 + seconds 86400,
       pe_created_at = 3\<rparr>]\<rparr>" 1 5]
  by (auto simp: Let_def seconds_def)

theorem reconcile_complete_and_idempotent_witness:
  "\<exists>res d'. reconcile_paid_orders_without_entitlement (\<lambda>i. (i + 10, i + 20)) 9 sample_paid_db =
       Inr (res, d') \<and> prr_created res = prr_scanned res"
proof -
  have "fresh_uuids (\<lambda>i. (i + 10, i + 20)) (po_id ` set (orders sample_paid_db)) sample_paid_db"
    by (simp add: fresh_uuids_def sample_paid_defs)
  from reconcile_complete_and_idempotent [OF sample_paid_db_wf this, of 9] show ?thesis by blast
qed

end
