(* ===== verification/Quota.thy ===== *)
theory Quota
  imports Premium
begin

text \<open>
  Free download quota: the policy projection (\<open>quota/policy.py\<close>), the repository of clients
  and quota entries (\<open>quota/repository.py\<close>) and admission and status (\<open>quota/service.py\<close>).
  \<open>now\<close> is the value of \<open>database_now\<close>; a premium lookup reads the clock again (\<open>pnow\<close>).
\<close>

section \<open>Settings and policy\<close>

text \<open>The quota part of \<open>Settings\<close> with the bounds its fields and validator enforce.\<close>

record Settings =
  st_free_download_limit :: int
  st_free_download_window_seconds :: int
  st_free_delivery_rate_limit_enabled :: bool
  st_free_delivery_rate_bytes_per_second :: int
  st_anonymous_client_ttl_seconds :: int
  st_free_download_quota_retention_seconds :: int
  st_ready_compatibility_mode :: bool

definition settings_bounds :: "Settings \<Rightarrow> bool" where
  "settings_bounds st \<longleftrightarrow>
     1 \<le> st_free_download_limit st \<and> st_free_download_limit st \<le> 100 \<and>
     60 \<le> st_free_download_window_seconds st \<and> st_free_download_window_seconds st \<le> 604800 \<and>
     262144 \<le> st_free_delivery_rate_bytes_per_second st \<and>
     st_free_delivery_rate_bytes_per_second st \<le> 67108864 \<and>
     86400 \<le> st_anonymous_client_ttl_seconds st \<and> st_anonymous_client_ttl_seconds st \<le> 63072000 \<and>
     86400 \<le> st_free_download_quota_retention_seconds st \<and>
     st_free_download_quota_retention_seconds st \<le> 2592000"

definition settings_cross_ok :: "Settings \<Rightarrow> bool" where
  "settings_cross_ok st \<longleftrightarrow>
     \<not> st_anonymous_client_ttl_seconds st \<le> st_free_download_window_seconds st \<and>
     \<not> st_free_download_quota_retention_seconds st \<le> st_free_download_window_seconds st"

definition settings_ok :: "Settings \<Rightarrow> bool" where
  "settings_ok st \<longleftrightarrow> settings_bounds st \<and> settings_cross_ok st"

lemmas settings_ok_defs = settings_ok_def settings_bounds_def settings_cross_ok_def

record EffectiveDownloadPolicy =
  edp_tier :: string
  edp_download_limit :: "int option"
  edp_quota_window_seconds :: "int option"
  edp_delivery_rate_bytes_per_second :: "int option"
  edp_premium_expires_at :: "time option"
  edp_allow_combined :: bool
  edp_allow_audio_only :: bool
  edp_allow_video_only :: bool

definition free_policy :: "Settings \<Rightarrow> EffectiveDownloadPolicy" where
  "free_policy st =
     \<lparr>edp_tier = ''free'', edp_download_limit = Some (st_free_download_limit st),
      edp_quota_window_seconds = Some (st_free_download_window_seconds st),
      edp_delivery_rate_bytes_per_second =
        (if st_free_delivery_rate_limit_enabled st
         then Some (st_free_delivery_rate_bytes_per_second st) else None),
      edp_premium_expires_at = None, edp_allow_combined = True,
      edp_allow_audio_only = False, edp_allow_video_only = False\<rparr>"

definition effective_download_policy ::
  "Settings \<Rightarrow> PremiumCapability option \<Rightarrow> EffectiveDownloadPolicy res" where
  "effective_download_policy st capability =
     (case capability of
        Some cap \<Rightarrow>
          if pc_is_premium cap then
            (case pc_premium_expires_at cap of
               None \<Rightarrow> Inl (ValueError ''active Premium capability requires an expiry'')
             | Some t \<Rightarrow> Inr \<lparr>edp_tier = ''premium'', edp_download_limit = None,
                   edp_quota_window_seconds = None, edp_delivery_rate_bytes_per_second = None,
                   edp_premium_expires_at = Some t, edp_allow_combined = True,
                   edp_allow_audio_only = True, edp_allow_video_only = True\<rparr>)
          else Inr (free_policy st)
      | None \<Rightarrow> Inr (free_policy st))"

section \<open>Repository\<close>

definition get_active_client_by_hash :: "bytes \<Rightarrow> time \<Rightarrow> db \<Rightarrow> anonymous_client option" where
  "get_active_client_by_hash token_hash now d =
     find (\<lambda>c. ac_token_hash c = token_hash \<and> ac_expires_at c > now) (clients d)"

definition create_client :: "uuid \<Rightarrow> bytes \<Rightarrow> time \<Rightarrow> int \<Rightarrow> db \<Rightarrow> (anonymous_client \<times> db) res" where
  "create_client fresh token_hash now ttl_seconds d =
     (if length token_hash \<noteq> 32
      then Inl (QuotaInvariantError ''anonymous token hash length is invalid'')
      else
        let row = \<lparr>ac_id = fresh, ac_token_hash = token_hash, ac_created_at = now,
                   ac_expires_at = now + seconds ttl_seconds\<rparr>
        in if client_ok row \<and> fresh \<notin> ac_id ` set (clients d) \<and>
              token_hash \<notin> ac_token_hash ` set (clients d)
           then Inr (row, d\<lparr>clients := clients d @ [row]\<rparr>)
           else Inl (IntegrityError ''anonymous_clients''))"

definition lock_client :: "uuid \<Rightarrow> time option \<Rightarrow> db \<Rightarrow> anonymous_client option" where
  "lock_client client_id require_active_at d =
     find (\<lambda>c. ac_id c = client_id \<and>
             (case require_active_at of None \<Rightarrow> True | Some t \<Rightarrow> ac_expires_at c > t)) (clients d)"

text \<open>The two counts of \<open>status_locked\<close>.\<close>

definition in_window :: "uuid \<Rightarrow> time \<Rightarrow> time \<Rightarrow> quota_entry \<Rightarrow> bool" where
  "in_window client cutoff now e \<longleftrightarrow>
     qe_anonymous_client_id e = client \<and> qe_state e = Q_CONSUMED \<and>
     opt_gt (qe_consumed_at e) cutoff \<and> opt_le (qe_consumed_at e) now"

definition live_reservation :: "uuid \<Rightarrow> time \<Rightarrow> quota_entry \<Rightarrow> bool" where
  "live_reservation client now e \<longleftrightarrow>
     qe_anonymous_client_id e = client \<and> qe_state e = Q_RESERVED \<and>
     qe_reservation_expires_at e > now"

definition used_count :: "uuid \<Rightarrow> time \<Rightarrow> time \<Rightarrow> db \<Rightarrow> int" where
  "used_count client cutoff now d = int (length (filter (in_window client cutoff now) (quota_entries d)))"

definition reserved_count :: "uuid \<Rightarrow> time \<Rightarrow> db \<Rightarrow> int" where
  "reserved_count client now d = int (length (filter (live_reservation client now) (quota_entries d)))"

text \<open>\<open>SELECT consumed_at ... ORDER BY consumed_at OFFSET n LIMIT 1\<close>\<close>

definition releasing_consumption :: "uuid \<Rightarrow> time \<Rightarrow> time \<Rightarrow> int \<Rightarrow> db \<Rightarrow> time option" where
  "releasing_consumption client cutoff now offset d =
     (case drop (nat offset) (order_by (\<lambda>t. t)
             (map (\<lambda>e. the (qe_consumed_at e)) (filter (in_window client cutoff now) (quota_entries d)))) of
        [] \<Rightarrow> None
      | t # _ \<Rightarrow> Some t)"

definition status_locked ::
  "uuid \<Rightarrow> time \<Rightarrow> EffectiveDownloadPolicy \<Rightarrow> db \<Rightarrow> QuotaStatus res" where
  "status_locked client now policy d =
     (case (edp_download_limit policy, edp_quota_window_seconds policy) of
        (Some limit, Some window) \<Rightarrow>
          let cutoff = now - seconds window;
              used = used_count client cutoff now d;
              reserved = reserved_count client now d;
              reset_at = (if used \<ge> limit
                          then map_option (\<lambda>t. t + seconds window)
                                 (releasing_consumption client cutoff now (used - limit) d)
                          else None)
          in Inr \<lparr>qs_tier = edp_tier policy, qs_download_limit = Some limit,
                  qs_downloads_used = Some used, qs_downloads_reserved = Some reserved,
                  qs_downloads_remaining = Some (max 0 (limit - used - reserved)),
                  qs_reset_at = reset_at, qs_window_seconds = Some window,
                  qs_premium_expires_at = None\<rparr>
      | _ \<Rightarrow> Inl (QuotaInvariantError ''unlimited policy cannot enter Free accounting''))"

text \<open>
  Writes to \<open>free_download_quota_entries\<close>: CHECKs on every write; the primary key, the
  unique download job and the two foreign keys on an insert.
\<close>

abbreviation qe_rejected :: error where
  "qe_rejected \<equiv> IntegrityError ''free_download_quota_entries''"

definition qe_insert :: "quota_entry \<Rightarrow> db \<Rightarrow> db res" where
  "qe_insert row d =
     (if entry_ok row \<and> qe_id row \<notin> qe_id ` set (quota_entries d) \<and>
         qe_download_job_id row \<notin> qe_download_job_id ` set (quota_entries d) \<and>
         qe_anonymous_client_id row \<in> ac_id ` set (clients d) \<and>
         qe_download_job_id row \<in> dj_id ` set (download_jobs d)
      then Inr (d\<lparr>quota_entries := quota_entries d @ [row]\<rparr>)
      else Inl qe_rejected)"

definition qe_flush :: "quota_entry \<Rightarrow> db \<Rightarrow> db res" where
  "qe_flush e d =
     andThen (write_row qe_id entry_ok qe_rejected e (quota_entries d))
       (\<lambda>tab. Inr (d\<lparr>quota_entries := tab\<rparr>))"

definition reserve_locked ::
  "uuid \<Rightarrow> uuid \<Rightarrow> uuid \<Rightarrow> time \<Rightarrow> time \<Rightarrow> db \<Rightarrow> (quota_entry \<times> db) res" where
  "reserve_locked fresh client download_job_id reserved_at reservation_expires_at d =
     (if reservation_expires_at \<le> reserved_at
      then Inl (QuotaInvariantError ''reservation expiry must be in the future'')
      else
        let row = \<lparr>qe_id = fresh, qe_anonymous_client_id = client,
              qe_download_job_id = download_job_id, qe_state = Q_RESERVED,
              qe_reserved_at = reserved_at, qe_reservation_expires_at = reservation_expires_at,
              qe_consumed_at = None, qe_released_at = None\<rparr>
        in andThen (qe_insert row d) (\<lambda>d'. Inr (row, d')))"

definition lock_entry_for_download :: "uuid \<Rightarrow> db \<Rightarrow> quota_entry option" where
  "lock_entry_for_download job_id d = row_by qe_download_job_id job_id (quota_entries d)"

definition identity_id_for_download :: "uuid \<Rightarrow> db \<Rightarrow> uuid option" where
  "identity_id_for_download job_id d =
     map_option qe_anonymous_client_id (row_by qe_download_job_id job_id (quota_entries d))"

definition consume_locked :: "quota_entry \<Rightarrow> time \<Rightarrow> quota_entry res" where
  "consume_locked e now =
     (if qe_state e \<noteq> Q_RESERVED
      then Inl (QuotaInvariantError ''ready transition lacks a reserved quota entry'')
      else Inr (e\<lparr>qe_state := Q_CONSUMED, qe_consumed_at := Some now, qe_released_at := None\<rparr>))"

definition release_locked :: "quota_entry \<Rightarrow> time \<Rightarrow> bool \<Rightarrow> quota_entry res" where
  "release_locked e now expired =
     (case qe_state e of
        Q_RESERVED \<Rightarrow> Inr (e\<lparr>qe_state := (if expired then Q_EXPIRED else Q_RELEASED),
                             qe_consumed_at := None, qe_released_at := Some now\<rparr>)
      | Q_RELEASED \<Rightarrow> Inr e
      | Q_EXPIRED \<Rightarrow> Inr e
      | Q_CONSUMED \<Rightarrow> Inl (QuotaInvariantError ''cannot release a consumed quota entry''))"

definition terminal_before :: "time \<Rightarrow> quota_entry \<Rightarrow> bool" where
  "terminal_before cutoff e \<longleftrightarrow>
     (qe_state e = Q_CONSUMED \<and> opt_le (qe_consumed_at e) cutoff) \<or>
     (qe_state e \<in> {Q_RELEASED, Q_EXPIRED} \<and> opt_le (qe_released_at e) cutoff)"

text \<open>Deleting an entry cascades to its delivery ranges.\<close>

definition qe_delete :: "uuid \<Rightarrow> db \<Rightarrow> db" where
  "qe_delete i d = d\<lparr>quota_entries := del_rows (\<lambda>e. qe_id e = i) (quota_entries d),
                    ranges := del_rows (\<lambda>r. dr_quota_entry_id r = i) (ranges d)\<rparr>"

definition prune_entry ::
  "(uuid \<Rightarrow> bool) \<Rightarrow> time \<Rightarrow> uuid \<times> uuid \<Rightarrow> nat \<times> db \<Rightarrow> (nat \<times> db) res" where
  "prune_entry locked cutoff candidate acc =
     (case (candidate, acc) of ((entry_id, client_id), (deleted, d)) \<Rightarrow>
        (case lock_client client_id None d of
           None \<Rightarrow> Inl (QuotaInvariantError ''quota entry references a missing identity'')
         | Some _ \<Rightarrow>
             if locked entry_id then Inr (deleted, d)
             else (case row_by qe_id entry_id (quota_entries d) of
                     None \<Rightarrow> Inr (deleted, d)
                   | Some e \<Rightarrow> if terminal_before cutoff e
                               then Inr (deleted + 1, qe_delete entry_id d)
                               else Inr (deleted, d))))"

definition delete_terminal_entries_before ::
  "(uuid \<Rightarrow> bool) \<Rightarrow> time \<Rightarrow> int \<Rightarrow> db \<Rightarrow> (nat \<times> db) res" where
  "delete_terminal_entries_before locked cutoff limit d =
     (let candidates = map (\<lambda>e. (qe_id e, qe_anonymous_client_id e))
            (sql_limit limit (order_by qe_id (filter (terminal_before cutoff) (quota_entries d))))
      in fold_res (prune_entry locked cutoff) candidates (0, d))"

text \<open>
  \<open>DELETE FROM anonymous_clients\<close>: the foreign keys of quota entries, payment orders and
  entitlements are \<open>ON DELETE RESTRICT\<close>.
\<close>

definition client_referenced :: "uuid \<Rightarrow> db \<Rightarrow> bool" where
  "client_referenced i d \<longleftrightarrow>
     i \<in> qe_anonymous_client_id ` set (quota_entries d) \<or>
     i \<in> po_anonymous_client_id ` set (orders d) \<or>
     i \<in> pe_anonymous_client_id ` set (entitlements d)"

definition expired_clients_picked :: "(uuid \<Rightarrow> bool) \<Rightarrow> time \<Rightarrow> int \<Rightarrow> db \<Rightarrow> uuid list" where
  "expired_clients_picked locked now limit d =
     map ac_id (sql_limit limit (order_by ac_expires_at
       (filter (\<lambda>c. ac_expires_at c \<le> now \<and>
                    ac_id c \<notin> qe_anonymous_client_id ` set (quota_entries d) \<and>
                    \<not> locked (ac_id c)) (clients d))))"

definition delete_expired_clients_without_entries ::
  "(uuid \<Rightarrow> bool) \<Rightarrow> time \<Rightarrow> int \<Rightarrow> db \<Rightarrow> (nat \<times> db) res" where
  "delete_expired_clients_without_entries locked now limit d =
     (let ids = expired_clients_picked locked now limit d
      in if ids = [] then Inr (0, d)
         else if \<exists>i \<in> set ids. client_referenced i d
         then Inl (IntegrityError ''anonymous_clients'')
         else Inr (length (filter (\<lambda>c. ac_id c \<in> set ids) (clients d)),
                   d\<lparr>clients := del_rows (\<lambda>c. ac_id c \<in> set ids) (clients d)\<rparr>))"

section \<open>Service\<close>

definition resolve_policy :: "Settings \<Rightarrow> time \<Rightarrow> uuid \<Rightarrow> db \<Rightarrow> EffectiveDownloadPolicy res" where
  "resolve_policy st pnow identity_id d =
     effective_download_policy st (Some (fst (status_for_client pnow identity_id d)))"

definition premium_status :: "EffectiveDownloadPolicy \<Rightarrow> QuotaStatus" where
  "premium_status policy =
     \<lparr>qs_tier = ''premium'', qs_download_limit = None, qs_downloads_used = None,
      qs_downloads_reserved = None, qs_downloads_remaining = None, qs_reset_at = None,
      qs_window_seconds = None, qs_premium_expires_at = edp_premium_expires_at policy\<rparr>"

definition quota_status :: "Settings \<Rightarrow> time \<Rightarrow> time \<Rightarrow> uuid \<Rightarrow> db \<Rightarrow> QuotaStatus res" where
  "quota_status st now pnow identity_id d =
     (case lock_client identity_id (Some now) d of
        None \<Rightarrow> Inl AnonymousIdentityRequiredError
      | Some _ \<Rightarrow>
          andThen (resolve_policy st pnow identity_id d) (\<lambda>policy.
            if edp_tier policy = ''premium'' then Inr (premium_status policy)
            else status_locked identity_id now policy d))"

record QuotaAdmission =
  qa_policy :: EffectiveDownloadPolicy
  qa_status :: QuotaStatus

definition admit_locked ::
  "Settings \<Rightarrow> uuid \<Rightarrow> time \<Rightarrow> time \<Rightarrow> uuid \<Rightarrow> uuid \<Rightarrow> time \<Rightarrow> db \<Rightarrow> (QuotaAdmission \<times> db) res" where
  "admit_locked st fresh now pnow identity_id download_job_id reservation_expires_at d =
     (case lock_client identity_id (Some now) d of
        None \<Rightarrow> Inl AnonymousIdentityRequiredError
      | Some _ \<Rightarrow>
          andThen (resolve_policy st pnow identity_id d) (\<lambda>policy.
            if edp_tier policy = ''premium''
            then Inr (\<lparr>qa_policy = policy, qa_status = premium_status policy\<rparr>, d)
            else
              andThen (status_locked identity_id now policy d) (\<lambda>before.
                case qs_downloads_remaining before of
                  None \<Rightarrow> Inl (FreeQuotaExceededError before)
                | Some remaining \<Rightarrow>
                    if remaining < 1 then Inl (FreeQuotaExceededError before)
                    else
                      andThen (reserve_locked fresh identity_id download_job_id now
                                 reservation_expires_at d) (\<lambda>(_, d').
                        let status = before\<lparr>
                              qs_downloads_reserved :=
                                Some ((case qs_downloads_reserved before of
                                         None \<Rightarrow> 0 | Some n \<Rightarrow> n) + 1),
                              qs_downloads_remaining := Some (max 0 (remaining - 1)),
                              qs_premium_expires_at := None\<rparr>
                        in Inr (\<lparr>qa_policy = policy, qa_status = status\<rparr>, d')))))"

section \<open>What a client is charged\<close>

text \<open>
  \<open>charged\<close> is what counts against the limit at a moment: downloads consumed in the rolling
  window and live reservations. It is the specification the operations are measured against.
\<close>

definition counts :: "uuid \<Rightarrow> time \<Rightarrow> time \<Rightarrow> quota_entry \<Rightarrow> bool" where
  "counts client window now e \<longleftrightarrow> in_window client (now - window) now e \<or> live_reservation client now e"

definition charged :: "uuid \<Rightarrow> time \<Rightarrow> time \<Rightarrow> db \<Rightarrow> int" where
  "charged client window now d = int (length (filter (counts client window now) (quota_entries d)))"

lemma charged_split:
  "charged client window now d = used_count client (now - window) now d + reserved_count client now d"
proof -
  have "length (filter (in_window client (now - window) now) (quota_entries d)) +
        length (filter (live_reservation client now) (quota_entries d)) =
        length (filter (counts client window now) (quota_entries d))"
    unfolding counts_def [abs_def]
    by (rule length_filter_disjoint) (simp add: in_window_def live_reservation_def)
  then show ?thesis by (simp add: charged_def used_count_def reserved_count_def)
qed

text \<open>The entries of a database at time \<open>now\<close>: constraints, keys, and no consumption in the future.\<close>

definition quota_wf :: "time \<Rightarrow> db \<Rightarrow> bool" where
  "quota_wf now d \<longleftrightarrow>
     (\<forall>e \<in> set (quota_entries d). entry_ok e \<and> \<not> opt_gt (qe_consumed_at e) now \<and>
        qe_anonymous_client_id e \<in> ac_id ` set (clients d)) \<and>
     distinct (map qe_id (quota_entries d)) \<and> distinct (map qe_download_job_id (quota_entries d))"

text \<open>Waiting never charges a client more.\<close>

lemma counts_antimono:
  assumes "now \<le> now'" and "\<not> opt_gt (qe_consumed_at e) now" and "counts client window now' e"
  shows "counts client window now e"
  using assms by (cases "qe_consumed_at e") (auto simp: counts_def in_window_def live_reservation_def)

lemma charged_antimono:
  assumes "quota_wf now d" and "now \<le> now'"
  shows "charged client window now' d \<le> charged client window now d"
proof -
  have "length (filter (counts client window now') (quota_entries d)) \<le>
        length (filter (counts client window now) (quota_entries d))"
    using assms by (intro length_filter_mono) (auto simp: quota_wf_def intro: counts_antimono)
  then show ?thesis by (simp add: charged_def)
qed

lemma quota_wf_mono: "quota_wf now d \<Longrightarrow> now \<le> now' \<Longrightarrow> quota_wf now' d"
  by (fastforce simp: quota_wf_def opt_gt_def split: option.splits)

section \<open>Admission\<close>

lemma free_policy_tier [simp]:
  "edp_tier (free_policy st) = ''free''"
  "edp_download_limit (free_policy st) = Some (st_free_download_limit st)"
  "edp_quota_window_seconds (free_policy st) = Some (st_free_download_window_seconds st)"
  by (simp_all add: free_policy_def)

lemma resolve_policy_cases:
  "resolve_policy st pnow client d =
     (case get_active_for_client client pnow d of
        None \<Rightarrow> Inr (free_policy st)
      | Some e \<Rightarrow> Inr \<lparr>edp_tier = ''premium'', edp_download_limit = None,
                   edp_quota_window_seconds = None, edp_delivery_rate_bytes_per_second = None,
                   edp_premium_expires_at = Some (pe_expires_at e), edp_allow_combined = True,
                   edp_allow_audio_only = True, edp_allow_video_only = True\<rparr>)"
  by (auto simp: resolve_policy_def effective_download_policy_def status_for_client_def Let_def
      capability_from_entitlement_def split: option.splits)

abbreviation window_of :: "Settings \<Rightarrow> time" where
  "window_of st \<equiv> seconds (st_free_download_window_seconds st)"

lemma status_locked_free:
  "\<exists>s. status_locked client now (free_policy st) d = Inr s \<and>
       qs_downloads_remaining s =
         Some (max 0 (st_free_download_limit st - charged client (window_of st) now d)) \<and>
       qs_downloads_used s = Some (used_count client (now - window_of st) now d) \<and>
       qs_downloads_reserved s = Some (reserved_count client now d)"
  by (simp add: status_locked_def Let_def charged_split)

lemma reserve_locked_charged:
  assumes "reserve_locked fresh client jid now t d = Inr (e, d')"
  shows "charged client window now d' = charged client window now d + 1 \<and>
         (\<forall>c \<noteq> client. charged c window now d' = charged c window now d)"
  using assms
  by (auto simp: reserve_locked_def qe_insert_def Let_def andThen_eq_Inr charged_def counts_def
      in_window_def live_reservation_def split: if_splits)

lemma admit_locked_exact_core:
  assumes "lock_client client (Some now) d \<noteq> None" and "get_active_for_client client pnow d = None"
    and "now < t" and "jid \<in> dj_id ` set (download_jobs d)"
    and "jid \<notin> qe_download_job_id ` set (quota_entries d)" and "fresh \<notin> qe_id ` set (quota_entries d)"
  shows "let limit = st_free_download_limit st; w = window_of st;
             outcome = admit_locked st fresh now pnow client jid t d
         in if charged client w now d < limit
            then \<exists>a d'. outcome = Inr (a, d') \<and> charged client w now d' = charged client w now d + 1 \<and>
                   charged client w now d' \<le> limit \<and>
                   (\<forall>c \<noteq> client. charged c w now d' = charged c w now d) \<and>
                   qs_downloads_remaining (qa_status a) = Some (limit - charged client w now d') \<and>
                   lock_entry_for_download jid d' \<noteq> None
            else \<exists>s. outcome = Inl (FreeQuotaExceededError s) \<and> qs_downloads_remaining s = Some 0"
proof -
  let ?w = "window_of st" and ?limit = "st_free_download_limit st"
  obtain s where s: "status_locked client now (free_policy st) d = Inr s"
    and rem: "qs_downloads_remaining s = Some (max 0 (?limit - charged client ?w now d))"
    using status_locked_free [of client now st d] by blast
  have cl: "client \<in> ac_id ` set (clients d)"
    using assms(1) by (auto simp: lock_client_def find_Some_iff)
  obtain e d' where e: "reserve_locked fresh client jid now t d = Inr (e, d')"
    and ent: "lock_entry_for_download jid d' \<noteq> None"
    using assms(3-6) cl
    by (auto simp: reserve_locked_def qe_insert_def Let_def entry_ok_defs lock_entry_for_download_def
        row_by_append row_by_Cons split: option.splits)
  note ch = reserve_locked_charged [OF e, of ?w]
  have run: "admit_locked st fresh now pnow client jid t d =
      (if ?limit - charged client ?w now d < 1 then Inl (FreeQuotaExceededError s)
       else Inr (\<lparr>qa_policy = free_policy st, qa_status = s\<lparr>
              qs_downloads_reserved := Some ((case qs_downloads_reserved s of None \<Rightarrow> 0 | Some n \<Rightarrow> n) + 1),
              qs_downloads_remaining := Some (max 0 (max 0 (?limit - charged client ?w now d) - 1)),
              qs_premium_expires_at := None\<rparr>\<rparr>, d'))"
    using assms(1,2) s rem e
    by (auto simp: admit_locked_def resolve_policy_cases Let_def)
  show ?thesis
    unfolding Let_def run using ch ent rem by (auto split: if_splits)
qed

text \<open>C8. Admission of a Free client is exact: while fewer than the limit are charged it stores one
  reservation, which charges that client one more and nobody else, and never more than the
  limit; at the limit it raises the quota error with no remaining downloads and stores nothing.\<close>

theorem admit_locked_exact:
  assumes "lock_client client (Some now) d \<noteq> None" and "get_active_for_client client pnow d = None"
    and "now < t" and "jid \<in> dj_id ` set (download_jobs d)"
    and "jid \<notin> qe_download_job_id ` set (quota_entries d)" and "fresh \<notin> qe_id ` set (quota_entries d)"
  shows "let limit = st_free_download_limit st; w = window_of st;
             outcome = admit_locked st fresh now pnow client jid t d
         in if charged client w now d < limit
            then \<exists>a d'. outcome = Inr (a, d') \<and> charged client w now d' = charged client w now d + 1 \<and>
                   charged client w now d' \<le> limit \<and>
                   (\<forall>c \<noteq> client. charged c w now d' = charged c w now d) \<and>
                   qs_downloads_remaining (qa_status a) = Some (limit - charged client w now d') \<and>
                   lock_entry_for_download jid d' \<noteq> None
            else \<exists>s. outcome = Inl (FreeQuotaExceededError s) \<and> qs_downloads_remaining s = Some 0"
  by (rule admit_locked_exact_core [OF assms])

section \<open>The reset time\<close>

lemma sorted_count_gt:
  fixes xs :: "int list"
  assumes "sorted xs" and "k < length xs"
  shows "a < xs ! k \<Longrightarrow> length xs - k \<le> length (filter (\<lambda>c. a < c) xs)"
    and "xs ! k \<le> a \<Longrightarrow> length (filter (\<lambda>c. a < c) xs) \<le> length xs - Suc k"
proof -
  assume less: "a < xs ! k"
  have "\<forall>c \<in> set (drop k xs). a < c"
  proof
    fix c assume "c \<in> set (drop k xs)"
    then obtain i where "c = xs ! (k + i)" "k + i < length xs" by (auto simp: in_set_conv_nth)
    then show "a < c" using sorted_nth_mono [OF assms(1), of k "k + i"] less by simp
  qed
  then have "length (filter (\<lambda>c. a < c) (drop k xs)) = length xs - k"
    by (metis filter_True length_drop)
  moreover have "length (filter (\<lambda>c. a < c) xs) =
      length (filter (\<lambda>c. a < c) (take k xs)) + length (filter (\<lambda>c. a < c) (drop k xs))"
    by (metis append_take_drop_id filter_append length_append)
  ultimately show "length xs - k \<le> length (filter (\<lambda>c. a < c) xs)" by simp
next
  assume le: "xs ! k \<le> a"
  have "xs ! i \<le> a" if "i < Suc k" for i
    using sorted_nth_mono [OF assms(1), of i k] that assms(2) le by auto
  then have "\<forall>c \<in> set (take (Suc k) xs). \<not> a < c"
    using assms(2) by (auto simp: in_set_conv_nth) (meson linorder_not_le)
  then have "filter (\<lambda>c. a < c) (take (Suc k) xs) = []" by (simp add: filter_empty_conv)
  then have "filter (\<lambda>c. a < c) xs = filter (\<lambda>c. a < c) (drop (Suc k) xs)"
    by (metis append_Nil append_take_drop_id filter_append)
  then show "length (filter (\<lambda>c. a < c) xs) \<le> length xs - Suc k"
    by (metis length_drop length_filter_le)
qed

definition consumed_times :: "uuid \<Rightarrow> time \<Rightarrow> time \<Rightarrow> db \<Rightarrow> time list" where
  "consumed_times client cutoff now d = order_by (\<lambda>t. t)
     (map (\<lambda>e. the (qe_consumed_at e)) (filter (in_window client cutoff now) (quota_entries d)))"

lemma length_consumed_times: "int (length (consumed_times client cutoff now d)) = used_count client cutoff now d"
  by (simp add: consumed_times_def used_count_def)

lemma length_filter_order_by: "length (filter P (order_by f xs)) = length (filter P xs)"
  by (simp add: order_by_def filter_sort)

lemma used_count_later:
  assumes "quota_wf now d" and "now \<le> t" and "0 \<le> w"
  shows "used_count client (t - w) t d =
         int (length (filter (\<lambda>c. t - w < c) (consumed_times client (now - w) now d)))"
proof -
  have "in_window client (t - w) t e \<longleftrightarrow>
      in_window client (now - w) now e \<and> t - w < the (qe_consumed_at e)"
    if "e \<in> set (quota_entries d)" for e
    using assms that by (cases "qe_consumed_at e") (auto simp: quota_wf_def in_window_def)
  then have "filter (in_window client (t - w) t) (quota_entries d) =
      filter (\<lambda>e. in_window client (now - w) now e \<and> t - w < the (qe_consumed_at e)) (quota_entries d)"
    by (rule filter_cong [OF refl])
  then show ?thesis
    by (simp add: used_count_def consumed_times_def length_filter_order_by filter_map o_def
        filter_filter conj_commute)
qed

text \<open>The published reset time is exact: it is set precisely when the consumed downloads alone
  reach the limit, it lies in the future, at that moment fewer than the limit count any more,
  and at every moment before it they still exhaust the limit.\<close>

theorem reset_at_exact:
  assumes "quota_wf now d" and "settings_ok st"
    and "status_locked client now (free_policy st) d = Inr s"
  shows "let limit = st_free_download_limit st; w = window_of st in
         case qs_reset_at s of
           None \<Rightarrow> used_count client (now - w) now d < limit
         | Some r \<Rightarrow> now < r \<and> used_count client (r - w) r d < limit \<and>
             (\<forall>t. now \<le> t \<and> t < r \<longrightarrow> limit \<le> used_count client (t - w) t d)"
proof -
  let ?limit = "st_free_download_limit st" and ?w = "window_of st"
  let ?xs = "consumed_times client (now - ?w) now d"
  let ?used = "used_count client (now - ?w) now d"
  have lim: "1 \<le> ?limit" and w: "0 \<le> ?w" using assms(2) by (simp_all add: settings_ok_defs seconds_def)
  have reset: "qs_reset_at s = (if ?used \<ge> ?limit
      then map_option (\<lambda>t. t + ?w) (releasing_consumption client (now - ?w) now (?used - ?limit) d) else None)"
    using assms(3) by (auto simp: status_locked_def Let_def)
  show ?thesis
  proof (cases "?used \<ge> ?limit")
    case False
    with reset show ?thesis by (simp add: Let_def)
  next
    case True
    let ?k = "nat (?used - ?limit)"
    have len: "int (length ?xs) = ?used" by (rule length_consumed_times)
    with True lim have k: "?k < length ?xs" by linarith
    have "releasing_consumption client (now - ?w) now (?used - ?limit) d = Some (?xs ! ?k)"
      using k by (simp add: releasing_consumption_def consumed_times_def [symmetric]
          Cons_nth_drop_Suc [symmetric])
    with reset True have r: "qs_reset_at s = Some (?xs ! ?k + ?w)" by simp
    have "sorted ?xs" using sorted_order_by [of "\<lambda>t. t :: int"] by (simp add: consumed_times_def)
    note cnt = sorted_count_gt [OF this k]
    have "?xs ! ?k \<in> set ?xs" using k by simp
    then have "now - ?w < ?xs ! ?k"
      by (auto simp: consumed_times_def in_window_def opt_gt_def split: option.splits)
    then have fut: "now < ?xs ! ?k + ?w" by simp
    have "used_count client (?xs ! ?k + ?w - ?w) (?xs ! ?k + ?w) d < ?limit"
      using used_count_later [OF assms(1) _ w, of "?xs ! ?k + ?w" client] fut cnt(2) [of "?xs ! ?k"] len True lim k
      by simp
    moreover have "?limit \<le> used_count client (t - ?w) t d" if "now \<le> t" "t < ?xs ! ?k + ?w" for t
      using used_count_later [OF assms(1) that(1) w, of client] cnt(1) [of "t - ?w"] that len True by simp
    ultimately show ?thesis using fut by (simp add: Let_def r)
  qed
qed

section \<open>Pruning\<close>

definition without_entries :: "uuid set \<Rightarrow> db \<Rightarrow> db" where
  "without_entries S d = d\<lparr>quota_entries := filter (\<lambda>e. qe_id e \<notin> S) (quota_entries d),
                         ranges := filter (\<lambda>r. dr_quota_entry_id r \<notin> S) (ranges d)\<rparr>"

lemma qe_delete_without: "qe_delete i (without_entries S d) = without_entries (insert i S) d"
  by (simp add: qe_delete_def without_entries_def del_rows_def conj_commute)

definition pruned :: "time \<Rightarrow> db \<Rightarrow> db \<Rightarrow> bool" where
  "pruned cutoff d d' \<longleftrightarrow> (\<exists>S. d' = without_entries S d \<and>
     (\<forall>e \<in> set (quota_entries d). qe_id e \<in> S \<longrightarrow> terminal_before cutoff e))"

lemma pruned_refl: "pruned cutoff d d"
  unfolding pruned_def by (rule exI [of _ "{}"]) (simp add: without_entries_def)

lemma prune_entry_pruned:
  assumes "prune_entry locked cutoff (i, c) (m, x) = Inr (m', x')" and "pruned cutoff d x"
    and "distinct (map qe_id (quota_entries d))"
  shows "pruned cutoff d x'"
proof -
  obtain S where S: "x = without_entries S d"
    "\<forall>e \<in> set (quota_entries d). qe_id e \<in> S \<longrightarrow> terminal_before cutoff e"
    using assms(2) unfolding pruned_def by blast
  have "x' = x \<or> (x' = qe_delete i x \<and>
        (\<exists>e. row_by qe_id i (quota_entries x) = Some e \<and> terminal_before cutoff e))"
    using assms(1) by (auto simp: prune_entry_def split: option.splits if_splits)
  then show ?thesis
  proof
    assume "x' = x" with assms(2) show ?thesis by simp
  next
    assume del: "x' = qe_delete i x \<and>
      (\<exists>e. row_by qe_id i (quota_entries x) = Some e \<and> terminal_before cutoff e)"
    then obtain e where "row_by qe_id i (quota_entries x) = Some e" and t: "terminal_before cutoff e"
      by blast
    then have e: "e \<in> set (quota_entries d)" "qe_id e = i"
      using row_by_SomeD [of qe_id i "quota_entries x" e] unfolding S(1) without_entries_def by auto
    have "terminal_before cutoff e'" if "e' \<in> set (quota_entries d)" "qe_id e' = i" for e'
      using that e t assms(3) by (metis distinct_map inj_onD)
    with S del show ?thesis
      unfolding pruned_def by (intro exI [of _ "insert i S"]) (auto simp: qe_delete_without)
  qed
qed

lemma prune_removes_terminal:
  assumes "delete_terminal_entries_before locked cutoff limit d = Inr (n, d')"
    and "distinct (map qe_id (quota_entries d))"
  shows "pruned cutoff d d'"
proof -
  have "(\<lambda>(_, x). pruned cutoff d x) (n, d')"
  proof (rule fold_res_invariant [where P = "\<lambda>(_, x). pruned cutoff d x",
        OF assms(1) [unfolded delete_terminal_entries_before_def Let_def]])
    fix x s t assume "case s of (_, x) \<Rightarrow> pruned cutoff d x" and "prune_entry locked cutoff x s = Inr t"
    then show "case t of (_, x) \<Rightarrow> pruned cutoff d x"
      by (cases x; cases s; cases t) (auto dest: prune_entry_pruned [OF _ _ assms(2)])
  qed (simp add: pruned_refl)
  then show ?thesis by simp
qed

lemma counted_not_terminal:
  assumes "cutoff \<le> now - window" and "now \<le> now'"
  shows "in_window client (now' - window) now' e \<Longrightarrow> \<not> terminal_before cutoff e"
    and "live_reservation client now' e \<Longrightarrow> \<not> terminal_before cutoff e"
  using assms by (auto simp: in_window_def live_reservation_def terminal_before_def opt_gt_def opt_le_def
      split: option.splits)

lemma without_terminal_filter:
  assumes "\<forall>e \<in> set (quota_entries d). qe_id e \<in> S \<longrightarrow> terminal_before cutoff e"
    and "\<And>e. P e \<Longrightarrow> \<not> terminal_before cutoff e"
  shows "filter P (quota_entries (without_entries S d)) = filter P (quota_entries d)"
  using assms by (auto simp: without_entries_def intro!: filter_cong)

text \<open>Pruning is invisible to the quota: with a retention longer than the window, deleting old
  terminal entries changes neither the status any client is shown, now or at any later time,
  nor therefore any admission decision.\<close>

theorem prune_is_invisible:
  assumes "settings_ok st" and "distinct (map qe_id (quota_entries d))"
    and "delete_terminal_entries_before locked
           (now - seconds (st_free_download_quota_retention_seconds st)) limit d = Inr (n, d')"
    and "now \<le> now'"
  shows "status_locked client now' (free_policy st) d' = status_locked client now' (free_policy st) d"
proof -
  let ?w = "window_of st" and ?cutoff = "now - seconds (st_free_download_quota_retention_seconds st)"
  obtain S where d': "d' = without_entries S d"
    and S: "\<forall>e \<in> set (quota_entries d). qe_id e \<in> S \<longrightarrow> terminal_before ?cutoff e"
    using prune_removes_terminal [OF assms(3,2)] unfolding pruned_def by blast
  have "?cutoff \<le> now - ?w" using assms(1) by (simp add: settings_ok_defs seconds_def)
  note keep = counted_not_terminal [OF this assms(4)]
  have "filter (in_window client (now' - ?w) now') (quota_entries d') =
        filter (in_window client (now' - ?w) now') (quota_entries d)"
    unfolding d' by (rule without_terminal_filter [OF S keep(1)])
  moreover have "filter (live_reservation client now') (quota_entries d') =
        filter (live_reservation client now') (quota_entries d)"
    unfolding d' by (rule without_terminal_filter [OF S keep(2)])
  ultimately show ?thesis
    by (simp add: status_locked_def Let_def used_count_def reserved_count_def releasing_consumption_def)
qed

section \<open>The limit over runs\<close>

text \<open>
  What may happen to the quota of all clients: time passes, a download is admitted, a live
  reservation is consumed (at a moment not later than now), an entry is released or expired,
  old entries are pruned.
\<close>

inductive quota_step :: "Settings \<Rightarrow> time \<times> db \<Rightarrow> time \<times> db \<Rightarrow> bool" for st where
  tick: "now \<le> now' \<Longrightarrow> quota_step st (now, d) (now', d)"
| admit: "admit_locked st fresh now pnow client jid t d = Inr (a, d') \<Longrightarrow>
     quota_step st (now, d) (now, d')"
| consume: "row_by qe_id i (quota_entries d) = Some e \<Longrightarrow> now < qe_reservation_expires_at e \<Longrightarrow>
     tc \<le> now \<Longrightarrow> consume_locked e tc = Inr e' \<Longrightarrow> qe_flush e' d = Inr d' \<Longrightarrow>
     quota_step st (now, d) (now, d')"
| release: "row_by qe_id i (quota_entries d) = Some e \<Longrightarrow> release_locked e now x = Inr e' \<Longrightarrow>
     qe_flush e' d = Inr d' \<Longrightarrow> quota_step st (now, d) (now, d')"
| prune: "delete_terminal_entries_before locked cutoff limit d = Inr (n, d') \<Longrightarrow>
     quota_step st (now, d) (now, d')"

definition quota_inv :: "Settings \<Rightarrow> time \<times> db \<Rightarrow> bool" where
  "quota_inv st s \<longleftrightarrow> (case s of (now, d) \<Rightarrow>
     quota_wf now d \<and> (\<forall>client. charged client (window_of st) now d \<le> st_free_download_limit st))"

lemma admit_locked_InrD:
  assumes "admit_locked st fresh now pnow client jid t d = Inr (a, d')"
  shows "d' = d \<or> (charged client (window_of st) now d < st_free_download_limit st \<and>
     (\<exists>e. reserve_locked fresh client jid now t d = Inr (e, d')))"
proof (cases "get_active_for_client client pnow d")
  case None
  obtain s where s: "status_locked client now (free_policy st) d = Inr s"
    and rem: "qs_downloads_remaining s =
      Some (max 0 (st_free_download_limit st - charged client (window_of st) now d))"
    using status_locked_free [of client now st d] by blast
  show ?thesis
    using assms None s rem
    by (auto simp: admit_locked_def resolve_policy_cases andThen_eq_Inr Let_def split: option.splits if_splits)
next
  case (Some e)
  with assms show ?thesis
    by (auto simp: admit_locked_def resolve_policy_cases split: option.splits)
qed

lemma reserve_locked_wf:
  "reserve_locked fresh client jid now t d = Inr (e, d') \<Longrightarrow> quota_wf n d \<Longrightarrow> quota_wf n d'"
  by (auto simp: reserve_locked_def qe_insert_def Let_def andThen_eq_Inr quota_wf_def split: if_splits)

lemma qe_flush_inv:
  assumes "qe_flush e' d = Inr d'" and "row_by qe_id (qe_id e') (quota_entries d) = Some e"
    and "quota_wf now d" and "\<not> opt_gt (qe_consumed_at e') now"
    and "qe_download_job_id e' = qe_download_job_id e"
    and "qe_anonymous_client_id e' = qe_anonymous_client_id e"
    and "\<And>client. counts client w now e' \<Longrightarrow> counts client w now e"
  shows "quota_wf now d' \<and> charged client w now d' \<le> charged client w now d"
proof -
  have ok: "entry_ok e'" and d': "d' = d\<lparr>quota_entries := put_row qe_id e' (quota_entries d)\<rparr>"
    using assms(1) by (auto simp: qe_flush_def andThen_eq_Inr write_row_eq_Inr)
  have dist: "distinct (map qe_id (quota_entries d))" using assms(3) by (simp add: quota_wf_def)
  have mem: "e \<in> set (quota_entries d)" using row_by_SomeD [OF assms(2)] by simp
  then have cl: "qe_anonymous_client_id e' \<in> ac_id ` set (clients d)"
    using assms(3,6) by (simp add: quota_wf_def)
  have "\<forall>x \<in> set (put_row qe_id e' (quota_entries d)). entry_ok x \<and> \<not> opt_gt (qe_consumed_at x) now \<and>
      qe_anonymous_client_id x \<in> ac_id ` set (clients d)"
  proof
    fix x assume "x \<in> set (put_row qe_id e' (quota_entries d))"
    then have "x = e' \<or> x \<in> set (quota_entries d)" using set_put_row by fastforce
    then show "entry_ok x \<and> \<not> opt_gt (qe_consumed_at x) now \<and>
        qe_anonymous_client_id x \<in> ac_id ` set (clients d)"
      using ok assms(3,4) cl by (auto simp: quota_wf_def)
  qed
  moreover have "map qe_download_job_id (put_row qe_id e' (quota_entries d)) =
      map qe_download_job_id (quota_entries d)"
    by (rule map_put_row_same [OF assms(2,5) dist])
  ultimately have "quota_wf now d'" using assms(3) by (simp add: d' quota_wf_def)
  moreover have "charged client w now d' \<le> charged client w now d"
    using length_filter_put_row_le [where P = "counts client w now", OF assms(2) assms(7) dist]
    by (simp add: charged_def d')
  ultimately show ?thesis by simp
qed

lemma consume_locked_counts:
  assumes "consume_locked e tc = Inr e'" and "now < qe_reservation_expires_at e" and "tc \<le> now"
  shows "qe_id e' = qe_id e \<and> qe_download_job_id e' = qe_download_job_id e \<and>
     qe_anonymous_client_id e' = qe_anonymous_client_id e \<and> \<not> opt_gt (qe_consumed_at e') now \<and>
     (counts client w now e' \<longrightarrow> counts client w now e)"
  using assms by (auto simp: consume_locked_def counts_def in_window_def live_reservation_def split: if_splits)

lemma release_locked_counts:
  assumes "release_locked e now' x = Inr e'"
  shows "qe_id e' = qe_id e \<and> qe_download_job_id e' = qe_download_job_id e \<and>
     qe_anonymous_client_id e' = qe_anonymous_client_id e \<and>
     (\<not> opt_gt (qe_consumed_at e) now \<longrightarrow> \<not> opt_gt (qe_consumed_at e') now) \<and>
     (counts client w now e' \<longrightarrow> counts client w now e)"
  using assms by (auto simp: release_locked_def counts_def in_window_def live_reservation_def
      split: quota_state.splits if_splits)

lemma without_entries_inv:
  assumes "quota_wf now d"
  shows "quota_wf now (without_entries S d) \<and> charged client w now (without_entries S d) \<le> charged client w now d"
proof -
  have "length (filter (counts client w now) (quota_entries (without_entries S d))) \<le>
      length (filter (counts client w now) (quota_entries d))"
    unfolding without_entries_def by (simp, rule length_filter_mono) simp
  with assms show ?thesis
    by (auto simp: quota_wf_def charged_def without_entries_def distinct_map_filter)
qed

lemma quota_step_inv:
  assumes "quota_step st s s'" and "quota_inv st s"
  shows "quota_inv st s'"
  using assms
proof (induction rule: quota_step.induct)
  case (tick now now' d)
  then show ?case
    using charged_antimono [of now d now'] quota_wf_mono [of now d now']
    by (auto simp: quota_inv_def intro: order_trans)
next
  case (admit fresh now pnow client jid t d a d')
  from admit_locked_InrD [OF admit.hyps] show ?case
  proof
    assume "d' = d" with admit show ?thesis by simp
  next
    assume r: "charged client (window_of st) now d < st_free_download_limit st \<and>
      (\<exists>e. reserve_locked fresh client jid now t d = Inr (e, d'))"
    then obtain e where e: "reserve_locked fresh client jid now t d = Inr (e, d')" by blast
    have "charged c (window_of st) now d' \<le> st_free_download_limit st" for c
      using reserve_locked_charged [OF e, of "window_of st"] r admit.prems
      by (cases "c = client") (auto simp: quota_inv_def)
    with reserve_locked_wf [OF e] admit.prems show ?thesis by (simp add: quota_inv_def)
  qed
next
  case (consume i d e now tc e' d')
  have c: "qe_id e' = qe_id e" "qe_download_job_id e' = qe_download_job_id e"
    "qe_anonymous_client_id e' = qe_anonymous_client_id e" "\<not> opt_gt (qe_consumed_at e') now"
    "\<And>c. counts c (window_of st) now e' \<Longrightarrow> counts c (window_of st) now e"
    using consume_locked_counts [OF consume.hyps(4,2,3)] by blast+
  have "row_by qe_id (qe_id e') (quota_entries d) = Some e"
    using consume.hyps(1) row_by_SomeD [OF consume.hyps(1)] c by simp
  from qe_flush_inv [OF consume.hyps(5) this _ c(4,2,3,5)] consume.prems show ?case
    by (auto simp: quota_inv_def intro: order_trans)
next
  case (release i d e now x e' d')
  have "\<not> opt_gt (qe_consumed_at e) now"
    using row_by_SomeD [OF release.hyps(1)] release.prems by (auto simp: quota_inv_def quota_wf_def)
  then have c: "qe_id e' = qe_id e" "qe_download_job_id e' = qe_download_job_id e"
    "qe_anonymous_client_id e' = qe_anonymous_client_id e" "\<not> opt_gt (qe_consumed_at e') now"
    "\<And>c. counts c (window_of st) now e' \<Longrightarrow> counts c (window_of st) now e"
    using release_locked_counts [OF release.hyps(2)] by blast+
  have "row_by qe_id (qe_id e') (quota_entries d) = Some e"
    using release.hyps(1) row_by_SomeD [OF release.hyps(1)] c by simp
  from qe_flush_inv [OF release.hyps(3) this _ c(4,2,3,5)] release.prems show ?case
    by (auto simp: quota_inv_def intro: order_trans)
next
  case (prune locked cutoff limit d n d' now)
  then have "distinct (map qe_id (quota_entries d))" by (simp add: quota_inv_def quota_wf_def)
  from prune_removes_terminal [OF prune.hyps this] obtain S where "d' = without_entries S d"
    unfolding pruned_def by blast
  with without_entries_inv [of now d S] prune.prems show ?case
    unfolding quota_inv_def by (auto intro: order_trans)
qed


section \<open>Pruning clients\<close>

lemma expired_clients_picked_mem:
  assumes "c \<in> set (clients d)" and "ac_expires_at c \<le> now"
    and "ac_id c \<notin> qe_anonymous_client_id ` set (quota_entries d)" and "\<not> locked (ac_id c)"
    and "length (clients d) \<le> nat limit"
  shows "ac_id c \<in> set (expired_clients_picked locked now limit d)"
proof -
  let ?f = "filter (\<lambda>c. ac_expires_at c \<le> now \<and>
      ac_id c \<notin> qe_anonymous_client_id ` set (quota_entries d) \<and> \<not> locked (ac_id c)) (clients d)"
  have "length ?f \<le> nat limit" using assms(5) length_filter_le order_trans by blast
  then have "sql_limit limit (order_by ac_expires_at ?f) = order_by ac_expires_at ?f"
    by (simp add: sql_limit_def)
  then show ?thesis using assms(1-4) by (auto simp: expired_clients_picked_def)
qed

text \<open>Pruning expired clients looks only at quota entries, while payment orders and
  entitlements restrict the deletion as well: an expired client without quota entries that has
  ever ordered makes the statement fail with an integrity error, so that nothing is pruned.\<close>

theorem client_prune_blocked_by_orders:
  assumes "c \<in> set (clients d)" and "ac_expires_at c \<le> now"
    and "ac_id c \<notin> qe_anonymous_client_id ` set (quota_entries d)" and "\<not> locked (ac_id c)"
    and "length (clients d) \<le> nat limit"
    and "ac_id c \<in> po_anonymous_client_id ` set (orders d)"
  shows "delete_expired_clients_without_entries locked now limit d =
           Inl (IntegrityError ''anonymous_clients'')"
proof -
  let ?ids = "expired_clients_picked locked now limit d"
  have mem: "ac_id c \<in> set ?ids" using expired_clients_picked_mem [of c d now locked limit] assms(1-5) by blast
  then have "?ids \<noteq> []" by auto
  moreover have "\<exists>i \<in> set ?ids. client_referenced i d"
    using mem assms(6) unfolding client_referenced_def by blast
  ultimately show ?thesis by (simp add: delete_expired_clients_without_entries_def Let_def)
qed

section \<open>A sample\<close>

definition sample_settings :: Settings where
  "sample_settings = \<lparr>st_free_download_limit = 1, st_free_download_window_seconds = 86400,
     st_free_delivery_rate_limit_enabled = False, st_free_delivery_rate_bytes_per_second = 524288,
     st_anonymous_client_ttl_seconds = 31536000, st_free_download_quota_retention_seconds = 172800,
     st_ready_compatibility_mode = False\<rparr>"

definition sample_download_job :: download_job where
  "sample_download_job = \<lparr>dj_id = 3, dj_media_job_id = 1, dj_schema_version = 1,
     dj_public_state = DJ_QUEUED, dj_format_option_id = ''f1'', dj_provider_id = ''vk'',
     dj_canonical_provider_url = ''https://vk.com/video1_2'', dj_media_id = ''1_2'',
     dj_hostname = ''vk.com'', dj_path = ''/video1_2'', dj_scheme = ''https'', dj_port = None,
     dj_selected_format_snapshot = JObj [], dj_attempt_count = 0, dj_max_attempts = 3,
     dj_available_at = 0, dj_lease_owner = None, dj_lease_expires_at = None, dj_fence_token = 0,
     dj_artifact_id = None, dj_artifact_bytes = None, dj_artifact_content_type = None,
     dj_artifact_container = None, dj_public_error_code = None, dj_progress_stage = PS_QUEUED,
     dj_cancel_requested_at = None, dj_suggested_filename = None, dj_progress_percent = None,
     dj_created_at = 0, dj_updated_at = 0, dj_started_at = None, dj_completed_at = None,
     dj_expires_at = seconds 900\<rparr>"

definition sample_entry :: quota_entry where
  "sample_entry = \<lparr>qe_id = 2, qe_anonymous_client_id = 1, qe_download_job_id = 3,
     qe_state = Q_RESERVED, qe_reserved_at = 0, qe_reservation_expires_at = seconds 900,
     qe_consumed_at = None, qe_released_at = None\<rparr>"

definition sample_consumed :: quota_entry where
  "sample_consumed = sample_entry\<lparr>qe_state := Q_CONSUMED, qe_consumed_at := Some 7\<rparr>"

definition sample_quota_db :: "quota_entry list \<Rightarrow> db" where
  "sample_quota_db es = empty_db\<lparr>clients := [sample_client], download_jobs := [sample_download_job],
     quota_entries := es\<rparr>"

lemmas sample_quota_defs = sample_settings_def sample_download_job_def sample_entry_def
  sample_consumed_def sample_quota_db_def sample_client_def empty_db_def seconds_def

lemma sample_settings_ok: "settings_ok sample_settings"
  by (simp add: settings_ok_defs sample_settings_def)

lemma sample_quota_wf:
  "quota_wf 0 (sample_quota_db [])" "quota_wf 7 (sample_quota_db [sample_consumed])"
  by (simp_all add: quota_wf_def entry_ok_defs sample_quota_defs)

theorem admit_locked_exact_witness:
  "\<exists>a d'. admit_locked sample_settings 2 0 0 1 3 (seconds 900) (sample_quota_db []) = Inr (a, d') \<and>
     charged 1 (seconds 86400) 0 d' = 1"
  using admit_locked_exact [of 1 0 "sample_quota_db []" 0 "seconds 900" 3 2 sample_settings]
  by (auto simp: lock_client_def get_active_for_client_def sql_limit_def order_by_def charged_def
      sample_quota_defs)

theorem reset_at_exact_witness:
  "used_count 1 7 (7 + seconds 86400) (sample_quota_db [sample_consumed]) < 1"
proof -
  obtain s where s: "status_locked 1 7 (free_policy sample_settings) (sample_quota_db [sample_consumed]) = Inr s"
    using status_locked_free [of 1 7 sample_settings "sample_quota_db [sample_consumed]"] by blast
  then have "qs_reset_at s = Some (7 + seconds 86400)"
    by (auto simp: status_locked_def Let_def used_count_def reserved_count_def in_window_def
        releasing_consumption_def order_by_def sample_quota_defs)
  with reset_at_exact [OF sample_quota_wf(2) sample_settings_ok s] show ?thesis
    by (simp add: Let_def sample_settings_def)
qed

theorem prune_is_invisible_witness:
  "\<exists>n d'. delete_terminal_entries_before (\<lambda>_. False)
       (seconds 172808 - seconds (st_free_download_quota_retention_seconds sample_settings)) 64
       (sample_quota_db [sample_consumed]) = Inr (n, d') \<and>
     status_locked 1 (seconds 172808) (free_policy sample_settings) d' =
     status_locked 1 (seconds 172808) (free_policy sample_settings) (sample_quota_db [sample_consumed])"
proof -
  have run: "delete_terminal_entries_before (\<lambda>_. False)
       (seconds 172808 - seconds (st_free_download_quota_retention_seconds sample_settings)) 64
       (sample_quota_db [sample_consumed]) = Inr (1, sample_quota_db [])"
    by (simp add: delete_terminal_entries_before_def terminal_before_def order_by_def sql_limit_def
        prune_entry_def lock_client_def row_by_def qe_delete_def del_rows_def sample_quota_defs)
  show ?thesis
    using prune_is_invisible [OF sample_settings_ok _ run, of "seconds 172808" 1] run
    by (simp add: sample_quota_db_def)
qed


theorem client_prune_blocked_by_orders_witness:
  "delete_expired_clients_without_entries (\<lambda>_. False) (seconds 1000) 64 sample_paid_db =
     Inl (IntegrityError ''anonymous_clients'')"
  by (rule client_prune_blocked_by_orders [of sample_client]) (simp_all add: sample_paid_defs)

end
