(* ===== verification/Snapshot.thy ===== *)
theory Snapshot
  imports Quota
begin

text \<open>
  The durable snapshot of a selected format and of the policy it was authorized under
  (\<open>downloads/snapshot_codec.py\<close>), the media format it carries
  (\<open>media_inspection/models.py\<close>) and the coherence test of promoted jobs
  (\<open>downloads/premium_coherence.py\<close>). A JSON object is an association list with distinct keys.
\<close>

section \<open>Library functions the codec calls\<close>

text \<open>
  \<open>iso_z t\<close> is \<open>t.astimezone(UTC).isoformat().replace("+00:00", "Z")\<close>; \<open>parse_iso s\<close> is
  \<open>datetime.fromisoformat(s.replace("Z", "+00:00"))\<close>: None when it raises, \<open>Some None\<close> for a
  naive result. \<open>uuid_str\<close> is \<open>str\<close> of a uuid, \<open>uuid_of v\<close> is \<open>uuid.UUID(str(v))\<close>.
  \<open>json_size\<close> is the length of the compact UTF-8 dump.
\<close>

record pylib =
  iso_z :: "time \<Rightarrow> string"
  parse_iso :: "string \<Rightarrow> time option option"
  uuid_str :: "uuid \<Rightarrow> string"
  uuid_of :: "json \<Rightarrow> uuid option"
  json_size :: "json \<Rightarrow> int"

definition pylib_laws :: "pylib \<Rightarrow> bool" where
  "pylib_laws py \<longleftrightarrow>
     (\<forall>t. parse_iso py (iso_z py t) = Some (Some t)) \<and>
     (\<forall>u. uuid_of py (JStr (uuid_str py u)) = Some u)"

section \<open>Media formats\<close>

datatype FormatCategory = PROGRESSIVE | CAT_VIDEO_ONLY | CAT_AUDIO_ONLY

fun FormatCategory_value :: "FormatCategory \<Rightarrow> string" where
  "FormatCategory_value PROGRESSIVE = ''progressive''"
| "FormatCategory_value CAT_VIDEO_ONLY = ''video_only''"
| "FormatCategory_value CAT_AUDIO_ONLY = ''audio_only''"

datatype MediaKind = NORMAL_VIDEO | KIND_VIDEO_ONLY | KIND_AUDIO_ONLY

fun MediaKind_value :: "MediaKind \<Rightarrow> string" where
  "MediaKind_value NORMAL_VIDEO = ''normal_video''"
| "MediaKind_value KIND_VIDEO_ONLY = ''video_only''"
| "MediaKind_value KIND_AUDIO_ONLY = ''audio_only''"

datatype CodecFamily =
    AVC | HEVC | VP8 | VP9 | AV1 | AAC | OPUS | MP3 | VORBIS | FLAC | UNKNOWN_CODEC | NO_CODEC

fun CodecFamily_value :: "CodecFamily \<Rightarrow> string" where
  "CodecFamily_value AVC = ''avc''"
| "CodecFamily_value HEVC = ''hevc''"
| "CodecFamily_value VP8 = ''vp8''"
| "CodecFamily_value VP9 = ''vp9''"
| "CodecFamily_value AV1 = ''av1''"
| "CodecFamily_value AAC = ''aac''"
| "CodecFamily_value OPUS = ''opus''"
| "CodecFamily_value MP3 = ''mp3''"
| "CodecFamily_value VORBIS = ''vorbis''"
| "CodecFamily_value FLAC = ''flac''"
| "CodecFamily_value UNKNOWN_CODEC = ''unknown''"
| "CodecFamily_value NO_CODEC = ''none''"

text \<open>\<open>Enum(value)\<close>: a ValueError when no member has the value.\<close>

definition enum_of :: "('e \<Rightarrow> string) \<Rightarrow> 'e list \<Rightarrow> string \<Rightarrow> 'e option" where
  "enum_of val members raw = find (\<lambda>e. val e = raw) members"

abbreviation categories :: "FormatCategory list" where
  "categories \<equiv> [PROGRESSIVE, CAT_VIDEO_ONLY, CAT_AUDIO_ONLY]"

abbreviation kinds :: "MediaKind list" where
  "kinds \<equiv> [NORMAL_VIDEO, KIND_VIDEO_ONLY, KIND_AUDIO_ONLY]"

abbreviation codecs :: "CodecFamily list" where
  "codecs \<equiv> [AVC, HEVC, VP8, VP9, AV1, AAC, OPUS, MP3, VORBIS, FLAC, UNKNOWN_CODEC, NO_CODEC]"

record MediaFormat =
  mf_format_option_id :: string
  mf_container :: string
  mf_width :: "int option"
  mf_height :: "int option"
  mf_fps :: "rat option"
  mf_has_video :: bool
  mf_has_audio :: bool
  mf_category :: FormatCategory
  mf_video_codec :: CodecFamily
  mf_audio_codec :: CodecFamily
  mf_approx_bytes :: "int option"
  mf_quality_label :: string
  mf_free_tier_eligible :: bool
  mf_media_kind :: MediaKind
  mf_requires_premium :: bool
  mf_bitrate_kbps :: "int option"

text \<open>\<open>_SAFE_TOKEN\<close>: \<open>[a-z][a-z0-9_]{0,63}\<close>\<close>

definition lower_ascii :: "char \<Rightarrow> bool" where
  "lower_ascii c \<longleftrightarrow> 97 \<le> (of_char c :: nat) \<and> (of_char c :: nat) \<le> 122"

definition safe_token :: "string \<Rightarrow> bool" where
  "safe_token s =
     (case s of
        [] \<Rightarrow> False
      | c # cs \<Rightarrow> lower_ascii c \<and> length cs \<le> 63 \<and>
          list_all (\<lambda>x. lower_ascii x \<or> digit_ascii x \<or> x = CHR ''_'') cs)"

definition non_negative :: "'a::{zero,ord} option \<Rightarrow> 'a option \<Rightarrow> bool" where
  "non_negative v maximum =
     (case v of
        None \<Rightarrow> True
      | Some x \<Rightarrow> 0 \<le> x \<and> (case maximum of None \<Rightarrow> True | Some m \<Rightarrow> x \<le> m))"

fun expected_category :: "MediaKind \<Rightarrow> FormatCategory" where
  "expected_category NORMAL_VIDEO = PROGRESSIVE"
| "expected_category KIND_VIDEO_ONLY = CAT_VIDEO_ONLY"
| "expected_category KIND_AUDIO_ONLY = CAT_AUDIO_ONLY"

text \<open>\<open>MediaFormat.__post_init__\<close> raises a ValueError exactly when this is false.\<close>

definition valid_format :: "MediaFormat \<Rightarrow> bool" where
  "valid_format f \<longleftrightarrow>
     safe_token (mf_format_option_id f) \<and> safe_token (mf_container f) \<and>
     safe_token (mf_quality_label f) \<and>
     non_negative (mf_width f) None \<and> non_negative (mf_height f) None \<and>
     non_negative (mf_fps f) (Some 240) \<and> non_negative (mf_approx_bytes f) None \<and>
     non_negative (mf_bitrate_kbps f) (Some 100000) \<and>
     (mf_media_kind f = NORMAL_VIDEO \<longrightarrow> mf_has_video f \<and> mf_has_audio f) \<and>
     (mf_media_kind f = KIND_VIDEO_ONLY \<longrightarrow> mf_has_video f \<and> \<not> mf_has_audio f) \<and>
     (mf_media_kind f = KIND_AUDIO_ONLY \<longrightarrow> mf_has_audio f \<and> \<not> mf_has_video f) \<and>
     mf_category f = expected_category (mf_media_kind f) \<and>
     (mf_requires_premium f \<longleftrightarrow> mf_media_kind f \<noteq> NORMAL_VIDEO) \<and>
     \<not> (mf_has_video f \<and> mf_width f = None \<and> mf_height f = None) \<and>
     (mf_has_video f \<or> mf_has_audio f)"

section \<open>Keys\<close>

definition LEGACY_SNAPSHOT_KEYS :: "string list" where
  "LEGACY_SNAPSHOT_KEYS = [''formatOptionId'', ''container'', ''width'', ''height'', ''fps'',
     ''hasVideo'', ''hasAudio'', ''category'', ''videoCodec'', ''audioCodec'', ''approxBytes'',
     ''qualityLabel'', ''freeTierEligible'']"

definition SNAPSHOT_KEYS :: "string list" where
  "SNAPSHOT_KEYS = LEGACY_SNAPSHOT_KEYS @ [''mediaKind'', ''requiresPremium'', ''bitrateKbps'']"

definition POLICY_KEY :: string where
  "POLICY_KEY = ''effectiveDownloadPolicy''"

definition LEGACY_POLICY_KEYS :: "string list" where
  "LEGACY_POLICY_KEYS = [''tier'', ''downloadLimit'', ''quotaWindowSeconds'',
     ''deliveryRateBytesPerSecond'', ''premiumExpiresAt'']"

definition POLICY_KEYS :: "string list" where
  "POLICY_KEYS = LEGACY_POLICY_KEYS @ [''allowCombined'', ''allowAudioOnly'', ''allowVideoOnly'',
     ''authorizedIdentityId'']"

definition FORBIDDEN_KEYS :: "string list" where
  "FORBIDDEN_KEYS = [''url'', ''urls'', ''directUrl'', ''directUrls'', ''signedUrl'',
     ''downloadUrl'', ''streamUrl'', ''manifestUrl'', ''cookie'', ''cookies'', ''authorization'',
     ''token'', ''providerFormatToken'', ''provider_format_token'', ''accessToken'',
     ''password'', ''secret'', ''stderr'', ''stdout'', ''raw'', ''path'', ''filepath'',
     ''tempPath'', ''query'', ''fragment'', ''headers'', ''argv'', ''command'']"

text \<open>\<open>str.casefold\<close> on the characters that can fold into an ASCII key.\<close>

definition casefold :: "string \<Rightarrow> string" where
  "casefold s = concat (map (\<lambda>c. if upper_ascii c then [char_of (of_char c + (32 :: nat))]
                                 else if c = CHR 0xDF then ''ss'' else [c]) s)"

definition same_keys :: "(string \<times> json) list \<Rightarrow> string list \<Rightarrow> bool" where
  "same_keys obj keys \<longleftrightarrow> set (map fst obj) = set keys"

definition jget :: "string \<Rightarrow> (string \<times> json) list \<Rightarrow> json" where
  "jget k obj = (case map_of obj k of None \<Rightarrow> JNull | Some v \<Rightarrow> v)"

abbreviation unavailable :: "string \<Rightarrow> error" where
  "unavailable reason \<equiv> DownloadError FORMAT_UNAVAILABLE reason"

definition reject_key :: "string \<Rightarrow> unit res" where
  "reject_key key =
     (if key \<in> set FORBIDDEN_KEYS \<or> casefold key \<in> set (map casefold FORBIDDEN_KEYS)
      then Inl (unavailable ''SNAPSHOT_FORBIDDEN_KEY'')
      else if key \<notin> set SNAPSHOT_KEYS \<and> key \<noteq> POLICY_KEY
      then Inl (unavailable ''SNAPSHOT_UNKNOWN_KEY'')
      else Inr ())"

definition reject_keys :: "(string \<times> json) list \<Rightarrow> unit res" where
  "reject_keys obj = fold_res (\<lambda>key _. reject_key key) (map fst obj) ()"

section \<open>Typed fields\<close>

definition require_bool :: "json \<Rightarrow> bool res" where
  "require_bool v = (case v of JBool b \<Rightarrow> Inr b | _ \<Rightarrow> Inl (unavailable ''SNAPSHOT_BOOL''))"

definition require_optional_int :: "int \<Rightarrow> json \<Rightarrow> int option res" where
  "require_optional_int maximum v =
     (case v of
        JNull \<Rightarrow> Inr None
      | JInt n \<Rightarrow> if n < 0 \<or> n > maximum then Inl (unavailable ''SNAPSHOT_INT_BOUNDS'')
                  else Inr (Some n)
      | _ \<Rightarrow> Inl (unavailable ''SNAPSHOT_INT''))"

text \<open>
  \<open>float(n)\<close> of an integer is exact up to \<open>2^53\<close>; a larger one is above the maximum anyway,
  and beyond the range of floats the conversion raises OverflowError, which the decoder does
  not catch.
\<close>

definition require_optional_float :: "rat \<Rightarrow> json \<Rightarrow> rat option res" where
  "require_optional_float maximum v =
     (case v of
        JNull \<Rightarrow> Inr None
      | JInt n \<Rightarrow> if \<bar>n\<bar> \<ge> 2 ^ 1024 - 2 ^ 970 then Inl (UncaughtError ''OverflowError'')
                  else if (of_int n :: rat) < 0 \<or> of_int n > maximum
                  then Inl (unavailable ''SNAPSHOT_FLOAT_BOUNDS'')
                  else Inr (Some (of_int n))
      | JFloat x \<Rightarrow> if x < 0 \<or> x > maximum then Inl (unavailable ''SNAPSHOT_FLOAT_BOUNDS'')
                    else Inr (Some x)
      | _ \<Rightarrow> Inl (unavailable ''SNAPSHOT_FLOAT''))"

definition require_string :: "json \<Rightarrow> string res" where
  "require_string v =
     (case v of
        JStr s \<Rightarrow> if s = [] \<or> length s > 64 \<or> list_ex (\<lambda>c. (of_char c :: nat) < 32) s
                  then Inl (unavailable ''SNAPSHOT_STRING'') else Inr s
      | _ \<Rightarrow> Inl (unavailable ''SNAPSHOT_STRING''))"

definition require_enum :: "('e \<Rightarrow> string) \<Rightarrow> 'e list \<Rightarrow> json \<Rightarrow> 'e res" where
  "require_enum val members v =
     andThen (require_string v) (\<lambda>s.
       case enum_of val members s of
         None \<Rightarrow> Inl (unavailable ''SNAPSHOT_INVALID'')
       | Some e \<Rightarrow> Inr e)"

section \<open>The format snapshot\<close>

definition opt_int_json :: "int option \<Rightarrow> json" where
  "opt_int_json v = (case v of None \<Rightarrow> JNull | Some n \<Rightarrow> JInt n)"

definition snapshot_payload :: "MediaFormat \<Rightarrow> (string \<times> json) list" where
  "snapshot_payload f =
     [(''formatOptionId'', JStr (mf_format_option_id f)), (''container'', JStr (mf_container f)),
      (''width'', opt_int_json (mf_width f)), (''height'', opt_int_json (mf_height f)),
      (''fps'', (case mf_fps f of None \<Rightarrow> JNull | Some x \<Rightarrow> JFloat x)),
      (''hasVideo'', JBool (mf_has_video f)), (''hasAudio'', JBool (mf_has_audio f)),
      (''category'', JStr (FormatCategory_value (mf_category f))),
      (''videoCodec'', JStr (CodecFamily_value (mf_video_codec f))),
      (''audioCodec'', JStr (CodecFamily_value (mf_audio_codec f))),
      (''approxBytes'', opt_int_json (mf_approx_bytes f)),
      (''qualityLabel'', JStr (mf_quality_label f)),
      (''freeTierEligible'', JBool (mf_free_tier_eligible f)),
      (''mediaKind'', JStr (MediaKind_value (mf_media_kind f))),
      (''requiresPremium'', JBool (mf_requires_premium f)),
      (''bitrateKbps'', opt_int_json (mf_bitrate_kbps f))]"

definition encode_selected_format_snapshot ::
  "pylib \<Rightarrow> int \<Rightarrow> MediaFormat \<Rightarrow> (string \<times> json) list res" where
  "encode_selected_format_snapshot py max_bytes f =
     (let payload = snapshot_payload f
      in if \<not> same_keys payload SNAPSHOT_KEYS
         then Inl (DownloadError INTERNAL_ERROR ''SNAPSHOT_ENCODE_KEYS'')
         else if json_size py (JObj payload) > max_bytes
         then Inl (DownloadError INTERNAL_ERROR ''SNAPSHOT_TOO_LARGE'')
         else Inr payload)"

text \<open>The fields in the order of the constructor call; a ValueError becomes the invalid error.\<close>

definition decode_fields :: "(string \<times> json) list \<Rightarrow> string \<Rightarrow> MediaFormat res" where
  "decode_fields obj expected =
     andThen (require_string (jget ''formatOptionId'' obj)) (\<lambda>option_id.
     andThen (guard_res (option_id = expected) (unavailable ''SNAPSHOT_OPTION_MISMATCH'')) (\<lambda>_.
     andThen (require_enum FormatCategory_value categories (jget ''category'' obj)) (\<lambda>category.
     andThen (require_enum MediaKind_value kinds
               (case map_of obj ''mediaKind'' of
                  None \<Rightarrow> JStr (MediaKind_value NORMAL_VIDEO) | Some v \<Rightarrow> v)) (\<lambda>media_kind.
     andThen (require_string (jget ''container'' obj)) (\<lambda>container.
     andThen (require_optional_int 16384 (jget ''width'' obj)) (\<lambda>width.
     andThen (require_optional_int 16384 (jget ''height'' obj)) (\<lambda>height.
     andThen (require_optional_float 240 (jget ''fps'' obj)) (\<lambda>fps.
     andThen (require_bool (jget ''hasVideo'' obj)) (\<lambda>has_video.
     andThen (require_bool (jget ''hasAudio'' obj)) (\<lambda>has_audio.
     andThen (require_enum CodecFamily_value codecs (jget ''videoCodec'' obj)) (\<lambda>video_codec.
     andThen (require_enum CodecFamily_value codecs (jget ''audioCodec'' obj)) (\<lambda>audio_codec.
     andThen (require_optional_int (10 ^ 12) (jget ''approxBytes'' obj)) (\<lambda>approx_bytes.
     andThen (require_string (jget ''qualityLabel'' obj)) (\<lambda>quality_label.
     andThen (require_bool (jget ''freeTierEligible'' obj)) (\<lambda>free_tier.
     andThen (require_bool
               (case map_of obj ''requiresPremium'' of
                  None \<Rightarrow> JBool (media_kind \<noteq> NORMAL_VIDEO) | Some v \<Rightarrow> v)) (\<lambda>requires_premium.
     andThen (require_optional_int 100000 (jget ''bitrateKbps'' obj)) (\<lambda>bitrate.
       let f = \<lparr>mf_format_option_id = option_id, mf_container = container, mf_width = width,
             mf_height = height, mf_fps = fps, mf_has_video = has_video, mf_has_audio = has_audio,
             mf_category = category, mf_video_codec = video_codec, mf_audio_codec = audio_codec,
             mf_approx_bytes = approx_bytes, mf_quality_label = quality_label,
             mf_free_tier_eligible = free_tier, mf_media_kind = media_kind,
             mf_requires_premium = requires_premium, mf_bitrate_kbps = bitrate\<rparr>
       in if valid_format f then Inr f else Inl (unavailable ''SNAPSHOT_INVALID''))))))))))))))))))"

definition decode_selected_format_snapshot ::
  "pylib \<Rightarrow> int \<Rightarrow> json \<Rightarrow> string \<Rightarrow> MediaFormat res" where
  "decode_selected_format_snapshot py max_bytes payload expected =
     (case payload of
        JObj obj \<Rightarrow>
          if json_size py payload > max_bytes then Inl (unavailable ''SNAPSHOT_TOO_LARGE'')
          else
            let allowed = list_ex (same_keys obj)
                  [LEGACY_SNAPSHOT_KEYS, LEGACY_SNAPSHOT_KEYS @ [POLICY_KEY],
                   SNAPSHOT_KEYS, SNAPSHOT_KEYS @ [POLICY_KEY]]
            in andThen (reject_keys obj) (\<lambda>_.
                 if \<not> allowed then Inl (unavailable ''SNAPSHOT_KEY_SET'')
                 else decode_fields obj expected)
      | _ \<Rightarrow> Inl (unavailable ''SNAPSHOT_PAYLOAD_TYPE''))"

section \<open>The policy snapshot\<close>

abbreviation invalid_policy :: error where
  "invalid_policy \<equiv> unavailable ''POLICY_SNAPSHOT_INVALID''"

definition is_bool :: "json \<Rightarrow> bool" where
  "is_bool v = (case v of JBool _ \<Rightarrow> True | _ \<Rightarrow> False)"

definition int_between :: "int \<Rightarrow> int \<Rightarrow> json \<Rightarrow> bool" where
  "int_between lo hi v = (case v of JInt n \<Rightarrow> lo \<le> n \<and> n \<le> hi | _ \<Rightarrow> False)"

definition int_of_json :: "json \<Rightarrow> int option" where
  "int_of_json v = (case v of JInt n \<Rightarrow> Some n | _ \<Rightarrow> None)"

definition decode_free_policy ::
  "(string \<times> json) list \<Rightarrow> json \<Rightarrow> json \<Rightarrow> json \<Rightarrow> json \<Rightarrow> EffectiveDownloadPolicy option res" where
  "decode_free_policy raw combined audio video identity =
     (let limit = jget ''downloadLimit'' raw; window = jget ''quotaWindowSeconds'' raw;
          rate = jget ''deliveryRateBytesPerSecond'' raw
      in if int_between 1 100 limit \<and> int_between 60 604800 window \<and>
            (rate = JNull \<or> int_between 262144 67108864 rate) \<and>
            jget ''premiumExpiresAt'' raw = JNull \<and> identity = JNull \<and>
            combined = JBool True \<and> audio = JBool False \<and> video = JBool False
         then Inr (Some \<lparr>edp_tier = ''free'', edp_download_limit = int_of_json limit,
                edp_quota_window_seconds = int_of_json window,
                edp_delivery_rate_bytes_per_second = int_of_json rate,
                edp_premium_expires_at = None, edp_allow_combined = True,
                edp_allow_audio_only = False, edp_allow_video_only = False\<rparr>)
         else Inl invalid_policy)"

definition decode_premium_policy ::
  "pylib \<Rightarrow> (string \<times> json) list \<Rightarrow> bool \<Rightarrow> json \<Rightarrow> json \<Rightarrow> json \<Rightarrow> json \<Rightarrow>
     EffectiveDownloadPolicy option res" where
  "decode_premium_policy py raw legacy combined audio video identity =
     (if jget ''downloadLimit'' raw \<noteq> JNull \<or> jget ''quotaWindowSeconds'' raw \<noteq> JNull \<or>
         jget ''deliveryRateBytesPerSecond'' raw \<noteq> JNull \<or> combined \<noteq> JBool True
      then Inl invalid_policy
      else (case jget ''premiumExpiresAt'' raw of
        JStr s \<Rightarrow>
          if length s > 64 then Inl invalid_policy
          else (case parse_iso py s of
             Some (Some t) \<Rightarrow>
               if \<not> legacy \<and> uuid_of py identity = None then Inl invalid_policy
               else Inr (Some \<lparr>edp_tier = ''premium'', edp_download_limit = None,
                      edp_quota_window_seconds = None, edp_delivery_rate_bytes_per_second = None,
                      edp_premium_expires_at = Some t, edp_allow_combined = True,
                      edp_allow_audio_only = (audio = JBool True),
                      edp_allow_video_only = (video = JBool True)\<rparr>)
           | _ \<Rightarrow> Inl invalid_policy)
      | _ \<Rightarrow> Inl invalid_policy))"

definition decode_effective_policy_snapshot ::
  "pylib \<Rightarrow> json \<Rightarrow> EffectiveDownloadPolicy option res" where
  "decode_effective_policy_snapshot py payload =
     (case payload of
        JObj obj \<Rightarrow>
          (case jget POLICY_KEY obj of
             JNull \<Rightarrow> Inr None
           | JObj raw \<Rightarrow>
               if \<not> (same_keys raw LEGACY_POLICY_KEYS \<or> same_keys raw POLICY_KEYS)
               then Inl (unavailable ''POLICY_SNAPSHOT_KEY_SET'')
               else
                 let legacy = same_keys raw LEGACY_POLICY_KEYS;
                     combined = (if legacy then JBool True else jget ''allowCombined'' raw);
                     audio = (if legacy then JBool False else jget ''allowAudioOnly'' raw);
                     video = (if legacy then JBool False else jget ''allowVideoOnly'' raw);
                     identity = (if legacy then JNull else jget ''authorizedIdentityId'' raw)
                 in if \<not> (is_bool combined \<and> is_bool audio \<and> is_bool video)
                    then Inl invalid_policy
                    else if jget ''tier'' raw = JStr ''free''
                    then decode_free_policy raw combined audio video identity
                    else if jget ''tier'' raw = JStr ''premium''
                    then decode_premium_policy py raw legacy combined audio video identity
                    else Inl invalid_policy
           | _ \<Rightarrow> Inl (unavailable ''POLICY_SNAPSHOT_KEY_SET''))
      | _ \<Rightarrow> Inl (unavailable ''SNAPSHOT_PAYLOAD_TYPE''))"

definition policy_payload ::
  "pylib \<Rightarrow> EffectiveDownloadPolicy \<Rightarrow> uuid option \<Rightarrow> (string \<times> json) list" where
  "policy_payload py policy identity =
     [(''tier'', JStr (edp_tier policy)),
      (''downloadLimit'', opt_int_json (edp_download_limit policy)),
      (''quotaWindowSeconds'', opt_int_json (edp_quota_window_seconds policy)),
      (''deliveryRateBytesPerSecond'', opt_int_json (edp_delivery_rate_bytes_per_second policy)),
      (''premiumExpiresAt'', (case edp_premium_expires_at policy of
          None \<Rightarrow> JNull | Some t \<Rightarrow> JStr (iso_z py t))),
      (''allowCombined'', JBool (edp_allow_combined policy)),
      (''allowAudioOnly'', JBool (edp_allow_audio_only policy)),
      (''allowVideoOnly'', JBool (edp_allow_video_only policy)),
      (''authorizedIdentityId'', (case identity of None \<Rightarrow> JNull | Some u \<Rightarrow> JStr (uuid_str py u)))]"

text \<open>\<open>result[key] = value\<close> on a dict keeps the position of an existing key.\<close>

definition jset :: "string \<Rightarrow> json \<Rightarrow> (string \<times> json) list \<Rightarrow> (string \<times> json) list" where
  "jset k v obj = (if k \<in> fst ` set obj
                   then map (\<lambda>(k', v'). if k' = k then (k, v) else (k', v')) obj
                   else obj @ [(k, v)])"

definition attach_effective_policy_snapshot ::
  "pylib \<Rightarrow> (string \<times> json) list \<Rightarrow> EffectiveDownloadPolicy \<Rightarrow> uuid option \<Rightarrow>
     (string \<times> json) list res" where
  "attach_effective_policy_snapshot py payload policy identity =
     andThen (decode_selected_format_snapshot py 4096 (JObj payload)
                (case jget ''formatOptionId'' payload of JStr s \<Rightarrow> s | _ \<Rightarrow> '''')) (\<lambda>_.
       let result = jset POLICY_KEY (JObj (policy_payload py policy identity)) payload
       in andThen (decode_effective_policy_snapshot py (JObj result)) (\<lambda>_.
            if json_size py (JObj result) > 4096
            then Inl (DownloadError INTERNAL_ERROR ''SNAPSHOT_TOO_LARGE'')
            else Inr result))"

definition strip_effective_policy_snapshot :: "(string \<times> json) list \<Rightarrow> (string \<times> json) list" where
  "strip_effective_policy_snapshot obj = filter (\<lambda>(k, _). k \<noteq> POLICY_KEY) obj"

definition decode_authorized_identity_id :: "pylib \<Rightarrow> json \<Rightarrow> uuid option res" where
  "decode_authorized_identity_id py payload =
     andThen (decode_effective_policy_snapshot py payload) (\<lambda>policy.
       case policy of
         None \<Rightarrow> Inr None
       | Some p \<Rightarrow>
           if edp_tier p \<noteq> ''premium'' then Inr None
           else (case payload of
             JObj obj \<Rightarrow>
               (case jget POLICY_KEY obj of
                  JObj raw \<Rightarrow>
                    (case jget ''authorizedIdentityId'' raw of
                       JNull \<Rightarrow> Inr None
                     | v \<Rightarrow> (case uuid_of py v of
                               None \<Rightarrow> Inl invalid_policy | Some u \<Rightarrow> Inr (Some u)))
                | _ \<Rightarrow> Inr None)
           | _ \<Rightarrow> Inr None))"

text \<open>\<open>is_coherent_promoted_premium_job\<close>: every error reads as not coherent.\<close>

definition is_coherent_promoted_premium_job :: "pylib \<Rightarrow> download_job \<Rightarrow> uuid option \<Rightarrow> bool" where
  "is_coherent_promoted_premium_job py job expected_identity_id =
     (case (decode_effective_policy_snapshot py (dj_selected_format_snapshot job),
            decode_authorized_identity_id py (dj_selected_format_snapshot job)) of
        (Inr (Some policy), Inr (Some identity)) \<Rightarrow>
          edp_tier policy = ''premium'' \<and>
          (case expected_identity_id of None \<Rightarrow> True | Some u \<Rightarrow> identity = u)
      | _ \<Rightarrow> False)"

section \<open>Round trip of the format snapshot\<close>

lemma safe_token_chars:
  assumes "safe_token s"
  shows "s \<noteq> [] \<and> length s \<le> 64 \<and> \<not> list_ex (\<lambda>c. (of_char c :: nat) < 32) s"
proof -
  obtain c cs where s: "s = c # cs" using assms by (cases s) (auto simp: safe_token_def)
  with assms have "lower_ascii c" "length cs \<le> 63"
    and all: "list_all (\<lambda>x. lower_ascii x \<or> digit_ascii x \<or> x = CHR ''_'') cs"
    by (simp_all add: safe_token_def)
  moreover have "\<not> (of_char x :: nat) < 32" if "lower_ascii x \<or> digit_ascii x \<or> x = CHR ''_''" for x
    using that by (auto simp: lower_ascii_def digit_ascii_def)
  ultimately show ?thesis using s by (auto simp: list_ex_iff list_all_iff)
qed

lemma require_string_token: "safe_token s \<Longrightarrow> require_string (JStr s) = Inr s"
  using safe_token_chars [of s] by (simp add: require_string_def)

lemma require_category_value:
  "require_enum FormatCategory_value categories (JStr (FormatCategory_value c)) = Inr c"
  by (cases c; simp add: require_enum_def require_string_def enum_of_def)

lemma require_kind_value: "require_enum MediaKind_value kinds (JStr (MediaKind_value k)) = Inr k"
  by (cases k; simp add: require_enum_def require_string_def enum_of_def)

lemma require_codec_value: "require_enum CodecFamily_value codecs (JStr (CodecFamily_value x)) = Inr x"
  by (cases x; simp add: require_enum_def require_string_def enum_of_def)

lemmas require_enum_values = require_category_value require_kind_value require_codec_value

lemma require_optional_int_json:
  "non_negative v None \<Longrightarrow> (\<And>n. v = Some n \<Longrightarrow> n \<le> m) \<Longrightarrow>
     require_optional_int m (opt_int_json v) = Inr v"
  by (cases v) (auto simp: require_optional_int_def opt_int_json_def non_negative_def)

lemma forbidden_keys_folded:
  "map casefold FORBIDDEN_KEYS = [''url'', ''urls'', ''directurl'', ''directurls'', ''signedurl'',
     ''downloadurl'', ''streamurl'', ''manifesturl'', ''cookie'', ''cookies'', ''authorization'',
     ''token'', ''providerformattoken'', ''provider_format_token'', ''accesstoken'',
     ''password'', ''secret'', ''stderr'', ''stdout'', ''raw'', ''path'', ''filepath'',
     ''temppath'', ''query'', ''fragment'', ''headers'', ''argv'', ''command'']"
  by (simp add: FORBIDDEN_KEYS_def casefold_def upper_ascii_def char_of_eq_iff take_bit_eq_mod)

lemma snapshot_keys_accepted: "fold_res (\<lambda>key _. reject_key key) SNAPSHOT_KEYS () = Inr ()"
  by (simp add: SNAPSHOT_KEYS_def LEGACY_SNAPSHOT_KEYS_def reject_key_def forbidden_keys_folded
      FORBIDDEN_KEYS_def casefold_def upper_ascii_def char_of_eq_iff take_bit_eq_mod)

lemma snapshot_payload_keys: "map fst (snapshot_payload f) = SNAPSHOT_KEYS"
  by (simp add: snapshot_payload_def SNAPSHOT_KEYS_def LEGACY_SNAPSHOT_KEYS_def)

lemmas snapshot_lookups = jget_def snapshot_payload_def

lemma decode_fields_payload:
  assumes "valid_format f" and "\<And>n. mf_width f = Some n \<Longrightarrow> n \<le> 16384"
    and "\<And>n. mf_height f = Some n \<Longrightarrow> n \<le> 16384"
    and "\<And>n. mf_approx_bytes f = Some n \<Longrightarrow> n \<le> 10 ^ 12"
  shows "decode_fields (snapshot_payload f) (mf_format_option_id f) = Inr f"
proof -
  have tok: "safe_token (mf_format_option_id f)" "safe_token (mf_container f)" "safe_token (mf_quality_label f)"
    and nn: "non_negative (mf_width f) None" "non_negative (mf_height f) None"
      "non_negative (mf_fps f) (Some 240)" "non_negative (mf_approx_bytes f) None"
      "non_negative (mf_bitrate_kbps f) (Some 100000)"
    using assms(1) by (simp_all add: valid_format_def)
  have strs: "require_string (JStr (mf_format_option_id f)) = Inr (mf_format_option_id f)"
    "require_string (JStr (mf_container f)) = Inr (mf_container f)"
    "require_string (JStr (mf_quality_label f)) = Inr (mf_quality_label f)"
    using tok by (simp_all add: require_string_token)
  have ints: "require_optional_int 16384 (opt_int_json (mf_width f)) = Inr (mf_width f)"
    "require_optional_int 16384 (opt_int_json (mf_height f)) = Inr (mf_height f)"
    "require_optional_int 1000000000000 (opt_int_json (mf_approx_bytes f)) = Inr (mf_approx_bytes f)"
    "require_optional_int 100000 (opt_int_json (mf_bitrate_kbps f)) = Inr (mf_bitrate_kbps f)"
    using nn assms(2-4) by (auto intro!: require_optional_int_json simp: non_negative_def split: option.splits)
  have fl: "require_optional_float 240 (case mf_fps f of None \<Rightarrow> JNull | Some x \<Rightarrow> JFloat x) = Inr (mf_fps f)"
    using nn(3) by (auto simp: require_optional_float_def non_negative_def split: option.splits)
  show ?thesis
    using assms(1) unfolding decode_fields_def
    by (simp add: snapshot_lookups strs ints fl require_enum_values require_bool_def Let_def; cases f; simp)
qed

lemma format_snapshot_roundtrip_core:
  assumes "valid_format f" and "\<And>n. mf_width f = Some n \<Longrightarrow> n \<le> 16384"
    and "\<And>n. mf_height f = Some n \<Longrightarrow> n \<le> 16384"
    and "\<And>n. mf_approx_bytes f = Some n \<Longrightarrow> n \<le> 10 ^ 12"
    and "encode_selected_format_snapshot py max_bytes f = Inr obj"
  shows "decode_selected_format_snapshot py max_bytes (JObj obj) (mf_format_option_id f) = Inr f"
proof -
  have obj: "obj = snapshot_payload f" and size: "\<not> json_size py (JObj (snapshot_payload f)) > max_bytes"
    using assms(5) by (auto simp: encode_selected_format_snapshot_def Let_def split: if_splits)
  have "reject_keys (snapshot_payload f) = Inr ()"
    unfolding reject_keys_def snapshot_payload_keys by (rule snapshot_keys_accepted)
  moreover have "same_keys (snapshot_payload f) SNAPSHOT_KEYS"
    by (simp only: same_keys_def snapshot_payload_keys)
  ultimately show ?thesis
    using decode_fields_payload [OF assms(1-4)] size
    by (simp add: decode_selected_format_snapshot_def obj)
qed

text \<open>C1. A stored format snapshot gives back the very format it was made from: whenever a valid
  format within the decoder's bounds can be encoded, decoding the encoding for its option id
  succeeds and returns it, every field included.\<close>

theorem format_snapshot_roundtrip:
  assumes "valid_format f" and "\<And>n. mf_width f = Some n \<Longrightarrow> n \<le> 16384"
    and "\<And>n. mf_height f = Some n \<Longrightarrow> n \<le> 16384"
    and "\<And>n. mf_approx_bytes f = Some n \<Longrightarrow> n \<le> 10 ^ 12"
    and "encode_selected_format_snapshot py max_bytes f = Inr obj"
  shows "decode_selected_format_snapshot py max_bytes (JObj obj) (mf_format_option_id f) = Inr f"
  using assms by (rule format_snapshot_roundtrip_core)

text \<open>A library instance for the witnesses: a time or a uuid is written in unary.\<close>

definition sample_pylib :: pylib where
  "sample_pylib = \<lparr>iso_z = (\<lambda>t. (if t < 0 then CHR ''-'' else CHR ''+'') # replicate (nat \<bar>t\<bar>) CHR ''1''),
     parse_iso = (\<lambda>s. case s of [] \<Rightarrow> None | c # cs \<Rightarrow>
        Some (Some (if c = CHR ''-'' then - int (length cs) else int (length cs)))),
     uuid_str = (\<lambda>u. replicate u CHR ''1''),
     uuid_of = (\<lambda>v. case v of JStr s \<Rightarrow> Some (length s) | _ \<Rightarrow> None),
     json_size = (\<lambda>_. 0)\<rparr>"

lemma sample_pylib_laws: "pylib_laws sample_pylib"
  by (simp add: pylib_laws_def sample_pylib_def)

definition sample_format :: MediaFormat where
  "sample_format = \<lparr>mf_format_option_id = ''f18'', mf_container = ''mp4'', mf_width = Some 640,
     mf_height = Some 360, mf_fps = Some 30, mf_has_video = True, mf_has_audio = True,
     mf_category = PROGRESSIVE, mf_video_codec = AVC, mf_audio_codec = AAC,
     mf_approx_bytes = None, mf_quality_label = ''p360'', mf_free_tier_eligible = True,
     mf_media_kind = NORMAL_VIDEO, mf_requires_premium = False, mf_bitrate_kbps = Some 500\<rparr>"

lemma sample_format_valid: "valid_format sample_format"
  by (simp add: valid_format_def sample_format_def safe_token_def lower_ascii_def digit_ascii_def
      non_negative_def)

lemma sample_format_encodes:
  "encode_selected_format_snapshot sample_pylib 4096 f = Inr (snapshot_payload f)"
  unfolding encode_selected_format_snapshot_def Let_def same_keys_def snapshot_payload_keys
  by (simp add: sample_pylib_def)

theorem format_snapshot_roundtrip_witness:
  "decode_selected_format_snapshot sample_pylib 4096 (JObj (snapshot_payload sample_format)) ''f18'' =
     Inr sample_format"
  using format_snapshot_roundtrip [of sample_format sample_pylib 4096, OF sample_format_valid _ _ _
      sample_format_encodes]
  by (simp add: sample_format_def)

section \<open>Round trip of the policy snapshot\<close>

lemma jget_jset: "jget k (jset k v obj) = v"
proof (cases "k \<in> fst ` set obj")
  case True
  have "k \<in> fst ` set obj \<Longrightarrow>
      map_of (map (\<lambda>(k', v'). if k' = k then (k, v) else (k', v')) obj) k = Some v"
    by (induction obj) auto
  with True show ?thesis by (simp add: jget_def jset_def)
next
  case False
  then have "map_of obj k = None" by (simp add: map_of_eq_None_iff)
  with False show ?thesis by (simp add: jget_def jset_def map_add_def)
qed

lemma strip_jset: "strip_effective_policy_snapshot (jset POLICY_KEY v obj) = strip_effective_policy_snapshot obj"
proof -
  have "filter (\<lambda>(k, _). k \<noteq> POLICY_KEY)
      (map (\<lambda>(k', v'). if k' = POLICY_KEY then (POLICY_KEY, v) else (k', v')) obj) =
      filter (\<lambda>(k, _). k \<noteq> POLICY_KEY) obj"
    by (induction obj) auto
  then show ?thesis by (simp add: strip_effective_policy_snapshot_def jset_def)
qed

lemma policy_payload_lookups:
  "jget ''tier'' (policy_payload py p i) = JStr (edp_tier p)"
  "jget ''downloadLimit'' (policy_payload py p i) = opt_int_json (edp_download_limit p)"
  "jget ''quotaWindowSeconds'' (policy_payload py p i) = opt_int_json (edp_quota_window_seconds p)"
  "jget ''deliveryRateBytesPerSecond'' (policy_payload py p i) =
     opt_int_json (edp_delivery_rate_bytes_per_second p)"
  "jget ''premiumExpiresAt'' (policy_payload py p i) =
     (case edp_premium_expires_at p of None \<Rightarrow> JNull | Some t \<Rightarrow> JStr (iso_z py t))"
  "jget ''allowCombined'' (policy_payload py p i) = JBool (edp_allow_combined p)"
  "jget ''allowAudioOnly'' (policy_payload py p i) = JBool (edp_allow_audio_only p)"
  "jget ''allowVideoOnly'' (policy_payload py p i) = JBool (edp_allow_video_only p)"
  "jget ''authorizedIdentityId'' (policy_payload py p i) =
     (case i of None \<Rightarrow> JNull | Some u \<Rightarrow> JStr (uuid_str py u))"
  by (simp_all add: jget_def policy_payload_def)

lemma policy_payload_keys:
  "same_keys (policy_payload py p i) POLICY_KEYS" "\<not> same_keys (policy_payload py p i) LEGACY_POLICY_KEYS"
proof -
  have keys: "map fst (policy_payload py p i) = POLICY_KEYS"
    by (simp add: policy_payload_def POLICY_KEYS_def LEGACY_POLICY_KEYS_def)
  then show "same_keys (policy_payload py p i) POLICY_KEYS" by (simp only: same_keys_def)
  have "''allowCombined'' \<in> set POLICY_KEYS" "''allowCombined'' \<notin> set LEGACY_POLICY_KEYS"
    by (simp_all add: POLICY_KEYS_def LEGACY_POLICY_KEYS_def)
  then show "\<not> same_keys (policy_payload py p i) LEGACY_POLICY_KEYS"
    unfolding same_keys_def keys by metis
qed

lemma opt_int_json_simps [simp]:
  "opt_int_json v = JNull \<longleftrightarrow> v = None" "int_of_json (opt_int_json v) = v"
  by (auto simp: opt_int_json_def int_of_json_def split: option.splits)

lemma decode_policy_payload:
  assumes "pylib_laws py" and "jget POLICY_KEY obj = JObj (policy_payload py p i)"
    and "decode_effective_policy_snapshot py (JObj obj) = Inr x"
  shows "x = Some p"
proof -
  note dec = assms(3) [unfolded decode_effective_policy_snapshot_def json.case assms(2)]
  consider (free) "edp_tier p = ''free''" | (premium) "edp_tier p = ''premium''"
    using dec by (auto simp: policy_payload_keys policy_payload_lookups is_bool_def Let_def split: if_splits)
  then show ?thesis
  proof cases
    case free
    with dec show ?thesis
      by (auto simp: policy_payload_keys policy_payload_lookups is_bool_def Let_def
          decode_free_policy_def split: if_splits option.splits)
  next
    case premium
    then have pr: "decode_premium_policy py (policy_payload py p i) False (JBool (edp_allow_combined p))
        (JBool (edp_allow_audio_only p)) (JBool (edp_allow_video_only p))
        (case i of None \<Rightarrow> JNull | Some u \<Rightarrow> JStr (uuid_str py u)) = Inr x"
      using dec by (simp add: policy_payload_keys policy_payload_lookups is_bool_def Let_def)
    then have n: "edp_download_limit p = None" "edp_quota_window_seconds p = None"
      "edp_delivery_rate_bytes_per_second p = None" "edp_allow_combined p"
      by (auto simp: decode_premium_policy_def policy_payload_lookups split: if_splits)
    obtain t where t: "edp_premium_expires_at p = Some t"
      using pr n by (cases "edp_premium_expires_at p") (auto simp: decode_premium_policy_def policy_payload_lookups)
    have "parse_iso py (iso_z py t) = Some (Some t)" using assms(1) by (simp add: pylib_laws_def)
    with pr n t premium show ?thesis
      by (auto simp: decode_premium_policy_def policy_payload_lookups split: if_splits)
  qed
qed

lemma policy_snapshot_decodes:
  assumes "pylib_laws py" and "attach_effective_policy_snapshot py obj p identity = Inr result"
  shows "decode_effective_policy_snapshot py (JObj result) = Inr (Some p) \<and>
     strip_effective_policy_snapshot result = strip_effective_policy_snapshot obj \<and>
     (edp_tier p = ''premium'' \<longrightarrow> decode_authorized_identity_id py (JObj result) = Inr identity)"
proof -
  from assms(2) obtain x where r: "result = jset POLICY_KEY (JObj (policy_payload py p identity)) obj"
    and dec: "decode_effective_policy_snapshot py (JObj result) = Inr x"
    by (auto simp: attach_effective_policy_snapshot_def Let_def andThen_eq_Inr split: if_splits)
  have pk: "jget POLICY_KEY result = JObj (policy_payload py p identity)" by (simp add: r jget_jset)
  have x: "x = Some p" by (rule decode_policy_payload [OF assms(1) pk dec])
  have "decode_authorized_identity_id py (JObj result) = Inr identity" if "edp_tier p = ''premium''"
  proof (cases identity)
    case None
    then show ?thesis
      using dec x that by (simp add: decode_authorized_identity_id_def pk policy_payload_lookups)
  next
    case (Some u)
    moreover have "uuid_of py (JStr (uuid_str py u)) = Some u" using assms(1) by (simp add: pylib_laws_def)
    ultimately show ?thesis
      using dec x that by (simp add: decode_authorized_identity_id_def pk policy_payload_lookups)
  qed
  with dec x show ?thesis by (simp add: r strip_jset)
qed

text \<open>The policy a job was authorized under survives storage: when attaching a policy and the
  identity to a snapshot succeeds, decoding the result gives exactly that policy, the format part
  is unchanged, and a Premium job gives back exactly the identity it was bound to.\<close>

theorem policy_snapshot_roundtrip:
  assumes "pylib_laws py" and "attach_effective_policy_snapshot py obj p identity = Inr result"
  shows "decode_effective_policy_snapshot py (JObj result) = Inr (Some p) \<and>
     strip_effective_policy_snapshot result = strip_effective_policy_snapshot obj \<and>
     (edp_tier p = ''premium'' \<longrightarrow> decode_authorized_identity_id py (JObj result) = Inr identity)"
  by (rule policy_snapshot_decodes [OF assms])

definition sample_premium_policy :: EffectiveDownloadPolicy where
  "sample_premium_policy = \<lparr>edp_tier = ''premium'', edp_download_limit = None,
     edp_quota_window_seconds = None, edp_delivery_rate_bytes_per_second = None,
     edp_premium_expires_at = Some 3, edp_allow_combined = True,
     edp_allow_audio_only = True, edp_allow_video_only = True\<rparr>"

lemma sample_policy_decodes:
  assumes "jget POLICY_KEY obj = JObj (policy_payload sample_pylib sample_premium_policy (Some 2))"
  shows "decode_effective_policy_snapshot sample_pylib (JObj obj) = Inr (Some sample_premium_policy)"
  using assms
  by (simp add: decode_effective_policy_snapshot_def policy_payload_keys policy_payload_lookups
      is_bool_def decode_premium_policy_def sample_premium_policy_def sample_pylib_def opt_int_json_def)

lemma sample_policy_attaches:
  "attach_effective_policy_snapshot sample_pylib (snapshot_payload sample_format)
     sample_premium_policy (Some 2) =
   Inr (jset POLICY_KEY (JObj (policy_payload sample_pylib sample_premium_policy (Some 2)))
          (snapshot_payload sample_format))"
proof -
  have id: "jget ''formatOptionId'' (snapshot_payload sample_format) = JStr (mf_format_option_id sample_format)"
    by (simp add: jget_def snapshot_payload_def)
  have small: "json_size sample_pylib v = 0" for v by (simp add: sample_pylib_def)
  have "decode_selected_format_snapshot sample_pylib 4096 (JObj (snapshot_payload sample_format))
      (mf_format_option_id sample_format) = Inr sample_format"
    by (rule format_snapshot_roundtrip_core [OF sample_format_valid _ _ _ sample_format_encodes])
      (simp_all add: sample_format_def)
  then show ?thesis
    by (simp add: attach_effective_policy_snapshot_def id Let_def small
        sample_policy_decodes jget_jset)
qed

theorem policy_snapshot_roundtrip_witness:
  "decode_authorized_identity_id sample_pylib (JObj (jset POLICY_KEY
     (JObj (policy_payload sample_pylib sample_premium_policy (Some 2)))
     (snapshot_payload sample_format))) = Inr (Some 2)"
  using policy_snapshot_roundtrip [OF sample_pylib_laws sample_policy_attaches]
  by (simp add: sample_premium_policy_def)

end
