(* ===== verification/Text.thy ===== *)
theory Text
  imports Domain_Errors
begin

text \<open>
  Python's \<open>str\<close> methods on the strings a header or a path can hold. A header is decoded as
  latin-1, so a character is one of 256 code points, which is HOL's \<open>char\<close>.
\<close>

section \<open>Strip and split\<close>

abbreviation code :: "char \<Rightarrow> nat" where
  "code c \<equiv> of_char c"

text \<open>\<open>str.isspace\<close> of a latin-1 character.\<close>

definition is_space :: "char \<Rightarrow> bool" where
  "is_space c \<longleftrightarrow> code c \<in> {9, 10, 11, 12, 13, 28, 29, 30, 31, 32, 133, 160}"

definition lstrip :: "string \<Rightarrow> string" where
  "lstrip s = dropWhile is_space s"

definition rstrip :: "string \<Rightarrow> string" where
  "rstrip s = rev (dropWhile is_space (rev s))"

definition strip :: "string \<Rightarrow> string" where
  "strip s = rstrip (lstrip s)"

text \<open>\<open>s.split(c)\<close> and \<open>s.split(c, 1)\<close>, the latter when \<open>c\<close> occurs.\<close>

fun split_on :: "char \<Rightarrow> string \<Rightarrow> string list" where
  "split_on c [] = [[]]"
| "split_on c (x # xs) =
     (if x = c then [] # split_on c xs
      else (case split_on c xs of [] \<Rightarrow> [[x]] | y # ys \<Rightarrow> (x # y) # ys))"

definition split_once :: "char \<Rightarrow> string \<Rightarrow> string \<times> string" where
  "split_once c s = (takeWhile (\<lambda>x. x \<noteq> c) s, drop 1 (dropWhile (\<lambda>x. x \<noteq> c) s))"

definition starts_with :: "string \<Rightarrow> string \<Rightarrow> bool" where
  "starts_with prefix s \<longleftrightarrow> take (length prefix) s = prefix"

definition ends_with :: "string \<Rightarrow> string \<Rightarrow> bool" where
  "ends_with suffix s \<longleftrightarrow> length suffix \<le> length s \<and> drop (length s - length suffix) s = suffix"

text \<open>\<open>str.lower\<close>: ASCII letters and the latin-1 capitals.\<close>

definition lower_char :: "char \<Rightarrow> char" where
  "lower_char c = (if (65 \<le> code c \<and> code c \<le> 90) \<or> (192 \<le> code c \<and> code c \<le> 222 \<and> code c \<noteq> 215)
                   then char_of (code c + 32) else c)"

definition lower :: "string \<Rightarrow> string" where
  "lower s = map lower_char s"

lemma dropWhile_hd: "xs \<noteq> [] \<Longrightarrow> \<not> P (hd xs) \<Longrightarrow> dropWhile P xs = xs"
  by (cases xs) auto

lemma strip_id: "s \<noteq> [] \<Longrightarrow> \<not> is_space (hd s) \<Longrightarrow> \<not> is_space (last s) \<Longrightarrow> strip s = s"
  by (simp add: strip_def lstrip_def rstrip_def dropWhile_hd hd_rev)

lemma strip_no_space: "list_all (\<lambda>c. \<not> is_space c) s \<Longrightarrow> strip s = s"
  by (cases "s = []") (auto simp: strip_def lstrip_def rstrip_def list_all_iff dropWhile_hd hd_rev)

lemma strip_all: "\<forall>c \<in> set s. \<not> is_space c \<Longrightarrow> strip s = s"
  by (rule strip_no_space) (simp add: list_all_iff)

lemma split_on_none: "c \<notin> set s \<Longrightarrow> split_on c s = [s]"
  by (induction s) auto

lemma split_once_append: "c \<notin> set a \<Longrightarrow> split_once c (a @ c # b) = (a, b)"
  by (subgoal_tac "\<forall>x \<in> set a. x \<noteq> c") (auto simp: split_once_def takeWhile_append2 dropWhile_append2)

section \<open>Decimal numbers\<close>

definition digit_value :: "char \<Rightarrow> int" where
  "digit_value c = int (code c) - 48"

text \<open>\<open>str.isdigit\<close> also holds of the superscripts one, two and three.\<close>

definition isdigit_char :: "char \<Rightarrow> bool" where
  "isdigit_char c \<longleftrightarrow> digit_ascii c \<or> code c \<in> {178, 179, 185}"

definition isdigit :: "string \<Rightarrow> bool" where
  "isdigit s \<longleftrightarrow> s \<noteq> [] \<and> list_all isdigit_char s"

definition decimal_value :: "string \<Rightarrow> int" where
  "decimal_value s = foldl (\<lambda>a c. 10 * a + digit_value c) 0 s"

text \<open>\<open>int(s)\<close> of a string that passed \<open>isdigit\<close>: the superscripts are no decimal digits.\<close>

definition int_of_digits :: "string \<Rightarrow> int res" where
  "int_of_digits s = (if list_all digit_ascii s then Inr (decimal_value s)
                      else Inl (ValueError ''invalid literal for int() with base 10''))"

text \<open>\<open>str(n)\<close> of a natural number.\<close>

fun show_nat :: "nat \<Rightarrow> string" where
  "show_nat n = (if n < 10 then [char_of (48 + n)] else show_nat (n div 10) @ [char_of (48 + n mod 10)])"

declare show_nat.simps [simp del]

text \<open>\<open>str\<close> of an integer\<close>

definition show_int :: "int \<Rightarrow> string" where
  "show_int n = (if n < 0 then CHR ''-'' # show_nat (nat (- n)) else show_nat (nat n))"

lemma code_digit: "n < 10 \<Longrightarrow> code (char_of (48 + n)) = 48 + n"
  by simp

lemma show_nat_digits: "list_all digit_ascii (show_nat n)"
proof (induction n rule: show_nat.induct)
  case (1 n)
  show ?case
  proof (cases "n < 10")
    case True
    then show ?thesis using code_digit [of n] by (simp add: show_nat.simps [of n] digit_ascii_def)
  next
    case False
    have "n mod 10 < 10" by simp
    with False 1 code_digit [of "n mod 10"] show ?thesis
      by (simp add: show_nat.simps [of n] digit_ascii_def)
  qed
qed

lemma show_nat_nonempty: "show_nat n \<noteq> []"
  by (subst show_nat.simps) simp

lemma show_nat_value: "decimal_value (show_nat n) = int n"
proof (induction n rule: show_nat.induct)
  case (1 n)
  show ?case
  proof (cases "n < 10")
    case True
    then show ?thesis
      using code_digit [of n] by (simp add: show_nat.simps [of n] decimal_value_def digit_value_def)
  next
    case False
    have "n mod 10 < 10" by simp
    then have "code (char_of (48 + n mod 10)) = 48 + n mod 10" by (rule code_digit)
    moreover have "int n = 10 * int (n div 10) + int (n mod 10)" by presburger
    ultimately show ?thesis
      using False 1 by (simp add: show_nat.simps [of n] decimal_value_def digit_value_def)
  qed
qed

lemma isdigit_show_nat: "isdigit (show_nat n)"
  using show_nat_digits [of n] show_nat_nonempty [of n]
  by (auto simp: isdigit_def isdigit_char_def list_all_iff)

lemma int_of_show_nat: "int_of_digits (show_nat n) = Inr (int n)"
  by (simp add: int_of_digits_def show_nat_digits show_nat_value)

lemma decimal_value_nonneg: "list_all digit_ascii s \<Longrightarrow> 0 \<le> decimal_value s"
proof (induction s rule: rev_induct)
  case (snoc c s)
  then show ?case by (simp add: decimal_value_def digit_value_def digit_ascii_def)
qed (simp add: decimal_value_def)

lemma int_of_digits_nonneg: "int_of_digits s = Inr n \<Longrightarrow> 0 \<le> n"
  by (auto simp: int_of_digits_def decimal_value_nonneg split: if_splits)

end
