(* ===== verification/Filename.thy ===== *)
theory Filename
  imports Snapshot Text
begin

text \<open>
  The attachment names the server derives from media titles (\<open>downloads/filename.py\<close>). Titles are
  Unicode: a text of this theory is the list of its code points. The Unicode database
  (\<open>unicodedata\<close> and the classifying methods of \<open>str\<close>) is the record \<open>unidb\<close>.
\<close>

type_synonym codepoints = "nat list"

definition cps :: "string \<Rightarrow> codepoints" where
  "cps s = map of_char s"

text \<open>
  \<open>nfc\<close> is \<open>unicodedata.normalize\<close> to NFC, \<open>is_other\<close> holds when the general category starts with C,
  \<open>is_white\<close> is \<open>str.isspace\<close> of one character (which is also the class \<open>\s\<close>), \<open>upper\<close> is \<open>str.upper\<close>,
  \<open>dec_digit\<close> the value of a decimal digit of any script (which \<open>int()\<close> reads).
\<close>

record unidb =
  nfc :: "codepoints \<Rightarrow> codepoints"
  is_other :: "nat \<Rightarrow> bool"
  is_white :: "nat \<Rightarrow> bool"
  upper :: "codepoints \<Rightarrow> codepoints"
  dec_digit :: "nat \<Rightarrow> nat option"

text \<open>What the code relies on: the controls have category Cc, the blank is white space and no
  control, ASCII is stable under NFC and only its ten digits are decimal.\<close>

definition unidb_laws :: "unidb \<Rightarrow> bool" where
  "unidb_laws u \<longleftrightarrow>
     (\<forall>c. c < 32 \<or> 127 \<le> c \<and> c \<le> 159 \<longrightarrow> is_other u c) \<and>
     is_white u 32 \<and> \<not> is_other u 32 \<and>
     (\<forall>s. (\<forall>c \<in> set s. c < 128) \<longrightarrow> nfc u s = s) \<and>
     (\<forall>c < 128. dec_digit u c = (if 48 \<le> c \<and> c \<le> 57 then Some (c - 48) else None))"

section \<open>UTF-8\<close>

definition utf8_point :: "nat \<Rightarrow> bytes" where
  "utf8_point c =
     (if c < 128 then [c]
      else if c < 2048 then [192 + c div 64, 128 + c mod 64]
      else if c < 65536 then [224 + c div 4096, 128 + c div 64 mod 64, 128 + c mod 64]
      else [240 + c div 262144, 128 + c div 4096 mod 64, 128 + c div 64 mod 64, 128 + c mod 64])"

definition utf8_encode :: "codepoints \<Rightarrow> bytes" where
  "utf8_encode s = concat (map utf8_point s)"

text \<open>\<open>s.encode("utf-8")[:n].decode("utf-8", errors="ignore")\<close>: a character cut in two is dropped.\<close>

fun take_utf8 :: "nat \<Rightarrow> codepoints \<Rightarrow> codepoints" where
  "take_utf8 n [] = []"
| "take_utf8 n (c # s) =
     (if length (utf8_point c) \<le> n then c # take_utf8 (n - length (utf8_point c)) s else [])"

text \<open>Strict decoding: the bytes must be the encoding of Unicode scalar values.\<close>

fun utf8_points :: "bytes \<Rightarrow> codepoints" where
  "utf8_points (a # s) =
     (if a < 128 then a # utf8_points s
      else if a < 224 then
        (case s of b # t \<Rightarrow> ((a - 192) * 64 + (b - 128)) # utf8_points t | _ \<Rightarrow> [])
      else if a < 240 then
        (case s of b # c # t \<Rightarrow> ((a - 224) * 4096 + (b - 128) * 64 + (c - 128)) # utf8_points t | _ \<Rightarrow> [])
      else
        (case s of b # c # e # t \<Rightarrow>
           ((a - 240) * 262144 + (b - 128) * 4096 + (c - 128) * 64 + (e - 128)) # utf8_points t | _ \<Rightarrow> []))"
| "utf8_points [] = []"

definition scalar_value :: "nat \<Rightarrow> bool" where
  "scalar_value c \<longleftrightarrow> c < 0x110000 \<and> \<not> (0xD800 \<le> c \<and> c \<le> 0xDFFF)"

definition utf8_decode :: "bytes \<Rightarrow> codepoints option" where
  "utf8_decode s = (let p = utf8_points s in if list_all scalar_value p \<and> utf8_encode p = s then Some p else None)"

section \<open>Stems\<close>

definition BIDI :: "nat set" where
  "BIDI = {0x061C, 0x200E, 0x200F, 0x202A, 0x202B, 0x202C, 0x202D, 0x202E, 0x2066, 0x2067, 0x2068, 0x2069}"

definition FORBIDDEN :: "nat set" where
  "FORBIDDEN = set (cps [CHR 0x5C, CHR ''/'', CHR '':'', CHR ''*'', CHR ''?'', CHR 0x22, CHR ''<'', CHR ''>'',
     CHR ''|'']) \<union> {0}"

definition RESERVED :: "codepoints set" where
  "RESERVED = set (map cps ([''CON'', ''PRN'', ''AUX'', ''NUL''] @
     map (\<lambda>i. ''COM'' @ [i]) ''123456789'' @ map (\<lambda>i. ''LPT'' @ [i]) ''123456789''))"

definition MAX_STEM_CHARS :: nat where "MAX_STEM_CHARS = 80"
definition MAX_STEM_UTF8_BYTES :: nat where "MAX_STEM_UTF8_BYTES = 180"
definition MAX_FILENAME_CHARS :: nat where "MAX_FILENAME_CHARS = 255"
definition MAX_FILENAME_UTF8_BYTES :: nat where "MAX_FILENAME_UTF8_BYTES = 240"

text \<open>\<open>strip(" .")\<close> and \<open>rstrip(" .")\<close>\<close>

definition blank_or_dot :: "nat \<Rightarrow> bool" where
  "blank_or_dot c \<longleftrightarrow> c = 32 \<or> c = 46"

definition rstrip_dots :: "codepoints \<Rightarrow> codepoints" where
  "rstrip_dots s = rev (dropWhile blank_or_dot (rev s))"

definition strip_dots :: "codepoints \<Rightarrow> codepoints" where
  "strip_dots s = rstrip_dots (dropWhile blank_or_dot s)"

text \<open>\<open>re.sub(r"\s+", " ", s)\<close>\<close>

function collapse_white :: "(nat \<Rightarrow> bool) \<Rightarrow> codepoints \<Rightarrow> codepoints" where
  "collapse_white white [] = []"
| "collapse_white white (c # s) =
     (if white c then 32 # collapse_white white (dropWhile white s) else c # collapse_white white s)"
  by pat_completeness auto
termination
  by (relation "measure (\<lambda>(_, s). length s)") (auto simp: less_Suc_eq_le length_dropWhile_le)

definition clean_char :: "unidb \<Rightarrow> nat \<Rightarrow> codepoints" where
  "clean_char u c =
     (if c \<in> BIDI \<or> c \<in> FORBIDDEN then []
      else if is_other u c then []
      else if is_white u c then [32]
      else [c])"

definition is_control :: "nat \<Rightarrow> bool" where
  "is_control c \<longleftrightarrow> c \<le> 31 \<or> 127 \<le> c \<and> c \<le> 159"

definition collapsed_stem :: "unidb \<Rightarrow> codepoints \<Rightarrow> codepoints" where
  "collapsed_stem u raw =
     filter (\<lambda>c. \<not> is_control c)
       (strip_dots (collapse_white (is_white u) (concat (map (clean_char u) (nfc u raw)))))"

definition dots_only :: "codepoints \<Rightarrow> bool" where
  "dots_only s \<longleftrightarrow> s = [] \<or> s = [46] \<or> s = [46, 46]"

definition truncate_stem :: "codepoints \<Rightarrow> codepoints" where
  "truncate_stem s =
     (let a = (if length s > MAX_STEM_CHARS then rstrip_dots (take MAX_STEM_CHARS s) else s)
      in if length (utf8_encode a) > MAX_STEM_UTF8_BYTES
         then rstrip_dots (take_utf8 MAX_STEM_UTF8_BYTES a) else a)"

definition sanitize_stem :: "unidb \<Rightarrow> codepoints option \<Rightarrow> codepoints option" where
  "sanitize_stem u raw =
     (case raw of
        None \<Rightarrow> None
      | Some title \<Rightarrow>
          let collapsed = collapsed_stem u title
          in if dots_only collapsed then None
             else if upper u (takeWhile (\<lambda>c. c \<noteq> 46) collapsed) \<in> RESERVED then None
             else let s = truncate_stem collapsed
                  in if dots_only s then None
                     else if upper u s \<in> RESERVED then None
                     else Some s)"

section \<open>Names\<close>

definition ALLOWED_CONTAINERS :: "string set" where
  "ALLOWED_CONTAINERS = {''mp4'', ''webm'', ''mkv'', ''m4a'', ''mp3'', ''ogg'', ''opus'', ''aac''}"

definition container_shape :: "string \<Rightarrow> bool" where
  "container_shape s \<longleftrightarrow> 2 \<le> length s \<and> length s \<le> 8 \<and> list_all (\<lambda>c. lower_ascii c \<or> digit_ascii c) s"

definition validated_container :: "string \<Rightarrow> string res" where
  "validated_container container =
     (let ext = lower (strip container)
      in if \<not> container_shape ext \<or> ext \<notin> ALLOWED_CONTAINERS then Inl (ValueError ''unsafe container'')
         else Inr ext)"

definition filename_bounds_ok :: "codepoints \<Rightarrow> bool" where
  "filename_bounds_ok name \<longleftrightarrow>
     name \<noteq> [] \<and> length name \<le> MAX_FILENAME_CHARS \<and>
     1 \<le> length (utf8_encode name) \<and> length (utf8_encode name) \<le> MAX_FILENAME_UTF8_BYTES"

definition with_ext :: "codepoints \<Rightarrow> string \<Rightarrow> codepoints" where
  "with_ext stem ext = stem @ [46] @ cps ext"

definition fallback_filename :: "pylib \<Rightarrow> uuid \<Rightarrow> string \<Rightarrow> codepoints res" where
  "fallback_filename py job_id container =
     andThen (validated_container container) (\<lambda>ext.
       Inr (with_ext (cps ''fetchnow-'' @ cps (uuid_str py job_id)) ext))"

fun kind_suffix :: "MediaKind \<Rightarrow> codepoints" where
  "kind_suffix NORMAL_VIDEO = []"
| "kind_suffix KIND_VIDEO_ONLY = cps ''-video''"
| "kind_suffix KIND_AUDIO_ONLY = cps ''-audio''"

definition suggested_filename_for ::
  "pylib \<Rightarrow> unidb \<Rightarrow> codepoints option \<Rightarrow> string \<Rightarrow> uuid \<Rightarrow> MediaKind \<Rightarrow> codepoints res" where
  "suggested_filename_for py u title container job_id media_kind =
     andThen (validated_container container) (\<lambda>ext.
     andThen (fallback_filename py job_id ext) (\<lambda>fallback.
       case sanitize_stem u title of
         None \<Rightarrow> Inr fallback
       | Some stem \<Rightarrow>
           (case (if kind_suffix media_kind = [] then Some stem
                  else sanitize_stem u (Some (stem @ kind_suffix media_kind))) of
              None \<Rightarrow> Inr fallback
            | Some stem' \<Rightarrow>
                let name = with_ext stem' ext
                in if filename_bounds_ok name then Inr name else Inr fallback)))"

text \<open>\<open>_UUID_FALLBACK\<close> with IGNORECASE, under which the class \<open>[a-z]\<close> has four letters more.\<close>

definition hex_lower :: "nat \<Rightarrow> bool" where
  "hex_lower c \<longleftrightarrow> 48 \<le> c \<and> c \<le> 57 \<or> 97 \<le> c \<and> c \<le> 102"

definition fold_case :: "nat \<Rightarrow> nat" where
  "fold_case c = (if 65 \<le> c \<and> c \<le> 90 then c + 32 else c)"

definition uuid_shape :: "codepoints \<Rightarrow> bool" where
  "uuid_shape s \<longleftrightarrow> length s = 36 \<and>
     (\<forall>i < 36. if i \<in> {8, 13, 18, 23} then s ! i = 45 else hex_lower (s ! i))"

definition uuid_fallback_form :: "codepoints \<Rightarrow> bool" where
  "uuid_fallback_form name \<longleftrightarrow>
     (let s = map fold_case name; rest = drop 45 s
      in take 9 s = cps ''fetchnow-'' \<and> uuid_shape (take 36 (drop 9 s)) \<and>
         take 1 rest = [46] \<and> 2 \<le> length (drop 1 rest) \<and> length (drop 1 rest) \<le> 8 \<and>
         (\<forall>c \<in> set (drop 1 rest). 48 \<le> c \<and> c \<le> 57 \<or> 97 \<le> c \<and> c \<le> 122 \<or>
            c \<in> {0x130, 0x131, 0x17F, 0x212A}))"

definition ends_with_ext :: "codepoints \<Rightarrow> string \<Rightarrow> bool" where
  "ends_with_ext name ext \<longleftrightarrow> length ext < length name \<and> drop (length name - Suc (length ext)) name = 46 # cps ext"

definition is_safe_suggested_filename :: "unidb \<Rightarrow> codepoints \<Rightarrow> string \<Rightarrow> bool res" where
  "is_safe_suggested_filename u name container =
     andThen (validated_container container) (\<lambda>ext.
       if \<not> ends_with_ext name ext then Inr False
       else if \<not> filename_bounds_ok name then Inr False
       else if (\<exists>c \<in> set name. c \<in> FORBIDDEN) \<or> 13 \<in> set name \<or> 10 \<in> set name then Inr False
       else
         let stem = take (length name - (length ext + 1)) name
         in if Some stem \<noteq> sanitize_stem u (Some stem) then Inr (uuid_fallback_form name)
            else Inr True)"

section \<open>The Content-Disposition header\<close>

definition is_ascii_token :: "codepoints \<Rightarrow> bool" where
  "is_ascii_token s \<longleftrightarrow> s \<noteq> [] \<and> (\<forall>c \<in> set s. 32 \<le> c \<and> c \<le> 126 \<and> c \<notin> {34, 92, 13, 10})"

definition ascii_filename_parameter :: "codepoints \<Rightarrow> codepoints \<Rightarrow> codepoints res" where
  "ascii_filename_parameter name fallback =
     (if is_ascii_token name then Inr name
      else if \<not> is_ascii_token fallback then Inl (ValueError ''unsafe ascii fallback'')
      else Inr fallback)"

text \<open>\<open>[A-Za-z0-9!#$&+\-.^_`|~]\<close>\<close>

definition attr_char :: "nat \<Rightarrow> bool" where
  "attr_char c \<longleftrightarrow> 65 \<le> c \<and> c \<le> 90 \<or> 97 \<le> c \<and> c \<le> 122 \<or> 48 \<le> c \<and> c \<le> 57 \<or>
     c \<in> set (cps ''!#$&+-.^_`|~'')"

definition HEX_code :: "nat \<Rightarrow> nat" where
  "HEX_code n = (if n < 10 then 48 + n else 55 + n)"

definition encode_rfc8187 :: "codepoints \<Rightarrow> codepoints" where
  "encode_rfc8187 v = cps ''UTF-8'' @ [39, 39] @
     concat (map (\<lambda>b. if attr_char b then [b] else [37, HEX_code (b div 16), HEX_code (b mod 16)]) (utf8_encode v))"

definition content_disposition_header :: "codepoints \<Rightarrow> codepoints \<Rightarrow> codepoints res" where
  "content_disposition_header filename ascii_fallback =
     andThen (ascii_filename_parameter filename ascii_fallback) (\<lambda>ascii_name.
       if \<exists>c \<in> set ascii_name. c \<in> {34, 92, 13, 10} then Inl (ValueError ''unsafe ascii filename'')
       else if \<exists>c \<in> set filename. c \<in> {13, 10, 0} then Inl (ValueError ''unsafe unicode filename'')
       else
         let header = cps ''attachment; filename='' @ [34] @ ascii_name @ [34] @
               cps ''; filename*='' @ encode_rfc8187 filename
         in if 13 \<in> set header \<or> 10 \<in> set header \<or> 0 \<in> set header then Inl (ValueError ''header injection'')
            else Inr header)"

text \<open>\<open>int(s, 16)\<close> of a text of two characters: a sign or a blank may take the place of a digit.\<close>

definition hex_digit_value :: "unidb \<Rightarrow> nat \<Rightarrow> nat option" where
  "hex_digit_value u c =
     (if 97 \<le> c \<and> c \<le> 102 then Some (c - 87) else if 65 \<le> c \<and> c \<le> 70 then Some (c - 55)
      else dec_digit u c)"

definition int_hex_pair :: "unidb \<Rightarrow> nat \<Rightarrow> nat \<Rightarrow> int option" where
  "int_hex_pair u a b =
     (case (hex_digit_value u a, hex_digit_value u b) of
        (Some x, Some y) \<Rightarrow> Some (16 * int x + int y)
      | (None, Some y) \<Rightarrow>
          if a = 43 \<or> is_white u a then Some (int y) else if a = 45 then Some (- int y) else None
      | (Some x, None) \<Rightarrow> if is_white u b then Some (int x) else None
      | (None, None) \<Rightarrow> None)"

fun percent_decode :: "unidb \<Rightarrow> codepoints \<Rightarrow> int list option" where
  "percent_decode u [] = Some []"
| "percent_decode u (c # s) =
     (if c = 37 then
        (case s of
           a # b # t \<Rightarrow>
             (case int_hex_pair u a b of
                None \<Rightarrow> None
              | Some n \<Rightarrow> (case percent_decode u t of None \<Rightarrow> None | Some ns \<Rightarrow> Some (n # ns)))
         | _ \<Rightarrow> None)
      else if \<not> attr_char c then None
      else (case percent_decode u s of None \<Rightarrow> None | Some ns \<Rightarrow> Some (int c # ns)))"

text \<open>\<open>bytes(pieces)\<close> rejects values outside a byte with an error that is not caught.\<close>

definition decode_rfc8187 :: "unidb \<Rightarrow> codepoints \<Rightarrow> codepoints option res" where
  "decode_rfc8187 u v =
     (if take 7 v \<noteq> cps ''UTF-8'' @ [39, 39] then Inr None
      else if drop 7 v = [] then Inr None
      else (case percent_decode u (drop 7 v) of
         None \<Rightarrow> Inr None
       | Some ns \<Rightarrow>
           if \<exists>n \<in> set ns. n < 0 \<or> 255 < n then Inl (ValueError ''bytes must be in range(0, 256)'')
           else Inr (utf8_decode (map nat ns))))"

section \<open>What a sanitized stem looks like\<close>

fun singles :: "(nat \<Rightarrow> bool) \<Rightarrow> codepoints \<Rightarrow> bool" where
  "singles white [] = True"
| "singles white (c # s) = ((white c \<longrightarrow> c = 32 \<and> (s = [] \<or> \<not> white (hd s))) \<and> singles white s)"

lemma singles_append: "singles w (a @ b) \<Longrightarrow> singles w a \<and> singles w b"
proof (induction a)
  case (Cons c a)
  then show ?case by (cases a) auto
qed simp

lemma collapse_hd: "s \<noteq> [] \<Longrightarrow> \<not> w (hd s) \<Longrightarrow> collapse_white w s = hd s # collapse_white w (tl s)"
  by (cases s) auto

lemma singles_collapse: "singles w (collapse_white w s)"
proof (induction w s rule: collapse_white.induct)
  case (2 w c s)
  show ?case
  proof (cases "w c")
    case True
    let ?r = "dropWhile w s"
    have "collapse_white w ?r = [] \<or> \<not> w (hd (collapse_white w ?r))"
    proof (cases "?r = []")
      case False
      then have "\<not> w (hd ?r)" by (rule hd_dropWhile)
      with collapse_hd [of ?r w] False show ?thesis by simp
    next
      case True
      then show ?thesis by (simp only: True collapse_white.simps) simp
    qed
    with True 2 show ?thesis by simp
  next
    case False
    with 2 show ?thesis by simp
  qed
qed simp

lemma collapse_singles: "singles w s \<Longrightarrow> collapse_white w s = s"
proof (induction s)
  case (Cons c s)
  show ?case
  proof (cases "w c")
    case True
    with Cons.prems have "dropWhile w s = s" by (cases s) auto
    with True Cons show ?thesis by simp
  next
    case False
    with Cons show ?thesis by simp
  qed
qed simp

lemma set_collapse: "set (collapse_white w s) \<subseteq> insert 32 (set s)"
  by (induction w s rule: collapse_white.induct) (auto dest: set_dropWhileD)

text \<open>Prefixes.\<close>

lemma rstrip_prefix: "\<exists>t. s = rstrip_dots s @ t"
  by (metis rstrip_dots_def rev_append rev_rev_ident takeWhile_dropWhile_id)

lemma rstrip_last: "rstrip_dots s \<noteq> [] \<Longrightarrow> \<not> blank_or_dot (last (rstrip_dots s))"
  using hd_dropWhile [of blank_or_dot "rev s"] by (simp add: rstrip_dots_def last_rev)

lemma rstrip_id: "s \<noteq> [] \<Longrightarrow> \<not> blank_or_dot (last s) \<Longrightarrow> rstrip_dots s = s"
  using dropWhile_hd [of "rev s" blank_or_dot] by (simp add: rstrip_dots_def hd_rev)

lemma take_utf8_prefix: "\<exists>t. s = take_utf8 n s @ t"
  by (induction n s rule: take_utf8.induct) auto

lemma utf8_encode_append: "utf8_encode (a @ b) = utf8_encode a @ utf8_encode b"
  by (simp add: utf8_encode_def)

lemma take_utf8_length: "length (utf8_encode (take_utf8 n s)) \<le> n"
  by (induction n s rule: take_utf8.induct) (auto simp: utf8_encode_def)

lemma prefix_facts:
  assumes "s = a @ t"
  shows "length a \<le> length s" "length (utf8_encode a) \<le> length (utf8_encode s)" "set a \<subseteq> set s"
    "singles w s \<Longrightarrow> singles w a" "a \<noteq> [] \<Longrightarrow> hd a = hd s"
  using assms by (simp_all add: utf8_encode_append) (blast dest: singles_append)

definition bounded_stem :: "codepoints \<Rightarrow> bool" where
  "bounded_stem s \<longleftrightarrow> length s \<le> MAX_STEM_CHARS \<and> length (utf8_encode s) \<le> MAX_STEM_UTF8_BYTES"

lemma truncate_facts:
  assumes "s \<noteq> []" and "\<not> blank_or_dot (last s)"
  shows "\<exists>t. s = truncate_stem s @ t" "bounded_stem (truncate_stem s)"
    "truncate_stem s \<noteq> [] \<Longrightarrow> \<not> blank_or_dot (last (truncate_stem s))"
proof -
  define a where "a = (if length s > MAX_STEM_CHARS then rstrip_dots (take MAX_STEM_CHARS s) else s)"
  have a_pre: "\<exists>t. s = a @ t"
  proof (cases "length s > MAX_STEM_CHARS")
    case True
    obtain t where "take MAX_STEM_CHARS s = rstrip_dots (take MAX_STEM_CHARS s) @ t" using rstrip_prefix by blast
    then have "s = rstrip_dots (take MAX_STEM_CHARS s) @ (t @ drop MAX_STEM_CHARS s)"
      by (metis append.assoc append_take_drop_id)
    with True show ?thesis by (auto simp: a_def)
  qed (simp add: a_def)
  obtain tk where "take MAX_STEM_CHARS s = rstrip_dots (take MAX_STEM_CHARS s) @ tk" using rstrip_prefix by blast
  from prefix_facts(1) [OF this] have a_len: "length a \<le> MAX_STEM_CHARS" by (simp add: a_def)
  have a_last: "a \<noteq> [] \<Longrightarrow> \<not> blank_or_dot (last a)" using assms(2) rstrip_last by (auto simp: a_def split: if_split_asm)
  define b where "b = (if length (utf8_encode a) > MAX_STEM_UTF8_BYTES
      then rstrip_dots (take_utf8 MAX_STEM_UTF8_BYTES a) else a)"
  have tb: "truncate_stem s = b" by (simp add: truncate_stem_def Let_def a_def b_def)
  obtain u v where uv: "take_utf8 MAX_STEM_UTF8_BYTES a = rstrip_dots (take_utf8 MAX_STEM_UTF8_BYTES a) @ u"
    "a = take_utf8 MAX_STEM_UTF8_BYTES a @ v" using rstrip_prefix take_utf8_prefix by metis
  have b_pre: "\<exists>t. a = b @ t"
  proof (cases "length (utf8_encode a) > MAX_STEM_UTF8_BYTES")
    case True
    have "a = rstrip_dots (take_utf8 MAX_STEM_UTF8_BYTES a) @ (u @ v)" using uv by (metis append.assoc)
    with True show ?thesis by (auto simp: b_def)
  qed (simp add: b_def)
  show "\<exists>t. s = truncate_stem s @ t" using a_pre b_pre by (auto simp: tb)
  have "length (utf8_encode b) \<le> MAX_STEM_UTF8_BYTES"
    using prefix_facts(2) [OF uv(1)] take_utf8_length [of MAX_STEM_UTF8_BYTES a] by (simp add: b_def)
  moreover obtain t where "a = b @ t" using b_pre by blast
  then have "length b \<le> MAX_STEM_CHARS" using prefix_facts(1) a_len by fastforce
  ultimately show "bounded_stem (truncate_stem s)" by (simp add: bounded_stem_def tb)
  show "\<not> blank_or_dot (last (truncate_stem s))" if "truncate_stem s \<noteq> []"
    using that a_last rstrip_last by (simp add: tb b_def split: if_split_asm)
qed

lemma truncate_id: "bounded_stem s \<Longrightarrow> truncate_stem s = s"
  by (simp add: truncate_stem_def bounded_stem_def Let_def)

definition settled_stem :: "unidb \<Rightarrow> codepoints \<Rightarrow> bool" where
  "settled_stem u s \<longleftrightarrow>
     (\<forall>c \<in> set s. clean_char u c = [c]) \<and> singles (is_white u) s \<and>
     s \<noteq> [] \<and> \<not> blank_or_dot (hd s) \<and> \<not> blank_or_dot (last s) \<and> bounded_stem s \<and>
     upper u s \<notin> RESERVED \<and> upper u (takeWhile (\<lambda>c. c \<noteq> 46) s) \<notin> RESERVED"

lemma clean_char_fix: "unidb_laws u \<Longrightarrow> d \<in> set (clean_char u c) \<Longrightarrow> clean_char u d = [d]"
  by (auto simp: clean_char_def unidb_laws_def BIDI_def FORBIDDEN_def cps_def split: if_split_asm)

lemma clean_no_control: "unidb_laws u \<Longrightarrow> clean_char u c = [c] \<Longrightarrow> \<not> is_control c"
  by (auto simp: clean_char_def is_control_def unidb_laws_def split: if_split_asm)

lemma strip_parts:
  obtains a b where "s = a @ strip_dots s @ b" and "strip_dots s \<noteq> [] \<longrightarrow> \<not> blank_or_dot (hd (strip_dots s))"
    and "strip_dots s \<noteq> [] \<longrightarrow> \<not> blank_or_dot (last (strip_dots s))"
proof -
  let ?d = "dropWhile blank_or_dot s"
  obtain b where b: "?d = rstrip_dots ?d @ b" using rstrip_prefix by blast
  have "s = takeWhile blank_or_dot s @ strip_dots s @ b" by (metis b strip_dots_def takeWhile_dropWhile_id)
  moreover have "\<not> blank_or_dot (hd (strip_dots s))" if "strip_dots s \<noteq> []"
  proof -
    have "hd (rstrip_dots ?d) = hd ?d" using that prefix_facts(5) [OF b] by (simp add: strip_dots_def)
    moreover have "?d \<noteq> []" using that by (cases "?d = []") (simp_all add: strip_dots_def rstrip_dots_def)
    ultimately show ?thesis using hd_dropWhile [of blank_or_dot s] by (simp add: strip_dots_def)
  qed
  ultimately show thesis using that rstrip_last [of ?d] by (simp add: strip_dots_def)
qed

lemma sanitize_settled:
  assumes laws: "unidb_laws u" and run: "sanitize_stem u r = Some s"
  shows "settled_stem u s"
proof -
  obtain title where r: "r = Some title" using run by (cases r) (auto simp: sanitize_stem_def)
  define w where "w = collapse_white (is_white u) (concat (map (clean_char u) (nfc u title)))"
  define c where "c = collapsed_stem u title"
  have cw: "c = filter (\<lambda>c. \<not> is_control c) (strip_dots w)" by (simp add: c_def collapsed_stem_def w_def)
  have s: "s = truncate_stem c" and nd: "\<not> dots_only c" "\<not> dots_only s"
    and res: "upper u (takeWhile (\<lambda>c. c \<noteq> 46) c) \<notin> RESERVED" "upper u s \<notin> RESERVED"
    using run by (auto simp: sanitize_stem_def r Let_def c_def split: if_split_asm)
  have w_clean: "clean_char u x = [x]" if "x \<in> set w" for x
  proof -
    have "clean_char u 32 = [32]" using laws by (simp add: clean_char_def unidb_laws_def BIDI_def FORBIDDEN_def cps_def)
    moreover have "x = 32 \<or> (\<exists>y. x \<in> set (clean_char u y))" using that set_collapse by (fastforce simp: w_def)
    ultimately show ?thesis using clean_char_fix [OF laws] by blast
  qed
  obtain a b where ab: "w = a @ strip_dots w @ b"
    and ends: "strip_dots w \<noteq> [] \<longrightarrow> \<not> blank_or_dot (hd (strip_dots w))"
      "strip_dots w \<noteq> [] \<longrightarrow> \<not> blank_or_dot (last (strip_dots w))" by (rule strip_parts [of w])
  have "\<forall>x \<in> set (strip_dots w). \<not> is_control x"
    using w_clean clean_no_control [OF laws] ab by (metis Un_iff set_append)
  then have c: "c = strip_dots w" unfolding cw by (rule filter_True)
  have "singles (is_white u) w" unfolding w_def by (rule singles_collapse)
  then have single: "singles (is_white u) c" using ab singles_append c by metis
  have ne: "c \<noteq> []" using nd(1) by (auto simp: dots_only_def)
  have c_ends: "\<not> blank_or_dot (hd c)" "\<not> blank_or_dot (last c)" using ends ne by (simp_all add: c)
  note tr = truncate_facts [OF ne c_ends(2)]
  obtain t where t: "c = s @ t" using tr(1) by (auto simp: s)
  have sne: "s \<noteq> []" using nd(2) by (auto simp: dots_only_def)
  have "set s \<subseteq> set w" using t ab c by auto
  then have "\<forall>x \<in> set s. clean_char u x = [x]" using w_clean by blast
  moreover have "singles (is_white u) s" "hd s = hd c" using prefix_facts(4,5) [OF t] single sne by blast+
  moreover have "bounded_stem s" "\<not> blank_or_dot (last s)" using tr(2,3) sne by (simp_all add: s)
  moreover have "upper u (takeWhile (\<lambda>c. c \<noteq> 46) s) \<notin> RESERVED"
  proof (cases "46 \<in> set s")
    case True
    then have "takeWhile (\<lambda>c. c \<noteq> 46) c = takeWhile (\<lambda>c. c \<noteq> 46) s" unfolding t by (rule takeWhile_append1) simp
    with res(1) show ?thesis by simp
  next
    case False
    then have e: "takeWhile (\<lambda>c. c \<noteq> 46) s = s" unfolding takeWhile_eq_all_conv by blast
    show ?thesis unfolding e by (rule res(2))
  qed
  ultimately show ?thesis using sne c_ends(1) res(2) by (simp add: settled_stem_def)
qed

lemma settled_sanitize:
  assumes laws: "unidb_laws u" and st: "settled_stem u s" and stable: "nfc u s = s"
  shows "sanitize_stem u (Some s) = Some s"
proof -
  have "concat (map (clean_char u) s) = concat (map (\<lambda>c. [c]) s)"
    using st by (intro arg_cong [where f = concat] map_cong) (simp_all add: settled_stem_def)
  then have "collapse_white (is_white u) (concat (map (clean_char u) (nfc u s))) = s"
    using st collapse_singles by (simp add: stable settled_stem_def)
  moreover have "strip_dots s = s"
    using st rstrip_id dropWhile_hd [of s blank_or_dot] by (simp add: strip_dots_def settled_stem_def)
  moreover have "filter (\<lambda>c. \<not> is_control c) s = s"
    using st clean_no_control [OF laws] by (intro filter_True) (auto simp: settled_stem_def)
  ultimately have "collapsed_stem u s = s" by (simp add: collapsed_stem_def)
  moreover have "\<not> dots_only s" using st by (auto simp: settled_stem_def dots_only_def blank_or_dot_def)
  moreover have "truncate_stem s = s" using st truncate_id by (simp add: settled_stem_def)
  ultimately show ?thesis using st by (simp add: sanitize_stem_def settled_stem_def)
qed

section \<open>Suggested names pass the check\<close>

lemma validated_containerD:
  assumes "validated_container c = Inr ext"
  shows "ext \<in> ALLOWED_CONTAINERS" "validated_container ext = Inr ext"
    "length ext \<le> 8" "2 \<le> length ext" "list_all (\<lambda>c. lower_ascii c \<or> digit_ascii c) ext"
proof -
  have e: "ext \<in> ALLOWED_CONTAINERS" "container_shape ext"
    using assms by (auto simp: validated_container_def Let_def split: if_split_asm)
  then show "ext \<in> ALLOWED_CONTAINERS" "length ext \<le> 8" "2 \<le> length ext"
    "list_all (\<lambda>c. lower_ascii c \<or> digit_ascii c) ext" by (simp_all add: container_shape_def)
  have plain: "\<not> is_space c \<and> lower_char c = c" if "c \<in> set ext" for c
    using that e(2) by (auto simp: container_shape_def list_all_iff lower_ascii_def digit_ascii_def is_space_def
        lower_char_def)
  then have "strip ext = ext" by (intro strip_all) blast
  moreover have "lower ext = ext" using plain by (simp add: lower_def map_idI)
  ultimately show "validated_container ext = Inr ext" using e by (simp add: validated_container_def)
qed

lemma cps_simps [simp]: "cps [] = []" "cps (c # s) = of_char c # cps s" "cps (a @ b) = cps a @ cps b" "length (cps s) = length s"
  by (simp_all add: cps_def)

lemma ext_codes:
  assumes "validated_container c = Inr ext" and "x \<in> set (cps ext)"
  shows "48 \<le> x \<and> x \<le> 57 \<or> 97 \<le> x \<and> x \<le> 122"
  using validated_containerD(5) [OF assms(1)] assms(2)
  by (auto simp: cps_def list_all_iff lower_ascii_def digit_ascii_def)

text \<open>The part of a name before its extension.\<close>

definition stem_of :: "codepoints \<Rightarrow> codepoints" where
  "stem_of name = rev (drop 1 (dropWhile (\<lambda>c. c \<noteq> 46) (rev name)))"

lemma stem_of_with_ext:
  assumes "validated_container c = Inr ext"
  shows "stem_of (with_ext stem ext) = stem"
proof -
  have "x \<noteq> 46" if "x \<in> set (rev (cps ext))" for x
  proof -
    from that have "x \<in> set (cps ext)" by simp
    from ext_codes [OF assms this] show ?thesis by arith
  qed
  then have "dropWhile (\<lambda>c. c \<noteq> 46) (rev (cps ext) @ 46 # rev stem) = 46 # rev stem"
    by (subst dropWhile_append2) auto
  then show ?thesis by (simp add: stem_of_def with_ext_def)
qed

lemma accepted_name:
  assumes ext: "validated_container c = Inr ext" and bounds: "filename_bounds_ok (with_ext stem ext)"
    and plain: "\<forall>x \<in> set stem. x \<notin> FORBIDDEN \<and> x \<noteq> 13 \<and> x \<noteq> 10"
    and form: "sanitize_stem u (Some stem) = Some stem \<or> uuid_fallback_form (with_ext stem ext)"
  shows "is_safe_suggested_filename u (with_ext stem ext) c = Inr True"
proof -
  have "x \<notin> FORBIDDEN \<and> x \<noteq> 13 \<and> x \<noteq> 10" if "x \<in> set (with_ext stem ext)" for x
    using that plain ext_codes [OF ext] by (fastforce simp: with_ext_def FORBIDDEN_def)
  moreover have "ends_with_ext (with_ext stem ext) ext"
    by (simp add: ends_with_ext_def with_ext_def)
  moreover have "take (length (with_ext stem ext) - (length ext + 1)) (with_ext stem ext) = stem"
    by (simp add: with_ext_def)
  ultimately show ?thesis
    using ext bounds form by (auto simp: is_safe_suggested_filename_def Let_def)
qed

lemma fold_case_id: "48 \<le> c \<and> c \<le> 57 \<or> 97 \<le> c \<and> c \<le> 122 \<or> c = 45 \<or> c = 46 \<Longrightarrow> fold_case c = c"
  by (auto simp: fold_case_def)

lemma uuid_chars:
  assumes "uuid_shape s" and "x \<in> set s"
  shows "48 \<le> x \<and> x \<le> 57 \<or> 97 \<le> x \<and> x \<le> 122 \<or> x = 45"
proof -
  have "length s = 36" using assms(1) by (simp add: uuid_shape_def)
  with assms(2) obtain k where "k < 36" "x = s ! k" by (auto simp: in_set_conv_nth)
  with assms(1) show ?thesis by (auto simp: uuid_shape_def hex_lower_def split: if_split_asm)
qed

text \<open>\<open>str\<close> of a uuid has the canonical form.\<close>

lemma fallback_accepted:
  assumes ext: "validated_container c = Inr ext" and shape: "uuid_shape (cps (uuid_str py i))"
  shows "is_safe_suggested_filename u (with_ext (cps ''fetchnow-'' @ cps (uuid_str py i)) ext) c = Inr True"
proof (rule accepted_name [OF ext])
  let ?u = "cps (uuid_str py i)" and ?s = "cps ''fetchnow-'' @ cps (uuid_str py i)"
  have len: "length ?u = 36" using shape unfolding uuid_shape_def by blast
  note uu = uuid_chars [OF shape]
  have all: "48 \<le> x \<and> x \<le> 57 \<or> 97 \<le> x \<and> x \<le> 122 \<or> x = 45 \<or> x = 46" if "x \<in> set (with_ext ?s ext)" for x
    using that uu ext_codes [OF ext] by (auto simp: with_ext_def)
  have "map fold_case (with_ext ?s ext) = with_ext ?s ext" using all fold_case_id by (intro map_idI) blast
  moreover have "2 \<le> length ext" "length ext \<le> 8" using validated_containerD(3,4) [OF ext] by simp_all
  ultimately have "uuid_fallback_form (with_ext ?s ext)"
    using shape len ext_codes [OF ext] by (auto simp: uuid_fallback_form_def with_ext_def Let_def)
  then show "sanitize_stem u (Some ?s) = Some ?s \<or> uuid_fallback_form (with_ext ?s ext)" ..
  have pts: "utf8_point x = [x]" if "x \<in> set (with_ext ?s ext)" for x using all [OF that] by (auto simp: utf8_point_def)
  have "map utf8_point (with_ext ?s ext) = map (\<lambda>x. [x]) (with_ext ?s ext)" using pts by (rule map_cong [OF refl])
  then have "utf8_encode (with_ext ?s ext) = with_ext ?s ext" by (simp only: utf8_encode_def) simp
  then show "filename_bounds_ok (with_ext ?s ext)"
    using len validated_containerD(3) [OF ext]
    by (simp add: filename_bounds_ok_def with_ext_def MAX_FILENAME_CHARS_def MAX_FILENAME_UTF8_BYTES_def)
  show "\<forall>x \<in> set ?s. x \<notin> FORBIDDEN \<and> x \<noteq> 13 \<and> x \<noteq> 10"
  proof
    fix x assume "x \<in> set ?s"
    then have "48 \<le> x \<and> x \<le> 57 \<or> 97 \<le> x \<and> x \<le> 122 \<or> x = 45" using uu by auto
    then show "x \<notin> FORBIDDEN \<and> x \<noteq> 13 \<and> x \<noteq> 10" by (auto simp: FORBIDDEN_def)
  qed
qed

lemma settled_plain: "unidb_laws u \<Longrightarrow> settled_stem u s \<Longrightarrow> x \<in> set s \<Longrightarrow> x \<notin> FORBIDDEN \<and> x \<noteq> 13 \<and> x \<noteq> 10"
  unfolding settled_stem_def clean_char_def unidb_laws_def by (auto split: if_split_asm)

text \<open>The name the server derives from a title is one its own check accepts: whatever the title,
  a suggested name whose stem is stable under Unicode normalisation, and every fallback name, is
  safe, so that a view of the job can always show it.\<close>

theorem suggested_filename_accepted:
  assumes "unidb_laws u" and "suggested_filename_for py u title container i kind = Inr name"
    and "uuid_shape (cps (uuid_str py i))" and "nfc u (stem_of name) = stem_of name"
  shows "is_safe_suggested_filename u name container = Inr True"
proof -
  from assms(2) obtain ext where ext: "validated_container container = Inr ext"
    by (auto simp: suggested_filename_for_def andThen_eq_Inr)
  let ?f = "with_ext (cps ''fetchnow-'' @ cps (uuid_str py i)) ext"
  have fb: "fallback_filename py i ext = Inr ?f"
    using validated_containerD(2) [OF ext] by (simp add: fallback_filename_def)
  consider (fallback) "name = ?f"
    | (stem) r stem where "sanitize_stem u r = Some stem" "name = with_ext stem ext" "filename_bounds_ok name"
    using assms(2) ext fb
    by (auto simp: suggested_filename_for_def Let_def split: option.split_asm if_split_asm)
  then show ?thesis
  proof cases
    case fallback
    then show ?thesis using fallback_accepted [OF ext assms(3)] by simp
  next
    case stem
    note st = sanitize_settled [OF assms(1) stem(1)]
    have "nfc u stem = stem" using assms(4) stem(2) stem_of_with_ext [OF ext] by simp
    then have "sanitize_stem u (Some stem) = Some stem" by (rule settled_sanitize [OF assms(1) st])
    moreover have "\<forall>x \<in> set stem. x \<notin> FORBIDDEN \<and> x \<noteq> 13 \<and> x \<noteq> 10"
      using settled_plain [OF assms(1) st] by blast
    ultimately show ?thesis using accepted_name [OF ext] stem(2,3) by simp
  qed
qed

section \<open>The header\<close>

lemma digits64:
  "c div 4096 * 4096 + c div 64 mod 64 * 64 + c mod 64 = (c::nat)"
  "c div 262144 * 262144 + c div 4096 mod 64 * 4096 + c div 64 mod 64 * 64 + c mod 64 = c"
proof -
  have d: "c div 4096 = c div 64 div 64" "c div 262144 = c div 4096 div 64"
    by (simp_all add: div_mult2_eq [symmetric])
  have m: "x = 64 * (x div 64) + x mod 64" for x :: nat by simp
  show low: "c div 4096 * 4096 + c div 64 mod 64 * 64 + c mod 64 = c"
    unfolding d(1) using m [of c] m [of "c div 64"] by linarith
  show "c div 262144 * 262144 + c div 4096 mod 64 * 4096 + c div 64 mod 64 * 64 + c mod 64 = c"
    unfolding d(2) using low m [of "c div 4096"] by linarith
qed

lemma utf8_points_point:
  assumes "c < 0x110000"
  shows "utf8_points (utf8_point c @ s) = c # utf8_points s"
proof -
  consider "c < 128" | "128 \<le> c \<and> c < 2048" | "2048 \<le> c \<and> c < 65536" | "65536 \<le> c \<and> c < 0x110000"
    using assms by linarith
  then show ?thesis
  proof cases
    case 2
    obtain q where q: "c div 64 = q" by blast
    with 2 have "q < 32" by auto
    moreover have "q * 64 + c mod 64 = c" unfolding q [symmetric] by simp
    ultimately show ?thesis using 2 by (simp add: utf8_point_def q)
  next
    case 3
    obtain q where q: "c div 4096 = q" by blast
    with 3 have "q < 16" by auto
    moreover have "q * 4096 + c div 64 mod 64 * 64 + c mod 64 = c" unfolding q [symmetric] by (rule digits64(1))
    ultimately show ?thesis using 3 by (simp add: utf8_point_def q)
  next
    case 4
    show ?thesis using 4 digits64(2) [of c] by (simp add: utf8_point_def)
  qed (simp add: utf8_point_def)
qed

lemma utf8_points_encode: "\<forall>c \<in> set s. c < 0x110000 \<Longrightarrow> utf8_points (utf8_encode s) = s"
proof (induction s)
  case (Cons c s)
  then show ?case using utf8_points_point [of c "utf8_encode s"] by (simp add: utf8_encode_def)
qed (simp add: utf8_encode_def)

lemma utf8_decode_encode: "list_all scalar_value s \<Longrightarrow> utf8_decode (utf8_encode s) = Some s"
  using utf8_points_encode [of s] by (auto simp: utf8_decode_def Let_def list_all_iff scalar_value_def)

lemma utf8_bytes: "\<forall>c \<in> set s. c < 0x110000 \<Longrightarrow> b \<in> set (utf8_encode s) \<Longrightarrow> b < 256"
  by (induction s) (auto simp: utf8_encode_def utf8_point_def split: if_split_asm)

lemma hex_code_value:
  assumes "n < 16"
  shows "hex_digit_value u (HEX_code n) = (if n < 10 then dec_digit u (48 + n) else Some n)"
  using assms by (auto simp: hex_digit_value_def HEX_code_def)

lemma percent_decode_byte:
  assumes "unidb_laws u" and "b < 256"
  shows "percent_decode u ([37, HEX_code (b div 16), HEX_code (b mod 16)] @ s) =
    (case percent_decode u s of None \<Rightarrow> None | Some ns \<Rightarrow> Some (int b # ns))"
proof -
  have dig: "hex_digit_value u (HEX_code n) = Some n" if "n < 16" for n
    using that assms(1) by (simp add: hex_code_value unidb_laws_def)
  have "int_hex_pair u (HEX_code (b div 16)) (HEX_code (b mod 16)) = Some (16 * int (b div 16) + int (b mod 16))"
    using assms(2) by (simp add: int_hex_pair_def dig)
  moreover have "16 * int (b div 16) + int (b mod 16) = int b" by presburger
  ultimately show ?thesis by simp
qed

lemma percent_decode_bytes:
  assumes "unidb_laws u" and "\<forall>b \<in> set bs. b < 256"
  shows "percent_decode u (concat (map (\<lambda>b. if attr_char b then [b] else [37, HEX_code (b div 16), HEX_code (b mod 16)]) bs))
    = Some (map int bs)"
  using assms(2)
proof (induction bs)
  case (Cons b bs)
  have "\<not> attr_char 37" by (simp add: attr_char_def)
  with Cons percent_decode_byte [OF assms(1), of b] show ?case by (cases "b = 37") auto
qed simp

lemma decode_encoded:
  assumes laws: "unidb_laws u" and "list_all scalar_value s" and "s \<noteq> []"
  shows "decode_rfc8187 u (encode_rfc8187 s) = Inr (Some s)"
proof -
  let ?body = "concat (map (\<lambda>b. if attr_char b then [b] else [37, HEX_code (b div 16), HEX_code (b mod 16)]) (utf8_encode s))"
  have bounds: "\<forall>b \<in> set (utf8_encode s). b < 256"
    using utf8_bytes [of s] assms(2) by (auto simp: list_all_iff scalar_value_def)
  have dec: "percent_decode u ?body = Some (map int (utf8_encode s))"
    by (rule percent_decode_bytes [OF laws bounds])
  have ne: "?body \<noteq> []"
  proof
    assume e: "?body = []"
    have "map int (utf8_encode s) = []" using dec unfolding e by simp
    with assms(3) show False by (cases s) (auto simp: utf8_encode_def utf8_point_def split: if_split_asm)
  qed
  have parts: "take 7 (encode_rfc8187 s) = cps ''UTF-8'' @ [39, 39]" "drop 7 (encode_rfc8187 s) = ?body"
    by (simp_all add: encode_rfc8187_def)
  have "map (nat \<circ> int) (utf8_encode s) = utf8_encode s" by (simp add: comp_def)
  then show ?thesis
    using bounds ne utf8_decode_encode [OF assms(2)]
    unfolding decode_rfc8187_def parts dec by (auto simp: dest: bspec)
qed

text \<open>What a header line may hold: visible ASCII.\<close>

definition visible :: "nat \<Rightarrow> bool" where
  "visible c \<longleftrightarrow> 32 \<le> c \<and> c \<le> 126"

lemma encoded_visible:
  assumes "\<forall>c \<in> set s. c < 0x110000"
  shows "\<forall>c \<in> set (encode_rfc8187 s). visible c \<and> c \<noteq> 34"
proof
  fix c assume c: "c \<in> set (encode_rfc8187 s)"
  have pre: "\<forall>c \<in> set (cps ''UTF-8'' @ [39, 39]). visible c \<and> c \<noteq> 34" by (simp add: visible_def)
  have hex: "visible (HEX_code n) \<and> HEX_code n \<noteq> 34" if "n < 16" for n using that by (simp add: HEX_code_def visible_def)
  have attr: "visible b \<and> b \<noteq> 34" if "attr_char b" for b using that by (auto simp: attr_char_def visible_def)
  from c consider "c \<in> set (cps ''UTF-8'' @ [39, 39])"
    | b where "b \<in> set (utf8_encode s)"
        "c \<in> set (if attr_char b then [b] else [37, HEX_code (b div 16), HEX_code (b mod 16)])"
    unfolding encode_rfc8187_def set_append set_concat set_map by blast
  then show "visible c \<and> c \<noteq> 34"
  proof cases
    case 1
    with pre show ?thesis by blast
  next
    case 2
    then have "b div 16 < 16" "b mod 16 < 16" using utf8_bytes [OF assms, of b] by auto
    with 2(2) hex attr show ?thesis by (auto simp: visible_def split: if_split_asm)
  qed
qed

lemma fallback_token:
  assumes "uuid_shape (cps (uuid_str py i))" and "validated_container c = Inr ext"
  shows "is_ascii_token (with_ext (cps ''fetchnow-'' @ cps (uuid_str py i)) ext)"
proof -
  have "x \<in> {45, 46} \<or> 48 \<le> x \<and> x \<le> 57 \<or> 97 \<le> x \<and> x \<le> 122"
    if "x \<in> set (with_ext (cps ''fetchnow-'' @ cps (uuid_str py i)) ext)" for x
    using that uuid_chars [OF assms(1)] ext_codes [OF assms(2)] by (auto simp: with_ext_def)
  then show ?thesis by (fastforce simp: is_ascii_token_def with_ext_def)
qed

lemma accepted_no_breaks:
  "is_safe_suggested_filename u name c = Inr True \<Longrightarrow> name \<noteq> [] \<and> (\<forall>x \<in> set name. x \<noteq> 13 \<and> x \<noteq> 10 \<and> x \<noteq> 0)"
  by (auto simp: is_safe_suggested_filename_def andThen_eq_Inr filename_bounds_ok_def FORBIDDEN_def split: if_split_asm)

lemma token_visible: "is_ascii_token s \<Longrightarrow> x \<in> set s \<Longrightarrow> visible x \<and> x \<notin> {34, 92, 13, 10}"
  by (simp add: is_ascii_token_def visible_def)

text \<open>C19. The download header cannot be forged: for every accepted name and the job's fallback name
  the header is built, is one line of visible ASCII in which exactly the two quotes of its own
  parameter stand, and its extended parameter decodes to exactly the accepted name.\<close>

theorem disposition_reads_back:
  assumes "unidb_laws u" and "is_safe_suggested_filename u name c = Inr True"
    and "list_all scalar_value name"
    and "fallback_filename py i c = Inr fallback" and "uuid_shape (cps (uuid_str py i))"
  shows "\<exists>a. content_disposition_header name fallback =
           Inr (cps ''attachment; filename='' @ [34] @ a @ [34] @ cps ''; filename*='' @ encode_rfc8187 name) \<and>
         34 \<notin> set (a @ encode_rfc8187 name) \<and> list_all visible (a @ encode_rfc8187 name) \<and>
         decode_rfc8187 u (encode_rfc8187 name) = Inr (Some name)"
proof -
  obtain ext where ext: "validated_container c = Inr ext"
    and f: "fallback = with_ext (cps ''fetchnow-'' @ cps (uuid_str py i)) ext"
    using assms(4) by (auto simp: fallback_filename_def andThen_eq_Inr)
  obtain a where a: "ascii_filename_parameter name fallback = Inr a" "is_ascii_token a"
    using fallback_token [OF assms(5) ext] unfolding ascii_filename_parameter_def f
    by (cases "is_ascii_token name") simp_all
  note plain = accepted_no_breaks [OF assms(2)]
  have pts: "\<forall>x \<in> set name. x < 0x110000" using assms(3) by (auto simp: list_all_iff scalar_value_def)
  note enc = encoded_visible [OF pts]
  let ?h = "cps ''attachment; filename='' @ [34] @ a @ [34] @ cps ''; filename*='' @ encode_rfc8187 name"
  have "visible x" if "x \<in> set ?h" for x
    using that enc token_visible [OF a(2)] by (auto simp: visible_def)
  then have "13 \<notin> set ?h" "10 \<notin> set ?h" "0 \<notin> set ?h" by (fastforce simp: visible_def)+
  then have "content_disposition_header name fallback = Inr ?h"
    using plain token_visible [OF a(2)] by (auto simp: content_disposition_header_def a(1) Let_def)
  moreover have "34 \<notin> set (a @ encode_rfc8187 name)" "list_all visible (a @ encode_rfc8187 name)"
    using enc token_visible [OF a(2)] by (auto simp: list_all_iff)
  moreover have "decode_rfc8187 u (encode_rfc8187 name) = Inr (Some name)"
    using decode_encoded [OF assms(1,3)] plain by blast
  ultimately show ?thesis by blast
qed

section \<open>A sample database and the unstable stem\<close>

text \<open>One composition: e with the combining acute accent; one format character: the left-to-right mark.\<close>

fun compose_acute :: "codepoints \<Rightarrow> codepoints" where
  "compose_acute (a # b # s) =
     (if a = 101 \<and> b = 0x301 then 0xE9 # compose_acute s else a # compose_acute (b # s))"
| "compose_acute s = s"

definition sample_unidb :: unidb where
  "sample_unidb = \<lparr>nfc = compose_acute, is_other = (\<lambda>c. c < 32 \<or> 127 \<le> c \<and> c \<le> 159 \<or> c = 0x200E),
     is_white = (\<lambda>c. 9 \<le> c \<and> c \<le> 13 \<or> 28 \<le> c \<and> c \<le> 32 \<or> c = 133 \<or> c = 160),
     upper = map (\<lambda>c. if 97 \<le> c \<and> c \<le> 122 then c - 32 else c),
     dec_digit = (\<lambda>c. if 48 \<le> c \<and> c \<le> 57 then Some (c - 48) else None)\<rparr>"

definition sample_uuid_pylib :: pylib where
  "sample_uuid_pylib = sample_pylib\<lparr>uuid_str := \<lambda>_. ''00000000-0000-4000-8000-00000000000a''\<rparr>"

lemma compose_ascii: "\<forall>c \<in> set s. c < 128 \<Longrightarrow> compose_acute s = s"
  by (induction s rule: compose_acute.induct) auto

lemma sample_unidb_laws: "unidb_laws sample_unidb"
  by (auto simp: unidb_laws_def sample_unidb_def compose_ascii)

lemma sample_uuid_shape: "uuid_shape (cps (uuid_str sample_uuid_pylib i))"
proof -
  have i: "(\<forall>k < 36. P k) \<longleftrightarrow> list_all P [0..<36]" for P :: "nat \<Rightarrow> bool" by (auto simp: list_all_iff)
  show ?thesis
    unfolding uuid_shape_def i by (simp add: sample_uuid_pylib_def hex_lower_def upt_rec)
qed

lemmas filename_eval = sanitize_stem_def collapsed_stem_def truncate_stem_def strip_dots_def rstrip_dots_def
  clean_char_def blank_or_dot_def dots_only_def is_control_def sample_unidb_def Let_def BIDI_def FORBIDDEN_def
  RESERVED_def MAX_STEM_CHARS_def MAX_STEM_UTF8_BYTES_def MAX_FILENAME_CHARS_def MAX_FILENAME_UTF8_BYTES_def
  utf8_encode_def utf8_point_def suggested_filename_for_def fallback_filename_def validated_container_def
  strip_def lstrip_def rstrip_def is_space_def lower_def lower_char_def container_shape_def
  lower_ascii_def digit_ascii_def ALLOWED_CONTAINERS_def filename_bounds_ok_def with_ext_def

lemma sample_container: "validated_container ''mp4'' = Inr ''mp4''"
  by (simp add: filename_eval)

lemma sample_stem: "sanitize_stem sample_unidb (Some (cps ''Clip'')) = Some (cps ''Clip'')"
  by (simp add: filename_eval)

lemma sample_video_stem: "sanitize_stem sample_unidb (Some (cps ''Clip-video'')) = Some (cps ''Clip-video'')"
  by (simp add: filename_eval)

lemma sample_name:
  "suggested_filename_for sample_uuid_pylib sample_unidb (Some (cps ''Clip'')) ''mp4'' 10 KIND_VIDEO_ONLY =
     Inr (cps ''Clip-video.mp4'')"
proof -
  have "filename_bounds_ok (cps ''Clip-video.mp4'')" by (simp add: filename_eval)
  then show ?thesis
    using sample_stem sample_video_stem
    by (simp add: suggested_filename_for_def fallback_filename_def sample_container with_ext_def Let_def)
qed

theorem suggested_filename_accepted_witness:
  "is_safe_suggested_filename sample_unidb (cps ''Clip-video.mp4'') ''mp4'' = Inr True"
proof (rule suggested_filename_accepted [OF sample_unidb_laws sample_name sample_uuid_shape])
  have "stem_of (cps ''Clip-video.mp4'') = cps ''Clip-video''" by (simp add: stem_of_def)
  then show "nfc sample_unidb (stem_of (cps ''Clip-video.mp4'')) = stem_of (cps ''Clip-video.mp4'')"
    by (simp add: sample_unidb_def)
qed

text \<open>The name of a title in which a dropped mark kept two characters from composing.\<close>

lemma unstable_stem: "sanitize_stem sample_unidb (Some [101, 0x200E, 0x301]) = Some [101, 0x301]"
  by (simp add: filename_eval cps_def)

lemma unstable_stem_again: "sanitize_stem sample_unidb (Some [101, 0x301]) = Some [0xE9]"
  by (simp add: filename_eval cps_def)

text \<open>The server can refuse its own name: for a title in which a bidirectional mark separates a
  letter from its combining accent, the suggested name is built without an error and its own
  check rejects it, so every view and delivery of that download fails.\<close>

theorem own_name_refused:
  "suggested_filename_for py sample_unidb (Some [101, 0x200E, 0x301]) ''mp4'' i NORMAL_VIDEO = Inr ([101, 0x301] @ cps ''.mp4'') \<and>
   is_safe_suggested_filename sample_unidb ([101, 0x301] @ cps ''.mp4'') ''mp4'' = Inr False"
proof
  have b: "filename_bounds_ok ([101, 0x301] @ cps ''.mp4'')" by (simp add: filename_eval)
  then show "suggested_filename_for py sample_unidb (Some [101, 0x200E, 0x301]) ''mp4'' i NORMAL_VIDEO =
      Inr ([101, 0x301] @ cps ''.mp4'')"
    using unstable_stem
    by (simp add: suggested_filename_for_def fallback_filename_def sample_container with_ext_def Let_def)
  have "ends_with_ext ([101, 0x301] @ cps ''.mp4'') ''mp4''" by (simp add: ends_with_ext_def)
  moreover have "\<not> uuid_fallback_form ([101, 0x301] @ cps ''.mp4'')" by (simp add: uuid_fallback_form_def fold_case_def Let_def)
  ultimately show "is_safe_suggested_filename sample_unidb ([101, 0x301] @ cps ''.mp4'') ''mp4'' = Inr False"
    using b unstable_stem_again by (auto simp: is_safe_suggested_filename_def sample_container Let_def)
qed

theorem disposition_reads_back_witness:
  "decode_rfc8187 sample_unidb (encode_rfc8187 (cps ''Clip-video.mp4'')) = Inr (Some (cps ''Clip-video.mp4''))"
proof -
  have a: "is_safe_suggested_filename sample_unidb (cps ''Clip-video.mp4'') ''mp4'' = Inr True"
  proof -
    have "ends_with_ext (cps ''Clip-video.mp4'') ''mp4''" by (simp add: ends_with_ext_def)
    moreover have "filename_bounds_ok (cps ''Clip-video.mp4'')" by (simp add: filename_eval)
    ultimately show ?thesis
      using sample_video_stem by (auto simp: is_safe_suggested_filename_def sample_container Let_def FORBIDDEN_def)
  qed
  have f: "fallback_filename sample_uuid_pylib 10 ''mp4'' =
      Inr (with_ext (cps ''fetchnow-'' @ cps (uuid_str sample_uuid_pylib 10)) ''mp4'')"
    by (simp add: fallback_filename_def sample_container)
  have "list_all scalar_value (cps ''Clip-video.mp4'')" by (simp add: scalar_value_def)
  from disposition_reads_back [OF sample_unidb_laws a this f sample_uuid_shape] show ?thesis by blast
qed

text \<open>The reader of the extended parameter lets \<open>int()\<close> accept signs: it takes one escape with a plus
  sign and raises on one with a minus sign.\<close>

lemma signed_escapes:
  "decode_rfc8187 sample_unidb (cps ''UTF-8'' @ [39, 39] @ cps ''%+f'') = Inr (Some [15])"
  "decode_rfc8187 sample_unidb (cps ''UTF-8'' @ [39, 39] @ cps ''%-1'') =
     Inl (ValueError ''bytes must be in range(0, 256)'')"
  by (simp_all add: decode_rfc8187_def int_hex_pair_def hex_digit_value_def sample_unidb_def utf8_decode_def
      utf8_encode_def utf8_point_def scalar_value_def)

end
