(* ===== verification/Capabilities.thy ===== *)
theory Capabilities
  imports Text
begin

text \<open>
  Provider identifiers (\<open>url/models.py\<close>) and what each provider may be used for
  (\<open>capabilities/models.py\<close>, \<open>registry.py\<close>, \<open>public.py\<close>).
\<close>

section \<open>Models\<close>

datatype ProviderID = VK | RUTUBE | OK_RU | DZEN

fun ProviderID_value :: "ProviderID \<Rightarrow> string" where
  "ProviderID_value VK = ''vk''"
| "ProviderID_value RUTUBE = ''rutube''"
| "ProviderID_value OK_RU = ''ok''"
| "ProviderID_value DZEN = ''dzen''"

abbreviation provider_ids :: "ProviderID list" where
  "provider_ids \<equiv> [VK, RUTUBE, OK_RU, DZEN]"

datatype CapabilityState = CAP_ENABLED | CAP_DISABLED | CAP_PLANNED

fun CapabilityState_value :: "CapabilityState \<Rightarrow> string" where
  "CapabilityState_value CAP_ENABLED = ''enabled''"
| "CapabilityState_value CAP_DISABLED = ''disabled''"
| "CapabilityState_value CAP_PLANNED = ''planned''"

datatype MediaOperation = DOWNLOAD_VIDEO | EXTRACT_AUDIO | SELECT_QUALITY | SELECT_CONTAINER
datatype ContentKind = CK_VIDEO | CK_CLIP | CK_LIVE | CK_PLAYLIST
datatype MetadataField = MD_TITLE | MD_DURATION | MD_THUMBNAIL

text \<open>The mappings are complete, so each is a function of its enumeration.\<close>

record ProviderCapabilities =
  pcap_provider_id :: ProviderID
  pcap_operations :: "MediaOperation \<Rightarrow> CapabilityState"
  pcap_content_kinds :: "ContentKind \<Rightarrow> CapabilityState"
  pcap_metadata :: "MetadataField \<Rightarrow> CapabilityState"

definition allows :: "ProviderCapabilities \<Rightarrow> MediaOperation \<Rightarrow> bool" where
  "allows c operation \<longleftrightarrow> pcap_operations c operation = CAP_ENABLED"

section \<open>The built-in policy\<close>

fun shared_operations :: "MediaOperation \<Rightarrow> CapabilityState" where
  "shared_operations DOWNLOAD_VIDEO = CAP_ENABLED"
| "shared_operations EXTRACT_AUDIO = CAP_ENABLED"
| "shared_operations SELECT_QUALITY = CAP_ENABLED"
| "shared_operations SELECT_CONTAINER = CAP_DISABLED"

fun shared_metadata :: "MetadataField \<Rightarrow> CapabilityState" where
  "shared_metadata MD_TITLE = CAP_ENABLED"
| "shared_metadata MD_DURATION = CAP_ENABLED"
| "shared_metadata MD_THUMBNAIL = CAP_PLANNED"

fun content_kinds_with :: "CapabilityState \<Rightarrow> ContentKind \<Rightarrow> CapabilityState" where
  "content_kinds_with clip CK_VIDEO = CAP_ENABLED"
| "content_kinds_with clip CK_CLIP = clip"
| "content_kinds_with clip CK_LIVE = CAP_DISABLED"
| "content_kinds_with clip CK_PLAYLIST = CAP_DISABLED"

definition capabilities_of :: "ProviderID \<Rightarrow> ProviderCapabilities" where
  "capabilities_of p = \<lparr>pcap_provider_id = p, pcap_operations = shared_operations,
     pcap_content_kinds = content_kinds_with CAP_ENABLED, pcap_metadata = shared_metadata\<rparr>"

definition ok_capabilities :: ProviderCapabilities where
  "ok_capabilities = \<lparr>pcap_provider_id = OK_RU, pcap_operations = shared_operations,
     pcap_content_kinds = content_kinds_with CAP_DISABLED, pcap_metadata = shared_metadata\<rparr>"

definition dzen_capabilities :: ProviderCapabilities where
  "dzen_capabilities = \<lparr>pcap_provider_id = DZEN, pcap_operations = shared_operations,
     pcap_content_kinds = content_kinds_with CAP_ENABLED, pcap_metadata = shared_metadata\<rparr>"

section \<open>Registry\<close>

type_synonym capability_registry = "ProviderID \<Rightarrow> ProviderCapabilities option"

definition DEFAULT_PROVIDER_CAPABILITIES :: capability_registry where
  "DEFAULT_PROVIDER_CAPABILITIES p =
     (case p of
        VK \<Rightarrow> Some (capabilities_of VK)
      | RUTUBE \<Rightarrow> Some (capabilities_of RUTUBE)
      | OK_RU \<Rightarrow> Some ok_capabilities
      | DZEN \<Rightarrow> Some dzen_capabilities)"

definition registry_from_mapping :: "capability_registry \<Rightarrow> capability_registry res" where
  "registry_from_mapping m =
     (if list_ex (\<lambda>p. m p = None) provider_ids
      then Inl (ValueError ''capability registry must cover every ProviderID'')
      else if list_ex (\<lambda>p. case m p of None \<Rightarrow> False | Some c \<Rightarrow> pcap_provider_id c \<noteq> p) provider_ids
      then Inl (ValueError ''capability registry key does not match provider_id'')
      else Inr m)"

definition ProviderID_of :: "string \<Rightarrow> ProviderID option" where
  "ProviderID_of raw = find (\<lambda>p. ProviderID_value p = raw) provider_ids"

definition registry_get :: "capability_registry \<Rightarrow> string \<Rightarrow> ProviderCapabilities option" where
  "registry_get reg provider_id =
     (case ProviderID_of (lower (strip provider_id)) of None \<Rightarrow> None | Some p \<Rightarrow> reg p)"

definition registry_require :: "capability_registry \<Rightarrow> string \<Rightarrow> ProviderCapabilities res" where
  "registry_require reg provider_id =
     (case registry_get reg provider_id of
        None \<Rightarrow> Inl (DownloadError PROVIDER_CAPABILITY_DISABLED ''CAPABILITY_PROVIDER_UNKNOWN'')
      | Some c \<Rightarrow> Inr c)"

definition assert_operation_allowed :: "capability_registry \<Rightarrow> string \<Rightarrow> MediaOperation \<Rightarrow> unit res" where
  "assert_operation_allowed reg provider_id operation =
     andThen (registry_require reg provider_id) (\<lambda>c.
       if \<not> allows c operation
       then Inl (DownloadError PROVIDER_CAPABILITY_DISABLED ''CAPABILITY_OPERATION_DISABLED'')
       else Inr ())"

section \<open>Public projection\<close>

record PublicCapabilities =
  pub_provider_id :: string
  pub_operations :: "(string \<times> string) list"
  pub_content_kinds :: "(string \<times> string) list"
  pub_metadata :: "(string \<times> string) list"

definition project_descriptor :: "ProviderCapabilities \<Rightarrow> PublicCapabilities" where
  "project_descriptor c =
     \<lparr>pub_provider_id = ProviderID_value (pcap_provider_id c),
      pub_operations = map (\<lambda>(op, wire). (wire, CapabilityState_value (pcap_operations c op)))
        [(DOWNLOAD_VIDEO, ''downloadVideo''), (EXTRACT_AUDIO, ''extractAudio''),
         (SELECT_QUALITY, ''selectQuality''), (SELECT_CONTAINER, ''selectContainer'')],
      pub_content_kinds = map (\<lambda>(k, wire). (wire, CapabilityState_value (pcap_content_kinds c k)))
        [(CK_VIDEO, ''video''), (CK_CLIP, ''clip''), (CK_LIVE, ''live''), (CK_PLAYLIST, ''playlist'')],
      pub_metadata = map (\<lambda>(f, wire). (wire, CapabilityState_value (pcap_metadata c f)))
        [(MD_TITLE, ''title''), (MD_DURATION, ''duration''), (MD_THUMBNAIL, ''thumbnail'')]\<rparr>"

definition project_provider_capabilities :: "capability_registry \<Rightarrow> string \<Rightarrow> PublicCapabilities option" where
  "project_provider_capabilities reg provider_id = map_option project_descriptor (registry_get reg provider_id)"

section \<open>What the built-in policy allows\<close>

lemma ProviderID_of_value [simp]: "ProviderID_of (ProviderID_value p) = Some p"
  by (cases p) (simp_all add: ProviderID_of_def)

lemma default_registry_seals: "registry_from_mapping DEFAULT_PROVIDER_CAPABILITIES = Inr DEFAULT_PROVIDER_CAPABILITIES"
  by (simp add: registry_from_mapping_def DEFAULT_PROVIDER_CAPABILITIES_def capabilities_of_def
      ok_capabilities_def dzen_capabilities_def)

lemma lower_strip_value: "lower (strip (ProviderID_value p)) = ProviderID_value p"
proof -
  have "strip (ProviderID_value p) = ProviderID_value p"
    by (cases p) (auto simp: is_space_def intro!: strip_all)
  then show ?thesis by (cases p) (simp_all add: lower_def lower_char_def)
qed

lemma default_allows:
  "assert_operation_allowed DEFAULT_PROVIDER_CAPABILITIES (ProviderID_value p) operation =
     (if operation = SELECT_CONTAINER
      then Inl (DownloadError PROVIDER_CAPABILITY_DISABLED ''CAPABILITY_OPERATION_DISABLED'') else Inr ())"
  unfolding assert_operation_allowed_def registry_require_def registry_get_def lower_strip_value ProviderID_of_value
  by (cases p; cases operation)
    (simp_all add: DEFAULT_PROVIDER_CAPABILITIES_def capabilities_of_def ok_capabilities_def
      dzen_capabilities_def allows_def)

end
