(* ===== verification/Destination.thy ===== *)
theory Destination
  imports Prelude "HOL-Library.Word"
begin

text \<open>
  Which addresses the program may contact (\<open>url/destination.py\<close>). An address is a word of 32 or 128
  bits; the tables of special networks are those of the standard module \<open>ipaddress\<close> of the Python
  the image is built from (3.14), whose predicates the source combines.
\<close>

section \<open>Networks\<close>

datatype ip_address = IPv4 "32 word" | IPv6 "128 word"

text \<open>\<open>address in network\<close>, for a network given by its base address and the length of its prefix.\<close>

definition in_net :: "'a::len word \<Rightarrow> 'a word \<times> nat \<Rightarrow> bool" where
  "in_net a n = (drop_bit (LENGTH('a) - snd n) a = drop_bit (LENGTH('a) - snd n) (fst n))"

definition in_any :: "'a::len word \<Rightarrow> ('a word \<times> nat) list \<Rightarrow> bool" where
  "in_any a ns = list_ex (in_net a) ns"

definition octets4 :: "nat \<Rightarrow> nat \<Rightarrow> nat \<Rightarrow> nat \<Rightarrow> 32 word" where
  "octets4 a b c d = of_nat (((a * 256 + b) * 256 + c) * 256 + d)"

definition groups8 :: "nat list \<Rightarrow> 128 word" where
  "groups8 gs = of_nat (foldl (\<lambda>acc g. acc * 65536 + g) 0 gs)"

text \<open>\<open>_IPv4Constants\<close>\<close>

definition private4 :: "(32 word \<times> nat) list" where
  "private4 = [(octets4 0 0 0 0, 8), (octets4 10 0 0 0, 8), (octets4 127 0 0 0, 8),
     (octets4 169 254 0 0, 16), (octets4 172 16 0 0, 12), (octets4 192 0 0 0, 24),
     (octets4 192 0 0 170, 31), (octets4 192 0 2 0, 24), (octets4 192 168 0 0, 16),
     (octets4 198 18 0 0, 15), (octets4 198 51 100 0, 24), (octets4 203 0 113 0, 24),
     (octets4 240 0 0 0, 4), (octets4 255 255 255 255, 32)]"

definition private4_exceptions :: "(32 word \<times> nat) list" where
  "private4_exceptions = [(octets4 192 0 0 9, 32), (octets4 192 0 0 10, 32)]"

definition public4 :: "32 word \<times> nat" where "public4 = (octets4 100 64 0 0, 10)"
definition linklocal4 :: "32 word \<times> nat" where "linklocal4 = (octets4 169 254 0 0, 16)"
definition loopback4 :: "32 word \<times> nat" where "loopback4 = (octets4 127 0 0 0, 8)"
definition multicast4 :: "32 word \<times> nat" where "multicast4 = (octets4 224 0 0 0, 4)"
definition reserved4 :: "32 word \<times> nat" where "reserved4 = (octets4 240 0 0 0, 4)"

text \<open>\<open>_IPv6Constants\<close>\<close>

definition private6 :: "(128 word \<times> nat) list" where
  "private6 = [(groups8 [0, 0, 0, 0, 0, 0, 0, 1], 128), (groups8 [0, 0, 0, 0, 0, 0, 0, 0], 128),
     (groups8 [0, 0, 0, 0, 0, 0xFFFF, 0, 0], 96), (groups8 [0x64, 0xFF9B, 1, 0, 0, 0, 0, 0], 48),
     (groups8 [0x100, 0, 0, 0, 0, 0, 0, 0], 64), (groups8 [0x2001, 0, 0, 0, 0, 0, 0, 0], 23),
     (groups8 [0x2001, 0xDB8, 0, 0, 0, 0, 0, 0], 32), (groups8 [0x2002, 0, 0, 0, 0, 0, 0, 0], 16),
     (groups8 [0x3FFF, 0, 0, 0, 0, 0, 0, 0], 20), (groups8 [0xFC00, 0, 0, 0, 0, 0, 0, 0], 7),
     (groups8 [0xFE80, 0, 0, 0, 0, 0, 0, 0], 10)]"

definition private6_exceptions :: "(128 word \<times> nat) list" where
  "private6_exceptions = [(groups8 [0x2001, 1, 0, 0, 0, 0, 0, 1], 128),
     (groups8 [0x2001, 1, 0, 0, 0, 0, 0, 2], 128), (groups8 [0x2001, 3, 0, 0, 0, 0, 0, 0], 32),
     (groups8 [0x2001, 4, 0x112, 0, 0, 0, 0, 0], 48), (groups8 [0x2001, 0x20, 0, 0, 0, 0, 0, 0], 28),
     (groups8 [0x2001, 0x30, 0, 0, 0, 0, 0, 0], 28)]"

definition reserved6 :: "(128 word \<times> nat) list" where
  "reserved6 = [(groups8 [0, 0, 0, 0, 0, 0, 0, 0], 8), (groups8 [0x100, 0, 0, 0, 0, 0, 0, 0], 8),
     (groups8 [0x200, 0, 0, 0, 0, 0, 0, 0], 7), (groups8 [0x400, 0, 0, 0, 0, 0, 0, 0], 6),
     (groups8 [0x800, 0, 0, 0, 0, 0, 0, 0], 5), (groups8 [0x1000, 0, 0, 0, 0, 0, 0, 0], 4),
     (groups8 [0x4000, 0, 0, 0, 0, 0, 0, 0], 3), (groups8 [0x6000, 0, 0, 0, 0, 0, 0, 0], 3),
     (groups8 [0x8000, 0, 0, 0, 0, 0, 0, 0], 3), (groups8 [0xA000, 0, 0, 0, 0, 0, 0, 0], 3),
     (groups8 [0xC000, 0, 0, 0, 0, 0, 0, 0], 3), (groups8 [0xE000, 0, 0, 0, 0, 0, 0, 0], 4),
     (groups8 [0xF000, 0, 0, 0, 0, 0, 0, 0], 5), (groups8 [0xF800, 0, 0, 0, 0, 0, 0, 0], 6),
     (groups8 [0xFE00, 0, 0, 0, 0, 0, 0, 0], 9)]"

definition linklocal6 :: "128 word \<times> nat" where "linklocal6 = (groups8 [0xFE80, 0, 0, 0, 0, 0, 0, 0], 10)"
definition multicast6 :: "128 word \<times> nat" where "multicast6 = (groups8 [0xFF00, 0, 0, 0, 0, 0, 0, 0], 8)"

section \<open>The decision\<close>

definition is_private4 :: "32 word \<Rightarrow> bool" where
  "is_private4 a \<longleftrightarrow> in_any a private4 \<and> \<not> in_any a private4_exceptions"

definition is_global4 :: "32 word \<Rightarrow> bool" where
  "is_global4 a \<longleftrightarrow> \<not> in_net a public4 \<and> \<not> is_private4 a"

definition is_private6 :: "128 word \<Rightarrow> bool" where
  "is_private6 a \<longleftrightarrow> in_any a private6 \<and> \<not> in_any a private6_exceptions"

definition blocked4 :: "32 word \<Rightarrow> bool" where
  "blocked4 a \<longleftrightarrow>
     (if a = octets4 169 254 169 254 then True
      else if a = 0 \<or> in_net a loopback4 \<or> is_private4 a \<or> in_net a linklocal4 \<or>
              in_net a multicast4 \<or> in_net a reserved4 then True
      else \<not> is_global4 a)"

definition ipv4_mapped :: "128 word \<Rightarrow> 32 word option" where
  "ipv4_mapped a = (if drop_bit 32 a \<noteq> 0xFFFF then None else Some (ucast a))"

definition is_blocked_destination :: "ip_address \<Rightarrow> bool" where
  "is_blocked_destination address =
     (case address of
        IPv4 a \<Rightarrow> blocked4 a
      | IPv6 a \<Rightarrow>
          (case ipv4_mapped a of
             Some m \<Rightarrow> blocked4 m
           | None \<Rightarrow> a = 0 \<or> a = 1 \<or> is_private6 a \<or> in_net a linklocal6 \<or> in_net a multicast6 \<or>
                     in_any a reserved6 \<or> is_private6 a))"

section \<open>What is blocked\<close>

lemma in_net_div:
  fixes a :: "'a::len word"
  shows "in_net a (n, p) \<longleftrightarrow> unat a div 2 ^ (LENGTH('a) - p) = unat n div 2 ^ (LENGTH('a) - p)"
  by (simp only: in_net_def fst_conv snd_conv word_unat_eq_iff unat_drop_bit_eq drop_bit_nat_def)

lemma unat_octets4:
  assumes "a < 256" "b < 256" "c < 256" "d < 256"
  shows "unat (octets4 a b c d) = ((a * 256 + b) * 256 + c) * 256 + d"
proof -
  have "((a * 256 + b) * 256 + c) * 256 + d < 2 ^ 32" using assms by simp
  then show ?thesis unfolding octets4_def unat_of_nat by simp
qed

lemma digits_unique:
  fixes k l i j m :: nat
  assumes "i < m" "j < m"
  shows "k * m + i = l * m + j \<longleftrightarrow> k = l \<and> i = j"
proof
  assume e: "k * m + i = l * m + j"
  have "(k * m + i) div m = k" "(l * m + j) div m = l" "(k * m + i) mod m = i" "(l * m + j) mod m = j"
    using assms by simp_all
  with e show "k = l \<and> i = j" by metis
qed simp

lemma octet_div: "(r::nat) < 256 \<Longrightarrow> (k * 256 + r) div 256 = k"
  by simp

lemma prefix_divs:
  fixes a b c d :: nat
  assumes "b < 256" "c < 256" "d < 256"
  defines "x \<equiv> ((a * 256 + b) * 256 + c) * 256 + d"
  shows "x div 2 ^ 8 = (a * 256 + b) * 256 + c" and "x div 2 ^ 16 = a * 256 + b" and "x div 2 ^ 24 = a"
    and "x div 2 ^ 17 = a * 128 + b div 2" and "x div 2 ^ 20 = a * 16 + b div 16"
    and "x div 2 ^ 22 = a * 4 + b div 64" and "x div 2 ^ 28 = a div 16"
    and "x div 2 ^ 1 = ((a * 256 + b) * 256 + c) * 128 + d div 2"
proof -
  have 8: "x div 256 = (a * 256 + b) * 256 + c" using assms(3) by (simp add: x_def)
  have 16: "x div 256 div 256 = a * 256 + b" using 8 assms(2) by simp
  have 24: "x div 256 div 256 div 256 = a" using 16 assms(1) by simp
  show "x div 2 ^ 8 = (a * 256 + b) * 256 + c" using 8 by simp
  show "x div 2 ^ 16 = a * 256 + b" using 16 by (simp add: div_mult2_eq [symmetric])
  show "x div 2 ^ 24 = a" using 24 by (simp add: div_mult2_eq [symmetric])
  have "x div 2 ^ 17 = x div 256 div 256 div 2" by (simp add: div_mult2_eq [symmetric])
  also have "\<dots> = a * 128 + b div 2" unfolding 16 by presburger
  finally show "x div 2 ^ 17 = a * 128 + b div 2" .
  have "x div 2 ^ 20 = x div 256 div 256 div 16" by (simp add: div_mult2_eq [symmetric])
  also have "\<dots> = a * 16 + b div 16" unfolding 16 by presburger
  finally show "x div 2 ^ 20 = a * 16 + b div 16" .
  have "x div 2 ^ 22 = x div 256 div 256 div 64" by (simp add: div_mult2_eq [symmetric])
  also have "\<dots> = a * 4 + b div 64" unfolding 16 by presburger
  finally show "x div 2 ^ 22 = a * 4 + b div 64" .
  have "x div 2 ^ 28 = x div 256 div 256 div 256 div 16" by (simp add: div_mult2_eq [symmetric])
  then show "x div 2 ^ 28 = a div 16" unfolding 24 .
  show "x div 2 ^ 1 = ((a * 256 + b) * 256 + c) * 128 + d div 2"
  proof -
    have "(k * 256 + d) div 2 = k * 128 + d div 2" for k :: nat by presburger
    then show ?thesis by (simp only: x_def power_one_right)
  qed
qed

lemma net_octets:
  fixes a b c d n m r q :: nat
  assumes "a < 256" "b < 256" "c < 256" "d < 256" and "n < 256" "m < 256" "r < 256" "q < 256"
  defines "x \<equiv> octets4 a b c d" and "y \<equiv> octets4 n m r q"
  shows "in_net x (y, 4) \<longleftrightarrow> a div 16 = n div 16"
    and "in_net x (y, 8) \<longleftrightarrow> a = n"
    and "in_net x (y, 10) \<longleftrightarrow> a = n \<and> b div 64 = m div 64"
    and "in_net x (y, 12) \<longleftrightarrow> a = n \<and> b div 16 = m div 16"
    and "in_net x (y, 15) \<longleftrightarrow> a = n \<and> b div 2 = m div 2"
    and "in_net x (y, 16) \<longleftrightarrow> a = n \<and> b = m"
    and "in_net x (y, 24) \<longleftrightarrow> a = n \<and> b = m \<and> c = r"
    and "in_net x (y, 31) \<longleftrightarrow> a = n \<and> b = m \<and> c = r \<and> d div 2 = q div 2"
    and "in_net x (y, 32) \<longleftrightarrow> x = y"
    and "x = y \<longleftrightarrow> a = n \<and> b = m \<and> c = r \<and> d = q"
proof -
  note div = in_net_div x_def y_def unat_octets4 [OF assms(1-4)] unat_octets4 [OF assms(5-8)]
  note p = prefix_divs [OF assms(2-4)] and p' = prefix_divs [OF assms(6-8)]
  show "in_net x (y, 4) \<longleftrightarrow> a div 16 = n div 16" using p(7) p'(7) by (simp add: div)
  show "in_net x (y, 8) \<longleftrightarrow> a = n" using p(3) p'(3) by (simp add: div)
  have "in_net x (y, 10) \<longleftrightarrow> a * 4 + b div 64 = n * 4 + m div 64" using p(6) p'(6) by (simp add: div)
  then show "in_net x (y, 10) \<longleftrightarrow> a = n \<and> b div 64 = m div 64"
    using digits_unique [of "b div 64" 4 "m div 64" a n] assms(2,6) by linarith
  have "in_net x (y, 12) \<longleftrightarrow> a * 16 + b div 16 = n * 16 + m div 16" using p(5) p'(5) by (simp add: div)
  then show "in_net x (y, 12) \<longleftrightarrow> a = n \<and> b div 16 = m div 16"
    using digits_unique [of "b div 16" 16 "m div 16" a n] assms(2,6) by linarith
  have "in_net x (y, 15) \<longleftrightarrow> a * 128 + b div 2 = n * 128 + m div 2" using p(4) p'(4) by (simp add: div)
  then show "in_net x (y, 15) \<longleftrightarrow> a = n \<and> b div 2 = m div 2"
    using digits_unique [of "b div 2" 128 "m div 2" a n] assms(2,6) by linarith
  have "in_net x (y, 16) \<longleftrightarrow> a * 256 + b = n * 256 + m" using p(2) p'(2) by (simp add: div)
  then show "in_net x (y, 16) \<longleftrightarrow> a = n \<and> b = m" using digits_unique [OF assms(2,6)] by blast
  note pair = digits_unique [of _ 256]
  have "in_net x (y, 24) \<longleftrightarrow> (a * 256 + b) * 256 + c = (n * 256 + m) * 256 + r" using p(1) p'(1) by (simp add: div)
  then show "in_net x (y, 24) \<longleftrightarrow> a = n \<and> b = m \<and> c = r" using pair assms(2,3,6,7) by metis
  have "in_net x (y, 31) \<longleftrightarrow> ((a * 256 + b) * 256 + c) * 128 + d div 2 = ((n * 256 + m) * 256 + r) * 128 + q div 2"
    using p(8) p'(8) by (simp add: div)
  also have "\<dots> \<longleftrightarrow> (a * 256 + b) * 256 + c = (n * 256 + m) * 256 + r \<and> d div 2 = q div 2"
    by (rule digits_unique) (use assms(4,8) in auto)
  also have "\<dots> \<longleftrightarrow> a = n \<and> b = m \<and> c = r \<and> d div 2 = q div 2" using pair assms(2,3,6,7) by metis
  finally show "in_net x (y, 31) \<longleftrightarrow> a = n \<and> b = m \<and> c = r \<and> d div 2 = q div 2" .
  show eq: "in_net x (y, 32) \<longleftrightarrow> x = y" by (simp add: in_net_def)
  have "x = y \<longleftrightarrow> unat x = unat y" by (rule word_unat_eq_iff)
  also have "\<dots> \<longleftrightarrow> ((a * 256 + b) * 256 + c) * 256 + d = ((n * 256 + m) * 256 + r) * 256 + q"
    unfolding x_def y_def unat_octets4 [OF assms(1-4)] unat_octets4 [OF assms(5-8)] ..
  also have "\<dots> \<longleftrightarrow> a = n \<and> b = m \<and> c = r \<and> d = q" using assms(2-4,6-8) pair by metis
  finally show "x = y \<longleftrightarrow> a = n \<and> b = m \<and> c = r \<and> d = q" .
qed

definition special_use4 :: "nat \<Rightarrow> nat \<Rightarrow> nat \<Rightarrow> nat \<Rightarrow> bool" where
  "special_use4 a b c d \<longleftrightarrow>
     a \<in> {0, 10, 127} \<or> 224 \<le> a \<or> (a = 100 \<and> 64 \<le> b \<and> b \<le> 127) \<or> (a = 169 \<and> b = 254) \<or>
     (a = 172 \<and> 16 \<le> b \<and> b \<le> 31) \<or> (a = 192 \<and> b = 0 \<and> c = 0 \<and> d \<notin> {9, 10}) \<or>
     (a = 192 \<and> b = 0 \<and> c = 2) \<or> (a = 192 \<and> b = 168) \<or> (a = 198 \<and> b \<in> {18, 19}) \<or>
     (a = 198 \<and> b = 51 \<and> c = 100) \<or> (a = 203 \<and> b = 0 \<and> c = 113)"

lemma blocked4_octets:
  assumes "a < 256" "b < 256" "c < 256" "d < 256"
  shows "blocked4 (octets4 a b c d) \<longleftrightarrow> special_use4 a b c d"
proof -
  note nets = net_octets [OF assms]
  have z: "octets4 a b c d = 0 \<longleftrightarrow> a = 0 \<and> b = 0 \<and> c = 0 \<and> d = 0"
    using nets(10) [of 0 0 0 0] by (simp add: octets4_def)
  have pub: "in_net (octets4 a b c d) public4 \<longleftrightarrow> a = 100 \<and> b div 64 = 1" by (simp add: public4_def nets)
  have loop: "in_net (octets4 a b c d) loopback4 \<longleftrightarrow> a = 127" by (simp add: loopback4_def nets)
  have link: "in_net (octets4 a b c d) linklocal4 \<longleftrightarrow> a = 169 \<and> b = 254" by (simp add: linklocal4_def nets)
  have multi: "in_net (octets4 a b c d) multicast4 \<longleftrightarrow> a div 16 = 14" by (simp add: multicast4_def nets)
  have res: "in_net (octets4 a b c d) reserved4 \<longleftrightarrow> a div 16 = 15" by (simp add: reserved4_def nets)
  have exc: "in_any (octets4 a b c d) private4_exceptions \<longleftrightarrow> a = 192 \<and> b = 0 \<and> c = 0 \<and> d \<in> {9, 10}"
    by (auto simp: in_any_def private4_exceptions_def nets)
  have raw: "in_any (octets4 a b c d) private4 \<longleftrightarrow>
      a \<in> {0, 10, 127} \<or> a = 169 \<and> b = 254 \<or> a = 172 \<and> b div 16 = 1 \<or> a = 192 \<and> b = 0 \<and> c = 0 \<or>
      a = 192 \<and> b = 0 \<and> c = 2 \<or> a = 192 \<and> b = 168 \<or> a = 198 \<and> b div 2 = 9 \<or>
      a = 198 \<and> b = 51 \<and> c = 100 \<or> a = 203 \<and> b = 0 \<and> c = 113 \<or> a div 16 = 15 \<or>
      a = 255 \<and> b = 255 \<and> c = 255 \<and> d = 255"
    by (simp add: in_any_def private4_def nets) satx
  have "a = 255 \<longrightarrow> a div 16 = 15" by simp
  with raw have priv: "in_any (octets4 a b c d) private4 \<longleftrightarrow>
      a \<in> {0, 10, 127} \<or> a = 169 \<and> b = 254 \<or> a = 172 \<and> b div 16 = 1 \<or> a = 192 \<and> b = 0 \<and> c = 0 \<or>
      a = 192 \<and> b = 0 \<and> c = 2 \<or> a = 192 \<and> b = 168 \<or> a = 198 \<and> b div 2 = 9 \<or>
      a = 198 \<and> b = 51 \<and> c = 100 \<or> a = 203 \<and> b = 0 \<and> c = 113 \<or> a div 16 = 15" by satx
  have d: "b div 64 = 1 \<longleftrightarrow> 64 \<le> b \<and> b \<le> 127" "b div 16 = 1 \<longleftrightarrow> 16 \<le> b \<and> b \<le> 31" "b div 2 = 9 \<longleftrightarrow> b \<in> {18, 19}"
    "a div 16 = 14 \<or> a div 16 = 15 \<longleftrightarrow> 224 \<le> a"
    using assms(1) by auto
  have meta: "octets4 a b c d = octets4 169 254 169 254 \<longleftrightarrow> a = 169 \<and> b = 254 \<and> c = 169 \<and> d = 254"
    by (rule nets(10)) simp_all
  note rules = blocked4_def is_global4_def is_private4_def pub loop link multi res exc priv z meta
  show ?thesis
  proof (cases "a = 192 \<and> b = 0 \<and> c = 0")
    case True
    then show ?thesis unfolding rules special_use4_def by auto
  next
    case False
    then have "blocked4 (octets4 a b c d) \<longleftrightarrow> a \<in> {0, 10, 127} \<or> (a div 16 = 14 \<or> a div 16 = 15) \<or>
        (a = 100 \<and> b div 64 = 1) \<or> (a = 169 \<and> b = 254) \<or> (a = 172 \<and> b div 16 = 1) \<or> (a = 192 \<and> b = 0 \<and> c = 2) \<or>
        (a = 192 \<and> b = 168) \<or> (a = 198 \<and> b div 2 = 9) \<or> (a = 198 \<and> b = 51 \<and> c = 100) \<or>
        (a = 203 \<and> b = 0 \<and> c = 113)"
      unfolding rules if_bool_eq_disj insert_iff empty_iff by satx
    with False show ?thesis unfolding special_use4_def d insert_iff empty_iff by satx
  qed
qed

text \<open>An IPv4 address inside an IPv6 one is judged as what it is.\<close>

definition mapped6 :: "32 word \<Rightarrow> 128 word" where
  "mapped6 a = of_nat (65535 * 2 ^ 32 + unat a)"

lemma mapped6_shape: "drop_bit 32 (mapped6 a) = 0xFFFF" "(ucast (mapped6 a) :: 32 word) = a"
proof -
  have small: "unat a < 2 ^ 32" using unsigned_less [of a, where 'a = nat] by simp
  have un: "unat (mapped6 a) = 65535 * 2 ^ 32 + unat a"
    unfolding mapped6_def of_nat_add [symmetric] unat_of_nat using small by (simp add: take_bit_eq_mod)
  show "drop_bit 32 (mapped6 a) = 0xFFFF"
    unfolding word_unat_eq_iff unat_drop_bit_eq un drop_bit_nat_def using small by simp
  show "(ucast (mapped6 a) :: 32 word) = a"
  proof -
    have "(k * m + x) mod m = x" if "x < m" for k m x :: nat using that by simp
    from this [OF small] have "(65535 * 2 ^ 32 + unat a) mod 2 ^ 32 = unat a" .
    then show ?thesis unfolding word_unat_eq_iff unsigned_ucast_eq un take_bit_eq_mod by simp
  qed
qed



end
