(* ===== verification/Url_Policy.thy ===== *)
theory Url_Policy
  imports Filename Capabilities Destination
begin

text \<open>
  Which URLs the program accepts (\<open>url/parse.py\<close>, \<open>url/providers.py\<close>, \<open>url/validate.py\<close> and the
  host tests of \<open>url/destination.py\<close>). A URL is a list of code points. Of the standard library,
  \<open>urlparse\<close> is written out; the Unicode tables, the bracketed form of an address and IDNA beyond
  ASCII are the record \<open>urldb\<close>.
\<close>

section \<open>The Unicode side\<close>

text \<open>
  \<open>space_cp\<close> is \<open>str.isspace\<close> of one character, \<open>lower_cps\<close> is \<open>str.lower\<close>, \<open>digit_cp\<close> the class \<open>\d\<close>,
  \<open>nfkc\<close> the normal form, \<open>idna_other\<close> the encoding of a host with other than ASCII characters,
  \<open>bracket_ok\<close> the check of an authority with brackets, \<open>ip_text\<close> is \<open>ipaddress.ip_address\<close>.
\<close>

record urldb =
  space_cp :: "nat \<Rightarrow> bool"
  lower_cps :: "codepoints \<Rightarrow> codepoints"
  digit_cp :: "nat \<Rightarrow> nat option"
  nfkc :: "codepoints \<Rightarrow> codepoints"
  idna_other :: "codepoints \<Rightarrow> codepoints option"
  bracket_ok :: "codepoints \<Rightarrow> bool"
  ip_text :: "codepoints \<Rightarrow> ip_address option"

definition lower_ascii_cp :: "nat \<Rightarrow> nat" where
  "lower_ascii_cp c = (if 65 \<le> c \<and> c \<le> 90 then c + 32 else c)"

definition alpha_cp :: "nat \<Rightarrow> bool" where
  "alpha_cp c \<longleftrightarrow> 65 \<le> c \<and> c \<le> 90 \<or> 97 \<le> c \<and> c \<le> 122"

definition dec_cp :: "nat \<Rightarrow> bool" where
  "dec_cp c \<longleftrightarrow> 48 \<le> c \<and> c \<le> 57"

section \<open>Splitting texts\<close>

text \<open>\<open>s.partition(c)\<close> without the flag, \<open>s.rpartition(c)[2]\<close>, \<open>s.rstrip(".")\<close>, \<open>s.split(".")\<close>\<close>

definition before_cp :: "nat \<Rightarrow> codepoints \<Rightarrow> codepoints" where
  "before_cp c s = takeWhile (\<lambda>x. x \<noteq> c) s"

definition after_cp :: "nat \<Rightarrow> codepoints \<Rightarrow> codepoints" where
  "after_cp c s = drop 1 (dropWhile (\<lambda>x. x \<noteq> c) s)"

definition after_last :: "nat \<Rightarrow> codepoints \<Rightarrow> codepoints" where
  "after_last c s = rev (takeWhile (\<lambda>x. x \<noteq> c) (rev s))"

definition rstrip_dots :: "codepoints \<Rightarrow> codepoints" where
  "rstrip_dots s = rev (dropWhile (\<lambda>c. c = 46) (rev s))"

fun split_cp :: "nat \<Rightarrow> codepoints \<Rightarrow> codepoints list" where
  "split_cp c [] = [[]]"
| "split_cp c (x # xs) =
     (if x = c then [] # split_cp c xs
      else (case split_cp c xs of [] \<Rightarrow> [[x]] | y # ys \<Rightarrow> (x # y) # ys))"

definition strip_cp :: "urldb \<Rightarrow> codepoints \<Rightarrow> codepoints" where
  "strip_cp ud s = rev (dropWhile (space_cp ud) (rev (dropWhile (space_cp ud) s)))"

definition starts_cp :: "codepoints \<Rightarrow> codepoints \<Rightarrow> bool" where
  "starts_cp p s \<longleftrightarrow> take (length p) s = p"

fun has_infix :: "codepoints \<Rightarrow> codepoints \<Rightarrow> bool" where
  "has_infix p [] = (p = [])"
| "has_infix p (x # xs) = (starts_cp p (x # xs) \<or> has_infix p xs)"

section \<open>urlparse\<close>

datatype url_error =
    URLValidationError string "string option"
  | UrlUncaught string

type_synonym 'a url_res = "url_error + 'a"

abbreviation invalid_url :: url_error where
  "invalid_url \<equiv> URLValidationError ''INVALID_URL'' None"

record parse_result =
  pr_scheme :: codepoints
  pr_netloc :: codepoints
  pr_path :: codepoints
  pr_query :: codepoints

definition scheme_cp :: "nat \<Rightarrow> bool" where
  "scheme_cp c \<longleftrightarrow> alpha_cp c \<or> dec_cp c \<or> c \<in> {43, 45, 46}"

definition take_scheme :: "codepoints \<Rightarrow> codepoints \<times> codepoints" where
  "take_scheme url =
     (let s = before_cp 58 url
      in if 58 \<in> set url \<and> s \<noteq> [] \<and> alpha_cp (hd s) \<and> list_all scheme_cp s
         then (map lower_ascii_cp s, after_cp 58 url) else ([], url))"

definition uses_params :: "codepoints list" where
  "uses_params = map cps ['''', ''ftp'', ''hdl'', ''prospero'', ''http'', ''imap'', ''https'', ''shttp'',
     ''rtsp'', ''rtsps'', ''rtspu'', ''sip'', ''sips'', ''mms'', ''sftp'', ''tel'']"

text \<open>\<open>_checknetloc\<close>: characters that normalise to a delimiter.\<close>

definition netloc_ok :: "urldb \<Rightarrow> codepoints \<Rightarrow> bool" where
  "netloc_ok ud netloc \<longleftrightarrow>
     list_all (\<lambda>c. c < 128) netloc \<or>
     (let n = filter (\<lambda>c. c \<notin> {64, 58, 35, 63}) netloc
      in n = nfkc ud n \<or> \<not> list_ex (\<lambda>c. c \<in> {47, 63, 35, 64, 58}) (nfkc ud n))"

text \<open>\<open>_splitparams\<close>: a semicolon of the last segment ends the path.\<close>

definition drop_params :: "codepoints \<Rightarrow> codepoints" where
  "drop_params path =
     (let last_seg = after_last 47 path
      in if 59 \<in> set last_seg then take (length path - length last_seg) path @ before_cp 59 last_seg
         else path)"

definition urlparse :: "urldb \<Rightarrow> codepoints \<Rightarrow> parse_result url_res" where
  "urlparse ud raw =
     (let url = filter (\<lambda>c. c \<notin> {9, 10, 13}) (dropWhile (\<lambda>c. c \<le> 32) raw);
          (scheme, rest) = take_scheme url;
          hier = starts_cp [47, 47] rest;
          delim = (\<lambda>c. c \<in> {47, 63, 35});
          netloc = (if hier then takeWhile (\<lambda>c. \<not> delim c) (drop 2 rest) else []);
          tail = (if hier then dropWhile (\<lambda>c. \<not> delim c) (drop 2 rest) else rest)
      in if (91 \<in> set netloc) \<noteq> (93 \<in> set netloc) then Inl (UrlUncaught ''ValueError'')
         else if 91 \<in> set netloc \<and> \<not> bracket_ok ud netloc then Inl (UrlUncaught ''ValueError'')
         else
           let unfragmented = before_cp 35 tail;
               path = before_cp 63 unfragmented
           in if \<not> netloc_ok ud netloc then Inl (UrlUncaught ''ValueError'')
              else Inr \<lparr>pr_scheme = scheme, pr_netloc = netloc,
                        pr_path = (if scheme \<in> set uses_params then drop_params path else path),
                        pr_query = after_cp 63 unfragmented\<rparr>)"

text \<open>\<open>hostname\<close> and \<open>port\<close> of the result; \<open>username\<close> is not None exactly when there is an at sign.\<close>

definition hostinfo :: "codepoints \<Rightarrow> codepoints \<times> codepoints" where
  "hostinfo netloc =
     (let h = after_last 64 netloc
      in if 91 \<in> set h
         then let b = after_cp 91 h in (before_cp 93 b, after_cp 58 (after_cp 93 b))
         else (before_cp 58 h, after_cp 58 h))"

definition url_hostname :: "urldb \<Rightarrow> codepoints \<Rightarrow> codepoints option" where
  "url_hostname ud netloc =
     (let h = fst (hostinfo netloc)
      in if h = [] then None
         else Some (lower_cps ud (before_cp 37 h) @ dropWhile (\<lambda>c. c \<noteq> 37) h))"

definition number_cps :: "codepoints \<Rightarrow> int" where
  "number_cps s = foldl (\<lambda>n c. 10 * n + (int c - 48)) 0 s"

definition url_port :: "codepoints \<Rightarrow> int option url_res" where
  "url_port netloc =
     (let p = snd (hostinfo netloc)
      in if p = [] then Inr None
         else if \<not> list_all dec_cp p then Inl (UrlUncaught ''ValueError'')
         else if number_cps p > 65535 then Inl (UrlUncaught ''ValueError'')
         else Inr (Some (number_cps p)))"

section \<open>url/parse.py\<close>

record ParsedURL =
  pu_original_scheme :: codepoints
  pu_scheme :: codepoints
  pu_hostname :: codepoints
  pu_port :: "int option"
  pu_path :: codepoints
  pu_query :: codepoints
  pu_canonical_without_query :: codepoints

definition idna_encode :: "urldb \<Rightarrow> codepoints \<Rightarrow> codepoints option" where
  "idna_encode ud host =
     (if list_all (\<lambda>c. c < 128) host
      then let labels = split_cp 46 host
           in if list_all (\<lambda>l. 0 < length l \<and> length l < 64) (butlast labels) \<and> length (last labels) < 64
              then Some host else None
      else idna_other ud host)"

definition idna_hostname :: "urldb \<Rightarrow> codepoints \<Rightarrow> codepoints url_res" where
  "idna_hostname ud raw_host =
     (let host = rstrip_dots raw_host
      in if host = [] then Inl invalid_url
         else if 37 \<in> set host then Inl invalid_url
         else (case idna_encode ud host of
                 None \<Rightarrow> Inl invalid_url
               | Some enc \<Rightarrow>
                   let ascii_host = map lower_ascii_cp enc
                   in if ascii_host = [] \<or> has_infix [46, 46] ascii_host \<or> starts_cp [46] ascii_host
                      then Inl invalid_url else Inr ascii_host))"

definition default_port :: "codepoints \<Rightarrow> int" where
  "default_port scheme = (if scheme = cps ''https'' then 443 else 80)"

definition normalize_port :: "codepoints \<Rightarrow> int option \<Rightarrow> int set \<Rightarrow> int option url_res" where
  "normalize_port scheme port allowed_ports =
     (case port of
        None \<Rightarrow> if default_port scheme \<notin> allowed_ports then Inl invalid_url else Inr None
      | Some p \<Rightarrow> if p \<notin> allowed_ports then Inl invalid_url
                  else if p = default_port scheme then Inr None else Inr (Some p))"

text \<open>\<open>quote(hostname, safe=".-_")\<close>\<close>

definition quote_safe :: "nat \<Rightarrow> bool" where
  "quote_safe c \<longleftrightarrow> alpha_cp c \<or> dec_cp c \<or> c \<in> {46, 45, 95, 126}"

definition quote_host :: "codepoints \<Rightarrow> codepoints" where
  "quote_host s = concat (map (\<lambda>c. if quote_safe c then [c]
      else concat (map (\<lambda>b. [37, HEX_code (b div 16), HEX_code (b mod 16)]) (utf8_point c))) s)"

definition canonical_host_for_url :: "codepoints \<Rightarrow> codepoints" where
  "canonical_host_for_url hostname = (if 58 \<in> set hostname then [91] @ hostname @ [93] else quote_host hostname)"

definition unparse_url :: "codepoints \<Rightarrow> codepoints \<Rightarrow> codepoints \<Rightarrow> codepoints" where
  "unparse_url scheme netloc path =
     scheme @ [58, 47, 47] @ netloc @ (if path \<noteq> [] \<and> hd path \<noteq> 47 then [47] else []) @ path"

definition port_suffix :: "int option \<Rightarrow> codepoints" where
  "port_suffix port = (case port of None \<Rightarrow> [] | Some p \<Rightarrow> [58] @ cps (show_int p))"

definition build_canonical :: "codepoints \<Rightarrow> codepoints \<Rightarrow> int option \<Rightarrow> codepoints \<Rightarrow> codepoints" where
  "build_canonical scheme hostname port path =
     unparse_url scheme (hostname @ port_suffix port) (if path = [] then [47] else path)"

record UrlSettings =
  us_allowed_schemes :: "codepoints list"
  us_allowed_ports :: "int list"
  us_max_length :: int
  us_provider_enabled :: "ProviderID \<Rightarrow> bool"

definition parse_and_normalize :: "urldb \<Rightarrow> UrlSettings \<Rightarrow> codepoints \<Rightarrow> ParsedURL url_res" where
  "parse_and_normalize ud s raw =
     (let candidate = strip_cp ud raw
      in if candidate = [] then Inl invalid_url
         else if int (length candidate) > us_max_length s then Inl invalid_url
         else if starts_cp [47, 47] candidate then Inl (URLValidationError ''UNSUPPORTED_SCHEME'' None)
         else
           andThen (urlparse ud candidate) (\<lambda>parsed.
             let scheme = pr_scheme parsed; netloc = pr_netloc parsed
             in if scheme = [] \<or> netloc = []
                then (if scheme \<noteq> [] \<and> scheme \<notin> set (us_allowed_schemes s)
                      then Inl (URLValidationError ''UNSUPPORTED_SCHEME'' None) else Inl invalid_url)
                else if scheme \<notin> set (us_allowed_schemes s)
                then Inl (URLValidationError ''UNSUPPORTED_SCHEME'' None)
                else if 64 \<in> set netloc then Inl invalid_url
                else (case url_hostname ud netloc of
                        None \<Rightarrow> Inl invalid_url
                      | Some host \<Rightarrow>
                          andThen (if 58 \<in> set host then Inr (lower_cps ud host) else idna_hostname ud host)
                            (\<lambda>normalized_host.
                          andThen (case url_port netloc of Inl _ \<Rightarrow> Inl invalid_url | Inr p \<Rightarrow> Inr p) (\<lambda>port.
                          andThen (normalize_port scheme port (set (us_allowed_ports s))) (\<lambda>normalized_port.
                            let path = (if pr_path parsed = [] then [47] else pr_path parsed);
                                query = pr_query parsed
                            in if list_ex (\<lambda>c. c < 32) path \<or> list_ex (\<lambda>c. c < 32) query then Inl invalid_url
                               else Inr \<lparr>pu_original_scheme = scheme, pu_scheme = scheme,
                                      pu_hostname = normalized_host, pu_port = normalized_port,
                                      pu_path = path, pu_query = query,
                                      pu_canonical_without_query = build_canonical scheme
                                        (canonical_host_for_url normalized_host) normalized_port path\<rparr>))))))"

section \<open>url/destination.py: names of hosts\<close>

definition RESERVED_HOSTNAMES :: "codepoints list" where
  "RESERVED_HOSTNAMES = map cps [''localhost'', ''localhost.localdomain'', ''ip6-localhost'', ''ip6-loopback'']"

definition is_reserved_hostname :: "urldb \<Rightarrow> codepoints \<Rightarrow> bool" where
  "is_reserved_hostname ud hostname \<longleftrightarrow> lower_cps ud (rstrip_dots hostname) \<in> set RESERVED_HOSTNAMES"

definition hex_cp :: "nat \<Rightarrow> bool" where
  "hex_cp c \<longleftrightarrow> dec_cp c \<or> 97 \<le> c \<and> c \<le> 102 \<or> 65 \<le> c \<and> c \<le> 70"

text \<open>The anchor \<open>$\<close> also matches before a final line feed.\<close>

definition drop_eol :: "codepoints \<Rightarrow> codepoints" where
  "drop_eol s = (if s \<noteq> [] \<and> last s = 10 then butlast s else s)"

definition hex_form :: "codepoints \<Rightarrow> bool" where
  "hex_form h \<longleftrightarrow> (let s = drop_eol h in starts_cp (cps ''0x'') s \<and> length s > 2 \<and> list_all hex_cp (drop 2 s))"

definition digit_run :: "urldb \<Rightarrow> nat \<Rightarrow> codepoints \<Rightarrow> bool" where
  "digit_run ud n s \<longleftrightarrow> 1 \<le> length s \<and> length s \<le> n \<and> list_all (\<lambda>c. digit_cp ud c \<noteq> None) s"

definition dotted_form :: "urldb \<Rightarrow> codepoints \<Rightarrow> bool" where
  "dotted_form ud h \<longleftrightarrow>
     (let parts = split_cp 46 (drop_eol h)
      in 2 \<le> length parts \<and> length parts \<le> 4 \<and> list_all (digit_run ud 4) parts)"

definition part_value :: "urldb \<Rightarrow> codepoints \<Rightarrow> nat" where
  "part_value ud s = foldl (\<lambda>n c. 10 * n + (case digit_cp ud c of None \<Rightarrow> 0 | Some d \<Rightarrow> d)) 0 (drop_eol s)"

definition looks_like_nonstandard_ipv4 :: "urldb \<Rightarrow> codepoints \<Rightarrow> bool" where
  "looks_like_nonstandard_ipv4 ud hostname =
     (let host = lower_cps ud (rstrip_dots hostname); parts = split_cp 46 host
      in if hex_form host then True
         else if digit_run ud 10 (drop_eol host) then True
         else if \<not> dotted_form ud host then False
         else if length parts \<noteq> 4 then True
         else list_ex (\<lambda>p. (p \<noteq> cps ''0'' \<and> starts_cp (cps ''0'') p) \<or> part_value ud p > 255) parts)"

definition parse_ip_literal :: "urldb \<Rightarrow> codepoints \<Rightarrow> ip_address option" where
  "parse_ip_literal ud hostname =
     (let h = rstrip_dots hostname;
          host = (if h \<noteq> [] \<and> hd h = 91 \<and> last h = 93 then butlast (tl h) else h)
      in if looks_like_nonstandard_ipv4 ud host then None else ip_text ud host)"

definition assert_addresses_allowed :: "ip_address list \<Rightarrow> unit url_res" where
  "assert_addresses_allowed addresses =
     (if addresses = [] \<or> list_ex is_blocked_destination addresses
      then Inl (URLValidationError ''BLOCKED_DESTINATION'' None) else Inr ())"

section \<open>url/providers.py\<close>

record ProviderDescriptor =
  pd_id :: string
  pd_display_name :: string
  pd_exact_hostnames :: "codepoints list"
  pd_enabled :: bool
  pd_head_fallback_statuses :: "int list"

definition vk_hosts :: "codepoints list" where
  "vk_hosts = map cps [''vk.com'', ''www.vk.com'', ''m.vk.com'', ''vk.ru'', ''www.vk.ru'', ''m.vk.ru'',
     ''vkvideo.ru'', ''www.vkvideo.ru'', ''m.vkvideo.ru'']"

definition rutube_hosts :: "codepoints list" where
  "rutube_hosts = map cps [''rutube.ru'', ''www.rutube.ru'']"

definition ok_hosts :: "codepoints list" where
  "ok_hosts = map cps [''ok.ru'', ''www.ok.ru'', ''m.ok.ru'', ''mobile.ok.ru'', ''odnoklassniki.ru'',
     ''www.odnoklassniki.ru'', ''m.odnoklassniki.ru'', ''mobile.odnoklassniki.ru'']"

definition dzen_hosts :: "codepoints list" where
  "dzen_hosts = map cps [''dzen.ru'', ''www.dzen.ru'', ''zen.yandex.ru'', ''www.zen.yandex.ru'']"

definition build_default_providers :: "UrlSettings \<Rightarrow> ProviderDescriptor list" where
  "build_default_providers s =
     [\<lparr>pd_id = ProviderID_value VK, pd_display_name = ''VK'', pd_exact_hostnames = vk_hosts,
       pd_enabled = us_provider_enabled s VK, pd_head_fallback_statuses = [418, 405, 501]\<rparr>,
      \<lparr>pd_id = ProviderID_value RUTUBE, pd_display_name = ''Rutube'', pd_exact_hostnames = rutube_hosts,
       pd_enabled = us_provider_enabled s RUTUBE, pd_head_fallback_statuses = [405, 501]\<rparr>,
      \<lparr>pd_id = ProviderID_value OK_RU, pd_display_name = ''OK'', pd_exact_hostnames = ok_hosts,
       pd_enabled = us_provider_enabled s OK_RU, pd_head_fallback_statuses = [405, 501]\<rparr>,
      \<lparr>pd_id = ProviderID_value DZEN, pd_display_name = ''Dzen'', pd_exact_hostnames = dzen_hosts,
       pd_enabled = us_provider_enabled s DZEN, pd_head_fallback_statuses = [405, 501]\<rparr>]"

definition find_provider :: "urldb \<Rightarrow> ProviderDescriptor list \<Rightarrow> codepoints \<Rightarrow> ProviderDescriptor option" where
  "find_provider ud providers hostname =
     (let host = rstrip_dots (lower_cps ud hostname)
      in case find (\<lambda>p. host \<in> set (pd_exact_hostnames p)) providers of
           None \<Rightarrow> None
         | Some p \<Rightarrow> if \<not> pd_enabled p then None else Some p)"

definition resolve_provider :: "urldb \<Rightarrow> ProviderDescriptor list \<Rightarrow> codepoints \<Rightarrow> ProviderDescriptor url_res" where
  "resolve_provider ud providers hostname =
     (case find_provider ud providers hostname of
        None \<Rightarrow> Inl (URLValidationError ''UNSUPPORTED_PROVIDER'' None) | Some p \<Rightarrow> Inr p)"

section \<open>url/validate.py\<close>

record NormalizedMediaURL =
  nu_original_scheme :: codepoints
  nu_scheme :: codepoints
  nu_hostname :: codepoints
  nu_port :: "int option"
  nu_path :: codepoints
  nu_query :: codepoints
  nu_provider_id :: string
  nu_canonical :: codepoints

record URLValidationResult =
  vr_provider_id :: string
  vr_provider_display_name :: string
  vr_url :: NormalizedMediaURL
  vr_head_fallback_statuses :: "int list"

type_synonym dns = "codepoints \<Rightarrow> ip_address list url_res"

definition validate_inner ::
  "urldb \<Rightarrow> UrlSettings \<Rightarrow> ProviderDescriptor list \<Rightarrow> dns \<Rightarrow> codepoints \<Rightarrow> URLValidationResult url_res" where
  "validate_inner ud s providers resolver raw =
     andThen (parse_and_normalize ud s raw) (\<lambda>parsed.
       let hostname = pu_hostname parsed
       in if is_reserved_hostname ud hostname then Inl (URLValidationError ''BLOCKED_DESTINATION'' None)
          else if looks_like_nonstandard_ipv4 ud hostname
          then Inl (URLValidationError ''BLOCKED_DESTINATION'' None)
          else (case parse_ip_literal ud hostname of
                  Some literal \<Rightarrow>
                    andThen (assert_addresses_allowed [literal]) (\<lambda>_.
                      Inl (URLValidationError ''UNSUPPORTED_PROVIDER'' None))
                | None \<Rightarrow>
                    andThen (resolve_provider ud providers hostname) (\<lambda>provider.
                    andThen (resolver hostname) (\<lambda>addresses.
                    andThen (assert_addresses_allowed addresses) (\<lambda>_.
                      Inr \<lparr>vr_provider_id = pd_id provider,
                           vr_provider_display_name = pd_display_name provider,
                           vr_url = \<lparr>nu_original_scheme = pu_original_scheme parsed,
                             nu_scheme = pu_scheme parsed, nu_hostname = hostname,
                             nu_port = pu_port parsed, nu_path = pu_path parsed,
                             nu_query = pu_query parsed, nu_provider_id = pd_id provider,
                             nu_canonical = pu_canonical_without_query parsed\<rparr>,
                           vr_head_fallback_statuses = pd_head_fallback_statuses provider\<rparr>)))))"

text \<open>Any other exception becomes the internal error.\<close>

definition validate ::
  "urldb \<Rightarrow> UrlSettings \<Rightarrow> ProviderDescriptor list \<Rightarrow> dns \<Rightarrow> codepoints \<Rightarrow> URLValidationResult url_res" where
  "validate ud s providers resolver raw =
     (case validate_inner ud s providers resolver raw of
        Inl (URLValidationError c reason) \<Rightarrow> Inl (URLValidationError c reason)
      | Inl _ \<Rightarrow> Inl (URLValidationError ''INTERNAL_ERROR'' None)
      | Inr r \<Rightarrow> Inr r)"

section \<open>What the code relies on\<close>

definition urldb_laws :: "urldb \<Rightarrow> bool" where
  "urldb_laws ud \<longleftrightarrow>
     (\<forall>t. list_all (\<lambda>c. c < 128) t \<longrightarrow> lower_cps ud t = map lower_ascii_cp t) \<and>
     (\<forall>t. 58 \<in> set t \<longrightarrow> 58 \<in> set (lower_cps ud t)) \<and>
     (\<forall>t e. idna_other ud t = Some e \<longrightarrow> list_all (\<lambda>c. c < 128) e) \<and>
     (\<forall>c < 128. space_cp ud c \<longleftrightarrow> c \<in> {9, 10, 11, 12, 13, 28, 29, 30, 31, 32}) \<and>
     (\<forall>c < 128. digit_cp ud c \<noteq> None \<longleftrightarrow> dec_cp c)"

lemma lower_cps_ascii: "urldb_laws ud \<Longrightarrow> list_all (\<lambda>c. c < 128) t \<Longrightarrow> lower_cps ud t = map lower_ascii_cp t"
  by (simp add: urldb_laws_def)

lemma lower_ascii_idem [simp]: "lower_ascii_cp (lower_ascii_cp c) = lower_ascii_cp c"
  by (simp add: lower_ascii_cp_def)

section \<open>What parsing yields\<close>

definition clean_scheme :: "codepoints \<Rightarrow> bool" where
  "clean_scheme t \<longleftrightarrow> t \<noteq> [] \<and> alpha_cp (hd t) \<and> list_all scheme_cp t \<and> map lower_ascii_cp t = t"

definition clean_path :: "codepoints \<Rightarrow> codepoints \<Rightarrow> bool" where
  "clean_path scheme path \<longleftrightarrow> path \<noteq> [] \<and> hd path = 47 \<and>
     list_all (\<lambda>c. 32 \<le> c \<and> c \<notin> {35, 63}) path \<and>
     (scheme \<in> set uses_params \<longrightarrow> 59 \<notin> set (after_last 47 path))"

definition clean_port :: "UrlSettings \<Rightarrow> codepoints \<Rightarrow> int option \<Rightarrow> bool" where
  "clean_port s scheme port \<longleftrightarrow>
     (case port of
        None \<Rightarrow> default_port scheme \<in> set (us_allowed_ports s)
      | Some p \<Rightarrow> p \<in> set (us_allowed_ports s) \<and> p \<noteq> default_port scheme \<and> 0 \<le> p \<and> p \<le> 65535)"

lemma take_scheme_clean:
  assumes "take_scheme url = (scheme, rest)" and "scheme \<noteq> []"
  shows "clean_scheme scheme"
proof -
  let ?s = "before_cp 58 url"
  have s: "scheme = map lower_ascii_cp ?s" "?s \<noteq> []" "alpha_cp (hd ?s)" "list_all scheme_cp ?s"
    using assms by (auto simp: take_scheme_def Let_def split: if_splits)
  have "scheme_cp (lower_ascii_cp c)" if "scheme_cp c" for c
    using that by (auto simp: scheme_cp_def lower_ascii_cp_def alpha_cp_def dec_cp_def)
  moreover have "alpha_cp (lower_ascii_cp (hd ?s))"
    using s(3) by (auto simp: lower_ascii_cp_def alpha_cp_def)
  ultimately show ?thesis
    using s by (auto simp: clean_scheme_def list_all_iff hd_map comp_def)
qed

lemma set_before: "set (before_cp c t) \<subseteq> set t - {c}"
  by (auto simp: before_cp_def dest: set_takeWhileD)

lemma set_after_last: "set (after_last c t) \<subseteq> set t - {c}"
  by (auto simp: after_last_def dest: set_takeWhileD)

lemma after_last_append:
  assumes "c \<notin> set b"
  shows "after_last c (a @ b) = (if c \<in> set a then after_last c a @ b else a @ b)"
proof -
  have "takeWhile (\<lambda>x. x \<noteq> c) (rev b @ rev a) = rev b @ takeWhile (\<lambda>x. x \<noteq> c) (rev a)"
    by (rule takeWhile_append2) (use assms in auto)
  then have eq: "after_last c (a @ b) = rev (takeWhile (\<lambda>x. x \<noteq> c) (rev a)) @ b" by (simp add: after_last_def)
  show ?thesis
  proof (cases "c \<in> set a")
    case False
    then have "takeWhile (\<lambda>x. x \<noteq> c) (rev a) = rev a" unfolding takeWhile_eq_all_conv by auto
    with eq False show ?thesis by (simp only: rev_rev_ident if_False)
  next
    case True
    then show ?thesis unfolding eq by (simp add: after_last_def)
  qed
qed

lemma split_after_last:
  assumes "c \<in> set t"
  shows "\<exists>pre. t = pre @ [c] @ after_last c t"
proof -
  have "t = rev (dropWhile (\<lambda>x. x \<noteq> c) (rev t)) @ after_last c t"
    unfolding after_last_def rev_append [symmetric] by simp
  moreover have "dropWhile (\<lambda>x. x \<noteq> c) (rev t) \<noteq> []" using assms by (simp add: dropWhile_eq_Nil_conv)
  then obtain d ds where d: "dropWhile (\<lambda>x. x \<noteq> c) (rev t) = d # ds" by (cases "dropWhile (\<lambda>x. x \<noteq> c) (rev t)") auto
  then have "d = c" using hd_dropWhile [of "\<lambda>x. x \<noteq> c" "rev t"] by simp
  ultimately show ?thesis using d by (metis append.assoc rev.simps(2))
qed

lemma drop_params_clean:
  assumes "hd path = 47" and "path \<noteq> []"
  shows "hd (drop_params path) = 47" "drop_params path \<noteq> []" "set (drop_params path) \<subseteq> set path"
    "59 \<notin> set (after_last 47 (drop_params path))"
proof -
  have "47 \<in> set path" using assms hd_in_set by metis
  then obtain pre where pre: "path = pre @ [47] @ after_last 47 path" using split_after_last by blast
  let ?l = "after_last 47 path"
  have l: "47 \<notin> set ?l" using set_after_last by blast
  have take: "take (length path - length ?l) path = pre @ [47]"
    by (subst (3) pre, subst pre) simp
  let ?d = "drop_params path"
  have d: "?d = pre @ [47] @ (if 59 \<in> set ?l then before_cp 59 ?l else ?l)"
    using take pre by (auto simp: drop_params_def Let_def)
  have hd: "hd (pre @ [47]) = 47" using assms pre by (cases pre) (auto, metis hd_append2 list.sel(1) list.simps(3))
  show "?d \<noteq> []" using d by simp
  show "hd ?d = 47" unfolding d using hd by (cases pre) auto
  have sub: "set (before_cp 59 ?l) \<subseteq> set ?l - {59}" by (rule set_before)
  have "set path = set pre \<union> {47} \<union> set ?l" by (subst pre) auto
  then show "set ?d \<subseteq> set path" unfolding d using sub by auto
  have "after_last 47 ?d = (if 59 \<in> set ?l then before_cp 59 ?l else ?l)"
    unfolding d append_assoc [symmetric]
    by (subst after_last_append) (use l sub in \<open>auto simp: after_last_def\<close>)
  then show "59 \<notin> set (after_last 47 ?d)" using sub by auto
qed

lemma filter_clean: "c \<in> set (takeWhile P (filter Q t)) \<Longrightarrow> Q c"
  by (auto dest: set_takeWhileD)

lemma take_scheme_rest: "take_scheme url = (scheme, rest) \<Longrightarrow> set rest \<subseteq> set url"
  by (auto simp: take_scheme_def after_cp_def Let_def dest!: in_set_dropD set_dropWhileD split: if_splits)

lemma urlparse_clean:
  assumes "urlparse ud raw = Inr p" and "pr_scheme p \<noteq> []" and "pr_netloc p \<noteq> []"
    and "\<not> list_ex (\<lambda>c. c < 32) (pr_path p)"
  shows "clean_scheme (pr_scheme p)"
    and "clean_path (pr_scheme p) (if pr_path p = [] then [47] else pr_path p)"
    and "set (pr_netloc p) \<inter> {47, 63, 35} = {}"
proof -
  define url where "url = filter (\<lambda>c. c \<notin> {9, 10, 13}) (dropWhile (\<lambda>c. c \<le> 32) raw)"
  obtain scheme rest where sr: "take_scheme url = (scheme, rest)" by fastforce
  define delim :: "nat \<Rightarrow> bool" where "delim = (\<lambda>c. c \<in> {47, 63, 35})"
  define tail where "tail = (if starts_cp [47, 47] rest then dropWhile (\<lambda>c. \<not> delim c) (drop 2 rest) else rest)"
  define net where "net = (if starts_cp [47, 47] rest then takeWhile (\<lambda>c. \<not> delim c) (drop 2 rest) else [])"
  let ?path = "before_cp 63 (before_cp 35 tail)"
  have p: "p = \<lparr>pr_scheme = scheme, pr_netloc = net,
      pr_path = (if scheme \<in> set uses_params then drop_params ?path else ?path),
      pr_query = after_cp 63 (before_cp 35 tail)\<rparr>"
    using assms(1) sr unfolding urlparse_def Let_def url_def [symmetric] net_def tail_def delim_def
    by (auto split: if_split_asm)
  have scheme: "scheme \<noteq> []" using assms(2) p by simp
  from take_scheme_clean [OF sr scheme] show "clean_scheme (pr_scheme p)" using p by simp
  have net: "net \<noteq> []" using assms(3) p by simp
  then have tail: "tail = dropWhile (\<lambda>c. \<not> delim c) (drop 2 rest)" by (auto simp: tail_def net_def split: if_splits)
  show "set (pr_netloc p) \<inter> {47, 63, 35} = {}"
    using p by (auto simp: net_def delim_def dest: set_takeWhileD)
  have hd: "hd ?path = 47" if "?path \<noteq> []"
  proof -
    from that have "tail \<noteq> []" by (auto simp: before_cp_def)
    then have "delim (hd tail)" unfolding tail using hd_dropWhile by blast
    moreover obtain t ts where t: "tail = t # ts" using \<open>tail \<noteq> []\<close> by (cases tail) auto
    ultimately show ?thesis using that by (auto simp: before_cp_def delim_def split: if_splits)
  qed
  have nodelim: "set ?path \<inter> {35, 63} = {}" using set_before by blast
  show "clean_path (pr_scheme p) (if pr_path p = [] then [47] else pr_path p)"
  proof (cases "pr_path p = []")
    case True
    then show ?thesis by (simp add: clean_path_def after_last_def)
  next
    case False
    have "drop_params [] = []" by (simp add: drop_params_def after_last_def)
    then have ne: "?path \<noteq> []" using False p by (cases "?path = []") (simp_all split: if_splits)
    note dp = drop_params_clean [OF hd [OF ne] ne]
    show ?thesis
    proof (cases "scheme \<in> set uses_params")
      case True
      with p have "pr_path p = drop_params ?path" by simp
      with p False dp nodelim assms(4) True show ?thesis
        by (auto simp: clean_path_def list_all_iff list_ex_iff)
    next
      case no: False
      with p have "pr_path p = ?path" by simp
      with p False hd [OF ne] nodelim assms(4) no show ?thesis
        by (auto simp: clean_path_def list_all_iff list_ex_iff)
    qed
  qed
qed

lemma normalize_port_clean:
  assumes "url_port netloc = Inr port" and "normalize_port scheme port (set (us_allowed_ports s)) = Inr port'"
  shows "clean_port s scheme port'"
proof (cases port)
  case None
  with assms(2) show ?thesis by (auto simp: normalize_port_def clean_port_def split: if_splits)
next
  case (Some q)
  have "0 \<le> q \<and> q \<le> 65535"
  proof -
    have digits: "list_all dec_cp (snd (hostinfo netloc))" "q = number_cps (snd (hostinfo netloc))" "q \<le> 65535"
      using assms(1) Some by (auto simp: url_port_def Let_def split: if_splits)
    have "0 \<le> n \<Longrightarrow> list_all dec_cp t \<Longrightarrow> 0 \<le> foldl (\<lambda>n c. 10 * n + (int c - 48)) n t" for n t
      by (induction t arbitrary: n) (auto simp: dec_cp_def)
    from this [OF _ digits(1), of 0] digits(2,3) show ?thesis by (simp add: number_cps_def)
  qed
  with assms(2) Some show ?thesis by (auto simp: normalize_port_def clean_port_def split: if_splits)
qed

lemma parse_and_normalizeD:
  assumes "parse_and_normalize ud s raw = Inr p"
  shows "pu_scheme p \<in> set (us_allowed_schemes s)" "clean_scheme (pu_scheme p)"
    "clean_path (pu_scheme p) (pu_path p)" "clean_port s (pu_scheme p) (pu_port p)"
    "pu_original_scheme p = pu_scheme p"
    "pu_canonical_without_query p =
       build_canonical (pu_scheme p) (canonical_host_for_url (pu_hostname p)) (pu_port p) (pu_path p)"
    "\<exists>host. (if 58 \<in> set host then Inr (lower_cps ud host) else idna_hostname ud host) = Inr (pu_hostname p)"
proof -
  obtain q where q: "urlparse ud (strip_cp ud raw) = Inr q"
    using assms by (auto simp: parse_and_normalize_def Let_def andThen_eq_Inr split: if_split_asm)
  have ne: "pr_scheme q \<noteq> []" "pr_netloc q \<noteq> []" and allowed: "pr_scheme q \<in> set (us_allowed_schemes s)"
    using assms q by (auto simp: parse_and_normalize_def Let_def andThen_eq_Inr split: if_split_asm)
  obtain host where host: "url_hostname ud (pr_netloc q) = Some host"
    using assms q by (cases "url_hostname ud (pr_netloc q)")
      (auto simp: parse_and_normalize_def Let_def andThen_eq_Inr split: if_split_asm)
  obtain h where h: "(if 58 \<in> set host then Inr (lower_cps ud host) else idna_hostname ud host) = Inr h"
    using assms q host ne allowed
    by (auto simp: parse_and_normalize_def Let_def andThen_eq_Inr split: if_split_asm)
  obtain port where port: "url_port (pr_netloc q) = Inr port"
    using assms q host h ne allowed
    by (cases "url_port (pr_netloc q)") (auto simp: parse_and_normalize_def Let_def andThen_eq_Inr split: if_split_asm)
  obtain port' where port': "normalize_port (pr_scheme q) port (set (us_allowed_ports s)) = Inr port'"
    using assms q host h port ne allowed
    by (auto simp: parse_and_normalize_def Let_def andThen_eq_Inr split: if_split_asm)
  let ?path = "if pr_path q = [] then [47] else pr_path q"
  have ctl: "\<not> list_ex (\<lambda>c. c < 32) ?path" and p: "p = \<lparr>pu_original_scheme = pr_scheme q, pu_scheme = pr_scheme q,
      pu_hostname = h, pu_port = port', pu_path = ?path, pu_query = pr_query q,
      pu_canonical_without_query = build_canonical (pr_scheme q) (canonical_host_for_url h) port' ?path\<rparr>"
    using assms q host h port port' ne allowed
    by (auto simp: parse_and_normalize_def Let_def split: if_split_asm)
  have "\<not> list_ex (\<lambda>c. c < 32) (pr_path q)" using ctl by (auto split: if_splits)
  note u = urlparse_clean [OF q ne this]
  show "pu_scheme p \<in> set (us_allowed_schemes s)" "clean_scheme (pu_scheme p)"
    "clean_path (pu_scheme p) (pu_path p)" "clean_port s (pu_scheme p) (pu_port p)"
    "pu_original_scheme p = pu_scheme p"
    "pu_canonical_without_query p =
       build_canonical (pu_scheme p) (canonical_host_for_url (pu_hostname p)) (pu_port p) (pu_path p)"
    using allowed u normalize_port_clean [OF port port'] by (simp_all add: p)
  show "\<exists>host. (if 58 \<in> set host then Inr (lower_cps ud host) else idna_hostname ud host) = Inr (pu_hostname p)"
    by (rule exI [of _ host]) (use h in \<open>simp add: p\<close>)
qed

section \<open>Reading back a canonical URL\<close>

text \<open>A host as the provider tables have them: lower-case labels.\<close>

definition plain_host :: "codepoints \<Rightarrow> bool" where
  "plain_host h \<longleftrightarrow> h \<noteq> [] \<and> list_all (\<lambda>c. 97 \<le> c \<and> c \<le> 122 \<or> dec_cp c \<or> c \<in> {45, 46}) h \<and>
     hd h \<noteq> 46 \<and> last h \<noteq> 46 \<and> \<not> has_infix [46, 46] h \<and>
     list_all (\<lambda>l. 0 < length l \<and> length l < 64) (split_cp 46 h)"

lemma plain_hostD:
  assumes "plain_host h" and "c \<in> set h"
  shows "c < 128" "quote_safe c" "lower_ascii_cp c = c" "c \<notin> {35, 37, 47, 58, 63, 64, 91, 93, 9, 10, 13}" "32 < c"
  using assms by (auto simp: plain_host_def list_all_iff dec_cp_def quote_safe_def alpha_cp_def lower_ascii_cp_def)

lemma quote_plain: "plain_host h \<Longrightarrow> quote_host h = h"
proof -
  assume "plain_host h"
  then have "\<forall>c \<in> set h. quote_safe c" using plain_hostD(2) by blast
  then show ?thesis by (induction h) (auto simp: quote_host_def)
qed

lemma lower_plain: "urldb_laws ud \<Longrightarrow> plain_host h \<Longrightarrow> lower_cps ud h = h"
  using plain_hostD(1,3) by (subst lower_cps_ascii) (auto simp: list_all_iff intro: map_idI)

lemma rstrip_dots_plain: "h \<noteq> [] \<Longrightarrow> last h \<noteq> 46 \<Longrightarrow> rstrip_dots h = h"
  by (simp add: rstrip_dots_def dropWhile_hd hd_rev)

lemma starts_one: "starts_cp [c] h \<longleftrightarrow> h \<noteq> [] \<and> hd h = c"
  by (cases h) (auto simp: starts_cp_def)

lemma idna_plain:
  assumes "plain_host h"
  shows "idna_hostname ud h = Inr h"
proof -
  have h: "h \<noteq> []" "hd h \<noteq> 46" "last h \<noteq> 46" "\<not> has_infix [46, 46] h"
    "list_all (\<lambda>l. 0 < length l \<and> length l < 64) (split_cp 46 h)" using assms by (simp_all add: plain_host_def)
  have parts: "split_cp 46 h \<noteq> []" by (cases h) (auto split: list.splits)
  have "list_all (\<lambda>c. c < 128) h" "37 \<notin> set h" "map lower_ascii_cp h = h"
    using plain_hostD [OF assms] by (auto simp: list_all_iff intro: map_idI)
  moreover have "list_all (\<lambda>l. 0 < length l \<and> length l < 64) (butlast (split_cp 46 h))" "length (last (split_cp 46 h)) < 64"
    using h(5) parts by (auto simp: list_all_iff dest: in_set_butlastD)
  ultimately have "idna_encode ud h = Some h" by (simp add: idna_encode_def Let_def)
  then show ?thesis
    using h \<open>37 \<notin> set h\<close> \<open>map lower_ascii_cp h = h\<close>
    by (simp add: idna_hostname_def rstrip_dots_plain Let_def starts_one)
qed

lemma number_show: "0 \<le> q \<Longrightarrow> number_cps (cps (show_int q)) = q"
proof -
  have "number_cps (cps t) = decimal_value t" for t
  proof -
    have "foldl (\<lambda>n c. 10 * n + (int c - 48)) a (map of_char t) = foldl (\<lambda>a c. 10 * a + digit_value c) a t" for a
      by (induction t arbitrary: a) (auto simp: digit_value_def)
    then show ?thesis by (simp add: number_cps_def cps_def decimal_value_def)
  qed
  then show "0 \<le> q \<Longrightarrow> number_cps (cps (show_int q)) = q" by (simp add: show_int_def show_nat_value)
qed

lemma show_digits: "0 \<le> q \<Longrightarrow> list_all dec_cp (cps (show_int q)) \<and> cps (show_int q) \<noteq> [] \<and> show_int q \<noteq> []"
  using show_nat_digits [of "nat q"] show_nat_nonempty [of "nat q"]
  by (auto simp: show_int_def cps_def list_all_iff dec_cp_def digit_ascii_def)

lemma suffix_facts:
  assumes "clean_port s scheme port"
  shows "after_cp 58 (h @ port_suffix port) = (if 58 \<in> set h then after_cp 58 h @ port_suffix port
       else drop 1 (port_suffix port))"
    and "set (port_suffix port) \<subseteq> {c. dec_cp c \<or> c = 58}"
    and "58 \<notin> set h \<Longrightarrow> before_cp 58 (h @ port_suffix port) = h"
proof -
  have digits: "set (port_suffix port) \<subseteq> {c. dec_cp c \<or> c = 58}"
    using assms show_digits by (auto simp: clean_port_def port_suffix_def list_all_iff split: option.splits)
  then show "set (port_suffix port) \<subseteq> {c. dec_cp c \<or> c = 58}" .
  have hd: "port_suffix port = [] \<or> hd (port_suffix port) = 58"
    by (auto simp: port_suffix_def split: option.split)
  show "after_cp 58 (h @ port_suffix port) = (if 58 \<in> set h then after_cp 58 h @ port_suffix port
       else drop 1 (port_suffix port))"
  proof (cases "58 \<in> set h")
    case True
    then have "dropWhile (\<lambda>x. x \<noteq> 58) (h @ port_suffix port) = dropWhile (\<lambda>x. x \<noteq> 58) h @ port_suffix port"
      "dropWhile (\<lambda>x. x \<noteq> 58) h \<noteq> []" by (auto simp: dropWhile_append1)
    with True show ?thesis by (cases "dropWhile (\<lambda>x. x \<noteq> 58) h") (auto simp: after_cp_def)
  next
    case False
    then have "dropWhile (\<lambda>x. x \<noteq> 58) (h @ port_suffix port) = dropWhile (\<lambda>x. x \<noteq> 58) (port_suffix port)"
      by (subst dropWhile_append2) auto
    also have "\<dots> = port_suffix port" using hd by (cases "port_suffix port") auto
    finally show ?thesis using False by (simp add: after_cp_def)
  qed
  assume "58 \<notin> set h"
  then have "takeWhile (\<lambda>x. x \<noteq> 58) (h @ port_suffix port) = h @ takeWhile (\<lambda>x. x \<noteq> 58) (port_suffix port)"
    by (intro takeWhile_append2) auto
  then show "before_cp 58 (h @ port_suffix port) = h"
    using hd by (cases "port_suffix port") (auto simp: before_cp_def)
qed

lemma takeWhile_stop: "\<forall>x \<in> set a. P x \<Longrightarrow> \<not> P b \<Longrightarrow> takeWhile P (a @ b # bs) = a"
  by (simp add: takeWhile_append2)

lemma dropWhile_stop: "\<forall>x \<in> set a. P x \<Longrightarrow> \<not> P b \<Longrightarrow> dropWhile P (a @ b # bs) = b # bs"
  by (simp add: dropWhile_append2)

lemma before_none: "c \<notin> set t \<Longrightarrow> before_cp c t = t"
  unfolding before_cp_def takeWhile_eq_all_conv by auto

lemma after_none: "c \<notin> set t \<Longrightarrow> after_cp c t = []"
proof -
  assume "c \<notin> set t"
  then have "dropWhile (\<lambda>x. x \<noteq> c) t = []" unfolding dropWhile_eq_Nil_conv by auto
  then show ?thesis by (simp only: after_cp_def drop_Nil)
qed

lemma after_last_none: "c \<notin> set t \<Longrightarrow> after_last c t = t"
  using after_last_append [of c t "[]"] by simp

lemma clean_schemeD:
  assumes "clean_scheme t"
  shows "58 \<notin> set t" "t \<noteq> []" "alpha_cp (hd t)" "\<forall>c \<in> set t. c \<notin> {9, 10, 13} \<and> 32 < c \<and> c < 128"
  using assms by (auto simp: clean_scheme_def list_all_iff scheme_cp_def alpha_cp_def dec_cp_def)

lemma strip_plain: "t \<noteq> [] \<Longrightarrow> \<not> space_cp ud (hd t) \<Longrightarrow> \<not> space_cp ud (last t) \<Longrightarrow> strip_cp ud t = t"
  by (simp add: strip_cp_def dropWhile_hd hd_rev)

lemma urlparse_canonical:
  assumes "clean_scheme scheme" and "clean_path scheme path"
    and "net \<noteq> []" and "\<forall>c \<in> set net. c < 128 \<and> 32 < c \<and> c \<notin> {35, 47, 63, 91, 93}"
  shows "urlparse ud (scheme @ [58, 47, 47] @ net @ path) =
     Inr \<lparr>pr_scheme = scheme, pr_netloc = net, pr_path = path, pr_query = []\<rparr>"
proof -
  let ?u = "scheme @ [58, 47, 47] @ net @ path"
  note sc = clean_schemeD [OF assms(1)]
  have path: "path \<noteq> []" "hd path = 47" "\<forall>c \<in> set path. 32 \<le> c \<and> c \<noteq> 35 \<and> c \<noteq> 63"
    "scheme \<in> set uses_params \<Longrightarrow> 59 \<notin> set (after_last 47 path)"
    using assms(2) by (auto simp: clean_path_def list_all_iff)
  then obtain p where p: "path = 47 # p" by (cases path) auto
  have 32: "\<not> hd scheme \<le> 32" using sc(2,4) hd_in_set by fastforce
  have "dropWhile (\<lambda>c. c \<le> 32) ?u = ?u" by (rule dropWhile_hd) (use 32 sc(2) in simp_all)
  moreover have "filter (\<lambda>c. c \<notin> {9, 10, 13}) ?u = ?u"
    unfolding filter_id_conv using sc(4) assms(4) path(3) by fastforce
  ultimately have url: "filter (\<lambda>c. c \<notin> {9, 10, 13}) (dropWhile (\<lambda>c. c \<le> 32) ?u) = ?u" by (simp only:)
  have before: "before_cp 58 ?u = scheme" and after: "after_cp 58 ?u = [47, 47] @ net @ path"
  proof -
    have "\<forall>x \<in> set scheme. x \<noteq> 58" using sc(1) by auto
    then have "takeWhile (\<lambda>x. x \<noteq> 58) (scheme @ 58 # 47 # 47 # net @ path) = scheme"
      "dropWhile (\<lambda>x. x \<noteq> 58) (scheme @ 58 # 47 # 47 # net @ path) = 58 # 47 # 47 # net @ path"
      by (simp_all only: takeWhile_stop dropWhile_stop not_True_eq_False not_False_eq_True)
    then show "before_cp 58 ?u = scheme" "after_cp 58 ?u = [47, 47] @ net @ path"
      by (simp_all add: before_cp_def after_cp_def)
  qed
  have low: "map lower_ascii_cp scheme = scheme" "list_all scheme_cp scheme" using assms(1) by (simp_all add: clean_scheme_def)
  have ts: "take_scheme ?u = (scheme, [47, 47] @ net @ path)"
    unfolding take_scheme_def before after Let_def using sc low by simp
  have tw: "takeWhile (\<lambda>c. c \<notin> {47, 63, 35}) (net @ path) = net" "dropWhile (\<lambda>c. c \<notin> {47, 63, 35}) (net @ path) = path"
    unfolding p using assms(4) by (auto intro!: takeWhile_stop dropWhile_stop)
  have par: "(if scheme \<in> set uses_params then drop_params path else path) = path"
    using path(4) by (simp add: drop_params_def Let_def)
  have net: "91 \<notin> set net" "93 \<notin> set net" "netloc_ok ud net"
    using assms(4) by (auto simp: netloc_ok_def list_all_iff)
  have bq: "before_cp 35 path = path" "before_cp 63 path = path" "after_cp 63 path = []"
    using path(3) by (auto intro!: before_none after_none)
  have rest: "starts_cp [47, 47] ([47, 47] @ net @ path)" "drop 2 ([47, 47] @ net @ path) = net @ path"
    by (simp_all add: starts_cp_def)
  show ?thesis
    by (simp only: urlparse_def url ts Let_def prod.case rest if_True tw bq net par simp_thms if_False)
qed

lemma parse_canonical:
  assumes laws: "urldb_laws ud" and "clean_scheme scheme" and "scheme \<in> set (us_allowed_schemes s)"
    and "clean_path scheme path" and "clean_port s scheme port" and h: "plain_host h"
    and "\<not> space_cp ud (last path)"
    and "int (length (build_canonical scheme (canonical_host_for_url h) port path)) \<le> us_max_length s"
  shows "parse_and_normalize ud s (build_canonical scheme (canonical_host_for_url h) port path) =
     Inr \<lparr>pu_original_scheme = scheme, pu_scheme = scheme, pu_hostname = h, pu_port = port, pu_path = path,
       pu_query = [], pu_canonical_without_query = build_canonical scheme (canonical_host_for_url h) port path\<rparr>"
proof -
  let ?net = "h @ port_suffix port"
  have no58: "58 \<notin> set h" using plain_hostD(4) [OF h] by blast
  have path: "path \<noteq> []" "hd path = 47" "\<not> list_ex (\<lambda>c. c < 32) path"
    using assms(4) by (auto simp: clean_path_def list_all_iff list_ex_iff)
  then have c: "build_canonical scheme (canonical_host_for_url h) port path = scheme @ [58, 47, 47] @ ?net @ path"
    using no58 quote_plain [OF h] by (simp add: build_canonical_def unparse_url_def canonical_host_for_url_def)
  note sc = clean_schemeD [OF assms(2)]
  let ?c = "scheme @ [58, 47, 47] @ ?net @ path"
  have ne: "?c \<noteq> []" "hd ?c = hd scheme" "last ?c = last path" using sc(2) path(1) by simp_all
  have "\<not> space_cp ud (hd scheme)"
    using laws sc(3) by (auto simp: urldb_laws_def alpha_cp_def)
  then have st: "strip_cp ud ?c = ?c" using strip_plain [OF ne(1)] assms(7) ne by simp
  have len: "\<not> int (length ?c) > us_max_length s" using assms(8) unfolding c by simp
  have sl: "\<not> starts_cp [47, 47] ?c" using sc(2,3) by (cases scheme) (auto simp: starts_cp_def alpha_cp_def)
  note suf = suffix_facts [OF assms(5)]
  have net: "\<forall>c \<in> set ?net. c < 128 \<and> 32 < c \<and> c \<notin> {35, 47, 63, 91, 93}" "64 \<notin> set ?net" "91 \<notin> set ?net" "?net \<noteq> []"
    using plain_hostD [OF h] suf(2) h by (auto simp: plain_host_def dec_cp_def subset_iff)
  note up = urlparse_canonical [OF assms(2,4) net(4,1)]
  have hi: "hostinfo ?net = (h, drop 1 (port_suffix port))"
    using suf(1) suf(3) [OF no58] no58 net(3) by (simp add: hostinfo_def after_last_none [OF net(2)])
  have hp: "h \<noteq> []" "37 \<notin> set h" using h plain_hostD(4) [OF h] by (auto simp: plain_host_def)
  have host: "url_hostname ud ?net = Some h"
    using hp lower_plain [OF laws h] before_none [OF hp(2)]
    by (auto simp: url_hostname_def hi Let_def dropWhile_eq_Nil_conv)
  have port: "url_port ?net = Inr port"
    unfolding url_port_def hi Let_def snd_conv
    using assms(5) show_digits number_show
    by (auto simp: port_suffix_def clean_port_def split: option.splits)
  have np: "normalize_port scheme port (set (us_allowed_ports s)) = Inr port"
    using assms(5) by (auto simp: normalize_port_def clean_port_def split: option.splits)
  show ?thesis
    unfolding c
    by (simp only: parse_and_normalize_def st len sl up andThen_Inr Let_def if_False ne(1) parse_result.simps
        sc(2) net(4) net(2) simp_thms host option.case no58 idna_plain [OF h] port sum.case np)
      (simp add: assms(3) path c)
qed

section \<open>Nothing else is accepted\<close>

definition provider_hosts :: "ProviderID \<Rightarrow> codepoints list" where
  "provider_hosts p = (case p of VK \<Rightarrow> vk_hosts | RUTUBE \<Rightarrow> rutube_hosts | OK_RU \<Rightarrow> ok_hosts | DZEN \<Rightarrow> dzen_hosts)"

lemma hosts_plain:
  "list_all plain_host vk_hosts" "list_all plain_host rutube_hosts" "list_all plain_host ok_hosts"
  "list_all plain_host dzen_hosts"
  by code_simp+

lemma provider_hosts_plain: "list_all plain_host (provider_hosts p)"
  using hosts_plain by (cases p) (simp_all only: provider_hosts_def ProviderID.case)

lemma find_default:
  assumes "find_provider ud (build_default_providers s) hostname = Some d"
  obtains p where "us_provider_enabled s p" "pd_id d = ProviderID_value p" "pd_exact_hostnames d = provider_hosts p"
    "rstrip_dots (lower_cps ud hostname) \<in> set (provider_hosts p)"
proof -
  let ?h = "rstrip_dots (lower_cps ud hostname)"
  have f: "find (\<lambda>p. ?h \<in> set (pd_exact_hostnames p)) (build_default_providers s) = Some d" "pd_enabled d"
    using assms by (auto simp: find_provider_def Let_def split: option.splits if_splits)
  then have "d \<in> set (build_default_providers s)" "?h \<in> set (pd_exact_hostnames d)" by (auto simp: find_Some_iff)
  then have "\<exists>p. pd_id d = ProviderID_value p \<and> pd_exact_hostnames d = provider_hosts p \<and> pd_enabled d = us_provider_enabled s p"
    by (auto simp: build_default_providers_def provider_hosts_def split: ProviderID.split)
  with f \<open>?h \<in> set (pd_exact_hostnames d)\<close> that show thesis by metis
qed

lemma validateD:
  assumes "validate ud s providers resolver raw = Inr r"
  obtains p d addrs where "parse_and_normalize ud s raw = Inr p" "find_provider ud providers (pu_hostname p) = Some d"
    "\<not> is_reserved_hostname ud (pu_hostname p)" "\<not> looks_like_nonstandard_ipv4 ud (pu_hostname p)"
    "parse_ip_literal ud (pu_hostname p) = None" "resolver (pu_hostname p) = Inr addrs" "addrs \<noteq> []"
    "\<not> list_ex is_blocked_destination addrs"
    "r = \<lparr>vr_provider_id = pd_id d, vr_provider_display_name = pd_display_name d,
       vr_url = \<lparr>nu_original_scheme = pu_original_scheme p, nu_scheme = pu_scheme p, nu_hostname = pu_hostname p,
         nu_port = pu_port p, nu_path = pu_path p, nu_query = pu_query p, nu_provider_id = pd_id d,
         nu_canonical = pu_canonical_without_query p\<rparr>,
       vr_head_fallback_statuses = pd_head_fallback_statuses d\<rparr>"
proof -
  have inner: "validate_inner ud s providers resolver raw = Inr r"
    using assms by (auto simp: validate_def split: sum.splits url_error.splits)
  then obtain p where p: "parse_and_normalize ud s raw = Inr p" by (auto simp: validate_inner_def andThen_eq_Inr)
  note run = inner [unfolded validate_inner_def p andThen_Inr Let_def]
  have none: "parse_ip_literal ud (pu_hostname p) = None"
    using run by (cases "parse_ip_literal ud (pu_hostname p)") (auto simp: andThen_eq_Inr split: if_splits)
  obtain d where d: "find_provider ud providers (pu_hostname p) = Some d"
    using run none by (cases "find_provider ud providers (pu_hostname p)")
      (auto simp: resolve_provider_def andThen_eq_Inr split: if_splits)
  obtain addrs where a: "resolver (pu_hostname p) = Inr addrs"
    using run none d by (auto simp: resolve_provider_def andThen_eq_Inr split: if_splits)
  show thesis
    by (rule that [OF p d _ _ none a])
      (use run none d a in \<open>auto simp: resolve_provider_def assert_addresses_allowed_def andThen_eq_Inr split: if_splits\<close>)
qed

text \<open>The port a connection goes to.\<close>

definition effective_port :: "NormalizedMediaURL \<Rightarrow> int" where
  "effective_port u = (case nu_port u of None \<Rightarrow> default_port (nu_scheme u) | Some p \<Rightarrow> p)"

text \<open>C38. The program contacts no server of the client's choosing: an accepted URL has one of the allowed
  schemes and ports, its host is one of the listed hosts of an enabled provider and nothing that
  merely ends in one, every address the host resolves to may be contacted, and the canonical
  form that is kept is exactly scheme, host, port and a path without query or fragment.\<close>

theorem accepted_url_is_confined:
  assumes "validate ud s (build_default_providers s) resolver raw = Inr r"
  shows "let u = vr_url r in
     nu_scheme u \<in> set (us_allowed_schemes s) \<and> effective_port u \<in> set (us_allowed_ports s) \<and>
     (\<exists>p. us_provider_enabled s p \<and> vr_provider_id r = ProviderID_value p \<and>
        rstrip_dots (lower_cps ud (nu_hostname u)) \<in> set (provider_hosts p)) \<and>
     (\<exists>addrs. resolver (nu_hostname u) = Inr addrs \<and> addrs \<noteq> [] \<and>
        (\<forall>a \<in> set addrs. \<not> is_blocked_destination a)) \<and>
     nu_canonical u = nu_scheme u @ cps ''://'' @ canonical_host_for_url (nu_hostname u) @
       port_suffix (nu_port u) @ nu_path u \<and>
     hd (nu_path u) = 47 \<and> 35 \<notin> set (nu_path u) \<and> 63 \<notin> set (nu_path u) \<and> (\<forall>c \<in> set (nu_path u). 32 \<le> c)"
  using assms
proof (cases rule: validateD)
  case (1 p d addrs)
  obtain pid where pid: "us_provider_enabled s pid" "pd_id d = ProviderID_value pid"
    "rstrip_dots (lower_cps ud (pu_hostname p)) \<in> set (provider_hosts pid)" using find_default [OF 1(2)] by blast
  note f = parse_and_normalizeD [OF 1(1)]
  have "pu_path p \<noteq> []" using f(3) by (simp add: clean_path_def)
  then have "pu_canonical_without_query p = pu_scheme p @ cps ''://'' @ canonical_host_for_url (pu_hostname p) @
      port_suffix (pu_port p) @ pu_path p"
    using f(3,6) by (simp add: build_canonical_def unparse_url_def clean_path_def)
  moreover have "effective_port (vr_url r) \<in> set (us_allowed_ports s)"
    using f(4) 1(9) by (auto simp: effective_port_def clean_port_def split: option.splits)
  ultimately show ?thesis
    using f(1,3) 1(6-9) pid by (auto simp: Let_def clean_path_def list_all_iff list_ex_iff)
qed

section \<open>The canonical form is final\<close>

text \<open>A host that matched the tables, up to dots at its end, is one of theirs.\<close>

lemma accepted_host:
  assumes laws: "urldb_laws ud"
    and src: "\<exists>host. (if 58 \<in> set host then Inr (lower_cps ud host) else idna_hostname ud host) = (Inr h :: codepoints url_res)"
    and mem: "rstrip_dots (lower_cps ud h) \<in> set (provider_hosts pid)" and dot: "last h \<noteq> 46"
  shows "plain_host h"
proof -
  have plain: "plain_host (rstrip_dots (lower_cps ud h))"
    using provider_hosts_plain [of pid] mem by (auto simp: list_all_iff)
  obtain host where host: "(if 58 \<in> set host then Inr (lower_cps ud host) else idna_hostname ud host) = (Inr h :: codepoints url_res)"
    using src by blast
  show ?thesis
  proof (cases "58 \<in> set host")
    case True
    then have "h = lower_cps ud host" using host by simp
    then have "58 \<in> set (lower_cps ud h)" using laws True by (simp add: urldb_laws_def)
    moreover have "58 \<notin> set (rstrip_dots (lower_cps ud h))" using plain_hostD(4) [OF plain] by blast
    moreover have "set t \<subseteq> insert 46 (set (rstrip_dots t))" for t
    proof -
      have "set (rev t) = set (takeWhile (\<lambda>c. c = 46) (rev t)) \<union> set (dropWhile (\<lambda>c. c = 46) (rev t))"
        by (metis set_append takeWhile_dropWhile_id)
      then show ?thesis by (auto simp: rstrip_dots_def dest: set_takeWhileD)
    qed
    ultimately show ?thesis by fastforce
  next
    case False
    with host have "idna_hostname ud host = Inr h" by simp
    then obtain enc where enc: "idna_encode ud (rstrip_dots host) = Some enc" "h = map lower_ascii_cp enc" "h \<noteq> []"
      by (auto simp: idna_hostname_def Let_def split: if_splits option.splits)
    have "list_all (\<lambda>c. c < 128) enc"
      using enc(1) laws by (auto simp: idna_encode_def urldb_laws_def Let_def split: if_splits)
    then have "list_all (\<lambda>c. c < 128) h" by (auto simp: enc(2) list_all_iff lower_ascii_cp_def)
    then have "lower_cps ud h = h" using lower_cps_ascii [OF laws] by (simp add: enc(2) comp_def)
    with plain dot enc(3) show ?thesis by (simp add: rstrip_dots_plain)
  qed
qed


section \<open>Samples\<close>

definition sample_urldb :: urldb where
  "sample_urldb = \<lparr>space_cp = (\<lambda>c. c \<in> {9, 10, 11, 12, 13, 28, 29, 30, 31, 32}), lower_cps = map lower_ascii_cp,
     digit_cp = (\<lambda>c. if dec_cp c then Some (c - 48) else None), nfkc = (\<lambda>t. t),
     idna_other = (\<lambda>t. let e = map (\<lambda>c. if c = 0x3002 then 46 else c) t
                       in if list_all (\<lambda>c. c < 128) e then Some e else None),
     bracket_ok = (\<lambda>_. False), ip_text = (\<lambda>_. None)\<rparr>"

definition sample_url_settings :: UrlSettings where
  "sample_url_settings = \<lparr>us_allowed_schemes = [cps ''http'', cps ''https''], us_allowed_ports = [80, 443],
     us_max_length = 4096, us_provider_enabled = (\<lambda>_. True)\<rparr>"

definition sample_dns :: dns where
  "sample_dns = (\<lambda>_. Inr [IPv4 (octets4 87 240 129 133)])"

lemma sample_urldb_laws: "urldb_laws sample_urldb"
  by (auto simp: urldb_laws_def sample_urldb_def lower_ascii_cp_def Let_def image_iff split: if_splits)

abbreviation "sample_link \<equiv> build_canonical (cps ''https'') (canonical_host_for_url (cps ''vk.com'')) None (cps ''/video1_2'')"

lemma sample_vk_plain: "plain_host (cps ''vk.com'')"
  using hosts_plain(1) by (simp add: vk_hosts_def)

lemma sample_parsed:
  "parse_and_normalize sample_urldb sample_url_settings sample_link =
     Inr \<lparr>pu_original_scheme = cps ''https'', pu_scheme = cps ''https'', pu_hostname = cps ''vk.com'', pu_port = None,
       pu_path = cps ''/video1_2'', pu_query = [], pu_canonical_without_query = sample_link\<rparr>"
proof (rule parse_canonical [OF sample_urldb_laws _ _ _ _ sample_vk_plain])
  show "clean_scheme (cps ''https'')"
    by (simp add: clean_scheme_def alpha_cp_def scheme_cp_def lower_ascii_cp_def)
  show "clean_path (cps ''https'') (cps ''/video1_2'')" by (simp add: clean_path_def after_last_def)
qed (simp_all add: sample_url_settings_def clean_port_def default_port_def sample_urldb_def build_canonical_def
    unparse_url_def port_suffix_def canonical_host_for_url_def quote_plain [OF sample_vk_plain, simplified])

lemma sample_destination: "\<not> is_blocked_destination (IPv4 (octets4 87 240 129 133))"
  using blocked4_octets [of 87 240 129 133] by (simp add: is_blocked_destination_def special_use4_def)

lemma sample_validated:
  "\<exists>r. validate sample_urldb sample_url_settings (build_default_providers sample_url_settings) sample_dns sample_link = Inr r \<and>
     nu_hostname (vr_url r) = cps ''vk.com'' \<and> nu_path (vr_url r) = cps ''/video1_2'' \<and> nu_canonical (vr_url r) = sample_link"
proof -
  have "\<not> is_reserved_hostname sample_urldb (cps ''vk.com'')"
    by (simp add: is_reserved_hostname_def sample_urldb_def RESERVED_HOSTNAMES_def rstrip_dots_def lower_ascii_cp_def)
  moreover have "\<not> looks_like_nonstandard_ipv4 sample_urldb (cps ''vk.com'')" "parse_ip_literal sample_urldb (cps ''vk.com'') = None"
    by (simp_all add: looks_like_nonstandard_ipv4_def parse_ip_literal_def sample_urldb_def rstrip_dots_def lower_ascii_cp_def
        hex_form_def digit_run_def dotted_form_def drop_eol_def starts_cp_def dec_cp_def Let_def)
  moreover have "\<exists>d. find_provider sample_urldb (build_default_providers sample_url_settings) (cps ''vk.com'') = Some d"
    by (simp add: find_provider_def sample_urldb_def rstrip_dots_def lower_ascii_cp_def build_default_providers_def
        vk_hosts_def sample_url_settings_def Let_def)
  ultimately show ?thesis
    using sample_destination
    by (auto simp: validate_def validate_inner_def sample_parsed resolve_provider_def sample_dns_def
        assert_addresses_allowed_def Let_def simp del: cps_simps)
qed

theorem accepted_url_is_confined_witness:
  "\<exists>r p. validate sample_urldb sample_url_settings (build_default_providers sample_url_settings) sample_dns sample_link = Inr r \<and>
     vr_provider_id r = ProviderID_value p \<and> rstrip_dots (lower_cps sample_urldb (nu_hostname (vr_url r))) \<in> set (provider_hosts p)"
proof -
  obtain r where r: "validate sample_urldb sample_url_settings (build_default_providers sample_url_settings) sample_dns sample_link = Inr r"
    using sample_validated by blast
  from accepted_url_is_confined [OF r] r show ?thesis unfolding Let_def by blast
qed


text \<open>An ideographic full stop at the end of a host outlives the removal of trailing dots, which comes
  before the encoding: the host of the accepted URL is then none of the tables.\<close>

lemma trailing_dot_survives:
  "idna_hostname sample_urldb (cps ''vk.com'' @ [0x3002]) = Inr (cps ''vk.com.'')"
  "find_provider sample_urldb (build_default_providers sample_url_settings) (cps ''vk.com.'') \<noteq> None"
  "\<forall>p. cps ''vk.com.'' \<notin> set (provider_hosts p)"
proof -
  show "idna_hostname sample_urldb (cps ''vk.com'' @ [0x3002]) = Inr (cps ''vk.com.'')"
    by (simp add: idna_hostname_def rstrip_dots_def idna_encode_def sample_urldb_def Let_def lower_ascii_cp_def starts_cp_def)
  show "find_provider sample_urldb (build_default_providers sample_url_settings) (cps ''vk.com.'') \<noteq> None"
    by (simp add: find_provider_def sample_urldb_def rstrip_dots_def lower_ascii_cp_def build_default_providers_def
        vk_hosts_def sample_url_settings_def Let_def)
  have "\<not> plain_host (cps ''vk.com.'')" by (simp add: plain_host_def)
  then show "\<forall>p. cps ''vk.com.'' \<notin> set (provider_hosts p)"
    using provider_hosts_plain by (auto simp: list_all_iff simp del: cps_simps)
qed

end
