(* ===== verification/Provider_Identity.thy ===== *)
theory Provider_Identity
  imports Url_Policy
begin

text \<open>
  The stable identity of a media page (\<open>url/provider_identity.py\<close>, \<open>media_inspection/identity.py\<close>): the
  paths of each provider that name one video, and the canonical path they are rewritten to. The
  regular expressions are written as parsers. An error is its reason token.
\<close>

section \<open>Character classes\<close>

definition isdigit_cp :: "urldb \<Rightarrow> nat \<Rightarrow> bool" where
  "isdigit_cp ud c \<longleftrightarrow> digit_cp ud c \<noteq> None"

definition word_cp :: "nat \<Rightarrow> bool" where
  "word_cp c \<longleftrightarrow> alpha_cp c \<or> dec_cp c \<or> c \<in> {95, 45}"

text \<open>The case folding of \<open>re.IGNORECASE\<close>: besides ASCII, four letters fold into \<open>[a-z]\<close>.\<close>

definition re_fold :: "nat \<Rightarrow> nat" where
  "re_fold c = (if c \<in> {0x130, 0x131} then 105 else if c = 0x17F then 115 else if c = 0x212A then 107
                else lower_ascii_cp c)"

definition dzen_cp :: "nat \<Rightarrow> bool" where
  "dzen_cp c \<longleftrightarrow> (let f = re_fold c in 97 \<le> f \<and> f \<le> 122 \<or> dec_cp f \<or> f = 45)"

definition bounded_run :: "(nat \<Rightarrow> bool) \<Rightarrow> nat \<Rightarrow> codepoints \<Rightarrow> bool" where
  "bounded_run P n s \<longleftrightarrow> 1 \<le> length s \<and> length s \<le> n \<and> list_all P s"

section \<open>Paths\<close>

text \<open>The optional slash at the end, and what follows one of several prefixes.\<close>

definition chop_slash :: "codepoints \<Rightarrow> codepoints" where
  "chop_slash p = (if p \<noteq> [] \<and> last p = 47 then butlast p else p)"

fun strip_prefix :: "codepoints list \<Rightarrow> codepoints \<Rightarrow> codepoints option" where
  "strip_prefix [] s = None"
| "strip_prefix (p # ps) s = (if starts_cp p s then Some (drop (length p) s) else strip_prefix ps s)"

definition parse_vk :: "urldb \<Rightarrow> codepoints \<Rightarrow> (codepoints \<times> codepoints) option" where
  "parse_vk ud path =
     (case strip_prefix [cps ''/video'', cps ''/clip''] (chop_slash path) of
        None \<Rightarrow> None
      | Some rest \<Rightarrow>
          let owner = before_cp 95 rest; video = after_cp 95 rest;
              digits = (if starts_cp [45] owner then tl owner else owner)
          in if 95 \<in> set rest \<and> digits \<noteq> [] \<and> list_all (isdigit_cp ud) digits \<and>
                video \<noteq> [] \<and> list_all (isdigit_cp ud) video
             then Some (owner, video) else None)"

definition parse_rutube :: "codepoints \<Rightarrow> codepoints option" where
  "parse_rutube path =
     (case strip_prefix [cps ''/video/'', cps ''/shorts/''] (chop_slash path) of
        None \<Rightarrow> None | Some i \<Rightarrow> if bounded_run word_cp 64 i then Some i else None)"

definition parse_ok :: "urldb \<Rightarrow> codepoints \<Rightarrow> codepoints option" where
  "parse_ok ud path =
     (case strip_prefix [cps ''/video/'', cps ''/videoembed/'', cps ''/web-api/video/moviePlayer/''] (chop_slash path) of
        None \<Rightarrow> None
      | Some i \<Rightarrow> if bounded_run (\<lambda>c. isdigit_cp ud c \<or> c = 45) 32 i then Some i else None)"

text \<open>The last dash-separated part, after at least one character and a dash.\<close>

definition after_dash :: "codepoints \<Rightarrow> codepoints option" where
  "after_dash b =
     (if b = [] \<or> \<not> list_all dzen_cp b \<or> 45 \<notin> set (butlast b) then None
      else let suffix = after_last 45 (butlast b) @ [last b]
           in if length b - length suffix - 1 \<ge> 1 \<and> length suffix \<le> 64 then Some suffix else None)"

definition folds_to :: "codepoints \<Rightarrow> string \<Rightarrow> bool" where
  "folds_to s w \<longleftrightarrow> map re_fold s = cps w"

definition parse_dzen :: "codepoints \<Rightarrow> codepoints option" where
  "parse_dzen path =
     (let p = chop_slash path
      in if \<not> starts_cp [47] p then None
         else
           let all_segs = split_cp 47 (tl p);
               segs = (if folds_to (hd all_segs) ''video'' then tl all_segs else all_segs)
           in case segs of
                [w, x] \<Rightarrow>
                  if folds_to w ''watch'' \<or> folds_to w ''shorts'' \<or> folds_to w ''media''
                  then (if bounded_run dzen_cp 64 x then Some x else None) else None
              | [w, a, b] \<Rightarrow> if folds_to w ''media'' \<and> a \<noteq> [] then after_dash b else None
              | [w, i, a, b] \<Rightarrow> if folds_to w ''media'' \<and> folds_to i ''id'' \<and> a \<noteq> [] then after_dash b else None
              | _ \<Rightarrow> None)"

section \<open>Identity\<close>

type_synonym 'a id_res = "string + 'a"

record StableProviderIdentity =
  si_provider_id :: string
  si_media_id :: codepoints
  si_hostname :: codepoints
  si_canonical_path :: codepoints

definition safe_host :: "codepoints \<Rightarrow> bool" where
  "safe_host h \<longleftrightarrow>
     (let edge = (\<lambda>c. 97 \<le> c \<and> c \<le> 122 \<or> dec_cp c)
      in h \<noteq> [] \<and> length h \<le> 253 \<and> edge (hd h) \<and> edge (last h) \<and>
         list_all (\<lambda>c. edge c \<or> c \<in> {46, 45}) h)"

definition normalize_hostname :: "urldb \<Rightarrow> codepoints \<Rightarrow> codepoints id_res" where
  "normalize_hostname ud hostname =
     (let host = rstrip_dots (lower_cps ud (strip_cp ud hostname))
      in if host = [] \<or> \<not> safe_host host then Inl ''UNSAFE_HOSTNAME''
         else if 47 \<in> set host \<or> 92 \<in> set host \<or> has_infix [46, 46] host \<or> 58 \<in> set host \<or> 37 \<in> set host
         then Inl ''UNSAFE_HOSTNAME'' else Inr host)"

definition FORBIDDEN_PATH_MARKERS :: "codepoints list" where
  "FORBIDDEN_PATH_MARKERS = map cps [''/video_ext.php'', ''/video_ext'', ''/embed'', ''.m3u8'', ''.mpd'', ''.mp4'', ''.webm'']"

definition dzen_host_canonical :: "codepoints \<Rightarrow> codepoints" where
  "dzen_host_canonical h =
     (if h = cps ''www.dzen.ru'' then cps ''dzen.ru''
      else if h = cps ''www.zen.yandex.ru'' then cps ''zen.yandex.ru'' else h)"

definition parse_stable_provider_identity ::
  "urldb \<Rightarrow> string \<Rightarrow> codepoints \<Rightarrow> codepoints \<Rightarrow> codepoints list \<Rightarrow> StableProviderIdentity id_res" where
  "parse_stable_provider_identity ud provider_id hostname path allowed =
     andThen (normalize_hostname ud hostname) (\<lambda>host.
       if host \<notin> set allowed then Inl ''HOST_NOT_OWNED''
       else
         let raw_path = (if path = [] then [47] else path)
         in if list_ex (\<lambda>m. has_infix m (lower_cps ud raw_path)) FORBIDDEN_PATH_MARKERS
            then Inl ''FORBIDDEN_MEDIA_PATH''
            else if provider_id = ProviderID_value VK
            then (case parse_vk ud raw_path of
                    None \<Rightarrow> Inl ''VK_PATH_INVALID''
                  | Some (owner, video) \<Rightarrow>
                      Inr \<lparr>si_provider_id = provider_id, si_media_id = owner @ [95] @ video, si_hostname = host,
                           si_canonical_path = cps ''/video'' @ owner @ [95] @ video\<rparr>)
            else if provider_id = ProviderID_value RUTUBE
            then (case parse_rutube raw_path of
                    None \<Rightarrow> Inl ''RUTUBE_PATH_INVALID''
                  | Some i \<Rightarrow>
                      Inr \<lparr>si_provider_id = provider_id, si_media_id = i, si_hostname = host,
                           si_canonical_path = cps ''/video/'' @ i @ [47]\<rparr>)
            else if provider_id = ProviderID_value OK_RU
            then (case parse_ok ud raw_path of
                    None \<Rightarrow> Inl ''OK_PATH_INVALID''
                  | Some i \<Rightarrow>
                      Inr \<lparr>si_provider_id = provider_id, si_media_id = i, si_hostname = host,
                           si_canonical_path = cps ''/video/'' @ i\<rparr>)
            else if provider_id = ProviderID_value DZEN
            then (case parse_dzen raw_path of
                    None \<Rightarrow> Inl ''DZEN_PATH_INVALID''
                  | Some g \<Rightarrow>
                      let media_id = lower_cps ud g
                      in if media_id = [] then Inl ''DZEN_PATH_INVALID''
                         else Inr \<lparr>si_provider_id = provider_id, si_media_id = media_id,
                                si_hostname = dzen_host_canonical host,
                                si_canonical_path = cps ''/video/watch/'' @ media_id\<rparr>)
            else Inl ''IDENTITY_PROVIDER_UNSUPPORTED'')"

definition build_public_canonical_url ::
  "urldb \<Rightarrow> codepoints \<Rightarrow> codepoints \<Rightarrow> int option \<Rightarrow> codepoints \<Rightarrow> codepoints id_res" where
  "build_public_canonical_url ud scheme hostname port canonical_path =
     andThen (normalize_hostname ud hostname) (\<lambda>host.
       let path = (if starts_cp [47] canonical_path then canonical_path else [47] @ canonical_path);
           normalized_scheme = lower_cps ud (strip_cp ud scheme)
       in if normalized_scheme \<notin> {cps ''http'', cps ''https''} then Inl ''IDENTITY_URL_SCHEME''
          else Inr (unparse_url normalized_scheme (host @ port_suffix port) path))"

definition build_canonical_provider_url :: "urldb \<Rightarrow> codepoints \<Rightarrow> codepoints \<Rightarrow> codepoints id_res" where
  "build_canonical_provider_url ud hostname canonical_path =
     build_public_canonical_url ud (cps ''https'') hostname None canonical_path"

definition parse_stable_identity_from_url ::
  "urldb \<Rightarrow> codepoints \<Rightarrow> string \<Rightarrow> codepoints list \<Rightarrow> StableProviderIdentity id_res" where
  "parse_stable_identity_from_url ud raw_url provider_id allowed =
     (case urlparse ud raw_url of
        Inl _ \<Rightarrow> Inl ''IDENTITY_URL_PARSE''
      | Inr parsed \<Rightarrow>
          if 64 \<in> set (pr_netloc parsed) then Inl ''IDENTITY_URL_CREDENTIALS''
          else if pr_scheme parsed \<notin> {cps ''http'', cps ''https''} then Inl ''IDENTITY_URL_SCHEME''
          else (case url_port (pr_netloc parsed) of
                  Inl _ \<Rightarrow> Inl ''IDENTITY_URL_PORT_INVALID''
                | Inr port \<Rightarrow>
                    if port \<notin> {None, Some 80, Some 443} then Inl ''IDENTITY_URL_PORT_UNTRUSTED''
                    else (case url_hostname ud (pr_netloc parsed) of
                            None \<Rightarrow> Inl ''IDENTITY_URL_HOST''
                          | Some host \<Rightarrow>
                              parse_stable_provider_identity ud provider_id host
                                (if pr_path parsed = [] then [47] else pr_path parsed) allowed)))"

text \<open>The catalog of \<open>media_inspection/errors.py\<close> the reasons are mapped to.\<close>

definition map_identity_error :: "string \<Rightarrow> error" where
  "map_identity_error reason =
     (if reason \<in> {''HOST_NOT_OWNED'', ''IDENTITY_URL_CREDENTIALS'', ''IDENTITY_URL_SCHEME'', ''IDENTITY_URL_PORT_UNTRUSTED''}
      then InspectionError INSPECTION_PROVIDER_MISMATCH reason
      else if reason = ''IDENTITY_PROVIDER_UNSUPPORTED'' then InspectionError INSPECTION_UNSUPPORTED_PROVIDER reason
      else if reason \<in> {''IDENTITY_URL_PARSE'', ''IDENTITY_URL_HOST'', ''IDENTITY_URL_PORT_INVALID''}
      then InspectionError INSPECTION_INVALID_OUTPUT reason
      else InspectionError INSPECTION_POLICY_REJECTED reason)"

definition parse_provider_media_identity ::
  "urldb \<Rightarrow> string \<Rightarrow> codepoints \<Rightarrow> codepoints \<Rightarrow> codepoints list \<Rightarrow> StableProviderIdentity res" where
  "parse_provider_media_identity ud provider_id hostname path allowed =
     (case parse_stable_provider_identity ud provider_id hostname path allowed of
        Inl reason \<Rightarrow> Inl (map_identity_error reason) | Inr i \<Rightarrow> Inr i)"

definition parse_identity_from_url ::
  "urldb \<Rightarrow> codepoints \<Rightarrow> string \<Rightarrow> codepoints list \<Rightarrow> StableProviderIdentity res" where
  "parse_identity_from_url ud raw_url provider_id allowed =
     (case parse_stable_identity_from_url ud raw_url provider_id allowed of
        Inl reason \<Rightarrow> Inl (map_identity_error reason) | Inr i \<Rightarrow> Inr i)"

section \<open>Hosts\<close>

lemma provider_hosts_safe: "list_all (\<lambda>h. safe_host h \<and> 92 \<notin> set h) (provider_hosts p)"
proof -
  have "list_all (\<lambda>h. safe_host h \<and> 92 \<notin> set h) vk_hosts" "list_all (\<lambda>h. safe_host h \<and> 92 \<notin> set h) rutube_hosts"
    "list_all (\<lambda>h. safe_host h \<and> 92 \<notin> set h) ok_hosts" "list_all (\<lambda>h. safe_host h \<and> 92 \<notin> set h) dzen_hosts"
    by code_simp+
  then show ?thesis by (cases p) (simp_all only: provider_hosts_def ProviderID.case)
qed

lemma provider_host_plain: "h \<in> set (provider_hosts p) \<Longrightarrow> plain_host h"
  using provider_hosts_plain [of p] by (simp add: list_all_iff)

lemma plain_no_space:
  assumes "urldb_laws ud" and "plain_host h" and "c \<in> set h"
  shows "\<not> space_cp ud c"
proof -
  have "97 \<le> c \<and> c \<le> 122 \<or> dec_cp c \<or> c \<in> {45, 46}" using assms(2,3) by (auto simp: plain_host_def list_all_iff)
  with plain_hostD(1) [OF assms(2,3)] assms(1) show ?thesis by (auto simp: urldb_laws_def dec_cp_def)
qed

lemma normalize_provider_host:
  assumes laws: "urldb_laws ud" and mem: "h \<in> set (provider_hosts p)"
  shows "normalize_hostname ud h = Inr h"
proof -
  have h: "plain_host h" by (rule provider_host_plain [OF mem])
  have ne: "h \<noteq> []" "last h \<noteq> 46" "\<not> has_infix [46, 46] h" using h by (simp_all add: plain_host_def)
  have "strip_cp ud h = h"
    by (rule strip_plain) (use ne(1) plain_no_space [OF laws h] hd_in_set last_in_set in auto)
  moreover have "safe_host h" "92 \<notin> set h" using provider_hosts_safe [of p] mem by (auto simp: list_all_iff)
  ultimately show ?thesis
    using ne lower_plain [OF laws h] plain_hostD(4) [OF h]
    by (auto simp: normalize_hostname_def rstrip_dots_plain Let_def)
qed

section \<open>Markers\<close>

lemma infix_skip: "m \<noteq> [] \<Longrightarrow> hd m \<notin> set a \<Longrightarrow> has_infix m (a @ t) = has_infix m t"
proof (induction a)
  case (Cons x a)
  then show ?case by (cases m) (auto simp: starts_cp_def)
qed simp

lemma infix_none: "m \<noteq> [] \<Longrightarrow> hd m \<notin> set t \<Longrightarrow> \<not> has_infix m t"
  using infix_skip [of m t "[]"] by simp

definition marked :: "codepoints \<Rightarrow> bool" where
  "marked t \<longleftrightarrow> list_ex (\<lambda>m. has_infix m t) FORBIDDEN_PATH_MARKERS"

text \<open>A text without dots is marked at its slashes only.\<close>

definition slash_markers :: "codepoints list" where
  "slash_markers = [cps ''/video_ext'', cps ''/embed'']"

lemma marked_undotted:
  assumes "46 \<notin> set t"
  shows "marked t \<longleftrightarrow> list_ex (\<lambda>m. has_infix m t) slash_markers"
proof -
  have "\<not> has_infix (cps ''/video_ext.php'') t"
  proof
    assume "has_infix (cps ''/video_ext.php'') t"
    then have "46 \<in> set t"
    proof (induction t)
      case (Cons x t)
      then show ?case by (auto simp: starts_cp_def dest: arg_cong [of _ _ set] in_set_takeD)
        (metis in_set_takeD insertCI list.simps(15) set_ConsD)
    qed simp
    with assms show False by simp
  qed
  moreover have "\<not> has_infix m t" if "hd m = 46" "m \<noteq> []" for m using infix_none that assms by metis
  ultimately show ?thesis by (auto simp: marked_def FORBIDDEN_PATH_MARKERS_def slash_markers_def simp del: has_infix.simps)
qed

lemma unmarked_tail:
  assumes "46 \<notin> set t" "47 \<notin> set t"
  shows "marked ([47] @ t) \<longleftrightarrow> starts_cp (cps ''video_ext'') t \<or> starts_cp (cps ''embed'') t"
proof -
  have "46 \<notin> set ([47] @ t)" using assms(1) by simp
  from marked_undotted [OF this] have "marked ([47] @ t) \<longleftrightarrow> has_infix (cps ''/video_ext'') (47 # t) \<or> has_infix (cps ''/embed'') (47 # t)"
    by (simp add: slash_markers_def del: has_infix.simps)
  also have "\<dots> \<longleftrightarrow> starts_cp (cps ''/video_ext'') (47 # t) \<or> starts_cp (cps ''/embed'') (47 # t)"
    using infix_none [of "cps ''/video_ext''" t] infix_none [of "cps ''/embed''" t] assms(2) by simp
  finally show ?thesis by (simp add: starts_cp_def)
qed

lemma marked_split:
  assumes "46 \<notin> set (a @ [47] @ t)" and "47 \<notin> set a"
  shows "marked (a @ [47] @ t) \<longleftrightarrow> marked ([47] @ t)"
proof -
  have "46 \<notin> set ([47] @ t)" using assms(1) by auto
  then show ?thesis
    using infix_skip [of "cps ''/video_ext''" a "[47] @ t"] infix_skip [of "cps ''/embed''" a "[47] @ t"] assms(2)
    unfolding marked_undotted [OF assms(1)] marked_undotted [OF \<open>46 \<notin> set ([47] @ t)\<close>]
    by (simp add: slash_markers_def del: has_infix.simps)
qed

lemma marked_video:
  assumes "46 \<notin> set w" "47 \<notin> set w" "w \<noteq> []" "hd w \<noteq> 95"
  shows "\<not> marked (cps ''/video'' @ w)"
proof -
  have "46 \<notin> set (cps ''/video'' @ w)" using assms(1) by simp
  then show ?thesis
    using assms infix_none [of "cps ''/video_ext''" w] infix_none [of "cps ''/embed''" w]
    by (cases w) (auto simp: marked_undotted slash_markers_def starts_cp_def)
qed

lemma marked_video_slash:
  assumes "46 \<notin> set w"
  shows "marked (cps ''/video/'' @ w) \<longleftrightarrow> marked ([47] @ w)"
    and "marked (cps ''/video/watch/'' @ w) \<longleftrightarrow> marked ([47] @ w)"
proof -
  have d: "46 \<notin> set (cps ''/video/'' @ w)" "46 \<notin> set (cps ''/video/watch/'' @ w)" "46 \<notin> set ([47] @ w)"
    using assms by simp_all
  show "marked (cps ''/video/'' @ w) \<longleftrightarrow> marked ([47] @ w)"
    unfolding marked_undotted [OF d(1)] marked_undotted [OF d(3)]
    by (auto simp: slash_markers_def starts_cp_def)
  show "marked (cps ''/video/watch/'' @ w) \<longleftrightarrow> marked ([47] @ w)"
    unfolding marked_undotted [OF d(2)] marked_undotted [OF d(3)]
    by (auto simp: slash_markers_def starts_cp_def)
qed

lemma marked_shorts_slash:
  assumes "46 \<notin> set w"
  shows "marked (cps ''/shorts/'' @ w) \<longleftrightarrow> marked ([47] @ w)"
proof -
  have d: "46 \<notin> set (cps ''/shorts/'' @ w)" "46 \<notin> set ([47] @ w)" using assms by simp_all
  show ?thesis
    unfolding marked_undotted [OF d(1)] marked_undotted [OF d(2)]
    by (auto simp: slash_markers_def starts_cp_def)
qed

section \<open>Parsing the canonical path\<close>

lemma starts_append [simp]: "starts_cp p (p @ t)"
  by (simp add: starts_cp_def)

lemma strip_prefix_Some: "strip_prefix ps s = Some t \<Longrightarrow> \<exists>p \<in> set ps. s = p @ t"
  by (induction ps) (auto simp: starts_cp_def split: if_splits, metis append_take_drop_id)

lemma chop_slash_id: "last p \<noteq> 47 \<Longrightarrow> chop_slash p = p"
  by (simp add: chop_slash_def)

lemma chop_slash_snoc: "chop_slash (p @ [47]) = p"
  by (simp add: chop_slash_def)

lemma chop_slash_or: "p = chop_slash p \<or> p = chop_slash p @ [47]"
  by (auto simp: chop_slash_def) (metis append_butlast_last_id)

lemma parse_vk_canonical:
  assumes "parse_vk ud path = Some (owner, video)"
    and "\<And>c. c \<in> set path \<Longrightarrow> isdigit_cp ud c \<Longrightarrow> c \<notin> {45, 46, 47, 95}"
  shows "parse_vk ud (cps ''/video'' @ owner @ [95] @ video) = Some (owner, video)"
    and "set (owner @ [95] @ video) \<subseteq> {c. isdigit_cp ud c \<or> c = 45 \<or> c = 95}"
    and "owner \<noteq> []" "hd owner \<noteq> 95" "video \<noteq> []" "set owner \<union> set video \<subseteq> set path"
proof -
  obtain rest where rest: "strip_prefix [cps ''/video'', cps ''/clip''] (chop_slash path) = Some rest"
    and r: "95 \<in> set rest" "owner = before_cp 95 rest" "video = after_cp 95 rest"
    and o: "(if starts_cp [45] owner then tl owner else owner) \<noteq> []"
      "list_all (isdigit_cp ud) (if starts_cp [45] owner then tl owner else owner)"
    and v: "video \<noteq> []" "list_all (isdigit_cp ud) video"
    using assms(1) by (auto simp: parse_vk_def Let_def split: option.splits if_splits)
  have "set rest \<subseteq> set (chop_slash path)" using strip_prefix_Some [OF rest] by auto
  also have "\<dots> \<subseteq> set path" by (auto simp: chop_slash_def dest: in_set_butlastD split: if_splits)
  finally show sub: "set owner \<union> set video \<subseteq> set path"
    using r by (auto simp: before_cp_def after_cp_def dest!: set_takeWhileD in_set_dropD set_dropWhileD)
  have no: "95 \<notin> set owner" using r(2) set_before by fastforce
  have "last video \<in> set video" using v(1) by (rule last_in_set)
  then have "last video \<in> set path" "isdigit_cp ud (last video)" using v(2) sub by (auto simp: list_all_iff)
  then have l: "last video \<noteq> 47" using assms(2) by blast
  have ov: "before_cp 95 (owner @ [95] @ video) = owner" "after_cp 95 (owner @ [95] @ video) = video"
  proof -
    have "\<forall>x \<in> set owner. x \<noteq> 95" using no by auto
    then have "takeWhile (\<lambda>x. x \<noteq> 95) (owner @ 95 # video) = owner" "dropWhile (\<lambda>x. x \<noteq> 95) (owner @ 95 # video) = 95 # video"
      by (simp_all only: takeWhile_stop dropWhile_stop not_True_eq_False not_False_eq_True)
    then show "before_cp 95 (owner @ [95] @ video) = owner" "after_cp 95 (owner @ [95] @ video) = video"
      by (simp_all add: before_cp_def after_cp_def)
  qed
  have ch: "chop_slash (cps ''/video'' @ owner @ [95] @ video) = cps ''/video'' @ owner @ [95] @ video"
    by (rule chop_slash_id) (use l v(1) in simp)
  have sp: "strip_prefix [cps ''/video'', cps ''/clip''] (cps ''/video'' @ owner @ [95] @ video) = Some (owner @ [95] @ video)"
    by (simp add: starts_cp_def)
  show "parse_vk ud (cps ''/video'' @ owner @ [95] @ video) = Some (owner, video)"
    unfolding parse_vk_def ch sp option.case ov Let_def using o v by simp
  show "owner \<noteq> []" using o(1) by (auto simp: starts_cp_def split: if_splits)
  then show "hd owner \<noteq> 95" using no hd_in_set by metis
  show "set (owner @ [95] @ video) \<subseteq> {c. isdigit_cp ud c \<or> c = 45 \<or> c = 95}"
    using o v by (cases owner) (auto simp: list_all_iff starts_cp_def split: if_splits)
  show "video \<noteq> []" by (rule v(1))
qed

lemma parse_rutube_canonical:
  assumes "parse_rutube path = Some i"
  shows "parse_rutube (cps ''/video/'' @ i @ [47]) = Some i"
    and "\<exists>pre post. path = pre @ i @ post \<and> pre \<in> {cps ''/video/'', cps ''/shorts/''} \<and> post \<in> {[], [47]}"
    and "bounded_run word_cp 64 i"
proof -
  obtain "strip_prefix [cps ''/video/'', cps ''/shorts/''] (chop_slash path) = Some i" and b: "bounded_run word_cp 64 i"
    using assms by (auto simp: parse_rutube_def split: option.splits if_splits)
  then have "\<exists>pre \<in> {cps ''/video/'', cps ''/shorts/''}. chop_slash path = pre @ i"
    using strip_prefix_Some by fastforce
  then show "\<exists>pre post. path = pre @ i @ post \<and> pre \<in> {cps ''/video/'', cps ''/shorts/''} \<and> post \<in> {[], [47]}"
    using chop_slash_or [of path] by (metis append.right_neutral append_assoc insertI1 insertI2)
  show "bounded_run word_cp 64 i" by (rule b)
  have "chop_slash (cps ''/video/'' @ i @ [47]) = cps ''/video/'' @ i"
    using chop_slash_snoc [of "cps ''/video/'' @ i"] by simp
  then show "parse_rutube (cps ''/video/'' @ i @ [47]) = Some i"
    unfolding parse_rutube_def using b by (simp add: starts_cp_def)
qed

lemma parse_ok_canonical:
  assumes "parse_ok ud path = Some i" and "\<And>c. c \<in> set path \<Longrightarrow> isdigit_cp ud c \<Longrightarrow> c \<noteq> 47"
  shows "parse_ok ud (cps ''/video/'' @ i) = Some i"
    and "bounded_run (\<lambda>c. isdigit_cp ud c \<or> c = 45) 32 i" and "set i \<subseteq> set path"
proof -
  obtain sp: "strip_prefix [cps ''/video/'', cps ''/videoembed/'', cps ''/web-api/video/moviePlayer/''] (chop_slash path) = Some i"
    and b: "bounded_run (\<lambda>c. isdigit_cp ud c \<or> c = 45) 32 i"
    using assms(1) by (auto simp: parse_ok_def split: option.splits if_splits)
  show "bounded_run (\<lambda>c. isdigit_cp ud c \<or> c = 45) 32 i" by (rule b)
  have "set i \<subseteq> set (chop_slash path)" using strip_prefix_Some [OF sp] by auto
  also have "\<dots> \<subseteq> set path" by (auto simp: chop_slash_def dest: in_set_butlastD split: if_splits)
  finally show sub: "set i \<subseteq> set path" .
  have "i \<noteq> []" using b by (auto simp: bounded_run_def)
  then have "last i \<in> set i" by (rule last_in_set)
  then have "last i \<in> set path" "isdigit_cp ud (last i) \<or> last i = 45"
    using b sub by (auto simp: bounded_run_def list_all_iff)
  then have "last i \<noteq> 47" using assms(2) by auto
  then have "chop_slash (cps ''/video/'' @ i) = cps ''/video/'' @ i" using \<open>i \<noteq> []\<close> by (intro chop_slash_id) simp
  then show "parse_ok ud (cps ''/video/'' @ i) = Some i"
    unfolding parse_ok_def using b by (simp add: starts_cp_def)
qed

lemma split_cp_none: "c \<notin> set t \<Longrightarrow> split_cp c t = [t]"
  by (induction t) auto

lemma set_split_cp: "x \<in> set (split_cp c t) \<Longrightarrow> set x \<subseteq> set t"
proof (induction t arbitrary: x)
  case (Cons a t)
  then show ?case by (cases "split_cp c t") (fastforce split: if_splits)+
qed simp

lemma dzen_cp_not: "dzen_cp c \<Longrightarrow> c \<notin> {46, 47, 95}"
  by (auto simp: dzen_cp_def re_fold_def lower_ascii_cp_def dec_cp_def Let_def)

lemma after_dashD:
  assumes "after_dash b = Some x"
  shows "bounded_run dzen_cp 64 x \<and> set x \<subseteq> set b"
proof -
  have b: "b \<noteq> []" "list_all dzen_cp b" and x: "x = after_last 45 (butlast b) @ [last b]" "length x \<le> 64"
    using assms by (auto simp: after_dash_def Let_def split: if_splits)
  have "set x \<subseteq> set b" using x(1) b(1) set_after_last [of 45 "butlast b"] by (auto dest: in_set_butlastD)
  with b x show ?thesis by (auto simp: bounded_run_def list_all_iff)
qed

lemma parse_dzenD:
  assumes "parse_dzen path = Some g"
  shows "bounded_run dzen_cp 64 g" "set g \<subseteq> set path"
proof -
  let ?all = "split_cp 47 (tl (chop_slash path))"
  let ?segs = "if folds_to (hd ?all) ''video'' then tl ?all else ?all"
  have "\<exists>b \<in> set ?segs. bounded_run dzen_cp 64 g \<and> set g \<subseteq> set b"
  proof (cases ?segs)
    case Nil
    then show ?thesis using assms unfolding parse_dzen_def Let_def by (auto split: if_splits)
  next
    case (Cons w ws)
    consider x where "?segs = [w, x]" | a b where "?segs = [w, a, b]" | i a b where "?segs = [w, i, a, b]"
      using assms Cons unfolding parse_dzen_def Let_def by (auto split: list.splits if_split_asm)
    then show ?thesis
    proof cases
      case (1 x)
      then show ?thesis using assms unfolding parse_dzen_def Let_def by (simp split: if_split_asm)
    next
      case (2 a b)
      then have "after_dash b = Some g" using assms unfolding parse_dzen_def Let_def by (simp split: if_split_asm)
      with after_dashD 2 show ?thesis by fastforce
    next
      case (3 i a b)
      then have "after_dash b = Some g" using assms unfolding parse_dzen_def Let_def by (simp split: if_split_asm)
      with after_dashD 3 show ?thesis by fastforce
    qed
  qed
  then obtain b where b: "b \<in> set ?segs" "bounded_run dzen_cp 64 g" "set g \<subseteq> set b" by blast
  show "bounded_run dzen_cp 64 g" by (rule b(2))
  have "b \<in> set ?all" using b(1) by (cases ?all) (auto split: if_splits)
  then have "set b \<subseteq> set (tl (chop_slash path))" by (rule set_split_cp)
  also have "\<dots> \<subseteq> set path"
    by (cases "chop_slash path") (auto simp: chop_slash_def dest: in_set_butlastD list.set_sel split: if_splits
        , (metis in_set_butlastD list.set_intros(2))+)
  finally show "set g \<subseteq> set path" using b(3) by blast
qed

lemma parse_dzen_canonical:
  assumes "bounded_run dzen_cp 64 i"
  shows "parse_dzen (cps ''/video/watch/'' @ i) = Some i"
proof -
  have "i \<noteq> []" "\<forall>c \<in> set i. dzen_cp c" using assms by (auto simp: bounded_run_def list_all_iff)
  then have i: "i \<noteq> []" "47 \<notin> set i" using dzen_cp_not by blast+
  then have "last i \<noteq> 47" using last_in_set by metis
  with i have ch: "chop_slash (cps ''/video/watch/'' @ i) = cps ''/video/watch/'' @ i"
    by (intro chop_slash_id) simp
  have sp: "split_cp 47 (tl (cps ''/video/watch/'' @ i)) = [cps ''video'', cps ''watch'', i]"
    using split_cp_none [OF i(2)] by simp
  have "starts_cp [47] (cps ''/video/watch/'' @ i)" by (simp add: starts_cp_def)
  moreover have "folds_to (cps ''video'') ''video''" "folds_to (cps ''watch'') ''watch''"
    by (simp_all add: folds_to_def re_fold_def lower_ascii_cp_def)
  ultimately show ?thesis
    unfolding parse_dzen_def ch sp Let_def using assms by (simp del: cps_simps)
qed

section \<open>The canonical identity is final\<close>

lemma lower_ascii_text: "urldb_laws ud \<Longrightarrow> list_all (\<lambda>c. c < 128) t \<Longrightarrow> 46 \<notin> set t \<Longrightarrow> 46 \<notin> set (lower_cps ud t)"
  by (auto simp: lower_cps_ascii lower_ascii_cp_def)

lemma marked_unfold: "list_ex (\<lambda>m. has_infix m t) FORBIDDEN_PATH_MARKERS = marked t"
  by (simp add: marked_def)

lemma ascii_digit: "urldb_laws ud \<Longrightarrow> c < 128 \<Longrightarrow> isdigit_cp ud c \<longleftrightarrow> dec_cp c"
  by (simp add: urldb_laws_def isdigit_cp_def)

lemma dzen_lower: "c < 128 \<Longrightarrow> dzen_cp c \<Longrightarrow> dzen_cp (lower_ascii_cp c) \<and> lower_ascii_cp c < 128"
  by (auto simp: dzen_cp_def re_fold_def lower_ascii_cp_def dec_cp_def Let_def)

lemma dzen_host_owned:
  "h \<in> set (provider_hosts DZEN) \<Longrightarrow> dzen_host_canonical h \<in> set (provider_hosts DZEN)"
  "dzen_host_canonical (dzen_host_canonical h) = dzen_host_canonical h"
  by (auto simp: dzen_host_canonical_def provider_hosts_def dzen_hosts_def)

text \<open>What the identity of an accepted page looks like.\<close>

definition identity_path :: "ProviderID \<Rightarrow> codepoints \<Rightarrow> codepoints" where
  "identity_path pid i =
     (case pid of
        VK \<Rightarrow> cps ''/video'' @ i
      | RUTUBE \<Rightarrow> cps ''/video/'' @ i @ [47]
      | OK_RU \<Rightarrow> cps ''/video/'' @ i
      | DZEN \<Rightarrow> cps ''/video/watch/'' @ i)"

definition identity_media :: "urldb \<Rightarrow> ProviderID \<Rightarrow> codepoints \<Rightarrow> bool" where
  "identity_media ud pid i \<longleftrightarrow> list_all (\<lambda>c. c < 128) i \<and> i \<noteq> [] \<and> list_all word_cp i \<and>
     (case pid of
        VK \<Rightarrow> \<exists>owner video. i = owner @ [95] @ video \<and> parse_vk ud (cps ''/video'' @ i) = Some (owner, video) \<and> hd i \<noteq> 95
      | RUTUBE \<Rightarrow> bounded_run word_cp 64 i
      | OK_RU \<Rightarrow> bounded_run (\<lambda>c. isdigit_cp ud c \<or> c = 45) 32 i
      | DZEN \<Rightarrow> bounded_run dzen_cp 64 i \<and> map lower_ascii_cp i = i)"

lemma word_cp_not: "word_cp c \<Longrightarrow> c \<notin> {46, 47}"
  by (auto simp: word_cp_def alpha_cp_def dec_cp_def)

lemma digit_word: "urldb_laws ud \<Longrightarrow> c < 128 \<Longrightarrow> isdigit_cp ud c \<Longrightarrow> word_cp c \<and> c \<notin> {45, 46, 47, 95}"
  by (auto simp: ascii_digit word_cp_def dec_cp_def)

lemma dzen_word: "c < 128 \<Longrightarrow> dzen_cp c \<Longrightarrow> word_cp c"
  by (auto simp: dzen_cp_def re_fold_def lower_ascii_cp_def word_cp_def alpha_cp_def dec_cp_def Let_def split: if_splits)

lemma parse_vk_ascii:
  assumes laws: "urldb_laws ud" and ascii: "list_all (\<lambda>c. c < 128) path" and vk: "parse_vk ud path = Some (owner, video)"
  shows "identity_media ud VK (owner @ [95] @ video)"
proof -
  have a: "c < 128" if "c \<in> set path" for c using ascii that by (simp add: list_all_iff)
  have no: "c \<notin> {45, 46, 47, 95}" if "c \<in> set path" "isdigit_cp ud c" for c
    using digit_word [OF laws a [OF that(1)] that(2)] by simp
  note f = parse_vk_canonical [OF vk no]
  have ov: "list_all (\<lambda>c. c < 128) (owner @ [95] @ video)" using f(6) a by (auto simp: list_all_iff)
  moreover have "list_all word_cp (owner @ [95] @ video)"
    unfolding list_all_iff
  proof
    fix c assume c: "c \<in> set (owner @ [95] @ video)"
    then have "c < 128" "isdigit_cp ud c \<or> c = 45 \<or> c = 95" using ov f(2) by (auto simp: list_all_iff)
    then show "word_cp c" using digit_word [OF laws] by (auto simp: word_cp_def)
  qed
  ultimately show ?thesis using f(1,3,4) by (simp add: identity_media_def)
qed

lemma lower_not_dot: "word_cp c \<Longrightarrow> lower_ascii_cp c \<notin> {46, 47}"
  by (auto simp: word_cp_def alpha_cp_def dec_cp_def lower_ascii_cp_def)

lemma media_lower:
  assumes "identity_media ud pid i"
  shows "46 \<notin> set (map lower_ascii_cp i)" "47 \<notin> set (map lower_ascii_cp i)" "46 \<notin> set i" "47 \<notin> set i" "i \<noteq> []"
proof -
  have w: "\<forall>c \<in> set i. word_cp c" and ne: "i \<noteq> []" using assms by (auto simp: identity_media_def list_all_iff)
  then show "46 \<notin> set (map lower_ascii_cp i)" "47 \<notin> set (map lower_ascii_cp i)" "46 \<notin> set i" "47 \<notin> set i" "i \<noteq> []"
    using lower_not_dot word_cp_not by fastforce+
qed

lemma starts_snoc: "47 \<notin> set m \<Longrightarrow> starts_cp m (w @ [47]) = starts_cp m w"
proof (induction m arbitrary: w)
  case (Cons x m)
  then show ?case by (cases w) (auto simp: starts_cp_def)
qed (simp add: starts_cp_def)

lemma marked_snoc:
  assumes "46 \<notin> set t" "47 \<notin> set t"
  shows "marked ([47] @ t @ [47]) \<longleftrightarrow> marked ([47] @ t)"
proof -
  have d: "46 \<notin> set ([47] @ t @ [47])" using assms(1) by simp
  have one: "\<not> has_infix (cps ''/video_ext'') [47]" "\<not> has_infix (cps ''/embed'') [47]" by (simp_all add: starts_cp_def)
  have "has_infix (cps ''/video_ext'') (47 # t @ [47]) \<longleftrightarrow> starts_cp (cps ''/video_ext'') (47 # t @ [47])"
    "has_infix (cps ''/embed'') (47 # t @ [47]) \<longleftrightarrow> starts_cp (cps ''/embed'') (47 # t @ [47])"
    using infix_skip [of "cps ''/video_ext''" t "[47]"] infix_skip [of "cps ''/embed''" t "[47]"] one assms(2) by simp_all
  moreover have "starts_cp (cps ''/video_ext'') (47 # t @ [47]) \<longleftrightarrow> starts_cp (cps ''video_ext'') t"
    "starts_cp (cps ''/embed'') (47 # t @ [47]) \<longleftrightarrow> starts_cp (cps ''embed'') t"
    using starts_snoc [of "cps ''video_ext''" t] starts_snoc [of "cps ''embed''" t] by (simp_all add: starts_cp_def)
  ultimately show ?thesis
    unfolding unmarked_tail [OF assms] marked_undotted [OF d] slash_markers_def by simp
qed

lemma starts_subset: "starts_cp m t \<Longrightarrow> set m \<subseteq> set t"
  unfolding starts_cp_def by (metis set_take_subset)

lemma canonical_unmarked:
  assumes "identity_media ud pid i" and "urldb_laws ud"
    and "pid = RUTUBE \<longrightarrow> \<not> marked ([47] @ map lower_ascii_cp i)"
    and "pid = DZEN \<longrightarrow> \<not> starts_cp (cps ''embed'') i"
  shows "\<not> marked (map lower_ascii_cp (identity_path pid i))"
proof -
  let ?w = "map lower_ascii_cp i"
  note w = media_lower [OF assms(1)]
  have pre: "map lower_ascii_cp (cps ''/video'') = cps ''/video''" "map lower_ascii_cp (cps ''/video/'') = cps ''/video/''"
    "map lower_ascii_cp (cps ''/video/watch/'') = cps ''/video/watch/''" "lower_ascii_cp 47 = 47"
    by (simp_all add: lower_ascii_cp_def)
  show ?thesis
  proof (cases pid)
    case VK
    then have "hd ?w \<noteq> 95" using assms(1) w(5) by (auto simp: identity_media_def hd_map lower_ascii_cp_def)
    with VK marked_video [OF w(1,2)] w(5) pre show ?thesis by (simp add: identity_path_def del: cps_simps)
  next
    case RUTUBE
    then have "\<not> marked ([47] @ ?w @ [47])" using assms(3) marked_snoc [OF w(1,2)] by simp
    moreover have "46 \<notin> set (?w @ [47])" using w(1) by simp
    ultimately show ?thesis using RUTUBE marked_video_slash(1) pre by (simp add: identity_path_def del: cps_simps)
  next
    case OK_RU
    then have "\<forall>c \<in> set i. dec_cp c \<or> c = 45"
      using assms(1,2) ascii_digit by (auto simp: identity_media_def bounded_run_def list_all_iff)
    then have "hd i = 45 \<or> dec_cp (hd i)" using w(5) hd_in_set by blast
    then have "\<not> starts_cp (cps ''video_ext'') ?w" "\<not> starts_cp (cps ''embed'') ?w"
      using w(5) by (cases i; auto simp: starts_cp_def dec_cp_def lower_ascii_cp_def)+
    then show ?thesis
      using OK_RU marked_video_slash(1) [OF w(1)] unmarked_tail [OF w(1,2)] pre by (simp add: identity_path_def del: cps_simps)
  next
    case DZEN
    then have i: "?w = i" "\<forall>c \<in> set i. dzen_cp c" using assms(1) by (auto simp: identity_media_def bounded_run_def list_all_iff)
    have "\<not> starts_cp (cps ''video_ext'') i"
    proof
      assume "starts_cp (cps ''video_ext'') i"
      then have "set (cps ''video_ext'') \<subseteq> set i" by (rule starts_subset)
      then have "95 \<in> set i" by simp
      with i(2) show False using dzen_cp_not by blast
    qed
    then show ?thesis
      using DZEN assms(4) i marked_video_slash(2) [OF w(1)] unmarked_tail [OF w(1,2)] pre
      by (simp add: identity_path_def del: cps_simps)
  qed
qed

lemma identity_path_ascii: "identity_media ud pid i \<Longrightarrow> list_all (\<lambda>c. c < 128) (identity_path pid i)"
  by (cases pid) (auto simp: identity_path_def identity_media_def)

lemma canonical_identity:
  assumes laws: "urldb_laws ud" and media: "identity_media ud pid i" and h: "h \<in> set (provider_hosts pid)"
    and "pid = DZEN \<longrightarrow> dzen_host_canonical h = h" and "\<not> marked (map lower_ascii_cp (identity_path pid i))"
  shows "parse_stable_provider_identity ud (ProviderID_value pid) h (identity_path pid i) (provider_hosts pid) =
     Inr \<lparr>si_provider_id = ProviderID_value pid, si_media_id = i, si_hostname = h, si_canonical_path = identity_path pid i\<rparr>"
proof -
  have ne: "identity_path pid i \<noteq> []" by (cases pid) (simp_all add: identity_path_def)
  have low: "\<not> list_ex (\<lambda>m. has_infix m (lower_cps ud (identity_path pid i))) FORBIDDEN_PATH_MARKERS"
    using assms(5) lower_cps_ascii [OF laws identity_path_ascii [OF media]] by (simp add: marked_unfold)
  note rules = parse_stable_provider_identity_def normalize_provider_host [OF laws h] andThen_Inr h Let_def ne low
  show ?thesis
  proof (cases pid)
    case VK
    then obtain owner video where ov: "i = owner @ [95] @ video" "parse_vk ud (cps ''/video'' @ i) = Some (owner, video)"
      using media by (auto simp: identity_media_def)
    show ?thesis unfolding rules using h ne low VK ov by (simp add: identity_path_def del: cps_simps)
  next
    case RUTUBE
    then have "parse_rutube (cps ''/video/'' @ i @ [47]) = Some i"
    proof -
      have "chop_slash (cps ''/video/'' @ i @ [47]) = cps ''/video/'' @ i"
        using chop_slash_snoc [of "cps ''/video/'' @ i"] by simp
      then show ?thesis unfolding parse_rutube_def using media RUTUBE by (simp add: starts_cp_def identity_media_def)
    qed
    then show ?thesis unfolding rules using h ne low RUTUBE by (simp add: identity_path_def del: cps_simps)
  next
    case OK_RU
    then have "parse_ok ud (cps ''/video/'' @ i) = Some i"
    proof -
      have "last i \<noteq> 47" using media_lower(4,5) [OF media] last_in_set by metis
      then have "chop_slash (cps ''/video/'' @ i) = cps ''/video/'' @ i"
        using media_lower(5) [OF media] by (intro chop_slash_id) simp
      then show ?thesis unfolding parse_ok_def using media OK_RU by (simp add: starts_cp_def identity_media_def)
    qed
    then show ?thesis unfolding rules using h ne low OK_RU media_lower(5) [OF media] by (simp add: identity_path_def del: cps_simps)
  next
    case DZEN
    then have i: "bounded_run dzen_cp 64 i" "map lower_ascii_cp i = i" "i \<noteq> []" "list_all (\<lambda>c. c < 128) i"
      using media by (simp_all add: identity_media_def)
    show ?thesis
      unfolding rules using h ne low DZEN assms(4) parse_dzen_canonical [OF i(1)] i lower_cps_ascii [OF laws i(4)]
      by (simp add: identity_path_def Let_def del: cps_simps)
  qed
qed

lemma normalized_host:
  assumes "normalize_hostname ud hostname = Inr host"
  shows "host = rstrip_dots (lower_cps ud (strip_cp ud hostname))"
  using assms by (auto simp: normalize_hostname_def Let_def split: if_splits)

text \<open>What a successful parse of an ASCII path found.\<close>

lemma parsed_identity:
  assumes laws: "urldb_laws ud" and ascii: "list_all (\<lambda>c. c < 128) path"
    and p: "parse_stable_provider_identity ud (ProviderID_value pid) hostname path (provider_hosts pid) = Inr i"
  shows "identity_media ud pid (si_media_id i)" and "si_hostname i \<in> set (provider_hosts pid)"
    and "si_provider_id i = ProviderID_value pid" and "si_canonical_path i = identity_path pid (si_media_id i)"
    and "pid = DZEN \<longrightarrow> dzen_host_canonical (si_hostname i) = si_hostname i"
    and "pid = RUTUBE \<longrightarrow> \<not> marked ([47] @ map lower_ascii_cp (si_media_id i))"
proof -
  let ?path = "if path = [] then [47] else path"
  have asc: "list_all (\<lambda>c. c < 128) ?path" using ascii by simp
  obtain host where host: "normalize_hostname ud hostname = Inr host"
    using p by (auto simp: parse_stable_provider_identity_def andThen_eq_Inr)
  note run = p [unfolded parse_stable_provider_identity_def host andThen_Inr Let_def]
  have own: "host \<in> set (provider_hosts pid)" using run by (simp split: if_split_asm)
  have low: "lower_cps ud ?path = map lower_ascii_cp ?path" using lower_cps_ascii [OF laws asc] .
  have um: "\<not> marked (map lower_ascii_cp ?path)"
    using run own unfolding low marked_unfold by (simp only: if_False simp_thms sum.distinct split: if_split_asm)
  have "identity_media ud pid (si_media_id i) \<and> si_hostname i \<in> set (provider_hosts pid) \<and>
     si_provider_id i = ProviderID_value pid \<and> si_canonical_path i = identity_path pid (si_media_id i) \<and>
     (pid = DZEN \<longrightarrow> dzen_host_canonical (si_hostname i) = si_hostname i) \<and>
     (pid = RUTUBE \<longrightarrow> \<not> marked ([47] @ map lower_ascii_cp (si_media_id i)))"
  proof (cases pid)
    case VK
    obtain owner video where ov: "parse_vk ud ?path = Some (owner, video)"
      using run own VK by (cases "parse_vk ud ?path") (auto split: if_split_asm)
    then have "i = \<lparr>si_provider_id = ProviderID_value pid, si_media_id = owner @ [95] @ video, si_hostname = host,
        si_canonical_path = cps ''/video'' @ owner @ [95] @ video\<rparr>"
      using run own VK by (auto split: if_split_asm)
    with parse_vk_ascii [OF laws asc ov] own VK show ?thesis by (simp add: identity_path_def)
  next
    case RUTUBE
    obtain x where x: "parse_rutube ?path = Some x"
      using run own RUTUBE by (cases "parse_rutube ?path") (auto split: if_split_asm)
    then have i: "i = \<lparr>si_provider_id = ProviderID_value pid, si_media_id = x, si_hostname = host,
        si_canonical_path = cps ''/video/'' @ x @ [47]\<rparr>"
      using run own RUTUBE by (auto split: if_split_asm)
    note f = parse_rutube_canonical [OF x]
    obtain pre post where pp: "?path = pre @ x @ post" "pre \<in> {cps ''/video/'', cps ''/shorts/''}" "post \<in> {[], [47]}"
      using f(2) by blast
    have "list_all (\<lambda>c. c < 128) x" using asc unfolding pp(1) by simp
    then have m: "identity_media ud RUTUBE x" using f(3) by (auto simp: identity_media_def bounded_run_def)
    note w = media_lower [OF m]
    have d: "46 \<notin> set (map lower_ascii_cp x @ post)" using w(1) pp(3) by auto
    have "map lower_ascii_cp ?path = pre @ map lower_ascii_cp x @ post"
      unfolding pp(1) using pp(2,3) by (auto simp: lower_ascii_cp_def)
    then have "marked (map lower_ascii_cp ?path) \<longleftrightarrow> marked ([47] @ map lower_ascii_cp x @ post)"
      using pp(2) marked_video_slash(1) [OF d] marked_shorts_slash [OF d] by (auto simp del: cps_simps)
    with um have "\<not> marked ([47] @ map lower_ascii_cp x)"
      using pp(3) marked_snoc [OF w(1,2)] by auto
    with i m own RUTUBE show ?thesis by (simp add: identity_path_def)
  next
    case OK_RU
    obtain x where x: "parse_ok ud ?path = Some x"
      using run own OK_RU by (cases "parse_ok ud ?path") (auto split: if_split_asm)
    then have i: "i = \<lparr>si_provider_id = ProviderID_value pid, si_media_id = x, si_hostname = host,
        si_canonical_path = cps ''/video/'' @ x\<rparr>"
      using run own OK_RU by (auto split: if_split_asm)
    have a: "c < 128" if "c \<in> set ?path" for c using asc that by (simp add: list_all_iff)
    have no: "c \<noteq> 47" if "c \<in> set ?path" "isdigit_cp ud c" for c
      using digit_word [OF laws a [OF that(1)] that(2)] by simp
    note f = parse_ok_canonical [OF x no]
    have "\<forall>c \<in> set x. c < 128" using f(3) a by blast
    then have "identity_media ud OK_RU x"
      using f(2) digit_word [OF laws] by (auto simp: identity_media_def bounded_run_def list_all_iff word_cp_def)
    with i own OK_RU show ?thesis by (simp add: identity_path_def)
  next
    case DZEN
    obtain g where g: "parse_dzen ?path = Some g"
      using run own DZEN by (cases "parse_dzen ?path") (auto split: if_split_asm)
    note f = parse_dzenD [OF g]
    have a: "list_all (\<lambda>c. c < 128) g" using f(2) asc by (auto simp: list_all_iff)
    have lg: "lower_cps ud g = map lower_ascii_cp g" by (rule lower_cps_ascii [OF laws a])
    have i: "i = \<lparr>si_provider_id = ProviderID_value pid, si_media_id = map lower_ascii_cp g,
        si_hostname = dzen_host_canonical host, si_canonical_path = cps ''/video/watch/'' @ map lower_ascii_cp g\<rparr>"
      using run own DZEN g lg by (auto split: if_split_asm)
    have "identity_media ud DZEN (map lower_ascii_cp g)"
      using f(1) a dzen_lower dzen_word by (auto simp: identity_media_def bounded_run_def list_all_iff comp_def)
    with i own DZEN dzen_host_owned show ?thesis by (simp add: identity_path_def)
  qed
  then show "identity_media ud pid (si_media_id i)" "si_hostname i \<in> set (provider_hosts pid)"
    "si_provider_id i = ProviderID_value pid" "si_canonical_path i = identity_path pid (si_media_id i)"
    "pid = DZEN \<longrightarrow> dzen_host_canonical (si_hostname i) = si_hostname i"
    "pid = RUTUBE \<longrightarrow> \<not> marked ([47] @ map lower_ascii_cp (si_media_id i))" by simp_all
qed

lemma identity_path_clean:
  assumes "identity_media ud pid i"
  shows "clean_path scheme (identity_path pid i)" and "last (identity_path pid i) = 47 \<or> word_cp (last (identity_path pid i))"
    and "\<forall>c \<in> set (identity_path pid i). word_cp c \<or> c = 47"
proof -
  have w: "\<forall>c \<in> set i. word_cp c" and ne: "i \<noteq> []" using assms by (auto simp: identity_media_def list_all_iff)
  show chars: "\<forall>c \<in> set (identity_path pid i). word_cp c \<or> c = 47"
    using w by (cases pid) (auto simp: identity_path_def word_cp_def alpha_cp_def)
  have hd: "identity_path pid i \<noteq> []" "hd (identity_path pid i) = 47"
    by (cases pid; simp add: identity_path_def)+
  have "c \<notin> {35, 59, 63} \<and> 32 \<le> c" if "word_cp c \<or> c = 47" for c
    using that by (auto simp: word_cp_def alpha_cp_def dec_cp_def)
  then show "clean_path scheme (identity_path pid i)"
    using chars hd set_after_last [of 47 "identity_path pid i"] by (fastforce simp: clean_path_def list_all_iff)
  show "last (identity_path pid i) = 47 \<or> word_cp (last (identity_path pid i))"
    using chars hd(1) last_in_set by blast
qed

lemma https_clean: "clean_scheme (cps ''https'')"
  by (simp add: clean_scheme_def alpha_cp_def scheme_cp_def lower_ascii_cp_def)

lemma https_strips: "urldb_laws ud \<Longrightarrow> lower_cps ud (strip_cp ud (cps ''https'')) = cps ''https''"
proof -
  assume laws: "urldb_laws ud"
  then have "\<not> space_cp ud 104" "\<not> space_cp ud 115" by (simp_all add: urldb_laws_def)
  then have "strip_cp ud (cps ''https'') = cps ''https''" by (intro strip_plain) simp_all
  moreover have "map lower_ascii_cp (cps ''https'') = cps ''https''" by (simp add: lower_ascii_cp_def)
  ultimately show ?thesis using lower_cps_ascii [OF laws, of "cps ''https''"] by simp
qed

lemma plain_authority:
  assumes laws: "urldb_laws ud" and h: "plain_host h"
  shows "url_hostname ud h = Some h" and "url_port h = Inr None"
proof -
  have no: "64 \<notin> set h" "91 \<notin> set h" "58 \<notin> set h" "37 \<notin> set h" using plain_hostD(4) [OF h] by blast+
  have ne: "h \<noteq> []" using h by (simp add: plain_host_def)
  have hi: "hostinfo h = (h, [])"
    by (simp add: hostinfo_def after_last_none [OF no(1)] no before_none [OF no(3)] after_none [OF no(3)])
  show "url_port h = Inr None" by (simp add: url_port_def hi)
  show "url_hostname ud h = Some h"
    using ne no(4) lower_plain [OF laws h] before_none [OF no(4)]
    by (auto simp: url_hostname_def hi Let_def dropWhile_eq_Nil_conv)
qed

lemma canonical_url_parses:
  assumes laws: "urldb_laws ud" and media: "identity_media ud pid i" and h: "h \<in> set (provider_hosts pid)"
  shows "build_canonical_provider_url ud h (identity_path pid i) = Inr (cps ''https'' @ [58, 47, 47] @ h @ identity_path pid i)"
    and "urlparse ud (cps ''https'' @ [58, 47, 47] @ h @ identity_path pid i) =
       Inr \<lparr>pr_scheme = cps ''https'', pr_netloc = h, pr_path = identity_path pid i, pr_query = []\<rparr>"
proof -
  note pl = provider_host_plain [OF h]
  note cl = identity_path_clean [OF media]
  have p: "identity_path pid i \<noteq> []" "hd (identity_path pid i) = 47"
    using cl(1) by (auto simp: clean_path_def)
  then show "build_canonical_provider_url ud h (identity_path pid i) = Inr (cps ''https'' @ [58, 47, 47] @ h @ identity_path pid i)"
    by (simp add: build_canonical_provider_url_def build_public_canonical_url_def normalize_provider_host [OF laws h]
        https_strips [OF laws] starts_one unparse_url_def port_suffix_def Let_def del: cps_simps)
  show "urlparse ud (cps ''https'' @ [58, 47, 47] @ h @ identity_path pid i) =
       Inr \<lparr>pr_scheme = cps ''https'', pr_netloc = h, pr_path = identity_path pid i, pr_query = []\<rparr>"
    by (rule urlparse_canonical [OF https_clean cl(1)])
      (use pl plain_hostD [OF pl] in \<open>auto simp: plain_host_def\<close>)
qed



section \<open>Identities that are not accepted again\<close>

text \<open>A Dzen page whose address ends in a name and an identifier that begins with embed is accepted,
  but its canonical path contains a forbidden marker.\<close>

lemma dzen_embed_is_lost:
  assumes laws: "urldb_laws ud"
  shows "\<exists>i. parse_stable_provider_identity ud (ProviderID_value DZEN) (cps ''dzen.ru'') (cps ''/media/news/my-embed'')
           (provider_hosts DZEN) = Inr i \<and>
         parse_stable_provider_identity ud (ProviderID_value DZEN) (si_hostname i) (si_canonical_path i)
           (provider_hosts DZEN) = Inl ''FORBIDDEN_MEDIA_PATH''"
proof -
  have h: "cps ''dzen.ru'' \<in> set (provider_hosts DZEN)" by (simp add: provider_hosts_def dzen_hosts_def)
  have low: "lower_cps ud (cps ''/media/news/my-embed'') = cps ''/media/news/my-embed''"
    "lower_cps ud (cps ''/video/watch/embed'') = cps ''/video/watch/embed''" "lower_cps ud (cps ''embed'') = cps ''embed''"
    by (simp_all add: lower_cps_ascii [OF laws] lower_ascii_cp_def)
  have um: "\<not> marked (cps ''/media/news/my-embed'')" "marked (cps ''/video/watch/embed'')"
    by (simp_all add: marked_def FORBIDDEN_PATH_MARKERS_def starts_cp_def)
  have dz: "parse_dzen (cps ''/media/news/my-embed'') = Some (cps ''embed'')"
    by (simp add: parse_dzen_def chop_slash_def starts_cp_def folds_to_def re_fold_def lower_ascii_cp_def after_dash_def
        dzen_cp_def dec_cp_def after_last_def Let_def)
  have host: "dzen_host_canonical (cps ''dzen.ru'') = cps ''dzen.ru''" by (simp add: dzen_host_canonical_def)
  have ne: "cps ''embed'' \<noteq> []" "cps ''/media/news/my-embed'' \<noteq> []" "cps ''/video/watch/embed'' \<noteq> []" by simp_all
  have app: "cps ''/video/watch/'' @ cps ''embed'' = cps ''/video/watch/embed''" by simp
  show ?thesis
    by (simp add: parse_stable_provider_identity_def normalize_provider_host [OF laws h] h Let_def low marked_unfold um dz
        ne host app del: cps_simps)
qed

text \<open>The digits of the VK and OK grammars are those of any script, while stored metadata admits ASCII
  identifiers only.\<close>

lemma foreign_digits_accepted:
  assumes "isdigit_cp ud 0x661"
  shows "parse_vk ud (cps ''/video'' @ [0x661, 95, 0x661]) = Some ([0x661], [0x661])"
  using assms by (simp add: parse_vk_def chop_slash_def starts_cp_def before_cp_def after_cp_def Let_def)

end
