(* ===== verification/Resolution.thy ===== *)
theory Resolution
  imports Provider_Identity Domain_Errors "HOL-Library.While_Combinator" "HOL-Library.List_Lexorder"
begin

text \<open>
  From a submitted address to a page of a provider (\<open>resolution/\<close>). A page of a provider is taken as it
  is; a page of a known wrapper is read by the resolver registered for it, whose candidate is
  classified again, until a provider is reached. Resolvers and the HTTP client are parameters: a
  resolver is a record of functions, as the protocol of \<open>resolution/protocols.py\<close> has it. The loop
  is a \<open>while_option\<close>, whose value None would be a run that never ends.
\<close>

section \<open>resolution/errors.py\<close>

datatype ResolutionErrorKind =
    WRAPPER_UNSUPPORTED | WRAPPER_UNRESOLVED | RESOLVED_PROVIDER_UNSUPPORTED | RESOLUTION_LOOP
  | RESOLUTION_LIMIT_EXCEEDED | UNSAFE_RESOLUTION_TARGET | RESOLUTION_INTERNAL_ERROR

datatype res_exn =
    ResolutionError ResolutionErrorKind "string option"
  | WrapperRegistryError
  | UrlExn url_error
  | OtherExn string

type_synonym 'a res_res = "res_exn + 'a"

definition resolution_error :: "ResolutionErrorKind \<Rightarrow> string option \<Rightarrow> res_exn" where
  "resolution_error kind internal_reason = ResolutionError kind (sanitize_internal_reason internal_reason)"

definition normalize_resolver_error :: "ResolutionErrorKind \<Rightarrow> string option \<Rightarrow> res_exn" where
  "normalize_resolver_error kind internal_reason = resolution_error kind internal_reason"

section \<open>resolution/models.py and network/models.py\<close>

record SafeDocumentTarget =
  dt_scheme :: codepoints
  dt_hostname :: codepoints
  dt_port :: "int option"
  dt_path :: codepoints
  dt_query :: codepoints
  dt_canonical_without_query :: codepoints
  dt_request_url :: codepoints

record SafeDocumentResponse =
  dr_status_code :: int
  dr_content_type :: codepoints
  dr_body :: "nat list"
  dr_final_canonical :: codepoints

record WrapperResolveOutcome =
  wo_candidate_url :: codepoints
  wo_strategy :: codepoints
  wo_metadata :: "(codepoints \<times> json) list option"

datatype ResolutionProvenance = DIRECT_PROVIDER | WRAPPER_RESOLVED

definition token_cp :: "nat \<Rightarrow> bool" where
  "token_cp c \<longleftrightarrow> (97 \<le> c \<and> c \<le> 122) \<or> dec_cp c \<or> c = 95"

definition audit_token :: "codepoints \<Rightarrow> bool" where
  "audit_token v \<longleftrightarrow> v \<noteq> [] \<and> 97 \<le> hd v \<and> hd v \<le> 122 \<and> length v \<le> 64 \<and> list_all token_cp (tl v)"

text \<open>Its only error is \<open>ValueError\<close>.\<close>

definition require_audit_token :: "codepoints \<Rightarrow> unit + codepoints" where
  "require_audit_token v = (if audit_token v then Inr v else Inl ())"

definition FORBIDDEN_METADATA_KEYS :: "codepoints list" where
  "FORBIDDEN_METADATA_KEYS = map cps [''password'', ''passwd'', ''secret'', ''token'', ''authorization'', ''cookie'',
     ''set-cookie'', ''query'', ''location'', ''url'', ''body'', ''header'', ''headers'', ''cookie_jar'', ''auth'',
     ''api_key'', ''apikey'', ''access_token'', ''refresh_token'', ''signature'', ''signed'']"

definition freeze_item ::
  "urldb \<Rightarrow> codepoints \<times> json \<Rightarrow> (codepoints \<times> json) list \<times> int \<Rightarrow> unit + ((codepoints \<times> json) list \<times> int)" where
  "freeze_item ud kv acc =
     (let (key, v) = kv; (items, serialized) = acc; normalized_key = lower_cps ud (strip_cp ud key)
      in if normalized_key = [] \<or> length normalized_key > 32 then Inl ()
         else if \<not> audit_token normalized_key then Inl ()
         else if normalized_key \<in> set FORBIDDEN_METADATA_KEYS then Inl ()
         else andThen (case v of
                JBool _ \<Rightarrow> Inr (serialized + int (length normalized_key) + 5)
              | JInt i \<Rightarrow> Inr (serialized + int (length normalized_key) + int (length (show_int i)))
              | _ \<Rightarrow> Inl ()) (\<lambda>total.
           if total > 256 then Inl ()
           else if normalized_key \<in> fst ` set items then Inl ()
           else Inr (items @ [(normalized_key, v)], total)))"

fun freeze_items :: "urldb \<Rightarrow> (codepoints \<times> json) list \<Rightarrow> (codepoints \<times> json) list \<times> int \<Rightarrow>
    unit + ((codepoints \<times> json) list \<times> int)" where
  "freeze_items ud [] acc = Inr acc"
| "freeze_items ud (kv # kvs) acc = andThen (freeze_item ud kv acc) (freeze_items ud kvs)"

definition freeze_resolution_metadata ::
  "urldb \<Rightarrow> (codepoints \<times> json) list option \<Rightarrow> unit + (codepoints \<times> json) list" where
  "freeze_resolution_metadata ud raw =
     (case raw of
        None \<Rightarrow> Inr []
      | Some kvs \<Rightarrow>
          if length kvs > 8 then Inl ()
          else andThen (freeze_items ud kvs ([], 0)) (\<lambda>(items, _). Inr (order_by fst items)))"

record ResolutionHop =
  rh_resolver_id :: codepoints
  rh_wrapper_type :: codepoints
  rh_source_canonical :: codepoints
  rh_target_canonical :: codepoints
  rh_strategy :: codepoints
  rh_metadata :: "(codepoints \<times> json) list"

record ResolutionResult =
  rr_submitted_url :: codepoints
  rr_validated :: URLValidationResult
  rr_provider_id :: string
  rr_provider_display_name :: string
  rr_canonical_provider_url :: codepoints
  rr_wrapper_type :: "codepoints option"
  rr_provenance :: ResolutionProvenance
  rr_resolution_chain :: "ResolutionHop list"

section \<open>resolution/protocols.py and registry.py\<close>

type_synonym document_port = "SafeDocumentTarget \<Rightarrow> SafeDocumentResponse res_res"

record WrapperResolver =
  wr_resolver_id :: codepoints
  wr_wrapper_type :: codepoints
  wr_exact_hostnames :: "codepoints list"
  wr_matches :: "SafeDocumentTarget \<Rightarrow> bool"
  wr_resolve :: "SafeDocumentTarget \<Rightarrow> document_port \<Rightarrow> WrapperResolveOutcome res_res"

record WrapperResolverRegistration =
  wg_resolver :: WrapperResolver
  wg_resolver_id :: codepoints
  wg_wrapper_type :: codepoints
  wg_exact_hostnames :: "codepoints list"

record WrapperResolverRegistry =
  wx_registrations :: "WrapperResolverRegistration list"
  wx_by_host :: "(codepoints \<times> WrapperResolverRegistration) list"

definition normalize_wrapper_host :: "urldb \<Rightarrow> codepoints \<Rightarrow> codepoints res_res" where
  "normalize_wrapper_host ud hostname =
     (let host = rstrip_dots (lower_cps ud (strip_cp ud hostname))
      in if host = [] then Inl WrapperRegistryError
         else if 47 \<in> set host \<or> 92 \<in> set host \<or> has_infix [46, 46] host \<or> 58 \<in> set host then Inl WrapperRegistryError
         else if 37 \<in> set host then Inl WrapperRegistryError
         else Inr host)"

fun claim_hosts :: "urldb \<Rightarrow> codepoints list \<Rightarrow> codepoints list \<Rightarrow> codepoints list \<Rightarrow> codepoints list res_res" where
  "claim_hosts ud owned [] normalized = Inr normalized"
| "claim_hosts ud owned (raw_host # hs) normalized =
     andThen (normalize_wrapper_host ud raw_host) (\<lambda>host.
       if host \<in> set owned then Inl WrapperRegistryError
       else if host \<in> set normalized then Inl WrapperRegistryError
       else claim_hosts ud owned hs (normalized @ [host]))"

definition register_resolver ::
  "urldb \<Rightarrow> WrapperResolver \<Rightarrow> WrapperResolverRegistry \<Rightarrow> WrapperResolverRegistry res_res" where
  "register_resolver ud r x =
     (if wr_resolver_id r = [] then Inl WrapperRegistryError
      else if wr_wrapper_type r = [] then Inl WrapperRegistryError
      else if wr_resolver_id r \<in> wg_resolver_id ` set (wx_registrations x) then Inl WrapperRegistryError
      else if wr_wrapper_type r \<in> wg_wrapper_type ` set (wx_registrations x) then Inl WrapperRegistryError
      else if wr_exact_hostnames r = [] then Inl WrapperRegistryError
      else andThen (claim_hosts ud (map fst (wx_by_host x)) (wr_exact_hostnames r) []) (\<lambda>hosts.
        let g = \<lparr>wg_resolver = r, wg_resolver_id = wr_resolver_id r, wg_wrapper_type = wr_wrapper_type r,
                 wg_exact_hostnames = hosts\<rparr>
        in Inr \<lparr>wx_registrations = wx_registrations x @ [g], wx_by_host = wx_by_host x @ map (\<lambda>h. (h, g)) hosts\<rparr>))"

fun register_all ::
  "urldb \<Rightarrow> WrapperResolver list \<Rightarrow> WrapperResolverRegistry \<Rightarrow> WrapperResolverRegistry res_res" where
  "register_all ud [] x = Inr x"
| "register_all ud (r # rs) x = andThen (register_resolver ud r x) (register_all ud rs)"

definition wrapper_registry :: "urldb \<Rightarrow> WrapperResolver list \<Rightarrow> WrapperResolverRegistry res_res" where
  "wrapper_registry ud resolvers = register_all ud resolvers \<lparr>wx_registrations = [], wx_by_host = []\<rparr>"

definition find_wrapper :: "urldb \<Rightarrow> WrapperResolverRegistry \<Rightarrow> codepoints \<Rightarrow> WrapperResolverRegistration option" where
  "find_wrapper ud x hostname = map_of (wx_by_host x) (rstrip_dots (lower_cps ud hostname))"

text \<open>Registrations have distinct resolver ids, which stand for their identity as objects.\<close>

definition match_wrapper ::
  "urldb \<Rightarrow> WrapperResolverRegistry \<Rightarrow> SafeDocumentTarget \<Rightarrow> WrapperResolverRegistration option res_res" where
  "match_wrapper ud x target =
     (case find_wrapper ud x (dt_hostname target) of
        None \<Rightarrow> Inr None
      | Some g \<Rightarrow>
          if \<not> wr_matches (wg_resolver g) target then Inr None
          else if list_ex (\<lambda>g'. wg_resolver_id g' \<noteq> wg_resolver_id g \<and> wr_matches (wg_resolver g') target)
                    (wx_registrations x) then Inl WrapperRegistryError
          else Inr (Some g))"

section \<open>resolution/wrapper\_safety.py\<close>

text \<open>A call of the URL package whose validation errors are handled by \<open>h\<close>.\<close>

definition on_url_error :: "(string \<Rightarrow> res_exn) \<Rightarrow> 'a url_res \<Rightarrow> 'a res_res" where
  "on_url_error h m =
     (case m of
        Inr x \<Rightarrow> Inr x
      | Inl (URLValidationError exc_code _) \<Rightarrow> Inl (h exc_code)
      | Inl (UrlUncaught name) \<Rightarrow> Inl (OtherExn name))"

lemma on_url_error_Inr: "on_url_error h m = Inr x \<longleftrightarrow> m = Inr x"
  by (auto simp: on_url_error_def split: sum.splits url_error.splits)

definition map_parse_error :: "string \<Rightarrow> res_exn" where
  "map_parse_error exc_code = resolution_error UNSAFE_RESOLUTION_TARGET (Some exc_code)"

definition parse_for_classification :: "urldb \<Rightarrow> UrlSettings \<Rightarrow> codepoints \<Rightarrow> ParsedURL res_res" where
  "parse_for_classification ud s raw_url = on_url_error map_parse_error (parse_and_normalize ud s raw_url)"

text \<open>Wrappers are read over HTTPS on its default port only.\<close>

definition wrapper_settings :: "UrlSettings \<Rightarrow> UrlSettings" where
  "wrapper_settings s = s\<lparr>us_allowed_schemes := [cps ''https''], us_allowed_ports := [443]\<rparr>"

definition unsafe :: "string \<Rightarrow> res_exn" where
  "unsafe reason = resolution_error UNSAFE_RESOLUTION_TARGET (Some reason)"

definition safety_validate :: "urldb \<Rightarrow> UrlSettings \<Rightarrow> dns \<Rightarrow> codepoints \<Rightarrow> SafeDocumentTarget res_res" where
  "safety_validate ud s resolver raw_url =
     andThen (on_url_error map_parse_error (parse_and_normalize ud (wrapper_settings s) raw_url)) (\<lambda>parsed.
       if pu_scheme parsed \<noteq> cps ''https'' then Inl (unsafe ''WRAPPER_NON_HTTPS'')
       else if pu_port parsed \<noteq> None then Inl (unsafe ''WRAPPER_NON_DEFAULT_PORT'')
       else if is_reserved_hostname ud (pu_hostname parsed) then Inl (unsafe ''RESERVED_HOSTNAME'')
       else if looks_like_nonstandard_ipv4 ud (pu_hostname parsed) then Inl (unsafe ''NONSTANDARD_IPV4'')
       else if parse_ip_literal ud (pu_hostname parsed) \<noteq> None then Inl (unsafe ''IP_LITERAL'')
       else andThen (on_url_error unsafe (andThen (resolver (pu_hostname parsed)) assert_addresses_allowed)) (\<lambda>_.
         let query = (if pu_query parsed = [] then [] else 63 # pu_query parsed)
         in Inr \<lparr>dt_scheme = pu_scheme parsed, dt_hostname = pu_hostname parsed, dt_port = pu_port parsed,
                 dt_path = pu_path parsed, dt_query = pu_query parsed,
                 dt_canonical_without_query = pu_canonical_without_query parsed,
                 dt_request_url = pu_scheme parsed @ cps ''://'' @ pu_hostname parsed @ pu_path parsed @ query\<rparr>))"

text \<open>The text whose SHA-256 is the fingerprint; \<open>digest\<close> is None for text that has no UTF-8 encoding.\<close>

definition fingerprint_material ::
  "urldb \<Rightarrow> codepoints \<Rightarrow> codepoints \<Rightarrow> int option \<Rightarrow> codepoints \<Rightarrow> codepoints \<Rightarrow> codepoints" where
  "fingerprint_material ud scheme hostname port path query =
     lower_cps ud scheme @ [124] @ rstrip_dots (lower_cps ud hostname) @ [124] @
     cps (show_int (case port of Some p \<Rightarrow> p | None \<Rightarrow> default_port scheme)) @ [124] @
     (if path = [] then [47] else path) @ [124] @ query"

definition internal_url_fingerprint ::
  "urldb \<Rightarrow> (codepoints \<Rightarrow> codepoints option) \<Rightarrow> codepoints \<Rightarrow> codepoints \<Rightarrow> int option \<Rightarrow> codepoints \<Rightarrow>
   codepoints \<Rightarrow> codepoints res_res" where
  "internal_url_fingerprint ud digest scheme hostname port path query =
     (case digest (fingerprint_material ud scheme hostname port path query) of
        None \<Rightarrow> Inl (OtherExn ''UnicodeEncodeError'') | Some d \<Rightarrow> Inr d)"

section \<open>resolution/service.py\<close>

text \<open>
  What a service is built from. Name resolution and the HTTP client may answer differently in each
  round of the loop; the client reads a document from the hosts it is given only.
\<close>

record ResolutionService =
  rs_ud :: urldb
  rs_settings :: UrlSettings
  rs_max_depth :: int
  rs_providers :: "ProviderDescriptor list"
  rs_wrappers :: WrapperResolverRegistry
  rs_dns :: "nat \<Rightarrow> dns"
  rs_client :: "nat \<Rightarrow> codepoints list \<Rightarrow> document_port"
  rs_digest :: "codepoints \<Rightarrow> codepoints option"

definition map_url_error :: "string \<Rightarrow> res_exn" where
  "map_url_error exc_code =
     (if exc_code = ''UNSUPPORTED_PROVIDER'' then resolution_error RESOLVED_PROVIDER_UNSUPPORTED (Some exc_code)
      else resolution_error UNSAFE_RESOLUTION_TARGET (Some exc_code))"

definition scoped_documents :: "ResolutionService \<Rightarrow> nat \<Rightarrow> codepoints list \<Rightarrow> document_port res_res" where
  "scoped_documents rs n exact_hostnames =
     (let normalized = map (\<lambda>h. rstrip_dots (lower_cps (rs_ud rs) (strip_cp (rs_ud rs) h)))
                         (filter (\<lambda>h. h \<noteq> [] \<and> strip_cp (rs_ud rs) h \<noteq> []) exact_hostnames)
      in if normalized = [] then Inl (resolution_error RESOLUTION_INTERNAL_ERROR (Some ''EMPTY_DOCUMENT_ALLOWLIST''))
         else Inr (rs_client rs n normalized))"

definition with_stable_provider_identity :: "ResolutionService \<Rightarrow> URLValidationResult \<Rightarrow> URLValidationResult res_res" where
  "with_stable_provider_identity rs validated =
     (let u = vr_url validated
      in if vr_provider_id validated \<notin> ProviderID_value ` {VK, RUTUBE, OK_RU, DZEN} then Inr validated
         else (case find_provider (rs_ud rs) (rs_providers rs) (nu_hostname u) of
                 None \<Rightarrow> Inr validated
               | Some provider \<Rightarrow>
                   (case parse_stable_provider_identity (rs_ud rs) (vr_provider_id validated) (nu_hostname u) (nu_path u)
                           (pd_exact_hostnames provider) of
                      Inl _ \<Rightarrow> Inr validated
                    | Inr i \<Rightarrow>
                        (case build_public_canonical_url (rs_ud rs) (nu_scheme u) (si_hostname i) (nu_port u)
                                (si_canonical_path i) of
                           Inl _ \<Rightarrow> Inl (OtherExn ''ProviderIdentityError'')
                         | Inr canonical \<Rightarrow>
                             if nu_path u = si_canonical_path i \<and> nu_hostname u = si_hostname i \<and>
                                nu_canonical u = canonical then Inr validated
                             else Inr (validated\<lparr>vr_url := u\<lparr>nu_hostname := si_hostname i,
                                         nu_path := si_canonical_path i, nu_canonical := canonical\<rparr>\<rparr>)))))"

definition validate_terminal :: "ResolutionService \<Rightarrow> nat \<Rightarrow> codepoints \<Rightarrow> URLValidationResult res_res" where
  "validate_terminal rs n raw =
     andThen (on_url_error map_url_error
                (validate (rs_ud rs) (rs_settings rs) (rs_providers rs) (rs_dns rs n) raw))
       (with_stable_provider_identity rs)"

text \<open>The loop of \<open>_resolve_wrapper_chain\<close>: the current URL, the hops so far, the fingerprints seen, and
  the outcome once there is one.\<close>

record chain_state =
  cs_current_raw :: codepoints
  cs_chain :: "ResolutionHop list"
  cs_seen :: "codepoints list"
  cs_outcome :: "ResolutionResult res_res option"

definition fingerprint_target :: "ResolutionService \<Rightarrow> SafeDocumentTarget \<Rightarrow> codepoints res_res" where
  "fingerprint_target rs t = internal_url_fingerprint (rs_ud rs) (rs_digest rs) (dt_scheme t) (dt_hostname t) (dt_port t)
     (dt_path t) (dt_query t)"

definition fingerprint_parsed :: "ResolutionService \<Rightarrow> ParsedURL \<Rightarrow> codepoints res_res" where
  "fingerprint_parsed rs p = internal_url_fingerprint (rs_ud rs) (rs_digest rs) (pu_scheme p) (pu_hostname p) (pu_port p)
     (pu_path p) (pu_query p)"

definition ask_resolver ::
  "ResolutionService \<Rightarrow> nat \<Rightarrow> WrapperResolverRegistration \<Rightarrow> SafeDocumentTarget \<Rightarrow> WrapperResolveOutcome res_res" where
  "ask_resolver rs n g wrapper =
     andThen (scoped_documents rs n (wg_exact_hostnames g)) (\<lambda>documents.
       case wr_resolve (wg_resolver g) wrapper documents of
         Inr outcome \<Rightarrow> Inr outcome
       | Inl (ResolutionError kind reason) \<Rightarrow> Inl (normalize_resolver_error kind reason)
       | Inl (UrlExn (URLValidationError exc_code _)) \<Rightarrow> Inl (map_url_error exc_code)
       | Inl _ \<Rightarrow> Inl (resolution_error WRAPPER_UNRESOLVED (Some ''RESOLVER_EXCEPTION'')))"

definition audit_hop ::
  "ResolutionService \<Rightarrow> WrapperResolverRegistration \<Rightarrow> WrapperResolveOutcome \<Rightarrow> SafeDocumentTarget \<Rightarrow> ParsedURL \<Rightarrow>
   ResolutionHop res_res" where
  "audit_hop rs g outcome wrapper candidate =
     (case andThen (freeze_resolution_metadata (rs_ud rs) (wo_metadata outcome)) (\<lambda>metadata.
           andThen (require_audit_token (wg_resolver_id g)) (\<lambda>resolver_id.
           andThen (require_audit_token (wg_wrapper_type g)) (\<lambda>wrapper_type.
           andThen (require_audit_token (wo_strategy outcome)) (\<lambda>strategy.
             Inr \<lparr>rh_resolver_id = resolver_id, rh_wrapper_type = wrapper_type,
                  rh_source_canonical = dt_canonical_without_query wrapper,
                  rh_target_canonical = pu_canonical_without_query candidate,
                  rh_strategy = strategy, rh_metadata = metadata\<rparr>)))) of
        Inl _ \<Rightarrow> Inl (resolution_error RESOLUTION_INTERNAL_ERROR (Some ''UNSAFE_AUDIT_TOKEN''))
      | Inr hop \<Rightarrow> Inr hop)"

definition manifest_path :: "urldb \<Rightarrow> codepoints \<Rightarrow> bool" where
  "manifest_path ud path =
     (let p = rev (lower_cps ud path) in starts_cp (rev (cps ''.m3u8'')) p \<or> starts_cp (rev (cps ''.mpd'')) p)"

text \<open>The wrapper of this round: validated, not seen before, owned by a registration that accepts it.\<close>

definition chain_wrapper ::
  "ResolutionService \<Rightarrow> chain_state \<Rightarrow> (SafeDocumentTarget \<times> codepoints \<times> WrapperResolverRegistration) res_res" where
  "chain_wrapper rs st =
     (if int (length (cs_chain st)) \<ge> rs_max_depth rs then Inl (resolution_error RESOLUTION_LIMIT_EXCEEDED None)
      else andThen (safety_validate (rs_ud rs) (rs_settings rs) (rs_dns rs (length (cs_chain st))) (cs_current_raw st)) (\<lambda>wrapper.
        andThen (fingerprint_target rs wrapper) (\<lambda>fingerprint.
          if fingerprint \<in> set (cs_seen st) then Inl (resolution_error RESOLUTION_LOOP None)
          else andThen (match_wrapper (rs_ud rs) (rs_wrappers rs) wrapper) (\<lambda>m. case m of
                 None \<Rightarrow> if find_wrapper (rs_ud rs) (rs_wrappers rs) (dt_hostname wrapper) \<noteq> None
                         then Inl (resolution_error WRAPPER_UNSUPPORTED (Some ''WRAPPER_SHAPE_MISMATCH''))
                         else Inl (resolution_error RESOLVED_PROVIDER_UNSUPPORTED None)
               | Some g \<Rightarrow> Inr (wrapper, fingerprint, g)))))"

definition chain_candidate ::
  "ResolutionService \<Rightarrow> nat \<Rightarrow> WrapperResolverRegistration \<Rightarrow> SafeDocumentTarget \<Rightarrow>
   (codepoints \<times> ParsedURL \<times> ResolutionHop) res_res" where
  "chain_candidate rs n g wrapper =
     andThen (ask_resolver rs n g wrapper) (\<lambda>outcome.
       let candidate = strip_cp (rs_ud rs) (wo_candidate_url outcome)
       in if candidate = [] then Inl (resolution_error WRAPPER_UNRESOLVED None)
          else andThen (parse_for_classification (rs_ud rs) (rs_settings rs) candidate) (\<lambda>parsed.
            if pu_scheme parsed \<noteq> cps ''https'' then Inl (unsafe ''WRAPPER_HTTP_CANDIDATE'')
            else if manifest_path (rs_ud rs) (pu_path parsed)
            then Inl (resolution_error RESOLVED_PROVIDER_UNSUPPORTED (Some ''MEDIA_MANIFEST_URL''))
            else andThen (audit_hop rs g outcome wrapper parsed) (\<lambda>hop. Inr (candidate, parsed, hop))))"

definition chain_round :: "ResolutionService \<Rightarrow> codepoints \<Rightarrow> chain_state \<Rightarrow> (ResolutionResult + chain_state) res_res" where
  "chain_round rs raw_url st =
     (let n = length (cs_chain st) in
      andThen (chain_wrapper rs st) (\<lambda>(wrapper, fingerprint, g).
      andThen (chain_candidate rs n g wrapper) (\<lambda>(candidate, parsed, hop).
        let chain = cs_chain st @ [hop]; seen = fingerprint # cs_seen st
        in if find_provider (rs_ud rs) (rs_providers rs) (pu_hostname parsed) \<noteq> None
           then andThen (validate_terminal rs n candidate) (\<lambda>validated.
             Inr (Inl \<lparr>rr_submitted_url = raw_url, rr_validated = validated,
                   rr_provider_id = vr_provider_id validated,
                   rr_provider_display_name = vr_provider_display_name validated,
                   rr_canonical_provider_url = nu_canonical (vr_url validated),
                   rr_wrapper_type = Some (wg_wrapper_type g), rr_provenance = WRAPPER_RESOLVED,
                   rr_resolution_chain =
                     cs_chain st @ [hop\<lparr>rh_target_canonical := nu_canonical (vr_url validated)\<rparr>]\<rparr>))
           else if find_wrapper (rs_ud rs) (rs_wrappers rs) (pu_hostname parsed) \<noteq> None
           then andThen (fingerprint_parsed rs parsed) (\<lambda>cand_fp.
             if cand_fp \<in> set seen then Inl (resolution_error RESOLUTION_LOOP None)
             else Inr (Inr \<lparr>cs_current_raw = candidate, cs_chain = chain, cs_seen = seen, cs_outcome = None\<rparr>))
           else Inl (resolution_error RESOLVED_PROVIDER_UNSUPPORTED None))))"

definition chain_step :: "ResolutionService \<Rightarrow> codepoints \<Rightarrow> chain_state \<Rightarrow> chain_state" where
  "chain_step rs raw_url st =
     (case chain_round rs raw_url st of
        Inl e \<Rightarrow> st\<lparr>cs_outcome := Some (Inl e)\<rparr>
      | Inr (Inl r) \<Rightarrow> st\<lparr>cs_outcome := Some (Inr r)\<rparr>
      | Inr (Inr st') \<Rightarrow> st')"

definition chain_start :: "codepoints \<Rightarrow> chain_state" where
  "chain_start raw_url = \<lparr>cs_current_raw = raw_url, cs_chain = [], cs_seen = [], cs_outcome = None\<rparr>"

text \<open>None would mean that the loop does not end.\<close>

definition resolve_wrapper_chain :: "ResolutionService \<Rightarrow> codepoints \<Rightarrow> ResolutionResult res_res option" where
  "resolve_wrapper_chain rs raw_url =
     Option.bind (while_option (\<lambda>st. cs_outcome st = None) (chain_step rs raw_url) (chain_start raw_url)) cs_outcome"

definition resolve_inner :: "ResolutionService \<Rightarrow> codepoints \<Rightarrow> ResolutionResult res_res option" where
  "resolve_inner rs raw_url =
     (case parse_for_classification (rs_ud rs) (rs_settings rs) raw_url of
        Inl e \<Rightarrow> Some (Inl e)
      | Inr parsed \<Rightarrow>
          let hostname = pu_hostname parsed
          in if is_reserved_hostname (rs_ud rs) hostname then Some (Inl (unsafe ''RESERVED_HOSTNAME''))
             else if looks_like_nonstandard_ipv4 (rs_ud rs) hostname then Some (Inl (unsafe ''NONSTANDARD_IPV4''))
             else if parse_ip_literal (rs_ud rs) hostname \<noteq> None then Some (Inl (unsafe ''IP_LITERAL''))
             else if find_provider (rs_ud rs) (rs_providers rs) hostname \<noteq> None
             then Some (andThen (validate_terminal rs 0 raw_url) (\<lambda>validated.
                    Inr \<lparr>rr_submitted_url = raw_url, rr_validated = validated,
                         rr_provider_id = vr_provider_id validated,
                         rr_provider_display_name = vr_provider_display_name validated,
                         rr_canonical_provider_url = nu_canonical (vr_url validated),
                         rr_wrapper_type = None, rr_provenance = DIRECT_PROVIDER, rr_resolution_chain = []\<rparr>))
             else if find_wrapper (rs_ud rs) (rs_wrappers rs) hostname = None
             then Some (Inl (resolution_error WRAPPER_UNSUPPORTED None))
             else resolve_wrapper_chain rs raw_url)"

definition upper_char :: "char \<Rightarrow> char" where
  "upper_char c = (let n = of_char c :: nat in if 97 \<le> n \<and> n \<le> 122 then char_of (n - 32) else c)"

definition close_errors :: "ResolutionResult res_res \<Rightarrow> ResolutionResult res_res" where
  "close_errors m =
     (case m of
        Inr r \<Rightarrow> Inr r
      | Inl (ResolutionError kind reason) \<Rightarrow> Inl (ResolutionError kind reason)
      | Inl WrapperRegistryError \<Rightarrow> Inl (resolution_error RESOLUTION_INTERNAL_ERROR (Some ''WRAPPER_REGISTRY''))
      | Inl (OtherExn name) \<Rightarrow> Inl (resolution_error RESOLUTION_INTERNAL_ERROR (Some (take 64 (map upper_char name))))
      | Inl (UrlExn _) \<Rightarrow> Inl (resolution_error RESOLUTION_INTERNAL_ERROR (Some ''URLVALIDATIONERROR'')))"

lemma close_errors_Inr: "close_errors m = Inr r \<longleftrightarrow> m = Inr r"
  by (cases m; cases "projl m") (auto simp: close_errors_def)

definition resolve :: "ResolutionService \<Rightarrow> codepoints \<Rightarrow> ResolutionResult res_res option" where
  "resolve rs raw_url = map_option close_errors (resolve_inner rs raw_url)"

section \<open>The loop ends\<close>

lemma chain_wrapperD:
  assumes "chain_wrapper rs st = Inr (wrapper, fp, g)"
  shows "int (length (cs_chain st)) < rs_max_depth rs" "fp \<notin> set (cs_seen st)"
    "safety_validate (rs_ud rs) (rs_settings rs) (rs_dns rs (length (cs_chain st))) (cs_current_raw st) = Inr wrapper"
    "match_wrapper (rs_ud rs) (rs_wrappers rs) wrapper = Inr (Some g)"
  using assms by (auto simp: chain_wrapper_def andThen_eq_Inr split: if_splits option.splits)

lemma audit_hopD:
  assumes "audit_hop rs g outcome wrapper parsed = Inr hop"
  shows "rh_source_canonical hop = dt_canonical_without_query wrapper \<and>
     rh_target_canonical hop = pu_canonical_without_query parsed"
proof -
  let ?m = "andThen (freeze_resolution_metadata (rs_ud rs) (wo_metadata outcome)) (\<lambda>metadata.
           andThen (require_audit_token (wg_resolver_id g)) (\<lambda>resolver_id.
           andThen (require_audit_token (wg_wrapper_type g)) (\<lambda>wrapper_type.
           andThen (require_audit_token (wo_strategy outcome)) (\<lambda>strategy.
             Inr \<lparr>rh_resolver_id = resolver_id, rh_wrapper_type = wrapper_type,
                  rh_source_canonical = dt_canonical_without_query wrapper,
                  rh_target_canonical = pu_canonical_without_query parsed,
                  rh_strategy = strategy, rh_metadata = metadata\<rparr>))))"
  have "?m = Inr hop" using assms unfolding audit_hop_def by (cases ?m) (auto simp only: sum.case)
  then show ?thesis by (auto simp only: andThen_eq_Inr sum.inject ResolutionHop.simps)
qed

lemma chain_candidateD:
  assumes "chain_candidate rs n g wrapper = Inr (candidate, parsed, hop)"
  shows "parse_and_normalize (rs_ud rs) (rs_settings rs) candidate = Inr parsed" "pu_scheme parsed = cps ''https''"
    "rh_source_canonical hop = dt_canonical_without_query wrapper"
    "rh_target_canonical hop = pu_canonical_without_query parsed"
proof -
  obtain outcome where o: "ask_resolver rs n g wrapper = Inr outcome"
    using assms by (auto simp: chain_candidate_def andThen_eq_Inr)
  note run = assms [unfolded chain_candidate_def o andThen_Inr Let_def]
  obtain q where q: "parse_for_classification (rs_ud rs) (rs_settings rs) (strip_cp (rs_ud rs) (wo_candidate_url outcome)) = Inr q"
    using run by (auto simp: andThen_eq_Inr split: if_split_asm)
  note run = run [unfolded q andThen_Inr]
  have r: "audit_hop rs g outcome wrapper parsed = Inr hop" "candidate = strip_cp (rs_ud rs) (wo_candidate_url outcome)" "q = parsed"
    "pu_scheme parsed = cps ''https''"
    using run by (auto simp: andThen_eq_Inr split: if_split_asm)
  show "pu_scheme parsed = cps ''https''" by (rule r(4))
  show "parse_and_normalize (rs_ud rs) (rs_settings rs) candidate = Inr parsed"
    using q r(2,3) by (simp add: parse_for_classification_def on_url_error_Inr)
  show "rh_source_canonical hop = dt_canonical_without_query wrapper"
    "rh_target_canonical hop = pu_canonical_without_query parsed"
    using audit_hopD [OF r(1)] by simp_all
qed

lemma chain_round_nextE:
  assumes "chain_round rs raw st = Inr (Inr st')"
  obtains wrapper fp g candidate parsed hop where "chain_wrapper rs st = Inr (wrapper, fp, g)"
    "chain_candidate rs (length (cs_chain st)) g wrapper = Inr (candidate, parsed, hop)"
    "st' = \<lparr>cs_current_raw = candidate, cs_chain = cs_chain st @ [hop], cs_seen = fp # cs_seen st, cs_outcome = None\<rparr>"
  using assms
  by (auto simp: chain_round_def Let_def andThen_eq_Inr split: if_splits)

lemma chain_next_fresh:
  assumes "chain_round rs raw st = Inr (Inr st')"
  shows "\<exists>hop fp. cs_chain st' = cs_chain st @ [hop] \<and> cs_seen st' = fp # cs_seen st \<and> fp \<notin> set (cs_seen st) \<and>
     length (cs_chain st) < nat (rs_max_depth rs) \<and> cs_outcome st' = None"
proof (rule chain_round_nextE [OF assms])
  fix wrapper fp g candidate parsed hop
  assume "chain_wrapper rs st = Inr (wrapper, fp, g)"
    and "st' = \<lparr>cs_current_raw = candidate, cs_chain = cs_chain st @ [hop], cs_seen = fp # cs_seen st, cs_outcome = None\<rparr>"
  with chain_wrapperD(1,2) [OF this(1)] show ?thesis by auto
qed

definition chain_inv :: "ResolutionService \<Rightarrow> chain_state \<Rightarrow> bool" where
  "chain_inv rs st \<longleftrightarrow>
     length (cs_chain st) \<le> nat (rs_max_depth rs) \<and> length (cs_seen st) = length (cs_chain st) \<and> distinct (cs_seen st)"

lemma chain_inv_start [simp]: "chain_inv rs (chain_start raw)"
  by (simp add: chain_inv_def chain_start_def)

lemma chain_inv_step: "chain_inv rs st \<Longrightarrow> chain_inv rs (chain_step rs raw st)"
  using chain_next_fresh by (fastforce simp: chain_step_def chain_inv_def split: sum.splits)

lemma chain_inv_steps: "chain_inv rs ((chain_step rs raw ^^ k) (chain_start raw))"
  by (induction k) (simp_all add: chain_inv_step)

definition rounds_left :: "ResolutionService \<Rightarrow> chain_state \<Rightarrow> nat" where
  "rounds_left rs st = (if cs_outcome st = None then nat (rs_max_depth rs) + 1 - length (cs_chain st) else 0)"

lemma rounds_decrease:
  "chain_inv rs st \<Longrightarrow> cs_outcome st = None \<Longrightarrow> rounds_left rs (chain_step rs raw st) < rounds_left rs st"
  using chain_next_fresh by (fastforce simp: chain_step_def chain_inv_def rounds_left_def split: sum.splits)

lemma chain_returns:
  "\<exists>st. while_option (\<lambda>st. cs_outcome st = None) (chain_step rs raw) (chain_start raw) = Some st \<and> cs_outcome st \<noteq> None"
proof -
  have "\<exists>st. while_option (\<lambda>st. cs_outcome st = None) (chain_step rs raw) (chain_start raw) = Some st"
    by (rule measure_while_option_Some [where P = "chain_inv rs" and f = "rounds_left rs"])
      (simp_all add: chain_inv_step rounds_decrease)
  then show ?thesis using while_option_stop by fast
qed

lemma rounds_bounded:
  "cs_outcome ((chain_step rs raw ^^ k) (chain_start raw)) = None \<Longrightarrow>
   rounds_left rs ((chain_step rs raw ^^ k) (chain_start raw)) + k \<le> nat (rs_max_depth rs) + 1 \<or>
   (\<exists>j < k. cs_outcome ((chain_step rs raw ^^ j) (chain_start raw)) \<noteq> None)"
proof (induction k)
  case 0
  then show ?case by (simp add: rounds_left_def chain_start_def)
next
  case (Suc k)
  show ?case
  proof (cases "cs_outcome ((chain_step rs raw ^^ k) (chain_start raw)) = None")
    case True
    from Suc.IH [OF True] rounds_decrease [OF chain_inv_steps True, of raw] show ?thesis
      by (auto simp: less_Suc_eq)
  qed auto
qed

lemma outcome_within_depth:
  "\<exists>k \<le> nat (rs_max_depth rs) + 1. cs_outcome ((chain_step rs raw ^^ k) (chain_start raw)) \<noteq> None"
proof (rule ccontr)
  let ?st = "\<lambda>k. (chain_step rs raw ^^ k) (chain_start raw)" and ?n = "nat (rs_max_depth rs) + 1"
  assume "\<not> ?thesis"
  then have none: "cs_outcome (?st k) = None" if "k \<le> ?n" for k using that by blast
  from rounds_bounded [OF none [OF order_refl]] none have "rounds_left rs (?st ?n) + ?n \<le> ?n" by fastforce
  moreover have "0 < rounds_left rs (?st ?n)"
    using none [OF order_refl] chain_inv_steps [of rs "?n" raw] by (simp add: rounds_left_def chain_inv_def)
  ultimately show False by simp
qed

lemma resolve_wrapper_chain_total: "\<exists>r. resolve_wrapper_chain rs raw = Some r"
  using chain_returns [of rs raw] by (auto simp: resolve_wrapper_chain_def)

text \<open>C0. Resolution always ends, whatever pages, resolvers and name servers answer: after at most one
  round more than the configured depth there is an outcome, until then every round has read
  a page of another fingerprint, and never more pages than the depth have been passed.\<close>

theorem resolution_terminates:
  "(\<exists>r. resolve rs raw = Some r) \<and>
   (\<exists>k \<le> nat (rs_max_depth rs) + 1. cs_outcome ((chain_step rs raw ^^ k) (chain_start raw)) \<noteq> None) \<and>
   (\<forall>k. let st = (chain_step rs raw ^^ k) (chain_start raw) in
      distinct (cs_seen st) \<and> length (cs_seen st) = length (cs_chain st) \<and> length (cs_chain st) \<le> nat (rs_max_depth rs))"
proof -
  have "\<exists>r. resolve rs raw = Some r"
    using resolve_wrapper_chain_total [of rs raw] by (auto simp: resolve_def resolve_inner_def Let_def split: sum.split)
  moreover have "let st = (chain_step rs raw ^^ k) (chain_start raw) in
      distinct (cs_seen st) \<and> length (cs_seen st) = length (cs_chain st) \<and> length (cs_chain st) \<le> nat (rs_max_depth rs)" for k
    using chain_inv_steps [of rs k raw] by (simp add: chain_inv_def Let_def)
  ultimately show ?thesis using outcome_within_depth [of rs raw] by blast
qed

section \<open>What is parsed does not depend on the settings\<close>

lemma normalize_port_same:
  "normalize_port scheme port a = Inr p \<Longrightarrow> normalize_port scheme port b = Inr q \<Longrightarrow> p = q"
  by (auto simp: normalize_port_def split: option.splits if_splits)

lemma parse_and_normalize_same:
  assumes "parse_and_normalize ud s raw = Inr p" and "parse_and_normalize ud s' raw = Inr q"
  shows "p = q"
proof -
  obtain r where r: "urlparse ud (strip_cp ud raw) = Inr r"
    using assms(1) by (auto simp: parse_and_normalize_def Let_def andThen_eq_Inr split: if_split_asm)
  obtain host where host: "url_hostname ud (pr_netloc r) = Some host"
    using assms(1) r by (cases "url_hostname ud (pr_netloc r)")
      (auto simp: parse_and_normalize_def Let_def andThen_eq_Inr split: if_split_asm)
  show ?thesis
    using assms unfolding parse_and_normalize_def Let_def r andThen_Inr host option.case
    by (auto simp: andThen_eq_Inr split: if_split_asm dest: normalize_port_same)
qed

section \<open>The page that is reached\<close>

lemma identity_host_owned:
  assumes "parse_stable_provider_identity ud (ProviderID_value p) h path (provider_hosts p) = Inr i"
  shows "si_hostname i \<in> set (provider_hosts p)"
proof -
  obtain host where host: "normalize_hostname ud h = Inr host" "host \<in> set (provider_hosts p)"
    using assms by (auto simp: parse_stable_provider_identity_def andThen_eq_Inr split: if_split_asm)
  then have "dzen_host_canonical host \<in> set (provider_hosts p)" if "p = DZEN"
    using that by (auto simp: dzen_host_canonical_def provider_hosts_def dzen_hosts_def)
  then have both: "host \<in> set (provider_hosts p)" "p = DZEN \<Longrightarrow> dzen_host_canonical host \<in> set (provider_hosts p)"
    using host(2) by auto
  have "si_hostname i = host \<or> p = DZEN \<and> si_hostname i = dzen_host_canonical host"
    using assms host by (cases p) (auto simp: parse_stable_provider_identity_def Let_def split: if_split_asm option.splits)
  with both show ?thesis by auto
qed

text \<open>What the terminal validation and the rewriting to the stable identity guarantee.\<close>

definition trusted_page :: "ResolutionService \<Rightarrow> nat \<Rightarrow> URLValidationResult \<Rightarrow> bool" where
  "trusted_page rs n v \<longleftrightarrow>
     (let u = vr_url v in
      nu_scheme u \<in> set (us_allowed_schemes (rs_settings rs)) \<and>
      effective_port u \<in> set (us_allowed_ports (rs_settings rs)) \<and>
      (\<exists>p host addrs. us_provider_enabled (rs_settings rs) p \<and> vr_provider_id v = ProviderID_value p \<and>
         rstrip_dots (lower_cps (rs_ud rs) host) \<in> set (provider_hosts p) \<and>
         (nu_hostname u = host \<or> nu_hostname u \<in> set (provider_hosts p)) \<and>
         rs_dns rs n host = Inr addrs \<and> addrs \<noteq> [] \<and> (\<forall>a \<in> set addrs. \<not> is_blocked_destination a)))"

lemma stable_identity_page:
  assumes st: "with_stable_provider_identity rs r = Inr v" and ps: "rs_providers rs = build_default_providers (rs_settings rs)"
    and d: "find_provider (rs_ud rs) (rs_providers rs) (nu_hostname (vr_url r)) = Some d" "vr_provider_id r = pd_id d"
  shows "vr_provider_id v = vr_provider_id r \<and> nu_scheme (vr_url v) = nu_scheme (vr_url r) \<and>
    nu_port (vr_url v) = nu_port (vr_url r) \<and>
    (nu_hostname (vr_url v) = nu_hostname (vr_url r) \<or> nu_hostname (vr_url v) \<in> set (pd_exact_hostnames d))"
proof -
  obtain p where p: "pd_id d = ProviderID_value p" "pd_exact_hostnames d = provider_hosts p"
    using find_default d(1) ps by metis
  have same: "v = r \<or> (\<exists>i canonical. parse_stable_provider_identity (rs_ud rs) (vr_provider_id r) (nu_hostname (vr_url r))
        (nu_path (vr_url r)) (pd_exact_hostnames d) = Inr i \<and>
      v = r\<lparr>vr_url := (vr_url r)\<lparr>nu_hostname := si_hostname i, nu_path := si_canonical_path i, nu_canonical := canonical\<rparr>\<rparr>)"
    using st d(1) by (auto simp: with_stable_provider_identity_def Let_def split: if_split_asm sum.splits)
  then show ?thesis using identity_host_owned [of "rs_ud rs" p] d(2) p by auto
qed

lemma validate_terminal_trusted:
  assumes t: "validate_terminal rs n raw = Inr v" and ps: "rs_providers rs = build_default_providers (rs_settings rs)"
  shows "trusted_page rs n v \<and> (\<exists>p. parse_and_normalize (rs_ud rs) (rs_settings rs) raw = Inr p \<and> nu_scheme (vr_url v) = pu_scheme p)"
proof -
  obtain r where r: "validate (rs_ud rs) (rs_settings rs) (rs_providers rs) (rs_dns rs n) raw = Inr r"
    "with_stable_provider_identity rs r = Inr v"
    using t by (auto simp: validate_terminal_def andThen_eq_Inr on_url_error_Inr)
  show ?thesis
  proof (rule validateD [OF r(1)])
    fix p d addrs
    assume f: "parse_and_normalize (rs_ud rs) (rs_settings rs) raw = Inr p"
      "find_provider (rs_ud rs) (rs_providers rs) (pu_hostname p) = Some d"
      "rs_dns rs n (pu_hostname p) = Inr addrs" "addrs \<noteq> []" "\<not> list_ex is_blocked_destination addrs"
      "r = \<lparr>vr_provider_id = pd_id d, vr_provider_display_name = pd_display_name d,
       vr_url = \<lparr>nu_original_scheme = pu_original_scheme p, nu_scheme = pu_scheme p, nu_hostname = pu_hostname p,
         nu_port = pu_port p, nu_path = pu_path p, nu_query = pu_query p, nu_provider_id = pd_id d,
         nu_canonical = pu_canonical_without_query p\<rparr>,
       vr_head_fallback_statuses = pd_head_fallback_statuses d\<rparr>"
    obtain q where q: "us_provider_enabled (rs_settings rs) q" "pd_id d = ProviderID_value q"
      "pd_exact_hostnames d = provider_hosts q" "rstrip_dots (lower_cps (rs_ud rs) (pu_hostname p)) \<in> set (provider_hosts q)"
      using find_default f(2) ps by metis
    note c = parse_and_normalizeD [OF f(1)]
    have v: "vr_provider_id v = ProviderID_value q" "nu_scheme (vr_url v) = pu_scheme p" "nu_port (vr_url v) = pu_port p"
      "nu_hostname (vr_url v) = pu_hostname p \<or> nu_hostname (vr_url v) \<in> set (provider_hosts q)"
      using stable_identity_page [OF r(2) ps, of d] f(2,6) q by simp_all
    have "effective_port (vr_url v) \<in> set (us_allowed_ports (rs_settings rs))"
      using c(4) v(2,3) by (auto simp: effective_port_def clean_port_def split: option.splits)
    then show ?thesis
      using c(1) f(1,3-5) q v unfolding trusted_page_def Let_def list_ex_iff by metis
  qed
qed

text \<open>The audit trail of a resolution: it starts at the submitted address, each hop continues where the one
  before it led, and it ends at the page of the provider.\<close>

definition audit_trail :: "ResolutionService \<Rightarrow> codepoints \<Rightarrow> ResolutionHop list \<Rightarrow> codepoints \<Rightarrow> bool" where
  "audit_trail rs raw hops target \<longleftrightarrow>
     hops \<noteq> [] \<and> length hops \<le> nat (rs_max_depth rs) \<and>
     (\<exists>p. parse_and_normalize (rs_ud rs) (wrapper_settings (rs_settings rs)) raw = Inr p \<and>
        rh_source_canonical (hd hops) = pu_canonical_without_query p) \<and>
     successively (\<lambda>a b. rh_target_canonical a = rh_source_canonical b) hops \<and>
     rh_target_canonical (last hops) = target"

definition open_trail :: "ResolutionService \<Rightarrow> codepoints \<Rightarrow> chain_state \<Rightarrow> bool" where
  "open_trail rs raw st \<longleftrightarrow>
     (if cs_chain st = [] then cs_current_raw st = raw
      else \<exists>p. parse_and_normalize (rs_ud rs) (rs_settings rs) (cs_current_raw st) = Inr p \<and>
             audit_trail rs raw (cs_chain st) (pu_canonical_without_query p))"

definition closed_trail :: "ResolutionService \<Rightarrow> codepoints \<Rightarrow> ResolutionResult \<Rightarrow> bool" where
  "closed_trail rs raw res \<longleftrightarrow>
     rr_submitted_url res = raw \<and> rr_wrapper_type res \<noteq> None \<and> rr_provenance res = WRAPPER_RESOLVED \<and>
     rr_provider_id res = vr_provider_id (rr_validated res) \<and>
     rr_canonical_provider_url res = nu_canonical (vr_url (rr_validated res)) \<and>
     nu_scheme (vr_url (rr_validated res)) = cps ''https'' \<and>
     audit_trail rs raw (rr_resolution_chain res) (rr_canonical_provider_url res) \<and>
     (\<exists>n. trusted_page rs n (rr_validated res))"

definition trail_inv :: "ResolutionService \<Rightarrow> codepoints \<Rightarrow> chain_state \<Rightarrow> bool" where
  "trail_inv rs raw st \<longleftrightarrow>
     (case cs_outcome st of
        None \<Rightarrow> open_trail rs raw st | Some (Inl _) \<Rightarrow> True | Some (Inr res) \<Rightarrow> closed_trail rs raw res)"

lemma safety_validate_parsed:
  assumes "safety_validate ud s resolver raw = Inr w"
  shows "\<exists>p. parse_and_normalize ud (wrapper_settings s) raw = Inr p \<and> dt_canonical_without_query w = pu_canonical_without_query p"
  using assms by (auto simp: safety_validate_def andThen_eq_Inr on_url_error_Inr Let_def split: if_split_asm)

lemma trail_grows:
  assumes inv: "open_trail rs raw st" and w: "chain_wrapper rs st = Inr (wrapper, fp, g)"
    and src: "rh_source_canonical hop = dt_canonical_without_query wrapper"
  shows "audit_trail rs raw (cs_chain st @ [hop]) (rh_target_canonical hop)"
proof -
  note f = chain_wrapperD [OF w]
  obtain p where p: "parse_and_normalize (rs_ud rs) (wrapper_settings (rs_settings rs)) (cs_current_raw st) = Inr p"
    "rh_source_canonical hop = pu_canonical_without_query p"
    using safety_validate_parsed [OF f(3)] src by auto
  show ?thesis
  proof (cases "cs_chain st = []")
    case True
    then show ?thesis using inv p f(1) by (simp add: audit_trail_def open_trail_def)
  next
    case False
    then obtain q where q: "parse_and_normalize (rs_ud rs) (rs_settings rs) (cs_current_raw st) = Inr q"
      "audit_trail rs raw (cs_chain st) (pu_canonical_without_query q)" using inv by (auto simp: open_trail_def)
    have "p = q" by (rule parse_and_normalize_same [OF p(1) q(1)])
    then show ?thesis using q(2) p(2) f(1) by (auto simp: audit_trail_def successively_append_iff)
  qed
qed

lemma trail_step:
  assumes inv: "trail_inv rs raw st" and live: "cs_outcome st = None"
    and ps: "rs_providers rs = build_default_providers (rs_settings rs)"
  shows "trail_inv rs raw (chain_step rs raw st)"
proof (cases "chain_round rs raw st")
  case (Inl e)
  then show ?thesis by (simp add: chain_step_def trail_inv_def)
next
  case (Inr out)
  then obtain wrapper fp g candidate parsed hop where
    w: "chain_wrapper rs st = Inr (wrapper, fp, g)" and
    c: "chain_candidate rs (length (cs_chain st)) g wrapper = Inr (candidate, parsed, hop)"
    by (auto simp: chain_round_def Let_def andThen_eq_Inr)
  have ot: "open_trail rs raw st" using inv live by (simp add: trail_inv_def)
  note cd = chain_candidateD [OF c]
  note run = Inr [unfolded chain_round_def Let_def w andThen_Inr prod.case c]
  show ?thesis
  proof (cases out)
    case (Inr st')
    then have "st' = \<lparr>cs_current_raw = candidate, cs_chain = cs_chain st @ [hop], cs_seen = fp # cs_seen st, cs_outcome = None\<rparr>"
      using run by (auto simp: andThen_eq_Inr split: if_split_asm)
    then show ?thesis
      using trail_grows [OF ot w cd(3)] cd(1,4) \<open>chain_round rs raw st = Inr out\<close> Inr
      by (simp add: chain_step_def trail_inv_def open_trail_def)
  next
    case (Inl res)
    obtain v where v: "validate_terminal rs (length (cs_chain st)) candidate = Inr v"
      using run Inl by (auto simp: andThen_eq_Inr split: if_split_asm)
    have res: "res = \<lparr>rr_submitted_url = raw, rr_validated = v, rr_provider_id = vr_provider_id v,
       rr_provider_display_name = vr_provider_display_name v, rr_canonical_provider_url = nu_canonical (vr_url v),
       rr_wrapper_type = Some (wg_wrapper_type g), rr_provenance = WRAPPER_RESOLVED,
       rr_resolution_chain = cs_chain st @ [hop\<lparr>rh_target_canonical := nu_canonical (vr_url v)\<rparr>]\<rparr>"
      using run Inl v by (auto simp: andThen_eq_Inr split: if_split_asm)
    have "audit_trail rs raw (cs_chain st @ [hop\<lparr>rh_target_canonical := nu_canonical (vr_url v)\<rparr>]) (nu_canonical (vr_url v))"
      using trail_grows [OF ot w, of "hop\<lparr>rh_target_canonical := nu_canonical (vr_url v)\<rparr>"] cd(3) by simp
    moreover have "nu_scheme (vr_url v) = cps ''https''" "trusted_page rs (length (cs_chain st)) v"
      using validate_terminal_trusted [OF v ps] cd(1,2) by auto
    ultimately have "closed_trail rs raw res" unfolding closed_trail_def res by auto
    then show ?thesis using \<open>chain_round rs raw st = Inr out\<close> Inl by (simp add: chain_step_def trail_inv_def)
  qed
qed

lemma chain_result:
  assumes "resolve_wrapper_chain rs raw = Some (Inr res)" and ps: "rs_providers rs = build_default_providers (rs_settings rs)"
  shows "closed_trail rs raw res"
proof -
  obtain st where st: "while_option (\<lambda>st. cs_outcome st = None) (chain_step rs raw) (chain_start raw) = Some st"
    "cs_outcome st = Some (Inr res)"
    using assms(1) by (auto simp: resolve_wrapper_chain_def bind_eq_Some_conv)
  have "trail_inv rs raw st"
  proof (rule while_option_rule [where P = "trail_inv rs raw", OF _ st(1)])
    show "trail_inv rs raw (chain_start raw)" by (simp add: trail_inv_def open_trail_def chain_start_def)
  qed (rule trail_step [OF _ _ ps])
  then show ?thesis by (simp add: trail_inv_def st(2))
qed

lemma resolved_page:
  assumes "resolve rs raw = Some (Inr res)" and "rs_providers rs = build_default_providers (rs_settings rs)"
  shows "rr_submitted_url res = raw \<and> rr_provider_id res = vr_provider_id (rr_validated res) \<and>
     rr_canonical_provider_url res = nu_canonical (vr_url (rr_validated res)) \<and>
     (\<exists>n. trusted_page rs n (rr_validated res)) \<and>
     (if rr_provenance res = DIRECT_PROVIDER then rr_resolution_chain res = [] \<and> rr_wrapper_type res = None
      else nu_scheme (vr_url (rr_validated res)) = cps ''https'' \<and> rr_wrapper_type res \<noteq> None \<and>
           audit_trail rs raw (rr_resolution_chain res) (rr_canonical_provider_url res))"
proof -
  have inner: "resolve_inner rs raw = Some (Inr res)"
    using assms(1) by (auto simp: resolve_def close_errors_Inr)
  then obtain p where p: "parse_for_classification (rs_ud rs) (rs_settings rs) raw = Inr p"
    by (auto simp: resolve_inner_def split: sum.splits)
  note run = inner [unfolded resolve_inner_def p sum.case Let_def]
  show ?thesis
  proof (cases "find_provider (rs_ud rs) (rs_providers rs) (pu_hostname p) = None")
    case True
    then have "resolve_wrapper_chain rs raw = Some (Inr res)" using run by (auto split: if_split_asm)
    from chain_result [OF this assms(2)] show ?thesis by (auto simp: closed_trail_def)
  next
    case False
    then obtain v where v: "validate_terminal rs 0 raw = Inr v"
      using run by (auto simp: andThen_eq_Inr split: if_split_asm)
    then have "res = \<lparr>rr_submitted_url = raw, rr_validated = v, rr_provider_id = vr_provider_id v,
       rr_provider_display_name = vr_provider_display_name v, rr_canonical_provider_url = nu_canonical (vr_url v),
       rr_wrapper_type = None, rr_provenance = DIRECT_PROVIDER, rr_resolution_chain = []\<rparr>"
      using run False by (auto split: if_split_asm)
    with validate_terminal_trusted [OF v assms(2)] show ?thesis by auto
  qed
qed

text \<open>C0. Whatever a wrapper page or its resolver suggests, a resolution that succeeds ends at a page of a
  listed host of an enabled provider, validated like a submitted address, with every address it
  was looked up at public. A page that was submitted directly has no trail; one found through wrappers
  is an HTTPS address, and its trail is a connected chain of at most the configured number
  of hops from the submitted address to exactly the canonical URL of the result.\<close>

theorem resolved_page_is_trusted:
  assumes "resolve rs raw = Some (Inr res)" and "rs_providers rs = build_default_providers (rs_settings rs)"
  shows "rr_submitted_url res = raw \<and> rr_provider_id res = vr_provider_id (rr_validated res) \<and>
     rr_canonical_provider_url res = nu_canonical (vr_url (rr_validated res)) \<and>
     (\<exists>n. trusted_page rs n (rr_validated res)) \<and>
     (if rr_provenance res = DIRECT_PROVIDER then rr_resolution_chain res = [] \<and> rr_wrapper_type res = None
      else nu_scheme (vr_url (rr_validated res)) = cps ''https'' \<and> rr_wrapper_type res \<noteq> None \<and>
           audit_trail rs raw (rr_resolution_chain res) (rr_canonical_provider_url res))"
  by (rule resolved_page [OF assms])

section \<open>Samples\<close>

lemma with_stable_total:
  assumes laws: "urldb_laws (rs_ud rs)" and ps: "rs_providers rs = build_default_providers (rs_settings rs)"
    and https: "nu_scheme (vr_url r) = cps ''https''"
    and d: "find_provider (rs_ud rs) (rs_providers rs) (nu_hostname (vr_url r)) = Some d" "vr_provider_id r = pd_id d"
  shows "\<exists>v. with_stable_provider_identity rs r = Inr v"
proof (cases "parse_stable_provider_identity (rs_ud rs) (vr_provider_id r) (nu_hostname (vr_url r)) (nu_path (vr_url r))
    (pd_exact_hostnames d)")
  case (Inl e)
  then show ?thesis using d(1) by (auto simp: with_stable_provider_identity_def Let_def)
next
  case (Inr i)
  obtain p where p: "pd_id d = ProviderID_value p" "pd_exact_hostnames d = provider_hosts p"
    using find_default d(1) ps by metis
  have "si_hostname i \<in> set (provider_hosts p)" using identity_host_owned Inr p d(2) by simp
  note host = normalize_provider_host [OF laws this]
  have "build_public_canonical_url (rs_ud rs) (cps ''https'') (si_hostname i) port (si_canonical_path i) = Inr
      (unparse_url (cps ''https'') (si_hostname i @ port_suffix port)
        (if starts_cp [47] (si_canonical_path i) then si_canonical_path i else [47] @ si_canonical_path i))" for port
    by (simp add: build_public_canonical_url_def host https_strips [OF laws] Let_def del: cps_simps)
  then show ?thesis
    using d(1) Inr https by (auto simp: with_stable_provider_identity_def Let_def simp del: cps_simps)
qed

abbreviation "preview_link \<equiv> build_canonical (cps ''https'') (canonical_host_for_url (cps ''yandex.ru'')) None (cps ''/video/preview/1'')"

definition sample_resolver :: WrapperResolver where
  "sample_resolver = \<lparr>wr_resolver_id = cps ''preview'', wr_wrapper_type = cps ''preview'',
     wr_exact_hostnames = [cps ''yandex.ru''], wr_matches = (\<lambda>t. dt_hostname t = cps ''yandex.ru''),
     wr_resolve = (\<lambda>_ _. Inr \<lparr>wo_candidate_url = sample_link, wo_strategy = cps ''direct'', wo_metadata = None\<rparr>)\<rparr>"

definition sample_registration :: WrapperResolverRegistration where
  "sample_registration = \<lparr>wg_resolver = sample_resolver, wg_resolver_id = cps ''preview'', wg_wrapper_type = cps ''preview'',
     wg_exact_hostnames = [cps ''yandex.ru'']\<rparr>"

definition sample_registry :: WrapperResolverRegistry where
  "sample_registry = \<lparr>wx_registrations = [sample_registration], wx_by_host = [(cps ''yandex.ru'', sample_registration)]\<rparr>"

definition sample_service :: ResolutionService where
  "sample_service = \<lparr>rs_ud = sample_urldb, rs_settings = sample_url_settings, rs_max_depth = 2,
     rs_providers = build_default_providers sample_url_settings, rs_wrappers = sample_registry,
     rs_dns = (\<lambda>_. sample_dns), rs_client = (\<lambda>_ _ _. Inl (OtherExn ''OSError'')), rs_digest = Some\<rparr>"

lemma sample_registry_built: "wrapper_registry sample_urldb [sample_resolver] = Inr sample_registry"
proof -
  have "normalize_wrapper_host sample_urldb (cps ''yandex.ru'') = Inr (cps ''yandex.ru'')" by code_simp
  then show ?thesis
    by (simp add: wrapper_registry_def register_resolver_def sample_resolver_def sample_registry_def
        sample_registration_def Let_def del: cps_simps) (simp add: Let_def)
qed

lemma preview_plain: "plain_host (cps ''yandex.ru'')"
  by (simp add: plain_host_def dec_cp_def starts_cp_def)

lemma preview_parsed:
  assumes "s = sample_url_settings \<or> s = wrapper_settings sample_url_settings"
  shows "parse_and_normalize sample_urldb s preview_link =
     Inr \<lparr>pu_original_scheme = cps ''https'', pu_scheme = cps ''https'', pu_hostname = cps ''yandex.ru'', pu_port = None,
       pu_path = cps ''/video/preview/1'', pu_query = [], pu_canonical_without_query = preview_link\<rparr>"
proof (rule parse_canonical [OF sample_urldb_laws _ _ _ _ preview_plain])
  show "clean_scheme (cps ''https'')"
    by (simp add: clean_scheme_def alpha_cp_def scheme_cp_def lower_ascii_cp_def)
  show "clean_path (cps ''https'') (cps ''/video/preview/1'')" by (simp add: clean_path_def after_last_def)
qed (use assms in \<open>auto simp: sample_url_settings_def wrapper_settings_def clean_port_def default_port_def sample_urldb_def
    build_canonical_def unparse_url_def port_suffix_def canonical_host_for_url_def
    quote_plain [OF preview_plain, simplified]\<close>)

lemma preview_host:
  "\<not> is_reserved_hostname sample_urldb (cps ''yandex.ru'')" "\<not> looks_like_nonstandard_ipv4 sample_urldb (cps ''yandex.ru'')"
  "parse_ip_literal sample_urldb (cps ''yandex.ru'') = None"
  "find_provider sample_urldb (build_default_providers sample_url_settings) (cps ''yandex.ru'') = None"
  "find_wrapper sample_urldb sample_registry (cps ''yandex.ru'') = Some sample_registration"
  by (simp_all add: is_reserved_hostname_def looks_like_nonstandard_ipv4_def parse_ip_literal_def sample_urldb_def
      rstrip_dots_def lower_ascii_cp_def hex_form_def digit_run_def dotted_form_def drop_eol_def starts_cp_def dec_cp_def
      Let_def RESERVED_HOSTNAMES_def find_provider_def build_default_providers_def vk_hosts_def rutube_hosts_def
      ok_hosts_def dzen_hosts_def find_wrapper_def sample_registry_def)

abbreviation "preview_target \<equiv> \<lparr>dt_scheme = cps ''https'', dt_hostname = cps ''yandex.ru'', dt_port = None,
   dt_path = cps ''/video/preview/1'', dt_query = [], dt_canonical_without_query = preview_link,
   dt_request_url = cps ''https'' @ cps ''://'' @ cps ''yandex.ru'' @ cps ''/video/preview/1''\<rparr>"

lemma preview_safe: "safety_validate sample_urldb sample_url_settings sample_dns preview_link = Inr preview_target"
  using sample_destination
  by (simp add: safety_validate_def on_url_error_def preview_parsed preview_host sample_dns_def assert_addresses_allowed_def
      Let_def del: cps_simps)

lemma sample_facts:
  "wr_matches (wg_resolver sample_registration) preview_target" "wx_registrations sample_registry = [sample_registration]"
  "wg_resolver_id sample_registration = cps ''preview''" "wg_wrapper_type sample_registration = cps ''preview''"
  by (simp_all add: sample_registration_def sample_resolver_def sample_registry_def)

lemma sample_service_parts:
  "rs_ud sample_service = sample_urldb" "rs_settings sample_service = sample_url_settings" "rs_max_depth sample_service = 2"
  "rs_providers sample_service = build_default_providers sample_url_settings" "rs_wrappers sample_service = sample_registry"
  "rs_dns sample_service = (\<lambda>_. sample_dns)" "rs_digest sample_service = Some"
  by (simp_all add: sample_service_def)

lemma preview_wrapper:
  "\<exists>fp. chain_wrapper sample_service (chain_start preview_link) = Inr (preview_target, fp, sample_registration)"
proof -
  have "match_wrapper sample_urldb sample_registry preview_target = Inr (Some sample_registration)"
    by (simp add: match_wrapper_def preview_host sample_facts del: cps_simps)
  then show ?thesis
    using preview_safe
    by (simp add: chain_wrapper_def chain_start_def sample_service_parts fingerprint_target_def
        internal_url_fingerprint_def del: cps_simps)
qed

lemma preview_candidate:
  "\<exists>hop. chain_candidate sample_service 0 sample_registration preview_target =
     Inr (sample_link, \<lparr>pu_original_scheme = cps ''https'', pu_scheme = cps ''https'', pu_hostname = cps ''vk.com'', pu_port = None,
       pu_path = cps ''/video1_2'', pu_query = [], pu_canonical_without_query = sample_link\<rparr>, hop)"
proof -
  have ask: "ask_resolver sample_service 0 sample_registration preview_target =
      Inr \<lparr>wo_candidate_url = sample_link, wo_strategy = cps ''direct'', wo_metadata = None\<rparr>"
    by (simp add: ask_resolver_def scoped_documents_def sample_service_def sample_registration_def sample_resolver_def
        strip_cp_def sample_urldb_def Let_def)
  have strip: "strip_cp sample_urldb sample_link = sample_link" "sample_link \<noteq> []"
    by (simp_all add: build_canonical_def unparse_url_def port_suffix_def canonical_host_for_url_def
        quote_plain [OF sample_vk_plain, simplified] strip_cp_def sample_urldb_def)
  have "\<not> manifest_path sample_urldb (cps ''/video1_2'')"
    by (simp add: manifest_path_def starts_cp_def sample_urldb_def lower_ascii_cp_def)
  moreover have "audit_token (cps ''preview'')" "audit_token (cps ''direct'')"
    by (simp_all add: audit_token_def token_cp_def)
  ultimately show ?thesis
    using strip sample_parsed
    by (simp add: chain_candidate_def ask parse_for_classification_def on_url_error_def audit_hop_def require_audit_token_def
        freeze_resolution_metadata_def sample_facts sample_service_parts Let_def del: cps_simps)
qed

lemma sample_terminal: "\<exists>v. validate_terminal sample_service n sample_link = Inr v"
proof -
  obtain r where r: "validate sample_urldb sample_url_settings (build_default_providers sample_url_settings) sample_dns sample_link = Inr r"
    "nu_hostname (vr_url r) = cps ''vk.com''" using sample_validated by blast
  obtain p d where d: "parse_and_normalize sample_urldb sample_url_settings sample_link = Inr p"
    "find_provider sample_urldb (build_default_providers sample_url_settings) (nu_hostname (vr_url r)) = Some d"
    "vr_provider_id r = pd_id d" "nu_scheme (vr_url r) = pu_scheme p"
    by (rule validateD [OF r(1)]) auto
  have scheme: "pu_scheme p = cps ''https''" using d(1) unfolding sample_parsed by (auto simp del: cps_simps)
  have "\<exists>v. with_stable_provider_identity sample_service r = Inr v"
    by (rule with_stable_total [OF _ _ _ _ d(3)])
      (use d(2,4) scheme in \<open>simp_all add: sample_service_parts sample_urldb_laws del: cps_simps\<close>)
  then show ?thesis using r(1) by (simp add: validate_terminal_def on_url_error_def sample_service_parts)
qed

lemma preview_resolved:
  "\<exists>res. resolve sample_service preview_link = Some (Inr res) \<and> rr_provenance res = WRAPPER_RESOLVED"
proof -
  obtain fp where w: "chain_wrapper sample_service (chain_start preview_link) = Inr (preview_target, fp, sample_registration)"
    using preview_wrapper by blast
  obtain hop where c: "chain_candidate sample_service 0 sample_registration preview_target =
     Inr (sample_link, \<lparr>pu_original_scheme = cps ''https'', pu_scheme = cps ''https'', pu_hostname = cps ''vk.com'', pu_port = None,
       pu_path = cps ''/video1_2'', pu_query = [], pu_canonical_without_query = sample_link\<rparr>, hop)"
    using preview_candidate by blast
  obtain v where v: "validate_terminal sample_service 0 sample_link = Inr v" using sample_terminal by blast
  have "find_provider (rs_ud sample_service) (rs_providers sample_service) (cps ''vk.com'') \<noteq> None"
    by (simp add: sample_service_parts find_provider_def sample_urldb_def rstrip_dots_def lower_ascii_cp_def
        build_default_providers_def vk_hosts_def sample_url_settings_def Let_def)
  then have "\<exists>res. chain_round sample_service preview_link (chain_start preview_link) = Inr (Inl res) \<and>
      rr_provenance res = WRAPPER_RESOLVED"
    using w c v by (simp add: chain_round_def Let_def chain_start_def del: cps_simps)
  then obtain res where res: "chain_step sample_service preview_link (chain_start preview_link) =
      (chain_start preview_link)\<lparr>cs_outcome := Some (Inr res)\<rparr>" "rr_provenance res = WRAPPER_RESOLVED"
    by (auto simp: chain_step_def)
  have start: "cs_outcome (chain_start preview_link) = None" by (simp add: chain_start_def)
  have "resolve_wrapper_chain sample_service preview_link = Some (Inr res)"
    unfolding resolve_wrapper_chain_def
    by (subst while_option_unfold, subst while_option_unfold)
      (simp add: res(1) start del: cps_simps)
  moreover have "parse_for_classification sample_urldb sample_url_settings preview_link =
     Inr \<lparr>pu_original_scheme = cps ''https'', pu_scheme = cps ''https'', pu_hostname = cps ''yandex.ru'', pu_port = None,
       pu_path = cps ''/video/preview/1'', pu_query = [], pu_canonical_without_query = preview_link\<rparr>"
    by (simp only: parse_for_classification_def on_url_error_Inr preview_parsed simp_thms)
  ultimately have "resolve_inner sample_service preview_link = Some (Inr res)"
    by (simp add: resolve_inner_def sample_service_parts preview_host Let_def del: cps_simps)
  then show ?thesis using res(2) by (auto simp: resolve_def close_errors_def)
qed

theorem resolved_page_is_trusted_witness:
  "\<exists>res. resolve sample_service preview_link = Some (Inr res) \<and> (\<exists>n. trusted_page sample_service n (rr_validated res)) \<and>
     audit_trail sample_service preview_link (rr_resolution_chain res) (rr_canonical_provider_url res)"
proof -
  obtain res where res: "resolve sample_service preview_link = Some (Inr res)" "rr_provenance res = WRAPPER_RESOLVED"
    using preview_resolved by blast
  have "rs_providers sample_service = build_default_providers (rs_settings sample_service)" by (simp add: sample_service_parts)
  from resolved_page_is_trusted [OF res(1) this] res show ?thesis by auto
qed

text \<open>A malformed bracketed host is the client's mistake, but ends as an internal error: only validation
  errors of the parser are mapped, and \<open>urlparse\<close> raises \<open>ValueError\<close>.\<close>

lemma value_error:
  "resolution_error k (Some (take 64 (map upper_char ''ValueError''))) = ResolutionError k (Some ''VALUEERROR'')"
proof -
  have "take 64 (map upper_char ''ValueError'') = ''VALUEERROR''" by code_simp
  moreover have "safe_internal_reason ''VALUEERROR''" by code_simp
  ultimately show ?thesis by (simp only: resolution_error_def sanitize_internal_reason_def option.case if_True)
qed

lemma bad_brackets:
  assumes "20 \<le> us_max_length s" and "urldb_laws ud"
  shows "parse_and_normalize ud s (cps ''https://[vk.com/a'') = Inl (UrlUncaught ''ValueError'')"
proof -
  have sp: "\<not> space_cp ud 104" "\<not> space_cp ud 97" using assms(2) by (simp_all add: urldb_laws_def)
  then have "strip_cp ud (cps ''https://[vk.com/a'') = cps ''https://[vk.com/a''" by (simp add: strip_cp_def)
  moreover have "urlparse ud (cps ''https://[vk.com/a'') = Inl (UrlUncaught ''ValueError'')"
    by (simp add: urlparse_def take_scheme_def before_cp_def after_cp_def alpha_cp_def scheme_cp_def starts_cp_def Let_def)
  ultimately show ?thesis using assms(1) by (simp add: parse_and_normalize_def starts_cp_def)
qed

lemma bad_brackets_are_internal:
  assumes "20 \<le> us_max_length (rs_settings rs)" and "urldb_laws (rs_ud rs)"
  shows "resolve rs (cps ''https://[vk.com/a'') = Some (Inl (ResolutionError RESOLUTION_INTERNAL_ERROR (Some ''VALUEERROR'')))"
  using bad_brackets [OF assms]
  by (simp only: resolve_def resolve_inner_def parse_for_classification_def on_url_error_def close_errors_def
      sum.case url_error.case res_exn.case option.map value_error)

end
