(* ===== verification/Mux_Pairing.thy ===== *)
theory Mux_Pairing
  imports Snapshot Text "HOL-Library.List_Lexorder" "HOL-Library.Char_ord" "HOL-Library.Multiset"
begin

text \<open>
  Stream candidates of an inspected page and the pairing of video-only with audio-only streams into
  options that are muxed on the server (\<open>media_inspection/models.py\<close>, \<open>mux_pairing.py\<close>,
  \<open>size_estimate.py\<close>), with the quality labels and option ids of \<open>normalize.py\<close>.
\<close>

section \<open>Candidates\<close>

record InternalFormatCandidate =
  ic_container :: string
  ic_width :: "int option"
  ic_height :: "int option"
  ic_fps :: "rat option"
  ic_has_video :: bool
  ic_has_audio :: bool
  ic_video_codec :: CodecFamily
  ic_audio_codec :: CodecFamily
  ic_approx_bytes :: "int option"
  ic_token :: "string option"
  ic_protocol :: "string option"
  ic_has_drm :: bool
  ic_bitrate_kbps :: "int option"

text \<open>The settings that bound an inspection.\<close>

record InspectionSettings =
  is_max_formats :: int
  is_max_title_length :: int
  is_max_height :: int
  is_max_width :: int
  is_max_source_duration_seconds :: int
  is_max_source_file_bytes :: int
  is_muxing_enabled :: bool
  is_max_video_candidates :: int
  is_max_audio_candidates :: int
  is_max_derived_options :: int

text \<open>
  \<open>sha_hex\<close> is \<open>hashlib.sha256(material).hexdigest()\<close>, \<open>fps_milli\<close> is \<open>int(round(float(fps) * 1000))\<close>.
\<close>

record digests =
  sha_hex :: "string \<Rightarrow> string"
  fps_milli :: "rat \<Rightarrow> int"

text \<open>What the code relies on: a digest is written with 64 lower-case hexadecimal digits.\<close>

definition hex_char :: "char \<Rightarrow> bool" where
  "hex_char c \<longleftrightarrow> digit_ascii c \<or> (97 \<le> (of_char c :: nat) \<and> (of_char c :: nat) \<le> 102)"

definition digests_laws :: "digests \<Rightarrow> bool" where
  "digests_laws h \<longleftrightarrow> (\<forall>m. length (sha_hex h m) = 64 \<and> list_all hex_char (sha_hex h m))"

abbreviation or_zero :: "int option \<Rightarrow> int" where
  "or_zero v \<equiv> (case v of None \<Rightarrow> 0 | Some n \<Rightarrow> n)"

definition str_opt :: "int option \<Rightarrow> string" where
  "str_opt v = (case v of None \<Rightarrow> [] | Some n \<Rightarrow> show_int n)"

text \<open>\<open>sep.join(parts)\<close>\<close>

fun join_with :: "string \<Rightarrow> string list \<Rightarrow> string" where
  "join_with sep [] = []"
| "join_with sep [p] = p"
| "join_with sep (p # ps) = p @ sep @ join_with sep ps"

section \<open>Labels and ids\<close>

definition height_label :: "int option \<Rightarrow> string" where
  "height_label height =
     (case height of
        None \<Rightarrow> ''unknown''
      | Some h \<Rightarrow>
          (case find (\<lambda>l. h \<ge> l) [2160, 1440, 1080, 720, 480, 360, 240, 144] of
             Some l \<Rightarrow> ''p'' @ show_int l
           | None \<Rightarrow> ''low''))"

definition quality_label_for :: "int option \<Rightarrow> bool \<Rightarrow> string" where
  "quality_label_for height has_video = (if \<not> has_video then ''audio'' else height_label height)"

definition category_for :: "bool \<Rightarrow> bool \<Rightarrow> FormatCategory" where
  "category_for has_video has_audio =
     (if has_video \<and> has_audio then PROGRESSIVE
      else if has_video then CAT_VIDEO_ONLY else CAT_AUDIO_ONLY)"

definition media_kind_for :: "bool \<Rightarrow> bool \<Rightarrow> MediaKind" where
  "media_kind_for has_video has_audio =
     (if has_video \<and> has_audio then NORMAL_VIDEO
      else if has_video then KIND_VIDEO_ONLY else KIND_AUDIO_ONLY)"

definition token_digest :: "digests \<Rightarrow> string option \<Rightarrow> string" where
  "token_digest h token =
     take 12 (sha_hex h (''fetchnow-fmt-token-v1'' @ [CHR 0x00] @ (case token of None \<Rightarrow> [] | Some t \<Rightarrow> t)))"

definition milli_of :: "digests \<Rightarrow> rat option \<Rightarrow> int" where
  "milli_of h fps = (case fps of None \<Rightarrow> 0 | Some x \<Rightarrow> fps_milli h x)"

definition format_option_id_for :: "digests \<Rightarrow> InternalFormatCandidate \<Rightarrow> string \<Rightarrow> string" where
  "format_option_id_for h c label =
     (let material = join_with ''|''
            [label, ic_container c, CodecFamily_value (ic_video_codec c),
             CodecFamily_value (ic_audio_codec c),
             FormatCategory_value (category_for (ic_has_video c) (ic_has_audio c)),
             str_opt (ic_width c), str_opt (ic_height c), show_int (milli_of h (ic_fps c)),
             str_opt (ic_approx_bytes c), token_digest h (ic_token c)]
      in ''fmt_'' @ take 28 (sha_hex h (''fetchnow-fmt-option-v1'' @ [CHR 0x00] @ material)))"

definition mux_option_id_for ::
  "digests \<Rightarrow> InternalFormatCandidate \<Rightarrow> InternalFormatCandidate \<Rightarrow> string \<Rightarrow> string \<Rightarrow> string" where
  "mux_option_id_for h video audio output_container label =
     (let material = join_with ''|''
            [''muxed'', label, output_container, CodecFamily_value (ic_video_codec video),
             CodecFamily_value (ic_audio_codec audio), str_opt (ic_width video),
             str_opt (ic_height video), show_int (milli_of h (ic_fps video)),
             str_opt (ic_approx_bytes video), str_opt (ic_approx_bytes audio),
             token_digest h (ic_token video), token_digest h (ic_token audio)]
      in ''fmt_'' @ take 28 (sha_hex h (''fetchnow-fmt-mux-option-v1'' @ [CHR 0x00] @ material)))"

section \<open>Pairing\<close>

definition MAX_INT64 :: int where "MAX_INT64 = 2 ^ 63 - 1"

definition sum_approx_bytes :: "int option \<Rightarrow> int option \<Rightarrow> int option" where
  "sum_approx_bytes left right =
     (case (left, right) of
        (Some l, Some r) \<Rightarrow>
          if l < 1 \<or> r < 1 then None
          else if l > MAX_INT64 - r then None
          else let total = l + r
               in if total < 1 \<or> total > MAX_INT64 then None else Some total
      | _ \<Rightarrow> None)"

abbreviation webm_video :: "CodecFamily set" where "webm_video \<equiv> {VP8, VP9, AV1}"
abbreviation webm_audio :: "CodecFamily set" where "webm_audio \<equiv> {OPUS, VORBIS}"

definition output_policy_for :: "InternalFormatCandidate \<Rightarrow> InternalFormatCandidate \<Rightarrow> string option" where
  "output_policy_for video audio =
     (if ic_container video = ''mp4'' \<and> ic_container audio \<in> {''m4a'', ''mp4''} \<and>
         ic_video_codec video = AVC \<and> ic_audio_codec audio = AAC
      then Some ''mp4''
      else if ic_container video = ''webm'' \<and> ic_container audio \<in> {''webm'', ''ogg'', ''opus''} \<and>
              ic_video_codec video \<in> webm_video \<and> ic_audio_codec audio \<in> webm_audio
      then Some ''webm''
      else None)"

definition has_token :: "InternalFormatCandidate \<Rightarrow> bool" where
  "has_token c \<longleftrightarrow> (case ic_token c of None \<Rightarrow> False | Some t \<Rightarrow> t \<noteq> [])"

definition http_protocol :: "InternalFormatCandidate \<Rightarrow> bool" where
  "http_protocol c \<longleftrightarrow> (case ic_protocol c of None \<Rightarrow> True | Some p \<Rightarrow> p \<in> {''http'', ''https''})"

definition usable_video :: "InternalFormatCandidate \<Rightarrow> bool" where
  "usable_video c \<longleftrightarrow>
     ic_has_video c \<and> \<not> ic_has_audio c \<and> \<not> ic_has_drm c \<and> http_protocol c \<and>
     ic_video_codec c \<notin> {NO_CODEC, UNKNOWN_CODEC} \<and> has_token c \<and> ic_height c \<noteq> None \<and>
     (if ic_container c = ''mp4'' then ic_video_codec c = AVC
      else if ic_container c = ''webm'' then ic_video_codec c \<in> webm_video
      else False)"

definition usable_audio :: "InternalFormatCandidate \<Rightarrow> bool" where
  "usable_audio c \<longleftrightarrow>
     ic_has_audio c \<and> \<not> ic_has_video c \<and> \<not> ic_has_drm c \<and> http_protocol c \<and>
     ic_audio_codec c \<notin> {NO_CODEC, UNKNOWN_CODEC} \<and> has_token c \<and>
     (if ic_container c \<in> {''m4a'', ''mp4''} then ic_audio_codec c = AAC
      else if ic_container c \<in> {''webm'', ''ogg'', ''opus''} then ic_audio_codec c \<in> webm_audio
      else False)"

definition video_sort_key :: "digests \<Rightarrow> InternalFormatCandidate \<Rightarrow> int \<times> int \<times> string" where
  "video_sort_key h c = (- or_zero (ic_height c), - or_zero (ic_width c), token_digest h (ic_token c))"

definition audio_sort_key :: "digests \<Rightarrow> InternalFormatCandidate \<Rightarrow> int \<times> string \<times> string" where
  "audio_sort_key h c =
     ((case ic_approx_bytes c of None \<Rightarrow> 10 ^ 18 | Some n \<Rightarrow> n), token_digest h (ic_token c), ic_container c)"

record DerivedMuxOption =
  mo_public :: MediaFormat
  mo_video :: InternalFormatCandidate
  mo_audio :: InternalFormatCandidate
  mo_output_container :: string

abbreviation mo_id :: "DerivedMuxOption \<Rightarrow> string" where
  "mo_id item \<equiv> mf_format_option_id (mo_public item)"

definition mux_binding_equivalent :: "DerivedMuxOption \<Rightarrow> DerivedMuxOption \<Rightarrow> bool" where
  "mux_binding_equivalent l r \<longleftrightarrow>
     mo_output_container l = mo_output_container r \<and>
     ic_token (mo_video l) = ic_token (mo_video r) \<and>
     ic_token (mo_audio l) = ic_token (mo_audio r) \<and> mo_public l = mo_public r"

text \<open>\<open>MediaFormat(...)\<close> with the checks of \<open>__post_init__\<close>.\<close>

definition new_media_format :: "MediaFormat \<Rightarrow> MediaFormat res" where
  "new_media_format f = (if valid_format f then Inr f else Inl (ValueError ''MediaFormat''))"

text \<open>The first audio stream, in the order given, that fits the video.\<close>

definition chosen_audio ::
  "InternalFormatCandidate \<Rightarrow> InternalFormatCandidate list \<Rightarrow> InternalFormatCandidate option" where
  "chosen_audio video audios = find (\<lambda>a. output_policy_for video a \<noteq> None) audios"

definition mux_format ::
  "digests \<Rightarrow> InternalFormatCandidate \<Rightarrow> InternalFormatCandidate \<Rightarrow> string \<Rightarrow> int option \<Rightarrow> MediaFormat" where
  "mux_format h video audio output approx =
     (let label = height_label (ic_height video)
      in \<lparr>mf_format_option_id = mux_option_id_for h video audio output label, mf_container = output,
          mf_width = ic_width video, mf_height = ic_height video, mf_fps = ic_fps video,
          mf_has_video = True, mf_has_audio = True, mf_category = PROGRESSIVE,
          mf_video_codec = ic_video_codec video, mf_audio_codec = ic_audio_codec audio,
          mf_approx_bytes = approx, mf_quality_label = label, mf_free_tier_eligible = True,
          mf_media_kind = NORMAL_VIDEO, mf_requires_premium = False, mf_bitrate_kbps = None\<rparr>)"

text \<open>One round of the loop over the videos: nothing, or the option of this video.\<close>

definition pair_video ::
  "digests \<Rightarrow> InspectionSettings \<Rightarrow> InternalFormatCandidate list \<Rightarrow> InternalFormatCandidate \<Rightarrow>
     DerivedMuxOption option res" where
  "pair_video h s audios video =
     (case chosen_audio video audios of
        None \<Rightarrow> Inr None
      | Some audio \<Rightarrow>
          (case output_policy_for video audio of
             None \<Rightarrow> Inr None
           | Some output \<Rightarrow>
               let approx = sum_approx_bytes (ic_approx_bytes video) (ic_approx_bytes audio)
               in if opt_gt approx (is_max_source_file_bytes s) then Inr None
                  else andThen (new_media_format (mux_format h video audio output approx)) (\<lambda>public.
                         Inr (Some \<lparr>mo_public = public, mo_video = video, mo_audio = audio,
                                   mo_output_container = output\<rparr>))))"

text \<open>
  The two loops of the module: gathering what each round yields, and collapsing items that share a
  key when they are the same for the caller (the first one stays, anything else raises).
\<close>

definition collect :: "('x \<Rightarrow> 'y option res) \<Rightarrow> 'x list \<Rightarrow> 'y list res" where
  "collect f xs =
     fold_res (\<lambda>x acc. andThen (f x) (\<lambda>y. Inr (case y of None \<Rightarrow> acc | Some v \<Rightarrow> acc @ [v]))) xs []"

definition dedupe :: "('x \<Rightarrow> 'k) \<Rightarrow> ('x \<Rightarrow> 'x \<Rightarrow> bool) \<Rightarrow> error \<Rightarrow> 'x list \<Rightarrow> 'x list res" where
  "dedupe key same err xs =
     fold_res (\<lambda>x acc.
       case find (\<lambda>y. key y = key x) acc of
         None \<Rightarrow> Inr (acc @ [x])
       | Some existing \<Rightarrow> if \<not> same existing x then Inl err else Inr acc) xs []"

definition mux_unique :: "DerivedMuxOption list \<Rightarrow> DerivedMuxOption list res" where
  "mux_unique =
     dedupe mo_id mux_binding_equivalent
       (InspectionError INSPECTION_POLICY_REJECTED ''MUX_OPTION_AMBIGUOUS'')"

definition mux_videos :: "digests \<Rightarrow> InspectionSettings \<Rightarrow> InternalFormatCandidate list \<Rightarrow> InternalFormatCandidate list" where
  "mux_videos h s candidates =
     take (nat (is_max_video_candidates s)) (order_by (video_sort_key h) (filter usable_video candidates))"

definition mux_audios :: "digests \<Rightarrow> InspectionSettings \<Rightarrow> InternalFormatCandidate list \<Rightarrow> InternalFormatCandidate list" where
  "mux_audios h s candidates =
     take (nat (is_max_audio_candidates s)) (order_by (audio_sort_key h) (filter usable_audio candidates))"

definition derive_mux_options ::
  "digests \<Rightarrow> InspectionSettings \<Rightarrow> InternalFormatCandidate list \<Rightarrow> DerivedMuxOption list res" where
  "derive_mux_options h s candidates =
     (if \<not> is_muxing_enabled s then Inr []
      else
        let videos = mux_videos h s candidates; audios = mux_audios h s candidates
        in if videos = [] \<or> audios = [] then Inr []
           else andThen (collect (pair_video h s audios) videos) (\<lambda>prepared.
                andThen (mux_unique (order_by mo_id prepared)) (\<lambda>unique.
                  Inr (take (nat (is_max_derived_options s))
                         (order_by (\<lambda>item. (- or_zero (ic_height (mo_video item)), mo_id item)) unique)))))"

section \<open>The loops\<close>

lemma collect_from:
  assumes "\<And>x e. x \<in> set xs \<Longrightarrow> f x = Inl e \<Longrightarrow> e = err"
  shows "fold_res (\<lambda>x acc. andThen (f x) (\<lambda>y. Inr (case y of None \<Rightarrow> acc | Some v \<Rightarrow> acc @ [v]))) xs acc =
     (if \<exists>x \<in> set xs. \<exists>e. f x = Inl e then Inl err
      else Inr (acc @ List.map_filter (\<lambda>x. case f x of Inr y \<Rightarrow> y | Inl _ \<Rightarrow> None) xs))"
  using assms
proof (induction xs arbitrary: acc)
  case (Cons x xs)
  show ?case
  proof (cases "f x")
    case (Inl e)
    then have "e = err" by (intro Cons.prems) simp_all
    with Inl show ?thesis by simp
  next
    case (Inr y)
    have "\<And>z e. z \<in> set xs \<Longrightarrow> f z = Inl e \<Longrightarrow> e = err" by (rule Cons.prems) simp_all
    note ih = Cons.IH [OF this]
    from Inr show ?thesis by (cases y) (simp_all add: ih map_filter_simps)
  qed
qed (simp add: map_filter_simps)

lemma collect_eq:
  assumes "\<And>x e. x \<in> set xs \<Longrightarrow> f x = Inl e \<Longrightarrow> e = err"
  shows "collect f xs =
     (if \<exists>x \<in> set xs. \<exists>e. f x = Inl e then Inl err
      else Inr (List.map_filter (\<lambda>x. case f x of Inr y \<Rightarrow> y | Inl _ \<Rightarrow> None) xs))"
  using collect_from [where f = f and xs = xs and acc = "[]", OF assms] by (simp add: collect_def)

lemma map_filter_mem:
  "y \<in> set (List.map_filter (\<lambda>x. case f x of Inr y \<Rightarrow> y | Inl _ \<Rightarrow> None) xs) \<longleftrightarrow> (\<exists>x \<in> set xs. f x = Inr (Some y))"
  by (induction xs) (auto simp: map_filter_simps split: option.splits sum.splits)

lemma collect_mem:
  assumes "collect f xs = Inr ys"
  shows "y \<in> set ys \<longleftrightarrow> (\<exists>x \<in> set xs. f x = Inr (Some y))"
proof -
  have "fold_res (\<lambda>x acc. andThen (f x) (\<lambda>y. Inr (case y of None \<Rightarrow> acc | Some v \<Rightarrow> acc @ [v]))) xs acc = Inr zs \<Longrightarrow>
      y \<in> set zs \<longleftrightarrow> y \<in> set acc \<or> (\<exists>x \<in> set xs. f x = Inr (Some y))" for acc zs
    by (induction xs arbitrary: acc) (fastforce simp: andThen_eq_Inr split: option.split_asm)+
  then show ?thesis using assms by (simp add: collect_def)
qed

text \<open>Collapsing keeps one item for every key, and every item is the same as the one kept.\<close>

lemma dedupe_from:
  assumes "fold_res (\<lambda>x acc. case find (\<lambda>y. key y = key x) acc of None \<Rightarrow> Inr (acc @ [x])
       | Some existing \<Rightarrow> if \<not> same existing x then Inl err else Inr acc) xs acc = Inr ys"
    and "distinct (map key acc)"
  shows "distinct (map key ys) \<and> set acc \<subseteq> set ys \<and> set ys \<subseteq> set acc \<union> set xs \<and>
     (\<forall>x \<in> set xs. \<exists>y \<in> set ys. key y = key x \<and> (y = x \<or> same y x))"
  using assms
proof (induction xs arbitrary: acc)
  case (Cons x xs)
  show ?case
  proof (cases "find (\<lambda>y. key y = key x) acc")
    case None
    then have new: "key x \<notin> key ` set acc" by (auto simp: find_None_iff)
    have "distinct (map key (acc @ [x]))" using new Cons.prems(2) by auto
    from Cons.IH [OF _ this] Cons.prems(1) None show ?thesis by auto
  next
    case (Some e)
    then have e: "e \<in> set acc" "key e = key x" by (auto simp: find_Some_iff)
    from Cons.prems(1) Some have s: "same e x" by (auto split: if_split_asm)
    from Cons.IH [OF _ Cons.prems(2)] Cons.prems(1) Some s e show ?thesis by auto
  qed
qed auto

lemma dedupe_Inr:
  assumes "dedupe key same err xs = Inr ys"
  shows "distinct (map key ys) \<and> set ys \<subseteq> set xs \<and>
     (\<forall>x \<in> set xs. \<exists>y \<in> set ys. key y = key x \<and> (y = x \<or> same y x))"
  using dedupe_from [OF assms [unfolded dedupe_def]] by auto

lemma dedupe_total:
  assumes "\<And>x y. x \<in> set xs \<Longrightarrow> y \<in> set xs \<Longrightarrow> key x = key y \<Longrightarrow> same x y"
  shows "\<exists>ys. dedupe key same err xs = Inr ys"
proof -
  have "\<exists>ys. fold_res (\<lambda>x acc. case find (\<lambda>y. key y = key x) acc of None \<Rightarrow> Inr (acc @ [x])
       | Some existing \<Rightarrow> if \<not> same existing x then Inl err else Inr acc) zs acc = Inr ys"
    if "set acc \<subseteq> set xs" "set zs \<subseteq> set xs" for zs acc
    using that
  proof (induction zs arbitrary: acc)
    case (Cons z zs)
    show ?case
    proof (cases "find (\<lambda>y. key y = key z) acc")
      case (Some e)
      then have "e \<in> set acc" "key e = key z" by (auto simp: find_Some_iff)
      with assms [of e z] Cons.prems have "same e z" by auto
      with Some Cons show ?thesis by simp
    qed (use Cons in simp)
  qed simp
  then show ?thesis by (simp add: dedupe_def)
qed

lemma dedupe_Inl: "dedupe key same err xs = Inl e \<Longrightarrow> e = err"
proof -
  have "fold_res (\<lambda>x acc. case find (\<lambda>y. key y = key x) acc of None \<Rightarrow> Inr (acc @ [x])
       | Some existing \<Rightarrow> if \<not> same existing x then Inl err else Inr acc) xs acc = Inl e \<Longrightarrow> e = err" for acc
    by (induction xs arbitrary: acc) (auto simp: andThen_eq_Inl split: option.split_asm if_split_asm)
  then show "dedupe key same err xs = Inl e \<Longrightarrow> e = err" by (simp add: dedupe_def)
qed

section \<open>Derived options\<close>

lemma order_by_permuted:
  assumes "mset xs = mset ys" and "inj_on f (set xs)"
  shows "order_by f xs = order_by f ys"
  using sort_key_eq_sort_key [OF assms] by (simp add: order_by_def)

lemma mset_order_by [simp]: "mset (order_by f xs) = mset xs"
  by (simp add: order_by_def)

text \<open>The keys that order the streams tell different streams apart.\<close>

definition keys_separate :: "digests \<Rightarrow> InternalFormatCandidate list \<Rightarrow> bool" where
  "keys_separate h cs \<longleftrightarrow>
     inj_on (video_sort_key h) {c \<in> set cs. usable_video c} \<and>
     inj_on (audio_sort_key h) {c \<in> set cs. usable_audio c}"

lemma derive_permuted:
  assumes "mset cs = mset cs'" and "keys_separate h cs"
  shows "derive_mux_options h s cs = derive_mux_options h s cs'"
proof -
  have m: "mset (filter P cs) = mset (filter P cs')" for P using assms(1) by (simp add: mset_filter)
  have "inj_on (video_sort_key h) (set (filter usable_video cs))"
    "inj_on (audio_sort_key h) (set (filter usable_audio cs))"
    using assms(2) by (simp_all add: keys_separate_def)
  then have "order_by (video_sort_key h) (filter usable_video cs) = order_by (video_sort_key h) (filter usable_video cs')"
    "order_by (audio_sort_key h) (filter usable_audio cs) = order_by (audio_sort_key h) (filter usable_audio cs')"
    using order_by_permuted [OF m] by blast+
  then have "mux_videos h s cs = mux_videos h s cs'" "mux_audios h s cs = mux_audios h s cs'"
    unfolding mux_videos_def mux_audios_def by simp_all
  then show ?thesis by (simp add: derive_mux_options_def)
qed

text \<open>What a derived option is: a pair of streams of the page that go into one container.\<close>

definition derived_ok :: "digests \<Rightarrow> InspectionSettings \<Rightarrow> InternalFormatCandidate list \<Rightarrow> DerivedMuxOption \<Rightarrow> bool" where
  "derived_ok h s cs item \<longleftrightarrow>
     mo_video item \<in> set cs \<and> usable_video (mo_video item) \<and>
     mo_audio item \<in> set cs \<and> usable_audio (mo_audio item) \<and>
     output_policy_for (mo_video item) (mo_audio item) = Some (mo_output_container item) \<and>
     mo_public item = mux_format h (mo_video item) (mo_audio item) (mo_output_container item)
       (sum_approx_bytes (ic_approx_bytes (mo_video item)) (ic_approx_bytes (mo_audio item))) \<and>
     valid_format (mo_public item) \<and> \<not> opt_gt (mf_approx_bytes (mo_public item)) (is_max_source_file_bytes s)"

lemma pair_videoD:
  assumes "pair_video h s audios video = Inr (Some item)"
  shows "mo_video item = video \<and> mo_audio item \<in> set audios \<and>
     output_policy_for video (mo_audio item) = Some (mo_output_container item) \<and>
     mo_public item = mux_format h video (mo_audio item) (mo_output_container item)
       (sum_approx_bytes (ic_approx_bytes video) (ic_approx_bytes (mo_audio item))) \<and>
     valid_format (mo_public item) \<and> \<not> opt_gt (mf_approx_bytes (mo_public item)) (is_max_source_file_bytes s)"
proof -
  from assms obtain a out where a: "chosen_audio video audios = Some a" "output_policy_for video a = Some out"
    by (auto simp: pair_video_def split: option.split_asm)
  let ?f = "mux_format h video a out (sum_approx_bytes (ic_approx_bytes video) (ic_approx_bytes a))"
  from assms a have v: "valid_format ?f"
    and small: "\<not> opt_gt (sum_approx_bytes (ic_approx_bytes video) (ic_approx_bytes a)) (is_max_source_file_bytes s)"
    and item: "item = \<lparr>mo_public = ?f, mo_video = video, mo_audio = a, mo_output_container = out\<rparr>"
    by (auto simp: pair_video_def Let_def new_media_format_def andThen_eq_Inr split: if_split_asm)
  have "mf_approx_bytes ?f = sum_approx_bytes (ic_approx_bytes video) (ic_approx_bytes a)"
    by (simp add: mux_format_def Let_def)
  moreover have "a \<in> set audios" using a(1) by (auto simp: chosen_audio_def find_Some_iff)
  ultimately show ?thesis using a v small item by simp
qed

lemma derived_options:
  assumes "derive_mux_options h s cs = Inr items"
  shows "distinct (map mo_id items) \<and> (\<forall>item \<in> set items. derived_ok h s cs item) \<and>
     length items \<le> nat (is_max_derived_options s) \<and> (items \<noteq> [] \<longrightarrow> is_muxing_enabled s)"
proof (cases "is_muxing_enabled s \<and> mux_videos h s cs \<noteq> [] \<and> mux_audios h s cs \<noteq> []")
  case True
  let ?audios = "mux_audios h s cs" and ?key = "\<lambda>item. (- or_zero (ic_height (mo_video item)), mo_id item)"
  from True assms obtain prepared unique where p: "collect (pair_video h s ?audios) (mux_videos h s cs) = Inr prepared"
    and u: "mux_unique (order_by mo_id prepared) = Inr unique"
    and items: "items = take (nat (is_max_derived_options s)) (order_by ?key unique)"
    by (auto simp: derive_mux_options_def andThen_eq_Inr Let_def)
  note un = dedupe_Inr [OF u [unfolded mux_unique_def]]
  have "set items \<subseteq> set unique" unfolding items using set_take_subset by fastforce
  moreover have "set unique \<subseteq> set prepared" using un by simp
  ultimately have sub: "set items \<subseteq> set prepared" by blast
  have vids: "set (mux_videos h s cs) \<subseteq> {c \<in> set cs. usable_video c}"
    "set ?audios \<subseteq> {c \<in> set cs. usable_audio c}"
    by (auto simp: mux_videos_def mux_audios_def dest: in_set_takeD)
  have "derived_ok h s cs item" if "item \<in> set items" for item
  proof -
    have "item \<in> set prepared" using that sub by blast
    then obtain v where "v \<in> set (mux_videos h s cs)" "pair_video h s ?audios v = Inr (Some item)"
      using collect_mem [OF p] by blast
    with pair_videoD vids show ?thesis unfolding derived_ok_def by blast
  qed
  moreover have "distinct (map mo_id items)"
  proof -
    have "distinct (map mo_id (order_by ?key unique))" using un by (simp add: distinct_map_order_by)
    then show ?thesis unfolding items take_map [symmetric] by (rule distinct_take)
  qed
  ultimately show ?thesis using items True by simp
next
  case False
  with assms have "items = []" by (auto simp: derive_mux_options_def Let_def split: if_split_asm)
  then show ?thesis by simp
qed

end
