(* ===== verification/Media_Projection.thy ===== *)
theory Media_Projection
  imports Mux_Pairing Filename
begin

text \<open>
  From the streams an extractor found to the bounded list of formats a client may choose from
  (\<open>media_inspection/normalize.py\<close>, \<open>MediaMetadata\<close> and \<open>sanitize_title\<close> of \<open>models.py\<close>).
\<close>

section \<open>Titles\<close>

definition dropped_control :: "nat \<Rightarrow> bool" where
  "dropped_control c \<longleftrightarrow> c \<le> 8 \<or> c = 11 \<or> c = 12 \<or> (14 \<le> c \<and> c \<le> 31) \<or> c = 127"

definition strip_white :: "unidb \<Rightarrow> codepoints \<Rightarrow> codepoints" where
  "strip_white u s = rev (dropWhile (is_white u) (rev (dropWhile (is_white u) s)))"

text \<open>An empty result is falsy and becomes None.\<close>

definition sanitize_title :: "unidb \<Rightarrow> codepoints option \<Rightarrow> int \<Rightarrow> codepoints option" where
  "sanitize_title u raw max_length =
     (case raw of
        None \<Rightarrow> None
      | Some t \<Rightarrow>
          let cleaned = strip_white u (map (\<lambda>c. if c = 9 then 32 else c) (filter (\<lambda>c. \<not> dropped_control c) t));
              single = strip_white u (collapse_white (\<lambda>c. c = 32 \<or> c = 10 \<or> c = 13) cleaned);
              bounded = (if int (length single) > max_length
                         then rev (dropWhile (is_white u) (rev (take (nat max_length) single)))
                         else single)
          in if single = [] \<or> bounded = [] then None else Some bounded)"

section \<open>Metadata\<close>

record ExtractedMediaDraft =
  em_provider_id :: string
  em_canonical_provider_url :: string
  em_media_id :: string
  em_title :: "codepoints option"
  em_duration_seconds :: "int option"
  em_candidates :: "InternalFormatCandidate list"
  em_tool_version :: "string option"

record MediaMetadata =
  mm_provider_id :: string
  mm_canonical_provider_url :: string
  mm_media_id :: string
  mm_title :: "codepoints option"
  mm_duration_seconds :: "int option"
  mm_formats :: "MediaFormat list"
  mm_extraction_tool :: string
  mm_extraction_tool_version :: "string option"
  mm_muxing_required :: bool

definition ascii_alnum :: "char \<Rightarrow> bool" where
  "ascii_alnum c \<longleftrightarrow> lower_ascii c \<or> upper_ascii c \<or> digit_ascii c"

definition safe_media_id :: "string \<Rightarrow> bool" where
  "safe_media_id s \<longleftrightarrow> 1 \<le> length s \<and> length s \<le> 128 \<and>
     list_all (\<lambda>c. ascii_alnum c \<or> c \<in> {CHR ''.'', CHR ''_'', CHR '':'', CHR ''-''}) s"

definition safe_version :: "string \<Rightarrow> bool" where
  "safe_version s \<longleftrightarrow> 1 \<le> length s \<and> length s \<le> 64 \<and>
     list_all (\<lambda>c. ascii_alnum c \<or> c \<in> {CHR ''.'', CHR ''_'', CHR ''+'', CHR ''-''}) s"

definition contains :: "string \<Rightarrow> string \<Rightarrow> bool" where
  "contains part s \<longleftrightarrow> list_ex (\<lambda>i. take (length part) (drop i s) = part) [0..<Suc (length s)]"

text \<open>\<open>MediaMetadata.__post_init__\<close> raises a ValueError exactly when this is false.\<close>

definition valid_metadata :: "MediaMetadata \<Rightarrow> bool" where
  "valid_metadata m \<longleftrightarrow>
     safe_token (mm_provider_id m) \<and> safe_token (mm_extraction_tool m) \<and>
     no_query_fragment (mm_canonical_provider_url m) \<and>
     contains ''://'' (mm_canonical_provider_url m) \<and> safe_media_id (mm_media_id m) \<and>
     (case mm_extraction_tool_version m of None \<Rightarrow> True | Some v \<Rightarrow> safe_version v) \<and>
     non_negative (mm_duration_seconds m) None"

section \<open>One candidate\<close>

type_synonym candidate_key = "int \<times> int \<times> int \<times> int \<times> int \<times> string"

definition plain_container :: "string \<Rightarrow> bool" where
  "plain_container s \<longleftrightarrow> 1 \<le> length s \<and> length s \<le> 8 \<and> list_all (\<lambda>c. lower_ascii c \<or> digit_ascii c) s"

definition standalone_candidate_supported :: "InternalFormatCandidate \<Rightarrow> bool" where
  "standalone_candidate_supported c \<longleftrightarrow>
     (if ic_has_drm c \<or> \<not> has_token c then False
      else if ic_has_video c \<and> \<not> ic_has_audio c
      then ic_container c \<in> {''mp4'', ''webm'', ''mkv''} \<and> ic_video_codec c \<notin> {NO_CODEC, UNKNOWN_CODEC}
      else if ic_has_audio c \<and> \<not> ic_has_video c
      then ic_container c \<in> {''m4a'', ''mp4'', ''webm'', ''mkv'', ''ogg'', ''opus'', ''aac'', ''mp3''} \<and>
           ic_audio_codec c \<notin> {NO_CODEC, UNKNOWN_CODEC}
      else True)"

definition candidate_sort_key :: "digests \<Rightarrow> InternalFormatCandidate \<Rightarrow> string \<Rightarrow> candidate_key" where
  "candidate_sort_key h c option_id =
     ((if ic_has_video c \<and> ic_has_audio c then 0 else 1), - or_zero (ic_height c),
      - or_zero (ic_approx_bytes c), - or_zero (ic_width c), - milli_of h (ic_fps c), option_id)"

definition candidate_bounded :: "InspectionSettings \<Rightarrow> InternalFormatCandidate \<Rightarrow> bool" where
  "candidate_bounded s c \<longleftrightarrow>
     (ic_has_video c \<or> ic_has_audio c) \<and> plain_container (ic_container c) \<and>
     \<not> opt_gt (ic_height c) (is_max_height s) \<and> \<not> opt_gt (ic_width c) (is_max_width s) \<and>
     \<not> opt_gt (ic_approx_bytes c) (is_max_source_file_bytes s)"

definition candidate_option_id :: "digests \<Rightarrow> InternalFormatCandidate \<Rightarrow> string" where
  "candidate_option_id h c = format_option_id_for h c (quality_label_for (ic_height c) (ic_has_video c))"

definition candidate_format :: "digests \<Rightarrow> InternalFormatCandidate \<Rightarrow> MediaFormat" where
  "candidate_format h c =
     (let category = category_for (ic_has_video c) (ic_has_audio c);
          kind = media_kind_for (ic_has_video c) (ic_has_audio c)
      in \<lparr>mf_format_option_id = candidate_option_id h c, mf_container = ic_container c,
          mf_width = ic_width c, mf_height = ic_height c, mf_fps = ic_fps c,
          mf_has_video = ic_has_video c, mf_has_audio = ic_has_audio c, mf_category = category,
          mf_video_codec = ic_video_codec c, mf_audio_codec = ic_audio_codec c,
          mf_approx_bytes = ic_approx_bytes c,
          mf_quality_label = quality_label_for (ic_height c) (ic_has_video c),
          mf_free_tier_eligible = (category = PROGRESSIVE \<and> ic_height c \<noteq> None),
          mf_media_kind = kind, mf_requires_premium = (kind \<noteq> NORMAL_VIDEO),
          mf_bitrate_kbps = ic_bitrate_kbps c\<rparr>)"

definition project_candidate ::
  "digests \<Rightarrow> InspectionSettings \<Rightarrow> InternalFormatCandidate \<Rightarrow> (candidate_key \<times> MediaFormat) option res" where
  "project_candidate h s c =
     (if \<not> candidate_bounded s c then Inr None
      else if media_kind_for (ic_has_video c) (ic_has_audio c) \<noteq> NORMAL_VIDEO \<and>
              \<not> standalone_candidate_supported c
      then Inr None
      else andThen (new_media_format (candidate_format h c)) (\<lambda>f.
             Inr (Some (candidate_sort_key h c (mf_format_option_id f), f))))"

section \<open>The list of formats\<close>

abbreviation option_ambiguous :: error where
  "option_ambiguous \<equiv> InspectionError INSPECTION_POLICY_REJECTED ''OPTION_AMBIGUOUS''"

text \<open>A finished file that a Free client can have.\<close>

definition executable :: "MediaFormat \<Rightarrow> bool" where
  "executable f \<longleftrightarrow> mf_category f = PROGRESSIVE \<and> mf_free_tier_eligible f \<and> mf_has_video f \<and> mf_has_audio f"

definition direct_free_heights :: "MediaFormat list \<Rightarrow> int option list" where
  "direct_free_heights projected = map mf_height (filter (\<lambda>f. executable f \<and> mf_height f \<noteq> None) projected)"

text \<open>A derived option joins the list; the state is \<open>by_option\<close> and \<open>projected\<close>.\<close>

definition add_derived ::
  "int option list \<Rightarrow> DerivedMuxOption \<Rightarrow> MediaFormat list \<times> MediaFormat list \<Rightarrow>
     (MediaFormat list \<times> MediaFormat list) res" where
  "add_derived heights item st =
     (case st of (by_option, projected) \<Rightarrow>
        if mf_height (mo_public item) \<in> set heights then Inr st
        else (case find (\<lambda>f. mf_format_option_id f = mo_id item) by_option of
                None \<Rightarrow> Inr (by_option @ [mo_public item], projected @ [mo_public item])
              | Some existing \<Rightarrow> if existing \<noteq> mo_public item then Inl option_ambiguous else Inr st))"

definition final_sort_key :: "MediaFormat \<Rightarrow> int \<times> int \<times> int \<times> string" where
  "final_sort_key f =
     ((if mf_media_kind f = NORMAL_VIDEO then 0 else 1), - or_zero (mf_height f),
      - or_zero (mf_bitrate_kbps f), mf_format_option_id f)"

definition add_muxed ::
  "digests \<Rightarrow> InspectionSettings \<Rightarrow> InternalFormatCandidate list \<Rightarrow> MediaFormat list \<Rightarrow> MediaFormat list \<Rightarrow>
     MediaFormat list res" where
  "add_muxed h s candidates by_option projected =
     (if \<not> is_muxing_enabled s then Inr projected
      else
        andThen (derive_mux_options h s candidates) (\<lambda>derived.
        andThen (fold_res (add_derived (direct_free_heights projected)) derived (by_option, projected)) (\<lambda>(_, all_formats).
          Inr (take (nat (is_max_formats s)) (order_by final_sort_key all_formats)))))"

definition project_formats ::
  "digests \<Rightarrow> InspectionSettings \<Rightarrow> InternalFormatCandidate list \<Rightarrow> MediaFormat list res" where
  "project_formats h s candidates =
     andThen (collect (project_candidate h s) candidates) (\<lambda>prepared.
       if prepared = [] then Inl (InspectionError INSPECTION_POLICY_REJECTED ''NO_USABLE_FORMATS'')
       else
         andThen (dedupe mf_format_option_id (=) option_ambiguous (map snd (order_by fst prepared)))
           (\<lambda>by_option. add_muxed h s candidates by_option (take (nat (is_max_formats s)) by_option)))"

definition project_metadata ::
  "unidb \<Rightarrow> digests \<Rightarrow> InspectionSettings \<Rightarrow> string \<Rightarrow> string \<Rightarrow> string \<Rightarrow> ExtractedMediaDraft \<Rightarrow>
     MediaMetadata res" where
  "project_metadata u h s trusted_url trusted_media_id trusted_provider_id draft =
     (let title = sanitize_title u (em_title draft) (is_max_title_length s);
          duration = em_duration_seconds draft
      in if \<not> non_negative duration (Some (is_max_source_duration_seconds s))
         then Inl (ValueError ''duration_seconds'')
         else
           andThen (project_formats h s (em_candidates draft)) (\<lambda>formats.
             let m = \<lparr>mm_provider_id = trusted_provider_id, mm_canonical_provider_url = trusted_url,
                   mm_media_id = trusted_media_id, mm_title = title, mm_duration_seconds = duration,
                   mm_formats = formats, mm_extraction_tool = ''ytdlp'',
                   mm_extraction_tool_version = em_tool_version draft,
                   mm_muxing_required = (\<not> list_ex executable formats)\<rparr>
             in if valid_metadata m then Inr m else Inl (ValueError ''MediaMetadata'')))"

section \<open>The order of the streams does not matter\<close>

lemma project_candidate_Inl: "project_candidate h s c = Inl e \<Longrightarrow> e = ValueError ''MediaFormat''"
  by (auto simp: project_candidate_def new_media_format_def andThen_eq_Inl split: if_split_asm)

lemma project_candidateD:
  assumes "project_candidate h s c = Inr (Some (k, f))"
  shows "candidate_bounded s c \<and> f = candidate_format h c \<and> valid_format f \<and> k = candidate_sort_key h c (mf_format_option_id f)"
  using assms by (auto simp: project_candidate_def new_media_format_def andThen_eq_Inr split: if_split_asm)

lemma candidate_sort_key_id: "candidate_sort_key h c i = candidate_sort_key h c' i' \<Longrightarrow> i = i'"
  by (simp add: candidate_sort_key_def)

lemma mset_map_filter: "mset xs = mset ys \<Longrightarrow> mset (List.map_filter f xs) = mset (List.map_filter f ys)"
  by (simp add: List.map_filter_def mset_filter)

text \<open>Two gatherings of the same streams hold the same items, or fail alike.\<close>

lemma collect_permuted:
  assumes "mset cs = mset cs'"
  shows "(\<exists>e. collect (project_candidate h s) cs = Inl e \<and> collect (project_candidate h s) cs' = Inl e) \<or>
     (\<exists>p p'. collect (project_candidate h s) cs = Inr p \<and> collect (project_candidate h s) cs' = Inr p' \<and> mset p = mset p')"
proof -
  have "set cs = set cs'" using assms by (rule mset_eq_setD)
  then show ?thesis
    using collect_eq [of cs "project_candidate h s", OF project_candidate_Inl]
      collect_eq [of cs' "project_candidate h s", OF project_candidate_Inl] mset_map_filter [OF assms]
    by auto
qed

lemma dedupe_equal:
  assumes "mset xs = mset ys" and "\<And>a b. a \<in> set xs \<Longrightarrow> b \<in> set xs \<Longrightarrow> fst a = fst b \<Longrightarrow> g (snd a) = g (snd b)"
  shows "dedupe g (=) err (map snd (order_by fst xs)) = dedupe g (=) err (map snd (order_by fst ys))"
proof (cases "\<forall>a \<in> set xs. \<forall>b \<in> set xs. g (snd a) = g (snd b) \<longrightarrow> snd a = snd b")
  case True
  have "inj_on fst (set xs)"
  proof (rule inj_onI)
    fix a b assume ab: "a \<in> set xs" "b \<in> set xs" "fst a = fst b"
    from assms(2) [OF this] have "g (snd a) = g (snd b)" .
    with True ab show "a = b" by (auto simp: prod_eq_iff)
  qed
  with assms(1) show ?thesis by (simp add: order_by_permuted)
next
  case False
  have "dedupe g (=) err (map snd (order_by fst zs)) = Inl err" if "set zs = set xs" for zs
  proof (cases "dedupe g (=) err (map snd (order_by fst zs))")
    case (Inr us)
    note d = dedupe_Inr [OF Inr]
    have keep: "snd a \<in> set us" if "a \<in> set xs" for a
      using d that \<open>set zs = set xs\<close> by (fastforce simp: image_iff)
    have "snd a = snd b" if a: "a \<in> set xs" and b: "b \<in> set xs" and "g (snd a) = g (snd b)" for a b
      using d keep [OF a] keep [OF b] that(3) by (auto simp: distinct_map inj_on_def)
    with False show ?thesis by blast
  qed (auto dest: dedupe_Inl)
  moreover have "set ys = set xs" using mset_eq_setD [OF assms(1)] by simp
  ultimately show ?thesis by simp
qed

lemma project_formats_permuted:
  assumes "mset cs = mset cs'" and "is_muxing_enabled s \<Longrightarrow> keys_separate h cs"
  shows "project_formats h s cs = project_formats h s cs'"
proof -
  have mux: "add_muxed h s cs a b = add_muxed h s cs' a b" for a b
    using derive_permuted [OF assms(1)] assms(2) by (auto simp: add_muxed_def)
  from collect_permuted [OF assms(1), of h s] show ?thesis
  proof (elim disjE exE conjE)
    fix p p' assume p: "collect (project_candidate h s) cs = Inr p" "collect (project_candidate h s) cs' = Inr p'"
      and m: "mset p = mset p'"
    have keys: "mf_format_option_id (snd a) = mf_format_option_id (snd b)" if kf: "a \<in> set p" "b \<in> set p" "fst a = fst b" for a b
    proof -
      obtain c c' where "project_candidate h s c = Inr (Some (fst a, snd a))" "project_candidate h s c' = Inr (Some (fst b, snd b))"
        using kf(1,2) collect_mem [OF p(1)] by (metis prod.collapse)
      then have "fst a = candidate_sort_key h c (mf_format_option_id (snd a))"
        "fst b = candidate_sort_key h c' (mf_format_option_id (snd b))"
        using project_candidateD by blast+
      then have "candidate_sort_key h c (mf_format_option_id (snd a)) = candidate_sort_key h c' (mf_format_option_id (snd b))"
        using kf(3) by (simp only:)
      then show ?thesis by (rule candidate_sort_key_id)
    qed
    have "p = [] \<longleftrightarrow> p' = []" using m by (metis mset_zero_iff)
    moreover have "dedupe mf_format_option_id (=) option_ambiguous (map snd (order_by fst p)) =
        dedupe mf_format_option_id (=) option_ambiguous (map snd (order_by fst p'))"
      by (rule dedupe_equal [OF m]) (rule keys)
    ultimately show ?thesis unfolding project_formats_def p andThen_Inr mux by simp
  qed (simp add: project_formats_def)
qed

text \<open>C28. The metadata a client sees does not depend on the order in which the extractor lists the
  streams: any permutation gives the same result, the same error included. With muxing the streams
  that can be paired must have different sort keys (size or dimensions, token digest and container),
  or be equal.\<close>

theorem projection_ignores_order:
  assumes "mset cs' = mset cs" and "is_muxing_enabled s \<Longrightarrow> keys_separate h cs"
  shows "project_metadata u h s url media_id provider_id (draft\<lparr>em_candidates := cs'\<rparr>) =
     project_metadata u h s url media_id provider_id (draft\<lparr>em_candidates := cs\<rparr>)"
  using project_formats_permuted [OF assms(1) [symmetric], of s h] assms(2)
  by (simp add: project_metadata_def Let_def)

section \<open>What is offered\<close>

text \<open>Every format comes from a stream within the bounds or from a pair of streams.\<close>

definition offered :: "digests \<Rightarrow> InspectionSettings \<Rightarrow> InternalFormatCandidate list \<Rightarrow> MediaFormat \<Rightarrow> bool" where
  "offered h s cs f \<longleftrightarrow> valid_format f \<and>
     ((\<exists>c \<in> set cs. candidate_bounded s c \<and> f = candidate_format h c) \<or>
      (is_muxing_enabled s \<and> (\<exists>items item. derive_mux_options h s cs = Inr items \<and> item \<in> set items \<and>
         derived_ok h s cs item \<and> f = mo_public item)))"

lemma add_derived_keeps:
  assumes "fold_res (add_derived hs) items (by_option, projected) = Inr (by_option', projected')"
    and "distinct (map mf_format_option_id projected)" and "set projected \<subseteq> set by_option"
    and "\<forall>f \<in> set projected. P f" and "\<forall>item \<in> set items. P (mo_public item)"
  shows "distinct (map mf_format_option_id projected') \<and> (\<forall>f \<in> set projected'. P f) \<and>
     set projected \<subseteq> set projected'"
  using assms
proof (induction items arbitrary: by_option projected)
  case (Cons item items)
  let ?f = "mo_public item"
  show ?case
  proof (cases "mf_height ?f \<notin> set hs \<and> find (\<lambda>f. mf_format_option_id f = mo_id item) by_option = None")
    case True
    then have new: "mo_id item \<notin> mf_format_option_id ` set by_option" by (auto simp: find_None_iff)
    have step: "add_derived hs item (by_option, projected) = Inr (by_option @ [?f], projected @ [?f])"
      using True by (simp add: add_derived_def)
    have dist: "distinct (map mf_format_option_id (projected @ [?f]))"
      using Cons.prems(2,3) new by auto
    have "distinct (map mf_format_option_id projected') \<and> (\<forall>f \<in> set projected'. P f) \<and>
        set (projected @ [?f]) \<subseteq> set projected'"
      by (rule Cons.IH [of "by_option @ [?f]" "projected @ [?f]"]) (use Cons.prems step dist in auto)
    then show ?thesis by simp
  next
    case False
    then have "add_derived hs item (by_option, projected) = Inr (by_option, projected)"
      using Cons.prems(1) by (auto simp: add_derived_def andThen_eq_Inr split: option.split_asm if_split_asm)
    with Cons show ?thesis by simp
  qed
qed simp

lemma add_muxed_keeps:
  assumes "add_muxed h s cs by_option projected = Inr fs"
    and "distinct (map mf_format_option_id projected)" and "set projected \<subseteq> set by_option"
    and "\<forall>f \<in> set projected. offered h s cs f" and "projected \<noteq> []" and "1 \<le> is_max_formats s"
    and "length projected \<le> nat (is_max_formats s)"
  shows "distinct (map mf_format_option_id fs) \<and> (\<forall>f \<in> set fs. offered h s cs f) \<and> fs \<noteq> [] \<and>
     length fs \<le> nat (is_max_formats s)"
proof (cases "is_muxing_enabled s")
  case False
  with assms show ?thesis by (simp add: add_muxed_def)
next
  case True
  with assms(1) obtain items by_option' all_formats where
    d: "derive_mux_options h s cs = Inr items"
    and a: "fold_res (add_derived (direct_free_heights projected)) items (by_option, projected) = Inr (by_option', all_formats)"
    and fs: "fs = take (nat (is_max_formats s)) (order_by final_sort_key all_formats)"
    by (auto simp: add_muxed_def andThen_eq_Inr)
  have "\<forall>item \<in> set items. offered h s cs (mo_public item)"
    using derived_options [OF d] True d unfolding offered_def derived_ok_def by blast
  note k = add_derived_keeps [OF a assms(2,3,4) this]
  have "distinct (map mf_format_option_id fs)"
    unfolding fs take_map [symmetric] using k by (intro distinct_take) (simp add: distinct_map_order_by)
  moreover have "set fs \<subseteq> set all_formats"
    unfolding fs using set_take_subset [of _ "order_by final_sort_key all_formats"] by simp
  moreover have "fs \<noteq> []"
  proof -
    have "all_formats \<noteq> []" using k assms(5) by auto
    then have "0 < length (order_by final_sort_key all_formats)" by simp
    then have "order_by final_sort_key all_formats \<noteq> []" by (simp only: length_greater_0_conv not_False_eq_True)
    then show ?thesis using assms(6) unfolding fs by simp
  qed
  ultimately show ?thesis using k by (auto simp: fs)
qed

lemma project_formats_offered:
  assumes "project_formats h s cs = Inr fs" and "1 \<le> is_max_formats s"
  shows "distinct (map mf_format_option_id fs) \<and> (\<forall>f \<in> set fs. offered h s cs f) \<and> fs \<noteq> [] \<and>
     length fs \<le> nat (is_max_formats s)"
proof -
  from assms(1) obtain prepared by_option where p: "collect (project_candidate h s) cs = Inr prepared" "prepared \<noteq> []"
    and b: "dedupe mf_format_option_id (=) option_ambiguous (map snd (order_by fst prepared)) = Inr by_option"
    and m: "add_muxed h s cs by_option (take (nat (is_max_formats s)) by_option) = Inr fs"
    by (auto simp: project_formats_def andThen_eq_Inr split: if_split_asm)
  note d = dedupe_Inr [OF b]
  have "offered h s cs f" if "f \<in> set by_option" for f
  proof -
    have "f \<in> snd ` set prepared" using d that by auto
    then obtain x where "x \<in> set prepared" "snd x = f" by blast
    then obtain k where "(k, f) \<in> set prepared" by (metis prod.collapse)
    then obtain c where "c \<in> set cs" "project_candidate h s c = Inr (Some (k, f))" using collect_mem [OF p(1)] by blast
    with project_candidateD show ?thesis unfolding offered_def by blast
  qed
  moreover have "set (take (nat (is_max_formats s)) by_option) \<subseteq> set by_option" by (rule set_take_subset)
  moreover have "take (nat (is_max_formats s)) by_option \<noteq> []"
  proof -
    obtain x where "x \<in> set prepared" using p(2) by (meson last_in_set)
    then have "snd x \<in> snd ` set (order_by fst prepared)" by simp
    then have "by_option \<noteq> []" using d by fastforce
    with assms(2) show ?thesis by simp
  qed
  moreover have "distinct (map mf_format_option_id (take (nat (is_max_formats s)) by_option))"
    unfolding take_map [symmetric] using d by (intro distinct_take) simp
  ultimately show ?thesis by (intro add_muxed_keeps [OF m]) (use assms(2) in auto)
qed

text \<open>C29. What an inspection offers can be chosen unambiguously and stays within the limits: at least
  one format and at most the configured number, option ids that are pairwise different, every
  format valid and taken from a stream within the bounds or from a compatible pair of streams, and
  \<open>muxing_required\<close> exactly when no finished file for Free clients is among them.\<close>

theorem projected_metadata_is_coherent:
  assumes "project_metadata u h s url media_id provider_id draft = Inr m" and "1 \<le> is_max_formats s"
  shows "valid_metadata m \<and> mm_formats m \<noteq> [] \<and> int (length (mm_formats m)) \<le> is_max_formats s \<and>
     distinct (map mf_format_option_id (mm_formats m)) \<and>
     (\<forall>f \<in> set (mm_formats m). offered h s (em_candidates draft) f \<and>
        \<not> opt_gt (mf_approx_bytes f) (is_max_source_file_bytes s)) \<and>
     (mm_muxing_required m \<longleftrightarrow> (\<forall>f \<in> set (mm_formats m). \<not> executable f))"
proof -
  from assms(1) obtain fs where fs: "project_formats h s (em_candidates draft) = Inr fs" and m: "mm_formats m = fs"
      "mm_muxing_required m \<longleftrightarrow> \<not> list_ex executable fs" "valid_metadata m"
    by (auto simp: project_metadata_def Let_def andThen_eq_Inr split: if_split_asm)
  note o = project_formats_offered [OF fs assms(2)]
  have "\<not> opt_gt (mf_approx_bytes f) (is_max_source_file_bytes s)" if "offered h s (em_candidates draft) f" for f
    using that by (auto simp: offered_def candidate_bounded_def candidate_format_def derived_ok_def Let_def)
  with o m assms(2) show ?thesis by (auto simp: list_ex_iff)
qed

text \<open>One stream in a container whose name starts with a digit (3gp, for instance) makes the whole
  inspection fail: the filter of containers admits it, but the format it becomes is refused with
  a ValueError that nothing on the way catches, whatever else the page offers.\<close>

theorem digit_container_breaks_inspection:
  assumes "c \<in> set (em_candidates draft)" and "candidate_bounded s c" and "ic_has_video c" and "ic_has_audio c"
    and "ic_container c = d # rest" and "digit_ascii d"
  shows "\<exists>msg. project_metadata u h s url media_id provider_id draft = Inl (ValueError msg)"
proof -
  have "\<not> lower_ascii d" using assms(6) by (auto simp: digit_ascii_def lower_ascii_def)
  then have "\<not> safe_token (ic_container c)" by (simp add: safe_token_def assms(5))
  then have "\<not> valid_format (candidate_format h c)"
    by (auto simp: valid_format_def candidate_format_def Let_def)
  then have "project_candidate h s c = Inl (ValueError ''MediaFormat'')"
    using assms(2-4) by (simp add: project_candidate_def media_kind_for_def new_media_format_def)
  then have "collect (project_candidate h s) (em_candidates draft) = Inl (ValueError ''MediaFormat'')"
    using collect_eq [of "em_candidates draft" "project_candidate h s", OF project_candidate_Inl] assms(1) by auto
  then show ?thesis by (simp add: project_metadata_def Let_def project_formats_def)
qed

section \<open>Samples\<close>

text \<open>A toy digest: the hexadecimal digits of the material itself.\<close>

definition sample_digests :: digests where
  "sample_digests = \<lparr>sha_hex = (\<lambda>m. take 64 (rev (filter hex_char m) @ replicate 64 CHR ''0'')),
     fps_milli = (\<lambda>x. \<lfloor>x * 1000\<rfloor>)\<rparr>"

lemma sample_digests_laws: "digests_laws sample_digests"
  by (auto simp: digests_laws_def sample_digests_def list_all_iff hex_char_def digit_ascii_def dest!: in_set_takeD)

definition sample_inspection :: InspectionSettings where
  "sample_inspection = \<lparr>is_max_formats = 32, is_max_title_length = 200, is_max_height = 2160,
     is_max_width = 3840, is_max_source_duration_seconds = 7200, is_max_source_file_bytes = 3221225472,
     is_muxing_enabled = True, is_max_video_candidates = 8, is_max_audio_candidates = 8,
     is_max_derived_options = 8\<rparr>"

definition sample_progressive :: InternalFormatCandidate where
  "sample_progressive = \<lparr>ic_container = ''mp4'', ic_width = Some 640, ic_height = Some 360, ic_fps = Some 30,
     ic_has_video = True, ic_has_audio = True, ic_video_codec = AVC, ic_audio_codec = AAC,
     ic_approx_bytes = Some 1000000, ic_token = Some ''18'', ic_protocol = Some ''https'',
     ic_has_drm = False, ic_bitrate_kbps = None\<rparr>"

definition sample_video :: InternalFormatCandidate where
  "sample_video = sample_progressive\<lparr>ic_width := Some 1920, ic_height := Some 1080, ic_has_audio := False,
     ic_audio_codec := NO_CODEC, ic_approx_bytes := Some 5000000, ic_token := Some ''137''\<rparr>"

definition sample_audio :: InternalFormatCandidate where
  "sample_audio = sample_progressive\<lparr>ic_container := ''m4a'', ic_width := None, ic_height := None, ic_fps := None,
     ic_has_video := False, ic_video_codec := NO_CODEC, ic_approx_bytes := Some 300000,
     ic_token := Some ''140'', ic_bitrate_kbps := Some 128\<rparr>"

definition sample_draft :: "InternalFormatCandidate list \<Rightarrow> ExtractedMediaDraft" where
  "sample_draft cs = \<lparr>em_provider_id = ''vk'', em_canonical_provider_url = ''https://vk.com/video1_2'',
     em_media_id = ''1_2'', em_title = Some (cps ''Clip''), em_duration_seconds = Some 60,
     em_candidates = cs, em_tool_version = None\<rparr>"

lemmas sample_streams_defs = sample_progressive_def sample_video_def sample_audio_def

text \<open>Option ids are safe tokens, and so are the labels.\<close>

lemma option_ids_safe:
  assumes "digests_laws h"
  shows "safe_token (format_option_id_for h c l)" and "safe_token (mux_option_id_for h v a out l)"
proof -
  have "safe_token (''fmt_'' @ take 28 (sha_hex h m))" for m
  proof -
    have "list_all hex_char (sha_hex h m)" using assms by (simp add: digests_laws_def)
    then have "list_all (\<lambda>x. lower_ascii x \<or> digit_ascii x \<or> x = CHR ''_'') (take 28 (sha_hex h m))"
      by (auto simp: list_all_iff hex_char_def lower_ascii_def dest!: in_set_takeD)
    then show ?thesis by (simp add: safe_token_def lower_ascii_def)
  qed
  then show "safe_token (format_option_id_for h c l)" "safe_token (mux_option_id_for h v a out l)"
    by (simp_all add: format_option_id_for_def mux_option_id_for_def Let_def)
qed

lemma label_safe: "safe_token (quality_label_for height v)"
proof -
  have "list_all digit_ascii (show_nat n)" for n by (rule show_nat_digits)
  then have p: "length (show_int l) \<le> 63 \<Longrightarrow> 0 \<le> l \<Longrightarrow> safe_token (''p'' @ show_int l)" for l
    by (auto simp: safe_token_def show_int_def lower_ascii_def list_all_iff)
  have "\<forall>l \<in> set [2160, 1440, 1080, 720, 480, 360, 240, 144]. length (show_int l) \<le> 63 \<and> 0 \<le> l"
    by (simp add: show_int_def show_nat.simps)
  then have found: "safe_token (''p'' @ show_int l)" if "find P [2160, 1440, 1080, 720, 480, 360, 240, 144] = Some l" for P l
    using that p unfolding find_Some_iff by (metis nth_mem)
  have words: "safe_token ''audio''" "safe_token ''unknown''" "safe_token ''low''"
    by (simp_all add: safe_token_def lower_ascii_def)
  have "safe_token (height_label height)"
  proof (cases height)
    case (Some x)
    then show ?thesis
      unfolding height_label_def
      by (cases "find (\<lambda>l. x \<ge> l) [2160, 1440, 1080, 720, 480, 360, 240, 144]")
        (simp_all only: option.case words found)
  qed (simp add: height_label_def words)
  then show ?thesis by (simp add: quality_label_for_def words)
qed

lemma sample_progressive_format: "valid_format (candidate_format sample_digests sample_progressive)"
  using option_ids_safe(1) [OF sample_digests_laws] label_safe [of "Some 360" True]
  by (simp add: valid_format_def candidate_format_def candidate_option_id_def Let_def sample_progressive_def
      category_for_def media_kind_for_def safe_token_def [of "''mp4''"] lower_ascii_def digit_ascii_def non_negative_def)

lemma sample_bounded: "candidate_bounded sample_inspection sample_progressive"
  by (simp add: candidate_bounded_def sample_inspection_def sample_progressive_def plain_container_def
      lower_ascii_def digit_ascii_def)

lemma sample_projected:
  "\<exists>m. project_metadata sample_unidb sample_digests sample_inspection ''https://vk.com/video1_2'' ''1_2'' ''vk''
     (sample_draft [sample_progressive]) = Inr m \<and> mm_formats m = [candidate_format sample_digests sample_progressive]"
proof -
  let ?f = "candidate_format sample_digests sample_progressive"
  let ?k = "candidate_sort_key sample_digests sample_progressive (mf_format_option_id ?f)"
  have "project_candidate sample_digests sample_inspection sample_progressive = Inr (Some (?k, ?f))"
    using sample_bounded sample_progressive_format
    by (simp add: project_candidate_def new_media_format_def media_kind_for_def sample_progressive_def)
  then have c: "collect (project_candidate sample_digests sample_inspection) [sample_progressive] = Inr [(?k, ?f)]"
    by (simp add: collect_def)
  have "derive_mux_options sample_digests sample_inspection [sample_progressive] = Inr []"
    by (simp add: derive_mux_options_def mux_videos_def usable_video_def sample_progressive_def order_by_def Let_def)
  then have "project_formats sample_digests sample_inspection [sample_progressive] = Inr [?f]"
    unfolding project_formats_def c andThen_Inr
    by (simp add: order_by_def dedupe_def add_muxed_def sample_inspection_def)
  moreover have "valid_metadata \<lparr>mm_provider_id = ''vk'', mm_canonical_provider_url = ''https://vk.com/video1_2'',
      mm_media_id = ''1_2'', mm_title = t, mm_duration_seconds = Some 60, mm_formats = fs,
      mm_extraction_tool = ''ytdlp'', mm_extraction_tool_version = None, mm_muxing_required = b\<rparr>" for t fs b
    by (simp add: valid_metadata_def safe_token_def lower_ascii_def digit_ascii_def no_query_fragment_def contains_def
        safe_media_id_def ascii_alnum_def non_negative_def upt_rec)
  moreover have "non_negative (Some 60) (Some (is_max_source_duration_seconds sample_inspection))"
    by (simp add: non_negative_def sample_inspection_def)
  ultimately show ?thesis by (simp add: project_metadata_def sample_draft_def)
qed

theorem projected_metadata_is_coherent_witness:
  "\<exists>m. project_metadata sample_unidb sample_digests sample_inspection ''https://vk.com/video1_2'' ''1_2'' ''vk''
     (sample_draft [sample_progressive]) = Inr m \<and> int (length (mm_formats m)) \<le> 32 \<and> mm_formats m \<noteq> []"
proof -
  obtain m where m: "project_metadata sample_unidb sample_digests sample_inspection ''https://vk.com/video1_2'' ''1_2'' ''vk''
     (sample_draft [sample_progressive]) = Inr m" using sample_projected by blast
  have lim: "is_max_formats sample_inspection = 32" by (simp add: sample_inspection_def)
  from projected_metadata_is_coherent [OF m] m lim show ?thesis by auto
qed

theorem projection_ignores_order_witness:
  "project_metadata sample_unidb sample_digests sample_inspection ''https://vk.com/video1_2'' ''1_2'' ''vk''
     (sample_draft [] \<lparr>em_candidates := [sample_audio, sample_video, sample_progressive]\<rparr>) =
   project_metadata sample_unidb sample_digests sample_inspection ''https://vk.com/video1_2'' ''1_2'' ''vk''
     (sample_draft [] \<lparr>em_candidates := [sample_progressive, sample_video, sample_audio]\<rparr>)"
proof (rule projection_ignores_order)
  have streams: "{c \<in> set [sample_progressive, sample_video, sample_audio]. usable_video c} \<subseteq> {sample_video}"
    "{c \<in> set [sample_progressive, sample_video, sample_audio]. usable_audio c} \<subseteq> {sample_audio}"
  proof -
    have "\<not> usable_video sample_progressive" "\<not> usable_video sample_audio"
      "\<not> usable_audio sample_progressive" "\<not> usable_audio sample_video"
      by (simp_all add: usable_video_def usable_audio_def sample_streams_defs)
    then show "{c \<in> set [sample_progressive, sample_video, sample_audio]. usable_video c} \<subseteq> {sample_video}"
      "{c \<in> set [sample_progressive, sample_video, sample_audio]. usable_audio c} \<subseteq> {sample_audio}"
      by auto
  qed
  have single: "inj_on f A" if "A \<subseteq> {x}" for f :: "InternalFormatCandidate \<Rightarrow> 'k" and A x
    using that by (intro inj_onI) blast
  show "keys_separate sample_digests [sample_progressive, sample_video, sample_audio]"
    unfolding keys_separate_def using single [OF streams(1)] single [OF streams(2)] by (intro conjI)
qed (simp add: add_mset_commute)

theorem digit_container_breaks_inspection_witness:
  "\<exists>msg. project_metadata sample_unidb sample_digests sample_inspection ''https://vk.com/video1_2'' ''1_2'' ''vk''
     (sample_draft [sample_progressive, sample_progressive\<lparr>ic_container := ''3gp''\<rparr>]) = Inl (ValueError msg)"
  by (rule digit_container_breaks_inspection [where c = "sample_progressive\<lparr>ic_container := ''3gp''\<rparr>"
        and d = "CHR ''3''" and rest = "''gp''"])
    (simp_all add: sample_draft_def candidate_bounded_def sample_inspection_def sample_progressive_def
      plain_container_def lower_ascii_def digit_ascii_def)

end
