(* ===== verification/Intervals.thy ===== *)
theory Intervals
  imports Prelude
begin

text \<open>
  \<open>normalize_intervals\<close> of \<open>quota/delivery.py\<close>: the sorted union of half-open byte
  intervals. The reference is the set of bytes an interval list covers; the locale
  \<open>coverage\<close> states what the delivery ledger relies on and derives from it the facts the
  ledger's proofs use (canonical form, complete coverage, the number of fragments).
\<close>

type_synonym interval = "int \<times> int"

fun merge_loop :: "interval list \<Rightarrow> interval list \<Rightarrow> interval list" where
  "merge_loop merged [] = merged"
| "merge_loop merged ((start, stop) # rest) =
     (if merged = [] \<or> start > snd (last merged)
      then merge_loop (merged @ [(start, stop)]) rest
      else merge_loop
             (butlast merged @ [(fst (last merged), max (snd (last merged)) stop)]) rest)"

definition normalize_intervals :: "interval list \<Rightarrow> interval list" where
  "normalize_intervals intervals =
     merge_loop [] (sort (filter (\<lambda>(start, stop). stop > start) intervals))"

section \<open>The covered bytes\<close>

definition points :: "interval list \<Rightarrow> int set" where
  "points xs = (\<Union>(s, e) \<in> set xs. {s..<e})"

lemma points_simps [simp]:
  "points [] = {}" "points ((s, e) # xs) = {s..<e} \<union> points xs"
  "points (xs @ ys) = points xs \<union> points ys"
  by (simp_all add: points_def)

lemma points_set_cong: "set xs = set ys \<Longrightarrow> points xs = points ys"
  by (simp add: points_def)

lemma points_filter_nonempty: "points (filter (\<lambda>(s, e). e > s) xs) = points xs"
proof (induction xs)
  case (Cons p xs)
  then show ?case by (cases p) simp
qed simp

text \<open>Sorted, non-empty and neither overlapping nor adjacent.\<close>

fun separated :: "interval list \<Rightarrow> bool" where
  "separated [] = True"
| "separated [(a, b)] = (a < b)"
| "separated ((a, b) # (c, d) # rest) = (a < b \<and> b < c \<and> separated ((c, d) # rest))"

lemma separated_Cons:
  "separated ((a, b) # xs) \<longleftrightarrow>
     a < b \<and> separated xs \<and> (case xs of [] \<Rightarrow> True | (c, d) # _ \<Rightarrow> b < c)"
  by (cases xs) auto

lemma separated_lower:
  "separated ((a, b) # xs) \<Longrightarrow> (s, e) \<in> set xs \<Longrightarrow> b < s"
proof (induction xs arbitrary: a b)
  case (Cons x xs)
  obtain c d where x: "x = (c, d)" by (cases x)
  with Cons.prems have cd: "b < c" "c < d" "separated ((c, d) # xs)"
    by (auto simp: separated_Cons)
  show ?case
  proof (cases "(s, e) = (c, d)")
    case True
    with cd show ?thesis by simp
  next
    case False
    with Cons.prems x have "(s, e) \<in> set xs" by auto
    with Cons.IH [OF cd(3)] cd show ?thesis by fastforce
  qed
qed simp

lemma separated_points_lower: "separated ((a, b) # xs) \<Longrightarrow> x \<in> points xs \<Longrightarrow> b < x"
  using separated_lower by (fastforce simp: points_def)

lemma separated_nonempty: "separated xs \<Longrightarrow> (s, e) \<in> set xs \<Longrightarrow> s < e"
  by (induction xs rule: separated.induct) auto

lemma finite_points [simp]: "finite (points xs)"
  by (auto simp: points_def)

section \<open>Left and right ends determine the list\<close>

definition left_ends :: "int set \<Rightarrow> int set" where
  "left_ends P = {x \<in> P. x - 1 \<notin> P}"

definition right_ends :: "int set \<Rightarrow> int set" where
  "right_ends P = {x. x \<notin> P \<and> x - 1 \<in> P}"

lemma ends_insert:
  assumes "a < b" and "\<And>x. x \<in> Q \<Longrightarrow> b < x"
  shows left_ends_insert: "left_ends ({a..<b} \<union> Q) = insert a (left_ends Q)"
    and right_ends_insert: "right_ends ({a..<b} \<union> Q) = insert b (right_ends Q)"
proof -
  have "x \<in> left_ends ({a..<b} \<union> Q) \<longleftrightarrow> x \<in> insert a (left_ends Q)"
    and "x \<in> right_ends ({a..<b} \<union> Q) \<longleftrightarrow> x \<in> insert b (right_ends Q)" for x
    using assms(1) assms(2) [of x] assms(2) [of "x - 1"]
    by (auto simp: left_ends_def right_ends_def)
  then show "left_ends ({a..<b} \<union> Q) = insert a (left_ends Q)"
    and "right_ends ({a..<b} \<union> Q) = insert b (right_ends Q)" by blast+
qed

lemma left_ends_separated: "separated xs \<Longrightarrow> left_ends (points xs) = fst ` set xs"
proof (induction xs)
  case (Cons p xs)
  obtain a b where p: "p = (a, b)" by (cases p)
  from Cons.prems p have ab: "a < b" "separated xs" by (auto simp: separated_Cons)
  have low: "\<And>x. x \<in> points xs \<Longrightarrow> b < x"
    using separated_points_lower Cons.prems p by blast
  with Cons.IH ab p show ?case by (simp add: left_ends_insert)
qed (simp add: left_ends_def)

lemma right_ends_separated: "separated xs \<Longrightarrow> right_ends (points xs) = snd ` set xs"
proof (induction xs)
  case (Cons p xs)
  obtain a b where p: "p = (a, b)" by (cases p)
  from Cons.prems p have ab: "a < b" "separated xs" by (auto simp: separated_Cons)
  have low: "\<And>x. x \<in> points xs \<Longrightarrow> b < x"
    using separated_points_lower Cons.prems p by blast
  with Cons.IH ab p show ?case by (simp add: right_ends_insert)
qed (simp add: right_ends_def)

lemma separated_sorted_ends:
  "separated xs \<Longrightarrow> sorted_wrt (<) (map fst xs) \<and> sorted_wrt (<) (map snd xs)"
proof (induction xs)
  case (Cons p xs)
  obtain a b where p: "p = (a, b)" by (cases p)
  from Cons.prems p have ab: "a < b" "separated xs" by (auto simp: separated_Cons)
  have "\<And>s e. (s, e) \<in> set xs \<Longrightarrow> b < s \<and> s < e"
    using separated_lower separated_nonempty Cons.prems p ab by blast
  with Cons.IH ab p show ?case by fastforce
qed simp

lemma separated_unique:
  assumes "separated xs" and "separated ys" and "points xs = points ys"
  shows "xs = ys"
proof -
  have "fst ` set xs = fst ` set ys" "snd ` set xs = snd ` set ys"
    using assms left_ends_separated right_ends_separated by metis+
  moreover have "sorted_wrt (<) (map fst xs)" "sorted_wrt (<) (map fst ys)"
    "sorted_wrt (<) (map snd xs)" "sorted_wrt (<) (map snd ys)"
    using assms separated_sorted_ends by blast+
  ultimately have "map fst xs = map fst ys" "map snd xs = map snd ys"
    by (auto intro!: strict_sorted_equal simp: sorted_wrt_map)
  then show ?thesis by (metis zip_map_fst_snd)
qed

lemma separated_length: "separated xs \<Longrightarrow> length xs = card (left_ends (points xs))"
proof -
  assume s: "separated xs"
  then have "distinct (map fst xs)"
    using separated_sorted_ends strict_sorted_iff by blast
  then have "card (fst ` set xs) = length xs"
    by (metis distinct_card length_map list.set_map)
  with left_ends_separated [OF s] show ?thesis by simp
qed

section \<open>What the ledger relies on\<close>

locale coverage =
  fixes norm :: "interval list \<Rightarrow> interval list"
  assumes norm_points: "points (norm xs) = points xs"
    and norm_separated: "separated (norm xs)"
begin

lemma norm_cong: "points xs = points ys \<Longrightarrow> norm xs = norm ys"
  using separated_unique norm_points norm_separated by metis

lemma norm_idem: "norm (norm xs) = norm xs"
  by (rule norm_cong) (rule norm_points)

lemma norm_fixes_separated: "separated xs \<Longrightarrow> norm xs = xs"
  using separated_unique norm_points norm_separated by metis

lemma norm_full_iff: "0 < n \<Longrightarrow> norm xs = [(0, n)] \<longleftrightarrow> points xs = {0..<n}"
  using norm_cong [of xs "[(0, n)]"] norm_fixes_separated [of "[(0, n)]"] norm_points [of xs]
  by auto

lemma norm_length: "length (norm xs) = card (left_ends (points xs))"
  using separated_length [OF norm_separated] norm_points by simp

text \<open>
  Growing intervals to the right from a byte that is already covered never adds a
  fragment: a left end of the larger set is a left end of the smaller one.
\<close>

lemma norm_extend_length:
  assumes "points ys = points xs \<union> (\<Union>(s, e) \<in> set ext. {s..<e})"
    and "\<And>s e. (s, e) \<in> set ext \<Longrightarrow> s < e \<Longrightarrow> s \<in> points xs"
  shows "length (norm ys) \<le> length (norm xs)"
proof -
  have "left_ends (points ys) \<subseteq> left_ends (points xs)"
  proof
    fix x assume "x \<in> left_ends (points ys)"
    then have x: "x \<in> points ys" "x - 1 \<notin> points ys" by (auto simp: left_ends_def)
    have "x \<in> points xs"
    proof (rule ccontr)
      assume "x \<notin> points xs"
      with x(1) assms(1) obtain s e where se: "(s, e) \<in> set ext" "x \<in> {s..<e}" by auto
      then have "s \<in> points xs" using assms(2) by fastforce
      with \<open>x \<notin> points xs\<close> have "s \<noteq> x" by auto
      with se have "x - 1 \<in> {s..<e}" by auto
      with se assms(1) x(2) show False by blast
    qed
    moreover have "x - 1 \<notin> points xs" using x(2) assms(1) by auto
    ultimately show "x \<in> left_ends (points xs)" by (simp add: left_ends_def)
  qed
  then have "card (left_ends (points ys)) \<le> card (left_ends (points xs))"
    by (intro card_mono) (auto simp: left_ends_def)
  then show ?thesis by (simp add: norm_length)
qed

end

section \<open>The merge loop is such a function\<close>

fun merge_from :: "interval \<Rightarrow> interval list \<Rightarrow> interval list" where
  "merge_from (a, b) [] = [(a, b)]"
| "merge_from (a, b) ((s, e) # rest) =
     (if s > b then (a, b) # merge_from (s, e) rest else merge_from (a, max b e) rest)"

lemma merge_loop_snoc: "merge_loop (m @ [(a, b)]) rest = m @ merge_from (a, b) rest"
proof (induction rest arbitrary: m a b)
  case (Cons p rest)
  obtain s e where p: "p = (s, e)" by (cases p)
  from Cons.IH [of "m @ [(a, b)]" s e] Cons.IH [of m a "max b e"] p show ?case by simp
qed simp

lemma merge_loop_single: "merge_loop [(a, b)] rest = merge_from (a, b) rest"
  using merge_loop_snoc [of "[]" a b rest] by simp

lemma sorted_fst: "sorted xs \<Longrightarrow> sorted (map fst xs)"
  for xs :: "interval list"
  by (induction xs) (auto simp: less_eq_prod_def)

lemma merge_from_points:
  assumes "a < b" and "\<forall>(s, e) \<in> set rest. a \<le> s \<and> s < e" and "sorted (map fst rest)"
  shows "points (merge_from (a, b) rest) = {a..<b} \<union> points rest"
  using assms
proof (induction rest arbitrary: a b)
  case (Cons p rest)
  obtain s e where p: "p = (s, e)" by (cases p)
  show ?case
  proof (cases "s > b")
    case True
    from Cons.prems p have "points (merge_from (s, e) rest) = {s..<e} \<union> points rest"
      by (intro Cons.IH) auto
    with True p show ?thesis by simp
  next
    case False
    with Cons.prems p have "points (merge_from (a, max b e) rest) = {a..<max b e} \<union> points rest"
      by (intro Cons.IH) auto
    moreover have "{a..<max b e} = {a..<b} \<union> {s..<e}" using False Cons.prems p by auto
    ultimately show ?thesis using False p by auto
  qed
qed simp

lemma merge_from_separated:
  assumes "a < b" and "\<forall>(s, e) \<in> set rest. s < e"
  shows "separated (merge_from (a, b) rest) \<and> fst (hd (merge_from (a, b) rest)) = a \<and>
         merge_from (a, b) rest \<noteq> []"
  using assms
proof (induction rest arbitrary: a b)
  case (Cons p rest)
  obtain s e where p: "p = (s, e)" by (cases p)
  show ?case
  proof (cases "s > b")
    case True
    have "separated (merge_from (s, e) rest) \<and> fst (hd (merge_from (s, e) rest)) = s \<and>
          merge_from (s, e) rest \<noteq> []"
      using Cons p by auto
    with True p Cons.prems show ?thesis
      by (cases "merge_from (s, e) rest") (auto simp: separated_Cons split: prod.splits)
  next
    case False
    with Cons p show ?thesis by (auto simp: less_max_iff_disj)
  qed
qed simp

interpretation ni: coverage normalize_intervals
proof
  fix xs :: "interval list"
  let ?ord = "sort (filter (\<lambda>(s, e). e > s) xs)"
  have pts: "points ?ord = points xs"
    using points_filter_nonempty points_set_cong [of ?ord "filter (\<lambda>(s, e). e > s) xs"] by simp
  have pos: "\<forall>(s, e) \<in> set ?ord. s < e" by auto
  have srt: "sorted (map fst ?ord)" by (rule sorted_fst) simp
  show "points (normalize_intervals xs) = points xs"
  proof (cases ?ord)
    case Nil
    with pts show ?thesis by (simp add: normalize_intervals_def)
  next
    case (Cons p rest)
    obtain a b where p: "p = (a, b)" by (cases p)
    have "points (merge_from (a, b) rest) = {a..<b} \<union> points rest"
      using pos srt Cons p by (intro merge_from_points) auto
    with pts Cons p show ?thesis by (simp add: normalize_intervals_def merge_loop_single)
  qed
  show "separated (normalize_intervals xs)"
  proof (cases ?ord)
    case Nil
    then show ?thesis by (simp add: normalize_intervals_def)
  next
    case (Cons p rest)
    with pos merge_from_separated [of "fst p" "snd p" rest]
    show ?thesis by (cases p) (auto simp: normalize_intervals_def merge_loop_single)
  qed
qed

text \<open>\<open>normalize_intervals\<close> computes the canonical form of a set of served bytes: it is the
  one and only list of non-empty, ascending, pairwise non-touching intervals that covers exactly
  the bytes its input covers.\<close>

theorem normalize_intervals_canonical:
  "{ys. separated ys \<and> points ys = points xs} = {normalize_intervals xs}"
  using ni.norm_separated ni.norm_points separated_unique by blast

end
