(* ===== verification/Delivery_Ledger.thy ===== *)
theory Delivery_Ledger
  imports Quota Intervals
begin

text \<open>
  \<open>DeliveryQuotaAccounting\<close> (\<open>quota/delivery.py\<close>): the ledger of bytes the server has sent
  of a Free download. An attempt is a row of \<open>free_download_delivery_ranges\<close>; closed rows are
  compacted to the canonical interval list; the quota entry is consumed when the served bytes
  cover the artifact. Fresh uuids are arguments; \<open>now\<close> is the value of \<open>database_now\<close>.
\<close>

section \<open>Bounds and results\<close>

definition DELIVERY_ATTEMPT_LEASE_SECONDS :: int where
  "DELIVERY_ATTEMPT_LEASE_SECONDS = 600"

definition MAX_ACTIVE_ATTEMPTS :: nat where
  "MAX_ACTIVE_ATTEMPTS = 16"

definition MAX_CLOSED_FRAGMENTS :: nat where
  "MAX_CLOSED_FRAGMENTS = 64"

record DeliveryAccountingAttempt =
  at_id :: uuid
  at_start :: int
  at_end :: int

record DeliveryAccountingResult =
  ar_consumed :: bool
  ar_duplicate :: bool

abbreviation nothing_new :: DeliveryAccountingResult where
  "nothing_new \<equiv> \<lparr>ar_consumed = False, ar_duplicate = False\<rparr>"

abbreviation duplicate_result :: DeliveryAccountingResult where
  "duplicate_result \<equiv> \<lparr>ar_consumed = False, ar_duplicate = True\<rparr>"

abbreviation consumed_result :: DeliveryAccountingResult where
  "consumed_result \<equiv> \<lparr>ar_consumed = True, ar_duplicate = False\<rparr>"

text \<open>\<open>_fail_closed\<close> and \<open>_bound_rejected\<close> raise the same public error.\<close>

definition fail_closed :: "string \<Rightarrow> error" where
  "fail_closed reason = DownloadError DOWNLOAD_STORAGE_UNAVAILABLE reason"

section \<open>Rows\<close>

abbreviation dr_rejected :: error where
  "dr_rejected \<equiv> IntegrityError ''free_download_delivery_ranges''"

definition dr_flush :: "delivery_range \<Rightarrow> db \<Rightarrow> db res" where
  "dr_flush r d =
     andThen (write_row dr_id range_ok dr_rejected r (ranges d)) (\<lambda>tab. Inr (d\<lparr>ranges := tab\<rparr>))"

definition dr_insert :: "delivery_range \<Rightarrow> db \<Rightarrow> db res" where
  "dr_insert r d =
     (if range_ok r \<and> dr_id r \<notin> dr_id ` set (ranges d) \<and>
         dr_quota_entry_id r \<in> qe_id ` set (quota_entries d)
      then Inr (d\<lparr>ranges := ranges d @ [r]\<rparr>) else Inl dr_rejected)"

definition dr_delete :: "uuid \<Rightarrow> db \<Rightarrow> db" where
  "dr_delete i d = d\<lparr>ranges := del_rows (\<lambda>r. dr_id r = i) (ranges d)\<rparr>"

definition lock_ranges :: "uuid \<Rightarrow> db \<Rightarrow> delivery_range list" where
  "lock_ranges entry_id d =
     order_by (\<lambda>r. (dr_request_start r, dr_id r))
       (filter (\<lambda>r. dr_quota_entry_id r = entry_id) (ranges d))"

definition served_interval :: "delivery_range \<Rightarrow> interval" where
  "served_interval r = (dr_request_start r, dr_served_end_exclusive r)"

text \<open>\<open>_closed_intervals\<close>: the canonical coverage of all rows it is given.\<close>

definition closed_intervals :: "delivery_range list \<Rightarrow> interval list" where
  "closed_intervals rows =
     normalize_intervals (map served_interval
       (filter (\<lambda>r. dr_served_end_exclusive r > dr_request_start r) rows))"

section \<open>Closing and compacting\<close>

definition closed_at_prefix :: "time \<Rightarrow> delivery_range \<Rightarrow> delivery_range" where
  "closed_at_prefix now r =
     r\<lparr>dr_request_end_exclusive := dr_served_end_exclusive r, dr_state := R_CLOSED,
       dr_lease_expires_at := None, dr_closed_at := Some now\<rparr>"

definition stale :: "time \<Rightarrow> delivery_range \<Rightarrow> bool" where
  "stale now r \<longleftrightarrow> dr_state r = R_ACTIVE \<and> \<not> opt_gt (dr_lease_expires_at r) now"

definition close_one :: "time \<Rightarrow> delivery_range \<Rightarrow> db \<Rightarrow> db res" where
  "close_one now r d =
     (if \<not> stale now r then Inr d
      else if dr_served_end_exclusive r = dr_request_start r then Inr (dr_delete (dr_id r) d)
      else dr_flush (closed_at_prefix now r) d)"

definition close_stale :: "time \<Rightarrow> delivery_range list \<Rightarrow> db \<Rightarrow> db res" where
  "close_stale now rows d = fold_res (close_one now) rows d"

text \<open>The rows \<open>_compact_closed\<close> writes: one per interval, with a fresh id each.\<close>

definition compacted_row ::
  "uuid \<Rightarrow> delivery_range \<Rightarrow> time \<Rightarrow> uuid \<Rightarrow> interval \<Rightarrow> delivery_range" where
  "compacted_row entry_id template now fresh iv =
     \<lparr>dr_id = fresh, dr_quota_entry_id = entry_id, dr_artifact_id = dr_artifact_id template,
      dr_fence_token = dr_fence_token template, dr_artifact_bytes = dr_artifact_bytes template,
      dr_request_start = fst iv, dr_request_end_exclusive = snd iv,
      dr_served_end_exclusive = snd iv, dr_state = R_CLOSED,
      dr_started_at = dr_started_at template, dr_lease_expires_at = None,
      dr_closed_at = Some now\<rparr>"

definition compact_closed ::
  "(nat \<Rightarrow> uuid) \<Rightarrow> uuid \<Rightarrow> delivery_range list \<Rightarrow> time \<Rightarrow> db \<Rightarrow> db res" where
  "compact_closed fresh entry_id rows now d =
     (let closed = filter (\<lambda>r. dr_state r = R_CLOSED) rows;
          union = closed_intervals closed
      in if length union > MAX_CLOSED_FRAGMENTS
         then Inl (QuotaInvariantError ''delivery coverage exceeds fragment bound'')
         else if length closed = length union \<and>
                 list_all2 (\<lambda>r (s, e). dr_request_start r = s \<and> dr_served_end_exclusive r = e \<and>
                                       dr_request_end_exclusive r = e) closed union
         then Inr d
         else (case closed of
                 [] \<Rightarrow> Inr d
               | template # _ \<Rightarrow>
                   fold_res (\<lambda>(k, iv). dr_insert (compacted_row entry_id template now (fresh k) iv))
                     (enumerate 0 union)
                     (d\<lparr>ranges := del_rows (\<lambda>r. dr_quota_entry_id r = entry_id \<and>
                                               dr_state r = R_CLOSED) (ranges d)\<rparr>)))"

section \<open>Guards\<close>

definition artifact_size :: "download_job \<Rightarrow> int" where
  "artifact_size job = (case dj_artifact_bytes job of None \<Rightarrow> 0 | Some b \<Rightarrow> b)"

definition assert_generation :: "delivery_range list \<Rightarrow> download_job \<Rightarrow> unit res" where
  "assert_generation rows job =
     (if list_all (\<lambda>r. dj_artifact_id job = Some (dr_artifact_id r) \<and>
                       dr_fence_token r = dj_fence_token job \<and>
                       dr_artifact_bytes r = artifact_size job) rows
      then Inr () else Inl (QuotaInvariantError ''delivery evidence generation mismatch''))"

definition validate_job_binding ::
  "download_job \<Rightarrow> uuid option \<Rightarrow> int \<Rightarrow> int \<Rightarrow> bool \<Rightarrow> time option \<Rightarrow> unit res" where
  "validate_job_binding job artifact_id fence_token artifact_bytes require_unexpired now =
     (if dj_public_state job \<noteq> DJ_READY \<or> dj_artifact_id job = None \<or>
         dj_artifact_id job \<noteq> artifact_id \<or> dj_fence_token job \<noteq> fence_token \<or>
         artifact_size job \<noteq> artifact_bytes
      then Inl (fail_closed ''ACCOUNTING_ARTIFACT_MISMATCH'')
      else if require_unexpired \<and> (case now of None \<Rightarrow> False | Some t \<Rightarrow> dj_expires_at job \<le> t)
      then Inl (fail_closed ''ACCOUNTING_JOB_EXPIRED'')
      else Inr ())"

definition consume_if_complete ::
  "download_job \<Rightarrow> quota_entry \<Rightarrow> time \<Rightarrow> db \<Rightarrow> (DeliveryAccountingResult \<times> quota_entry \<times> db) res" where
  "consume_if_complete job entry now d =
     (if qe_state entry = Q_CONSUMED then Inr (duplicate_result, entry, d)
      else if qe_state entry \<noteq> Q_RESERVED then Inl (fail_closed ''ACCOUNTING_QUOTA_NOT_RESERVED'')
      else
        let rows = lock_ranges (qe_id entry) d
        in andThen (assert_generation rows job) (\<lambda>_.
             if closed_intervals rows \<noteq> [(0, artifact_size job)]
             then Inr (nothing_new, entry, d)
             else andThen (consume_locked entry now) (\<lambda>entry'.
                    andThen (qe_flush entry' d) (\<lambda>d'. Inr (consumed_result, entry', d')))))"

section \<open>Begin\<close>

definition first_byte :: "int \<Rightarrow> int \<Rightarrow> interval" where
  "first_byte s e = (s, min (s + 1) e)"

definition begin_bounds :: "delivery_range list \<Rightarrow> int \<Rightarrow> int \<Rightarrow> unit res" where
  "begin_bounds rows start stop =
     (let active = filter (\<lambda>r. dr_state r = R_ACTIVE) rows;
          closed = closed_intervals rows;
          active_first_bytes =
            map (\<lambda>r. first_byte (dr_request_start r) (dr_request_end_exclusive r)) active
      in if length active \<ge> MAX_ACTIVE_ATTEMPTS then Inl (fail_closed ''ACCOUNTING_ACTIVE_LIMIT'')
         else if length (normalize_intervals (closed @ active_first_bytes @ [first_byte start stop]))
                 > MAX_CLOSED_FRAGMENTS
         then Inl (fail_closed ''ACCOUNTING_FRAGMENT_LIMIT'')
         else Inr ())"

text \<open>
  \<open>begin\<close>: \<open>snapshot\<close> and \<open>tier\<close> are the authorization's job and policy tier, \<open>revalidate\<close>
  the transport's re-authorization, which runs inside the transaction.
\<close>

definition begin_attempt ::
  "uuid \<Rightarrow> (nat \<Rightarrow> uuid) \<Rightarrow> download_job \<Rightarrow> string option \<Rightarrow> int \<Rightarrow> int \<Rightarrow> (db \<Rightarrow> download_job res) \<Rightarrow>
     time \<Rightarrow> db \<Rightarrow> (DeliveryAccountingAttempt option \<times> db) res" where
  "begin_attempt fresh fresh_rows snapshot tier start stop revalidate now d =
     (if tier = Some ''premium'' then Inr (None, d)
      else if start < 0 \<or> stop \<le> start \<or> dj_artifact_bytes snapshot = None
      then Inl (QuotaInvariantError ''invalid delivery accounting interval'')
      else (case identity_id_for_download (dj_id snapshot) d of
        None \<Rightarrow> Inr (None, d)
      | Some client_id \<Rightarrow>
        (case lock_client client_id None d of
           None \<Rightarrow> Inl (QuotaInvariantError ''delivery quota entry references missing identity'')
         | Some _ \<Rightarrow>
        (case row_by dj_id (dj_id snapshot) (download_jobs d) of
           None \<Rightarrow> Inl (fail_closed ''ACCOUNTING_JOB_MISSING'')
         | Some job \<Rightarrow>
        (case lock_entry_for_download (dj_id snapshot) d of
           None \<Rightarrow> Inl (QuotaInvariantError ''delivery quota entry disappeared'')
         | Some entry \<Rightarrow>
           andThen (revalidate d) (\<lambda>current.
           andThen (guard_res (dj_id current = dj_id job) (fail_closed ''ACCOUNTING_REAUTH_MISMATCH'')) (\<lambda>_.
           andThen (validate_job_binding job (dj_artifact_id snapshot) (dj_fence_token snapshot)
                      (artifact_size snapshot) True (Some now)) (\<lambda>_.
             if qe_state entry = Q_CONSUMED then Inr (None, d)
             else if qe_state entry \<noteq> Q_RESERVED then Inl (fail_closed ''ACCOUNTING_QUOTA_TERMINAL'')
             else
               andThen (close_stale now (lock_ranges (qe_id entry) d) d) (\<lambda>d1.
               andThen (assert_generation (lock_ranges (qe_id entry) d1) job) (\<lambda>_.
               andThen (compact_closed fresh_rows (qe_id entry) (lock_ranges (qe_id entry) d1) now d1) (\<lambda>d2.
               andThen (begin_bounds (lock_ranges (qe_id entry) d2) start stop) (\<lambda>_.
                 let lease_expires = now + seconds DELIVERY_ATTEMPT_LEASE_SECONDS;
                     attempt = \<lparr>dr_id = fresh, dr_quota_entry_id = qe_id entry,
                       dr_artifact_id = the (dj_artifact_id job),
                       dr_fence_token = dj_fence_token job, dr_artifact_bytes = artifact_size job,
                       dr_request_start = start, dr_request_end_exclusive = stop,
                       dr_served_end_exclusive = start, dr_state = R_ACTIVE,
                       dr_started_at = now, dr_lease_expires_at = Some lease_expires,
                       dr_closed_at = None\<rparr>
                 in andThen (dr_insert attempt d2) (\<lambda>d3.
                    andThen (qe_flush (entry\<lparr>qe_reservation_expires_at :=
                               max (qe_reservation_expires_at entry) lease_expires\<rparr>) d3) (\<lambda>d4.
                    Inr (Some \<lparr>at_id = fresh, at_start = start, at_end = stop\<rparr>, d4)))))))))))))))"

section \<open>Checkpoint, finalize, reconcile\<close>

definition lock_attempt_context ::
  "uuid \<Rightarrow> bool \<Rightarrow> db \<Rightarrow> (download_job \<times> quota_entry \<times> delivery_range) option res" where
  "lock_attempt_context attempt_id allow_closed d =
     (case row_by dr_id attempt_id (ranges d) of
        None \<Rightarrow> Inr None
      | Some attempt \<Rightarrow>
     (case row_by qe_id (dr_quota_entry_id attempt) (quota_entries d) of
        None \<Rightarrow> Inr None
      | Some entry \<Rightarrow>
     (case lock_client (qe_anonymous_client_id entry) None d of
        None \<Rightarrow> Inl (QuotaInvariantError ''delivery attempt identity disappeared'')
      | Some _ \<Rightarrow>
     (case row_by dj_id (qe_download_job_id entry) (download_jobs d) of
        None \<Rightarrow> Inl (QuotaInvariantError ''delivery attempt job disappeared'')
      | Some job \<Rightarrow>
          if dr_state attempt = R_CLOSED \<and> \<not> allow_closed
          then Inl (QuotaInvariantError ''delivery checkpoint targets closed attempt'')
          else andThen (validate_job_binding job (Some (dr_artifact_id attempt))
                          (dr_fence_token attempt) (dr_artifact_bytes attempt) False None) (\<lambda>_.
                 Inr (Some (job, entry, attempt)))))))"

definition checkpoint ::
  "uuid \<Rightarrow> int \<Rightarrow> time \<Rightarrow> db \<Rightarrow> (DeliveryAccountingResult \<times> db) res" where
  "checkpoint attempt_id observed_end now d =
     andThen (lock_attempt_context attempt_id False d) (\<lambda>locked.
       case locked of
         None \<Rightarrow> Inl (QuotaInvariantError ''active delivery attempt disappeared'')
       | Some (job, entry, attempt) \<Rightarrow>
           let observed = max observed_end (dr_served_end_exclusive attempt);
               lease_expires = now + seconds DELIVERY_ATTEMPT_LEASE_SECONDS;
               entry' = (if qe_state entry = Q_RESERVED
                         then entry\<lparr>qe_reservation_expires_at :=
                                max (qe_reservation_expires_at entry) lease_expires\<rparr>
                         else entry)
           in if observed > dr_request_end_exclusive attempt
              then Inl (QuotaInvariantError ''delivery checkpoint exceeds requested range'')
              else
                andThen (dr_flush (attempt\<lparr>dr_served_end_exclusive := observed,
                           dr_lease_expires_at := Some lease_expires\<rparr>) d) (\<lambda>d1.
                andThen (qe_flush entry' d1) (\<lambda>d2.
                andThen (consume_if_complete job entry' now d2) (\<lambda>(result, _, d3).
                  Inr (result, d3)))))"

text \<open>
  The reservation a finalized, still reserved entry keeps: the job's expiry or the last live
  lease, whichever is later.
\<close>

definition reservation_after :: "download_job \<Rightarrow> delivery_range list \<Rightarrow> time" where
  "reservation_after job rows =
     max (dj_expires_at job)
       (case [t. r \<leftarrow> rows, dr_state r = R_ACTIVE, Some t \<leftarrow> [dr_lease_expires_at r]] of
          [] \<Rightarrow> dj_expires_at job
        | t # ts \<Rightarrow> fold max ts t)"

definition finalize ::
  "(nat \<Rightarrow> uuid) \<Rightarrow> uuid \<Rightarrow> int \<Rightarrow> time \<Rightarrow> db \<Rightarrow> (DeliveryAccountingResult \<times> db) res" where
  "finalize fresh_rows attempt_id observed_end now d =
     andThen (lock_attempt_context attempt_id True d) (\<lambda>locked.
       case locked of
         None \<Rightarrow> Inr (duplicate_result, d)
       | Some (job, entry, attempt) \<Rightarrow>
           if dr_state attempt = R_CLOSED then Inr (duplicate_result, d)
           else
             let observed = max observed_end (dr_served_end_exclusive attempt)
             in if observed > dr_request_end_exclusive attempt
                then Inl (QuotaInvariantError ''delivery finalization exceeds requested range'')
                else
                  andThen (if observed = dr_request_start attempt then Inr (dr_delete attempt_id d)
                           else dr_flush (closed_at_prefix now
                                  (attempt\<lparr>dr_served_end_exclusive := observed\<rparr>)) d) (\<lambda>d1.
                  andThen (compact_closed fresh_rows (qe_id entry) (lock_ranges (qe_id entry) d1) now d1) (\<lambda>d2.
                  andThen (consume_if_complete job entry now d2) (\<lambda>(result, entry', d3).
                    if qe_state entry' = Q_RESERVED
                    then andThen (qe_flush (entry'\<lparr>qe_reservation_expires_at :=
                                    reservation_after job (lock_ranges (qe_id entry') d3)\<rparr>) d3)
                           (\<lambda>d4. Inr (result, d4))
                    else Inr (result, d3)))))"

definition has_live_attempt_locked :: "quota_entry \<Rightarrow> time \<Rightarrow> db \<Rightarrow> bool" where
  "has_live_attempt_locked entry now d =
     list_ex (\<lambda>r. dr_state r = R_ACTIVE \<and> opt_gt (dr_lease_expires_at r) now)
       (lock_ranges (qe_id entry) d)"

definition reconcile_locked ::
  "(nat \<Rightarrow> uuid) \<Rightarrow> download_job \<Rightarrow> quota_entry \<Rightarrow> time \<Rightarrow> db \<Rightarrow> (DeliveryAccountingResult \<times> db) res" where
  "reconcile_locked fresh_rows job entry now d =
     (let rows = lock_ranges (qe_id entry) d
      in andThen (assert_generation rows job) (\<lambda>_.
         andThen (close_stale now (filter (\<lambda>r. dr_state r = R_ACTIVE \<and>
                                     opt_le (dr_lease_expires_at r) now) rows) d) (\<lambda>d1.
         andThen (compact_closed fresh_rows (qe_id entry) (lock_ranges (qe_id entry) d1) now d1) (\<lambda>d2.
         andThen (consume_if_complete job entry now d2) (\<lambda>(result, _, d3). Inr (result, d3))))))"

section \<open>The evidence of an entry\<close>

text \<open>
  \<open>covered i d\<close> is the set of bytes of the artifact the ledger proves were served for entry
  \<open>i\<close>: the abstract state of the ledger. Every operation is shown to act on it as the
  abstract operation it means.
\<close>

definition row_bytes :: "delivery_range \<Rightarrow> int set" where
  "row_bytes r = {dr_request_start r..<dr_served_end_exclusive r}"

definition covered :: "uuid \<Rightarrow> db \<Rightarrow> int set" where
  "covered i d = (\<Union>r \<in> {r \<in> set (ranges d). dr_quota_entry_id r = i}. row_bytes r)"

definition ranges_wf :: "db \<Rightarrow> bool" where
  "ranges_wf d \<longleftrightarrow> (\<forall>r \<in> set (ranges d). range_ok r) \<and> distinct (map dr_id (ranges d))"

lemma points_served: "points (map served_interval rows) = (\<Union>r \<in> set rows. row_bytes r)"
  by (auto simp: points_def served_interval_def row_bytes_def)

lemma closed_intervals_points: "points (closed_intervals rows) = (\<Union>r \<in> set rows. row_bytes r)"
proof -
  have "(\<Union>r \<in> set (filter (\<lambda>r. dr_served_end_exclusive r > dr_request_start r) rows). row_bytes r) =
        (\<Union>r \<in> set rows. row_bytes r)"
    by (auto simp: row_bytes_def)
  then show ?thesis by (simp add: closed_intervals_def ni.norm_points points_served)
qed

lemma set_lock_ranges: "set (lock_ranges i d) = {r \<in> set (ranges d). dr_quota_entry_id r = i}"
  by (auto simp: lock_ranges_def)

lemma lock_ranges_points: "points (closed_intervals (lock_ranges i d)) = covered i d"
  by (simp add: closed_intervals_points covered_def set_lock_ranges)

lemma coverage_complete_iff:
  "0 < n \<Longrightarrow> closed_intervals (lock_ranges i d) = [(0, n)] \<longleftrightarrow> covered i d = {0..<n}"
  using ni.norm_full_iff lock_ranges_points [of i d] ni.norm_points
  unfolding closed_intervals_def by metis

lemma distinct_lock_ranges:
  "distinct (map dr_id (ranges d)) \<Longrightarrow> distinct (map dr_id (lock_ranges i d))"
  unfolding lock_ranges_def by (intro distinct_map_order_by distinct_map_filter_sub)

definition evidence :: "uuid \<Rightarrow> delivery_range set \<Rightarrow> int set" where
  "evidence i S = (\<Union>r \<in> {r \<in> S. dr_quota_entry_id r = i}. row_bytes r)"

lemma covered_evidence: "covered i d = evidence i (set (ranges d))"
  by (simp add: covered_def evidence_def)

lemma evidence_insert:
  "evidence i (insert r S) = (if dr_quota_entry_id r = i then row_bytes r else {}) \<union> evidence i S"
  by (auto simp: evidence_def)

text \<open>Changing one row changes the evidence by that row alone.\<close>

lemma covered_put_row:
  assumes "row_by dr_id (dr_id r) (ranges d) = Some old" and "distinct (map dr_id (ranges d))"
    and "dr_quota_entry_id r = dr_quota_entry_id old" and "row_bytes old \<subseteq> row_bytes r"
  shows "covered i (d\<lparr>ranges := put_row dr_id r (ranges d)\<rparr>) =
     (if i = dr_quota_entry_id r then covered i d \<union> row_bytes r else covered i d)"
proof -
  have mem: "old \<in> set (ranges d)" "dr_id old = dr_id r" using row_by_SomeD [OF assms(1)] by auto
  have uniq: "x = old" if "x \<in> set (ranges d)" "dr_id x = dr_id r" for x
    using that mem assms(2) by (metis distinct_map inj_onD)
  let ?O = "{x \<in> set (ranges d). dr_id x \<noteq> dr_id r}"
  have new: "set (put_row dr_id r (ranges d)) = insert r ?O"
    using put_row_member [OF assms(1)] by (auto simp: put_row_def)
  have old: "insert old ?O = set (ranges d)"
  proof (rule set_eqI)
    fix x show "x \<in> insert old ?O \<longleftrightarrow> x \<in> set (ranges d)"
      using uniq [of x] mem(1) by blast
  qed
  have "evidence i (insert r ?O) = (if i = dr_quota_entry_id r
      then evidence i (insert old ?O) \<union> row_bytes r else evidence i (insert old ?O))"
    using assms(3,4) unfolding evidence_insert by auto
  then show ?thesis unfolding old by (simp add: covered_evidence new)
qed

lemma covered_delete_empty:
  assumes "row_by dr_id k (ranges d) = Some old" and "distinct (map dr_id (ranges d))"
    and "row_bytes old = {}"
  shows "covered i (dr_delete k d) = covered i d"
proof -
  have mem: "old \<in> set (ranges d)" "dr_id old = k" using row_by_SomeD [OF assms(1)] by auto
  have uniq: "x = old" if "x \<in> set (ranges d)" "dr_id x = k" for x
    using that mem assms(2) by (metis distinct_map inj_onD)
  have all: "insert old {x \<in> set (ranges d). dr_id x \<noteq> k} = set (ranges d)"
  proof (rule set_eqI)
    fix x show "x \<in> insert old {x \<in> set (ranges d). dr_id x \<noteq> k} \<longleftrightarrow> x \<in> set (ranges d)"
      using uniq [of x] mem(1) by blast
  qed
  have "evidence i (insert old {x \<in> set (ranges d). dr_id x \<noteq> k}) =
      evidence i {x \<in> set (ranges d). dr_id x \<noteq> k}"
    unfolding evidence_insert assms(3) by simp
  then show ?thesis unfolding all by (simp add: covered_evidence dr_delete_def)
qed

section \<open>Writes keep the table well formed\<close>

lemma dr_flush_Inr:
  "dr_flush r d = Inr d' \<longleftrightarrow> range_ok r \<and> d' = d\<lparr>ranges := put_row dr_id r (ranges d)\<rparr>"
  by (auto simp: dr_flush_def andThen_eq_Inr write_row_eq_Inr)

lemma dr_flush_wf: "dr_flush r d = Inr d' \<Longrightarrow> ranges_wf d \<Longrightarrow> ranges_wf d'"
  using set_put_row by (fastforce simp: dr_flush_Inr ranges_wf_def)

lemma dr_delete_wf: "ranges_wf d \<Longrightarrow> ranges_wf (dr_delete k d)"
  by (auto simp: ranges_wf_def dr_delete_def del_rows_def distinct_map_filter)

lemma dr_insert_wf: "dr_insert r d = Inr d' \<Longrightarrow> ranges_wf d \<Longrightarrow> ranges_wf d'"
  by (auto simp: dr_insert_def ranges_wf_def split: if_splits)

lemma dr_insert_covered:
  "dr_insert r d = Inr d' \<Longrightarrow>
     covered i d' = (if i = dr_quota_entry_id r then covered i d \<union> row_bytes r else covered i d)"
  by (auto simp: dr_insert_def covered_def split: if_splits)

text \<open>What the ledger's range writes leave alone.\<close>

definition ranges_only :: "db \<Rightarrow> db \<Rightarrow> bool" where
  "ranges_only d d' \<longleftrightarrow> d' = d\<lparr>ranges := ranges d'\<rparr>"

lemma ranges_only_refl [simp]: "ranges_only d d"
  by (simp add: ranges_only_def)

lemma ranges_only_trans: "ranges_only a b \<Longrightarrow> ranges_only b c \<Longrightarrow> ranges_only a c"
  by (simp add: ranges_only_def) (metis db.update_convs(5) db.surjective)

lemma ranges_only_writes:
  "dr_flush r d = Inr d' \<Longrightarrow> ranges_only d d'" "dr_insert r d = Inr d' \<Longrightarrow> ranges_only d d'"
  "ranges_only d (dr_delete k d)"
  by (auto simp: dr_flush_Inr dr_insert_def dr_delete_def ranges_only_def split: if_splits)

lemma ranges_only_tables:
  "ranges_only d d' \<Longrightarrow> quota_entries d' = quota_entries d \<and> download_jobs d' = download_jobs d \<and>
     clients d' = clients d"
  unfolding ranges_only_def by (metis db.simps(11,12,13) db.ext_inject db.surjective db.update_convs(5))

section \<open>Closing stale attempts keeps the evidence\<close>

definition keeps_evidence :: "db \<Rightarrow> db \<Rightarrow> bool" where
  "keeps_evidence d d' \<longleftrightarrow> ranges_wf d' \<and> ranges_only d d' \<and> (\<forall>i. covered i d' = covered i d)"

lemma keeps_evidence_refl: "ranges_wf d \<Longrightarrow> keeps_evidence d d"
  by (simp add: keeps_evidence_def)

lemma keeps_evidence_trans: "keeps_evidence a b \<Longrightarrow> keeps_evidence b c \<Longrightarrow> keeps_evidence a c"
  unfolding keeps_evidence_def using ranges_only_trans by metis

lemma close_one_keeps:
  assumes "close_one now r d = Inr d'" and "ranges_wf d"
    and "row_by dr_id (dr_id r) (ranges d) = Some r"
  shows "keeps_evidence d d' \<and>
         (\<forall>k. k \<noteq> dr_id r \<longrightarrow> row_by dr_id k (ranges d') = row_by dr_id k (ranges d))"
proof -
  have dist: "distinct (map dr_id (ranges d))" using assms(2) by (simp add: ranges_wf_def)
  have "d' = d \<or> (dr_served_end_exclusive r = dr_request_start r \<and> d' = dr_delete (dr_id r) d) \<or>
      dr_flush (closed_at_prefix now r) d = Inr d'"
    using assms(1) unfolding close_one_def by (simp split: if_split_asm)
  then consider "d' = d" | "dr_served_end_exclusive r = dr_request_start r" "d' = dr_delete (dr_id r) d"
    | "dr_flush (closed_at_prefix now r) d = Inr d'"
    by blast
  then show ?thesis
  proof cases
    case 1
    with assms(2) show ?thesis by (simp add: keeps_evidence_refl)
  next
    case 2
    then have "covered i d' = covered i d" for i
      using covered_delete_empty [OF assms(3) dist] by (simp add: row_bytes_def)
    with 2 show ?thesis
      using dr_delete_wf [OF assms(2)] ranges_only_writes(3)
      by (simp add: keeps_evidence_def dr_delete_def row_by_del_rows)
  next
    case 3
    have id: "dr_id (closed_at_prefix now r) = dr_id r"
      "dr_quota_entry_id (closed_at_prefix now r) = dr_quota_entry_id r"
      "row_bytes (closed_at_prefix now r) = row_bytes r"
      by (simp_all add: closed_at_prefix_def row_bytes_def)
    have sub: "row_bytes r \<subseteq> covered (dr_quota_entry_id r) d"
      using row_by_SomeD [OF assms(3)] unfolding covered_def by blast
    have d': "d' = d\<lparr>ranges := put_row dr_id (closed_at_prefix now r) (ranges d)\<rparr>"
      using 3 by (simp add: dr_flush_Inr)
    have "covered i d' = covered i d" for i
      using covered_put_row [of "closed_at_prefix now r" d r i] assms(3) dist sub
      by (auto simp: id d')
    moreover have "row_by dr_id k (ranges d') = row_by dr_id k (ranges d)" if "k \<noteq> dr_id r" for k
      using that by (simp add: d' id)
    ultimately show ?thesis
      using dr_flush_wf [OF 3 assms(2)] ranges_only_writes(1) [OF 3] by (simp add: keeps_evidence_def)
  qed
qed

lemma close_stale_keeps:
  assumes "close_stale now rows d = Inr d'" and "ranges_wf d" and "distinct (map dr_id rows)"
    and "\<forall>r \<in> set rows. row_by dr_id (dr_id r) (ranges d) = Some r"
  shows "keeps_evidence d d'"
  using assms unfolding close_stale_def
proof (induction rows arbitrary: d)
  case Nil
  then show ?case by (simp add: keeps_evidence_refl)
next
  case (Cons r rows)
  from Cons.prems(1) obtain d1 where d1: "close_one now r d = Inr d1"
    and rest: "fold_res (close_one now) rows d1 = Inr d'"
    by (auto simp: andThen_eq_Inr)
  note one = close_one_keeps [OF d1 Cons.prems(2)]
  have r: "row_by dr_id (dr_id r) (ranges d) = Some r" using Cons.prems(4) by simp
  have "row_by dr_id (dr_id x) (ranges d1) = Some x" if "x \<in> set rows" for x
  proof -
    have "dr_id x \<noteq> dr_id r" using imageI [OF that, of dr_id] Cons.prems(3) by auto
    with one [OF r] that Cons.prems(4) show ?thesis by simp
  qed
  then have "keeps_evidence d1 d'"
    using Cons.IH [OF rest] one [OF r] Cons.prems(3) by (simp add: keeps_evidence_def)
  with one [OF r] show ?case using keeps_evidence_trans by blast
qed

lemma lock_ranges_stored:
  assumes "ranges_wf d" and "r \<in> set (lock_ranges i d)"
  shows "row_by dr_id (dr_id r) (ranges d) = Some r"
  using assms by (simp add: ranges_wf_def set_lock_ranges row_by_Some_iff)

section \<open>Compaction keeps the evidence and bounds the rows\<close>

definition closed_of :: "uuid \<Rightarrow> db \<Rightarrow> delivery_range list" where
  "closed_of i d = filter (\<lambda>r. dr_quota_entry_id r = i \<and> dr_state r = R_CLOSED) (ranges d)"

lemma insert_compacted:
  assumes "fold_res (\<lambda>(k, iv). dr_insert (compacted_row e tpl now (fresh k) iv)) kivs d = Inr d'"
    and "ranges_wf d"
  shows "ranges_wf d' \<and> ranges_only d d' \<and>
     ranges d' = ranges d @ map (\<lambda>(k, iv). compacted_row e tpl now (fresh k) iv) kivs"
  using assms
proof (induction kivs arbitrary: d)
  case (Cons x kivs)
  obtain k iv where x: "x = (k, iv)" by (cases x)
  from Cons.prems(1) x obtain d1 where d1: "dr_insert (compacted_row e tpl now (fresh k) iv) d = Inr d1"
    and rest: "fold_res (\<lambda>(k, iv). dr_insert (compacted_row e tpl now (fresh k) iv)) kivs d1 = Inr d'"
    by (auto simp: andThen_eq_Inr)
  have "ranges d1 = ranges d @ [compacted_row e tpl now (fresh k) iv]"
    using d1 by (auto simp: dr_insert_def split: if_splits)
  with Cons.IH [OF rest dr_insert_wf [OF d1 Cons.prems(2)]] ranges_only_writes(2) [OF d1] x
  show ?case using ranges_only_trans by auto
qed simp

lemma evidence_Un: "evidence i (S \<union> T) = evidence i S \<union> evidence i T"
  by (auto simp: evidence_def)

lemma evidence_map:
  assumes "\<And>x. dr_quota_entry_id (g x) = e" and "\<And>x. row_bytes (g x) = b x"
  shows "evidence i (set (map g xs)) = (if i = e then \<Union>x \<in> set xs. b x else {})"
proof (induction xs)
  case Nil
  show ?case by (simp add: evidence_def)
next
  case (Cons x xs)
  then show ?case by (simp only: list.map(2) list.set(2) evidence_insert assms) auto
qed

lemma compacted_evidence:
  "evidence i (set (map (\<lambda>(k, iv). compacted_row e tpl now (fresh k) iv) (enumerate n ivs))) =
     (if i = e then points ivs else {})"
proof -
  have "evidence i (set (map (\<lambda>(k, iv). compacted_row e tpl now (fresh k) iv) (enumerate n ivs))) =
      (if i = e then \<Union>x \<in> set (enumerate n ivs). {fst (snd x)..<snd (snd x)} else {})"
    by (rule evidence_map) (simp_all add: compacted_row_def row_bytes_def split_def)
  also have "(\<Union>x \<in> set (enumerate n ivs). {fst (snd x)..<snd (snd x)}) =
      (\<Union>iv \<in> set (map snd (enumerate n ivs)). {fst iv..<snd iv})"
    unfolding set_map by blast
  also have "\<dots> = points ivs"
    unfolding map_snd_enumerate by (auto simp: points_def)
  finally show ?thesis .
qed

lemma length_filter_lock_ranges:
  "length (filter (\<lambda>r. dr_state r = R_CLOSED) (lock_ranges i d)) = length (closed_of i d)"
  by (simp add: lock_ranges_def length_filter_order_by closed_of_def conj_commute)

lemma compact_closed_keeps:
  assumes "compact_closed fresh i (lock_ranges i d) now d = Inr d'" and "ranges_wf d"
  shows "keeps_evidence d d' \<and> length (closed_of i d') \<le> MAX_CLOSED_FRAGMENTS"
proof -
  let ?closed = "filter (\<lambda>r. dr_state r = R_CLOSED) (lock_ranges i d)"
  let ?union = "closed_intervals ?closed"
  have bound: "length ?union \<le> MAX_CLOSED_FRAGMENTS"
    using assms(1) by (simp add: compact_closed_def Let_def split: if_splits)
  consider (same) "d' = d" "length ?closed = length ?union" | (none) "d' = d" "?closed = []"
    | (rewrite) tpl where
      "fold_res (\<lambda>(k, iv). dr_insert (compacted_row i tpl now (fresh k) iv)) (enumerate 0 ?union)
         (d\<lparr>ranges := del_rows (\<lambda>r. dr_quota_entry_id r = i \<and> dr_state r = R_CLOSED) (ranges d)\<rparr>) = Inr d'"
  proof (cases "?closed")
    case Nil
    then have "d' = d" using assms(1) by (simp add: compact_closed_def Let_def split: if_split_asm)
    with Nil none show thesis by blast
  next
    case (Cons tpl more)
    from assms(1) bound have "(length ?closed = length ?union \<and> d' = d) \<or>
      fold_res (\<lambda>(k, iv). dr_insert (compacted_row i tpl now (fresh k) iv)) (enumerate 0 ?union)
         (d\<lparr>ranges := del_rows (\<lambda>r. dr_quota_entry_id r = i \<and> dr_state r = R_CLOSED) (ranges d)\<rparr>) = Inr d'"
      unfolding compact_closed_def Let_def Cons list.case by (simp split: if_split_asm)
    with same rewrite show thesis by blast
  qed
  then show ?thesis
  proof cases
    case same
    then show ?thesis
      using bound assms(2) length_filter_lock_ranges [of i d] by (simp add: keeps_evidence_refl)
  next
    case none
    then show ?thesis
      using assms(2) length_filter_lock_ranges [of i d] by (simp add: keeps_evidence_refl)
  next
    case rewrite
    let ?rest = "del_rows (\<lambda>r. dr_quota_entry_id r = i \<and> dr_state r = R_CLOSED) (ranges d)"
    let ?d0 = "d\<lparr>ranges := ?rest\<rparr>"
    let ?new = "map (\<lambda>(k, iv). compacted_row i tpl now (fresh k) iv) (enumerate 0 ?union)"
    have "ranges_wf ?d0"
      using assms(2) by (auto simp: ranges_wf_def del_rows_def distinct_map_filter)
    from insert_compacted [OF rewrite this] have wf: "ranges_wf d'" and only: "ranges_only ?d0 d'"
      and rows: "ranges d' = ?rest @ ?new" by auto
    have "ranges_only d ?d0" by (simp add: ranges_only_def)
    with only have only': "ranges_only d d'" using ranges_only_trans by blast
    have pts: "points ?union = evidence i (set (closed_of i d))"
      by (auto simp: closed_intervals_points set_lock_ranges evidence_def closed_of_def)
    have split: "set ?rest \<union> set (closed_of i d) = set (ranges d)"
      by (auto simp: closed_of_def)
    have foreign: "evidence j (set (closed_of i d)) = {}" if "j \<noteq> i" for j
      using that by (auto simp: evidence_def closed_of_def)
    have "covered j d' = covered j d" for j
    proof -
      have "covered j d' = evidence j (set ?rest) \<union> (if j = i then points ?union else {})"
        by (simp only: covered_evidence rows set_append evidence_Un compacted_evidence)
      also have "\<dots> = evidence j (set ?rest) \<union> evidence j (set (closed_of i d))"
        using pts foreign by auto
      also have "\<dots> = covered j d" by (simp only: evidence_Un [symmetric] split covered_evidence)
      finally show ?thesis .
    qed
    moreover have "closed_of i d' = ?new"
    proof -
      have "filter (\<lambda>r. dr_quota_entry_id r = i \<and> dr_state r = R_CLOSED) ?rest = []"
        by (auto simp: filter_empty_conv)
      moreover have "filter (\<lambda>r. dr_quota_entry_id r = i \<and> dr_state r = R_CLOSED) ?new = ?new"
        by (rule filter_True) (auto simp: compacted_row_def)
      ultimately show ?thesis by (simp add: closed_of_def rows)
    qed
    ultimately show ?thesis using wf only' bound by (simp add: keeps_evidence_def)
  qed
qed

section \<open>Consumption happens exactly on full coverage\<close>

lemma qe_flush_Inr:
  "qe_flush e d = Inr d' \<longleftrightarrow>
     entry_ok e \<and> d' = d\<lparr>quota_entries := put_row qe_id e (quota_entries d)\<rparr>"
  by (auto simp: qe_flush_def andThen_eq_Inr write_row_eq_Inr)

lemma qe_flush_row:
  assumes "qe_flush e d = Inr d'" and "row_by qe_id (qe_id e) (quota_entries d) = Some old"
  shows "row_by qe_id (qe_id e) (quota_entries d') = Some e \<and> ranges d' = ranges d \<and>
         (\<forall>j. j \<noteq> qe_id e \<longrightarrow> row_by qe_id j (quota_entries d') = row_by qe_id j (quota_entries d))"
  using assms by (auto simp: qe_flush_Inr)

lemma covered_ranges: "ranges d' = ranges d \<Longrightarrow> covered i d' = covered i d"
  by (simp add: covered_def)

lemma consume_if_complete_spec:
  assumes "consume_if_complete job e now d = Inr (res, e', d')"
    and "row_by qe_id (qe_id e) (quota_entries d) = Some e" and "0 < artifact_size job"
  shows "ranges d' = ranges d \<and> qe_id e' = qe_id e \<and>
     row_by qe_id (qe_id e) (quota_entries d') = Some e' \<and>
     (ar_consumed res \<longleftrightarrow> qe_state e = Q_RESERVED \<and> covered (qe_id e) d = {0..<artifact_size job}) \<and>
     (qe_state e' = Q_CONSUMED \<longleftrightarrow> qe_state e = Q_CONSUMED \<or> ar_consumed res) \<and>
     qe_state e \<in> {Q_RESERVED, Q_CONSUMED} \<and>
     (qe_state e' = Q_RESERVED \<longrightarrow> e' = e \<and> d' = d)"
proof -
  let ?full = "closed_intervals (lock_ranges (qe_id e) d) = [(0, artifact_size job)]"
  have full: "?full \<longleftrightarrow> covered (qe_id e) d = {0..<artifact_size job}"
    by (rule coverage_complete_iff [OF assms(3)])
  show ?thesis
  proof (cases "qe_state e = Q_RESERVED")
    case False
    with assms(1,2) show ?thesis by (auto simp: consume_if_complete_def split: if_split_asm)
  next
    case True
    show ?thesis
    proof (cases ?full)
      case False
      with True assms(1,2) full show ?thesis
        by (auto simp: consume_if_complete_def Let_def andThen_eq_Inr)
    next
      case complete: True
      from True assms(1) complete obtain e'' where e'': "consume_locked e now = Inr e''"
        and fl: "qe_flush e'' d = Inr d'" and r: "res = consumed_result" "e' = e''"
        by (auto simp: consume_if_complete_def Let_def andThen_eq_Inr)
      have c: "qe_id e'' = qe_id e" "qe_state e'' = Q_CONSUMED"
        using e'' True by (auto simp: consume_locked_def)
      have "row_by qe_id (qe_id e'') (quota_entries d) = Some e" using assms(2) c by simp
      from qe_flush_row [OF fl this] True complete full c r show ?thesis by simp
    qed
  qed
qed

lemma lock_attempt_contextD:
  assumes "lock_attempt_context k allow d = Inr (Some (job, e, a))"
  shows "row_by dr_id k (ranges d) = Some a \<and>
     row_by qe_id (dr_quota_entry_id a) (quota_entries d) = Some e \<and>
     row_by dj_id (qe_download_job_id e) (download_jobs d) = Some job \<and>
     dj_public_state job = DJ_READY \<and> artifact_size job = dr_artifact_bytes a \<and>
     (dr_state a = R_CLOSED \<longrightarrow> allow)"
  using assms
  by (auto simp: lock_attempt_context_def validate_job_binding_def andThen_eq_Inr
      split: option.splits if_split_asm)

lemma lock_attempt_context_NoneD:
  "lock_attempt_context k allow d = Inr None \<Longrightarrow> row_by dr_id k (ranges d) = Some a \<Longrightarrow>
     row_by qe_id (dr_quota_entry_id a) (quota_entries d) = None"
  by (auto simp: lock_attempt_context_def andThen_eq_Inr split: option.splits if_split_asm)

text \<open>Growing or closing the prefix of one stored attempt.\<close>

lemma flush_prefix:
  assumes "dr_flush r d = Inr d1" and "ranges_wf d" and "row_by dr_id (dr_id r) (ranges d) = Some a"
    and "dr_quota_entry_id r = dr_quota_entry_id a" and "row_bytes a \<subseteq> row_bytes r"
  shows "ranges_wf d1 \<and> ranges_only d d1 \<and>
     covered (dr_quota_entry_id a) d1 = covered (dr_quota_entry_id a) d \<union> row_bytes r \<and>
     (\<forall>j. j \<noteq> dr_quota_entry_id a \<longrightarrow> covered j d1 = covered j d)"
proof -
  have dist: "distinct (map dr_id (ranges d))" using assms(2) by (simp add: ranges_wf_def)
  have d1: "d1 = d\<lparr>ranges := put_row dr_id r (ranges d)\<rparr>" using assms(1) by (simp add: dr_flush_Inr)
  show ?thesis
    using covered_put_row [OF assms(3) dist assms(4,5)] dr_flush_wf [OF assms(1,2)]
      ranges_only_writes(1) [OF assms(1)] assms(4)
    by (simp add: d1)
qed

section \<open>What the ledger does to the accounts\<close>

text \<open>
  \<open>same_accounts\<close>: entries keep their state, job and identity. \<open>accounts\<close>: the one change of
  state the ledger makes is from reserved to consumed, and only with full evidence.
\<close>

definition same_accounts :: "db \<Rightarrow> db \<Rightarrow> bool" where
  "same_accounts d d' \<longleftrightarrow> download_jobs d' = download_jobs d \<and>
     map qe_id (quota_entries d') = map qe_id (quota_entries d) \<and>
     (\<forall>i e. row_by qe_id i (quota_entries d) = Some e \<longrightarrow>
        (\<exists>e'. row_by qe_id i (quota_entries d') = Some e' \<and> qe_state e' = qe_state e \<and>
              qe_download_job_id e' = qe_download_job_id e))"

definition fully_served :: "uuid \<Rightarrow> quota_entry \<Rightarrow> db \<Rightarrow> bool" where
  "fully_served i e d \<longleftrightarrow>
     (\<exists>job. row_by dj_id (qe_download_job_id e) (download_jobs d) = Some job \<and>
            {0..<artifact_size job} \<subseteq> covered i d)"

definition accounts :: "db \<Rightarrow> db \<Rightarrow> bool" where
  "accounts d d' \<longleftrightarrow> download_jobs d' = download_jobs d \<and>
     map qe_id (quota_entries d') = map qe_id (quota_entries d) \<and>
     (\<forall>i. covered i d \<subseteq> covered i d') \<and>
     (\<forall>i e. row_by qe_id i (quota_entries d) = Some e \<longrightarrow>
        (\<exists>e'. row_by qe_id i (quota_entries d') = Some e' \<and>
              qe_download_job_id e' = qe_download_job_id e \<and>
              (qe_state e' = qe_state e \<or>
               (qe_state e = Q_RESERVED \<and> qe_state e' = Q_CONSUMED \<and> fully_served i e' d'))))"

lemma same_accounts_refl [simp]: "same_accounts d d"
  by (simp add: same_accounts_def)

lemma same_accounts_trans: "same_accounts a b \<Longrightarrow> same_accounts b c \<Longrightarrow> same_accounts a c"
  unfolding same_accounts_def by metis

lemma ranges_only_same: "ranges_only d d' \<Longrightarrow> same_accounts d d'"
  using ranges_only_tables [of d d'] by (simp add: same_accounts_def)

lemma flush_same:
  assumes "qe_flush e' d = Inr d'" and "row_by qe_id (qe_id e') (quota_entries d) = Some e"
    and "qe_state e' = qe_state e" and "qe_download_job_id e' = qe_download_job_id e"
  shows "same_accounts d d'"
  using assms by (auto simp: qe_flush_Inr same_accounts_def)

lemma accounts_same:
  assumes "same_accounts d d'" and "\<And>i. covered i d \<subseteq> covered i d'"
  shows "accounts d d'"
  using assms unfolding same_accounts_def accounts_def by metis

lemma accounts_refl: "accounts d d"
  by (rule accounts_same) simp_all

lemma accounts_trans:
  assumes "accounts a b" and "accounts b c"
  shows "accounts a c"
proof -
  have cov: "\<forall>i. covered i a \<subseteq> covered i c" using assms unfolding accounts_def by blast
  have served: "fully_served i e' c" if "fully_served i e b" "qe_download_job_id e' = qe_download_job_id e"
    for i e e'
    using that assms(2) unfolding fully_served_def accounts_def by (metis order_trans)
  have "\<exists>e'. row_by qe_id i (quota_entries c) = Some e' \<and> qe_download_job_id e' = qe_download_job_id e \<and>
      (qe_state e' = qe_state e \<or> qe_state e = Q_RESERVED \<and> qe_state e' = Q_CONSUMED \<and> fully_served i e' c)"
    if row: "row_by qe_id i (quota_entries a) = Some e" for i e
  proof -
    obtain e1 where e1: "row_by qe_id i (quota_entries b) = Some e1" "qe_download_job_id e1 = qe_download_job_id e"
      "qe_state e1 = qe_state e \<or> qe_state e = Q_RESERVED \<and> qe_state e1 = Q_CONSUMED \<and> fully_served i e1 b"
      using assms(1) row unfolding accounts_def by blast
    obtain e2 where e2: "row_by qe_id i (quota_entries c) = Some e2" "qe_download_job_id e2 = qe_download_job_id e1"
      "qe_state e2 = qe_state e1 \<or> qe_state e1 = Q_RESERVED \<and> qe_state e2 = Q_CONSUMED \<and> fully_served i e2 c"
      using assms(2) e1(1) unfolding accounts_def by blast
    with e1 served [of i e1 e2] show ?thesis by auto
  qed
  with cov assms show ?thesis unfolding accounts_def by auto
qed

lemma consume_if_complete_accounts:
  assumes "consume_if_complete job e now d = Inr (res, e', d')"
    and "row_by qe_id (qe_id e) (quota_entries d) = Some e" and "0 < artifact_size job"
    and "row_by dj_id (qe_download_job_id e) (download_jobs d) = Some job"
  shows "accounts d d' \<and> ranges d' = ranges d"
proof -
  note spec = consume_if_complete_spec [OF assms(1-3)]
  show ?thesis
  proof (cases "ar_consumed res")
    case False
    then have "d' = d"
      using assms(1) by (auto simp: consume_if_complete_def Let_def andThen_eq_Inr split: if_split_asm)
    then show ?thesis by (simp add: accounts_refl)
  next
    case True
    with assms(1) have c: "consume_locked e now = Inr e'" and fl: "qe_flush e' d = Inr d'"
      by (auto simp: consume_if_complete_def Let_def andThen_eq_Inr split: if_split_asm)
    have e': "qe_id e' = qe_id e" "qe_download_job_id e' = qe_download_job_id e"
      "qe_state e = Q_RESERVED" "qe_state e' = Q_CONSUMED"
      using c by (auto simp: consume_locked_def split: if_split_asm)
    have d': "d' = d\<lparr>quota_entries := put_row qe_id e' (quota_entries d)\<rparr>" using fl by (simp add: qe_flush_Inr)
    have cov: "covered i d' = covered i d" for i by (rule covered_ranges) (simp add: d')
    have "fully_served (qe_id e) e' d'"
      using spec True assms(4) e' cov by (simp add: fully_served_def d')
    then have "accounts d d'"
      unfolding accounts_def using cov e' assms(2) by (auto simp: d')
    with spec show ?thesis by simp
  qed
qed

section \<open>Closing and advancing an attempt\<close>

lemma finalize_core:
  assumes "ranges_wf d" and "row_by dr_id k (ranges d) = Some a" and "dr_state a = R_ACTIVE"
    and "row_by qe_id (dr_quota_entry_id a) (quota_entries d) = Some e"
    and "finalize fresh k observed now d = Inr (res, d')"
  shows "covered (dr_quota_entry_id a) d' = covered (dr_quota_entry_id a) d \<union>
           {dr_request_start a..<max observed (dr_served_end_exclusive a)} \<and>
     (\<forall>j. j \<noteq> dr_quota_entry_id a \<longrightarrow> covered j d' = covered j d) \<and>
     length (closed_of (dr_quota_entry_id a) d') \<le> MAX_CLOSED_FRAGMENTS \<and> ranges_wf d' \<and>
     (ar_consumed res \<longleftrightarrow> qe_state e = Q_RESERVED \<and>
        covered (dr_quota_entry_id a) d' = {0..<dr_artifact_bytes a}) \<and>
     (\<exists>e'. row_by qe_id (dr_quota_entry_id a) (quota_entries d') = Some e' \<and>
        (qe_state e' = Q_CONSUMED \<longleftrightarrow> qe_state e = Q_CONSUMED \<or> ar_consumed res)) \<and> accounts d d'"
proof -
  let ?i = "dr_quota_entry_id a" and ?obs = "max observed (dr_served_end_exclusive a)"
  have dist: "distinct (map dr_id (ranges d))" using assms(1) by (simp add: ranges_wf_def)
  have kid: "dr_id a = k" and aok: "range_ok a"
    using row_by_SomeD [OF assms(2)] assms(1) by (auto simp: ranges_wf_def)
  have eid: "qe_id e = ?i" using row_by_SomeD [OF assms(4)] by simp
  from assms(5) obtain locked where locked: "lock_attempt_context k True d = Inr locked"
    by (auto simp: finalize_def andThen_eq_Inr)
  have "locked \<noteq> None"
  proof
    assume "locked = None"
    with lock_attempt_context_NoneD [of k True d a] locked assms(2,4) show False by simp
  qed
  then obtain job e0 a0 where l0: "locked = Some (job, e0, a0)"
    by (metis not_None_eq prod_cases3)
  note ctx = lock_attempt_contextD [OF locked [unfolded l0]]
  have same: "e0 = e" "a0 = a" using ctx assms(2,4) by auto
  have size: "artifact_size job = dr_artifact_bytes a" "0 < artifact_size job"
    using ctx same aok by (auto simp: range_ok_def)
  from assms(3,5) locked l0 same obtain d1 d2 e' d3 where
    bnd: "\<not> ?obs > dr_request_end_exclusive a"
    and w: "(if ?obs = dr_request_start a then Inr (dr_delete k d)
        else dr_flush (closed_at_prefix now (a\<lparr>dr_served_end_exclusive := ?obs\<rparr>)) d) = Inr d1"
    and cmp: "compact_closed fresh ?i (lock_ranges ?i d1) now d1 = Inr d2"
    and cons: "consume_if_complete job e now d2 = Inr (res, e', d3)"
    and last: "d' = d3 \<or> (qe_state e' = Q_RESERVED \<and> qe_flush (e'\<lparr>qe_reservation_expires_at :=
                  reservation_after job (lock_ranges (qe_id e') d3)\<rparr>) d3 = Inr d')"
    by (auto simp: finalize_def Let_def andThen_eq_Inr eid split: if_split_asm)
  have step1: "ranges_wf d1 \<and> ranges_only d d1 \<and>
      covered ?i d1 = covered ?i d \<union> {dr_request_start a..<?obs} \<and>
      (\<forall>j. j \<noteq> ?i \<longrightarrow> covered j d1 = covered j d)"
  proof (cases "?obs = dr_request_start a")
    case True
    then have "row_bytes a = {}" using aok by (auto simp: row_bytes_def)
    with covered_delete_empty [OF assms(2) dist] w True dr_delete_wf [OF assms(1)]
      ranges_only_writes(3) [of d k]
    show ?thesis by (auto simp: max_def split: if_split_asm)
  next
    case False
    let ?r = "closed_at_prefix now (a\<lparr>dr_served_end_exclusive := ?obs\<rparr>)"
    have "dr_id ?r = k" "dr_quota_entry_id ?r = ?i" "row_bytes ?r = {dr_request_start a..<?obs}"
      by (simp_all add: closed_at_prefix_def row_bytes_def kid)
    moreover have "row_bytes a \<subseteq> {dr_request_start a..<?obs}" by (auto simp: row_bytes_def)
    ultimately show ?thesis
      using flush_prefix [of ?r d d1 a] w False assms(1,2) by simp
  qed
  then have "keeps_evidence d1 d2" and len: "length (closed_of ?i d2) \<le> MAX_CLOSED_FRAGMENTS"
    using compact_closed_keeps [OF cmp] by blast+
  then have step2: "ranges_wf d2" "ranges_only d d2" "\<forall>j. covered j d2 = covered j d1"
    using step1 ranges_only_trans by (auto simp: keeps_evidence_def)
  have "row_by qe_id (qe_id e) (quota_entries d2) = Some e"
    using ranges_only_tables [OF step2(2)] assms(4) eid by simp
  note fin = consume_if_complete_spec [OF cons this size(2)]
  have "ranges d' = ranges d2 \<and> (\<exists>e''. row_by qe_id ?i (quota_entries d') = Some e'' \<and>
      qe_state e'' = qe_state e')"
    using last
  proof
    assume "d' = d3" with fin eid show ?thesis by auto
  next
    assume fl: "qe_state e' = Q_RESERVED \<and> qe_flush (e'\<lparr>qe_reservation_expires_at :=
                  reservation_after job (lock_ranges (qe_id e') d3)\<rparr>) d3 = Inr d'"
    have "row_by qe_id (qe_id (e'\<lparr>qe_reservation_expires_at :=
                  reservation_after job (lock_ranges (qe_id e') d3)\<rparr>)) (quota_entries d3) = Some e'"
      using fin by simp
    from qe_flush_row [OF fl [THEN conjunct2] this] fin eid show ?thesis by auto
  qed
  then obtain e'' where rng: "ranges d' = ranges d2"
    and e'': "row_by qe_id ?i (quota_entries d') = Some e''" "qe_state e'' = qe_state e'" by blast
  have cov: "covered j d' = covered j d1" for j using covered_ranges [OF rng] step2(3) by simp
  have "accounts d d2"
    using accounts_same [OF ranges_only_same [OF step2(2)]] step1 step2(3) by (metis Un_upper1 order_refl)
  moreover have "accounts d2 d3"
    using consume_if_complete_accounts [OF cons _ size(2)] ctx same ranges_only_tables [OF step2(2)] eid
    by simp
  moreover have "accounts d3 d'"
    using last
  proof
    assume "d' = d3" then show ?thesis by (simp add: accounts_refl)
  next
    assume fl: "qe_state e' = Q_RESERVED \<and> qe_flush (e'\<lparr>qe_reservation_expires_at :=
                  reservation_after job (lock_ranges (qe_id e') d3)\<rparr>) d3 = Inr d'"
    have row3: "row_by qe_id (qe_id e') (quota_entries d3) = Some e'" using fin by simp
    have "same_accounts d3 d'"
      by (rule flush_same [OF fl [THEN conjunct2], of e']) (simp_all add: row3)
    moreover have "covered j d3 \<subseteq> covered j d'" for j
      using fl by (simp add: qe_flush_Inr covered_def)
    ultimately show ?thesis by (rule accounts_same)
  qed
  ultimately have acc: "accounts d d'" using accounts_trans by blast
  have closed: "closed_of ?i d' = closed_of ?i d2" and wf': "ranges_wf d'"
    using step2(1) by (simp_all add: closed_of_def ranges_wf_def rng)
  have full: "covered ?i d2 = covered ?i d'" using cov step2(3) by simp
  show ?thesis
  proof (intro conjI)
    show "covered ?i d' = covered ?i d \<union> {dr_request_start a..<?obs}" using step1 cov by simp
    show "\<forall>j. j \<noteq> ?i \<longrightarrow> covered j d' = covered j d" using step1 cov by simp
    show "length (closed_of ?i d') \<le> MAX_CLOSED_FRAGMENTS" using len closed by simp
    show "ranges_wf d'" by (rule wf')
    show "ar_consumed res \<longleftrightarrow> qe_state e = Q_RESERVED \<and> covered ?i d' = {0..<dr_artifact_bytes a}"
      using fin full eid size(1) by simp
    show "\<exists>e'. row_by qe_id ?i (quota_entries d') = Some e' \<and>
        (qe_state e' = Q_CONSUMED \<longleftrightarrow> qe_state e = Q_CONSUMED \<or> ar_consumed res)"
      using e'' fin by simp
    show "accounts d d'" by (rule acc)
  qed
qed

lemma checkpoint_core:
  assumes "ranges_wf d" and "row_by dr_id k (ranges d) = Some a"
    and "row_by qe_id (dr_quota_entry_id a) (quota_entries d) = Some e"
    and "checkpoint k observed now d = Inr (res, d')"
  shows "covered (dr_quota_entry_id a) d' = covered (dr_quota_entry_id a) d \<union>
           {dr_request_start a..<max observed (dr_served_end_exclusive a)} \<and>
     (\<forall>j. j \<noteq> dr_quota_entry_id a \<longrightarrow> covered j d' = covered j d) \<and> ranges_wf d' \<and>
     (ar_consumed res \<longleftrightarrow> qe_state e = Q_RESERVED \<and>
        covered (dr_quota_entry_id a) d' = {0..<dr_artifact_bytes a}) \<and>
     (\<exists>e'. row_by qe_id (dr_quota_entry_id a) (quota_entries d') = Some e' \<and>
        (qe_state e' = Q_CONSUMED \<longleftrightarrow> qe_state e = Q_CONSUMED \<or> ar_consumed res)) \<and> accounts d d'"
proof -
  let ?i = "dr_quota_entry_id a" and ?obs = "max observed (dr_served_end_exclusive a)"
  have kid: "dr_id a = k" and aok: "range_ok a"
    using row_by_SomeD [OF assms(2)] assms(1) by (auto simp: ranges_wf_def)
  have eid: "qe_id e = ?i" using row_by_SomeD [OF assms(3)] by simp
  from assms(4) obtain job e0 a0 where locked: "lock_attempt_context k False d = Inr (Some (job, e0, a0))"
    by (auto simp: checkpoint_def andThen_eq_Inr split: option.splits)
  note ctx = lock_attempt_contextD [OF locked]
  have same: "e0 = e" "a0 = a" using ctx assms(2,3) by auto
  have size: "artifact_size job = dr_artifact_bytes a" "0 < artifact_size job"
    using ctx same aok by (auto simp: range_ok_def)
  let ?lease = "now + seconds DELIVERY_ATTEMPT_LEASE_SECONDS"
  let ?r = "a\<lparr>dr_served_end_exclusive := ?obs, dr_lease_expires_at := Some ?lease\<rparr>"
  let ?e = "if qe_state e = Q_RESERVED
            then e\<lparr>qe_reservation_expires_at := max (qe_reservation_expires_at e) ?lease\<rparr> else e"
  from assms(4) locked same obtain d1 d2 e' where
    w: "dr_flush ?r d = Inr d1" and f: "qe_flush ?e d1 = Inr d2"
    and cons: "consume_if_complete job ?e now d2 = Inr (res, e', d')"
    by (auto simp: checkpoint_def Let_def andThen_eq_Inr split: if_split_asm)
  have "dr_id ?r = k" "dr_quota_entry_id ?r = ?i" "row_bytes ?r = {dr_request_start a..<?obs}"
    by (simp_all add: row_bytes_def kid)
  moreover have "row_bytes a \<subseteq> {dr_request_start a..<?obs}" by (auto simp: row_bytes_def)
  ultimately have step1: "ranges_wf d1 \<and> ranges_only d d1 \<and>
      covered ?i d1 = covered ?i d \<union> {dr_request_start a..<?obs} \<and>
      (\<forall>j. j \<noteq> ?i \<longrightarrow> covered j d1 = covered j d)"
    using flush_prefix [OF w assms(1), of a] assms(2) by simp
  have row1: "row_by qe_id (qe_id ?e) (quota_entries d1) = Some e"
    using ranges_only_tables [of d d1] step1 assms(3) eid by simp
  note fl = qe_flush_row [OF f row1]
  have st: "qe_state ?e = qe_state e" "qe_id ?e = ?i" by (simp_all add: eid)
  note fin = consume_if_complete_spec [OF cons fl [THEN conjunct1] size(2), unfolded st]
  have rng: "ranges d' = ranges d1" using fin fl by simp
  have cov: "covered j d' = covered j d1" and cov2: "covered j d2 = covered j d1" for j
    using covered_ranges [OF rng] covered_ranges [of d2 d1] fl by simp_all
  have "accounts d d1"
    using accounts_same [OF ranges_only_same] step1 by (metis Un_upper1 order_refl)
  moreover have "accounts d1 d2"
    using flush_same [OF f, of e] row1 cov2
    by (intro accounts_same) (auto simp: eid)
  moreover have "row_by dj_id (qe_download_job_id ?e) (download_jobs d2) = Some job"
    using ctx same ranges_only_tables [of d d1] step1 f by (simp add: qe_flush_Inr)
  then have "accounts d2 d'"
    using consume_if_complete_accounts [OF cons _ size(2)] fl by simp
  ultimately have acc: "accounts d d'" using accounts_trans by blast
  have "ranges_wf d'" using step1 rng by (simp add: ranges_wf_def)
  then show ?thesis
    using step1 fin cov cov2 size(1) acc by (intro conjI) auto
qed

text \<open>C6. Closing a delivery attempt accounts for exactly what was sent: the evidence of its
  entry grows by the bytes from the requested start to the observed end (never less than was
  recorded before) and no other entry's evidence changes; at most 64 closed rows remain; and the
  download is consumed if and only if it was reserved and every byte of the artifact has now
  been served.\<close>

theorem finalize_accounts_exactly:
  assumes "ranges_wf d" and "row_by dr_id k (ranges d) = Some a" and "dr_state a = R_ACTIVE"
    and "row_by qe_id (dr_quota_entry_id a) (quota_entries d) = Some e"
    and "finalize fresh k observed now d = Inr (res, d')"
  shows "covered (dr_quota_entry_id a) d' = covered (dr_quota_entry_id a) d \<union>
           {dr_request_start a..<max observed (dr_served_end_exclusive a)} \<and>
     (\<forall>j. j \<noteq> dr_quota_entry_id a \<longrightarrow> covered j d' = covered j d) \<and>
     length (closed_of (dr_quota_entry_id a) d') \<le> MAX_CLOSED_FRAGMENTS \<and> ranges_wf d' \<and>
     (ar_consumed res \<longleftrightarrow> qe_state e = Q_RESERVED \<and>
        covered (dr_quota_entry_id a) d' = {0..<dr_artifact_bytes a}) \<and>
     (\<exists>e'. row_by qe_id (dr_quota_entry_id a) (quota_entries d') = Some e' \<and>
        (qe_state e' = Q_CONSUMED \<longleftrightarrow> qe_state e = Q_CONSUMED \<or> ar_consumed res))"
  using finalize_core [OF assms] by blast

text \<open>A checkpoint advances the evidence of the attempt's entry to the observed end and touches
  no other entry's evidence; the download is consumed if and only if it was reserved and every
  byte of the artifact has now been served.\<close>

theorem checkpoint_accounts_exactly:
  assumes "ranges_wf d" and "row_by dr_id k (ranges d) = Some a"
    and "row_by qe_id (dr_quota_entry_id a) (quota_entries d) = Some e"
    and "checkpoint k observed now d = Inr (res, d')"
  shows "covered (dr_quota_entry_id a) d' = covered (dr_quota_entry_id a) d \<union>
           {dr_request_start a..<max observed (dr_served_end_exclusive a)} \<and>
     (\<forall>j. j \<noteq> dr_quota_entry_id a \<longrightarrow> covered j d' = covered j d) \<and> ranges_wf d' \<and>
     (ar_consumed res \<longleftrightarrow> qe_state e = Q_RESERVED \<and>
        covered (dr_quota_entry_id a) d' = {0..<dr_artifact_bytes a}) \<and>
     (\<exists>e'. row_by qe_id (dr_quota_entry_id a) (quota_entries d') = Some e' \<and>
        (qe_state e' = Q_CONSUMED \<longleftrightarrow> qe_state e = Q_CONSUMED \<or> ar_consumed res))"
  using checkpoint_core [OF assms] by blast

section \<open>Beginning an attempt\<close>

definition new_attempt ::
  "uuid \<Rightarrow> quota_entry \<Rightarrow> download_job \<Rightarrow> int \<Rightarrow> int \<Rightarrow> time \<Rightarrow> delivery_range" where
  "new_attempt fresh entry job start stop now =
     \<lparr>dr_id = fresh, dr_quota_entry_id = qe_id entry, dr_artifact_id = the (dj_artifact_id job),
      dr_fence_token = dj_fence_token job, dr_artifact_bytes = artifact_size job,
      dr_request_start = start, dr_request_end_exclusive = stop,
      dr_served_end_exclusive = start, dr_state = R_ACTIVE, dr_started_at = now,
      dr_lease_expires_at = Some (now + seconds DELIVERY_ATTEMPT_LEASE_SECONDS),
      dr_closed_at = None\<rparr>"

lemma begin_attemptD:
  assumes "begin_attempt fresh fr snap tier start stop reval now d = Inr (Some att, d')"
  shows "\<exists>job entry d1 d2 d3.
     lock_entry_for_download (dj_id snap) d = Some entry \<and> qe_state entry = Q_RESERVED \<and>
     row_by dj_id (dj_id snap) (download_jobs d) = Some job \<and>
     close_stale now (lock_ranges (qe_id entry) d) d = Inr d1 \<and>
     compact_closed fr (qe_id entry) (lock_ranges (qe_id entry) d1) now d1 = Inr d2 \<and>
     begin_bounds (lock_ranges (qe_id entry) d2) start stop = Inr () \<and>
     dr_insert (new_attempt fresh entry job start stop now) d2 = Inr d3 \<and>
     qe_flush (entry\<lparr>qe_reservation_expires_at :=
       max (qe_reservation_expires_at entry) (now + seconds DELIVERY_ATTEMPT_LEASE_SECONDS)\<rparr>) d3 = Inr d'"
  using assms
  by (auto simp: begin_attempt_def new_attempt_def Let_def andThen_eq_Inr
      split: if_split_asm option.splits)

lemma begin_attempt_NoneD:
  "begin_attempt fresh fr snap tier start stop reval now d = Inr (None, d') \<Longrightarrow> d' = d"
  by (auto simp: begin_attempt_def Let_def andThen_eq_Inr split: if_split_asm option.splits)

definition active_of :: "uuid \<Rightarrow> db \<Rightarrow> delivery_range list" where
  "active_of i d = filter (\<lambda>r. dr_quota_entry_id r = i \<and> dr_state r = R_ACTIVE) (ranges d)"

lemma length_filter_lock_active:
  "length (filter (\<lambda>r. dr_state r = R_ACTIVE) (lock_ranges i d)) = length (active_of i d)"
  by (simp add: lock_ranges_def length_filter_order_by active_of_def conj_commute)

lemma entry_by_id:
  "distinct (map qe_id (quota_entries d)) \<Longrightarrow> lock_entry_for_download j d = Some e \<Longrightarrow>
     row_by qe_id (qe_id e) (quota_entries d) = Some e"
  unfolding lock_entry_for_download_def using row_by_SomeD row_by_Some_iff by metis

text \<open>Beginning a delivery proves nothing about bytes and stays within the bounds: no entry's
  evidence changes, the new attempt is stored active with nothing served, the entry has at most
  16 active and 64 closed rows, it is still reserved, and its reservation outlives the
  attempt's lease.\<close>

theorem begin_attempt_bounded:
  assumes "ranges_wf d" and "distinct (map qe_id (quota_entries d))"
    and "begin_attempt fresh fr snap tier start stop reval now d = Inr (Some att, d')"
  shows "\<exists>e e' r. lock_entry_for_download (dj_id snap) d = Some e \<and> (\<forall>j. covered j d' = covered j d) \<and>
     ranges_wf d' \<and> row_by dr_id fresh (ranges d') = Some r \<and> dr_quota_entry_id r = qe_id e \<and>
     dr_state r = R_ACTIVE \<and> dr_request_start r = start \<and> dr_request_end_exclusive r = stop \<and>
     row_bytes r = {} \<and> length (active_of (qe_id e) d') \<le> MAX_ACTIVE_ATTEMPTS \<and>
     length (closed_of (qe_id e) d') \<le> MAX_CLOSED_FRAGMENTS \<and>
     row_by qe_id (qe_id e) (quota_entries d') = Some e' \<and> qe_state e' = Q_RESERVED \<and>
     dr_lease_expires_at r = Some (now + seconds 600) \<and>
     now + seconds 600 \<le> qe_reservation_expires_at e'"
proof -
  obtain job e d1 d2 d3 where e: "lock_entry_for_download (dj_id snap) d = Some e" "qe_state e = Q_RESERVED"
    and c: "close_stale now (lock_ranges (qe_id e) d) d = Inr d1"
    and cmp: "compact_closed fr (qe_id e) (lock_ranges (qe_id e) d1) now d1 = Inr d2"
    and bnd: "begin_bounds (lock_ranges (qe_id e) d2) start stop = Inr ()"
    and ins: "dr_insert (new_attempt fresh e job start stop now) d2 = Inr d3"
    and fl: "qe_flush (e\<lparr>qe_reservation_expires_at :=
       max (qe_reservation_expires_at e) (now + seconds DELIVERY_ATTEMPT_LEASE_SECONDS)\<rparr>) d3 = Inr d'"
    using begin_attemptD [OF assms(3)] by blast
  let ?i = "qe_id e" and ?r = "new_attempt fresh e job start stop now"
  have dist: "distinct (map dr_id (ranges d))" using assms(1) by (simp add: ranges_wf_def)
  have k1: "keeps_evidence d d1"
    by (rule close_stale_keeps [OF c assms(1) distinct_lock_ranges [OF dist]])
      (use lock_ranges_stored [OF assms(1)] in blast)
  then have "ranges_wf d1" by (simp add: keeps_evidence_def)
  from compact_closed_keeps [OF cmp this] have k2: "keeps_evidence d1 d2"
    and len: "length (closed_of ?i d2) \<le> MAX_CLOSED_FRAGMENTS" by blast+
  have k: "ranges_wf d2" "ranges_only d d2" "\<forall>j. covered j d2 = covered j d"
    using keeps_evidence_trans [OF k1 k2] by (auto simp: keeps_evidence_def)
  have d3: "d3 = d2\<lparr>ranges := ranges d2 @ [?r]\<rparr>" "dr_id ?r \<notin> dr_id ` set (ranges d2)"
    using ins by (auto simp: dr_insert_def split: if_split_asm)
  have r: "dr_id ?r = fresh" "dr_quota_entry_id ?r = ?i" "dr_state ?r = R_ACTIVE"
    "row_bytes ?r = {}" "dr_request_start ?r = start" "dr_request_end_exclusive ?r = stop"
    "dr_lease_expires_at ?r = Some (now + seconds 600)"
    by (simp_all add: new_attempt_def row_bytes_def DELIVERY_ATTEMPT_LEASE_SECONDS_def)
  have act: "length (active_of ?i d2) < MAX_ACTIVE_ATTEMPTS"
    using bnd length_filter_lock_active [of ?i d2]
    by (simp add: begin_bounds_def Let_def split: if_split_asm)
  let ?e = "e\<lparr>qe_reservation_expires_at :=
       max (qe_reservation_expires_at e) (now + seconds DELIVERY_ATTEMPT_LEASE_SECONDS)\<rparr>"
  have "row_by qe_id ?i (quota_entries d) = Some e" by (rule entry_by_id [OF assms(2) e(1)])
  then have "row_by qe_id (qe_id ?e) (quota_entries d3) = Some e"
    using ranges_only_tables [OF k(2)] d3(1) by simp
  note f = qe_flush_row [OF fl this]
  have rng: "ranges d' = ranges d2 @ [?r]" using f d3(1) by simp
  have "covered j d' = covered j d" for j
    using dr_insert_covered [OF ins, of j] covered_ranges [of d' d3 j] f k(3) r by (simp split: if_splits)
  moreover have "ranges_wf d'"
    using dr_insert_wf [OF ins k(1)] f by (simp add: ranges_wf_def)
  moreover have "row_by dr_id fresh (ranges d') = Some ?r"
    using d3(2) r(1) by (simp add: rng row_by_append row_by_Cons row_by_None_iff split: option.splits)
      (metis row_by_None_iff option.distinct(1))
  moreover have "length (active_of ?i d') \<le> MAX_ACTIVE_ATTEMPTS"
    using act by (simp add: active_of_def rng r)
  moreover have "length (closed_of ?i d') \<le> MAX_CLOSED_FRAGMENTS"
    using len by (simp add: closed_of_def rng r)
  moreover have "row_by qe_id ?i (quota_entries d') = Some ?e" using f by simp
  moreover have "qe_state ?e = Q_RESERVED" "now + seconds 600 \<le> qe_reservation_expires_at ?e"
    using e(2) by (simp_all add: DELIVERY_ATTEMPT_LEASE_SECONDS_def)
  ultimately show ?thesis using e(1) r by blast
qed

section \<open>Runs of the ledger\<close>

inductive ledger_step :: "db \<Rightarrow> db \<Rightarrow> bool" where
  begins: "begin_attempt fresh fr snap tier start stop reval now d = Inr (r, d') \<Longrightarrow> ledger_step d d'"
| checkpoints: "checkpoint k observed now d = Inr (r, d') \<Longrightarrow> ledger_step d d'"
| finalizes: "finalize fr k observed now d = Inr (r, d') \<Longrightarrow> ledger_step d d'"
| reconciles: "row_by qe_id i (quota_entries d) = Some e \<Longrightarrow>
     row_by dj_id (qe_download_job_id e) (download_jobs d) = Some job \<Longrightarrow> 0 < artifact_size job \<Longrightarrow>
     reconcile_locked fr job e now d = Inr (r, d') \<Longrightarrow> ledger_step d d'"

definition ledger_wf :: "db \<Rightarrow> bool" where
  "ledger_wf d \<longleftrightarrow> ranges_wf d \<and> distinct (map qe_id (quota_entries d))"

lemma keeps_accounts: "keeps_evidence d d' \<Longrightarrow> accounts d d'"
  unfolding keeps_evidence_def using accounts_same ranges_only_same by blast

lemma keys_accounts: "accounts d d' \<Longrightarrow> ranges_wf d' \<Longrightarrow> ledger_wf d \<Longrightarrow> ledger_wf d'"
  by (simp add: accounts_def ledger_wf_def)

lemma close_lock_keeps:
  assumes "close_stale now (filter P (lock_ranges i d)) d = Inr d'" and "ranges_wf d"
  shows "keeps_evidence d d'"
proof (rule close_stale_keeps [OF assms])
  have "distinct (map dr_id (ranges d))" using assms(2) by (simp add: ranges_wf_def)
  then show "distinct (map dr_id (filter P (lock_ranges i d)))"
    by (intro distinct_map_filter_sub distinct_lock_ranges)
  show "\<forall>r \<in> set (filter P (lock_ranges i d)). row_by dr_id (dr_id r) (ranges d) = Some r"
    using lock_ranges_stored [OF assms(2)] by auto
qed

lemma begin_accounts:
  assumes "begin_attempt fresh fr snap tier start stop reval now d = Inr (Some att, d')" and "ledger_wf d"
  shows "accounts d d' \<and> ranges_wf d'"
proof -
  have wf: "ranges_wf d" and distq: "distinct (map qe_id (quota_entries d))"
    using assms(2) by (simp_all add: ledger_wf_def)
  obtain job e d1 d2 d3 where e: "lock_entry_for_download (dj_id snap) d = Some e"
    and c: "close_stale now (lock_ranges (qe_id e) d) d = Inr d1"
    and cmp: "compact_closed fr (qe_id e) (lock_ranges (qe_id e) d1) now d1 = Inr d2"
    and ins: "dr_insert (new_attempt fresh e job start stop now) d2 = Inr d3"
    and fl: "qe_flush (e\<lparr>qe_reservation_expires_at :=
       max (qe_reservation_expires_at e) (now + seconds DELIVERY_ATTEMPT_LEASE_SECONDS)\<rparr>) d3 = Inr d'"
    using begin_attemptD [OF assms(1)] by blast
  have k1: "keeps_evidence d d1"
    using close_lock_keeps [of now "\<lambda>_. True" "qe_id e" d d1] c wf by simp
  then have w1: "ranges_wf d1" by (simp add: keeps_evidence_def)
  have k: "keeps_evidence d d2"
    using keeps_evidence_trans [OF k1] compact_closed_keeps [OF cmp w1] by blast
  then have w2: "ranges_wf d2" by (simp add: keeps_evidence_def)
  have cov: "covered j d2 \<subseteq> covered j d3" for j using dr_insert_covered [OF ins, of j] by auto
  have a3: "accounts d2 d3"
    by (rule accounts_same [OF ranges_only_same [OF ranges_only_writes(2) [OF ins]] cov])
  have "ranges_only d d3"
    using k ranges_only_writes(2) [OF ins] ranges_only_trans unfolding keeps_evidence_def by blast
  then have row: "row_by qe_id (qe_id e) (quota_entries d3) = Some e"
    using ranges_only_tables [of d d3] entry_by_id [OF distq e] by simp
  have "same_accounts d3 d'"
    by (rule flush_same [OF fl, of e]) (simp_all add: row)
  then have "accounts d3 d'"
    by (rule accounts_same) (use fl in \<open>simp add: qe_flush_Inr covered_def\<close>)
  with a3 keeps_accounts [OF k] have "accounts d d'" using accounts_trans by blast
  moreover have "ranges_wf d'"
    using dr_insert_wf [OF ins w2] fl by (simp add: qe_flush_Inr ranges_wf_def)
  ultimately show ?thesis by simp
qed

lemma reconcile_accounts:
  assumes "reconcile_locked fr job e now d = Inr (res, d')" and "ledger_wf d"
    and "row_by qe_id i (quota_entries d) = Some e"
    and "row_by dj_id (qe_download_job_id e) (download_jobs d) = Some job" and "0 < artifact_size job"
  shows "accounts d d' \<and> ranges_wf d'"
proof -
  have wf: "ranges_wf d" using assms(2) by (simp add: ledger_wf_def)
  from assms(1) obtain d1 d2 e' where
    c: "close_stale now (filter (\<lambda>r. dr_state r = R_ACTIVE \<and> opt_le (dr_lease_expires_at r) now)
          (lock_ranges (qe_id e) d)) d = Inr d1"
    and cmp: "compact_closed fr (qe_id e) (lock_ranges (qe_id e) d1) now d1 = Inr d2"
    and cons: "consume_if_complete job e now d2 = Inr (res, e', d')"
    by (auto simp: reconcile_locked_def Let_def andThen_eq_Inr)
  have k1: "keeps_evidence d d1" by (rule close_lock_keeps [OF c wf])
  then have "ranges_wf d1" by (simp add: keeps_evidence_def)
  then have k: "keeps_evidence d d2"
    using keeps_evidence_trans [OF k1] compact_closed_keeps [OF cmp] by blast
  then have tabs: "quota_entries d2 = quota_entries d" "download_jobs d2 = download_jobs d" "ranges_wf d2"
    using ranges_only_tables [of d d2] by (auto simp: keeps_evidence_def)
  have "row_by qe_id (qe_id e) (quota_entries d2) = Some e"
    using assms(3) row_by_SomeD [OF assms(3)] tabs by simp
  from consume_if_complete_accounts [OF cons this assms(5)] assms(4) tabs
  have "accounts d2 d'" "ranges d' = ranges d2" by simp_all
  with keeps_accounts [OF k] tabs(3) show ?thesis
    using accounts_trans by (auto simp: ranges_wf_def)
qed

lemma finalize_accounts:
  assumes "finalize fr k observed now d = Inr (res, d')" and "ledger_wf d"
  shows "accounts d d' \<and> ranges_wf d'"
proof -
  have wf: "ranges_wf d" using assms(2) by (simp add: ledger_wf_def)
  from assms(1) obtain locked where locked: "lock_attempt_context k True d = Inr locked"
    by (auto simp: finalize_def andThen_eq_Inr)
  show ?thesis
  proof (cases locked)
    case None
    with assms(1) locked have "d' = d" by (simp add: finalize_def)
    with wf show ?thesis by (simp add: accounts_refl)
  next
    case (Some x)
    obtain job e a where x: "x = (job, e, a)" by (cases x)
    note ctx = lock_attempt_contextD [OF locked [unfolded Some x]]
    show ?thesis
    proof (cases "dr_state a")
      case R_CLOSED
      with assms(1) locked Some x have "d' = d" by (simp add: finalize_def)
      with wf show ?thesis by (simp add: accounts_refl)
    next
      case R_ACTIVE
      with finalize_core [OF wf _ _ _ assms(1), of a e] ctx show ?thesis by blast
    qed
  qed
qed

lemma checkpoint_accounts:
  assumes "checkpoint k observed now d = Inr (res, d')" and "ledger_wf d"
  shows "accounts d d' \<and> ranges_wf d'"
proof -
  have wf: "ranges_wf d" using assms(2) by (simp add: ledger_wf_def)
  from assms(1) obtain job e a where locked: "lock_attempt_context k False d = Inr (Some (job, e, a))"
    by (auto simp: checkpoint_def andThen_eq_Inr split: option.splits)
  from checkpoint_core [OF wf _ _ assms(1), of a e] lock_attempt_contextD [OF locked]
  show ?thesis by blast
qed

lemma ledger_step_accounts:
  assumes "ledger_step d d'" and "ledger_wf d"
  shows "accounts d d' \<and> ledger_wf d'"
proof -
  from assms(1) have "accounts d d' \<and> ranges_wf d'"
  proof cases
    case (begins fresh fr snap tier start stop reval now r)
    show ?thesis
    proof (cases r)
      case None
      with begins begin_attempt_NoneD have "d' = d" by blast
      with assms(2) show ?thesis by (simp add: accounts_refl ledger_wf_def)
    next
      case (Some att)
      with begins begin_accounts assms(2) show ?thesis by blast
    qed
  qed (use assms(2) in \<open>blast intro: finalize_accounts checkpoint_accounts reconcile_accounts
        dest: finalize_accounts checkpoint_accounts reconcile_accounts\<close>)+
  with keys_accounts assms(2) show ?thesis by blast
qed

lemma ledger_run_accounts:
  assumes "ledger_step\<^sup>*\<^sup>* d d'" and "ledger_wf d"
  shows "accounts d d' \<and> ledger_wf d'"
  using assms
proof (induction rule: rtranclp_induct)
  case base
  then show ?case by (simp add: accounts_refl)
next
  case (step y z)
  then have "accounts d y" "ledger_wf y" by blast+
  with ledger_step_accounts [OF step.hyps(2)] show ?case using accounts_trans by blast
qed

text \<open>C5. A Free download is paid for only when it was delivered, and always when it was proved:
  over any run of begins, checkpoints, finalizations and reconciliations the evidence of an
  entry never shrinks, the job rows are untouched, an entry changes state only from reserved to
  consumed, and when it has, every byte of the job's artifact had been served.\<close>

theorem ledger_consumes_only_full_delivery:
  assumes "ledger_step\<^sup>*\<^sup>* d d'" and "ledger_wf d" and "row_by qe_id i (quota_entries d) = Some e"
  shows "covered i d \<subseteq> covered i d' \<and> download_jobs d' = download_jobs d \<and>
     (\<exists>e'. row_by qe_id i (quota_entries d') = Some e' \<and>
        (qe_state e' = qe_state e \<or>
         (qe_state e = Q_RESERVED \<and> qe_state e' = Q_CONSUMED \<and>
          (\<exists>job. row_by dj_id (qe_download_job_id e) (download_jobs d) = Some job \<and>
                 {0..<artifact_size job} \<subseteq> covered i d'))))"
proof -
  have acc: "accounts d d'" using ledger_run_accounts [OF assms(1,2)] by blast
  then obtain e' where "row_by qe_id i (quota_entries d') = Some e'"
    and j: "qe_download_job_id e' = qe_download_job_id e"
    and st: "qe_state e' = qe_state e \<or> qe_state e = Q_RESERVED \<and> qe_state e' = Q_CONSUMED \<and> fully_served i e' d'"
    using assms(3) unfolding accounts_def by blast
  with acc show ?thesis
    unfolding accounts_def fully_served_def by (intro conjI exI [of _ e']) auto
qed

section \<open>Samples\<close>

definition sample_ready_job :: download_job where
  "sample_ready_job = sample_download_job\<lparr>dj_public_state := DJ_READY, dj_fence_token := 1,
     dj_progress_stage := PS_READY, dj_artifact_id := Some 4, dj_artifact_bytes := Some 1000,
     dj_artifact_content_type := Some ''video/mp4'', dj_artifact_container := Some ''mp4'',
     dj_completed_at := Some 5\<rparr>"

definition sample_range :: "uuid \<Rightarrow> range_state \<Rightarrow> int \<Rightarrow> int \<Rightarrow> int \<Rightarrow> delivery_range" where
  "sample_range i st b e served =
     \<lparr>dr_id = i, dr_quota_entry_id = 2, dr_artifact_id = 4, dr_fence_token = 1,
      dr_artifact_bytes = 1000, dr_request_start = b, dr_request_end_exclusive = e,
      dr_served_end_exclusive = served, dr_state = st, dr_started_at = 6,
      dr_lease_expires_at = (if st = R_ACTIVE then Some (seconds 600) else None),
      dr_closed_at = (if st = R_CLOSED then Some 7 else None)\<rparr>"

definition ledger_db :: "quota_entry list \<Rightarrow> delivery_range list \<Rightarrow> db" where
  "ledger_db es rs = empty_db\<lparr>clients := [sample_client], download_jobs := [sample_ready_job],
     quota_entries := es, ranges := rs\<rparr>"

lemmas sample_ledger_defs = sample_ready_job_def sample_range_def ledger_db_def sample_entry_def
  sample_client_def sample_download_job_def empty_db_def

definition sample_attempt :: delivery_range where
  "sample_attempt = sample_range 9 R_ACTIVE 0 1000 400"

lemma sample_ledger_wf: "ledger_wf (ledger_db [sample_entry] [sample_attempt])"
  by (simp add: ledger_wf_def ranges_wf_def range_ok_defs sample_attempt_def sample_range_def
      ledger_db_def seconds_def)

lemma sample_ledger_rows:
  "row_by dr_id 9 (ranges (ledger_db [sample_entry] [sample_attempt])) = Some sample_attempt"
  "row_by qe_id (dr_quota_entry_id sample_attempt) (quota_entries (ledger_db [sample_entry] [sample_attempt])) =
     Some sample_entry"
  by (simp_all add: row_by_def sample_attempt_def sample_range_def sample_entry_def ledger_db_def)

text \<open>The attempt is finalized after the last byte: the download is consumed.\<close>

definition sample_finalized :: db where
  "sample_finalized = ledger_db [sample_entry\<lparr>qe_state := Q_CONSUMED, qe_consumed_at := Some 9\<rparr>]
     [closed_at_prefix 9 (sample_attempt\<lparr>dr_served_end_exclusive := 1000\<rparr>)]"

lemma sample_finalize:
  "finalize (\<lambda>k. 70 + k) 9 1000 9 (ledger_db [sample_entry] [sample_attempt]) =
     Inr (consumed_result, sample_finalized)"
  by code_simp

lemma sample_checkpoint:
  "case checkpoint 9 500 9 (ledger_db [sample_entry] [sample_attempt]) of
     Inr (res, _) \<Rightarrow> res = nothing_new | Inl _ \<Rightarrow> False"
  by code_simp

lemma sample_begin:
  "case begin_attempt 8 (\<lambda>k. 70 + k) sample_ready_job None 0 10 (\<lambda>_. Inr sample_ready_job) 9
          (ledger_db [sample_entry] [sample_attempt]) of
     Inr (Some _, _) \<Rightarrow> True | _ \<Rightarrow> False"
  by code_simp

theorem finalize_accounts_exactly_witness:
  "covered 2 sample_finalized = {0..<1000} \<and> length (closed_of 2 sample_finalized) \<le> 64"
proof -
  have wf: "ranges_wf (ledger_db [sample_entry] [sample_attempt])" and st: "dr_state sample_attempt = R_ACTIVE"
    and at: "dr_quota_entry_id sample_attempt = 2" "dr_artifact_bytes sample_attempt = 1000"
    using sample_ledger_wf by (simp_all add: ledger_wf_def sample_attempt_def sample_range_def)
  note exact = finalize_accounts_exactly [OF wf sample_ledger_rows(1) st sample_ledger_rows(2)
      sample_finalize, unfolded at]
  have "ar_consumed consumed_result" by simp
  with exact have "covered 2 sample_finalized = {0..<1000}" by blast
  moreover have "length (closed_of 2 sample_finalized) \<le> 64"
    using exact unfolding MAX_CLOSED_FRAGMENTS_def by blast
  ultimately show ?thesis by blast
qed

theorem checkpoint_accounts_exactly_witness:
  "\<exists>d'. checkpoint 9 500 9 (ledger_db [sample_entry] [sample_attempt]) = Inr (nothing_new, d') \<and>
     {0..<500} \<subseteq> covered 2 d'"
proof -
  obtain d' where run: "checkpoint 9 500 9 (ledger_db [sample_entry] [sample_attempt]) = Inr (nothing_new, d')"
    using sample_checkpoint by (auto split: sum.splits)
  have "ranges_wf (ledger_db [sample_entry] [sample_attempt])" using sample_ledger_wf by (simp add: ledger_wf_def)
  from checkpoint_accounts_exactly [OF this sample_ledger_rows run]
  have "covered 2 d' = covered 2 (ledger_db [sample_entry] [sample_attempt]) \<union> {0..<500}"
    by (simp add: sample_attempt_def sample_range_def)
  with run show ?thesis by auto
qed

theorem begin_attempt_bounded_witness:
  "\<exists>att d'. begin_attempt 8 (\<lambda>k. 70 + k) sample_ready_job None 0 10 (\<lambda>_. Inr sample_ready_job) 9
       (ledger_db [sample_entry] [sample_attempt]) = Inr (Some att, d') \<and>
     length (closed_of 2 d') \<le> MAX_CLOSED_FRAGMENTS"
proof -
  obtain att d' where run: "begin_attempt 8 (\<lambda>k. 70 + k) sample_ready_job None 0 10
      (\<lambda>_. Inr sample_ready_job) 9 (ledger_db [sample_entry] [sample_attempt]) = Inr (Some att, d')"
    using sample_begin by (auto split: sum.splits option.splits)
  have "ranges_wf (ledger_db [sample_entry] [sample_attempt])"
    "distinct (map qe_id (quota_entries (ledger_db [sample_entry] [sample_attempt])))"
    using sample_ledger_wf by (simp_all add: ledger_wf_def)
  moreover have "lock_entry_for_download (dj_id sample_ready_job) (ledger_db [sample_entry] [sample_attempt]) =
      Some sample_entry" "qe_id sample_entry = 2"
    by (simp_all add: lock_entry_for_download_def row_by_def sample_ledger_defs)
  ultimately show ?thesis using begin_attempt_bounded [OF _ _ run] run by fastforce
qed

theorem ledger_consumes_only_full_delivery_witness:
  "\<exists>e'. row_by qe_id 2 (quota_entries sample_finalized) = Some e' \<and> qe_state e' = Q_CONSUMED"
proof -
  have "ledger_step\<^sup>*\<^sup>* (ledger_db [sample_entry] [sample_attempt]) sample_finalized"
    using ledger_step.finalizes [OF sample_finalize] by (rule r_into_rtranclp)
  from ledger_consumes_only_full_delivery [OF this sample_ledger_wf, of 2 sample_entry]
  show ?thesis by (simp add: row_by_def sample_entry_def ledger_db_def sample_finalized_def)
qed

end
