(* ===== verification/Content_Stream.thy ===== *)
theory Content_Stream
  imports Delivery_Ledger
begin

text \<open>
  Streaming of an artifact: the chunked reads and the pacer of \<open>delivery/stream.py\<close>, and the
  \<open>body\<close> generator of \<open>delivery/routes.py\<close>, which interleaves them with the checkpoints of the
  ledger. Clock readings and delays are rational seconds.
\<close>

section \<open>Pacing\<close>

definition new_pacer :: "int \<Rightarrow> unit res" where
  "new_pacer rate = guard_res (0 < rate) (ValueError ''rate_bytes_per_second must be a positive integer'')"

text \<open>
  \<open>pace\<close>: the new deadline and the delay to sleep (zero when there is none), from the two clock
  readings of the call.
\<close>

definition pace :: "int \<Rightarrow> int \<Rightarrow> rat \<Rightarrow> rat \<Rightarrow> rat option \<Rightarrow> (rat \<times> rat) res" where
  "pace rate byte_count now now2 deadline =
     (if byte_count < 1 then Inl (ValueError ''byte_count must be a positive integer'')
      else
        let baseline = (case deadline of None \<Rightarrow> now | Some d \<Rightarrow> max d now);
            deadline' = baseline + of_int byte_count / of_int rate;
            delay = deadline' - now2
        in Inr (deadline', if 0 < delay then delay else 0))"

text \<open>The times at which the chunks of a response are released, and the clock readings of each.\<close>

fun releases :: "int \<Rightarrow> (int \<times> rat \<times> rat) list \<Rightarrow> rat option \<Rightarrow> rat list res" where
  "releases rate [] deadline = Inr []"
| "releases rate ((n, now, now2) # chunks) deadline =
     andThen (pace rate n now now2 deadline) (\<lambda>(deadline', delay).
     andThen (releases rate chunks (Some deadline')) (\<lambda>rest. Inr ((now2 + delay) # rest)))"

section \<open>Reading a range\<close>

text \<open>\<open>os.pread\<close> of the opened artifact: offset and size to bytes, of which there may be fewer.\<close>

type_synonym pread = "int \<Rightarrow> int \<Rightarrow> bytes"

function read_range :: "pread \<Rightarrow> int \<Rightarrow> int \<Rightarrow> int \<Rightarrow> bytes list \<times> error option" where
  "read_range rd chunk_bytes offset remaining =
     (if remaining \<le> 0 then ([], None)
      else
        let chunk = rd offset (min chunk_bytes remaining)
        in if chunk = [] then ([], Some (DownloadError DOWNLOAD_STORAGE_UNAVAILABLE ''DELIVERY_SHORT_READ''))
           else
             (case read_range rd chunk_bytes (offset + int (length chunk)) (remaining - int (length chunk)) of
                (chunks, err) \<Rightarrow> (chunk # chunks, err)))"
  by pat_completeness auto
termination
  by (relation "measure (\<lambda>(_, _, _, remaining). nat remaining)") auto

declare read_range.simps [simp del]

text \<open>
  \<open>iter_fd_range\<close>: the chunks it yields, the error it ends with, and whether the descriptor was
  closed (the pacer is made before the \<open>try\<close>).
\<close>

definition iter_fd_range :: "pread \<Rightarrow> int \<Rightarrow> int \<Rightarrow> int \<Rightarrow> int option \<Rightarrow> bytes list \<times> error option \<times> bool" where
  "iter_fd_range rd start len chunk_bytes rate =
     (if chunk_bytes < 1 then ([], Some (ValueError ''chunk_bytes must be positive''), True)
      else if start < 0 \<or> len < 0 then ([], Some (ValueError ''invalid range''), True)
      else
        (case (case rate of None \<Rightarrow> Inr () | Some r \<Rightarrow> new_pacer r) of
           Inl e \<Rightarrow> ([], Some e, False)
         | Inr _ \<Rightarrow> (case read_range rd chunk_bytes start len of (chunks, err) \<Rightarrow> (chunks, err, True))))"

text \<open>What \<open>pread\<close> promises of an open file with the given content.\<close>

definition pread_law :: "bytes \<Rightarrow> pread \<Rightarrow> bool" where
  "pread_law content rd \<longleftrightarrow>
     (\<forall>off n. 0 \<le> off \<and> 0 < n \<longrightarrow>
        (\<exists>k. int k \<le> n \<and> rd off n = take k (drop (nat off) content) \<and>
             (off < int (length content) \<longrightarrow> 0 < k)))"

lemma read_range_spec:
  assumes law: "pread_law content rd" and "1 \<le> chunk_bytes" and "0 \<le> offset"
    and "read_range rd chunk_bytes offset remaining = (chunks, err)"
  shows "(\<forall>c \<in> set chunks. c \<noteq> [] \<and> int (length c) \<le> chunk_bytes) \<and>
    concat chunks = take (nat remaining) (drop (nat offset) content) \<and>
    err = (if offset + remaining \<le> int (length content) \<or> remaining \<le> 0 then None
       else Some (DownloadError DOWNLOAD_STORAGE_UNAVAILABLE ''DELIVERY_SHORT_READ''))"
  using assms(3,4)
proof (induction "nat remaining" arbitrary: offset remaining chunks err rule: less_induct)
  case less
  show ?case
  proof (cases "remaining \<le> 0")
    case True
    with less.prems show ?thesis by (simp add: read_range.simps)
  next
    case pos: False
    define c where "c = rd offset (min chunk_bytes remaining)"
    from law pos assms(2) less.prems(1) obtain k where k: "int k \<le> min chunk_bytes remaining"
      "c = take k (drop (nat offset) content)" "offset < int (length content) \<longrightarrow> 0 < k"
      unfolding pread_law_def c_def by (metis leI min_less_iff_conj less_le_trans zero_less_one)
    show ?thesis
    proof (cases "c = []")
      case True
      with k(2,3) less.prems(1) have "int (length content) \<le> offset" by (cases "offset < int (length content)") auto
      moreover from this less.prems(1) have "drop (nat offset) content = []" by simp
      moreover have "chunks = [] \<and> err = Some (DownloadError DOWNLOAD_STORAGE_UNAVAILABLE ''DELIVERY_SHORT_READ'')"
        using less.prems(2) pos True by (simp add: read_range.simps [of rd] c_def [symmetric] Let_def)
      ultimately show ?thesis using pos by simp
    next
      case False
      let ?l = "int (length c)"
      obtain cs where rest: "read_range rd chunk_bytes (offset + ?l) (remaining - ?l) = (cs, err)"
        and ch: "chunks = c # cs"
        using less.prems(2) pos False
        by (auto simp: read_range.simps [of rd _ offset] c_def [symmetric] Let_def split: prod.splits)
      have l: "0 < ?l" "?l \<le> int k" "?l \<le> int (length content) - offset" "length c \<le> nat remaining"
        using False k less.prems(1) by auto
      have small: "nat (remaining - ?l) < nat remaining" using l(1) pos by linarith
      note ih = less.hyps [OF small _ rest]
      have off: "0 \<le> offset + ?l" using less.prems(1) by simp
      have "c = take (length c) (drop (nat offset) content)" using k(2) by (metis length_take min_def take_all_iff take_take linear)
      moreover have "nat (offset + ?l) = nat offset + length c" "nat (remaining - ?l) = nat remaining - length c"
        using less.prems(1) by auto
      ultimately have "c @ take (nat (remaining - ?l)) (drop (nat (offset + ?l)) content) =
          take (length c + (nat remaining - length c)) (drop (nat offset) content)"
        by (metis take_add drop_drop add.commute)
      moreover have "length c + (nat remaining - length c) = nat remaining" using l(4) by simp
      moreover have "remaining - ?l \<le> 0 \<longrightarrow> offset + remaining \<le> int (length content)" using l(3) by linarith
      ultimately show ?thesis using ih [OF off] k(1) l(2) ch pos False by auto
    qed
  qed
qed

section \<open>No bursts\<close>

lemma releases_length: "releases rate chunks dl = Inr rs \<Longrightarrow> length rs = length chunks"
  by (induction rate chunks dl arbitrary: rs rule: releases.induct) (auto simp: andThen_eq_Inr)

lemma releases_drop:
  "releases rate chunks dl = Inr rs \<Longrightarrow> i \<le> length chunks \<Longrightarrow> \<exists>dl'. releases rate (drop i chunks) dl' = Inr (drop i rs)"
proof (induction i arbitrary: chunks dl rs)
  case (Suc i)
  then obtain n now now2 tail where c: "chunks = (n, now, now2) # tail" by (cases chunks) auto
  with Suc.prems(1) obtain dl' r rest where "releases rate tail (Some dl') = Inr rest" "rs = r # rest"
    by (auto simp: andThen_eq_Inr)
  with Suc.IH Suc.prems(2) c show ?case by auto
qed auto

definition chunk_bytes_of :: "(int \<times> rat \<times> rat) list \<Rightarrow> int" where
  "chunk_bytes_of chunks = sum_list (map fst chunks)"

lemma releases_from_start:
  assumes "0 < rate"
  shows "releases rate ((n, a, b) # tail) dl = Inr rs \<Longrightarrow> j \<le> length tail \<Longrightarrow>
    of_int (chunk_bytes_of (take (Suc j) ((n, a, b) # tail))) \<le>
      of_int rate * (rs ! j - (case dl of None \<Rightarrow> a | Some d \<Rightarrow> max d a))"
proof (induction tail arbitrary: n a b dl rs j)
  case (Nil n a b dl rs j)
  define base where "base = (case dl of None \<Rightarrow> a | Some d \<Rightarrow> max d a)"
  have "hd rs \<ge> base + of_int n / of_int rate" "j = 0" "rs \<noteq> []"
    using Nil by (auto simp: andThen_eq_Inr pace_def Let_def base_def split: if_split_asm)
  moreover from this(1) have "of_int rate * (of_int n / of_int rate) \<le> of_int rate * (hd rs - base)"
    using assms by (intro mult_left_mono) auto
  ultimately show ?case
    using assms by (simp add: chunk_bytes_of_def base_def [symmetric] hd_conv_nth)
next
  case (Cons x tail n a b dl rs j)
  obtain m a' b' where x: "x = (m, a', b')" by (cases x)
  define base where "base = (case dl of None \<Rightarrow> a | Some d \<Rightarrow> max d a)"
  define top where "top = base + of_int n / of_int rate"
  obtain r rest where rest: "releases rate (x # tail) (Some top) = Inr rest" and rs: "rs = r # rest" and r: "top \<le> r"
    using Cons.prems(1) by (auto simp: andThen_eq_Inr pace_def Let_def base_def top_def split: if_split_asm)
  have step: "of_int rate * (top - base) = of_int n" using assms by (simp add: top_def)
  show ?case
  proof (cases j)
    case 0
    have "of_int rate * (top - base) \<le> of_int rate * (r - base)"
      using r assms by (intro mult_left_mono) auto
    with step 0 rs show ?thesis by (simp add: chunk_bytes_of_def base_def)
  next
    case (Suc i)
    have "of_int (chunk_bytes_of (take (Suc i) (x # tail))) \<le> of_int rate * (rest ! i - max top a')"
      using Cons.IH [OF rest [unfolded x], of i] Cons.prems(2) Suc x by simp
    also have "\<dots> \<le> of_int rate * (rest ! i - top)" using assms by (intro mult_left_mono) auto
    finally have "of_int (chunk_bytes_of (take (Suc i) (x # tail))) + of_int n \<le> of_int rate * (rest ! i - base)"
      using step by (simp add: algebra_simps)
    then show ?thesis using Suc rs by (simp add: chunk_bytes_of_def add.commute base_def)
  qed
qed

text \<open>C22. A paced response never bursts, not even after a stall: between the moment the pacer is asked
  for one chunk and the release of that or any later chunk, at most the rate times the elapsed
  seconds of bytes are released.\<close>

theorem pacer_never_bursts:
  assumes "0 < rate" and "releases rate chunks None = Inr rs" and "i \<le> j" and "j < length chunks"
  shows "of_int (chunk_bytes_of (take (Suc j - i) (drop i chunks))) \<le> of_int rate * (rs ! j - fst (snd (chunks ! i)))"
proof -
  have len: "length rs = length chunks" by (rule releases_length [OF assms(2)])
  obtain dl where dl: "releases rate (drop i chunks) dl = Inr (drop i rs)"
    using releases_drop [OF assms(2)] assms(3,4) by (meson le_trans less_imp_le)
  obtain n a b where x: "chunks ! i = (n, a, b)" by (cases "chunks ! i")
  have split: "drop i chunks = (n, a, b) # drop (Suc i) chunks"
    using assms(3,4) by (simp add: Cons_nth_drop_Suc [symmetric] x)
  have "of_int (chunk_bytes_of (take (Suc (j - i)) (drop i chunks))) \<le>
      of_int rate * (drop i rs ! (j - i) - (case dl of None \<Rightarrow> a | Some d \<Rightarrow> max d a))"
    using releases_from_start [OF assms(1) dl [unfolded split], of "j - i"] assms(3,4) split by simp
  also have "\<dots> \<le> of_int rate * (rs ! j - a)"
    using assms len by (intro mult_left_mono) (auto split: option.splits)
  finally show ?thesis using assms(3) by (simp add: x Suc_diff_le)
qed

section \<open>The body of a response\<close>

definition DELIVERY_CHECKPOINT_BYTES :: int where
  "DELIVERY_CHECKPOINT_BYTES = 8 * 1024 * 1024"

definition DELIVERY_CHECKPOINT_SECONDS :: rat where
  "DELIVERY_CHECKPOINT_SECONDS = 30"

text \<open>
  What becomes of a chunk that was yielded: the client takes it, after which the generator reads
  the monotonic clock (and a checkpoint, if one is due, the clock of the database), or the
  client is gone and the generator is cancelled at the \<open>yield\<close>.
\<close>

datatype chunk_fate = Taken rat time | Dropped

record body_state =
  bs_observed_end :: int
  bs_checkpoint_end :: int
  bs_checkpoint_at :: rat

definition checkpoint_due :: "body_state \<Rightarrow> rat \<Rightarrow> bool" where
  "checkpoint_due s now_mono \<longleftrightarrow>
     bs_observed_end s - bs_checkpoint_end s \<ge> DELIVERY_CHECKPOINT_BYTES \<or>
     now_mono - bs_checkpoint_at s \<ge> DELIVERY_CHECKPOINT_SECONDS"

text \<open>
  The loop over the chunks: \<open>k\<close> numbers them, \<open>others k\<close> is what other transactions commit before
  the \<open>k\<close>-th checkpoint, \<open>err\<close> the error the reader ends with.
\<close>

fun body_loop ::
  "(nat \<Rightarrow> db \<Rightarrow> db) \<Rightarrow> (nat \<Rightarrow> chunk_fate) \<Rightarrow> uuid option \<Rightarrow> error option \<Rightarrow> nat \<Rightarrow> bytes list \<Rightarrow>
     body_state \<Rightarrow> db \<Rightarrow> body_state \<times> error option \<times> db" where
  "body_loop others fate attempt err k [] s d = (s, err, d)"
| "body_loop others fate attempt err k (chunk # chunks) s d =
     (case fate k of
        Dropped \<Rightarrow> (s, Some (UncaughtError ''CancelledError''), d)
      | Taken now_mono now \<Rightarrow>
          let s1 = s\<lparr>bs_observed_end := bs_observed_end s + int (length chunk)\<rparr>
          in case attempt of
               Some a \<Rightarrow>
                 if checkpoint_due s1 now_mono
                 then (case checkpoint a (bs_observed_end s1) now (others k d) of
                         Inl e \<Rightarrow> (s1, Some e, others k d)
                       | Inr (_, d') \<Rightarrow>
                           body_loop others fate attempt err (Suc k) chunks
                             (s1\<lparr>bs_checkpoint_end := bs_observed_end s1, bs_checkpoint_at := now_mono\<rparr>) d')
                 else body_loop others fate attempt err (Suc k) chunks s1 d
             | None \<Rightarrow> body_loop others fate attempt err (Suc k) chunks s1 d)"

text \<open>
  The generator with its \<open>finally\<close>: the attempt is finalized at the observed end in a transaction of
  its own; when that fails or times out it is rolled back and only logged.
\<close>

definition stream_body ::
  "(nat \<Rightarrow> uuid) \<Rightarrow> (nat \<Rightarrow> db \<Rightarrow> db) \<Rightarrow> (nat \<Rightarrow> chunk_fate) \<Rightarrow> uuid option \<Rightarrow> bytes list \<times> error option \<Rightarrow>
     int \<Rightarrow> rat \<Rightarrow> bool \<Rightarrow> time \<Rightarrow> db \<Rightarrow> body_state \<times> error option \<times> db" where
  "stream_body fresh others fate attempt content start began timely now d =
     (case body_loop others fate attempt (snd content) 0 (fst content)
             \<lparr>bs_observed_end = start, bs_checkpoint_end = start, bs_checkpoint_at = began\<rparr> d of
        (s, err, d1) \<Rightarrow>
          (case attempt of
             None \<Rightarrow> (s, err, d1)
           | Some a \<Rightarrow>
               let d2 = others (length (fst content)) d1
               in (case finalize fresh a (bs_observed_end s) now d2 of
                     Inr (_, d3) \<Rightarrow> (s, err, if timely then d3 else d2)
                   | Inl _ \<Rightarrow> (s, err, d2))))"

section \<open>What a stream relies on\<close>

text \<open>
  The rows an open attempt depends on: the attempt itself with its range, its reserved or consumed
  entry, the entry's client and ready job, and evidence of one generation. \<open>t\<close> bounds the
  times recorded so far.
\<close>

definition serving :: "uuid \<Rightarrow> int \<Rightarrow> int \<Rightarrow> time \<Rightarrow> uuid \<Rightarrow> uuid \<Rightarrow> download_job \<Rightarrow> db \<Rightarrow> bool" where
  "serving k start stop t fresh i job d \<longleftrightarrow>
     ranges_wf d \<and> fresh \<notin> dr_id ` set (ranges d) \<and>
     (\<forall>r \<in> set (lock_ranges i d). dr_artifact_id r = the (dj_artifact_id job) \<and>
        dr_fence_token r = dj_fence_token job \<and> dr_artifact_bytes r = artifact_size job \<and> dr_started_at r \<le> t) \<and>
     dj_public_state job = DJ_READY \<and> dj_artifact_id job \<noteq> None \<and>
     (\<exists>a e. row_by dr_id k (ranges d) = Some a \<and> dr_quota_entry_id a = i \<and> dr_state a = R_ACTIVE \<and>
        dr_request_start a = start \<and> dr_request_end_exclusive a = stop \<and>
        row_by qe_id i (quota_entries d) = Some e \<and> entry_ok e \<and> qe_reserved_at e \<le> t \<and>
        qe_state e \<in> {Q_RESERVED, Q_CONSUMED} \<and>
        lock_client (qe_anonymous_client_id e) None d \<noteq> None \<and>
        row_by dj_id (qe_download_job_id e) (download_jobs d) = Some job)"

lemma servingD:
  assumes "serving k start stop t fresh i job d"
  obtains a e where "row_by dr_id k (ranges d) = Some a" "dr_quota_entry_id a = i" "dr_state a = R_ACTIVE"
    "dr_request_start a = start" "dr_request_end_exclusive a = stop"
    "row_by qe_id i (quota_entries d) = Some e" "entry_ok e" "qe_reserved_at e \<le> t"
    "qe_state e \<in> {Q_RESERVED, Q_CONSUMED}"
    "lock_client (qe_anonymous_client_id e) None d \<noteq> None"
    "row_by dj_id (qe_download_job_id e) (download_jobs d) = Some job"
    "range_ok a" "dr_id a = k" "qe_id e = i" "a \<in> set (lock_ranges i d)"
    "lock_attempt_context k allow d = Inr (Some (job, e, a))"
proof -
  from assms obtain a e where f: "row_by dr_id k (ranges d) = Some a" "dr_quota_entry_id a = i" "dr_state a = R_ACTIVE"
    "dr_request_start a = start" "dr_request_end_exclusive a = stop"
    "row_by qe_id i (quota_entries d) = Some e" "entry_ok e" "qe_reserved_at e \<le> t"
    "qe_state e \<in> {Q_RESERVED, Q_CONSUMED}"
    "lock_client (qe_anonymous_client_id e) None d \<noteq> None"
    "row_by dj_id (qe_download_job_id e) (download_jobs d) = Some job"
    unfolding serving_def by blast
  have mem: "a \<in> set (ranges d)" "dr_id a = k" "qe_id e = i"
    using row_by_SomeD [OF f(1)] row_by_SomeD [OF f(6)] by auto
  then have lr: "a \<in> set (lock_ranges i d)" using f(2) by (simp add: set_lock_ranges)
  have ok: "range_ok a" using assms mem(1) by (simp add: serving_def ranges_wf_def)
  have "validate_job_binding job (Some (dr_artifact_id a)) (dr_fence_token a) (dr_artifact_bytes a) False None = Inr ()"
    using assms lr by (auto simp: serving_def validate_job_binding_def)
  then have "lock_attempt_context k allow d = Inr (Some (job, e, a))"
    using f by (auto simp: lock_attempt_context_def split: option.splits)
  with that f mem lr ok show thesis by blast
qed

lemma serving_generation:
  assumes "serving k start stop t fresh i job d"
  shows "assert_generation (lock_ranges i d) job = Inr ()"
  using assms unfolding serving_def assert_generation_def by (auto simp: list_all_iff)

lemma serving_range:
  assumes "serving k start stop t fresh i job d" and "row_by dr_id k (ranges d) = Some a"
    and "range_ok r" and "r = a\<lparr>dr_served_end_exclusive := n, dr_lease_expires_at := l\<rparr>"
  shows "serving k start stop t fresh i job (d\<lparr>ranges := put_row dr_id r (ranges d)\<rparr>)"
proof -
  obtain a0 e where f: "row_by dr_id k (ranges d) = Some a0" "dr_quota_entry_id a0 = i" "dr_state a0 = R_ACTIVE"
    "dr_request_start a0 = start" "dr_request_end_exclusive a0 = stop"
    "row_by qe_id i (quota_entries d) = Some e" "entry_ok e" "qe_reserved_at e \<le> t"
    "qe_state e \<in> {Q_RESERVED, Q_CONSUMED}"
    "lock_client (qe_anonymous_client_id e) None d \<noteq> None"
    "row_by dj_id (qe_download_job_id e) (download_jobs d) = Some job"
    "a0 \<in> set (lock_ranges i d)" "dr_id a0 = k"
    by (rule servingD [OF assms(1)])
  have a: "a0 = a" using f(1) assms(2) by simp
  have id: "dr_id r = k" using f(13) by (simp add: assms(4) a)
  have sub: "set (put_row dr_id r (ranges d)) \<subseteq> insert r (set (ranges d))" by (rule set_put_row)
  have gen: "dr_artifact_id x = the (dj_artifact_id job) \<and> dr_fence_token x = dj_fence_token job \<and>
      dr_artifact_bytes x = artifact_size job \<and> dr_started_at x \<le> t"
    if "x \<in> set (lock_ranges i (d\<lparr>ranges := put_row dr_id r (ranges d)\<rparr>))" for x
  proof -
    from that sub have "x = r \<or> x \<in> set (lock_ranges i d)" by (auto simp: set_lock_ranges)
    then show ?thesis using assms(1) f(12) unfolding serving_def by (auto simp: assms(4) a)
  qed
  have "ranges_wf (d\<lparr>ranges := put_row dr_id r (ranges d)\<rparr>)"
    using assms(1,3) sub unfolding serving_def ranges_wf_def by auto
  moreover have "fresh \<notin> dr_id ` set (put_row dr_id r (ranges d))"
    using assms(1) keys_put_row [of dr_id r "ranges d"] unfolding serving_def by (metis set_map)
  moreover have "row_by dr_id k (put_row dr_id r (ranges d)) = Some r" using f(1) id by auto
  ultimately show ?thesis
    using assms(1) gen f a unfolding serving_def
    by (auto simp: assms(4) lock_client_def intro!: exI [of _ e])
qed

lemma serving_entry:
  assumes "serving k start stop t fresh i job d" and "row_by qe_id i (quota_entries d) = Some e"
    and "entry_ok e'" and "qe_id e' = i" and "qe_reserved_at e' = qe_reserved_at e"
    and "qe_state e' \<in> {Q_RESERVED, Q_CONSUMED}" and "qe_anonymous_client_id e' = qe_anonymous_client_id e"
    and "qe_download_job_id e' = qe_download_job_id e"
  shows "serving k start stop t fresh i job (d\<lparr>quota_entries := put_row qe_id e' (quota_entries d)\<rparr>)"
proof -
  have "row_by qe_id i (put_row qe_id e' (quota_entries d)) = Some e'" using assms(2,4) by auto
  then show ?thesis
    using assms unfolding serving_def by (auto simp: lock_client_def lock_ranges_def ranges_wf_def)
qed

lemma serving_consume:
  assumes "serving k start stop t fresh i job d" and "row_by qe_id i (quota_entries d) = Some e" and "t \<le> now"
  shows "\<exists>r e' d'. consume_if_complete job e now d = Inr (r, e', d') \<and> serving k start stop t fresh i job d' \<and>
     row_by qe_id i (quota_entries d') = Some e' \<and> ranges d' = ranges d"
proof -
  have e: "qe_id e = i" using row_by_SomeD [OF assms(2)] by simp
  have st: "qe_state e \<in> {Q_RESERVED, Q_CONSUMED}" and ok: "entry_ok e" and t: "qe_reserved_at e \<le> t"
    using assms(1,2) unfolding serving_def by auto
  let ?c = "e\<lparr>qe_state := Q_CONSUMED, qe_consumed_at := Some now, qe_released_at := None\<rparr>"
  have okc: "entry_ok ?c" using ok t assms(3) by (simp add: entry_ok_defs)
  have sc: "serving k start stop t fresh i job (d\<lparr>quota_entries := put_row qe_id ?c (quota_entries d)\<rparr>)"
    by (rule serving_entry [OF assms(1,2) okc]) (simp_all add: e)
  show ?thesis
  proof (cases "qe_state e = Q_CONSUMED")
    case True
    with assms show ?thesis by (simp add: consume_if_complete_def)
  next
    case False
    with st have r: "qe_state e = Q_RESERVED" by simp
    show ?thesis
    proof (cases "closed_intervals (lock_ranges i d) = [(0, artifact_size job)]")
      case True
      have "consume_if_complete job e now d =
          Inr (consumed_result, ?c, d\<lparr>quota_entries := put_row qe_id ?c (quota_entries d)\<rparr>)"
        using r True okc serving_generation [OF assms(1)]
        by (simp add: consume_if_complete_def e consume_locked_def qe_flush_def)
      moreover have "row_by qe_id i (put_row qe_id ?c (quota_entries d)) = Some ?c" using assms(2) e by auto
      ultimately show ?thesis using sc by simp
    next
      case False
      with r assms serving_generation [OF assms(1)] show ?thesis by (simp add: consume_if_complete_def e)
    qed
  qed
qed

lemma serving_checkpoint:
  assumes "serving k start stop t fresh i job d" and "obs \<le> stop" and "t \<le> now"
  shows "\<exists>r d'. checkpoint k obs now d = Inr (r, d') \<and> serving k start stop t fresh i job d'"
proof -
  obtain a e where f: "row_by dr_id k (ranges d) = Some a" "dr_state a = R_ACTIVE"
    "dr_request_end_exclusive a = stop" "row_by qe_id i (quota_entries d) = Some e" "entry_ok e"
    "qe_state e \<in> {Q_RESERVED, Q_CONSUMED}" "range_ok a" "dr_id a = k" "qe_id e = i" "a \<in> set (lock_ranges i d)"
    "lock_attempt_context k False d = Inr (Some (job, e, a))"
    by (rule servingD [OF assms(1)])
  let ?obs = "max obs (dr_served_end_exclusive a)" and ?lease = "now + seconds DELIVERY_ATTEMPT_LEASE_SECONDS"
  let ?r = "a\<lparr>dr_served_end_exclusive := ?obs, dr_lease_expires_at := Some ?lease\<rparr>"
  let ?e = "if qe_state e = Q_RESERVED
            then e\<lparr>qe_reservation_expires_at := max (qe_reservation_expires_at e) ?lease\<rparr> else e"
  have t: "dr_started_at a \<le> t" using assms(1) f(10) unfolding serving_def by blast
  have bnd: "?obs \<le> dr_request_end_exclusive a" using assms(2) f(3,7) by (simp add: range_ok_def)
  have okr: "range_ok ?r"
    using f(2,7) bnd t assms(3) by (auto simp: range_ok_defs DELIVERY_ATTEMPT_LEASE_SECONDS_def seconds_def)
  have oke: "entry_ok ?e" using f(5) by (auto simp: entry_ok_defs)
  define d1 where "d1 = d\<lparr>ranges := put_row dr_id ?r (ranges d)\<rparr>"
  have s1: "serving k start stop t fresh i job d1"
    unfolding d1_def by (rule serving_range [OF assms(1) f(1) okr]) (rule refl)
  have q1: "row_by qe_id i (quota_entries d1) = Some e" using f(4) by (simp add: d1_def)
  define d2 where "d2 = d1\<lparr>quota_entries := put_row qe_id ?e (quota_entries d1)\<rparr>"
  have s2: "serving k start stop t fresh i job d2"
    unfolding d2_def by (rule serving_entry [OF s1 q1 oke]) (use f in auto)
  have "qe_id ?e = i" using f(9) by simp
  then have "row_by qe_id i (quota_entries d2) = Some ?e" using q1 by (auto simp: d2_def)
  from serving_consume [OF s2 this assms(3)] obtain r e' d' where
    c: "consume_if_complete job ?e now d2 = Inr (r, e', d')" "serving k start stop t fresh i job d'" by blast
  have "dr_flush ?r d = Inr d1" using okr by (simp add: dr_flush_def d1_def)
  moreover have "qe_flush ?e d1 = Inr d2" using oke by (simp add: qe_flush_def d2_def)
  ultimately have "checkpoint k obs now d = Inr (r, d')"
    using f(11) bnd c(1) by (simp add: checkpoint_def Let_def not_less)
  with c(2) show ?thesis by blast
qed

text \<open>Compacting rows that cover the artifact leaves one interval, which fits the bound.\<close>

lemma compact_full:
  assumes wf: "ranges_wf d" and entry: "i \<in> qe_id ` set (quota_entries d)" and fresh: "fr 0 \<notin> dr_id ` set (ranges d)"
    and rows: "\<forall>r \<in> set (lock_ranges i d). dr_artifact_bytes r = n \<and> dr_started_at r \<le> now" and "0 < n"
    and full: "points (closed_intervals (filter (\<lambda>r. dr_state r = R_CLOSED) (lock_ranges i d))) = {0..<n}"
  shows "\<exists>d'. compact_closed fr i (lock_ranges i d) now d = Inr d' \<and>
    (\<forall>x \<in> set (lock_ranges i d'). \<exists>y \<in> set (lock_ranges i d). dr_artifact_id x = dr_artifact_id y \<and>
       dr_fence_token x = dr_fence_token y \<and> dr_artifact_bytes x = dr_artifact_bytes y)"
proof -
  let ?closed = "filter (\<lambda>r. dr_state r = R_CLOSED) (lock_ranges i d)"
  have one: "closed_intervals ?closed = [(0, n)]"
    using full \<open>0 < n\<close> unfolding closed_intervals_def by (metis ni.norm_full_iff ni.norm_points)
  show ?thesis
  proof (cases ?closed)
    case Nil
    with full \<open>0 < n\<close> show ?thesis by (simp add: closed_intervals_points)
  next
    case (Cons tpl tail)
    then have "tpl \<in> set ?closed" by simp
    then have tpl: "tpl \<in> set (lock_ranges i d)" by auto
    then have m: "tpl \<in> set (ranges d)" by (simp add: set_lock_ranges)
    have ok: "range_ok tpl" using wf m by (simp add: ranges_wf_def)
    let ?row = "compacted_row i tpl now (fr 0) (0, n)"
    have "range_ok ?row"
      using ok tpl rows \<open>0 < n\<close> by (auto simp: range_ok_defs compacted_row_def)
    moreover have "fr 0 \<notin> dr_id ` set (del_rows (\<lambda>r. dr_quota_entry_id r = i \<and> dr_state r = R_CLOSED) (ranges d))"
      using fresh by auto
    ultimately have "dr_insert ?row (d\<lparr>ranges := del_rows (\<lambda>r. dr_quota_entry_id r = i \<and> dr_state r = R_CLOSED) (ranges d)\<rparr>)
        = Inr (d\<lparr>ranges := del_rows (\<lambda>r. dr_quota_entry_id r = i \<and> dr_state r = R_CLOSED) (ranges d) @ [?row]\<rparr>)"
      using entry by (simp add: dr_insert_def compacted_row_def)
    then have run: "compact_closed fr i (lock_ranges i d) now d = Inr d \<or>
        compact_closed fr i (lock_ranges i d) now d =
          Inr (d\<lparr>ranges := del_rows (\<lambda>r. dr_quota_entry_id r = i \<and> dr_state r = R_CLOSED) (ranges d) @ [?row]\<rparr>)"
      using Cons unfolding compact_closed_def Let_def one by (simp add: MAX_CLOSED_FRAGMENTS_def)
    then show ?thesis
    proof
      assume "compact_closed fr i (lock_ranges i d) now d = Inr d"
      then show ?thesis by blast
    next
      let ?d' = "d\<lparr>ranges := del_rows (\<lambda>r. dr_quota_entry_id r = i \<and> dr_state r = R_CLOSED) (ranges d) @ [?row]\<rparr>"
      assume run: "compact_closed fr i (lock_ranges i d) now d = Inr ?d'"
      have "dr_artifact_id ?row = dr_artifact_id tpl \<and> dr_fence_token ?row = dr_fence_token tpl \<and>
          dr_artifact_bytes ?row = dr_artifact_bytes tpl" by (simp add: compacted_row_def)
      moreover have "x = ?row \<or> x \<in> set (lock_ranges i d)" if "x \<in> set (lock_ranges i ?d')" for x
        using that by (auto simp: set_lock_ranges)
      ultimately show ?thesis using run tpl by (intro exI [of _ ?d']) blast
    qed
  qed
qed

lemma serving_finalize:
  assumes sv: "serving k 0 stop t (fr 0) i job d" and size: "artifact_size job = stop" and "t \<le> now"
  shows "\<exists>r d' e'. finalize fr k stop now d = Inr (r, d') \<and> row_by qe_id i (quota_entries d') = Some e' \<and>
     qe_state e' = Q_CONSUMED \<and> covered i d' = {0..<stop}"
proof -
  obtain a e where f: "row_by dr_id k (ranges d) = Some a" "dr_quota_entry_id a = i" "dr_state a = R_ACTIVE"
    "dr_request_start a = 0" "dr_request_end_exclusive a = stop" "row_by qe_id i (quota_entries d) = Some e" "entry_ok e"
    "qe_reserved_at e \<le> t" "qe_state e \<in> {Q_RESERVED, Q_CONSUMED}" "range_ok a" "dr_id a = k" "qe_id e = i"
    "a \<in> set (lock_ranges i d)" "lock_attempt_context k True d = Inr (Some (job, e, a))"
    by (rule servingD [OF sv])
  have wf: "ranges_wf d" and fresh: "fr 0 \<notin> dr_id ` set (ranges d)"
    and gen: "\<forall>r \<in> set (lock_ranges i d). dr_artifact_id r = the (dj_artifact_id job) \<and>
        dr_fence_token r = dj_fence_token job \<and> dr_artifact_bytes r = artifact_size job \<and> dr_started_at r \<le> t"
    and art: "dj_artifact_id job \<noteq> None"
    using sv unfolding serving_def by blast+
  have pos: "0 < stop" "dr_served_end_exclusive a \<le> stop" "dr_artifact_bytes a = stop" "dr_started_at a \<le> t"
    using f(4,5,10,13) gen size by (auto simp: range_ok_def)
  have obs: "max stop (dr_served_end_exclusive a) = stop" using pos(2) by simp
  let ?r = "closed_at_prefix now (a\<lparr>dr_served_end_exclusive := stop\<rparr>)"
  have okr: "range_ok ?r"
    using f(4,5,10) pos assms(3) by (auto simp: range_ok_defs closed_at_prefix_def)
  have rk: "dr_id ?r = k" "dr_quota_entry_id ?r = i" "dr_state ?r = R_CLOSED" "row_bytes ?r = {0..<stop}"
    "dr_artifact_id ?r = dr_artifact_id a" "dr_fence_token ?r = dr_fence_token a"
    "dr_artifact_bytes ?r = dr_artifact_bytes a" "dr_started_at ?r = dr_started_at a"
    using f by (simp_all add: closed_at_prefix_def row_bytes_def)
  define d1 where "d1 = d\<lparr>ranges := put_row dr_id ?r (ranges d)\<rparr>"
  have sub: "set (ranges d1) \<subseteq> insert ?r (set (ranges d))" unfolding d1_def by (simp add: set_put_row)
  have mem: "?r \<in> set (ranges d1)" using put_row_member [of dr_id ?r "ranges d" a] f(1) rk(1) by (auto simp: d1_def)
  have wf1: "ranges_wf d1" using wf okr sub by (auto simp: ranges_wf_def d1_def)
  have rows1: "dr_artifact_id x = the (dj_artifact_id job) \<and> dr_fence_token x = dj_fence_token job \<and>
      dr_artifact_bytes x = stop \<and> dr_started_at x \<le> t" if "x \<in> set (lock_ranges i d1)" for x
  proof -
    from that sub have "x = ?r \<or> x \<in> set (lock_ranges i d)" by (auto simp: set_lock_ranges)
    then show ?thesis using gen f(13) size rk by auto
  qed
  have full1: "points (closed_intervals (filter (\<lambda>r. dr_state r = R_CLOSED) (lock_ranges i d1))) = {0..<stop}"
  proof -
    let ?S = "set (filter (\<lambda>r. dr_state r = R_CLOSED) (lock_ranges i d1))"
    have "?r \<in> ?S" using mem rk by (simp add: set_lock_ranges)
    then have "{0..<stop} \<subseteq> (\<Union>r \<in> ?S. row_bytes r)" using rk(4) by blast
    moreover have "row_bytes x \<subseteq> {0..<stop}" if "x \<in> ?S" for x
    proof -
      from that have "x \<in> set (lock_ranges i d1)" "range_ok x" using wf1 by (auto simp: ranges_wf_def set_lock_ranges)
      with rows1 [of x] show ?thesis by (auto simp: row_bytes_def range_ok_def)
    qed
    ultimately show ?thesis unfolding closed_intervals_points by blast
  qed
  have q1: "row_by qe_id i (quota_entries d1) = Some e" using f(6) by (simp add: d1_def)
  have "i \<in> qe_id ` set (quota_entries d1)" using row_by_SomeD [OF q1] by auto
  moreover have "fr 0 \<notin> dr_id ` set (ranges d1)"
    using fresh keys_put_row [of dr_id ?r "ranges d"] unfolding d1_def by (metis set_map db.select_convs(5) db.surjective db.update_convs(5))
  moreover have "\<forall>r \<in> set (lock_ranges i d1). dr_artifact_bytes r = stop \<and> dr_started_at r \<le> now"
    using rows1 assms(3) by force
  ultimately obtain d2 where cmp: "compact_closed fr i (lock_ranges i d1) now d1 = Inr d2"
    and gen2: "\<forall>x \<in> set (lock_ranges i d2). \<exists>y \<in> set (lock_ranges i d1). dr_artifact_id x = dr_artifact_id y \<and>
       dr_fence_token x = dr_fence_token y \<and> dr_artifact_bytes x = dr_artifact_bytes y"
    using compact_full [OF wf1 _ _ _ pos(1) full1] by blast
  have k2: "keeps_evidence d1 d2" using compact_closed_keeps [OF cmp wf1] by blast
  then have q2: "row_by qe_id i (quota_entries d2) = Some e"
    using q1 ranges_only_tables [of d1 d2] by (simp add: keeps_evidence_def)
  have "covered i d1 = {0..<stop}"
  proof
    show "covered i d1 \<subseteq> {0..<stop}"
    proof
      fix b assume "b \<in> covered i d1"
      then obtain x where x: "x \<in> set (lock_ranges i d1)" "b \<in> row_bytes x" by (auto simp: covered_def set_lock_ranges)
      then have "range_ok x" using wf1 by (auto simp: ranges_wf_def set_lock_ranges)
      with x rows1 [of x] show "b \<in> {0..<stop}" by (auto simp: row_bytes_def range_ok_def)
    qed
    show "{0..<stop} \<subseteq> covered i d1" using mem rk unfolding covered_def by blast
  qed
  then have cov2: "covered i d2 = {0..<stop}" using k2 by (simp add: keeps_evidence_def)
  then have complete: "closed_intervals (lock_ranges i d2) = [(0, artifact_size job)]"
    using coverage_complete_iff [OF pos(1)] size by simp
  have generation: "assert_generation (lock_ranges i d2) job = Inr ()"
  proof -
    have "dj_artifact_id job = Some (dr_artifact_id x) \<and> dr_fence_token x = dj_fence_token job \<and>
        dr_artifact_bytes x = artifact_size job" if "x \<in> set (lock_ranges i d2)" for x
      using gen2 that rows1 art size by (metis option.collapse)
    then show ?thesis by (simp add: assert_generation_def list_all_iff)
  qed
  let ?c = "e\<lparr>qe_state := Q_CONSUMED, qe_consumed_at := Some now, qe_released_at := None\<rparr>"
  have okc: "entry_ok ?c" using f(7,8) assms(3) by (simp add: entry_ok_defs)
  have w: "dr_flush ?r d = Inr d1" using okr by (simp add: dr_flush_def d1_def)
  obtain res e' d3 where c: "consume_if_complete job e now d2 = Inr (res, e', d3)" "qe_state e' = Q_CONSUMED"
      "row_by qe_id i (quota_entries d3) = Some e'" "ranges d3 = ranges d2"
  proof (cases "qe_state e = Q_CONSUMED")
    case True
    with that q2 show thesis by (auto simp: consume_if_complete_def)
  next
    case False
    with f(9) have "qe_state e = Q_RESERVED" by simp
    then have cons: "consume_if_complete job e now d2 =
        Inr (consumed_result, ?c, d2\<lparr>quota_entries := put_row qe_id ?c (quota_entries d2)\<rparr>)"
      using complete generation okc f(12) by (simp add: consume_if_complete_def consume_locked_def qe_flush_def)
    show thesis by (rule that [OF cons]) (simp_all add: q2 f(12))
  qed
  have fin: "finalize fr k stop now d = Inr (res, d3)"
    using f(3,4,5,12,14) w cmp c(1,2) pos(1) by (simp add: finalize_def Let_def obs)
  have "covered i d3 = {0..<stop}" using cov2 covered_ranges [OF c(4)] by simp
  with fin c show ?thesis by blast
qed

section \<open>A client that reads everything pays\<close>

lemma body_loop_serving:
  assumes "serving k start stop t f i job d"
    and "\<forall>n d. serving k start stop t f i job d \<longrightarrow> serving k start stop t f i job (others n d)"
    and "\<forall>n. \<exists>mono now. fate n = Taken mono now \<and> t \<le> now"
    and "bs_observed_end s + int (length (concat chunks)) \<le> stop"
  shows "\<exists>s' d'. body_loop others fate (Some k) err n chunks s d = (s', err, d') \<and>
    serving k start stop t f i job d' \<and> bs_observed_end s' = bs_observed_end s + int (length (concat chunks))"
  using assms(1,4)
proof (induction chunks arbitrary: n s d)
  case (Cons c chunks)
  obtain mono now where fate: "fate n = Taken mono now" "t \<le> now" using assms(3) by blast
  let ?s = "s\<lparr>bs_observed_end := bs_observed_end s + int (length c)\<rparr>"
  show ?case
  proof (cases "checkpoint_due ?s mono")
    case True
    have "serving k start stop t f i job (others n d)" using assms(2) Cons.prems(1) by blast
    from serving_checkpoint [OF this, of "bs_observed_end ?s" now] Cons.prems(2) fate(2)
    obtain r d1 where "checkpoint k (bs_observed_end ?s) now (others n d) = Inr (r, d1)"
      "serving k start stop t f i job d1" by auto
    with Cons.IH [of d1 "?s\<lparr>bs_checkpoint_end := bs_observed_end ?s, bs_checkpoint_at := mono\<rparr>" "Suc n"] Cons.prems(2) True fate(1)
    show ?thesis by auto
  next
    case False
    with Cons.IH [of d ?s "Suc n"] Cons.prems fate(1) show ?thesis by auto
  qed
qed simp

text \<open>C20. A Free download that is read to its last byte is paid for: when a response for the whole
  artifact is streamed from an intact file to a client that takes every chunk, whatever other
  transactions commit meanwhile that leave its attempt, entry, client and job in place, the client
  receives exactly the artifact, the ledger covers every byte and the quota entry is consumed.\<close>

theorem full_read_is_consumed:
  assumes "serving k 0 (int (length content)) t (fr 0) i job d" and "artifact_size job = int (length content)"
    and "\<forall>n d. serving k 0 (int (length content)) t (fr 0) i job d \<longrightarrow>
           serving k 0 (int (length content)) t (fr 0) i job (others n d)"
    and "pread_law content rd" and "1 \<le> chunk_bytes"
    and "\<forall>n. \<exists>mono now. fate n = Taken mono now \<and> t \<le> now" and "t \<le> now"
    and "read_range rd chunk_bytes 0 (int (length content)) = (chunks, err)"
    and "stream_body fr others fate (Some k) (chunks, err) 0 began True now d = (s, err', d')"
  shows "err' = None \<and> concat chunks = content \<and> covered i d' = {0..<int (length content)} \<and>
    (\<exists>e. row_by qe_id i (quota_entries d') = Some e \<and> qe_state e = Q_CONSUMED)"
proof -
  let ?n = "int (length content)"
  have read: "concat chunks = content" "err = None"
    using read_range_spec [OF assms(4,5) _ assms(8)] by simp_all
  obtain s1 d1 where loop: "body_loop others fate (Some k) err 0 chunks
      \<lparr>bs_observed_end = 0, bs_checkpoint_end = 0, bs_checkpoint_at = began\<rparr> d = (s1, err, d1)"
    "serving k 0 ?n t (fr 0) i job d1" "bs_observed_end s1 = ?n"
    using body_loop_serving [OF assms(1,3,6), of "\<lparr>bs_observed_end = 0, bs_checkpoint_end = 0, bs_checkpoint_at = began\<rparr>" chunks err 0]
      read by auto
  have "serving k 0 ?n t (fr 0) i job (others (length chunks) d1)" using assms(3) loop(2) by blast
  from serving_finalize [where fr = fr, OF this assms(2,7)] obtain r d2 e where
    "finalize fr k ?n now (others (length chunks) d1) = Inr (r, d2)" "row_by qe_id i (quota_entries d2) = Some e"
    "qe_state e = Q_CONSUMED" "covered i d2 = {0..<?n}" by blast
  with assms(9) loop read show ?thesis by (auto simp: stream_body_def Let_def)
qed

section \<open>Every stream is a run of the ledger\<close>

lemma body_loop_run:
  assumes "\<forall>n d. ledger_step\<^sup>*\<^sup>* d (others n d)"
    and "body_loop others fate att err n chunks s d = (s', err', d')"
  shows "ledger_step\<^sup>*\<^sup>* d d'"
  using assms(2)
proof (induction chunks arbitrary: n s d)
  case (Cons c chunks)
  show ?case
  proof (cases "fate n")
    case Dropped
    with Cons.prems show ?thesis by simp
  next
    case (Taken mono now)
    let ?s = "s\<lparr>bs_observed_end := bs_observed_end s + int (length c)\<rparr>"
    show ?thesis
    proof (cases "\<exists>a. att = Some a \<and> checkpoint_due ?s mono")
      case False
      with Cons.prems Taken have "body_loop others fate att err (Suc n) chunks ?s d = (s', err', d')"
        by (cases att) (auto simp: Let_def)
      then show ?thesis by (rule Cons.IH)
    next
      case True
      then obtain a where a: "att = Some a" "checkpoint_due ?s mono" by blast
      show ?thesis
      proof (cases "checkpoint a (bs_observed_end ?s) now (others n d)")
        case (Inl e)
        with Cons.prems Taken a have "d' = others n d" by (simp add: Let_def)
        with assms(1) show ?thesis by blast
      next
        case (Inr x)
        obtain r d1 where x: "x = (r, d1)" by (cases x)
        have "ledger_step (others n d) d1" using Inr x by (intro ledger_step.checkpoints) simp
        then have "ledger_step\<^sup>*\<^sup>* d d1" using assms(1) by (meson rtranclp.rtrancl_into_rtrancl)
        moreover have "ledger_step\<^sup>*\<^sup>* d1 d'" using Cons.IH Cons.prems Taken a Inr x by (simp add: Let_def)
        ultimately show ?thesis by simp
      qed
    qed
  qed
qed simp


section \<open>Samples\<close>

definition sample_content :: bytes where
  "sample_content = replicate 1000 7"

definition sample_pread :: pread where
  "sample_pread off n = take (nat n) (drop (nat off) sample_content)"

lemma sample_pread_law: "pread_law sample_content sample_pread"
  unfolding pread_law_def sample_pread_def
proof (intro allI impI)
  fix off n :: int assume "0 \<le> off \<and> 0 < n"
  then show "\<exists>k. int k \<le> n \<and> take (nat n) (drop (nat off) sample_content) = take k (drop (nat off) sample_content) \<and>
      (off < int (length sample_content) \<longrightarrow> 0 < k)"
    by (intro exI [of _ "nat n"]) auto
qed

lemma sample_serving: "serving 9 0 1000 9 (70 + 0) 2 sample_ready_job (ledger_db [sample_entry] [sample_attempt])"
  unfolding serving_def lock_ranges_def
  by (auto simp: ranges_wf_def sample_attempt_def sample_ledger_defs range_ok_defs entry_ok_defs artifact_size_def
      row_by_def lock_client_def seconds_def order_by_def)

theorem full_read_is_consumed_witness:
  "\<exists>chunks err s err' d'. read_range sample_pread 400 0 1000 = (chunks, err) \<and>
     stream_body (\<lambda>n. 70 + n) (\<lambda>_ d. d) (\<lambda>_. Taken 0 9) (Some 9) (chunks, err) 0 0 True 9
       (ledger_db [sample_entry] [sample_attempt]) = (s, err', d') \<and>
     concat chunks = sample_content \<and>
     (\<exists>e. row_by qe_id 2 (quota_entries d') = Some e \<and> qe_state e = Q_CONSUMED)"
proof -
  have len: "int (length sample_content) = 1000" by (simp add: sample_content_def)
  obtain chunks err where r: "read_range sample_pread 400 0 1000 = (chunks, err)" by fastforce
  obtain s err' d' where b: "stream_body (\<lambda>n. 70 + n) (\<lambda>_ d. d) (\<lambda>_. Taken 0 9) (Some 9) (chunks, err) 0 0 True 9
       (ledger_db [sample_entry] [sample_attempt]) = (s, err', d')" by (metis prod_cases3)
  have size: "artifact_size sample_ready_job = 1000" by (simp add: artifact_size_def sample_ledger_defs)
  from full_read_is_consumed [where content = sample_content and fr = "\<lambda>n. 70 + n", unfolded len,
      OF sample_serving size _ sample_pread_law _ _ _ r b]
  have "concat chunks = sample_content \<and> (\<exists>e. row_by qe_id 2 (quota_entries d') = Some e \<and> qe_state e = Q_CONSUMED)"
    by simp
  with r b show ?thesis by blast
qed


theorem pacer_never_bursts_witness:
  "releases 10 [(20, 0, 0), (10, 5, 5)] None = Inr [2, 6] \<and>
   of_int (chunk_bytes_of [(20, 0, 0), (10, 5, 5)]) \<le> (of_int 10 :: rat) * (6 - 0)"
proof -
  have r: "releases 10 [(20, 0, 0), (10, 5, 5)] None = Inr [2, 6]" by (simp add: pace_def)
  from pacer_never_bursts [OF _ r, of 0 1] r show ?thesis by simp
qed

end
