(* ===== verification/Tokens.thy ===== *)
theory Tokens
  imports Text Quota
begin

text \<open>
  Opaque tokens: the parent access token (\<open>jobs/credentials.py\<close>), the browser-grant token
  (\<open>downloads/browser_grant_tokens.py\<close>) and the anonymous-client token (\<open>quota/tokens.py\<close>) are
  32 random bytes in unpadded base64url, accepted only in canonical form; the cookies that carry
  the latter two; the idempotency key of a payment. SHA-256 and HMAC-SHA-256 of the standard
  library are the functions \<open>sha\<close> and \<open>hmac\<close>, random bytes are arguments.
\<close>

section \<open>Unpadded base64url\<close>

definition b64_alphabet :: string where
  "b64_alphabet = ''ABCDEFGHIJKLMNOPQRSTUVWXYZabcdefghijklmnopqrstuvwxyz0123456789-_''"

definition b64_char :: "nat \<Rightarrow> char" where
  "b64_char n = b64_alphabet ! n"

definition b64_value :: "char \<Rightarrow> nat option" where
  "b64_value c =
     (let n = code c
      in if 65 \<le> n \<and> n \<le> 90 then Some (n - 65)
         else if 97 \<le> n \<and> n \<le> 122 then Some (n - 71)
         else if 48 \<le> n \<and> n \<le> 57 then Some (n + 4)
         else if n = 45 then Some 62 else if n = 95 then Some 63 else None)"

text \<open>\<open>urlsafe_b64encode(raw).decode("ascii").rstrip("=")\<close>\<close>

fun b64_encode :: "bytes \<Rightarrow> string" where
  "b64_encode [] = []"
| "b64_encode [a] = [b64_char (a div 4), b64_char (a mod 4 * 16)]"
| "b64_encode [a, b] =
     [b64_char (a div 4), b64_char (a mod 4 * 16 + b div 16), b64_char (b mod 16 * 4)]"
| "b64_encode (a # b # c # bs) =
     [b64_char (a div 4), b64_char (a mod 4 * 16 + b div 16),
      b64_char (b mod 16 * 4 + c div 64), b64_char (c mod 64)] @ b64_encode bs"

text \<open>
  \<open>urlsafe_b64decode(token + "=")\<close> of a token over the alphabet: the bits that fill up the last
  character are dropped; a length that one pad does not complete is \<open>binascii.Error\<close>.
\<close>

fun b64_decode :: "nat list \<Rightarrow> bytes option" where
  "b64_decode [x, y, z] = Some [x * 4 + y div 16, y mod 16 * 16 + z div 4]"
| "b64_decode (w # x # y # z # vs) =
     (case b64_decode vs of
        None \<Rightarrow> None
      | Some bs \<Rightarrow> Some ((w * 4 + x div 16) # (x mod 16 * 16 + y div 4) # (y mod 4 * 64 + z) # bs))"
| "b64_decode _ = None"

section \<open>The three parsers\<close>

text \<open>\<open>[A-Za-z0-9_-]{43}\<close>\<close>

definition token_shape :: "string \<Rightarrow> bool" where
  "token_shape t \<longleftrightarrow> length t = 43 \<and> list_all (\<lambda>c. b64_value c \<noteq> None) t"

definition token_decode :: "string \<Rightarrow> bytes option" where
  "token_decode t = b64_decode (map (\<lambda>c. the (b64_value c)) t)"

abbreviation bad_access_token :: "string \<Rightarrow> error" where
  "bad_access_token reason \<equiv> JobError INVALID_ACCESS_TOKEN reason"

definition generate_access_token :: "bytes \<Rightarrow> string" where
  "generate_access_token raw = b64_encode raw"

definition parse_access_token :: "string \<Rightarrow> bytes res" where
  "parse_access_token token =
     (if \<not> token_shape token then Inl (bad_access_token ''TOKEN_SHAPE'')
      else (case token_decode token of
        None \<Rightarrow> Inl (bad_access_token ''TOKEN_DECODE'')
      | Some raw \<Rightarrow>
          if length raw \<noteq> 32 then Inl (bad_access_token ''TOKEN_LENGTH'')
          else if b64_encode raw \<noteq> token then Inl (bad_access_token ''TOKEN_NONCANONICAL'')
          else Inr raw))"

abbreviation bad_grant_token :: "string \<Rightarrow> error" where
  "bad_grant_token reason \<equiv> DownloadError DOWNLOAD_JOB_NOT_FOUND reason"

definition generate_grant_token :: "bytes \<Rightarrow> string" where
  "generate_grant_token raw = b64_encode raw"

definition parse_grant_token :: "string \<Rightarrow> bytes res" where
  "parse_grant_token token =
     (if \<not> token_shape token then Inl (bad_grant_token ''GRANT_TOKEN_SHAPE'')
      else (case token_decode token of
        None \<Rightarrow> Inl (bad_grant_token ''GRANT_TOKEN_DECODE'')
      | Some raw \<Rightarrow>
          if length raw \<noteq> 32 then Inl (bad_grant_token ''GRANT_TOKEN_LENGTH'')
          else if b64_encode raw \<noteq> token then Inl (bad_grant_token ''GRANT_TOKEN_NONCANONICAL'')
          else Inr raw))"

definition generate_anonymous_token :: "bytes \<Rightarrow> string" where
  "generate_anonymous_token raw = b64_encode raw"

definition parse_anonymous_token :: "string \<Rightarrow> bytes option" where
  "parse_anonymous_token token =
     (if \<not> token_shape token then None
      else (case token_decode token of
        None \<Rightarrow> None
      | Some raw \<Rightarrow>
          if length raw \<noteq> 32 then None
          else if b64_encode raw = token then Some raw else None))"

section \<open>Digests\<close>

definition ascii :: "string \<Rightarrow> bytes" where
  "ascii s = map of_char s"

definition ACCESS_DOMAIN :: bytes where
  "ACCESS_DOMAIN = ascii ''fetchnow:v1:media-job:access'' @ [0]"

definition FINGERPRINT_DOMAIN :: bytes where
  "FINGERPRINT_DOMAIN = ascii ''fetchnow:v1:media-job:fingerprint'' @ [0]"

definition GRANT_DOMAIN :: bytes where
  "GRANT_DOMAIN = ascii ''fetchnow:v1:browser-delivery-grant'' @ [0]"

definition CLIENT_DOMAIN :: bytes where
  "CLIENT_DOMAIN = ascii ''fetchnow:v1:anonymous-client'' @ [0]"

definition IDEMPOTENCY_DOMAIN :: bytes where
  "IDEMPOTENCY_DOMAIN = ascii ''fetchnow:v1:payment-order-idempotency'' @ [0]"

definition hash_access_token :: "(bytes \<Rightarrow> bytes) \<Rightarrow> string \<Rightarrow> bytes res" where
  "hash_access_token sha token =
     andThen (parse_access_token token) (\<lambda>raw.
       let digest = sha (ACCESS_DOMAIN @ raw)
       in if length digest \<noteq> 32 then Inl (JobError JOB_INTERNAL_ERROR ''HASH_LENGTH'') else Inr digest)"

text \<open>The request is given as its UTF-8 encoding.\<close>

definition hash_request_fingerprint ::
  "(bytes \<Rightarrow> bytes \<Rightarrow> bytes) \<Rightarrow> string \<Rightarrow> bytes \<Rightarrow> bytes res" where
  "hash_request_fingerprint hmac access_token normalized_request =
     (if normalized_request = [] then Inl (JobError JOB_INTERNAL_ERROR ''FINGERPRINT_TYPE'')
      else andThen (parse_access_token access_token) (\<lambda>raw.
        let digest = hmac raw (FINGERPRINT_DOMAIN @ normalized_request)
        in if length digest \<noteq> 32 then Inl (JobError JOB_INTERNAL_ERROR ''HASH_LENGTH'') else Inr digest))"

definition hash_grant_token :: "(bytes \<Rightarrow> bytes) \<Rightarrow> string \<Rightarrow> bytes res" where
  "hash_grant_token sha token =
     andThen (parse_grant_token token) (\<lambda>raw.
       let digest = sha (GRANT_DOMAIN @ raw)
       in if length digest \<noteq> 32 then Inl (DownloadError INTERNAL_ERROR ''GRANT_HASH_LENGTH'')
          else Inr digest)"

definition grant_hashes_match :: "bytes \<Rightarrow> bytes \<Rightarrow> bool" where
  "grant_hashes_match left right \<longleftrightarrow> length left = 32 \<and> length right = 32 \<and> left = right"

definition hash_anonymous_token :: "(bytes \<Rightarrow> bytes) \<Rightarrow> string \<Rightarrow> bytes option" where
  "hash_anonymous_token sha token =
     (case parse_anonymous_token token of None \<Rightarrow> None | Some raw \<Rightarrow> Some (sha (CLIENT_DOMAIN @ raw)))"

text \<open>\<open>[A-Za-z0-9._~-]{22,128}\<close>\<close>

definition idempotency_key_ok :: "string \<Rightarrow> bool" where
  "idempotency_key_ok v \<longleftrightarrow> 22 \<le> length v \<and> length v \<le> 128 \<and>
     list_all (\<lambda>c. upper_ascii c \<or> 97 \<le> code c \<and> code c \<le> 122 \<or> digit_ascii c \<or>
                   c \<in> {CHR ''.'', CHR ''_'', CHR ''~'', CHR ''-''}) v"

definition hash_idempotency_key :: "(bytes \<Rightarrow> bytes) \<Rightarrow> string \<Rightarrow> bytes res" where
  "hash_idempotency_key sha v =
     (if \<not> idempotency_key_ok v then Inl (PaymentError InvalidIdempotencyKeyError)
      else Inr (sha (IDEMPOTENCY_DOMAIN @ ascii v)))"

section \<open>Cookies\<close>

definition GRANT_COOKIE_NAME :: string where
  "GRANT_COOKIE_NAME = ''__Secure-fetchnow_delivery''"

definition CLIENT_COOKIE_NAME :: string where
  "CLIENT_COOKIE_NAME = ''__Host-fetchnow_client''"

definition has_control :: "string \<Rightarrow> bool" where
  "has_control s \<longleftrightarrow> list_ex (\<lambda>c. code c \<in> {13, 10, 0}) s"

text \<open>One iteration of \<open>_extract\<close>'s loop: the token found so far.\<close>

definition grant_cookie_piece :: "string \<Rightarrow> string option \<Rightarrow> string option res" where
  "grant_cookie_piece part found =
     (let piece = strip part
      in if piece = [] \<or> CHR ''='' \<notin> set piece then Inr found
         else case split_once (CHR ''='') piece of (name, val) \<Rightarrow>
           let name = strip name; val = strip val
           in if name \<noteq> GRANT_COOKIE_NAME then Inr found
              else if found \<noteq> None then Inl (bad_grant_token ''COOKIE_DUPLICATE'')
              else if val = [] \<or> length val > 43 then Inl (bad_grant_token ''COOKIE_VALUE_LENGTH'')
              else if starts_with [CHR 0x22] val \<or> ends_with [CHR 0x22] val
              then Inl (bad_grant_token ''COOKIE_VALUE_QUOTED'')
              else Inr (Some val))"

definition extract_delivery_grant_token :: "string option \<Rightarrow> string res" where
  "extract_delivery_grant_token cookie_header =
     (case cookie_header of
        None \<Rightarrow> Inl (bad_grant_token ''COOKIE_MISSING'')
      | Some h \<Rightarrow>
          if length h > 4096 then Inl (bad_grant_token ''COOKIE_HEADER_TOO_LONG'')
          else if has_control h then Inl (bad_grant_token ''COOKIE_HEADER_CONTROL'')
          else andThen (fold_res grant_cookie_piece (split_on (CHR '';'') h) None) (\<lambda>found.
            case found of None \<Rightarrow> Inl (bad_grant_token ''COOKIE_MISSING'') | Some v \<Rightarrow> Inr v))"

text \<open>The loop of \<open>extract_anonymous_cookie\<close>; a second pair of the name returns None at once.\<close>

definition client_cookie_piece :: "string \<Rightarrow> string option \<Rightarrow> unit + string option" where
  "client_cookie_piece part found =
     (let piece = strip part
      in if CHR ''='' \<notin> set piece then Inr found
         else case split_once (CHR ''='') piece of (name, val) \<Rightarrow>
           if strip name \<noteq> CLIENT_COOKIE_NAME then Inr found
           else if found \<noteq> None then Inl ()
           else Inr (Some (strip val)))"

definition extract_anonymous_cookie :: "string option \<Rightarrow> string option" where
  "extract_anonymous_cookie cookie_header =
     (case cookie_header of
        None \<Rightarrow> None
      | Some h \<Rightarrow>
          if length h > 4096 \<or> has_control h then None
          else (case fold_res client_cookie_piece (split_on (CHR '';'') h) None of
            Inr (Some v) \<Rightarrow> if parse_anonymous_token v = None then None else Some v
          | _ \<Rightarrow> None))"

section \<open>Anonymous identities\<close>

record AnonymousIdentity =
  ai_id :: uuid
  ai_expires_at :: time
  ai_raw_token :: "string option"
  ai_cookie_max_age :: "int option"

definition known_identity :: "anonymous_client \<Rightarrow> AnonymousIdentity" where
  "known_identity c = \<lparr>ai_id = ac_id c, ai_expires_at = ac_expires_at c, ai_raw_token = None,
     ai_cookie_max_age = None\<rparr>"

text \<open>\<open>fresh\<close> is the new row's uuid4, \<open>raw\<close> the 32 bytes of \<open>secrets.token_bytes\<close>.\<close>

definition bootstrap_identity ::
  "(bytes \<Rightarrow> bytes) \<Rightarrow> Settings \<Rightarrow> uuid \<Rightarrow> bytes \<Rightarrow> time \<Rightarrow> string option \<Rightarrow> db \<Rightarrow>
     (AnonymousIdentity \<times> db) res" where
  "bootstrap_identity sha st fresh raw now cookie_header d =
     (let existing = (case extract_anonymous_cookie cookie_header of
            None \<Rightarrow> None
          | Some token \<Rightarrow>
              (case hash_anonymous_token sha token of
                 None \<Rightarrow> None
               | Some token_hash \<Rightarrow> get_active_client_by_hash token_hash now d))
      in case existing of
           Some c \<Rightarrow> Inr (known_identity c, d)
         | None \<Rightarrow>
             let raw_token = generate_anonymous_token raw
             in case hash_anonymous_token sha raw_token of
                  None \<Rightarrow> Inl (UncaughtError ''RuntimeError'')
                | Some token_hash \<Rightarrow>
                    andThen (create_client fresh token_hash now (st_anonymous_client_ttl_seconds st) d)
                      (\<lambda>(created, d'). Inr (\<lparr>ai_id = ac_id created, ai_expires_at = ac_expires_at created,
                         ai_raw_token = Some raw_token,
                         ai_cookie_max_age = Some (st_anonymous_client_ttl_seconds st)\<rparr>, d')))"

definition require_identity ::
  "(bytes \<Rightarrow> bytes) \<Rightarrow> time \<Rightarrow> string option \<Rightarrow> db \<Rightarrow> AnonymousIdentity res" where
  "require_identity sha now cookie_header d =
     (let token_hash = (case extract_anonymous_cookie cookie_header of
            None \<Rightarrow> None | Some token \<Rightarrow> hash_anonymous_token sha token)
      in case token_hash of
           None \<Rightarrow> Inl AnonymousIdentityRequiredError
         | Some h \<Rightarrow>
             (case get_active_client_by_hash h now d of
                None \<Rightarrow> Inl AnonymousIdentityRequiredError
              | Some c \<Rightarrow> Inr (known_identity c)))"

section \<open>Canonical codecs\<close>

text \<open>
  What the rest of the service relies on in a token parser: it accepts a string exactly when it
  is the encoding of a well-formed value, and returns that value.
\<close>

locale canonical_codec =
  fixes enc :: "'a \<Rightarrow> string" and dec :: "string \<Rightarrow> 'a option" and valid :: "'a \<Rightarrow> bool"
  assumes dec_iff: "dec t = Some x \<longleftrightarrow> valid x \<and> t = enc x"
begin

lemma dec_enc: "valid x \<Longrightarrow> dec (enc x) = Some x"
  by (simp add: dec_iff)

lemma dec_valid: "dec t = Some x \<Longrightarrow> valid x"
  by (simp add: dec_iff)

lemma enc_dec: "dec t = Some x \<Longrightarrow> enc x = t"
  by (simp add: dec_iff)

lemma enc_inj: "valid x \<Longrightarrow> valid y \<Longrightarrow> enc x = enc y \<Longrightarrow> x = y"
  by (metis dec_enc option.inject)

lemma one_spelling: "dec t = Some x \<Longrightarrow> dec u = Some x \<Longrightarrow> t = u"
  by (simp add: dec_iff)

end

definition right_of :: "'e + 'a \<Rightarrow> 'a option" where
  "right_of r = (case r of Inl _ \<Rightarrow> None | Inr x \<Rightarrow> Some x)"

lemma right_of_eq [simp]: "right_of r = Some x \<longleftrightarrow> r = Inr x"
  by (cases r) (auto simp: right_of_def)

section \<open>Base64\<close>

lemma b64_alphabet_values: "map b64_value b64_alphabet = map Some [0..<64]"
  by (simp add: b64_alphabet_def b64_value_def upt_conv_Cons)

lemma b64_value_char: "n < 64 \<Longrightarrow> b64_value (b64_char n) = Some n"
proof -
  assume n: "n < 64"
  have "length b64_alphabet = 64" by (simp add: b64_alphabet_def)
  then have "b64_value (b64_char n) = map b64_value b64_alphabet ! n" using n by (simp add: b64_char_def)
  also have "\<dots> = Some n" using n by (simp add: b64_alphabet_values)
  finally show ?thesis .
qed

lemma b64_value_less: "b64_value c = Some n \<Longrightarrow> n < 64"
  by (auto simp: b64_value_def Let_def split: if_splits)

definition octets :: "bytes \<Rightarrow> bool" where
  "octets bs \<longleftrightarrow> list_all (\<lambda>b. b < 256) bs"

lemma sextets:
  fixes a b c :: nat
  assumes "b < 256" "c < 256"
  shows "(x * 16 + b div 16) div 16 = x" "(x * 16 + b div 16) mod 16 = b div 16"
    "(y * 4 + c div 64) div 4 = y" "(y * 4 + c div 64) mod 4 = c div 64"
  using assms by simp_all

lemma sextet_bounds:
  fixes a b :: nat
  assumes "b < 256"
  shows "b div 4 < 64" "a mod 4 * 16 + b div 16 < 64" "a mod 16 * 4 + b div 64 < 64" "a mod 4 * 16 < 64"
    "a mod 16 * 4 < 64" "a mod 64 < 64" "b div 16 div 16 = 0" "b div 16 mod 16 = b div 16"
    "b div 64 div 4 = 0" "b div 64 mod 4 = b div 64"
proof -
  have d: "b div 4 < 64" "b div 16 < 16" "b div 64 < 4" using assms by simp_all
  have m: "a mod 4 < 4" "a mod 16 < 16" "a mod 64 < 64" by simp_all
  show "b div 4 < 64" "a mod 64 < 64" by (fact d m)+
  show "a mod 4 * 16 + b div 16 < 64" "a mod 16 * 4 + b div 64 < 64" "a mod 4 * 16 < 64" "a mod 16 * 4 < 64"
    using d m by linarith+
  show "b div 16 div 16 = 0" "b div 16 mod 16 = b div 16" using d by simp_all
  show "b div 64 div 4 = 0" "b div 64 mod 4 = b div 64" using d by simp_all
qed

lemma b64_encode_chars:
  "octets bs \<Longrightarrow> list_all (\<lambda>c. b64_value c \<noteq> None) (b64_encode bs)"
  by (induction bs rule: b64_encode.induct) (simp_all add: octets_def b64_value_char sextet_bounds)

lemma b64_encode_length: "length (b64_encode bs) = (4 * length bs + 2) div 3"
  by (induction bs rule: b64_encode.induct) simp_all

lemma b64_decode_encode:
  "octets bs \<Longrightarrow> length bs mod 3 = 2 \<Longrightarrow>
     b64_decode (map (\<lambda>c. the (b64_value c)) (b64_encode bs)) = Some bs"
proof (induction bs rule: b64_encode.induct)
  case (3 a b)
  then show ?case by (simp add: octets_def b64_value_char sextets sextet_bounds)
next
  case (4 a b c bs)
  then have IH: "b64_decode (map (\<lambda>c. the (b64_value c)) (b64_encode bs)) = Some bs"
    by (simp add: octets_def mod_Suc split: if_split_asm)
  from 4 have "bs \<noteq> []" by auto
  then obtain v vs where "map (\<lambda>c. the (b64_value c)) (b64_encode bs) = v # vs"
    by (cases bs rule: b64_encode.cases) auto
  with IH 4(2) show ?case
    by (simp add: octets_def b64_value_char sextets sextet_bounds)
qed simp_all

lemma b64_decode_octets:
  "b64_decode vs = Some bs \<Longrightarrow> list_all (\<lambda>v. v < 64) vs \<Longrightarrow> octets bs"
  by (induction vs arbitrary: bs rule: b64_decode.induct)
     (auto simp: octets_def split: option.split_asm)

lemma token_values: "token_shape t \<Longrightarrow> list_all (\<lambda>v. v < 64) (map (\<lambda>c. the (b64_value c)) t)"
  by (auto simp: token_shape_def list_all_iff) (metis b64_value_less option.sel)

definition token_bytes :: "bytes \<Rightarrow> bool" where
  "token_bytes raw \<longleftrightarrow> length raw = 32 \<and> octets raw"

text \<open>What all three parsers compute.\<close>

lemma canonical_token:
  "(token_shape t \<and> token_decode t = Some raw \<and> length raw = 32 \<and> b64_encode raw = t) \<longleftrightarrow>
     token_bytes raw \<and> t = b64_encode raw"
proof
  assume a: "token_shape t \<and> token_decode t = Some raw \<and> length raw = 32 \<and> b64_encode raw = t"
  then have "octets raw" using b64_decode_octets token_values unfolding token_decode_def by blast
  with a show "token_bytes raw \<and> t = b64_encode raw" by (simp add: token_bytes_def)
next
  assume a: "token_bytes raw \<and> t = b64_encode raw"
  then have raw: "length raw = 32" "octets raw" and t: "t = b64_encode raw" by (simp_all add: token_bytes_def)
  have "token_shape t"
    using b64_encode_chars [OF raw(2)] raw(1) by (simp add: token_shape_def t b64_encode_length)
  moreover have "token_decode t = Some raw"
    using b64_decode_encode [OF raw(2)] raw(1) by (simp add: token_decode_def t)
  ultimately show "token_shape t \<and> token_decode t = Some raw \<and> length raw = 32 \<and> b64_encode raw = t"
    using raw t by simp
qed

lemma parse_access_iff: "parse_access_token t = Inr raw \<longleftrightarrow> token_bytes raw \<and> t = b64_encode raw"
  unfolding canonical_token [symmetric] by (auto simp: parse_access_token_def split: option.split)

lemma parse_grant_iff: "parse_grant_token t = Inr raw \<longleftrightarrow> token_bytes raw \<and> t = b64_encode raw"
  unfolding canonical_token [symmetric] by (auto simp: parse_grant_token_def split: option.split)

lemma parse_anonymous_iff: "parse_anonymous_token t = Some raw \<longleftrightarrow> token_bytes raw \<and> t = b64_encode raw"
  unfolding canonical_token [symmetric] by (auto simp: parse_anonymous_token_def split: option.split)

interpretation access: canonical_codec generate_access_token "\<lambda>t. right_of (parse_access_token t)" token_bytes
  by unfold_locales (simp add: parse_access_iff generate_access_token_def)

interpretation grant: canonical_codec generate_grant_token "\<lambda>t. right_of (parse_grant_token t)" token_bytes
  by unfold_locales (simp add: parse_grant_iff generate_grant_token_def)

interpretation client: canonical_codec generate_anonymous_token parse_anonymous_token token_bytes
  by unfold_locales (simp add: parse_anonymous_iff generate_anonymous_token_def)

text \<open>C15. Tokens are canonical: each of the three parsers accepts a string exactly when it is the
  generated spelling of 32 bytes and returns those bytes, so that a secret has one spelling and
  two different secrets never share one.\<close>

theorem tokens_are_canonical:
  "(parse_access_token t = Inr raw \<longleftrightarrow> token_bytes raw \<and> t = generate_access_token raw) \<and>
   (parse_grant_token t = Inr raw \<longleftrightarrow> token_bytes raw \<and> t = generate_grant_token raw) \<and>
   (parse_anonymous_token t = Some raw \<longleftrightarrow> token_bytes raw \<and> t = generate_anonymous_token raw)"
  using access.dec_iff grant.dec_iff client.dec_iff by simp

section \<open>Cookies name one token\<close>

text \<open>The pairs of a header that carry a given name, as the two loops see them.\<close>

definition cookie_values :: "string \<Rightarrow> string \<Rightarrow> string list" where
  "cookie_values name h =
     map (\<lambda>part. strip (snd (split_once (CHR ''='') (strip part))))
       (filter (\<lambda>part. CHR ''='' \<in> set (strip part) \<and>
                       strip (fst (split_once (CHR ''='') (strip part))) = name)
         (split_on (CHR '';'') h))"

definition plain_value :: "string \<Rightarrow> bool" where
  "plain_value v \<longleftrightarrow> v \<noteq> [] \<and> length v \<le> 43 \<and> \<not> starts_with [CHR 0x22] v \<and> \<not> ends_with [CHR 0x22] v"

lemma grant_loop:
  "fold_res grant_cookie_piece parts found = Inr (Some v) \<longleftrightarrow>
     (let vs = map (\<lambda>part. strip (snd (split_once (CHR ''='') (strip part))))
         (filter (\<lambda>part. CHR ''='' \<in> set (strip part) \<and>
                         strip (fst (split_once (CHR ''='') (strip part))) = GRANT_COOKIE_NAME) parts)
      in (found = Some v \<and> vs = []) \<or> (found = None \<and> vs = [v] \<and> plain_value v))"
proof (induction parts arbitrary: found)
  case (Cons part parts)
  let ?piece = "strip part"
  obtain name val where sp: "split_once (CHR ''='') ?piece = (name, val)" by fastforce
  show ?case
  proof (cases "CHR ''='' \<in> set ?piece \<and> strip name = GRANT_COOKIE_NAME")
    case False
    then have "grant_cookie_piece part found = Inr found"
      using sp by (auto simp: grant_cookie_piece_def Let_def)
    with False sp Cons show ?thesis by (auto simp: Let_def)
  next
    case True
    then have ne: "?piece \<noteq> []" by auto
    show ?thesis
    proof (cases found)
      case (Some x)
      with True sp ne have "grant_cookie_piece part found = Inl (bad_grant_token ''COOKIE_DUPLICATE'')"
        by (simp add: grant_cookie_piece_def Let_def)
      with True sp Some show ?thesis by (simp add: Let_def)
    next
      case None
      with True sp ne have "grant_cookie_piece part found =
          (if plain_value (strip val) then Inr (Some (strip val)) else
           if strip val = [] \<or> length (strip val) > 43 then Inl (bad_grant_token ''COOKIE_VALUE_LENGTH'')
           else Inl (bad_grant_token ''COOKIE_VALUE_QUOTED''))"
        by (auto simp: grant_cookie_piece_def Let_def plain_value_def)
      with True sp None Cons show ?thesis by (auto simp: Let_def)
    qed
  qed
qed auto

lemma client_loop:
  "fold_res client_cookie_piece parts found = Inr (Some v) \<longleftrightarrow>
     (let vs = map (\<lambda>part. strip (snd (split_once (CHR ''='') (strip part))))
         (filter (\<lambda>part. CHR ''='' \<in> set (strip part) \<and>
                         strip (fst (split_once (CHR ''='') (strip part))) = CLIENT_COOKIE_NAME) parts)
      in (found = Some v \<and> vs = []) \<or> (found = None \<and> vs = [v]))"
proof (induction parts arbitrary: found)
  case (Cons part parts)
  let ?piece = "strip part"
  obtain name val where sp: "split_once (CHR ''='') ?piece = (name, val)" by fastforce
  show ?case
  proof (cases "CHR ''='' \<in> set ?piece \<and> strip name = CLIENT_COOKIE_NAME")
    case False
    then have "client_cookie_piece part found = Inr found"
      using sp by (auto simp: client_cookie_piece_def Let_def)
    with False sp Cons show ?thesis by (auto simp: Let_def)
  next
    case True
    with sp Cons show ?thesis by (cases found) (auto simp: client_cookie_piece_def Let_def)
  qed
qed auto

text \<open>A cookie header authenticates only when it names the cookie exactly once: the delivery
  parser returns a token exactly when one pair of the header has the name and its value is plain,
  the anonymous parser exactly when one pair has the name and its value is a canonical token; a
  header that repeats the name, is too long or holds a control character is refused.\<close>

theorem cookies_name_one_token:
  "(extract_delivery_grant_token header = Inr v \<longleftrightarrow>
      (\<exists>h. header = Some h \<and> length h \<le> 4096 \<and> \<not> has_control h \<and>
           cookie_values GRANT_COOKIE_NAME h = [v] \<and> plain_value v)) \<and>
   (extract_anonymous_cookie header = Some v \<longleftrightarrow>
      (\<exists>h. header = Some h \<and> length h \<le> 4096 \<and> \<not> has_control h \<and>
           cookie_values CLIENT_COOKIE_NAME h = [v] \<and> (\<exists>raw. parse_anonymous_token v = Some raw)))"
proof (cases header)
  case (Some h)
  have g: "fold_res grant_cookie_piece (split_on (CHR '';'') h) None = Inr (Some v) \<longleftrightarrow>
      cookie_values GRANT_COOKIE_NAME h = [v] \<and> plain_value v"
    by (simp add: grant_loop cookie_values_def Let_def)
  have c: "fold_res client_cookie_piece (split_on (CHR '';'') h) None = Inr (Some v) \<longleftrightarrow>
      cookie_values CLIENT_COOKIE_NAME h = [v]"
    by (simp add: client_loop cookie_values_def Let_def)
  have "extract_delivery_grant_token header = Inr v \<longleftrightarrow> length h \<le> 4096 \<and> \<not> has_control h \<and>
      fold_res grant_cookie_piece (split_on (CHR '';'') h) None = Inr (Some v)"
    by (auto simp: Some extract_delivery_grant_token_def andThen_eq_Inr split: option.split)
  moreover have "extract_anonymous_cookie header = Some v \<longleftrightarrow> length h \<le> 4096 \<and> \<not> has_control h \<and>
      fold_res client_cookie_piece (split_on (CHR '';'') h) None = Inr (Some v) \<and>
      (\<exists>raw. parse_anonymous_token v = Some raw)"
    by (auto simp: Some extract_anonymous_cookie_def split: option.splits sum.splits)
  ultimately show ?thesis unfolding g c using Some by auto
qed (simp_all add: extract_delivery_grant_token_def extract_anonymous_cookie_def)

section \<open>An identity that was handed out is recognized\<close>

lemma b64_plain: "b64_value c \<noteq> None \<Longrightarrow> \<not> is_space c \<and> c \<noteq> CHR '';'' \<and> c \<noteq> CHR ''='' \<and> code c \<notin> {13, 10, 0}"
  by (auto simp: b64_value_def is_space_def Let_def split: if_splits)

lemma cookie_of_token:
  assumes "parse_anonymous_token tok = Some raw"
  shows "extract_anonymous_cookie (Some (CLIENT_COOKIE_NAME @ CHR ''='' # tok)) = Some tok"
proof -
  have raw: "token_bytes raw" and t: "tok = b64_encode raw" using assms by (simp_all add: parse_anonymous_iff)
  then have len: "length tok = 43" by (simp add: token_bytes_def b64_encode_length)
  have "\<forall>c \<in> set tok. b64_value c \<noteq> None"
    using b64_encode_chars [of raw] raw by (simp add: t token_bytes_def list_all_iff)
  then have plain: "\<forall>c \<in> set tok. \<not> is_space c \<and> c \<noteq> CHR '';'' \<and> c \<noteq> CHR ''='' \<and> code c \<notin> {13, 10, 0}"
    using b64_plain by blast
  have name: "\<forall>c \<in> set CLIENT_COOKIE_NAME. \<not> is_space c \<and> c \<noteq> CHR '';'' \<and> c \<noteq> CHR ''='' \<and> code c \<notin> {13, 10, 0}"
    by (simp add: CLIENT_COOKIE_NAME_def is_space_def)
  let ?h = "CLIENT_COOKIE_NAME @ CHR ''='' # tok"
  have eqc: "\<not> is_space (CHR ''='')" "code (CHR ''='') \<notin> {13, 10, 0}" by (simp_all add: is_space_def)
  have "\<forall>c \<in> set ?h. \<not> is_space c"
    using plain name eqc(1) unfolding set_append list.set ball_Un ball_simps by blast
  then have h: "strip ?h = ?h" by (rule strip_all)
  have n: "strip CLIENT_COOKIE_NAME = CLIENT_COOKIE_NAME" by (rule strip_all) (use name in blast)
  have "strip tok = tok" by (rule strip_all) (use plain in blast)
  note sp = h n this
  have once: "split_once (CHR ''='') ?h = (CLIENT_COOKIE_NAME, tok)"
    using name by (intro split_once_append) blast
  have "split_on (CHR '';'') ?h = [?h]"
    using plain name by (intro split_on_none) auto
  then have vals: "cookie_values CLIENT_COOKIE_NAME ?h = [tok]"
    by (simp add: cookie_values_def sp once)
  have ctl: "\<not> has_control ?h"
    using plain name eqc by (auto simp: has_control_def list_ex_iff)
  have "length ?h \<le> 4096" using len by (simp add: CLIENT_COOKIE_NAME_def)
  moreover have "fold_res client_cookie_piece (split_on (CHR '';'') ?h) None = Inr (Some tok)"
    using vals by (simp add: client_loop cookie_values_def Let_def)
  ultimately show ?thesis using ctl assms by (simp add: extract_anonymous_cookie_def)
qed

text \<open>An identity that was handed out is recognized: when bootstrap mints a new anonymous
  client, presenting the cookie with the minted token at any moment before its expiry is accepted
  and gives the same client with the same expiry.\<close>

theorem bootstrap_then_require:
  assumes "bootstrap_identity sha st fresh raw now header d = Inr (ident, d')"
    and "ai_raw_token ident = Some tok" and "now' < ai_expires_at ident"
  shows "require_identity sha now' (Some (CLIENT_COOKIE_NAME @ CHR ''='' # tok)) d' =
     Inr \<lparr>ai_id = ai_id ident, ai_expires_at = ai_expires_at ident, ai_raw_token = None,
          ai_cookie_max_age = None\<rparr>"
proof -
  obtain h c where h: "hash_anonymous_token sha tok = Some h"
    and cr: "create_client fresh h now (st_anonymous_client_ttl_seconds st) d = Inr (c, d')"
    and id: "ai_id ident = ac_id c" "ai_expires_at ident = ac_expires_at c"
    using assms(1,2)
    by (auto simp: bootstrap_identity_def Let_def known_identity_def andThen_eq_Inr split: option.split_asm)
  then obtain raw' where p: "parse_anonymous_token tok = Some raw'"
    by (auto simp: hash_anonymous_token_def split: option.split_asm)
  have new: "h \<notin> ac_token_hash ` set (clients d)" "clients d' = clients d @ [c]" "ac_token_hash c = h"
    using cr by (auto simp: create_client_def Let_def split: if_split_asm)
  have "find (\<lambda>c. ac_token_hash c = h \<and> ac_expires_at c > now') (clients d) = None"
    using new(1) by (auto simp: find_None_iff)
  moreover have "find P (xs @ [y]) = (if P y then Some y else None)" if "find P xs = None" for P y and xs :: "anonymous_client list"
    using that by (induction xs) (auto split: if_split_asm)
  ultimately have "get_active_client_by_hash h now' d' = Some c"
    using new(2,3) assms(3) id by (simp add: get_active_client_by_hash_def)
  then show ?thesis
    by (simp add: require_identity_def cookie_of_token [OF p] h id known_identity_def)
qed

text \<open>A sample: a digest that keeps the first 32 bytes after the domain.\<close>

definition sample_sha :: "bytes \<Rightarrow> bytes" where
  "sample_sha x = drop (length x - 32) x"

definition sample_secret :: bytes where
  "sample_secret = replicate 32 7"

lemma sample_token: "parse_anonymous_token (b64_encode sample_secret) = Some sample_secret"
  by (simp add: parse_anonymous_iff token_bytes_def octets_def sample_secret_def list_all_iff)

definition sample_identity :: AnonymousIdentity where
  "sample_identity = \<lparr>ai_id = 1, ai_expires_at = seconds 86400,
     ai_raw_token = Some (b64_encode sample_secret), ai_cookie_max_age = Some 86400\<rparr>"

lemma sample_bootstrap:
  "bootstrap_identity sample_sha (sample_settings\<lparr>st_anonymous_client_ttl_seconds := 86400\<rparr>) 1 sample_secret 0 None empty_db =
     Inr (sample_identity, empty_db\<lparr>clients := [\<lparr>ac_id = 1, ac_token_hash = sample_secret, ac_created_at = 0,
        ac_expires_at = seconds 86400\<rparr>]\<rparr>)"
proof -
  have h: "hash_anonymous_token sample_sha (generate_anonymous_token sample_secret) = Some sample_secret"
    by (simp add: hash_anonymous_token_def generate_anonymous_token_def sample_token)
      (simp add: sample_sha_def sample_secret_def)
  have l: "length sample_secret = 32" by (simp add: sample_secret_def)
  have cr: "create_client 1 sample_secret 0 86400 empty_db = Inr (\<lparr>ac_id = 1, ac_token_hash = sample_secret,
      ac_created_at = 0, ac_expires_at = seconds 86400\<rparr>, empty_db\<lparr>clients := [\<lparr>ac_id = 1,
      ac_token_hash = sample_secret, ac_created_at = 0, ac_expires_at = seconds 86400\<rparr>]\<rparr>)"
    by (simp add: create_client_def client_ok_def l empty_db_def seconds_def Let_def)
  have ttl: "st_anonymous_client_ttl_seconds (sample_settings\<lparr>st_anonymous_client_ttl_seconds := 86400\<rparr>) = 86400"
    by simp
  show ?thesis
    unfolding bootstrap_identity_def Let_def extract_anonymous_cookie_def option.case h ttl cr andThen_Inr
      prod.case anonymous_client.simps sample_identity_def
    unfolding generate_anonymous_token_def ..
qed

theorem bootstrap_then_require_witness:
  "require_identity sample_sha 5 (Some (CLIENT_COOKIE_NAME @ CHR ''='' # b64_encode sample_secret))
     (empty_db\<lparr>clients := [\<lparr>ac_id = 1, ac_token_hash = sample_secret, ac_created_at = 0,
        ac_expires_at = seconds 86400\<rparr>]\<rparr>) =
   Inr \<lparr>ai_id = 1, ai_expires_at = seconds 86400, ai_raw_token = None, ai_cookie_max_age = None\<rparr>"
  using bootstrap_then_require [OF sample_bootstrap, of "b64_encode sample_secret" 5]
  by (simp add: sample_identity_def seconds_def)

end
