(* ===== verification/Grants.thy ===== *)
theory Grants
  imports Schema
begin

text \<open>
  \<open>BrowserGrantRepository\<close> (\<open>downloads/grant_repository.py\<close>): the rows that let a browser
  fetch a ready artifact with a cookie. A grant names the artifact and the fence of its job.
\<close>

section \<open>Operations\<close>

abbreviation gr_rejected :: error where
  "gr_rejected \<equiv> IntegrityError ''media_delivery_grants''"

definition grant_active :: "uuid \<Rightarrow> time \<Rightarrow> delivery_grant \<Rightarrow> bool" where
  "grant_active job_id now g \<longleftrightarrow>
     gr_download_job_id g = job_id \<and> gr_revoked_at g = None \<and> gr_expires_at g > now"

definition lock_download_job :: "uuid \<Rightarrow> db \<Rightarrow> download_job option" where
  "lock_download_job job_id d = row_by dj_id job_id (download_jobs d)"

definition list_active_for_job :: "uuid \<Rightarrow> time \<Rightarrow> db \<Rightarrow> delivery_grant list" where
  "list_active_for_job job_id now d =
     order_by gr_created_at (filter (grant_active job_id now) (grants d))"

definition revoked :: "time \<Rightarrow> delivery_grant \<Rightarrow> delivery_grant" where
  "revoked now g = g\<lparr>gr_revoked_at := Some (if now \<ge> gr_created_at g then now else gr_created_at g)\<rparr>"

definition revoke_grants :: "delivery_grant list \<Rightarrow> time \<Rightarrow> db \<Rightarrow> db res" where
  "revoke_grants gs now d =
     andThen (write_rows gr_id grant_ok gr_rejected (revoked now) gs (grants d))
       (\<lambda>tab. Inr (d\<lparr>grants := tab\<rparr>))"

definition insert_grant ::
  "uuid \<Rightarrow> uuid \<Rightarrow> bytes \<Rightarrow> uuid \<Rightarrow> int \<Rightarrow> time \<Rightarrow> time \<Rightarrow> db \<Rightarrow> (delivery_grant \<times> db) res" where
  "insert_grant grant_id job_id token_hash artifact_id fence_token created_at expires_at d =
     (if length token_hash \<noteq> 32 then Inl (DownloadError INTERNAL_ERROR ''GRANT_HASH_LENGTH'')
      else if expires_at \<le> created_at then Inl (DownloadError INTERNAL_ERROR ''GRANT_TTL_INVALID'')
      else
        let row = \<lparr>gr_id = grant_id, gr_download_job_id = job_id, gr_token_hash = token_hash,
              gr_artifact_id = artifact_id, gr_fence_token = fence_token,
              gr_created_at = created_at, gr_expires_at = expires_at, gr_revoked_at = None\<rparr>
        in if grant_ok row \<and> grant_id \<notin> gr_id ` set (grants d) \<and>
              token_hash \<notin> gr_token_hash ` set (grants d) \<and> job_id \<in> dj_id ` set (download_jobs d)
           then Inr (row, d\<lparr>grants := grants d @ [row]\<rparr>)
           else Inl gr_rejected)"

definition grant_by_id :: "uuid \<Rightarrow> db \<Rightarrow> delivery_grant option" where
  "grant_by_id grant_id d = row_by gr_id grant_id (grants d)"

definition dead_grant :: "time \<Rightarrow> delivery_grant \<Rightarrow> bool" where
  "dead_grant now g \<longleftrightarrow> gr_expires_at g \<le> now \<or> gr_revoked_at g \<noteq> None"

definition delete_expired_batch ::
  "(uuid \<Rightarrow> bool) \<Rightarrow> time \<Rightarrow> int \<Rightarrow> db \<Rightarrow> (nat \<times> db) res" where
  "delete_expired_batch locked now limit d =
     (if limit < 1 \<or> limit > 256 then Inl (DownloadError INTERNAL_ERROR ''GRANT_CLEANUP_LIMIT'')
      else
        let ids = map gr_id (sql_limit limit (order_by gr_expires_at
              (filter (\<lambda>g. dead_grant now g \<and> \<not> locked (gr_id g)) (grants d))))
        in if ids = [] then Inr (0, d)
           else Inr (length (filter (\<lambda>g. gr_id g \<in> set ids) (grants d)),
                     d\<lparr>grants := del_rows (\<lambda>g. gr_id g \<in> set ids) (grants d)\<rparr>))"

section \<open>Revoking\<close>

definition grants_wf :: "db \<Rightarrow> bool" where
  "grants_wf d \<longleftrightarrow> (\<forall>g \<in> set (grants d). grant_ok g) \<and> distinct (map gr_id (grants d))"

lemma revoked_ok: "grant_ok g \<Longrightarrow> grant_ok (revoked now g)"
  by (auto simp: grant_ok_def revoked_def)

lemma revoked_id [simp]: "gr_id (revoked now g) = gr_id g"
  by (simp add: revoked_def)

text \<open>Revoking stored grants never fails and rewrites exactly those.\<close>

lemma revoke_grants_map:
  assumes "grants_wf d" and "set gs \<subseteq> set (grants d)" and "distinct (map gr_id gs)"
  shows "revoke_grants gs now d =
     Inr (d\<lparr>grants := map (\<lambda>g. if g \<in> set gs then revoked now g else g) (grants d)\<rparr>)"
proof -
  have "\<forall>g \<in> set gs. grant_ok (revoked now g)"
    using assms(1,2) by (auto simp: grants_wf_def intro: revoked_ok)
  then obtain tab where w: "write_rows gr_id grant_ok gr_rejected (revoked now) gs (grants d) = Inr tab"
    using write_rows_total [of gs grant_ok "revoked now" gr_id gr_rejected "grants d"] by blast
  moreover have "tab = map (\<lambda>g. if g \<in> set gs then revoked now g else g) (grants d)"
    by (rule write_rows_map [OF w]) (use assms in \<open>simp_all add: grants_wf_def\<close>)
  ultimately show ?thesis by (simp add: revoke_grants_def)
qed

lemma list_active_stored:
  assumes "grants_wf d"
  shows "set (list_active_for_job i now d) \<subseteq> set (grants d)"
    "distinct (map gr_id (list_active_for_job i now d))"
  using assms by (auto simp: list_active_for_job_def grants_wf_def
      intro!: distinct_map_order_by distinct_map_filter_sub)

lemma keys_if_map: "map gr_id (map (\<lambda>g. if P g then revoked now g else g) gs) = map gr_id gs"
  by (induction gs) auto

lemma revoke_active_wf:
  assumes "grants_wf d"
  shows "grants_wf (d\<lparr>grants := map (\<lambda>g. if P g then revoked now g else g) (grants d)\<rparr>)"
  using assms by (auto simp: grants_wf_def keys_if_map simp del: map_map intro: revoked_ok)

text \<open>After the active grants of a job are revoked it has none, at any time.\<close>

lemma revoke_active_total:
  assumes "grants_wf d"
  shows "\<exists>d'. revoke_grants (list_active_for_job i now d) now d = Inr d' \<and> grants_wf d' \<and>
     d' = d\<lparr>grants := grants d'\<rparr> \<and>
     (\<forall>g \<in> set (grants d'). gr_download_job_id g = i \<longrightarrow> gr_expires_at g > now \<longrightarrow> gr_revoked_at g \<noteq> None)"
proof -
  let ?gs = "list_active_for_job i now d"
  let ?d' = "d\<lparr>grants := map (\<lambda>g. if g \<in> set ?gs then revoked now g else g) (grants d)\<rparr>"
  have "revoke_grants ?gs now d = Inr ?d'"
    using revoke_grants_map [OF assms list_active_stored [OF assms]] .
  moreover have "grants_wf ?d'" by (rule revoke_active_wf [OF assms])
  moreover have "\<forall>g \<in> set (grants ?d'). gr_download_job_id g = i \<longrightarrow> gr_expires_at g > now \<longrightarrow> gr_revoked_at g \<noteq> None"
  proof (intro ballI impI)
    fix g assume g: "g \<in> set (grants ?d')" "gr_download_job_id g = i" "gr_expires_at g > now"
    then obtain h where h: "h \<in> set (grants d)" "g = (if h \<in> set ?gs then revoked now h else h)"
      by (auto simp del: set_order_by)
    have active: "h \<in> set ?gs \<longleftrightarrow> grant_active i now h" using h(1) by (simp add: list_active_for_job_def)
    show "gr_revoked_at g \<noteq> None"
    proof (cases "h \<in> set ?gs")
      case True
      with h(2) show ?thesis by (simp only: if_True) (simp add: revoked_def)
    next
      case False
      then have "g = h" using h(2) by (simp only: if_False)
      with False g(2,3) active show ?thesis unfolding grant_active_def by simp
    qed
  qed
  moreover have "?d' = d\<lparr>grants := grants ?d'\<rparr>" by simp
  ultimately show ?thesis by (intro exI [of _ ?d'] conjI)
qed

end
