(* ===== verification/Fenced_Queue.thy ===== *)
theory Fenced_Queue
  imports Prelude
begin

text \<open>
  The contract both job queues (inspection and download) implement: a row carries a fence
  token that never decreases, and a row may get a lease owner only together with a larger
  fence token. From these two laws the locale derives what a worker relies on: a fence
  token names one owner for ever, and a token that has been passed stays passed.
\<close>

definition fence_step :: "('r \<Rightarrow> int) \<Rightarrow> ('r \<Rightarrow> string option) \<Rightarrow> 'r \<Rightarrow> 'r \<Rightarrow> bool" where
  "fence_step fence owner r r' \<longleftrightarrow>
     fence r \<le> fence r' \<and>
     (fence r' = fence r \<longrightarrow> owner r' = owner r \<or> owner r' = None)"

lemma reflp_fence_step: "reflp (fence_step fence owner)"
  by (simp add: reflp_def fence_step_def)

lemma transp_fence_step: "transp (fence_step fence owner)"
  unfolding transp_def fence_step_def by (metis dual_order.trans order_antisym)

lemma fence_step_bump: "fence r < fence r' \<Longrightarrow> fence_step fence owner r r'"
  by (simp add: fence_step_def)

lemma fence_step_same:
  "fence r' = fence r \<Longrightarrow> owner r' = owner r \<or> owner r' = None \<Longrightarrow> fence_step fence owner r r'"
  by (auto simp: fence_step_def)

locale fenced_queue =
  fixes tab :: "'db \<Rightarrow> 'row list"
    and key :: "'row \<Rightarrow> uuid"
    and fence :: "'row \<Rightarrow> int"
    and owner :: "'row \<Rightarrow> string option"
    and wf :: "'db \<Rightarrow> bool"
    and step :: "'db \<Rightarrow> 'db \<Rightarrow> bool"
  assumes step_wf: "step d d' \<Longrightarrow> wf d \<Longrightarrow> wf d'"
    and step_evolves: "step d d' \<Longrightarrow> wf d \<Longrightarrow>
           evolves key (fence_step fence owner) (tab d) (tab d')"
begin

lemma run_wf: "step\<^sup>*\<^sup>* d d' \<Longrightarrow> wf d \<Longrightarrow> wf d'"
  by (induction rule: rtranclp_induct) (auto intro: step_wf)

lemma run_evolves:
  assumes "step\<^sup>*\<^sup>* d d'" and "wf d"
  shows "evolves key (fence_step fence owner) (tab d) (tab d')"
  using assms
proof (induction rule: rtranclp_induct)
  case base
  show ?case by (rule evolves_refl [OF reflp_fence_step])
next
  case (step y z)
  then have "wf y" by (blast intro: run_wf)
  with step show ?case
    by (blast intro: evolves_trans [OF transp_fence_step] step_evolves)
qed

lemma fence_names_one_owner:
  assumes "step\<^sup>*\<^sup>* d d'" and "wf d"
    and "row_by key i (tab d) = Some r" and "row_by key i (tab d') = Some r'"
    and "fence r' = fence r" and "owner r' = Some w"
  shows "owner r = Some w"
  using evolvesD [OF run_evolves [OF assms(1,2)] assms(3)] assms(4-6)
  by (auto simp: fence_step_def)

lemma passed_fence_stays_passed:
  assumes "step\<^sup>*\<^sup>* d d'" and "wf d"
    and "row_by key i (tab d) = Some r" and "f < fence r"
  shows "\<exists>r'. row_by key i (tab d') = Some r' \<and> f < fence r'"
  using evolvesD [OF run_evolves [OF assms(1,2)] assms(3)] assms(4)
  by (auto simp: fence_step_def)

lemma row_survives:
  assumes "step\<^sup>*\<^sup>* d d'" and "wf d" and "row_by key i (tab d) = Some r"
  shows "\<exists>r'. row_by key i (tab d') = Some r'"
  using evolvesD [OF run_evolves [OF assms(1,2)] assms(3)] by auto

end

end
