(* ===== verification/Download_Jobs.thy ===== *)
theory Download_Jobs
  imports Snapshot Grants Delivery_Ledger Fenced_Queue
begin

text \<open>
  \<open>MediaDownloadJobRepository\<close> (\<open>downloads/repository.py\<close>): the durable queue of download jobs.
  It shares the fenced-lease discipline of the inspection queue, and every lifecycle step also
  moves the Free quota entry of the job, its delivery grants and its ledger. \<open>clk\<close> is the
  statement's \<open>clock_timestamp()\<close>, \<open>now\<close> the time the caller passes, \<open>qclk\<close> the value of
  \<open>quota.database_now()\<close>; the loops read both clocks anew per job, as functions of its id.
\<close>

section \<open>Python equality of JSON values\<close>

text \<open>\<open>==\<close> compares numbers by value (a bool is 0 or 1) and dicts regardless of their order.\<close>

definition num_of :: "json \<Rightarrow> rat option" where
  "num_of v = (case v of JBool b \<Rightarrow> Some (if b then 1 else 0) | JInt n \<Rightarrow> Some (of_int n)
               | JFloat x \<Rightarrow> Some x | _ \<Rightarrow> None)"

function (sequential) py_eq :: "json \<Rightarrow> json \<Rightarrow> bool" where
  "py_eq JNull w = (w = JNull)"
| "py_eq (JStr s) w = (w = JStr s)"
| "py_eq (JArr xs) w =
     (case w of JArr ys \<Rightarrow> length xs = length ys \<and> list_all (\<lambda>(x, y). py_eq x y) (zip xs ys)
      | _ \<Rightarrow> False)"
| "py_eq (JObj a) w =
     (case w of
        JObj b \<Rightarrow> length a = length b \<and>
          list_all (\<lambda>(k, x). case map_of b k of None \<Rightarrow> False | Some y \<Rightarrow> py_eq x y) a
      | _ \<Rightarrow> False)"
| "py_eq v w = (num_of v \<noteq> None \<and> num_of v = num_of w)"
  by pat_completeness auto

lemma size_in_list: "x \<in> set xs \<Longrightarrow> f x < Suc (size_list f xs)"
  by (induction xs) auto

termination py_eq
proof (relation "measure (\<lambda>(v, _). size v)", goal_cases)
  case (2 xs w ys z x y)
  then have "x \<in> set xs" by (auto dest: set_zip_leftD)
  then show ?case by (auto dest: size_in_list [of x xs size])
next
  case (3 a w b z k x y)
  then have "(k, x) \<in> set a" by auto
  then show ?case by (auto dest: size_in_list [of "(k, x)" a "size_prod (\<lambda>_. 0) size"])
qed simp_all

section \<open>Quota entry of a job\<close>

text \<open>\<open>_lock_quota_identity_for_job\<close>: the client when the job is quota-governed.\<close>

definition lock_quota_identity_for_job :: "uuid \<Rightarrow> db \<Rightarrow> uuid option res" where
  "lock_quota_identity_for_job job_id d =
     (case identity_id_for_download job_id d of
        None \<Rightarrow> Inr None
      | Some client_id \<Rightarrow>
          (case lock_client client_id None d of
             None \<Rightarrow> Inl (QuotaInvariantError ''quota entry references a missing identity'')
           | Some _ \<Rightarrow> Inr (Some client_id)))"

definition consume_quota_after_job_lock :: "uuid option \<Rightarrow> uuid \<Rightarrow> time \<Rightarrow> db \<Rightarrow> db res" where
  "consume_quota_after_job_lock quota job_id qclk d =
     (if quota = None then Inr d
      else (case lock_entry_for_download job_id d of
        None \<Rightarrow> Inl (QuotaInvariantError ''quota entry disappeared during ready transition'')
      | Some entry \<Rightarrow> andThen (consume_locked entry qclk) (\<lambda>e. qe_flush e d)))"

definition release_quota_after_job_lock ::
  "uuid option \<Rightarrow> uuid \<Rightarrow> bool \<Rightarrow> time \<Rightarrow> db \<Rightarrow> db res" where
  "release_quota_after_job_lock quota job_id expired qclk d =
     (if quota = None then Inr d
      else (case lock_entry_for_download job_id d of
        None \<Rightarrow> Inl (QuotaInvariantError ''quota entry disappeared during terminal transition'')
      | Some entry \<Rightarrow> andThen (release_locked entry qclk expired) (\<lambda>e. qe_flush e d)))"

section \<open>Enqueue\<close>

abbreviation dj_rejected :: error where
  "dj_rejected \<equiv> IntegrityError ''media_download_jobs''"

definition dj_insert :: "download_job \<Rightarrow> db \<Rightarrow> db res" where
  "dj_insert row d =
     (if download_job_ok row \<and> dj_id row \<notin> dj_id ` set (download_jobs d) \<and>
         (dj_media_job_id row, dj_format_option_id row)
           \<notin> (\<lambda>j. (dj_media_job_id j, dj_format_option_id j)) ` set (download_jobs d) \<and>
         dj_media_job_id row \<in> mj_id ` set (media_jobs d)
      then Inr (d\<lparr>download_jobs := download_jobs d @ [row]\<rparr>)
      else Inl dj_rejected)"

definition dj_get_by_id :: "uuid \<Rightarrow> db \<Rightarrow> download_job option" where
  "dj_get_by_id i d = row_by dj_id i (download_jobs d)"

definition immutable_fields_match :: "download_job \<Rightarrow> download_job \<Rightarrow> bool" where
  "immutable_fields_match existing job \<longleftrightarrow>
     (case (dj_selected_format_snapshot existing, dj_selected_format_snapshot job) of
        (JObj stored, JObj requested) \<Rightarrow>
          dj_media_job_id existing = dj_media_job_id job \<and>
          dj_format_option_id existing = dj_format_option_id job \<and>
          dj_provider_id existing = dj_provider_id job \<and>
          dj_canonical_provider_url existing = dj_canonical_provider_url job \<and>
          dj_media_id existing = dj_media_id job \<and> dj_hostname existing = dj_hostname job \<and>
          dj_path existing = dj_path job \<and> dj_scheme existing = dj_scheme job \<and>
          dj_port existing = dj_port job \<and> dj_schema_version existing = 1 \<and>
          dj_max_attempts existing = dj_max_attempts job \<and>
          py_eq (JObj (strip_effective_policy_snapshot stored))
            (JObj (strip_effective_policy_snapshot requested))
      | _ \<Rightarrow> False)"

text \<open>
  The request: the columns of the row it would create. \<open>enqueue_row\<close> is the constructor call.
\<close>

record enqueue_request =
  eq_media_job_id :: uuid
  eq_format_option_id :: string
  eq_provider_id :: string
  eq_canonical_provider_url :: string
  eq_media_id :: string
  eq_hostname :: string
  eq_path :: string
  eq_scheme :: string
  eq_port :: "int option"
  eq_selected_format_snapshot :: "(string \<times> json) list"
  eq_ttl_seconds :: int
  eq_max_attempts :: int
  eq_parent_expires_at :: time
  eq_suggested_filename :: "string option"

definition enqueue_row :: "uuid \<Rightarrow> enqueue_request \<Rightarrow> time \<Rightarrow> download_job" where
  "enqueue_row job_id rq now =
     \<lparr>dj_id = job_id, dj_media_job_id = eq_media_job_id rq, dj_schema_version = 1,
      dj_public_state = DJ_QUEUED, dj_format_option_id = eq_format_option_id rq,
      dj_provider_id = eq_provider_id rq,
      dj_canonical_provider_url = eq_canonical_provider_url rq, dj_media_id = eq_media_id rq,
      dj_hostname = eq_hostname rq, dj_path = eq_path rq, dj_scheme = eq_scheme rq,
      dj_port = eq_port rq, dj_selected_format_snapshot = JObj (eq_selected_format_snapshot rq),
      dj_attempt_count = 0, dj_max_attempts = eq_max_attempts rq, dj_available_at = now,
      dj_lease_owner = None, dj_lease_expires_at = None, dj_fence_token = 0,
      dj_artifact_id = None, dj_artifact_bytes = None, dj_artifact_content_type = None,
      dj_artifact_container = None, dj_public_error_code = None, dj_progress_stage = PS_QUEUED,
      dj_cancel_requested_at = None, dj_suggested_filename = eq_suggested_filename rq,
      dj_progress_percent = None, dj_created_at = now, dj_updated_at = now,
      dj_started_at = None, dj_completed_at = None,
      dj_expires_at = min (now + seconds (eq_ttl_seconds rq)) (eq_parent_expires_at rq)\<rparr>"

definition dj_enqueue_or_get ::
  "uuid \<Rightarrow> enqueue_request \<Rightarrow> time \<Rightarrow> db \<Rightarrow> ((download_job \<times> bool) \<times> db) res" where
  "dj_enqueue_or_get job_id rq now d =
     (if \<not> no_query_fragment (eq_canonical_provider_url rq)
      then Inl (DownloadError INTERNAL_ERROR ''CANONICAL_QUERY_OR_FRAGMENT'')
      else if eq_format_option_id rq = [] \<or> length (eq_format_option_id rq) > 64
      then Inl (DownloadError INTERNAL_ERROR ''FORMAT_OPTION_ID_INVALID'')
      else
        let job = enqueue_row job_id rq now
        in case dj_insert job d of
             Inr d' \<Rightarrow> Inr ((job, True), d')
           | Inl _ \<Rightarrow>
               (case find (\<lambda>j. dj_media_job_id j = eq_media_job_id rq \<and>
                               dj_format_option_id j = eq_format_option_id rq) (download_jobs d) of
                  None \<Rightarrow> Inl (DownloadError INTERNAL_ERROR ''IDEMPOTENCY_LOOKUP_MISS'')
                | Some existing \<Rightarrow>
                    if \<not> immutable_fields_match existing job
                    then Inl (DownloadError INTERNAL_ERROR ''IDEMPOTENT_ROW_MISMATCH'')
                    else Inr ((existing, False), d)))"

section \<open>Claim and lease\<close>

definition dj_claimable :: "time \<Rightarrow> download_job \<Rightarrow> bool" where
  "dj_claimable clk j \<longleftrightarrow>
     dj_public_state j = DJ_QUEUED \<and> dj_available_at j \<le> clk \<and> clk < dj_expires_at j \<and>
     dj_attempt_count j < dj_max_attempts j \<and> dj_cancel_requested_at j = None"

definition dj_claim_select :: "(uuid \<Rightarrow> bool) \<Rightarrow> time \<Rightarrow> int \<Rightarrow> db \<Rightarrow> download_job list" where
  "dj_claim_select locked clk limit d =
     sql_limit limit (order_by (\<lambda>j. (dj_created_at j, dj_id j))
       (filter (\<lambda>j. dj_claimable clk j \<and> \<not> locked (dj_id j)) (download_jobs d)))"

definition dj_claimed :: "string \<Rightarrow> time \<Rightarrow> time \<Rightarrow> download_job \<Rightarrow> download_job" where
  "dj_claimed worker_id lease_expires now j =
     j\<lparr>dj_public_state := DJ_DOWNLOADING, dj_progress_stage := PS_INSPECTING,
       dj_progress_percent := None, dj_lease_owner := Some worker_id,
       dj_lease_expires_at := Some lease_expires, dj_fence_token := dj_fence_token j + 1,
       dj_attempt_count := dj_attempt_count j + 1, dj_updated_at := now,
       dj_started_at := (case dj_started_at j of None \<Rightarrow> Some now | Some t \<Rightarrow> Some t)\<rparr>"

definition dj_claim_next ::
  "(uuid \<Rightarrow> bool) \<Rightarrow> time \<Rightarrow> string \<Rightarrow> time \<Rightarrow> time \<Rightarrow> int \<Rightarrow> db \<Rightarrow> (download_job list \<times> db) res" where
  "dj_claim_next locked clk worker_id lease_duration now limit d =
     (if limit < 1 then Inr ([], d)
      else if worker_id = [] \<or> length worker_id > 128
      then Inl (DownloadError INTERNAL_ERROR ''INVALID_WORKER_ID'')
      else
        let rows = dj_claim_select locked clk limit d;
            upd = dj_claimed worker_id (now + lease_duration) now
        in andThen (fold_res (\<lambda>j _. dj_assert_transition (dj_public_state j) DJ_DOWNLOADING) rows ())
             (\<lambda>_. andThen (write_rows dj_id download_job_ok dj_rejected upd rows (download_jobs d))
               (\<lambda>tab. Inr (map upd rows, d\<lparr>download_jobs := tab\<rparr>))))"

text \<open>
  The predicates of the statements of a lease holder: \<open>dj_held\<close> (this owner under this fence),
  \<open>dj_owned\<close> (and neither the lease nor the job has run out), \<open>dj_live\<close> (and not cancelled).
\<close>

definition dj_held :: "uuid \<Rightarrow> string \<Rightarrow> int \<Rightarrow> download_job \<Rightarrow> bool" where
  "dj_held job_id own fence j \<longleftrightarrow>
     dj_id j = job_id \<and> dj_public_state j = DJ_DOWNLOADING \<and> dj_lease_owner j = Some own \<and>
     dj_fence_token j = fence"

definition dj_owned :: "time \<Rightarrow> uuid \<Rightarrow> string \<Rightarrow> int \<Rightarrow> download_job \<Rightarrow> bool" where
  "dj_owned clk job_id own fence j \<longleftrightarrow>
     dj_held job_id own fence j \<and> opt_gt (dj_lease_expires_at j) clk \<and> clk < dj_expires_at j"

definition dj_live :: "time \<Rightarrow> uuid \<Rightarrow> string \<Rightarrow> int \<Rightarrow> download_job \<Rightarrow> bool" where
  "dj_live clk job_id own fence j \<longleftrightarrow>
     dj_owned clk job_id own fence j \<and> dj_cancel_requested_at j = None"

definition dj_update ::
  "(download_job \<Rightarrow> bool) \<Rightarrow> (download_job \<Rightarrow> download_job) \<Rightarrow> db \<Rightarrow> (bool \<times> db) res" where
  "dj_update P f d =
     andThen (update_where download_job_ok dj_rejected P f (download_jobs d))
       (\<lambda>(tab, n). Inr (n \<noteq> 0, d\<lparr>download_jobs := tab\<rparr>))"

definition dj_renew_lease ::
  "time \<Rightarrow> uuid \<Rightarrow> string \<Rightarrow> int \<Rightarrow> time \<Rightarrow> db \<Rightarrow> (bool \<times> db) res" where
  "dj_renew_lease clk job_id own fence lease_duration d =
     dj_update (dj_owned clk job_id own fence)
       (\<lambda>j. j\<lparr>dj_lease_expires_at := Some (clk + lease_duration), dj_updated_at := clk\<rparr>) d"

section \<open>Finishing an attempt\<close>

definition no_result :: "download_job \<Rightarrow> download_job" where
  "no_result j = j\<lparr>dj_artifact_id := None, dj_artifact_bytes := None,
     dj_artifact_content_type := None, dj_artifact_container := None\<rparr>"

definition no_lease :: "download_job \<Rightarrow> download_job" where
  "no_lease j = j\<lparr>dj_lease_owner := None, dj_lease_expires_at := None\<rparr>"

definition dj_ready_row ::
  "time \<Rightarrow> uuid \<Rightarrow> int \<Rightarrow> string \<Rightarrow> string \<Rightarrow> download_job \<Rightarrow> download_job" where
  "dj_ready_row clk artifact_id artifact_bytes content_type container j =
     no_lease (j\<lparr>dj_public_state := DJ_READY, dj_progress_stage := PS_READY,
       dj_progress_percent := None, dj_artifact_id := Some artifact_id,
       dj_artifact_bytes := Some artifact_bytes, dj_artifact_content_type := Some content_type,
       dj_artifact_container := Some container, dj_public_error_code := None,
       dj_completed_at := Some clk, dj_updated_at := clk\<rparr>)"

definition dj_complete_ready ::
  "time \<Rightarrow> time \<Rightarrow> uuid \<Rightarrow> string \<Rightarrow> int \<Rightarrow> uuid \<Rightarrow> int \<Rightarrow> string \<Rightarrow> string \<Rightarrow> bool \<Rightarrow> db \<Rightarrow> (bool \<times> db) res" where
  "dj_complete_ready clk qclk job_id own fence artifact_id artifact_bytes content_type container
       consume_quota_on_ready d =
     (if artifact_bytes \<le> 0 then Inl (DownloadError INTERNAL_ERROR ''ARTIFACT_BYTES_INVALID'')
      else
        andThen (dj_assert_transition DJ_DOWNLOADING DJ_READY) (\<lambda>_.
        andThen (if consume_quota_on_ready then lock_quota_identity_for_job job_id d else Inr None) (\<lambda>quota.
        andThen (dj_update (dj_live clk job_id own fence)
                   (dj_ready_row clk artifact_id artifact_bytes content_type container) d) (\<lambda>(applied, d1).
          if applied \<and> consume_quota_on_ready
          then andThen (consume_quota_after_job_lock quota job_id qclk d1) (\<lambda>d2. Inr (applied, d2))
          else Inr (applied, d1)))))"

definition dj_failed_row :: "time \<Rightarrow> string \<Rightarrow> download_job \<Rightarrow> download_job" where
  "dj_failed_row clk public_error_code j =
     no_lease (no_result (j\<lparr>dj_public_state := DJ_FAILED, dj_progress_stage := PS_FAILED,
       dj_progress_percent := None, dj_public_error_code := Some public_error_code,
       dj_completed_at := Some clk, dj_updated_at := clk\<rparr>))"

definition dj_fail_permanent ::
  "time \<Rightarrow> time \<Rightarrow> uuid \<Rightarrow> string \<Rightarrow> int \<Rightarrow> string \<Rightarrow> db \<Rightarrow> (bool \<times> db) res" where
  "dj_fail_permanent clk qclk job_id own fence public_error_code d =
     andThen (dj_assert_transition DJ_DOWNLOADING DJ_FAILED) (\<lambda>_.
     andThen (lock_quota_identity_for_job job_id d) (\<lambda>quota.
     andThen (dj_update (dj_live clk job_id own fence) (dj_failed_row clk public_error_code) d) (\<lambda>(applied, d1).
       if applied
       then andThen (release_quota_after_job_lock quota job_id False qclk d1) (\<lambda>d2. Inr (True, d2))
       else Inr (False, d1))))"

definition dj_cancelled_row :: "time \<Rightarrow> download_job \<Rightarrow> download_job" where
  "dj_cancelled_row clk j =
     no_lease (no_result (j\<lparr>dj_public_state := DJ_EXPIRED, dj_progress_stage := PS_CANCELLED,
       dj_progress_percent := None, dj_public_error_code := None,
       dj_completed_at := Some clk, dj_updated_at := clk\<rparr>))"

definition dj_complete_cancelled ::
  "time \<Rightarrow> time \<Rightarrow> uuid \<Rightarrow> string \<Rightarrow> int \<Rightarrow> db \<Rightarrow> (bool \<times> db) res" where
  "dj_complete_cancelled clk qclk job_id own fence d =
     andThen (dj_assert_transition DJ_DOWNLOADING DJ_EXPIRED) (\<lambda>_.
     andThen (lock_quota_identity_for_job job_id d) (\<lambda>quota.
     andThen (dj_update (\<lambda>j. dj_held job_id own fence j \<and> dj_cancel_requested_at j \<noteq> None)
                (dj_cancelled_row clk) d) (\<lambda>(applied, d1).
       if applied
       then andThen (release_quota_after_job_lock quota job_id False qclk d1) (\<lambda>d2. Inr (True, d2))
       else Inr (False, d1))))"

definition dj_requeued_row :: "time \<Rightarrow> DownloadProgressStage \<Rightarrow> time \<Rightarrow> download_job \<Rightarrow> download_job" where
  "dj_requeued_row clk stage available_at j =
     no_lease (j\<lparr>dj_public_state := DJ_QUEUED, dj_progress_stage := stage,
       dj_progress_percent := None, dj_available_at := available_at, dj_updated_at := clk\<rparr>)"

definition dj_fail_retry ::
  "time \<Rightarrow> time \<Rightarrow> uuid \<Rightarrow> string \<Rightarrow> int \<Rightarrow> time \<Rightarrow> time \<Rightarrow> string \<Rightarrow> db \<Rightarrow> (bool \<times> db) res" where
  "dj_fail_retry clk qclk job_id own fence now backoff public_error_code d =
     (case dj_get_by_id job_id d of
        None \<Rightarrow> Inr (False, d)
      | Some job \<Rightarrow>
          if dj_public_state job \<noteq> DJ_DOWNLOADING \<or> dj_lease_owner job \<noteq> Some own \<or>
             dj_fence_token job \<noteq> fence
          then Inr (False, d)
          else if dj_cancel_requested_at job \<noteq> None
          then dj_complete_cancelled clk qclk job_id own fence d
          else if dj_attempt_count job \<ge> dj_max_attempts job
          then dj_fail_permanent clk qclk job_id own fence public_error_code d
          else andThen (dj_assert_transition DJ_DOWNLOADING DJ_QUEUED) (\<lambda>_.
            dj_update (dj_live clk job_id own fence)
              (\<lambda>j. (dj_requeued_row clk PS_RETRYING (now + max 0 backoff) j)
                     \<lparr>dj_public_error_code := None\<rparr>) d))"

definition dj_release_to_queued ::
  "time \<Rightarrow> uuid \<Rightarrow> string \<Rightarrow> int \<Rightarrow> time \<Rightarrow> db \<Rightarrow> (bool \<times> db) res" where
  "dj_release_to_queued clk job_id own fence now d =
     andThen (dj_assert_transition DJ_DOWNLOADING DJ_QUEUED) (\<lambda>_.
       dj_update (dj_live clk job_id own fence)
         (\<lambda>j. (dj_requeued_row clk PS_QUEUED now j)
                \<lparr>dj_attempt_count := max (dj_attempt_count j - 1) 0\<rparr>) d)"

definition list_active_fences :: "db \<Rightarrow> (uuid \<times> int) set" where
  "list_active_fences d =
     set (map (\<lambda>j. (dj_id j, dj_fence_token j))
       (filter (\<lambda>j. dj_public_state j = DJ_DOWNLOADING) (download_jobs d)))"

definition list_referenced_artifact_ids :: "db \<Rightarrow> uuid set" where
  "list_referenced_artifact_ids d =
     set (concat (map (\<lambda>j. case dj_artifact_id j of None \<Rightarrow> [] | Some a \<Rightarrow> [a]) (download_jobs d)))"

section \<open>Reclaiming expired leases\<close>

definition apply_stored_cancel :: "time \<Rightarrow> download_job \<Rightarrow> download_job" where
  "apply_stored_cancel now j =
     no_result (no_lease (j\<lparr>dj_public_state := DJ_EXPIRED, dj_progress_stage := PS_CANCELLED,
       dj_progress_percent := None, dj_updated_at := now,
       dj_completed_at := (case dj_completed_at j of None \<Rightarrow> Some now | Some t \<Rightarrow> Some t),
       dj_public_error_code := None\<rparr>))"

definition bump_fence :: "download_job \<Rightarrow> download_job" where
  "bump_fence j = j\<lparr>dj_fence_token := dj_fence_token j + 1\<rparr>"

definition dj_flush :: "download_job \<Rightarrow> db \<Rightarrow> db res" where
  "dj_flush j d =
     andThen (write_row dj_id download_job_ok dj_rejected j (download_jobs d))
       (\<lambda>tab. Inr (d\<lparr>download_jobs := tab\<rparr>))"

definition dj_reclaimable :: "time \<Rightarrow> download_job \<Rightarrow> bool" where
  "dj_reclaimable clk j \<longleftrightarrow>
     dj_public_state j = DJ_DOWNLOADING \<and> opt_le (dj_lease_expires_at j) clk \<and>
     clk < dj_expires_at j"

definition dj_reclaimed :: "time \<Rightarrow> download_job \<Rightarrow> download_job" where
  "dj_reclaimed now j =
     (let exhausted = dj_attempt_count j \<ge> dj_max_attempts j;
          j' = bump_fence (no_lease (j\<lparr>dj_public_state := (if exhausted then DJ_FAILED else DJ_QUEUED),
                 dj_progress_stage := (if exhausted then PS_FAILED else PS_RETRYING),
                 dj_progress_percent := None, dj_available_at := now, dj_updated_at := now\<rparr>))
      in if exhausted
         then no_result (j'\<lparr>dj_public_error_code := Some ''DOWNLOAD_TOOL_FAILED'',
                 dj_completed_at := Some now\<rparr>)
         else j')"

definition dj_reclaim_one ::
  "(uuid \<Rightarrow> bool) \<Rightarrow> (uuid \<Rightarrow> time) \<Rightarrow> (uuid \<Rightarrow> time) \<Rightarrow> time \<Rightarrow> uuid \<Rightarrow> nat \<times> db \<Rightarrow> (nat \<times> db) res" where
  "dj_reclaim_one locked rclk qclk now job_id acc =
     (case acc of (changed, d) \<Rightarrow>
        andThen (lock_quota_identity_for_job job_id d) (\<lambda>quota.
          case find (\<lambda>j. dj_id j = job_id \<and> dj_reclaimable (rclk job_id) j \<and> \<not> locked job_id)
                 (download_jobs d) of
            None \<Rightarrow> Inr (changed, d)
          | Some job \<Rightarrow>
              if dj_cancel_requested_at job \<noteq> None
              then andThen (dj_assert_transition DJ_DOWNLOADING DJ_EXPIRED) (\<lambda>_.
                   andThen (dj_flush (bump_fence (apply_stored_cancel now job)) d) (\<lambda>d1.
                   andThen (release_quota_after_job_lock quota job_id False (qclk job_id) d1)
                     (\<lambda>d2. Inr (changed + 1, d2))))
              else
                let exhausted = dj_attempt_count job \<ge> dj_max_attempts job
                in andThen (dj_assert_transition DJ_DOWNLOADING
                              (if exhausted then DJ_FAILED else DJ_QUEUED)) (\<lambda>_.
                   andThen (dj_flush (dj_reclaimed now job) d) (\<lambda>d1.
                   andThen (if exhausted
                            then release_quota_after_job_lock quota job_id False (qclk job_id) d1
                            else Inr d1)
                     (\<lambda>d2. Inr (changed + 1, d2))))))"

definition dj_reclaim_expired_leases ::
  "(uuid \<Rightarrow> bool) \<Rightarrow> time \<Rightarrow> (uuid \<Rightarrow> time) \<Rightarrow> (uuid \<Rightarrow> time) \<Rightarrow> time \<Rightarrow> db \<Rightarrow> (nat \<times> db) res" where
  "dj_reclaim_expired_leases locked clk rclk qclk now d =
     fold_res (dj_reclaim_one locked rclk qclk now)
       (map dj_id (filter (dj_reclaimable clk) (download_jobs d))) (0, d)"

section \<open>Expiry\<close>

definition revoke_active_grants_locked :: "uuid \<Rightarrow> time \<Rightarrow> db \<Rightarrow> db res" where
  "revoke_active_grants_locked job_id now d =
     revoke_grants (list_active_for_job job_id now d) now d"

text \<open>\<open>_apply_expired_job_fields\<close>: the new row and the artifact it gives up.\<close>

definition dj_expired_row :: "time \<Rightarrow> download_job \<Rightarrow> download_job" where
  "dj_expired_row now j =
     bump_fence (no_result (no_lease (j\<lparr>dj_public_state := DJ_EXPIRED,
       dj_progress_stage := PS_EXPIRED, dj_progress_percent := None,
       dj_cancel_requested_at := None, dj_public_error_code := None, dj_updated_at := now,
       dj_completed_at := (case dj_completed_at j of None \<Rightarrow> Some now | Some t \<Rightarrow> Some t)\<rparr>)))"

definition apply_expired_job_fields ::
  "download_job \<Rightarrow> time \<Rightarrow> uuid list \<Rightarrow> (download_job \<times> uuid list) res" where
  "apply_expired_job_fields j now artifact_ids =
     andThen (if is_stored_cancelled (dj_public_state j) (Some (dj_progress_stage j))
                   (dj_cancel_requested_at j)
              then dj_assert_transition DJ_CANCELLED DJ_EXPIRED
              else dj_assert_transition (dj_public_state j) DJ_EXPIRED) (\<lambda>_.
       Inr (dj_expired_row now j,
            artifact_ids @ (case dj_artifact_id j of None \<Rightarrow> [] | Some a \<Rightarrow> [a])))"

definition quarantine_ready_terminal_quota_locked ::
  "download_job \<Rightarrow> quota_entry \<Rightarrow> time \<Rightarrow> uuid list \<Rightarrow> db \<Rightarrow> (bool \<times> uuid list \<times> db) res" where
  "quarantine_ready_terminal_quota_locked job entry now artifact_ids d =
     (if has_live_attempt_locked entry now d then Inr (False, artifact_ids, d)
      else
        andThen (revoke_active_grants_locked (dj_id job) now d) (\<lambda>d1.
        andThen (apply_expired_job_fields job now artifact_ids) (\<lambda>(job', arts).
        andThen (dj_flush job' d1) (\<lambda>d2. Inr (True, arts, d2)))))"

definition dj_due :: "time \<Rightarrow> download_job \<Rightarrow> bool" where
  "dj_due clk j \<longleftrightarrow>
     dj_expires_at j \<le> clk \<and>
     (dj_public_state j \<in> {DJ_QUEUED, DJ_DOWNLOADING, DJ_READY, DJ_FAILED} \<or>
      (dj_public_state j = DJ_EXPIRED \<and> dj_progress_stage j = PS_CANCELLED \<and>
       dj_cancel_requested_at j \<noteq> None))"

text \<open>The tail of the loop body: the job expires and a reservation it still holds is given up.\<close>

definition dj_expire_job ::
  "time \<Rightarrow> time \<Rightarrow> download_job \<Rightarrow> quota_entry option \<Rightarrow> uuid list \<Rightarrow> db \<Rightarrow> (uuid list \<times> db) res" where
  "dj_expire_job now qnow job entry arts d =
     andThen (if dj_public_state job = DJ_READY then revoke_active_grants_locked (dj_id job) now d
              else Inr d) (\<lambda>d1.
     andThen (apply_expired_job_fields job now arts) (\<lambda>(job', arts').
     andThen (dj_flush job' d1) (\<lambda>d2.
       case entry of
         None \<Rightarrow> Inr (arts', d2)
       | Some e \<Rightarrow>
           if qe_state e = Q_RESERVED
           then andThen (release_locked e qnow True) (\<lambda>e'.
                andThen (qe_flush e' d2) (\<lambda>d3. Inr (arts', d3)))
           else Inr (arts', d2))))"

text \<open>
  One iteration inside its savepoint. \<open>reconcile_locked\<close> changes the entry it is given, so
  its state is read again afterwards.
\<close>

definition dj_expire_body ::
  "pylib \<Rightarrow> (uuid \<Rightarrow> bool) \<Rightarrow> (uuid \<Rightarrow> time) \<Rightarrow> (uuid \<Rightarrow> time) \<Rightarrow> (uuid \<Rightarrow> nat \<Rightarrow> uuid) \<Rightarrow> time \<Rightarrow> uuid \<Rightarrow>
     uuid list \<Rightarrow> db \<Rightarrow> (uuid list \<times> db) res" where
  "dj_expire_body py locked rclk qclk fresh now job_id arts d =
     andThen (lock_quota_identity_for_job job_id d) (\<lambda>quota.
       case find (\<lambda>j. dj_id j = job_id \<and> dj_due (rclk job_id) j \<and> \<not> locked job_id)
              (download_jobs d) of
         None \<Rightarrow> Inr (arts, d)
       | Some job \<Rightarrow>
           if quota = None then dj_expire_job now (qclk job_id) job None arts d
           else (case lock_entry_for_download job_id d of
             None \<Rightarrow> Inr (arts, d)
           | Some entry \<Rightarrow>
               if dj_public_state job = DJ_READY \<and> qe_state entry = Q_RELEASED \<and>
                  is_coherent_promoted_premium_job py job (Some (qe_anonymous_client_id entry))
               then if has_live_attempt_locked entry now d then Inr (arts, d)
                    else dj_expire_job now (qclk job_id) job (Some entry) arts d
               else if dj_public_state job = DJ_READY \<and> qe_state entry \<in> {Q_RELEASED, Q_EXPIRED}
               then andThen (quarantine_ready_terminal_quota_locked job entry now arts d)
                      (\<lambda>(_, arts', d'). Inr (arts', d'))
               else if qe_state entry = Q_RESERVED \<and> dj_public_state job = DJ_READY
               then andThen (reconcile_locked (fresh job_id) job entry now d) (\<lambda>(_, d1).
                      case lock_entry_for_download job_id d1 of
                        None \<Rightarrow> Inr (arts, d1)
                      | Some entry1 \<Rightarrow>
                          if qe_state entry1 = Q_RESERVED \<and> has_live_attempt_locked entry1 now d1
                          then Inr (arts, d1)
                          else dj_expire_job now (qclk job_id) job (Some entry1) arts d1)
               else dj_expire_job now (qclk job_id) job (Some entry) arts d))"

text \<open>A QuotaInvariantError rolls its savepoint back and the loop goes on.\<close>

definition dj_expire_one ::
  "pylib \<Rightarrow> (uuid \<Rightarrow> bool) \<Rightarrow> (uuid \<Rightarrow> time) \<Rightarrow> (uuid \<Rightarrow> time) \<Rightarrow> (uuid \<Rightarrow> nat \<Rightarrow> uuid) \<Rightarrow> time \<Rightarrow> uuid \<Rightarrow>
     uuid list \<times> db \<Rightarrow> (uuid list \<times> db) res" where
  "dj_expire_one py locked rclk qclk fresh now job_id acc =
     (case acc of (arts, d) \<Rightarrow>
        (case dj_expire_body py locked rclk qclk fresh now job_id arts d of
           Inl (QuotaInvariantError _) \<Rightarrow> Inr (arts, d)
         | r \<Rightarrow> r))"

definition dj_expire_due_jobs ::
  "pylib \<Rightarrow> (uuid \<Rightarrow> bool) \<Rightarrow> time \<Rightarrow> (uuid \<Rightarrow> time) \<Rightarrow> (uuid \<Rightarrow> time) \<Rightarrow> (uuid \<Rightarrow> nat \<Rightarrow> uuid) \<Rightarrow> time \<Rightarrow> db \<Rightarrow>
     (uuid list \<times> db) res" where
  "dj_expire_due_jobs py locked clk rclk qclk fresh now d =
     fold_res (dj_expire_one py locked rclk qclk fresh now)
       (map dj_id (order_by (\<lambda>j. (dj_expires_at j, dj_id j)) (filter (dj_due clk) (download_jobs d))))
       ([], d)"

section \<open>Cancelling\<close>

definition dj_request_cancel ::
  "time \<Rightarrow> uuid \<Rightarrow> time \<Rightarrow> db \<Rightarrow> (download_job option \<times> db) res" where
  "dj_request_cancel qclk job_id now d =
     andThen (lock_quota_identity_for_job job_id d) (\<lambda>quota.
       case dj_get_by_id job_id d of
         None \<Rightarrow> Inr (None, d)
       | Some job \<Rightarrow>
           if is_stored_cancelled (dj_public_state job) (Some (dj_progress_stage job))
                (dj_cancel_requested_at job)
           then Inr (Some job, d)
           else if dj_public_state job \<in> {DJ_READY, DJ_FAILED, DJ_EXPIRED}
           then Inr (Some job, d)
           else if dj_public_state job = DJ_QUEUED
           then andThen (dj_assert_transition DJ_QUEUED DJ_EXPIRED) (\<lambda>_.
                let job' = apply_stored_cancel now (job\<lparr>dj_cancel_requested_at := Some now\<rparr>)
                in andThen (dj_flush job' d) (\<lambda>d1.
                   andThen (release_quota_after_job_lock quota job_id False qclk d1)
                     (\<lambda>d2. Inr (Some job', d2))))
           else if dj_public_state job = DJ_DOWNLOADING
           then (if dj_cancel_requested_at job = None
                 then let job' = job\<lparr>dj_cancel_requested_at := Some now, dj_updated_at := now\<rparr>
                      in andThen (dj_flush job' d) (\<lambda>d1. Inr (Some job', d1))
                 else Inr (Some job, d))
           else Inl (DownloadError INTERNAL_ERROR ''UNKNOWN_DOWNLOAD_STATE''))"

section \<open>Progress\<close>

definition dj_set_progress_stage ::
  "uuid \<Rightarrow> string \<Rightarrow> int \<Rightarrow> DownloadProgressStage \<Rightarrow> time \<Rightarrow> db \<Rightarrow> (bool \<times> db) res" where
  "dj_set_progress_stage job_id own fence target now d =
     (if target \<in> {PS_READY, PS_FAILED, PS_CANCELLED, PS_EXPIRED} then Inr (False, d)
      else (case find (\<lambda>j. dj_held job_id own fence j \<and> dj_cancel_requested_at j = None)
                   (download_jobs d) of
        None \<Rightarrow> Inr (False, d)
      | Some job \<Rightarrow>
          andThen (assert_progress_transition (dj_progress_stage job) target) (\<lambda>_.
          andThen (dj_flush (job\<lparr>dj_progress_percent :=
                       (if dj_progress_stage job \<noteq> target then None else dj_progress_percent job),
                     dj_progress_stage := target, dj_updated_at := now\<rparr>) d)
            (\<lambda>d1. Inr (True, d1)))))"

definition dj_set_progress_percent ::
  "time \<Rightarrow> uuid \<Rightarrow> string \<Rightarrow> int \<Rightarrow> int \<Rightarrow> time \<Rightarrow> db \<Rightarrow> (bool \<times> db) res" where
  "dj_set_progress_percent clk job_id own fence percent now d =
     (if percent < 0 \<or> percent > 99 then Inr (False, d)
      else (case find (\<lambda>j. dj_live clk job_id own fence j \<and>
                        dj_progress_stage j \<in> {PS_DOWNLOADING_VIDEO, PS_DOWNLOADING_AUDIO})
                   (download_jobs d) of
        None \<Rightarrow> Inr (False, d)
      | Some job \<Rightarrow>
          (case dj_progress_percent job of
             Some stored \<Rightarrow>
               if percent < stored then Inr (False, d)
               else if percent = stored then Inr (True, d)
               else andThen (dj_flush (job\<lparr>dj_progress_percent := Some percent, dj_updated_at := now\<rparr>) d)
                      (\<lambda>d1. Inr (True, d1))
           | None \<Rightarrow>
               andThen (dj_flush (job\<lparr>dj_progress_percent := Some percent, dj_updated_at := now\<rparr>) d)
                 (\<lambda>d1. Inr (True, d1)))))"

datatype lease_verdict = OWNED | LOST | CANCELLED_LEASE

definition dj_lease_status ::
  "time \<Rightarrow> time \<Rightarrow> uuid \<Rightarrow> string \<Rightarrow> int \<Rightarrow> time \<Rightarrow> db \<Rightarrow> (lease_verdict \<times> db) res" where
  "dj_lease_status clk rclk job_id own fence lease_duration d =
     (case find (dj_owned clk job_id own fence) (download_jobs d) of
        None \<Rightarrow> Inr (LOST, d)
      | Some job \<Rightarrow>
          if dj_cancel_requested_at job \<noteq> None then Inr (CANCELLED_LEASE, d)
          else andThen (dj_renew_lease rclk job_id own fence lease_duration d)
                 (\<lambda>(renewed, d1). Inr (if renewed then OWNED else LOST, d1)))"

end
