(* ===== verification/Media_Jobs.thy ===== *)
theory Media_Jobs
  imports Schema Fenced_Queue
begin

text \<open>
  \<open>MediaJobRepository\<close> (\<open>jobs/repository.py\<close>): the durable queue of inspection jobs.
  Every operation is a function on the database that returns its result with the new
  database, or the error it raises. \<open>clk\<close> is the statement's \<open>clock_timestamp()\<close>, \<open>now\<close>
  the time the caller passes; \<open>locked\<close> tells which rows other transactions hold, so that
  \<open>SKIP LOCKED\<close> is a filter. A \<open>timedelta\<close> argument is passed as a duration.
\<close>

section \<open>Operations\<close>

abbreviation mj_rejected :: error where
  "mj_rejected \<equiv> IntegrityError ''media_jobs''"

text \<open>An insert is refused when a CHECK, the primary key or the credential is violated.\<close>

definition mj_insert :: "media_job \<Rightarrow> db \<Rightarrow> db res" where
  "mj_insert row d =
     (if media_job_ok row \<and> mj_id row \<notin> mj_id ` set (media_jobs d) \<and>
         mj_credential_hash row \<notin> mj_credential_hash ` set (media_jobs d)
      then Inr (d\<lparr>media_jobs := media_jobs d @ [row]\<rparr>)
      else Inl mj_rejected)"

definition tokens_match :: "bytes \<Rightarrow> bytes \<Rightarrow> bool" where
  "tokens_match left right \<longleftrightarrow> length left = length right \<and> left = right"

definition mj_get_by_id :: "uuid \<Rightarrow> db \<Rightarrow> media_job option" where
  "mj_get_by_id i d = row_by mj_id i (media_jobs d)"

definition mj_get_by_credential_hash :: "bytes \<Rightarrow> db \<Rightarrow> media_job option" where
  "mj_get_by_credential_hash h d = row_by mj_credential_hash h (media_jobs d)"

definition mj_enqueue_or_get ::
  "uuid \<Rightarrow> bytes \<Rightarrow> bytes \<Rightarrow> string \<Rightarrow> string \<Rightarrow> string \<Rightarrow> string \<Rightarrow> string \<Rightarrow> string \<Rightarrow>
     int option \<Rightarrow> time \<Rightarrow> int \<Rightarrow> int \<Rightarrow> db \<Rightarrow> ((media_job \<times> bool) \<times> db) res" where
  "mj_enqueue_or_get fresh credential_hash request_fingerprint provider_id
       canonical_provider_url media_id hostname path scheme port now ttl_seconds
       max_attempts d =
     (if length credential_hash \<noteq> 32 \<or> length request_fingerprint \<noteq> 32
      then Inl (JobError JOB_INTERNAL_ERROR ''HASH_LENGTH'')
      else if \<not> no_query_fragment canonical_provider_url
      then Inl (JobError JOB_INTERNAL_ERROR ''CANONICAL_QUERY_OR_FRAGMENT'')
      else
        let job = \<lparr>mj_id = fresh, mj_schema_version = 1, mj_result_version = 0,
              mj_public_state = MJ_QUEUED, mj_provider_id = provider_id,
              mj_canonical_provider_url = canonical_provider_url, mj_media_id = media_id,
              mj_hostname = hostname, mj_path = path, mj_scheme = scheme, mj_port = port,
              mj_credential_hash = credential_hash,
              mj_request_fingerprint = request_fingerprint, mj_result_metadata = None,
              mj_public_error_code = None, mj_attempt_count = 0,
              mj_max_attempts = max_attempts, mj_available_at = now, mj_lease_owner = None,
              mj_lease_expires_at = None, mj_fence_token = 0, mj_created_at = now,
              mj_updated_at = now, mj_started_at = None, mj_completed_at = None,
              mj_expires_at = now + seconds ttl_seconds\<rparr>
        in case mj_insert job d of
             Inr d' \<Rightarrow> Inr ((job, True), d')
           | Inl _ \<Rightarrow>
               (case mj_get_by_credential_hash credential_hash d of
                  None \<Rightarrow> Inl (JobError JOB_INTERNAL_ERROR ''IDEMPOTENCY_LOOKUP_MISS'')
                | Some existing \<Rightarrow>
                    if \<not> tokens_match (mj_request_fingerprint existing) request_fingerprint
                    then Inl (JobError IDEMPOTENCY_CONFLICT ''FINGERPRINT_MISMATCH'')
                    else Inr ((existing, False), d)))"

text \<open>\<open>_claim_select\<close>: the rows a claim may take, oldest first.\<close>

definition mj_claimable :: "time \<Rightarrow> media_job \<Rightarrow> bool" where
  "mj_claimable clk j \<longleftrightarrow>
     mj_public_state j = MJ_QUEUED \<and> mj_available_at j \<le> clk \<and> clk < mj_expires_at j \<and>
     mj_attempt_count j < mj_max_attempts j"

definition mj_claim_select :: "(uuid \<Rightarrow> bool) \<Rightarrow> time \<Rightarrow> int \<Rightarrow> db \<Rightarrow> media_job list" where
  "mj_claim_select locked clk limit d =
     sql_limit limit (order_by (\<lambda>j. (mj_created_at j, mj_id j))
       (filter (\<lambda>j. mj_claimable clk j \<and> \<not> locked (mj_id j)) (media_jobs d)))"

definition mj_claimed :: "string \<Rightarrow> time \<Rightarrow> time \<Rightarrow> media_job \<Rightarrow> media_job" where
  "mj_claimed worker_id lease_expires now j =
     j\<lparr>mj_public_state := MJ_INSPECTING, mj_lease_owner := Some worker_id,
       mj_lease_expires_at := Some lease_expires, mj_fence_token := mj_fence_token j + 1,
       mj_attempt_count := mj_attempt_count j + 1, mj_updated_at := now,
       mj_started_at := (case mj_started_at j of None \<Rightarrow> Some now | Some t \<Rightarrow> Some t)\<rparr>"

definition mj_claim_next ::
  "(uuid \<Rightarrow> bool) \<Rightarrow> time \<Rightarrow> string \<Rightarrow> time \<Rightarrow> time \<Rightarrow> int \<Rightarrow> db \<Rightarrow> (media_job list \<times> db) res" where
  "mj_claim_next locked clk worker_id lease_duration now limit d =
     (if limit < 1 then Inr ([], d)
      else if worker_id = [] \<or> length worker_id > 128
      then Inl (JobError JOB_INTERNAL_ERROR ''INVALID_WORKER_ID'')
      else
        let rows = mj_claim_select locked clk limit d;
            upd = mj_claimed worker_id (now + lease_duration) now
        in andThen (fold_res (\<lambda>j _. mj_assert_transition (mj_public_state j) MJ_INSPECTING) rows ())
             (\<lambda>_. andThen (write_rows mj_id media_job_ok mj_rejected upd rows (media_jobs d))
               (\<lambda>tab. Inr (map upd rows, d\<lparr>media_jobs := tab\<rparr>))))"

text \<open>
  The predicate of every statement of a lease holder: the row is still inspecting under
  this owner and fence, and neither the lease nor the job has run out.
\<close>

definition mj_owned :: "time \<Rightarrow> uuid \<Rightarrow> string \<Rightarrow> int \<Rightarrow> media_job \<Rightarrow> bool" where
  "mj_owned clk job_id own fence j \<longleftrightarrow>
     mj_id j = job_id \<and> mj_public_state j = MJ_INSPECTING \<and> mj_lease_owner j = Some own \<and>
     mj_fence_token j = fence \<and> opt_gt (mj_lease_expires_at j) clk \<and> clk < mj_expires_at j"

definition mj_update ::
  "(media_job \<Rightarrow> bool) \<Rightarrow> (media_job \<Rightarrow> media_job) \<Rightarrow> db \<Rightarrow> (bool \<times> db) res" where
  "mj_update P f d =
     andThen (update_where media_job_ok mj_rejected P f (media_jobs d))
       (\<lambda>(tab, n). Inr (n \<noteq> 0, d\<lparr>media_jobs := tab\<rparr>))"

definition mj_complete ::
  "time \<Rightarrow> uuid \<Rightarrow> string \<Rightarrow> int \<Rightarrow> json \<Rightarrow> db \<Rightarrow> (bool \<times> db) res" where
  "mj_complete clk job_id own fence metadata_json d =
     andThen (mj_assert_transition MJ_INSPECTING MJ_INSPECTED) (\<lambda>_.
       mj_update (mj_owned clk job_id own fence)
         (\<lambda>j. j\<lparr>mj_public_state := MJ_INSPECTED, mj_result_metadata := Some metadata_json,
                mj_public_error_code := None, mj_result_version := 1,
                mj_lease_owner := None, mj_lease_expires_at := None,
                mj_completed_at := Some clk, mj_updated_at := clk\<rparr>) d)"

definition mj_fail_permanent ::
  "time \<Rightarrow> uuid \<Rightarrow> string \<Rightarrow> int \<Rightarrow> string \<Rightarrow> db \<Rightarrow> (bool \<times> db) res" where
  "mj_fail_permanent clk job_id own fence public_error_code d =
     andThen (mj_assert_transition MJ_INSPECTING MJ_FAILED) (\<lambda>_.
       mj_update (mj_owned clk job_id own fence)
         (\<lambda>j. j\<lparr>mj_public_state := MJ_FAILED, mj_public_error_code := Some public_error_code,
                mj_result_metadata := None, mj_lease_owner := None,
                mj_lease_expires_at := None, mj_completed_at := Some clk,
                mj_updated_at := clk\<rparr>) d)"

definition mj_fail_retry ::
  "time \<Rightarrow> uuid \<Rightarrow> string \<Rightarrow> int \<Rightarrow> time \<Rightarrow> time \<Rightarrow> string \<Rightarrow> db \<Rightarrow> (bool \<times> db) res" where
  "mj_fail_retry clk job_id own fence now backoff public_error_code d =
     (case mj_get_by_id job_id d of
        None \<Rightarrow> Inr (False, d)
      | Some job \<Rightarrow>
          if mj_public_state job \<noteq> MJ_INSPECTING \<or> mj_lease_owner job \<noteq> Some own \<or>
             mj_fence_token job \<noteq> fence
          then Inr (False, d)
          else if mj_attempt_count job \<ge> mj_max_attempts job
          then mj_fail_permanent clk job_id own fence public_error_code d
          else andThen (mj_assert_transition MJ_INSPECTING MJ_QUEUED) (\<lambda>_.
            mj_update (mj_owned clk job_id own fence)
              (\<lambda>j. j\<lparr>mj_public_state := MJ_QUEUED, mj_public_error_code := None,
                     mj_available_at := now + max 0 backoff, mj_lease_owner := None,
                     mj_lease_expires_at := None, mj_updated_at := clk\<rparr>) d))"

definition mj_release_to_queued ::
  "time \<Rightarrow> uuid \<Rightarrow> string \<Rightarrow> int \<Rightarrow> time \<Rightarrow> db \<Rightarrow> (bool \<times> db) res" where
  "mj_release_to_queued clk job_id own fence now d =
     andThen (mj_assert_transition MJ_INSPECTING MJ_QUEUED) (\<lambda>_.
       mj_update (mj_owned clk job_id own fence)
         (\<lambda>j. j\<lparr>mj_public_state := MJ_QUEUED,
                mj_attempt_count := max (mj_attempt_count j - 1) 0,
                mj_available_at := now, mj_lease_owner := None,
                mj_lease_expires_at := None, mj_updated_at := clk\<rparr>) d)"

definition mj_renew_lease ::
  "time \<Rightarrow> uuid \<Rightarrow> string \<Rightarrow> int \<Rightarrow> time \<Rightarrow> db \<Rightarrow> (bool \<times> db) res" where
  "mj_renew_lease clk job_id own fence lease_duration d =
     mj_update (mj_owned clk job_id own fence)
       (\<lambda>j. j\<lparr>mj_lease_expires_at := Some (clk + lease_duration), mj_updated_at := clk\<rparr>) d"

text \<open>\<open>reclaim_expired_leases\<close>: requeue or fail the rows whose lease has run out.\<close>

definition mj_reclaimable :: "time \<Rightarrow> media_job \<Rightarrow> bool" where
  "mj_reclaimable clk j \<longleftrightarrow>
     mj_public_state j = MJ_INSPECTING \<and> opt_le (mj_lease_expires_at j) clk \<and>
     clk < mj_expires_at j"

definition mj_reclaimed :: "time \<Rightarrow> media_job \<Rightarrow> media_job" where
  "mj_reclaimed now j =
     (let exhausted = mj_attempt_count j \<ge> mj_max_attempts j;
          j' = j\<lparr>mj_public_state := (if exhausted then MJ_FAILED else MJ_QUEUED),
                 mj_lease_owner := None, mj_lease_expires_at := None,
                 mj_fence_token := mj_fence_token j + 1, mj_available_at := now,
                 mj_updated_at := now\<rparr>
      in if exhausted
         then j'\<lparr>mj_public_error_code := Some ''MEDIA_INSPECTION_FAILED'',
                 mj_completed_at := Some now\<rparr>
         else j')"

definition mj_reclaim_expired_leases ::
  "(uuid \<Rightarrow> bool) \<Rightarrow> time \<Rightarrow> time \<Rightarrow> db \<Rightarrow> (nat \<times> db) res" where
  "mj_reclaim_expired_leases locked clk now d =
     (let jobs = filter (\<lambda>j. mj_reclaimable clk j \<and> \<not> locked (mj_id j)) (media_jobs d)
      in andThen (fold_res (\<lambda>j _. mj_assert_transition MJ_INSPECTING
                     (if mj_attempt_count j \<ge> mj_max_attempts j then MJ_FAILED else MJ_QUEUED)) jobs ())
           (\<lambda>_. andThen (write_rows mj_id media_job_ok mj_rejected (mj_reclaimed now) jobs (media_jobs d))
             (\<lambda>tab. Inr (length jobs, d\<lparr>media_jobs := tab\<rparr>))))"

definition mj_due :: "time \<Rightarrow> media_job \<Rightarrow> bool" where
  "mj_due clk j \<longleftrightarrow>
     mj_expires_at j \<le> clk \<and>
     mj_public_state j \<in> {MJ_QUEUED, MJ_INSPECTING, MJ_INSPECTED, MJ_FAILED}"

definition mj_expired :: "time \<Rightarrow> media_job \<Rightarrow> media_job" where
  "mj_expired now j =
     j\<lparr>mj_public_state := MJ_EXPIRED, mj_result_metadata := None, mj_public_error_code := None,
       mj_lease_owner := None, mj_lease_expires_at := None, mj_updated_at := now,
       mj_fence_token := mj_fence_token j + 1,
       mj_completed_at := (case mj_completed_at j of None \<Rightarrow> Some now | Some t \<Rightarrow> Some t)\<rparr>"

definition mj_expire_due_jobs ::
  "(uuid \<Rightarrow> bool) \<Rightarrow> time \<Rightarrow> time \<Rightarrow> db \<Rightarrow> (nat \<times> db) res" where
  "mj_expire_due_jobs locked clk now d =
     (let jobs = filter (\<lambda>j. mj_due clk j \<and> \<not> locked (mj_id j)) (media_jobs d)
      in andThen (fold_res (\<lambda>j _. mj_assert_transition (mj_public_state j) MJ_EXPIRED) jobs ())
           (\<lambda>_. andThen (write_rows mj_id media_job_ok mj_rejected (mj_expired now) jobs (media_jobs d))
             (\<lambda>tab. Inr (length jobs, d\<lparr>media_jobs := tab\<rparr>))))"

section \<open>One step of the queue\<close>

inductive mj_step :: "db \<Rightarrow> db \<Rightarrow> bool" where
  enqueue: "mj_enqueue_or_get fresh h fp pid url mid host path sch port now ttl mx d = Inr (r, d')
     \<Longrightarrow> mj_step d d'"
| claim: "mj_claim_next locked clk w dur now limit d = Inr (r, d') \<Longrightarrow> mj_step d d'"
| complete: "mj_complete clk i w f md d = Inr (r, d') \<Longrightarrow> mj_step d d'"
| fail_permanent: "mj_fail_permanent clk i w f code d = Inr (r, d') \<Longrightarrow> mj_step d d'"
| fail_retry: "mj_fail_retry clk i w f now bo code d = Inr (r, d') \<Longrightarrow> mj_step d d'"
| release: "mj_release_to_queued clk i w f now d = Inr (r, d') \<Longrightarrow> mj_step d d'"
| renew: "mj_renew_lease clk i w f dur d = Inr (r, d') \<Longrightarrow> mj_step d d'"
| reclaim: "mj_reclaim_expired_leases locked clk now d = Inr (r, d') \<Longrightarrow> mj_step d d'"
| expire: "mj_expire_due_jobs locked clk now d = Inr (r, d') \<Longrightarrow> mj_step d d'"

text \<open>A database the constraints of \<open>media_jobs\<close> hold in.\<close>

definition media_jobs_wf :: "db \<Rightarrow> bool" where
  "media_jobs_wf d \<longleftrightarrow>
     (\<forall>j \<in> set (media_jobs d). media_job_ok j) \<and> distinct (map mj_id (media_jobs d)) \<and>
     distinct (map mj_credential_hash (media_jobs d))"

section \<open>Every step appends a row or rewrites rows in place\<close>

lemma mj_transitions_simps [simp]:
  "mj_assert_transition MJ_INSPECTING MJ_INSPECTED = Inr ()"
  "mj_assert_transition MJ_INSPECTING MJ_FAILED = Inr ()"
  "mj_assert_transition MJ_INSPECTING MJ_QUEUED = Inr ()"
  "mj_assert_transition MJ_QUEUED MJ_INSPECTING = Inr ()"
  by (simp_all add: mj_assert_transition_def)

definition mj_rewrites :: "db \<Rightarrow> db \<Rightarrow> bool" where
  "mj_rewrites d d' \<longleftrightarrow>
     (\<exists>P f. d' = d\<lparr>media_jobs := map (\<lambda>j. if P j then f j else j) (media_jobs d)\<rparr> \<and>
        (\<forall>j. mj_id (f j) = mj_id j \<and> mj_credential_hash (f j) = mj_credential_hash j \<and>
             mj_max_attempts (f j) = mj_max_attempts j \<and>
             mj_request_fingerprint (f j) = mj_request_fingerprint j) \<and>
        (\<forall>j \<in> set (media_jobs d). P j \<longrightarrow> media_job_ok (f j)) \<and>
        (\<forall>j. P j \<longrightarrow> fence_step mj_fence_token mj_lease_owner j (f j) \<and>
             (mj_attempt_count j \<le> mj_max_attempts j \<longrightarrow>
              0 \<le> mj_attempt_count j \<longrightarrow> mj_attempt_count (f j) \<le> mj_max_attempts j)))"

lemma mj_rewritesI:
  assumes "d' = d\<lparr>media_jobs := map (\<lambda>j. if P j then f j else j) (media_jobs d)\<rparr>"
    and "\<And>j. mj_id (f j) = mj_id j" and "\<And>j. mj_credential_hash (f j) = mj_credential_hash j"
    and "\<And>j. mj_max_attempts (f j) = mj_max_attempts j \<and>
             mj_request_fingerprint (f j) = mj_request_fingerprint j"
    and "\<And>j. j \<in> set (media_jobs d) \<Longrightarrow> P j \<Longrightarrow> media_job_ok (f j)"
    and "\<And>j. P j \<Longrightarrow> fence_step mj_fence_token mj_lease_owner j (f j)"
    and "\<And>j. P j \<Longrightarrow> mj_attempt_count j \<le> mj_max_attempts j \<Longrightarrow>
           0 \<le> mj_attempt_count j \<Longrightarrow> mj_attempt_count (f j) \<le> mj_max_attempts j"
  shows "mj_rewrites d d'"
  unfolding mj_rewrites_def using assms by (intro exI [of _ P] exI [of _ f]) auto

lemma mj_update_rewrites:
  assumes "mj_update P f d = Inr (b, d')"
    and "\<And>j. mj_id (f j) = mj_id j \<and> mj_credential_hash (f j) = mj_credential_hash j \<and>
             mj_max_attempts (f j) = mj_max_attempts j \<and>
             mj_request_fingerprint (f j) = mj_request_fingerprint j"
    and "\<And>j. P j \<Longrightarrow> fence_step mj_fence_token mj_lease_owner j (f j)"
    and "\<And>j. P j \<Longrightarrow> mj_attempt_count j \<le> mj_max_attempts j \<Longrightarrow>
           0 \<le> mj_attempt_count j \<Longrightarrow> mj_attempt_count (f j) \<le> mj_max_attempts j"
  shows "mj_rewrites d d'"
proof -
  from assms(1) obtain n where u: "update_where media_job_ok mj_rejected P f (media_jobs d) =
      Inr (media_jobs d', n)" and d': "d' = d\<lparr>media_jobs := media_jobs d'\<rparr>"
    by (auto simp: mj_update_def andThen_eq_Inr)
  then have m: "media_jobs d' = map (\<lambda>j. if P j then f j else j) (media_jobs d)"
    and ok: "\<forall>j \<in> set (media_jobs d). P j \<longrightarrow> media_job_ok (f j)"
    by (auto simp: update_where_def split: if_splits)
  show ?thesis
    by (rule mj_rewritesI [where P = P and f = f]) (use assms m d' ok in auto)
qed

lemma mj_write_rows_rewrites:
  assumes w: "write_rows mj_id media_job_ok mj_rejected f picked (media_jobs d) = Inr tab"
    and wf: "distinct (map mj_id (media_jobs d))"
    and picked: "set picked \<subseteq> set (media_jobs d)" "distinct (map mj_id picked)"
    and "\<And>j. mj_id (f j) = mj_id j" and "\<And>j. mj_credential_hash (f j) = mj_credential_hash j"
    and "\<And>j. mj_max_attempts (f j) = mj_max_attempts j \<and>
             mj_request_fingerprint (f j) = mj_request_fingerprint j"
    and "\<And>j. j \<in> set picked \<Longrightarrow> fence_step mj_fence_token mj_lease_owner j (f j)"
    and "\<And>j. j \<in> set picked \<Longrightarrow> mj_attempt_count j \<le> mj_max_attempts j \<Longrightarrow>
           mj_attempt_count (f j) \<le> mj_max_attempts j"
  shows "mj_rewrites d (d\<lparr>media_jobs := tab\<rparr>)"
proof (rule mj_rewritesI [where P = "\<lambda>j. j \<in> set picked" and f = f])
  show "d\<lparr>media_jobs := tab\<rparr> =
      d\<lparr>media_jobs := map (\<lambda>j. if j \<in> set picked then f j else j) (media_jobs d)\<rparr>"
    using write_rows_map [OF w wf picked(2,1)] assms by simp
  show "media_job_ok (f j)" if "j \<in> set picked" for j
    using write_rows_picked_ok [OF w that] .
qed (use assms in auto)

lemma mj_owned_fence_step:
  "mj_fence_token (f j) = mj_fence_token j \<Longrightarrow>
   mj_lease_owner (f j) = mj_lease_owner j \<or> mj_lease_owner (f j) = None \<Longrightarrow>
   fence_step mj_fence_token mj_lease_owner j (f j)"
  by (rule fence_step_same)

lemmas mj_ops_defs = mj_complete_def mj_fail_permanent_def mj_release_to_queued_def
  mj_renew_lease_def

lemma mj_fail_permanent_rewrites:
  "mj_fail_permanent clk i w f code d = Inr (r, d') \<Longrightarrow> mj_rewrites d d'"
  unfolding mj_fail_permanent_def
  by (auto simp: fence_step_def elim!: mj_update_rewrites)

lemma mj_complete_rewrites:
  "mj_complete clk i w f md d = Inr (r, d') \<Longrightarrow> mj_rewrites d d'"
  unfolding mj_complete_def
  by (auto simp: fence_step_def elim!: mj_update_rewrites)

lemma mj_release_rewrites:
  "mj_release_to_queued clk i w f now d = Inr (r, d') \<Longrightarrow> mj_rewrites d d'"
  unfolding mj_release_to_queued_def
  by (auto simp: fence_step_def elim!: mj_update_rewrites)

lemma mj_renew_rewrites:
  "mj_renew_lease clk i w f dur d = Inr (r, d') \<Longrightarrow> mj_rewrites d d'"
  unfolding mj_renew_lease_def
  by (auto simp: fence_step_def elim!: mj_update_rewrites)

lemma mj_rewrites_refl: "mj_rewrites d d"
  by (rule mj_rewritesI [where P = "\<lambda>_. False" and f = "\<lambda>j. j"]) simp_all

lemma mj_fail_retry_rewrites:
  "mj_fail_retry clk i w f now bo code d = Inr (r, d') \<Longrightarrow> mj_rewrites d d'"
  unfolding mj_fail_retry_def
  by (auto simp: fence_step_def mj_rewrites_refl split: option.splits if_splits
      intro: mj_fail_permanent_rewrites elim!: mj_update_rewrites)

lemma mj_claim_selectD:
  "j \<in> set (mj_claim_select locked clk limit d) \<Longrightarrow>
     j \<in> set (media_jobs d) \<and> mj_claimable clk j \<and> \<not> locked (mj_id j)"
  using set_sql_limit by (fastforce simp: mj_claim_select_def)

lemma mj_claim_select_distinct:
  "distinct (map mj_id (media_jobs d)) \<Longrightarrow> distinct (map mj_id (mj_claim_select locked clk limit d))"
  unfolding mj_claim_select_def by (intro distinct_map_order_limit distinct_map_filter_sub)

lemma mj_claim_rewrites:
  assumes "mj_claim_next locked clk w dur now limit d = Inr (r, d')"
    and "distinct (map mj_id (media_jobs d))"
  shows "mj_rewrites d d'"
proof (cases "limit < 1")
  case True
  with assms(1) have "d' = d" by (simp add: mj_claim_next_def)
  then show ?thesis
    by (intro mj_rewritesI [where P = "\<lambda>_. False" and f = "\<lambda>j. j"]) simp_all
next
  case False
  let ?rows = "mj_claim_select locked clk limit d"
  let ?upd = "mj_claimed w (now + dur) now"
  from False assms(1) obtain tab where
    w: "write_rows mj_id media_job_ok mj_rejected ?upd ?rows (media_jobs d) = Inr tab"
    and d': "d' = d\<lparr>media_jobs := tab\<rparr>"
    by (auto simp: mj_claim_next_def Let_def andThen_eq_Inr split: if_splits)
  show ?thesis unfolding d'
    by (rule mj_write_rows_rewrites [OF w assms(2)])
       (use mj_claim_select_distinct [OF assms(2)] in
         \<open>auto simp: mj_claimed_def fence_step_def mj_claimable_def dest!: mj_claim_selectD\<close>)
qed

lemma mj_reclaim_rewrites:
  assumes "mj_reclaim_expired_leases locked clk now d = Inr (r, d')"
    and "distinct (map mj_id (media_jobs d))"
  shows "mj_rewrites d d'"
proof -
  let ?rows = "filter (\<lambda>j. mj_reclaimable clk j \<and> \<not> locked (mj_id j)) (media_jobs d)"
  from assms(1) obtain tab where
    w: "write_rows mj_id media_job_ok mj_rejected (mj_reclaimed now) ?rows (media_jobs d) = Inr tab"
    and d': "d' = d\<lparr>media_jobs := tab\<rparr>"
    by (auto simp: mj_reclaim_expired_leases_def Let_def andThen_eq_Inr)
  show ?thesis unfolding d'
    by (rule mj_write_rows_rewrites [OF w assms(2)])
       (use distinct_map_filter_sub assms(2) in
         \<open>auto simp: mj_reclaimed_def fence_step_def Let_def\<close>)
qed

lemma mj_expire_rewrites:
  assumes "mj_expire_due_jobs locked clk now d = Inr (r, d')"
    and "distinct (map mj_id (media_jobs d))"
  shows "mj_rewrites d d'"
proof -
  let ?rows = "filter (\<lambda>j. mj_due clk j \<and> \<not> locked (mj_id j)) (media_jobs d)"
  from assms(1) obtain tab where
    w: "write_rows mj_id media_job_ok mj_rejected (mj_expired now) ?rows (media_jobs d) = Inr tab"
    and d': "d' = d\<lparr>media_jobs := tab\<rparr>"
    by (auto simp: mj_expire_due_jobs_def Let_def andThen_eq_Inr)
  show ?thesis unfolding d'
    by (rule mj_write_rows_rewrites [OF w assms(2)])
       (use distinct_map_filter_sub assms(2) in
         \<open>auto simp: mj_expired_def fence_step_def\<close>)
qed

lemma mj_enqueue_appends:
  assumes "mj_enqueue_or_get fresh h fp pid url mid host path sch port now ttl mx d = Inr (r, d')"
  shows "d' = d \<or> (\<exists>j. mj_insert j d = Inr d' \<and> mj_attempt_count j \<le> mj_max_attempts j)"
  using assms
  by (auto simp: mj_enqueue_or_get_def Let_def mj_insert_def media_job_ok_def
      split: if_splits sum.splits option.splits)

text \<open>The dichotomy all invariants of the queue are proved from.\<close>

lemma mj_step_cases:
  assumes "mj_step d d'" and "media_jobs_wf d"
  shows "(\<exists>j. mj_insert j d = Inr d' \<and> mj_attempt_count j \<le> mj_max_attempts j) \<or> mj_rewrites d d'"
proof -
  have dist: "distinct (map mj_id (media_jobs d))" using assms(2) by (simp add: media_jobs_wf_def)
  from assms(1) show ?thesis
  proof cases
    case (enqueue fresh h fp pid url mid host path sch port now ttl mx r)
    with mj_enqueue_appends [OF this] mj_rewrites_refl show ?thesis by blast
  qed (use dist in \<open>blast intro: mj_claim_rewrites mj_fail_permanent_rewrites mj_reclaim_rewrites
         mj_expire_rewrites mj_complete_rewrites mj_fail_retry_rewrites mj_release_rewrites
         mj_renew_rewrites\<close>)+
qed

lemma mj_rewrites_wf:
  assumes "mj_rewrites d d'" and "media_jobs_wf d"
  shows "media_jobs_wf d'"
proof -
  from assms(1) obtain P f where d': "d' = d\<lparr>media_jobs := map (\<lambda>j. if P j then f j else j) (media_jobs d)\<rparr>"
    and k: "\<And>j. mj_id (f j) = mj_id j" "\<And>j. mj_credential_hash (f j) = mj_credential_hash j"
    and ok: "\<forall>j \<in> set (media_jobs d). P j \<longrightarrow> media_job_ok (f j)"
    unfolding mj_rewrites_def by blast
  show ?thesis
    using assms(2) ok unfolding d' media_jobs_wf_def
    by (simp add: ball_map_update keys_map_update [of mj_id f, OF k(1)] keys_map_update [of mj_credential_hash f, OF k(2)]
        del: map_map set_map)
qed

lemma mj_insert_wf: "mj_insert j d = Inr d' \<Longrightarrow> media_jobs_wf d \<Longrightarrow> media_jobs_wf d'"
  by (auto simp: mj_insert_def media_jobs_wf_def split: if_splits)

lemma mj_step_wf: "mj_step d d' \<Longrightarrow> media_jobs_wf d \<Longrightarrow> media_jobs_wf d'"
  using mj_step_cases mj_rewrites_wf mj_insert_wf by blast

lemma mj_step_evolves:
  assumes "mj_step d d'" and "media_jobs_wf d"
  shows "evolves mj_id (fence_step mj_fence_token mj_lease_owner) (media_jobs d) (media_jobs d')"
  using mj_step_cases [OF assms]
proof
  assume "\<exists>j. mj_insert j d = Inr d' \<and> mj_attempt_count j \<le> mj_max_attempts j"
  then show ?thesis
    by (auto simp: mj_insert_def intro!: evolves_append [OF reflp_fence_step] split: if_splits)
next
  assume "mj_rewrites d d'"
  then show ?thesis
    unfolding mj_rewrites_def by (auto intro!: evolves_map_update [OF reflp_fence_step])
qed

interpretation mjq: fenced_queue media_jobs mj_id mj_fence_token mj_lease_owner media_jobs_wf mj_step
  by unfold_locales (blast intro: mj_step_wf mj_step_evolves)+

section \<open>Fencing\<close>

lemma mj_update_miss: "\<forall>j \<in> set (media_jobs d). \<not> P j \<Longrightarrow> mj_update P f d = Inr (False, d)"
proof -
  assume miss: "\<forall>j \<in> set (media_jobs d). \<not> P j"
  then have "map (\<lambda>j. if P j then f j else j) (media_jobs d) = media_jobs d"
    by (intro map_idI) auto
  moreover have "filter P (media_jobs d) = []" using miss by (simp add: filter_empty_conv)
  ultimately show ?thesis using miss by (simp add: mj_update_def update_where_def)
qed

lemma mj_owned_row:
  assumes "media_jobs_wf d" and "j \<in> set (media_jobs d)" and "mj_owned clk i w f j"
  shows "mj_get_by_id i d = Some j \<and> mj_fence_token j = f"
  using assms by (auto simp: mj_get_by_id_def mj_owned_def media_jobs_wf_def row_by_Some_iff)

lemma mj_passed_fence_miss:
  assumes "media_jobs_wf d" and "mj_get_by_id i d = Some r" and "f < mj_fence_token r"
  shows "\<forall>j \<in> set (media_jobs d). \<not> mj_owned clk i w f j"
  using mj_owned_row [OF assms(1)] assms(2,3) by fastforce

text \<open>Over any run of the inspection queue, a fence token names one owner for ever: when
  a job is seen under a fence and later is leased under the same fence, the owner is the one
  that held it then.\<close>

theorem mj_fence_names_one_owner:
  assumes "mj_step\<^sup>*\<^sup>* d d'" and "media_jobs_wf d"
    and "mj_get_by_id i d = Some r" and "mj_get_by_id i d' = Some r'"
    and "mj_fence_token r' = mj_fence_token r" and "mj_lease_owner r' = Some w"
  shows "mj_lease_owner r = Some w"
  using mjq.fence_names_one_owner [OF assms(1,2)] assms(3-6) by (simp add: mj_get_by_id_def)

text \<open>C2. A worker whose fence has been passed can do nothing any more: in every later state its
  complete, fail, retry, release and renew statements touch no row, return False and leave the
  database as it is.\<close>

theorem mj_stale_worker_is_fenced:
  assumes "mj_step\<^sup>*\<^sup>* d d'" and "media_jobs_wf d"
    and "mj_get_by_id i d = Some r" and "f < mj_fence_token r"
  shows "mj_complete clk i w f md d' = Inr (False, d') \<and>
         mj_fail_permanent clk i w f code d' = Inr (False, d') \<and>
         mj_fail_retry clk i w f now bo code d' = Inr (False, d') \<and>
         mj_release_to_queued clk i w f now d' = Inr (False, d') \<and>
         mj_renew_lease clk i w f dur d' = Inr (False, d')"
proof -
  obtain r' where r': "mj_get_by_id i d' = Some r'" "f < mj_fence_token r'"
    using mjq.passed_fence_stays_passed [OF assms(1,2), of i r f] assms(3,4)
    unfolding mj_get_by_id_def by blast
  have "media_jobs_wf d'" using mjq.run_wf assms(1,2) by blast
  from mj_update_miss [OF mj_passed_fence_miss [OF this r']] r'
  show ?thesis
    by (simp add: mj_ops_defs mj_fail_retry_def)
qed

section \<open>The constraints never refuse a write\<close>

lemma mj_update_total:
  "(\<And>j. j \<in> set (media_jobs d) \<Longrightarrow> P j \<Longrightarrow> media_job_ok (f j)) \<Longrightarrow>
     \<exists>b d'. mj_update P f d = Inr (b, d')"
  by (auto simp: mj_update_def update_where_def)

lemma mj_owned_ops_total:
  assumes "media_jobs_wf d"
  shows "\<exists>b d'. mj_complete clk i w f md d = Inr (b, d')"
    and "\<exists>b d'. mj_fail_permanent clk i w f code d = Inr (b, d')"
    and "\<exists>b d'. mj_release_to_queued clk i w f now d = Inr (b, d')"
    and "\<exists>b d'. mj_renew_lease clk i w f dur d = Inr (b, d')"
    and "\<exists>b d'. mj_fail_retry clk i w f now bo code d = Inr (b, d')"
proof -
  have ok: "\<And>j. j \<in> set (media_jobs d) \<Longrightarrow> media_job_ok j"
    using assms by (simp add: media_jobs_wf_def)
  show "\<exists>b d'. mj_complete clk i w f md d = Inr (b, d')"
    unfolding mj_complete_def mj_transitions_simps andThen_Inr
    by (rule mj_update_total) (auto dest!: ok simp: mj_owned_def media_job_ok_defs)
  show perm: "\<exists>b d'. mj_fail_permanent clk i w f code d = Inr (b, d')" for code
    unfolding mj_fail_permanent_def mj_transitions_simps andThen_Inr
    by (rule mj_update_total) (auto dest!: ok simp: mj_owned_def media_job_ok_defs)
  show "\<exists>b d'. mj_release_to_queued clk i w f now d = Inr (b, d')"
    unfolding mj_release_to_queued_def mj_transitions_simps andThen_Inr
    by (rule mj_update_total) (auto dest!: ok simp: mj_owned_def media_job_ok_defs)
  show "\<exists>b d'. mj_renew_lease clk i w f dur d = Inr (b, d')"
    unfolding mj_renew_lease_def
    by (rule mj_update_total) (auto dest!: ok simp: mj_owned_def media_job_ok_defs)
  have retry: "\<exists>b d'. mj_update (mj_owned clk i w f)
      (\<lambda>j. j\<lparr>mj_public_state := MJ_QUEUED, mj_public_error_code := None,
             mj_available_at := now + max 0 bo, mj_lease_owner := None,
             mj_lease_expires_at := None, mj_updated_at := clk\<rparr>) d = Inr (b, d')"
    by (rule mj_update_total) (auto dest!: ok simp: mj_owned_def media_job_ok_defs)
  show "\<exists>b d'. mj_fail_retry clk i w f now bo code d = Inr (b, d')"
    unfolding mj_fail_retry_def mj_transitions_simps andThen_Inr
    using perm retry by (auto split: option.splits)
qed

lemma fold_res_unit: "(\<And>x. x \<in> set xs \<Longrightarrow> g x = Inr ()) \<Longrightarrow> fold_res (\<lambda>x _. g x) xs () = Inr ()"
  by (induction xs) auto

lemma mj_reclaimed_ok:
  "media_job_ok j \<Longrightarrow> mj_public_state j = MJ_INSPECTING \<Longrightarrow> media_job_ok (mj_reclaimed now j)"
  by (cases "mj_attempt_count j \<ge> mj_max_attempts j")
     (simp_all add: media_job_ok_defs mj_reclaimed_def Let_def)

lemma mj_expired_ok: "media_job_ok j \<Longrightarrow> media_job_ok (mj_expired now j)"
  by (simp add: media_job_ok_defs mj_expired_def)

lemma mj_claimed_ok:
  "media_job_ok j \<Longrightarrow> mj_public_state j = MJ_QUEUED \<Longrightarrow> media_job_ok (mj_claimed w t now j)"
  by (simp add: media_job_ok_defs mj_claimed_def)

lemma mj_reclaim_total:
  assumes "media_jobs_wf d"
  shows "\<exists>n d'. mj_reclaim_expired_leases locked clk now d = Inr (n, d')"
proof -
  let ?picked = "filter (\<lambda>j. mj_reclaimable clk j \<and> \<not> locked (mj_id j)) (media_jobs d)"
  have "\<forall>j \<in> set ?picked. media_job_ok (mj_reclaimed now j)"
    using assms by (auto simp: media_jobs_wf_def mj_reclaimable_def intro: mj_reclaimed_ok)
  from write_rows_total [where ok = media_job_ok and key = mj_id and err = mj_rejected, OF this]
  obtain tab where "write_rows mj_id media_job_ok mj_rejected (mj_reclaimed now) ?picked
      (media_jobs d) = Inr tab" by blast
  then show ?thesis
    by (simp add: mj_reclaim_expired_leases_def Let_def fold_res_unit)
qed

lemma mj_expire_total:
  assumes "media_jobs_wf d"
  shows "\<exists>n d'. mj_expire_due_jobs locked clk now d = Inr (n, d')"
proof -
  let ?picked = "filter (\<lambda>j. mj_due clk j \<and> \<not> locked (mj_id j)) (media_jobs d)"
  have "\<forall>j \<in> set ?picked. media_job_ok (mj_expired now j)"
    using assms by (auto simp: media_jobs_wf_def intro: mj_expired_ok)
  from write_rows_total [where ok = media_job_ok and key = mj_id and err = mj_rejected, OF this]
  obtain tab where "write_rows mj_id media_job_ok mj_rejected (mj_expired now) ?picked
      (media_jobs d) = Inr tab" by blast
  moreover have "fold_res (\<lambda>j _. mj_assert_transition (mj_public_state j) MJ_EXPIRED) ?picked () = Inr ()"
    by (rule fold_res_unit) (auto simp: mj_due_def mj_assert_transition_def)
  ultimately show ?thesis
    by (simp add: mj_expire_due_jobs_def Let_def)
qed

lemma mj_claim_total:
  assumes "media_jobs_wf d" and "w \<noteq> []" and "length w \<le> 128"
  shows "\<exists>js d'. mj_claim_next locked clk w dur now limit d = Inr (js, d')"
proof -
  let ?picked = "mj_claim_select locked clk limit d"
  have "\<forall>j \<in> set ?picked. media_job_ok (mj_claimed w (now + dur) now j)"
    using assms(1) by (auto simp: media_jobs_wf_def mj_claimable_def dest!: mj_claim_selectD
        intro: mj_claimed_ok)
  from write_rows_total [where ok = media_job_ok and key = mj_id and err = mj_rejected, OF this]
  obtain tab where "write_rows mj_id media_job_ok mj_rejected (mj_claimed w (now + dur) now) ?picked
      (media_jobs d) = Inr tab" by blast
  moreover have "mj_assert_transition (mj_public_state j) MJ_INSPECTING = Inr ()"
    if "j \<in> set ?picked" for j
    using mj_claim_selectD [OF that] by (simp add: mj_claimable_def)
  ultimately show ?thesis
    using assms(2,3) by (simp add: mj_claim_next_def Let_def fold_res_unit)
qed


section \<open>Attempts and idempotency over runs\<close>

definition mj_same_request :: "media_job \<Rightarrow> media_job \<Rightarrow> bool" where
  "mj_same_request j j' \<longleftrightarrow>
     mj_credential_hash j' = mj_credential_hash j \<and>
     mj_request_fingerprint j' = mj_request_fingerprint j \<and> mj_max_attempts j' = mj_max_attempts j"

lemma mj_same_request_refl: "reflp mj_same_request" and mj_same_request_trans: "transp mj_same_request"
  by (auto simp: mj_same_request_def reflp_def transp_def)

lemma mj_step_same_request:
  assumes "mj_step d d'" and "media_jobs_wf d"
  shows "evolves mj_id mj_same_request (media_jobs d) (media_jobs d')"
  using mj_step_cases [OF assms]
proof
  assume "\<exists>j. mj_insert j d = Inr d' \<and> mj_attempt_count j \<le> mj_max_attempts j"
  then show ?thesis
    by (auto simp: mj_insert_def intro!: evolves_append [OF mj_same_request_refl] split: if_splits)
next
  assume "mj_rewrites d d'"
  then show ?thesis
    unfolding mj_rewrites_def
    by (auto simp: mj_same_request_def intro!: evolves_map_update [OF mj_same_request_refl])
qed

lemma mj_run_same_request:
  assumes "mj_step\<^sup>*\<^sup>* d d'" and "media_jobs_wf d"
  shows "evolves mj_id mj_same_request (media_jobs d) (media_jobs d')"
  using assms
proof (induction rule: rtranclp_induct)
  case base
  show ?case by (rule evolves_refl [OF mj_same_request_refl])
next
  case (step y z)
  then have "media_jobs_wf y" by (blast intro: mjq.run_wf)
  with step show ?case
    by (blast intro: evolves_trans [OF mj_same_request_trans] mj_step_same_request)
qed

definition mj_attempts_bounded :: "db \<Rightarrow> bool" where
  "mj_attempts_bounded d \<longleftrightarrow> (\<forall>j \<in> set (media_jobs d). mj_attempt_count j \<le> mj_max_attempts j)"

lemma mj_rewrites_attempts:
  assumes "mj_rewrites d d'" and "media_jobs_wf d" and "mj_attempts_bounded d"
  shows "mj_attempts_bounded d'"
proof -
  from assms(1) obtain P f where
    d': "d' = d\<lparr>media_jobs := map (\<lambda>j. if P j then f j else j) (media_jobs d)\<rparr>"
    and mx: "\<And>j. mj_max_attempts (f j) = mj_max_attempts j"
    and bd: "\<And>j. P j \<Longrightarrow> mj_attempt_count j \<le> mj_max_attempts j \<Longrightarrow> 0 \<le> mj_attempt_count j \<Longrightarrow>
               mj_attempt_count (f j) \<le> mj_max_attempts j"
    unfolding mj_rewrites_def by blast
  have "\<And>j. j \<in> set (media_jobs d) \<Longrightarrow> 0 \<le> mj_attempt_count j"
    using assms(2) by (simp add: media_jobs_wf_def media_job_ok_def)
  with assms(3) show ?thesis by (auto simp: d' mj_attempts_bounded_def mx intro!: bd)
qed

lemma mj_step_attempts:
  "mj_step d d' \<Longrightarrow> media_jobs_wf d \<Longrightarrow> mj_attempts_bounded d \<Longrightarrow> mj_attempts_bounded d'"
  using mj_step_cases [of d d'] mj_rewrites_attempts [of d d']
  by (auto simp: mj_insert_def mj_attempts_bounded_def split: if_splits)

text \<open>C3. Starting from the empty database, however enqueues, claims, completions, failures,
  retries, releases, renewals, reclaims and expiries are interleaved, every job satisfies all
  constraints of its table, keys and credentials are unique, and no job is ever tried more often
  than its \<open>max_attempts\<close>.\<close>

theorem mj_run_invariant:
  assumes "mj_step\<^sup>*\<^sup>* empty_db d"
  shows "media_jobs_wf d \<and> mj_attempts_bounded d"
  using assms
proof (induction rule: rtranclp_induct)
  case base
  show ?case by (simp add: empty_db_def media_jobs_wf_def mj_attempts_bounded_def)
next
  case (step y z)
  then show ?case using mj_step_wf mj_step_attempts by blast
qed

lemma mj_insert_duplicate:
  "mj_credential_hash row \<in> mj_credential_hash ` set (media_jobs d) \<Longrightarrow> mj_insert row d = Inl mj_rejected"
  by (simp add: mj_insert_def)

lemma mj_enqueue_existing:
  assumes "mj_get_by_credential_hash h d = Some j"
    and "length h = 32" and "length fp = 32" and "no_query_fragment url"
  shows "mj_enqueue_or_get fresh h fp pid url mid host path sch port now ttl mx d =
     (if mj_request_fingerprint j = fp then Inr ((j, False), d)
      else Inl (JobError IDEMPOTENCY_CONFLICT ''FINGERPRINT_MISMATCH''))"
proof -
  have "h \<in> mj_credential_hash ` set (media_jobs d)"
    using assms(1) row_by_SomeD unfolding mj_get_by_credential_hash_def by fastforce
  then show ?thesis
    using assms by (auto simp: mj_enqueue_or_get_def Let_def mj_insert_duplicate tokens_match_def)
qed

lemma mj_get_by_credential_hash_iff:
  "media_jobs_wf d \<Longrightarrow> mj_get_by_credential_hash h d = Some j \<longleftrightarrow>
     j \<in> set (media_jobs d) \<and> mj_credential_hash j = h"
  by (simp add: mj_get_by_credential_hash_def media_jobs_wf_def row_by_Some_iff)

text \<open>Enqueueing is idempotent for ever: once a credential has a job, any later enqueue under
  the same credential, whatever happened in between, creates nothing and changes nothing. It
  returns that very job when the request fingerprint is the same, and raises the idempotency
  conflict when it is another request.\<close>

theorem mj_enqueue_idempotent:
  assumes "media_jobs_wf d" and "mj_get_by_credential_hash h d = Some j"
    and "mj_step\<^sup>*\<^sup>* d d'"
    and "length h = 32" and "length fp = 32" and "no_query_fragment url"
  shows "\<exists>j'. mj_id j' = mj_id j \<and> mj_get_by_id (mj_id j) d' = Some j' \<and>
    mj_enqueue_or_get fresh h fp pid url mid host path sch port now ttl mx d' =
      (if fp = mj_request_fingerprint j then Inr ((j', False), d')
       else Inl (JobError IDEMPOTENCY_CONFLICT ''FINGERPRINT_MISMATCH''))"
proof -
  have wf': "media_jobs_wf d'" using mjq.run_wf assms(1,3) by blast
  have "row_by mj_id (mj_id j) (media_jobs d) = Some j"
    using assms(1,2) by (simp add: mj_get_by_credential_hash_iff media_jobs_wf_def row_by_Some_iff)
  from evolvesD [OF mj_run_same_request [OF assms(3,1)] this]
  obtain j' where j': "row_by mj_id (mj_id j) (media_jobs d') = Some j'" "mj_same_request j j'" by blast
  have "mj_get_by_credential_hash h d' = Some j'"
    using j' assms(1,2) wf' row_by_SomeD [OF j'(1)]
    by (simp add: mj_get_by_credential_hash_iff mj_same_request_def)
  from mj_enqueue_existing [OF this assms(4-6)] j' row_by_SomeD [OF j'(1)] show ?thesis
    by (auto simp: mj_get_by_id_def mj_same_request_def)
qed

section \<open>Claiming\<close>

lemma mj_claim_next_Inr:
  assumes "mj_claim_next locked clk w dur now limit d = Inr (js, d')" and "media_jobs_wf d"
    and "1 \<le> limit"
  shows "js = map (mj_claimed w (now + dur) now) (mj_claim_select locked clk limit d) \<and>
     media_jobs d' = map (\<lambda>j. if j \<in> set (mj_claim_select locked clk limit d)
                            then mj_claimed w (now + dur) now j else j) (media_jobs d)"
proof -
  let ?rows = "mj_claim_select locked clk limit d"
  let ?upd = "mj_claimed w (now + dur) now"
  have dist: "distinct (map mj_id (media_jobs d))" using assms(2) by (simp add: media_jobs_wf_def)
  from assms(1,3) obtain tab where
    w: "write_rows mj_id media_job_ok mj_rejected ?upd ?rows (media_jobs d) = Inr tab"
    and r: "d' = d\<lparr>media_jobs := tab\<rparr>" "js = map ?upd ?rows"
    by (auto simp: mj_claim_next_def Let_def andThen_eq_Inr split: if_splits)
  have "tab = map (\<lambda>j. if j \<in> set ?rows then ?upd j else j) (media_jobs d)"
    by (rule write_rows_map [OF w dist mj_claim_select_distinct [OF dist]])
       (auto simp: mj_claimed_def dest: mj_claim_selectD)
  with r show ?thesis by simp
qed

lemma mj_claim_select_oldest:
  assumes "j \<in> set (mj_claim_select locked clk limit d)"
    and "k \<in> set (media_jobs d)" and "mj_claimable clk k" and "\<not> locked (mj_id k)"
    and "k \<notin> set (mj_claim_select locked clk limit d)"
  shows "(mj_created_at j, mj_id j) \<le> (mj_created_at k, mj_id k)"
  using order_by_limit_le [of j limit "\<lambda>j. (mj_created_at j, mj_id j)"
      "filter (\<lambda>j. mj_claimable clk j \<and> \<not> locked (mj_id j)) (media_jobs d)" k] assms
  by (simp add: mj_claim_select_def)

text \<open>A claim takes the oldest available work and nothing else: it returns
  \<open>min limit n\<close> jobs of the \<open>n\<close> claimable unlocked ones, each now stored inspecting under the
  worker with a fence and an attempt one larger; every claimable job it left behind is not older
  than one it took; all other rows are untouched.\<close>

theorem mj_claim_takes_oldest:
  assumes "media_jobs_wf d" and "1 \<le> limit"
    and "mj_claim_next locked clk w dur now limit d = Inr (js, d')"
  shows "length js = min (length (filter (\<lambda>j. mj_claimable clk j \<and> \<not> locked (mj_id j)) (media_jobs d)))
                         (nat limit) \<and>
    (\<forall>j' \<in> set js. mj_get_by_id (mj_id j') d' = Some j' \<and> mj_public_state j' = MJ_INSPECTING \<and>
        mj_lease_owner j' = Some w \<and> mj_lease_expires_at j' = Some (now + dur) \<and>
        (\<exists>j. mj_get_by_id (mj_id j') d = Some j \<and> mj_claimable clk j \<and>
             mj_fence_token j' = mj_fence_token j + 1 \<and>
             mj_attempt_count j' = mj_attempt_count j + 1)) \<and>
    (\<forall>j' \<in> set js. \<forall>k \<in> set (media_jobs d).
        mj_claimable clk k \<longrightarrow> \<not> locked (mj_id k) \<longrightarrow> mj_id k \<notin> mj_id ` set js \<longrightarrow>
        (mj_created_at j', mj_id j') \<le> (mj_created_at k, mj_id k)) \<and>
    (\<forall>i. i \<notin> mj_id ` set js \<longrightarrow> mj_get_by_id i d' = mj_get_by_id i d)"
proof -
  let ?rows = "mj_claim_select locked clk limit d"
  let ?upd = "mj_claimed w (now + dur) now"
  note r = mj_claim_next_Inr [OF assms(3,1,2)]
  have upd: "mj_id (?upd j) = mj_id j" "mj_created_at (?upd j) = mj_created_at j"
    "mj_public_state (?upd j) = MJ_INSPECTING" "mj_lease_owner (?upd j) = Some w"
    "mj_lease_expires_at (?upd j) = Some (now + dur)"
    "mj_fence_token (?upd j) = mj_fence_token j + 1"
    "mj_attempt_count (?upd j) = mj_attempt_count j + 1" for j
    by (simp_all add: mj_claimed_def)
  have dist: "distinct (map mj_id (media_jobs d))" using assms(1) by (simp add: media_jobs_wf_def)
  have get: "mj_get_by_id i d' = map_option (\<lambda>j. if j \<in> set ?rows then ?upd j else j) (mj_get_by_id i d)" for i
    unfolding mj_get_by_id_def r [THEN conjunct2] by (rule row_by_map_update) (rule upd)
  have old: "mj_get_by_id (mj_id j) d = Some j" if "j \<in> set ?rows" for j
    using mj_claim_selectD [OF that] dist by (simp add: mj_get_by_id_def row_by_Some_iff)
  have ids: "mj_id ` set js = mj_id ` set ?rows" by (auto simp: r upd image_iff)
  have "length js = min (length (filter (\<lambda>j. mj_claimable clk j \<and> \<not> locked (mj_id j)) (media_jobs d)))
                         (nat limit)"
    by (simp add: r mj_claim_select_def)
  moreover have "\<forall>j' \<in> set js. mj_get_by_id (mj_id j') d' = Some j' \<and>
      mj_public_state j' = MJ_INSPECTING \<and>
        mj_lease_owner j' = Some w \<and> mj_lease_expires_at j' = Some (now + dur) \<and>
        (\<exists>j. mj_get_by_id (mj_id j') d = Some j \<and> mj_claimable clk j \<and>
             mj_fence_token j' = mj_fence_token j + 1 \<and>
             mj_attempt_count j' = mj_attempt_count j + 1)"
    using old mj_claim_selectD by (auto simp: r get upd)
  moreover have "\<forall>j' \<in> set js. \<forall>k \<in> set (media_jobs d). mj_claimable clk k \<longrightarrow> \<not> locked (mj_id k) \<longrightarrow>
        mj_id k \<notin> mj_id ` set js \<longrightarrow> (mj_created_at j', mj_id j') \<le> (mj_created_at k, mj_id k)"
    unfolding ids using mj_claim_select_oldest [of _ locked clk limit d] by (auto simp: r upd)
  moreover have "mj_get_by_id i d' = mj_get_by_id i d" if "i \<notin> mj_id ` set js" for i
  proof (cases "mj_get_by_id i d")
    case (Some j)
    then have "mj_id j = i" using row_by_SomeD unfolding mj_get_by_id_def by metis
    with that Some show ?thesis unfolding ids get by auto
  qed (simp add: get)
  ultimately show ?thesis by blast
qed

section \<open>A sample run\<close>

text \<open>
  One job is enqueued, claimed by \<open>w1\<close>, reclaimed when the lease has run out, and claimed by
  \<open>w2\<close>.
\<close>

definition sample_media_job :: media_job where
  "sample_media_job = \<lparr>mj_id = 1, mj_schema_version = 1, mj_result_version = 0,
     mj_public_state = MJ_QUEUED, mj_provider_id = ''vk'',
     mj_canonical_provider_url = ''https://vk.com/video1_2'', mj_media_id = ''1_2'',
     mj_hostname = ''vk.com'', mj_path = ''/video1_2'', mj_scheme = ''https'', mj_port = None,
     mj_credential_hash = replicate 32 7, mj_request_fingerprint = replicate 32 9,
     mj_result_metadata = None, mj_public_error_code = None, mj_attempt_count = 0,
     mj_max_attempts = 3, mj_available_at = 0, mj_lease_owner = None,
     mj_lease_expires_at = None, mj_fence_token = 0, mj_created_at = 0, mj_updated_at = 0,
     mj_started_at = None, mj_completed_at = None, mj_expires_at = seconds 3600\<rparr>"

definition sample_claimed :: media_job where
  "sample_claimed = mj_claimed ''w1'' (seconds 60) 0 sample_media_job"

definition sample_reclaimed :: media_job where
  "sample_reclaimed = mj_reclaimed (seconds 60) sample_claimed"

definition sample_reclaimed_by_w2 :: media_job where
  "sample_reclaimed_by_w2 = mj_claimed ''w2'' (seconds 120) (seconds 60) sample_reclaimed"

definition one_media_job :: "media_job \<Rightarrow> db" where
  "one_media_job j = empty_db\<lparr>media_jobs := [j]\<rparr>"

lemmas sample_media_defs = sample_media_job_def sample_claimed_def sample_reclaimed_def
  sample_reclaimed_by_w2_def one_media_job_def empty_db_def seconds_def mj_claimed_def
  mj_reclaimed_def

lemma one_media_job_get: "mj_get_by_id i (one_media_job j) = (if mj_id j = i then Some j else None)"
  by (simp add: mj_get_by_id_def one_media_job_def row_by_def)

lemma one_media_job_wf: "media_jobs_wf (one_media_job j) \<longleftrightarrow> media_job_ok j"
  by (simp add: media_jobs_wf_def one_media_job_def)

lemma sample_media_ok: "media_job_ok sample_media_job"
  by (simp add: media_job_ok_defs sample_media_job_def no_query_fragment_def)

lemma sample_claimed_ok: "media_job_ok sample_claimed"
  unfolding sample_claimed_def
  by (rule mj_claimed_ok [OF sample_media_ok]) (simp add: sample_media_job_def)

lemma sample_reclaimed_ok: "media_job_ok sample_reclaimed"
  unfolding sample_reclaimed_def
  by (rule mj_reclaimed_ok [OF sample_claimed_ok]) (simp add: sample_claimed_def mj_claimed_def)

lemma sample_by_w2_ok: "media_job_ok sample_reclaimed_by_w2"
  unfolding sample_reclaimed_by_w2_def
  by (rule mj_claimed_ok [OF sample_reclaimed_ok]) (simp add: sample_media_defs)

lemma one_media_job_claim:
  assumes "mj_claimable clk j" and "media_job_ok (mj_claimed w (now + dur) now j)"
    and "w \<noteq> []" and "length w \<le> 128"
  shows "mj_claim_next (\<lambda>_. False) clk w dur now 1 (one_media_job j) =
     Inr ([mj_claimed w (now + dur) now j], one_media_job (mj_claimed w (now + dur) now j))"
  using assms
  by (simp add: mj_claim_next_def mj_claim_select_def one_media_job_def sql_limit_def order_by_def
      put_row_def mj_claimable_def mj_claimed_def)

lemma sample_claim:
  "mj_claim_next (\<lambda>_. False) 0 ''w1'' (seconds 60) 0 1 (one_media_job sample_media_job) =
     Inr ([sample_claimed], one_media_job sample_claimed)"
  using one_media_job_claim [of 0 sample_media_job "''w1''" 0 "seconds 60"] sample_claimed_ok
  by (simp add: sample_claimed_def mj_claimable_def sample_media_job_def seconds_def)

lemma sample_claim_w2:
  "mj_claim_next (\<lambda>_. False) (seconds 60) ''w2'' (seconds 60) (seconds 60) 1
     (one_media_job sample_reclaimed) =
     Inr ([sample_reclaimed_by_w2], one_media_job sample_reclaimed_by_w2)"
proof -
  have "mj_claimable (seconds 60) sample_reclaimed"
    by (simp add: mj_claimable_def sample_media_defs)
  moreover have "seconds 60 + seconds 60 = seconds 120" by (simp add: seconds_def)
  ultimately show ?thesis
    using one_media_job_claim [of "seconds 60" sample_reclaimed "''w2''" "seconds 60" "seconds 60"]
      sample_by_w2_ok
    by (simp add: sample_reclaimed_by_w2_def)
qed

lemma sample_reclaim:
  "mj_reclaim_expired_leases (\<lambda>_. False) (seconds 60) (seconds 60) (one_media_job sample_claimed) =
     Inr (1, one_media_job sample_reclaimed)"
proof -
  have "mj_reclaimable (seconds 60) sample_claimed" "mj_id sample_reclaimed = mj_id sample_claimed"
    "\<not> mj_attempt_count sample_claimed \<ge> mj_max_attempts sample_claimed"
    by (simp_all add: mj_reclaimable_def sample_media_defs)
  with sample_reclaimed_ok show ?thesis
    by (simp add: mj_reclaim_expired_leases_def one_media_job_def put_row_def
        sample_reclaimed_def [symmetric])
qed

lemma sample_run:
  "mj_step\<^sup>*\<^sup>* (one_media_job sample_reclaimed) (one_media_job sample_reclaimed_by_w2)"
  "mj_step\<^sup>*\<^sup>* (one_media_job sample_media_job) (one_media_job sample_reclaimed_by_w2)"
  using mj_step.claim [OF sample_claim] mj_step.reclaim [OF sample_reclaim]
    mj_step.claim [OF sample_claim_w2]
  by (blast intro: converse_rtranclp_into_rtranclp)+

lemma sample_enqueue:
  "mj_enqueue_or_get 1 (replicate 32 7) (replicate 32 9) ''vk'' ''https://vk.com/video1_2'' ''1_2''
     ''vk.com'' ''/video1_2'' ''https'' None 0 3600 3 empty_db =
     Inr ((sample_media_job, True), one_media_job sample_media_job)"
  using sample_media_ok
  by (simp add: mj_enqueue_or_get_def Let_def mj_insert_def no_query_fragment_def one_media_job_def
      sample_media_job_def empty_db_def)

theorem mj_run_invariant_witness:
  "media_jobs_wf (one_media_job sample_reclaimed_by_w2) \<and>
   mj_attempts_bounded (one_media_job sample_reclaimed_by_w2)"
  using mj_run_invariant [OF converse_rtranclp_into_rtranclp
      [OF mj_step.enqueue [OF sample_enqueue] sample_run(2)]] .

theorem mj_fence_names_one_owner_witness:
  "mj_lease_owner sample_claimed = Some ''w1''"
proof -
  let ?d = "one_media_job sample_claimed"
  have "mj_lease_owner sample_claimed = Some ''w1''" by (simp add: sample_claimed_def mj_claimed_def)
  then show ?thesis
    using mj_fence_names_one_owner [of ?d ?d 1 sample_claimed sample_claimed "''w1''"]
    by (simp add: one_media_job_wf sample_claimed_ok one_media_job_get sample_media_defs)
qed

theorem mj_stale_worker_is_fenced_witness:
  "mj_complete (seconds 61) 1 ''w1'' 1 JNull (one_media_job sample_reclaimed_by_w2) =
     Inr (False, one_media_job sample_reclaimed_by_w2)"
  using mj_stale_worker_is_fenced [OF sample_run(1), of 1 sample_reclaimed 1]
  by (simp add: one_media_job_wf sample_reclaimed_ok one_media_job_get)
     (simp add: sample_media_defs)


theorem mj_enqueue_idempotent_witness:
  "\<exists>j'. mj_id j' = 1 \<and>
     mj_enqueue_or_get 2 (replicate 32 7) (replicate 32 9) ''vk'' ''https://vk.com/video1_2'' ''1_2''
       ''vk.com'' ''/video1_2'' ''https'' None 5 3600 3 (one_media_job sample_reclaimed_by_w2) =
       Inr ((j', False), one_media_job sample_reclaimed_by_w2)"
proof -
  have "mj_get_by_credential_hash (replicate 32 7) (one_media_job sample_media_job) =
      Some sample_media_job"
    by (simp add: mj_get_by_credential_hash_def one_media_job_def row_by_def sample_media_job_def)
  moreover have "mj_request_fingerprint sample_media_job = replicate 32 9" "mj_id sample_media_job = 1"
    by (simp_all add: sample_media_job_def)
  ultimately show ?thesis
    using mj_enqueue_idempotent [OF _ _ sample_run(2), of "replicate 32 7" sample_media_job
        "replicate 32 9" "''https://vk.com/video1_2''" 2 "''vk''" "''1_2''" "''vk.com''"
        "''/video1_2''" "''https''" None 5 3600 3]
    by (auto simp: one_media_job_wf sample_media_ok no_query_fragment_def)
qed

theorem mj_claim_takes_oldest_witness:
  "mj_get_by_id 1 (one_media_job sample_claimed) = Some sample_claimed \<and>
   mj_fence_token sample_claimed = 1"
proof -
  have "mj_id sample_claimed = 1" "mj_fence_token sample_media_job = 0"
    by (simp_all add: sample_media_defs)
  then show ?thesis
    using mj_claim_takes_oldest [OF _ _ sample_claim]
    by (simp add: one_media_job_wf sample_media_ok one_media_job_get split: if_splits)
qed

end
