(* ===== verification/Delivery_Access.thy ===== *)
theory Delivery_Access
  imports Tokens Download_Jobs Media_Jobs
begin

text \<open>
  Who may fetch an artifact: the parent-Bearer authorization and the browser-grant authorization
  of the delivery process (\<open>delivery/service.py\<close>) and the issuing of grants by the API process
  (\<open>downloads/grant_service.py\<close>).
\<close>

section \<open>Settings\<close>

record DeliverySettings =
  ds_media_downloads_enabled :: bool
  ds_media_delivery_enabled :: bool
  ds_media_browser_delivery_enabled :: bool
  ds_media_browser_grant_ttl_seconds :: int
  ds_media_browser_grant_max_active :: int

definition delivery_settings_ok :: "DeliverySettings \<Rightarrow> bool" where
  "delivery_settings_ok s \<longleftrightarrow>
     30 \<le> ds_media_browser_grant_ttl_seconds s \<and> ds_media_browser_grant_ttl_seconds s \<le> 3600 \<and>
     1 \<le> ds_media_browser_grant_max_active s \<and> ds_media_browser_grant_max_active s \<le> 16"

section \<open>Checks shared by the paths\<close>

text \<open>A malformed token reads as an unknown job.\<close>

definition bearer_hash :: "(bytes \<Rightarrow> bytes) \<Rightarrow> string \<Rightarrow> bytes res" where
  "bearer_hash sha access_token =
     (case hash_access_token sha access_token of
        Inr h \<Rightarrow> Inr h
      | Inl (JobError INVALID_ACCESS_TOKEN _) \<Rightarrow> Inl (DownloadError DOWNLOAD_JOB_NOT_FOUND ''TOKEN_SHAPE'')
      | Inl _ \<Rightarrow> Inl (DownloadError INTERNAL_ERROR ''TOKEN_HASH_FAILED''))"

definition ttl_elapsed :: "media_job \<Rightarrow> download_job \<Rightarrow> time \<Rightarrow> bool" where
  "ttl_elapsed parent job now \<longleftrightarrow>
     mj_public_state parent = MJ_EXPIRED \<or> mj_expires_at parent \<le> now \<or>
     dj_public_state job = DJ_EXPIRED \<or> dj_expires_at job \<le> now"

definition pointer_complete :: "download_job \<Rightarrow> bool" where
  "pointer_complete job \<longleftrightarrow>
     dj_artifact_id job \<noteq> None \<and> dj_artifact_bytes job \<noteq> None \<and> dj_artifact_container job \<noteq> None \<and>
     dj_artifact_content_type job \<noteq> None \<and> dj_completed_at job \<noteq> None \<and>
     dj_public_error_code job = None"

definition assert_ready_pointer :: "download_job \<Rightarrow> unit res" where
  "assert_ready_pointer job =
     (if \<not> pointer_complete job
      then Inl (DownloadError DOWNLOAD_STORAGE_UNAVAILABLE ''READY_POINTER_INCOMPLETE'')
      else if artifact_size job \<le> 0
      then Inl (DownloadError DOWNLOAD_STORAGE_UNAVAILABLE ''READY_POINTER_EMPTY'')
      else Inr ())"

definition assert_ready_pointer_api :: "download_job \<Rightarrow> unit res" where
  "assert_ready_pointer_api job =
     guard_res (pointer_complete job) (DownloadError DOWNLOAD_STORAGE_UNAVAILABLE ''READY_POINTER_INCOMPLETE'')"

section \<open>Delivery service\<close>

record DeliveryAuthorization =
  da_job :: download_job
  da_now :: time
  da_policy :: "EffectiveDownloadPolicy option"

text \<open>\<open>_policy_for_job\<close>: the policy stored at admission, else the service's own (Free) policy.\<close>

definition policy_for_job :: "pylib \<Rightarrow> EffectiveDownloadPolicy \<Rightarrow> download_job \<Rightarrow> EffectiveDownloadPolicy res" where
  "policy_for_job py own job =
     (case decode_effective_policy_snapshot py (dj_selected_format_snapshot job) of
        Inl (DownloadError _ _) \<Rightarrow> Inl (DownloadError DOWNLOAD_STORAGE_UNAVAILABLE ''POLICY_SNAPSHOT_INVALID'')
      | Inl e \<Rightarrow> Inl e
      | Inr None \<Rightarrow> Inr own
      | Inr (Some p) \<Rightarrow> Inr p)"

definition delivery_rate_for :: "EffectiveDownloadPolicy \<Rightarrow> DeliveryAuthorization \<Rightarrow> int option" where
  "delivery_rate_for own authz =
     (case da_policy authz of
        None \<Rightarrow> edp_delivery_rate_bytes_per_second own
      | Some p \<Rightarrow> edp_delivery_rate_bytes_per_second p)"

definition authorize ::
  "pylib \<Rightarrow> (bytes \<Rightarrow> bytes) \<Rightarrow> DeliverySettings \<Rightarrow> EffectiveDownloadPolicy \<Rightarrow> time \<Rightarrow> uuid \<Rightarrow> string \<Rightarrow> db \<Rightarrow>
     DeliveryAuthorization res" where
  "authorize py sha s own now download_job_id access_token d =
     andThen (bearer_hash sha access_token) (\<lambda>credential_hash.
     if \<not> ds_media_delivery_enabled s then Inl (DownloadError DELIVERY_DISABLED ''DELIVERY_DISABLED'')
     else (case dj_get_by_id download_job_id d of
       None \<Rightarrow> Inl (DownloadError DOWNLOAD_JOB_NOT_FOUND ''MISSING'')
     | Some job \<Rightarrow>
        (case mj_get_by_id (dj_media_job_id job) d of
           None \<Rightarrow> Inl (DownloadError DOWNLOAD_JOB_NOT_FOUND ''UNAUTHORIZED'')
         | Some parent \<Rightarrow>
             if \<not> tokens_match (mj_credential_hash parent) credential_hash
             then Inl (DownloadError DOWNLOAD_JOB_NOT_FOUND ''UNAUTHORIZED'')
             else if ttl_elapsed parent job now then Inl (DownloadError DOWNLOAD_EXPIRED ''TTL_ELAPSED'')
             else if dj_public_state job \<noteq> DJ_READY then Inl (DownloadError DOWNLOAD_NOT_READY ''NOT_READY'')
             else andThen (assert_ready_pointer job) (\<lambda>_.
                  andThen (policy_for_job py own job) (\<lambda>policy.
                    Inr \<lparr>da_job = job, da_now = now, da_policy = Some policy\<rparr>)))))"

definition authorize_browser_grant ::
  "pylib \<Rightarrow> (bytes \<Rightarrow> bytes) \<Rightarrow> DeliverySettings \<Rightarrow> EffectiveDownloadPolicy \<Rightarrow> time \<Rightarrow> uuid \<Rightarrow> string \<Rightarrow> db \<Rightarrow>
     DeliveryAuthorization res" where
  "authorize_browser_grant py sha s own now grant_id raw_token d =
     andThen (hash_grant_token sha raw_token) (\<lambda>token_hash.
     if \<not> ds_media_delivery_enabled s then Inl (DownloadError DELIVERY_DISABLED ''DELIVERY_DISABLED'')
     else if \<not> ds_media_browser_delivery_enabled s
     then Inl (DownloadError DELIVERY_DISABLED ''BROWSER_DELIVERY_DISABLED'')
     else (case grant_by_id grant_id d of
       None \<Rightarrow> Inl (DownloadError DOWNLOAD_JOB_NOT_FOUND ''GRANT_UNAUTHORIZED'')
     | Some grant \<Rightarrow>
       if \<not> grant_hashes_match (gr_token_hash grant) token_hash
       then Inl (DownloadError DOWNLOAD_JOB_NOT_FOUND ''GRANT_UNAUTHORIZED'')
       else if gr_revoked_at grant \<noteq> None \<or> gr_expires_at grant \<le> now
       then Inl (DownloadError DOWNLOAD_EXPIRED ''GRANT_EXPIRED'')
       else (case dj_get_by_id (gr_download_job_id grant) d of
         None \<Rightarrow> Inl (DownloadError DOWNLOAD_JOB_NOT_FOUND ''GRANT_JOB_MISSING'')
       | Some job \<Rightarrow>
         (case mj_get_by_id (dj_media_job_id job) d of
            None \<Rightarrow> Inl (DownloadError DOWNLOAD_JOB_NOT_FOUND ''GRANT_PARENT_MISSING'')
          | Some parent \<Rightarrow>
            if ttl_elapsed parent job now then Inl (DownloadError DOWNLOAD_EXPIRED ''TTL_ELAPSED'')
            else if dj_public_state job \<noteq> DJ_READY then Inl (DownloadError DOWNLOAD_NOT_READY ''NOT_READY'')
            else andThen (assert_ready_pointer job) (\<lambda>_.
              if dj_artifact_id job \<noteq> Some (gr_artifact_id grant) \<or> dj_fence_token job \<noteq> gr_fence_token grant
              then Inl (DownloadError DOWNLOAD_JOB_NOT_FOUND ''GRANT_ARTIFACT_MISMATCH'')
              else andThen (policy_for_job py own job) (\<lambda>policy.
                Inr \<lparr>da_job = job, da_now = now, da_policy = Some policy\<rparr>))))))"

text \<open>\<open>open_artifact\<close>: what the reader is asked for; the reader itself is file I/O.\<close>

record OpenRequest =
  or_artifact_id :: uuid
  or_download_job_id :: uuid
  or_format_option_id :: string
  or_expected_bytes :: int
  or_expected_container :: string
  or_expected_content_type :: string
  or_expected_expires_at :: time
  or_expected_fence :: int

definition open_artifact :: "bool \<Rightarrow> DeliveryAuthorization \<Rightarrow> OpenRequest res" where
  "open_artifact reader_configured authz =
     (let job = da_job authz
      in if \<not> reader_configured then Inl (DownloadError DELIVERY_DISABLED ''READER_UNCONFIGURED'')
         else if dj_expires_at job \<le> da_now authz then Inl (DownloadError DOWNLOAD_EXPIRED ''TTL_AT_OPEN'')
         else (case (dj_artifact_id job, dj_artifact_bytes job, dj_artifact_container job,
                     dj_artifact_content_type job) of
           (Some a, Some b, Some c, Some ct) \<Rightarrow>
             Inr \<lparr>or_artifact_id = a, or_download_job_id = dj_id job,
                  or_format_option_id = dj_format_option_id job, or_expected_bytes = b,
                  or_expected_container = c, or_expected_content_type = ct,
                  or_expected_expires_at = dj_expires_at job, or_expected_fence = dj_fence_token job\<rparr>
         | _ \<Rightarrow> Inl (UncaughtError ''AssertionError'')))"

section \<open>Issuing grants\<close>

record IssuedBrowserGrant =
  ib_grant_id :: uuid
  ib_download_path :: string
  ib_expires_at :: time
  ib_raw_token :: string
  ib_cookie_max_age :: int

definition content_path_for_grant :: "pylib \<Rightarrow> uuid \<Rightarrow> string" where
  "content_path_for_grant py grant_id =
     ''/api/v1/media/browser-grants/'' @ uuid_str py grant_id @ ''/content''"

text \<open>\<open>active[:overflow]\<close> is empty unless the cap is reached.\<close>

definition make_room :: "DeliverySettings \<Rightarrow> uuid \<Rightarrow> time \<Rightarrow> db \<Rightarrow> db res" where
  "make_room s job_id now d =
     (let active = list_active_for_job job_id now d;
          overflow = int (length active) - (ds_media_browser_grant_max_active s - 1)
      in if overflow > 0 then revoke_grants (take (nat overflow) active) now d else Inr d)"

definition issue ::
  "pylib \<Rightarrow> (bytes \<Rightarrow> bytes) \<Rightarrow> DeliverySettings \<Rightarrow> uuid \<Rightarrow> bytes \<Rightarrow> time \<Rightarrow> uuid \<Rightarrow> string \<Rightarrow> db \<Rightarrow>
     (IssuedBrowserGrant \<times> db) res" where
  "issue py sha s fresh raw now download_job_id access_token d =
     andThen (bearer_hash sha access_token) (\<lambda>credential_hash.
     if \<not> ds_media_browser_delivery_enabled s
     then Inl (DownloadError DELIVERY_DISABLED ''BROWSER_DELIVERY_DISABLED'')
     else if \<not> ds_media_downloads_enabled s then Inl (DownloadError DOWNLOADS_DISABLED ''DOWNLOADS_DISABLED'')
     else (case lock_download_job download_job_id d of
       None \<Rightarrow> Inl (DownloadError DOWNLOAD_JOB_NOT_FOUND ''MISSING'')
     | Some job \<Rightarrow>
        (case mj_get_by_id (dj_media_job_id job) d of
           None \<Rightarrow> Inl (DownloadError DOWNLOAD_JOB_NOT_FOUND ''UNAUTHORIZED'')
         | Some parent \<Rightarrow>
             if \<not> tokens_match (mj_credential_hash parent) credential_hash
             then Inl (DownloadError DOWNLOAD_JOB_NOT_FOUND ''UNAUTHORIZED'')
             else if ttl_elapsed parent job now then Inl (DownloadError DOWNLOAD_EXPIRED ''TTL_ELAPSED'')
             else if dj_public_state job \<noteq> DJ_READY then Inl (DownloadError DOWNLOAD_NOT_READY ''NOT_READY'')
             else andThen (assert_ready_pointer_api job) (\<lambda>_.
               let grant_expires = min (now + seconds (ds_media_browser_grant_ttl_seconds s)) (dj_expires_at job)
               in if grant_expires \<le> now
                  then Inl (DownloadError DOWNLOAD_EXPIRED ''GRANT_TTL_ELAPSED'')
                  else
                    andThen (make_room s (dj_id job) now d) (\<lambda>d1.
                    let raw_token = generate_grant_token raw
                    in andThen (hash_grant_token sha raw_token) (\<lambda>token_hash.
                       andThen (insert_grant fresh (dj_id job) token_hash (the (dj_artifact_id job))
                                  (dj_fence_token job) now grant_expires d1) (\<lambda>(_, d2).
                         Inr (\<lparr>ib_grant_id = fresh, ib_download_path = content_path_for_grant py fresh,
                                ib_expires_at = grant_expires, ib_raw_token = raw_token,
                                ib_cookie_max_age = max 1 ((grant_expires - now) div 1000000)\<rparr>, d2))))))))"

section \<open>What an authorization proves\<close>

lemma artifact_size_pointer:
  "assert_ready_pointer job = Inr () \<longleftrightarrow> pointer_complete job \<and> 0 < artifact_size job"
  by (auto simp: assert_ready_pointer_def)

lemma open_complete:
  assumes "pointer_complete (da_job authz)" and "da_now authz < dj_expires_at (da_job authz)"
  shows "\<exists>rq. open_artifact True authz = Inr rq \<and> Some (or_artifact_id rq) = dj_artifact_id (da_job authz) \<and>
     or_expected_fence rq = dj_fence_token (da_job authz) \<and>
     or_expected_bytes rq = artifact_size (da_job authz) \<and> or_download_job_id rq = dj_id (da_job authz)"
  using assms by (auto simp: pointer_complete_def open_artifact_def Let_def artifact_size_def)

text \<open>The checks between the lookup of the job and the authorization.\<close>

lemma authorize_browser_grantD:
  assumes "authorize_browser_grant py sha s own now grant_id tok d = Inr authz"
  obtains g parent h where "hash_grant_token sha tok = Inr h" "grant_by_id grant_id d = Some g"
    "gr_token_hash g = h" "gr_revoked_at g = None" "now < gr_expires_at g"
    "dj_get_by_id (gr_download_job_id g) d = Some (da_job authz)"
    "mj_get_by_id (dj_media_job_id (da_job authz)) d = Some parent"
    "\<not> ttl_elapsed parent (da_job authz) now" "dj_public_state (da_job authz) = DJ_READY"
    "assert_ready_pointer (da_job authz) = Inr ()"
    "dj_artifact_id (da_job authz) = Some (gr_artifact_id g)"
    "dj_fence_token (da_job authz) = gr_fence_token g" "da_now authz = now"
    "policy_for_job py own (da_job authz) = Inr (the (da_policy authz))"
  using assms
  by (auto simp: authorize_browser_grant_def andThen_eq_Inr grant_hashes_match_def
      split: if_split_asm option.split_asm)

text \<open>C14. A browser grant opens exactly the artifact it was issued for: when a grant and a token are
  accepted, the token hashes to the stored digest, the grant is neither revoked nor expired, its
  job is ready and unexpired with the grant's own artifact and fence, and the reader is asked for
  that artifact under that fence.\<close>

theorem browser_grant_sound:
  assumes "authorize_browser_grant py sha s own now grant_id tok d = Inr authz"
  shows "\<exists>g rq. grant_by_id grant_id d = Some g \<and> hash_grant_token sha tok = Inr (gr_token_hash g) \<and>
     gr_revoked_at g = None \<and> now < gr_expires_at g \<and>
     dj_get_by_id (gr_download_job_id g) d = Some (da_job authz) \<and>
     dj_public_state (da_job authz) = DJ_READY \<and> now < dj_expires_at (da_job authz) \<and>
     open_artifact True authz = Inr rq \<and> or_artifact_id rq = gr_artifact_id g \<and>
     or_expected_fence rq = gr_fence_token g \<and> 0 < or_expected_bytes rq"
  using assms
proof (rule authorize_browser_grantD)
  fix g parent h
  assume h: "hash_grant_token sha tok = Inr h" "gr_token_hash g = h" and g: "grant_by_id grant_id d = Some g"
    and live: "gr_revoked_at g = None" "now < gr_expires_at g"
    and job: "dj_get_by_id (gr_download_job_id g) d = Some (da_job authz)"
    and ttl: "\<not> ttl_elapsed parent (da_job authz) now" and rd: "dj_public_state (da_job authz) = DJ_READY"
    and ptr: "assert_ready_pointer (da_job authz) = Inr ()"
    and art: "dj_artifact_id (da_job authz) = Some (gr_artifact_id g)"
    and fence: "dj_fence_token (da_job authz) = gr_fence_token g" and now: "da_now authz = now"
  have exp: "now < dj_expires_at (da_job authz)" using ttl by (simp add: ttl_elapsed_def)
  have pc: "pointer_complete (da_job authz)" "0 < artifact_size (da_job authz)"
    using ptr by (simp_all add: artifact_size_pointer)
  obtain rq where rq: "open_artifact True authz = Inr rq" "Some (or_artifact_id rq) = dj_artifact_id (da_job authz)"
    "or_expected_fence rq = dj_fence_token (da_job authz)" "or_expected_bytes rq = artifact_size (da_job authz)"
    using open_complete [OF pc(1)] exp now by auto
  show ?thesis
    using h g live job rd exp rq art fence pc(2) by (intro exI [of _ g] exI [of _ rq]) simp
qed

section \<open>Issuing\<close>

lemma issueD:
  assumes "issue py sha s fresh raw now job_id tok d = Inr (ig, d')"
  obtains job parent h d1 th row where "bearer_hash sha tok = Inr h" "lock_download_job job_id d = Some job"
    "mj_get_by_id (dj_media_job_id job) d = Some parent" "\<not> ttl_elapsed parent job now"
    "dj_public_state job = DJ_READY" "pointer_complete job"
    "ib_expires_at ig = min (now + seconds (ds_media_browser_grant_ttl_seconds s)) (dj_expires_at job)"
    "now < ib_expires_at ig" "make_room s (dj_id job) now d = Inr d1"
    "hash_grant_token sha (ib_raw_token ig) = Inr th" "ib_raw_token ig = generate_grant_token raw"
    "insert_grant fresh (dj_id job) th (the (dj_artifact_id job)) (dj_fence_token job) now (ib_expires_at ig) d1 = Inr (row, d')"
    "ib_grant_id ig = fresh"
  using assms
  by (auto simp: issue_def andThen_eq_Inr Let_def assert_ready_pointer_api_def not_le simp del: not_None_eq min_less_iff_conj
      split: if_split_asm option.split_asm)

lemma make_room_total:
  assumes "grants_wf d"
  shows "\<exists>d1. make_room s i now d = Inr d1 \<and> grants_wf d1 \<and> d1 = d\<lparr>grants := grants d1\<rparr> \<and>
     int (length (list_active_for_job i now d1)) \<le> max 0 (ds_media_browser_grant_max_active s - 1)"
proof -
  let ?active = "list_active_for_job i now d"
  let ?k = "nat (int (length ?active) - (ds_media_browser_grant_max_active s - 1))"
  show ?thesis
  proof (cases "0 < int (length ?active) - (ds_media_browser_grant_max_active s - 1)")
    case False
    then show ?thesis using assms by (intro exI [of _ d]) (simp add: make_room_def Let_def)
  next
    case True
    let ?gs = "take ?k ?active"
    let ?d1 = "d\<lparr>grants := map (\<lambda>g. if g \<in> set ?gs then revoked now g else g) (grants d)\<rparr>"
    have sub: "set ?gs \<subseteq> set (grants d)"
      by (rule subset_trans [OF set_take_subset list_active_stored(1) [OF assms]])
    have dist_ids: "distinct (map gr_id ?gs)"
      using list_active_stored(2) [OF assms] by (simp add: take_map [symmetric] distinct_take)
    have run: "make_room s i now d = Inr ?d1"
      using True revoke_grants_map [OF assms sub dist_ids] by (simp add: make_room_def Let_def)
    have wf: "grants_wf ?d1" by (rule revoke_active_wf [OF assms])
    have dist: "distinct ?active"
      using list_active_stored(2) [OF assms] by (simp add: distinct_map)
    have "set (list_active_for_job i now ?d1) \<subseteq> set ?active - set ?gs"
    proof
      fix g assume "g \<in> set (list_active_for_job i now ?d1)"
      then have g: "grant_active i now g" "g \<in> (\<lambda>g. if g \<in> set ?gs then revoked now g else g) ` set (grants d)"
        by (simp_all add: list_active_for_job_def del: if_image_distrib)
      then obtain h where h: "h \<in> set (grants d)" "g = (if h \<in> set ?gs then revoked now h else h)" by blast
      have "h \<notin> set ?gs"
      proof
        assume "h \<in> set ?gs"
        with h g(1) show False by (simp add: grant_active_def revoked_def)
      qed
      with h g(1) show "g \<in> set ?active - set ?gs" by (simp add: list_active_for_job_def)
    qed
    then have "card (set (list_active_for_job i now ?d1)) \<le> card (set ?active - set ?gs)"
      by (simp add: card_mono)
    also have "\<dots> = length ?active - length ?gs"
      using dist by (simp add: card_Diff_subset set_take_subset distinct_card distinct_take)
    also have "\<dots> = length ?active - ?k" by simp
    finally have "card (set (list_active_for_job i now ?d1)) \<le> length ?active - ?k" .
    moreover have "distinct (list_active_for_job i now ?d1)"
      using list_active_stored(2) [OF wf] by (simp add: distinct_map)
    ultimately have "length (list_active_for_job i now ?d1) \<le> length ?active - ?k"
      by (simp add: distinct_card)
    then have "int (length (list_active_for_job i now ?d1)) \<le> max 0 (ds_media_browser_grant_max_active s - 1)"
      using True by linarith
    moreover have "?d1 = d\<lparr>grants := grants ?d1\<rparr>" by simp
    ultimately show ?thesis using run wf by (intro exI [of _ ?d1] conjI)
  qed
qed

lemma make_roomD:
  assumes "grants_wf d" and "make_room s i now d = Inr d1"
  shows "grants_wf d1" "d1 = d\<lparr>grants := grants d1\<rparr>"
    "int (length (list_active_for_job i now d1)) \<le> max 0 (ds_media_browser_grant_max_active s - 1)"
proof -
  obtain d2 where d2: "make_room s i now d = Inr d2" "grants_wf d2" "d2 = d\<lparr>grants := grants d2\<rparr>"
    "int (length (list_active_for_job i now d2)) \<le> max 0 (ds_media_browser_grant_max_active s - 1)"
    using make_room_total [OF assms(1), of s i now] by (elim exE conjE)
  have "d2 = d1" using d2(1) assms(2) by (metis sum.inject(2))
  with d2(2,3,4) show "grants_wf d1" "d1 = d\<lparr>grants := grants d1\<rparr>"
    "int (length (list_active_for_job i now d1)) \<le> max 0 (ds_media_browser_grant_max_active s - 1)"
    by (simp_all only:)
qed

text \<open>A row that \<open>insert_grant\<close> returns was stored as the last one, under a fresh id.\<close>

lemma insert_grantD:
  assumes "insert_grant i job_id th a f t t' d = Inr (row, d')"
  shows "row = \<lparr>gr_id = i, gr_download_job_id = job_id, gr_token_hash = th, gr_artifact_id = a,
      gr_fence_token = f, gr_created_at = t, gr_expires_at = t', gr_revoked_at = None\<rparr>"
    "d' = d\<lparr>grants := grants d @ [row]\<rparr>" "i \<notin> gr_id ` set (grants d)" "grant_ok row"
  using assms by (auto simp: insert_grant_def Let_def split: if_split_asm)

lemma order_by_snoc_filter:
  "filter P (xs @ [x]) = filter P xs @ (if P x then [x] else [])"
  by simp

text \<open>Issuing a browser grant leaves at most the configured number of active grants of the
  job, the new one among them, and touches nothing but the grants table; it never outlives the
  job's own expiry and its token is the generated one.\<close>

theorem issue_bounds_active_grants:
  assumes "grants_wf d" and "1 \<le> ds_media_browser_grant_max_active s"
    and "issue py sha s fresh raw now job_id tok d = Inr (ig, d')"
  shows "grants_wf d' \<and> d' = d\<lparr>grants := grants d'\<rparr> \<and>
     int (length (list_active_for_job job_id now d')) \<le> ds_media_browser_grant_max_active s \<and>
     fresh \<in> gr_id ` set (list_active_for_job job_id now d') \<and>
     (\<forall>job. lock_download_job job_id d = Some job \<longrightarrow> now < ib_expires_at ig \<and> ib_expires_at ig \<le> dj_expires_at job)"
  using assms(3)
proof (rule issueD)
  fix job parent h d1 th row
  assume job: "lock_download_job job_id d = Some job"
    and ig: "ib_expires_at ig = min (now + seconds (ds_media_browser_grant_ttl_seconds s)) (dj_expires_at job)"
      "now < ib_expires_at ig"
    and room: "make_room s (dj_id job) now d = Inr d1"
    and ins: "insert_grant fresh (dj_id job) th (the (dj_artifact_id job)) (dj_fence_token job) now
       (ib_expires_at ig) d1 = Inr (row, d')"
  have id: "dj_id job = job_id" using row_by_SomeD [OF job [unfolded lock_download_job_def]] by simp
  have room': "make_room s job_id now d = Inr d1" using room by (simp only: id)
  note d1 = make_roomD [OF assms(1) room']
  note ins' = insert_grantD [OF ins]
  have act: "grant_active job_id now row"
    using ig(2) id by (simp add: ins'(1) grant_active_def)
  have "length (list_active_for_job job_id now d') = length (list_active_for_job job_id now d1) + 1"
    using act by (simp add: list_active_for_job_def ins'(2))
  moreover have "row \<in> set (list_active_for_job job_id now d')"
    using act by (simp add: list_active_for_job_def ins'(2))
  moreover have "gr_id row = fresh" by (simp add: ins'(1))
  moreover have "grants_wf d'"
    using d1(1) ins'(3,4) \<open>gr_id row = fresh\<close> by (auto simp: grants_wf_def ins'(2))
  moreover have "d' = d\<lparr>grants := grants d'\<rparr>"
  proof -
    have "d\<lparr>grants := grants d1\<rparr>\<lparr>grants := grants d1 @ [row]\<rparr> = d\<lparr>grants := grants d1 @ [row]\<rparr>" by simp
    then show ?thesis using ins'(2) d1(2) by simp
  qed
  ultimately show ?thesis
    using d1(3) assms(2) ig job by (intro conjI) (simp_all add: rev_image_eqI)
qed

text \<open>An issued grant opens its artifact: until it expires, the issued id and token authorize
  the job they were issued for, as long as the parent job is not expired and the stored policy
  decodes.\<close>

theorem issued_grant_opens:
  assumes "grants_wf d" and "\<forall>j \<in> set (download_jobs d). download_job_ok j"
    and "issue py sha s fresh raw now job_id tok d = Inr (ig, d')"
    and "lock_download_job job_id d = Some job"
    and "mj_get_by_id (dj_media_job_id job) d = Some parent" and "now' < mj_expires_at parent"
    and "now \<le> now'" and "now' < ib_expires_at ig" and "policy_for_job py own job = Inr p"
    and "ds_media_delivery_enabled s" and "ds_media_browser_delivery_enabled s"
  shows "authorize_browser_grant py sha s own now' (ib_grant_id ig) (ib_raw_token ig) d' =
     Inr \<lparr>da_job = job, da_now = now', da_policy = Some p\<rparr>"
  using assms(3)
proof (rule issueD)
  fix job1 parent1 h d1 th row
  assume j: "lock_download_job job_id d = Some job1" "mj_get_by_id (dj_media_job_id job1) d = Some parent1"
    and ttl: "\<not> ttl_elapsed parent1 job1 now" and rd: "dj_public_state job1 = DJ_READY"
    and pc: "pointer_complete job1"
    and ig: "ib_expires_at ig = min (now + seconds (ds_media_browser_grant_ttl_seconds s)) (dj_expires_at job1)"
      "ib_grant_id ig = fresh"
    and room: "make_room s (dj_id job1) now d = Inr d1"
    and th: "hash_grant_token sha (ib_raw_token ig) = Inr th"
    and ins: "insert_grant fresh (dj_id job1) th (the (dj_artifact_id job1)) (dj_fence_token job1) now
       (ib_expires_at ig) d1 = Inr (row, d')"
  have eq: "job1 = job" "parent1 = parent" using j assms(4,5) by simp_all
  have d1: "d1 = d\<lparr>grants := grants d1\<rparr>"
    by (rule make_roomD(2) [OF assms(1) room])
  note ins' = insert_grantD [OF ins]
  have tabs: "download_jobs d' = download_jobs d" "media_jobs d' = media_jobs d"
    using arg_cong [OF d1, of download_jobs] arg_cong [OF d1, of media_jobs] ins'(2) by simp_all
  have g: "grant_by_id fresh d' = Some row"
    using ins'(3) by (simp add: ins'(1,2) grant_by_id_def row_by_append row_by_Cons
        row_by_None_iff [THEN iffD2] split: option.split)
  have job: "dj_get_by_id (dj_id job) d' = Some job" "dj_get_by_id job_id d' = Some job"
    using assms(4) row_by_SomeD [of dj_id job_id "download_jobs d" job] tabs
    by (simp_all add: lock_download_job_def dj_get_by_id_def)
  have par: "mj_get_by_id (dj_media_job_id job) d' = Some parent"
    using assms(5) tabs by (simp add: mj_get_by_id_def)
  have "download_job_ok job"
    using assms(2,4) row_by_SomeD [of dj_id job_id "download_jobs d" job] by (simp add: lock_download_job_def)
  then have ptr: "assert_ready_pointer job = Inr ()"
    using rd eq pc by (auto simp: artifact_size_pointer download_job_ok_def download_job_result_ok_def
        artifact_size_def pointer_complete_def present_def split: option.splits)
  have ttl': "\<not> ttl_elapsed parent job now'"
    using ttl eq assms(6,8) ig(1) rd by (simp add: ttl_elapsed_def)
  have art: "dj_artifact_id job = Some (gr_artifact_id row)" "gr_fence_token row = dj_fence_token job"
    using pc eq by (auto simp: ins'(1) pointer_complete_def)
  have "length th = 32" using ins'(4) by (simp add: ins'(1) grant_ok_def)
  moreover have "gr_token_hash row = th" "gr_revoked_at row = None" "gr_download_job_id row = dj_id job"
    "gr_expires_at row = ib_expires_at ig"
    by (simp_all add: ins'(1) eq)
  ultimately show ?thesis
    using th g job(1) par ttl' rd [unfolded eq] ptr art assms(8-11)
    by (simp add: authorize_browser_grant_def ig(2) grant_hashes_match_def)
qed

section \<open>A sample\<close>

definition sample_ds :: DeliverySettings where
  "sample_ds = \<lparr>ds_media_downloads_enabled = True, ds_media_delivery_enabled = True,
     ds_media_browser_delivery_enabled = True, ds_media_browser_grant_ttl_seconds = 300,
     ds_media_browser_grant_max_active = 1\<rparr>"

definition sample_served_job :: download_job where
  "sample_served_job = sample_download_job\<lparr>dj_public_state := DJ_READY, dj_progress_stage := PS_READY,
     dj_fence_token := 1, dj_artifact_id := Some 8, dj_artifact_bytes := Some 100,
     dj_artifact_content_type := Some ''video/mp4'', dj_artifact_container := Some ''mp4'',
     dj_completed_at := Some 5\<rparr>"

definition sample_access_db :: "delivery_grant list \<Rightarrow> db" where
  "sample_access_db gs = empty_db\<lparr>media_jobs := [sample_media_job], download_jobs := [sample_served_job],
     grants := gs\<rparr>"

definition sample_grant :: delivery_grant where
  "sample_grant = \<lparr>gr_id = 6, gr_download_job_id = 3, gr_token_hash = sample_secret, gr_artifact_id = 8,
     gr_fence_token = 1, gr_created_at = 10, gr_expires_at = 10 + seconds 300, gr_revoked_at = None\<rparr>"

definition sample_issued :: IssuedBrowserGrant where
  "sample_issued = \<lparr>ib_grant_id = 6, ib_download_path = content_path_for_grant sample_pylib 6,
     ib_expires_at = 10 + seconds 300, ib_raw_token = b64_encode sample_secret, ib_cookie_max_age = 300\<rparr>"

lemmas sample_access_defs = sample_ds_def sample_served_job_def sample_access_db_def sample_grant_def
  sample_download_job_def sample_media_job_def empty_db_def seconds_def

lemma sample_hashes:
  "hash_grant_token sample_sha (b64_encode sample_secret) = Inr sample_secret"
  "bearer_hash sample_sha (b64_encode sample_secret) = Inr sample_secret"
proof -
  have t: "token_bytes sample_secret"
    by (simp add: token_bytes_def octets_def sample_secret_def list_all_iff)
  have p: "parse_grant_token (b64_encode sample_secret) = Inr sample_secret"
    "parse_access_token (b64_encode sample_secret) = Inr sample_secret"
    using t by (simp_all add: parse_grant_iff parse_access_iff)
  have l: "length sample_secret = 32" by (simp add: sample_secret_def)
  show "hash_grant_token sample_sha (b64_encode sample_secret) = Inr sample_secret"
    by (simp add: hash_grant_token_def p sample_sha_def l)
  show "bearer_hash sample_sha (b64_encode sample_secret) = Inr sample_secret"
    by (simp add: bearer_hash_def hash_access_token_def p sample_sha_def l)
qed

lemma sample_secret_tokens_match: "tokens_match (replicate 32 7) sample_secret"
  by (simp add: tokens_match_def sample_secret_def)

lemma sample_issue:
  "issue sample_pylib sample_sha sample_ds 6 sample_secret 10 3 (b64_encode sample_secret) (sample_access_db []) =
     Inr (sample_issued, sample_access_db [sample_grant])"
proof -
  have l: "length sample_secret = 32" by (simp add: sample_secret_def)
  have room: "make_room sample_ds 3 10 (sample_access_db []) = Inr (sample_access_db [])"
    by (simp add: make_room_def list_active_for_job_def order_by_def sample_access_defs)
  have ins: "insert_grant 6 3 sample_secret 8 1 10 (10 + seconds 300) (sample_access_db []) =
     Inr (sample_grant, sample_access_db [sample_grant])"
    using l by (simp add: insert_grant_def Let_def grant_ok_def) (simp add: sample_access_defs l)
  have job: "lock_download_job 3 (sample_access_db []) = Some sample_served_job"
    "mj_get_by_id 1 (sample_access_db []) = Some sample_media_job"
    by (simp_all add: lock_download_job_def mj_get_by_id_def row_by_def sample_access_defs)
  have fields: "dj_id sample_served_job = 3" "dj_media_job_id sample_served_job = 1"
    "dj_artifact_id sample_served_job = Some 8" "dj_fence_token sample_served_job = 1"
    "dj_public_state sample_served_job = DJ_READY" "assert_ready_pointer_api sample_served_job = Inr ()"
    "\<not> ttl_elapsed sample_media_job sample_served_job 10" "mj_credential_hash sample_media_job = replicate 32 7"
    "min (10 + seconds (ds_media_browser_grant_ttl_seconds sample_ds)) (dj_expires_at sample_served_job)
       = 10 + seconds 300"
    by (simp_all add: assert_ready_pointer_api_def pointer_complete_def ttl_elapsed_def sample_access_defs)
  have on: "ds_media_browser_delivery_enabled sample_ds" "ds_media_downloads_enabled sample_ds"
    by (simp_all add: sample_ds_def)
  show ?thesis
    by (simp add: issue_def sample_hashes on job fields room ins sample_secret_tokens_match
        generate_grant_token_def sample_issued_def Let_def del: One_nat_def min_def) (simp add: seconds_def)
qed

lemma sample_grants_wf: "grants_wf (sample_access_db [])"
  by (simp add: grants_wf_def sample_access_defs)

lemma sample_served_job_ok: "\<forall>j \<in> set (download_jobs (sample_access_db [])). download_job_ok j"
  by (simp add: download_job_ok_defs no_query_fragment_def sample_access_defs)

theorem issue_bounds_active_grants_witness:
  "int (length (list_active_for_job 3 10 (sample_access_db [sample_grant]))) \<le> 1"
  using issue_bounds_active_grants [OF sample_grants_wf _ sample_issue] by (simp add: sample_ds_def)

lemma sample_policy: "policy_for_job sample_pylib own sample_served_job = Inr own"
  by (simp add: policy_for_job_def decode_effective_policy_snapshot_def jget_def sample_access_defs)

theorem issued_grant_opens_witness:
  "authorize_browser_grant sample_pylib sample_sha sample_ds sample_premium_policy 20 6
     (b64_encode sample_secret) (sample_access_db [sample_grant]) =
   Inr \<lparr>da_job = sample_served_job, da_now = 20, da_policy = Some sample_premium_policy\<rparr>"
  using issued_grant_opens [OF sample_grants_wf sample_served_job_ok sample_issue _ _ _ _ _ sample_policy,
      of sample_media_job 20]
  by (simp add: sample_issued_def lock_download_job_def mj_get_by_id_def row_by_def)
    (simp add: sample_access_defs)

lemma sample_authorizes:
  "authorize_browser_grant sample_pylib sample_sha sample_ds sample_premium_policy 20 6
     (b64_encode sample_secret) (sample_access_db [sample_grant]) =
   Inr \<lparr>da_job = sample_served_job, da_now = 20, da_policy = Some sample_premium_policy\<rparr>"
proof -
  have l: "length sample_secret = 32" by (simp add: sample_secret_def)
  have rows: "grant_by_id 6 (sample_access_db [sample_grant]) = Some sample_grant"
    "dj_get_by_id 3 (sample_access_db [sample_grant]) = Some sample_served_job"
    "mj_get_by_id 1 (sample_access_db [sample_grant]) = Some sample_media_job"
    by (simp_all add: grant_by_id_def dj_get_by_id_def mj_get_by_id_def row_by_def sample_access_defs)
  have fields: "gr_token_hash sample_grant = sample_secret" "gr_revoked_at sample_grant = None"
    "\<not> gr_expires_at sample_grant \<le> 20" "gr_download_job_id sample_grant = 3"
    "gr_artifact_id sample_grant = 8" "gr_fence_token sample_grant = 1"
    "dj_media_job_id sample_served_job = 1" "dj_artifact_id sample_served_job = Some 8"
    "dj_fence_token sample_served_job = 1" "dj_public_state sample_served_job = DJ_READY"
    "assert_ready_pointer sample_served_job = Inr ()" "\<not> ttl_elapsed sample_media_job sample_served_job 20"
    by (simp_all add: artifact_size_pointer pointer_complete_def artifact_size_def ttl_elapsed_def sample_access_defs)
  have on: "ds_media_delivery_enabled sample_ds" "ds_media_browser_delivery_enabled sample_ds"
    by (simp_all add: sample_ds_def)
  show ?thesis
    by (simp add: authorize_browser_grant_def sample_hashes rows fields on sample_policy
        grant_hashes_match_def l del: One_nat_def)
qed

theorem browser_grant_sound_witness:
  "\<exists>rq. open_artifact True \<lparr>da_job = sample_served_job, da_now = 20, da_policy = Some sample_premium_policy\<rparr> =
     Inr rq \<and> or_artifact_id rq = 8"
  using browser_grant_sound [OF sample_authorizes]
  by (auto simp: grant_by_id_def row_by_def sample_access_db_def sample_grant_def)

end
