(* ===== verification/Range_Parse.thy ===== *)
theory Range_Parse
  imports Text
begin

text \<open>
  The \<open>Range\<close> header of a delivery request (\<open>delivery/range_parse.py\<close>): at most one byte range,
  turned into an interval of the artifact.
\<close>

section \<open>Parsing\<close>

record ByteRange =
  br_start :: int
  br_end :: int
  br_total :: int

definition br_length :: "ByteRange \<Rightarrow> int" where
  "br_length r = br_end r - br_start r"

datatype range_result = NoRange | Satisfiable ByteRange | RangeUnsatisfiable int

definition content_range_header :: "ByteRange \<Rightarrow> string" where
  "content_range_header r =
     ''bytes '' @ show_int (br_start r) @ ''-'' @ show_int (br_end r - 1) @ ''/'' @ show_int (br_total r)"

definition unsatisfiable_header :: "int \<Rightarrow> string" where
  "unsatisfiable_header sz = ''bytes */'' @ show_int sz"

abbreviation bad_range :: "string \<Rightarrow> error" where
  "bad_range reason \<equiv> DownloadErrorHttp INTERNAL_ERROR reason 400"

definition parse_suffix_range :: "string \<Rightarrow> int \<Rightarrow> range_result res" where
  "parse_suffix_range suffix_s sz =
     (if \<not> isdigit suffix_s then Inl (bad_range ''RANGE_SUFFIX_MALFORMED'')
      else if length suffix_s > 1 \<and> starts_with ''0'' suffix_s
      then Inl (bad_range ''RANGE_SUFFIX_LEADING_ZERO'')
      else andThen (int_of_digits suffix_s) (\<lambda>suffix.
        if suffix = 0 then Inr (RangeUnsatisfiable sz)
        else Inr (Satisfiable \<lparr>br_start = (if suffix > sz then 0 else sz - suffix),
               br_end = sz, br_total = sz\<rparr>)))"

definition parse_bounded_range :: "string \<Rightarrow> int \<Rightarrow> range_result res" where
  "parse_bounded_range spec sz =
     (case split_once (CHR ''-'') spec of (start_s, end_s) \<Rightarrow>
        if \<not> isdigit start_s then Inl (bad_range ''RANGE_START_MALFORMED'')
        else andThen (int_of_digits start_s) (\<lambda>start.
          if start \<ge> sz then Inr (RangeUnsatisfiable sz)
          else if end_s = [] then Inr (Satisfiable \<lparr>br_start = start, br_end = sz, br_total = sz\<rparr>)
          else if \<not> isdigit end_s then Inl (bad_range ''RANGE_END_MALFORMED'')
          else andThen (int_of_digits end_s) (\<lambda>end_inclusive.
            if end_inclusive < start then Inl (bad_range ''RANGE_EMPTY'')
            else Inr (Satisfiable \<lparr>br_start = start, br_end = min (end_inclusive + 1) sz,
                   br_total = sz\<rparr>))))"

definition parse_single_byte_range :: "string option \<Rightarrow> int \<Rightarrow> range_result res" where
  "parse_single_byte_range header sz =
     (case header of
        None \<Rightarrow> Inr NoRange
      | Some h \<Rightarrow>
          let raw = strip h; spec = drop 6 raw
          in if raw = [] then Inr NoRange
             else if length raw > 128 then Inl (bad_range ''RANGE_HEADER_TOO_LONG'')
             else if CHR '','' \<in> set raw then Inl (bad_range ''RANGE_MULTIPLE'')
             else if \<not> starts_with ''bytes='' (lower raw) then Inl (bad_range ''RANGE_UNIT'')
             else if spec = [] \<or> CHR ''='' \<in> set spec \<or> CHR '' '' \<in> set spec
             then Inl (bad_range ''RANGE_MALFORMED'')
             else if sz \<le> 0
             then Inl (DownloadError DOWNLOAD_STORAGE_UNAVAILABLE ''RANGE_EMPTY_TARGET'')
             else if starts_with ''-'' spec then parse_suffix_range (drop 1 spec) sz
             else if CHR ''-'' \<notin> set spec then Inl (bad_range ''RANGE_MALFORMED'')
             else parse_bounded_range spec sz)"

section \<open>Bounds\<close>

lemma suffix_bounds:
  "parse_suffix_range s sz = Inr (Satisfiable r) \<Longrightarrow> 0 < sz \<Longrightarrow>
     0 \<le> br_start r \<and> br_start r < br_end r \<and> br_end r = sz \<and> br_total r = sz"
  by (auto simp: parse_suffix_range_def andThen_eq_Inr dest: int_of_digits_nonneg split: if_split_asm)

lemma bounded_bounds:
  "parse_bounded_range s sz = Inr (Satisfiable r) \<Longrightarrow>
     0 \<le> br_start r \<and> br_start r < br_end r \<and> br_end r \<le> sz \<and> br_total r = sz"
  by (auto simp: parse_bounded_range_def andThen_eq_Inr dest: int_of_digits_nonneg split: if_split_asm prod.split_asm)

lemma range_within:
  assumes "parse_single_byte_range header sz = Inr (Satisfiable r)"
  shows "0 \<le> br_start r \<and> br_start r < br_end r \<and> br_end r \<le> sz \<and> br_total r = sz \<and>
     0 < br_length r"
proof -
  obtain h where h: "header = Some h" using assms by (cases header) (auto simp: parse_single_byte_range_def)
  let ?spec = "drop 6 (strip h)"
  have "0 < sz \<and> (parse_suffix_range (drop 1 ?spec) sz = Inr (Satisfiable r) \<or>
      parse_bounded_range ?spec sz = Inr (Satisfiable r))"
    using assms by (auto simp: parse_single_byte_range_def h Let_def split: if_split_asm)
  then show ?thesis using suffix_bounds bounded_bounds by (fastforce simp: br_length_def)
qed

text \<open>A parsed range lies inside the artifact: whatever the header, an accepted range is a
  non-empty interval of the artifact's bytes and carries the artifact's size.\<close>

theorem parsed_range_in_bounds:
  assumes "parse_single_byte_range header sz = Inr (Satisfiable r)"
  shows "0 \<le> br_start r \<and> br_start r < br_end r \<and> br_end r \<le> sz \<and> br_total r = sz \<and>
     0 < br_length r"
  using range_within [OF assms] .

section \<open>Round trip with the header a client sends\<close>

definition range_header :: "nat \<Rightarrow> nat option \<Rightarrow> string" where
  "range_header start stop =
     ''bytes='' @ show_nat start @ ''-'' @ (case stop of None \<Rightarrow> [] | Some n \<Rightarrow> show_nat n)"

lemma digit_plain: "digit_ascii c \<Longrightarrow> \<not> is_space c \<and> c \<noteq> CHR ''-'' \<and> c \<noteq> CHR '','' \<and> c \<noteq> CHR ''='' \<and> c \<noteq> CHR '' ''"
  by (auto simp: digit_ascii_def is_space_def)

lemma show_nat_plain:
  "c \<in> set (show_nat n) \<Longrightarrow> \<not> is_space c \<and> c \<noteq> CHR ''-'' \<and> c \<noteq> CHR '','' \<and> c \<noteq> CHR ''='' \<and> c \<noteq> CHR '' ''"
  using show_nat_digits [of n] digit_plain by (auto simp: list_all_iff)

text \<open>What a header of the plain form is parsed to.\<close>

lemma parse_plain_header:
  assumes "set s \<inter> {CHR '','', CHR ''='', CHR '' ''} = {}" and "\<forall>c \<in> set s. \<not> is_space c"
    and "CHR ''-'' \<in> set s" and "s \<noteq> []" and "hd s \<noteq> CHR ''-''" and "length s \<le> 122" and "0 < sz"
  shows "parse_single_byte_range (Some (''bytes='' @ s)) sz = parse_bounded_range s sz"
proof -
  have "\<forall>c \<in> set ''bytes=''. \<not> is_space c" by (simp add: is_space_def)
  then have "strip (''bytes='' @ s) = ''bytes='' @ s"
    using assms(2) by (intro strip_all) (metis Un_iff set_append)
  moreover have "starts_with ''bytes='' (lower (''bytes='' @ s))"
    by (simp add: starts_with_def lower_def lower_char_def)
  moreover have "CHR '','' \<notin> set (''bytes='' @ s)" using assms(1) by auto
  moreover have "\<not> starts_with ''-'' s" using assms(4,5) by (cases s) (auto simp: starts_with_def)
  ultimately show ?thesis
    using assms by (auto simp: parse_single_byte_range_def Let_def)
qed

text \<open>The header \<open>bytes=a-b\<close> or \<open>bytes=a-\<close> a client sends for the bytes from \<open>a\<close> is understood
  exactly: below the size it gives the interval from \<open>a\<close> to \<open>b\<close> inclusive, cut at the end of the
  artifact, from the size on it is unsatisfiable, and an end before the start is refused.\<close>

theorem range_header_understood:
  assumes "0 < sz" and "length (range_header a b) \<le> 128"
  shows "parse_single_byte_range (Some (range_header a b)) sz =
     (if sz \<le> int a then Inr (RangeUnsatisfiable sz)
      else (case b of
         None \<Rightarrow> Inr (Satisfiable \<lparr>br_start = int a, br_end = sz, br_total = sz\<rparr>)
       | Some n \<Rightarrow> if n < a then Inl (bad_range ''RANGE_EMPTY'')
                   else Inr (Satisfiable \<lparr>br_start = int a, br_end = min (int n + 1) sz, br_total = sz\<rparr>)))"
proof -
  let ?e = "case b of None \<Rightarrow> [] | Some n \<Rightarrow> show_nat n"
  let ?s = "show_nat a @ CHR ''-'' # ?e"
  have e: "\<forall>c \<in> set ?e. \<not> is_space c \<and> c \<noteq> CHR '','' \<and> c \<noteq> CHR ''='' \<and> c \<noteq> CHR '' ''"
    using show_nat_plain by (cases b) auto
  have sp: "\<not> is_space (CHR ''-'')" by (simp add: is_space_def)
  have once: "split_once (CHR ''-'') ?s = (show_nat a, ?e)"
    by (rule split_once_append) (use show_nat_plain in blast)
  have "parse_single_byte_range (Some (''bytes='' @ ?s)) sz = parse_bounded_range ?s sz"
  proof (rule parse_plain_header)
    show "set ?s \<inter> {CHR '','', CHR ''='', CHR '' ''} = {}" using e show_nat_plain by auto
    show "\<forall>c \<in> set ?s. \<not> is_space c" using e show_nat_plain sp by (auto simp del: option.case_eq_if)
    show "hd ?s \<noteq> CHR ''-''" using show_nat_nonempty [of a] show_nat_plain [of "hd (show_nat a)" a] by simp
    show "length ?s \<le> 122" using assms(2) by (simp add: range_header_def)
  qed (use assms in simp_all)
  moreover have "parse_bounded_range ?s sz = (if sz \<le> int a then Inr (RangeUnsatisfiable sz)
      else (case b of
         None \<Rightarrow> Inr (Satisfiable \<lparr>br_start = int a, br_end = sz, br_total = sz\<rparr>)
       | Some n \<Rightarrow> if n < a then Inl (bad_range ''RANGE_EMPTY'')
                   else Inr (Satisfiable \<lparr>br_start = int a, br_end = min (int n + 1) sz, br_total = sz\<rparr>)))"
    unfolding parse_bounded_range_def once prod.case
    by (cases b) (simp_all add: isdigit_show_nat int_of_show_nat show_nat_nonempty)
  ultimately show ?thesis by (simp add: range_header_def)
qed

text \<open>A superscript digit crashes the parser: \<open>isdigit\<close> accepts the latin-1 superscripts but
  \<open>int\<close> does not, so the header \<open>bytes=\<close> superscript two \<open>-\<close> raises ValueError instead of the
  catalogued error 400.\<close>

theorem superscript_range_raises:
  "parse_single_byte_range (Some (''bytes='' @ [CHR 0xB2] @ ''-'')) 10 =
     Inl (ValueError ''invalid literal for int() with base 10'')"
proof -
  have "parse_bounded_range ([CHR 0xB2] @ ''-'') 10 = Inl (ValueError ''invalid literal for int() with base 10'')"
    by (simp add: parse_bounded_range_def split_once_def isdigit_def isdigit_char_def int_of_digits_def digit_ascii_def)
  moreover have "parse_single_byte_range (Some (''bytes='' @ [CHR 0xB2] @ ''-'')) 10 =
      parse_bounded_range ([CHR 0xB2] @ ''-'') 10"
    by (rule parse_plain_header) (simp_all add: is_space_def)
  ultimately show ?thesis by simp
qed

lemma sample_header: "range_header 2 (Some 5) = ''bytes=2-5''"
  by (simp add: range_header_def show_nat.simps char_of_eq_iff)

theorem range_header_understood_witness:
  "parse_single_byte_range (Some ''bytes=2-5'') 4 =
     Inr (Satisfiable \<lparr>br_start = 2, br_end = 4, br_total = 4\<rparr>)"
  using range_header_understood [of 4 2 "Some 5"] by (simp add: sample_header)

theorem parsed_range_in_bounds_witness:
  "br_end \<lparr>br_start = 2, br_end = 4, br_total = 4\<rparr> \<le> 4"
proof -
  have "parse_bounded_range ''2-5'' 4 = Inr (Satisfiable \<lparr>br_start = 2, br_end = 4, br_total = 4\<rparr>)"
    by (simp add: parse_bounded_range_def split_once_def isdigit_def isdigit_char_def int_of_digits_def
        digit_ascii_def decimal_value_def digit_value_def)
  moreover have "parse_single_byte_range (Some (''bytes='' @ ''2-5'')) 4 = parse_bounded_range ''2-5'' 4"
    by (rule parse_plain_header) (simp_all add: is_space_def)
  ultimately have "parse_single_byte_range (Some (''bytes='' @ ''2-5'')) 4 =
      Inr (Satisfiable \<lparr>br_start = 2, br_end = 4, br_total = 4\<rparr>)" by simp
  from parsed_range_in_bounds [OF this] show ?thesis by simp
qed

end
