(* ===== verification/Content_Route.thy ===== *)
theory Content_Route
  imports Content_Stream Delivery_Access Range_Parse Filename
begin

text \<open>
  The delivery endpoints (\<open>delivery/routes.py\<close>): a GET or HEAD for the content of a download, with the
  Bearer token of the parent job or with a browser grant and its cookie, from the headers of the
  request to the response and the stream it starts.
\<close>

section \<open>Request parsing\<close>

text \<open>\<open>authorization.split(None, 1)\<close>\<close>

definition split_white_once :: "string \<Rightarrow> string list" where
  "split_white_once s =
     (let s' = lstrip s; rest = lstrip (dropWhile (\<lambda>c. \<not> is_space c) s')
      in if s' = [] then [] else if rest = [] then [takeWhile (\<lambda>c. \<not> is_space c) s']
         else [takeWhile (\<lambda>c. \<not> is_space c) s', rest])"

definition bearer_token :: "string option \<Rightarrow> string option" where
  "bearer_token authorization =
     (case authorization of
        None \<Rightarrow> None
      | Some h \<Rightarrow>
          (case split_white_once h of
             [scheme, rest] \<Rightarrow>
               if lower scheme \<noteq> ''bearer'' then None
               else if strip rest = [] then None else Some (strip rest)
           | _ \<Rightarrow> None))"

definition parse_bearer_or_not_found :: "string option \<Rightarrow> string res" where
  "parse_bearer_or_not_found authorization =
     (case bearer_token authorization of
        None \<Rightarrow> Inl (DownloadError DOWNLOAD_JOB_NOT_FOUND ''NOT_FOUND'')
      | Some token \<Rightarrow>
          (case parse_access_token token of
             Inr _ \<Rightarrow> Inr token
           | Inl (JobError INVALID_ACCESS_TOKEN _) \<Rightarrow> Inl (DownloadError DOWNLOAD_JOB_NOT_FOUND ''NOT_FOUND'')
           | Inl _ \<Rightarrow> Inl (DownloadError INTERNAL_ERROR ''TOKEN_LAYER'')))"

text \<open>\<open>parse_canonical_uuid4\<close>: the shape of \<open>uuid4\<close>, and the value must print as it was written.\<close>

definition canonical_uuid4_shape :: "codepoints \<Rightarrow> bool" where
  "canonical_uuid4_shape s \<longleftrightarrow> uuid_shape s \<and> s ! 14 = 52 \<and> s ! 19 \<in> {56, 57, 97, 98}"

definition parse_canonical_uuid4 :: "pylib \<Rightarrow> string \<Rightarrow> uuid res" where
  "parse_canonical_uuid4 py raw =
     (if \<not> canonical_uuid4_shape (cps raw) then Inl (DownloadError DOWNLOAD_JOB_NOT_FOUND ''GRANT_ID_SHAPE'')
      else (case uuid_of py (JStr raw) of
         None \<Rightarrow> Inl (DownloadError DOWNLOAD_JOB_NOT_FOUND ''GRANT_ID_PARSE'')
       | Some v \<Rightarrow>
           if uuid_str py v \<noteq> raw then Inl (DownloadError DOWNLOAD_JOB_NOT_FOUND ''GRANT_ID_NONCANONICAL'')
           else Inr v))"

section \<open>Headers\<close>

text \<open>A stored text is held as its UTF-8 octets.\<close>

definition stored_text :: "string \<Rightarrow> codepoints" where
  "stored_text s = utf8_points (map of_char s)"

definition content_disposition :: "pylib \<Rightarrow> unidb \<Rightarrow> download_job \<Rightarrow> codepoints res" where
  "content_disposition py u job =
     (let container = lower (strip (case dj_artifact_container job of None \<Rightarrow> [] | Some c \<Rightarrow> c));
          result = andThen (fallback_filename py (dj_id job) container) (\<lambda>fallback.
            andThen (case dj_suggested_filename job of
                       None \<Rightarrow> Inr fallback
                     | Some s \<Rightarrow>
                         if s = [] then Inr fallback
                         else andThen (is_safe_suggested_filename u (stored_text s) container) (\<lambda>safe.
                           if \<not> safe then Inl (DownloadError INTERNAL_ERROR ''SUGGESTED_FILENAME_INVALID'')
                           else Inr (stored_text s)))
              (\<lambda>name. content_disposition_header name fallback))
      in case result of
           Inl (ValueError _) \<Rightarrow> Inl (DownloadError INTERNAL_ERROR ''CONTENT_DISPOSITION_INVALID'')
         | _ \<Rightarrow> result)"

definition security_headers :: "string \<Rightarrow> string \<Rightarrow> (string \<times> string) list" where
  "security_headers content_type disposition =
     [(''Content-Type'', content_type), (''Content-Disposition'', disposition),
      (''X-Content-Type-Options'', ''nosniff''), (''Cache-Control'', ''private, no-store''),
      (''Pragma'', ''no-cache''), (''Referrer-Policy'', ''no-referrer''),
      (''Content-Security-Policy'', ''default-src '' @ [CHR 0x27] @ ''none'' @ [CHR 0x27] @ ''; sandbox'')]"

section \<open>Responses\<close>

text \<open>The opened artifact: its size, type and the reads of its descriptor.\<close>

record OpenArtifact =
  oa_size_bytes :: int
  oa_content_type :: string
  oa_pread :: pread

record stream_plan =
  sp_pread :: pread
  sp_start :: int
  sp_length :: int
  sp_rate :: "int option"
  sp_attempt :: "uuid option"

datatype content_response =
    ErrorJson int DownloadErrorCode
  | RangeNotSatisfiable string
  | NoBody int "(string \<times> string) list"
  | StreamingBody int "(string \<times> string) list" stream_plan

text \<open>What the service and the application state provide to a request.\<close>

record delivery_app =
  app_reader :: "(OpenRequest \<Rightarrow> OpenArtifact res) option"
  app_range_enabled :: bool
  app_accounting :: bool
  app_policy :: EffectiveDownloadPolicy

definition opened :: "delivery_app \<Rightarrow> DeliveryAuthorization \<Rightarrow> OpenArtifact res" where
  "opened app authz =
     andThen (open_artifact (app_reader app \<noteq> None) authz) (\<lambda>rq.
       case app_reader app of None \<Rightarrow> Inl (UncaughtError ''AssertionError'') | Some reader \<Rightarrow> reader rq)"

definition select_range :: "delivery_app \<Rightarrow> string option \<Rightarrow> int \<Rightarrow> range_result res" where
  "select_range app range_h size_bytes =
     (if app_range_enabled app then parse_single_byte_range range_h size_bytes else Inr NoRange)"

definition response_headers ::
  "delivery_app \<Rightarrow> OpenArtifact \<Rightarrow> codepoints \<Rightarrow> int \<Rightarrow> ByteRange option \<Rightarrow> (string \<times> string) list" where
  "response_headers app art disposition len selected =
     security_headers (oa_content_type art) (map char_of disposition) @
     [(''Content-Length'', show_int len),
      (''Accept-Ranges'', if app_range_enabled app then ''bytes'' else ''none'')] @
     (case selected of None \<Rightarrow> [] | Some r \<Rightarrow> [(''Content-Range'', content_range_header r)])"

text \<open>
  The part both handlers share after the permit is acquired: authorization in a session of its own,
  the open descriptor, the range, the headers and, for a GET, the accounting attempt, which
  authorizes again inside its transaction (\<open>now\<close> and \<open>bnow\<close> are the clocks of the two sessions).
\<close>

definition serve_content ::
  "pylib \<Rightarrow> unidb \<Rightarrow> delivery_app \<Rightarrow> (time \<Rightarrow> db \<Rightarrow> DeliveryAuthorization res) \<Rightarrow> string option \<Rightarrow> bool \<Rightarrow>
     uuid \<Rightarrow> (nat \<Rightarrow> uuid) \<Rightarrow> time \<Rightarrow> time \<Rightarrow> db \<Rightarrow> (content_response \<times> db) res" where
  "serve_content py u app auth range_h head_only fresh fresh_rows now bnow d =
     andThen (auth now d) (\<lambda>authz.
     andThen (opened app authz) (\<lambda>art.
     andThen (select_range app range_h (oa_size_bytes art)) (\<lambda>parsed.
       case parsed of
         RangeUnsatisfiable n \<Rightarrow> Inr (RangeNotSatisfiable (unsatisfiable_header n), d)
       | _ \<Rightarrow>
         let selected = (case parsed of Satisfiable r \<Rightarrow> Some r | _ \<Rightarrow> None);
             start = (case selected of None \<Rightarrow> 0 | Some r \<Rightarrow> br_start r);
             len = (case selected of None \<Rightarrow> oa_size_bytes art | Some r \<Rightarrow> br_length r);
             status = (case selected of None \<Rightarrow> 200 | Some _ \<Rightarrow> 206)
         in andThen (content_disposition py u (da_job authz)) (\<lambda>disposition.
            let headers = response_headers app art disposition len selected
            in if head_only then Inr (NoBody status headers, d)
               else
                 andThen (if app_accounting app
                          then begin_attempt fresh fresh_rows (da_job authz) (map_option edp_tier (da_policy authz))
                                 start (start + len) (\<lambda>d'. andThen (auth bnow d') (\<lambda>a. Inr (da_job a))) bnow d
                          else Inr (None, d)) (\<lambda>(attempt, d').
                 Inr (StreamingBody status headers
                        \<lparr>sp_pread = oa_pread art, sp_start = start, sp_length = len,
                         sp_rate = delivery_rate_for (app_policy app) authz,
                         sp_attempt = map_option at_id attempt\<rparr>, d'))))))"

text \<open>The \<open>except\<close> clauses: a catalogued error becomes its JSON envelope, any other a 500.\<close>

definition error_response :: "error \<Rightarrow> content_response" where
  "error_response e =
     (case e of
        DownloadError c _ \<Rightarrow> ErrorJson (http_status_for c) c
      | DownloadErrorHttp c _ h \<Rightarrow> ErrorJson h c
      | _ \<Rightarrow> ErrorJson 500 INTERNAL_ERROR)"

definition responded :: "(content_response \<times> db) res \<Rightarrow> db \<Rightarrow> content_response \<times> db" where
  "responded r d = (case r of Inr x \<Rightarrow> x | Inl e \<Rightarrow> (error_response e, d))"

definition handle_content ::
  "pylib \<Rightarrow> unidb \<Rightarrow> (bytes \<Rightarrow> bytes) \<Rightarrow> DeliverySettings \<Rightarrow> delivery_app \<Rightarrow> uuid \<Rightarrow> string option \<Rightarrow>
     string option \<Rightarrow> bool \<Rightarrow> uuid \<Rightarrow> (nat \<Rightarrow> uuid) \<Rightarrow> time \<Rightarrow> time \<Rightarrow> db \<Rightarrow> content_response \<times> db" where
  "handle_content py u sha s app download_job_id authorization range_h head_only fresh fresh_rows now bnow d =
     responded
       (andThen (parse_bearer_or_not_found authorization) (\<lambda>token.
          serve_content py u app (\<lambda>t. authorize py sha s (app_policy app) t download_job_id token)
            range_h head_only fresh fresh_rows now bnow d)) d"

definition handle_browser_grant_content ::
  "pylib \<Rightarrow> unidb \<Rightarrow> (bytes \<Rightarrow> bytes) \<Rightarrow> DeliverySettings \<Rightarrow> delivery_app \<Rightarrow> string \<Rightarrow> string \<Rightarrow> string option \<Rightarrow>
     string option \<Rightarrow> bool \<Rightarrow> uuid \<Rightarrow> (nat \<Rightarrow> uuid) \<Rightarrow> time \<Rightarrow> time \<Rightarrow> db \<Rightarrow> content_response \<times> db" where
  "handle_browser_grant_content py u sha s app query grant_id_raw cookie range_h head_only fresh fresh_rows now bnow d =
     (if query \<noteq> [] then (error_response (DownloadError DOWNLOAD_JOB_NOT_FOUND ''QUERY''), d)
      else
        responded
          (andThen (parse_canonical_uuid4 py grant_id_raw) (\<lambda>grant_id.
           andThen (extract_delivery_grant_token cookie) (\<lambda>raw_token.
             serve_content py u app (\<lambda>t. authorize_browser_grant py sha s (app_policy app) t grant_id raw_token)
               range_h head_only fresh fresh_rows now bnow d))) d)"

section \<open>HEAD mirrors GET\<close>

lemma responded_Inr: "responded (Inr x) d = x"
  by (simp add: responded_def)

lemma responded_stream:
  "responded r d = (StreamingBody st hs plan, d') \<Longrightarrow> r = Inr (StreamingBody st hs plan, d')"
  by (auto simp: responded_def error_response_def split: sum.splits error.splits)

text \<open>What a started stream stands for.\<close>

lemma serve_contentD:
  assumes "serve_content py u app auth rh False fresh fr now bnow d = Inr (StreamingBody st hs plan, d')"
  obtains authz art selected disposition attempt where
    "auth now d = Inr authz" "opened app authz = Inr art"
    "select_range app rh (oa_size_bytes art) = Inr (case selected of None \<Rightarrow> NoRange | Some r \<Rightarrow> Satisfiable r)"
    "content_disposition py u (da_job authz) = Inr disposition"
    "sp_start plan = (case selected of None \<Rightarrow> 0 | Some r \<Rightarrow> br_start r)"
    "sp_length plan = (case selected of None \<Rightarrow> oa_size_bytes art | Some r \<Rightarrow> br_length r)"
    "st = (case selected of None \<Rightarrow> 200 | Some _ \<Rightarrow> 206)"
    "hs = response_headers app art disposition (sp_length plan) selected" "sp_pread plan = oa_pread art"
    "if app_accounting app
     then begin_attempt fresh fr (da_job authz) (map_option edp_tier (da_policy authz)) (sp_start plan)
            (sp_start plan + sp_length plan) (\<lambda>d'. andThen (auth bnow d') (\<lambda>a. Inr (da_job a))) bnow d = Inr (attempt, d')
     else attempt = None \<and> d' = d"
    "sp_attempt plan = map_option at_id attempt"
proof -
  from assms obtain authz art parsed where a: "auth now d = Inr authz" "opened app authz = Inr art"
    "select_range app rh (oa_size_bytes art) = Inr parsed"
    unfolding serve_content_def by (auto simp: andThen_eq_Inr)
  show thesis
  proof (cases parsed)
    case NoRange
    with assms a that [of authz art None] show ?thesis
      by (auto simp: serve_content_def andThen_eq_Inr Let_def split: if_split_asm)
  next
    case (Satisfiable r)
    with assms a that [of authz art "Some r"] show ?thesis
      by (auto simp: serve_content_def andThen_eq_Inr Let_def split: if_split_asm)
  next
    case (RangeUnsatisfiable n)
    with assms a show ?thesis by (simp add: serve_content_def)
  qed
qed

lemma serve_content_head:
  assumes "serve_content py u app auth rh False fresh fr now bnow d = Inr (StreamingBody st hs plan, d')"
  shows "serve_content py u app auth rh True fresh' fr' now bnow' d = Inr (NoBody st hs, d)"
proof (rule serve_contentD [OF assms])
  fix authz art selected disposition attempt
  assume a: "auth now d = Inr authz" "opened app authz = Inr art"
    "select_range app rh (oa_size_bytes art) = Inr (case selected of None \<Rightarrow> NoRange | Some r \<Rightarrow> Satisfiable r)"
    "content_disposition py u (da_job authz) = Inr disposition"
    "sp_length plan = (case selected of None \<Rightarrow> oa_size_bytes art | Some r \<Rightarrow> br_length r)"
    "st = (case selected of None \<Rightarrow> 200 | Some _ \<Rightarrow> 206)"
    "hs = response_headers app art disposition (sp_length plan) selected"
  then show ?thesis by (cases selected) (simp_all add: serve_content_def Let_def)
qed

text \<open>HEAD mirrors GET: whenever a GET for a download starts a stream, the HEAD with the same
  headers at the same moment answers with the same status and the same headers, and it leaves the
  database as it was.\<close>

theorem head_mirrors_get:
  assumes "handle_content py u sha s app i authorization rh False fresh fr now bnow d = (StreamingBody st hs plan, d')"
  shows "handle_content py u sha s app i authorization rh True fresh' fr' now bnow' d = (NoBody st hs, d)"
proof -
  from assms have "andThen (parse_bearer_or_not_found authorization) (\<lambda>token.
      serve_content py u app (\<lambda>t. authorize py sha s (app_policy app) t i token) rh False fresh fr now bnow d) =
      Inr (StreamingBody st hs plan, d')"
    unfolding handle_content_def by (rule responded_stream)
  then obtain token where "parse_bearer_or_not_found authorization = Inr token"
    "serve_content py u app (\<lambda>t. authorize py sha s (app_policy app) t i token) rh False fresh fr now bnow d =
      Inr (StreamingBody st hs plan, d')" by (auto simp: andThen_eq_Inr)
  then show ?thesis
    using serve_content_head by (simp add: handle_content_def responded_Inr)
qed

section \<open>The stream is the requested part of the artifact\<close>

text \<open>What the reader promises: an artifact of the size it was asked for.\<close>

definition reader_law :: "delivery_app \<Rightarrow> bool" where
  "reader_law app \<longleftrightarrow>
     (\<forall>reader rq art. app_reader app = Some reader \<and> reader rq = Inr art \<longrightarrow> oa_size_bytes art = or_expected_bytes rq)"

lemma opened_size:
  assumes "reader_law app" and "opened app authz = Inr art"
  shows "dj_artifact_bytes (da_job authz) = Some (oa_size_bytes art)"
  using assms
  by (auto simp: opened_def open_artifact_def reader_law_def andThen_eq_Inr Let_def split: option.splits if_split_asm)

lemma authorize_ready:
  assumes "authorize py sha s own now i token d = Inr authz"
  shows "dj_get_by_id i d = Some (da_job authz) \<and> dj_public_state (da_job authz) = DJ_READY \<and>
    assert_ready_pointer (da_job authz) = Inr ()"
proof -
  obtain job where job: "dj_get_by_id i d = Some job"
    using assms by (cases "dj_get_by_id i d") (auto simp: authorize_def andThen_eq_Inr split: if_split_asm)
  obtain parent where parent: "mj_get_by_id (dj_media_job_id job) d = Some parent"
    using assms by (cases "mj_get_by_id (dj_media_job_id job) d") (auto simp: authorize_def andThen_eq_Inr job split: if_split_asm)
  from assms show ?thesis
    by (auto simp: authorize_def andThen_eq_Inr job parent split: if_split_asm)
qed

lemma plan_bounds:
  assumes "select_range app rh n = Inr (case selected of None \<Rightarrow> NoRange | Some r \<Rightarrow> Satisfiable r)" and "0 < n"
  shows "0 \<le> (case selected of None \<Rightarrow> 0 | Some r \<Rightarrow> br_start r) \<and>
    0 < (case selected of None \<Rightarrow> n | Some r \<Rightarrow> br_length r) \<and>
    (case selected of None \<Rightarrow> 0 | Some r \<Rightarrow> br_start r) + (case selected of None \<Rightarrow> n | Some r \<Rightarrow> br_length r) \<le> n"
proof (cases selected)
  case (Some r)
  with assms(1) have "parse_single_byte_range rh n = Inr (Satisfiable r)"
    by (simp add: select_range_def split: if_split_asm)
  from range_within [OF this] Some show ?thesis by (simp add: br_length_def)
qed (use assms in simp)

lemma begun_attempt:
  assumes "begin_attempt fresh fr snap tier start stop reval now d = Inr (Some att, d')"
  shows "at_id att = fresh \<and> (\<exists>r. row_by dr_id fresh (ranges d') = Some r \<and> dr_state r = R_ACTIVE \<and>
    dr_request_start r = start \<and> dr_request_end_exclusive r = stop)"
proof -
  have att: "at_id att = fresh"
    using assms by (auto simp: begin_attempt_def Let_def andThen_eq_Inr split: if_split_asm option.splits)
  from begin_attemptD [OF assms] obtain job entry d2 d3 where ins: "dr_insert (new_attempt fresh entry job start stop now) d2 = Inr d3"
    and fl: "qe_flush (entry\<lparr>qe_reservation_expires_at :=
       max (qe_reservation_expires_at entry) (now + seconds DELIVERY_ATTEMPT_LEASE_SECONDS)\<rparr>) d3 = Inr d'"
    by blast
  have "ranges d' = ranges d2 @ [new_attempt fresh entry job start stop now]"
    and "fresh \<notin> dr_id ` set (ranges d2)"
    using ins fl by (auto simp: dr_insert_def qe_flush_Inr new_attempt_def split: if_split_asm)
  then have "row_by dr_id fresh (ranges d') = Some (new_attempt fresh entry job start stop now)"
    using row_by_None_iff [of dr_id fresh "ranges d2"]
    by (simp add: row_by_append row_by_Cons) (simp add: new_attempt_def)
  then show ?thesis using att by (simp add: new_attempt_def)
qed

lemma content_headers:
  assumes "select_range app rh n = Inr (case selected of None \<Rightarrow> NoRange | Some r \<Rightarrow> Satisfiable r)"
  shows "map_of (response_headers app art disp len selected) ''Content-Length'' = Some (show_int len)"
    and "selected = Some r \<Longrightarrow> map_of (response_headers app art disp len selected) ''Content-Range'' =
      Some (content_range_header \<lparr>br_start = br_start r, br_end = br_start r + br_length r, br_total = n\<rparr>)"
proof -
  show "map_of (response_headers app art disp len selected) ''Content-Length'' = Some (show_int len)"
    by (simp add: response_headers_def security_headers_def)
  assume r: "selected = Some r"
  with assms have "parse_single_byte_range rh n = Inr (Satisfiable r)"
    by (simp add: select_range_def split: if_split_asm)
  from range_within [OF this] have "\<lparr>br_start = br_start r, br_end = br_start r + br_length r, br_total = n\<rparr> = r"
    by (cases r) (simp add: br_length_def)
  with r show "map_of (response_headers app art disp len selected) ''Content-Range'' =
      Some (content_range_header \<lparr>br_start = br_start r, br_end = br_start r + br_length r, br_total = n\<rparr>)"
    by (simp add: response_headers_def security_headers_def)
qed

text \<open>C23. A started response is what it says: its job is the requested, ready one; the announced length
  is the length of the part that is streamed, which lies inside the artifact and is all of it when
  the status is 200; the accounting attempt was opened for exactly that part; and from an intact
  file exactly the bytes of that part are sent.\<close>

theorem stream_is_requested_part:
  assumes "handle_content py u sha s app i authorization rh False fresh fr now bnow d = (StreamingBody st hs plan, d')"
    and "reader_law app" and "1 \<le> chunk_bytes"
  shows "\<exists>job size_bytes. dj_get_by_id i d = Some job \<and> dj_public_state job = DJ_READY \<and> dj_artifact_bytes job = Some size_bytes \<and>
    0 \<le> sp_start plan \<and> 0 < sp_length plan \<and> sp_start plan + sp_length plan \<le> size_bytes \<and>
    map_of hs ''Content-Length'' = Some (show_int (sp_length plan)) \<and>
    (st = 200 \<longrightarrow> sp_start plan = 0 \<and> sp_length plan = size_bytes) \<and>
    (st \<noteq> 200 \<longrightarrow> map_of hs ''Content-Range'' = Some (content_range_header
       \<lparr>br_start = sp_start plan, br_end = sp_start plan + sp_length plan, br_total = size_bytes\<rparr>)) \<and>
    (\<forall>k. sp_attempt plan = Some k \<longrightarrow> (\<exists>r. row_by dr_id k (ranges d') = Some r \<and> dr_state r = R_ACTIVE \<and>
       dr_request_start r = sp_start plan \<and> dr_request_end_exclusive r = sp_start plan + sp_length plan)) \<and>
    (\<forall>content chunks err. pread_law content (sp_pread plan) \<and> int (length content) = size_bytes \<and>
       read_range (sp_pread plan) chunk_bytes (sp_start plan) (sp_length plan) = (chunks, err) \<longrightarrow>
       err = None \<and> concat chunks = take (nat (sp_length plan)) (drop (nat (sp_start plan)) content))"
proof -
  from assms(1) have "andThen (parse_bearer_or_not_found authorization) (\<lambda>token.
      serve_content py u app (\<lambda>t. authorize py sha s (app_policy app) t i token) rh False fresh fr now bnow d) =
      Inr (StreamingBody st hs plan, d')"
    unfolding handle_content_def by (rule responded_stream)
  then obtain token where sc: "serve_content py u app (\<lambda>t. authorize py sha s (app_policy app) t i token) rh False fresh fr now bnow d =
      Inr (StreamingBody st hs plan, d')" by (auto simp: andThen_eq_Inr)
  obtain authz art selected disposition attempt where a: "authorize py sha s (app_policy app) now i token d = Inr authz"
    "opened app authz = Inr art"
    "select_range app rh (oa_size_bytes art) = Inr (case selected of None \<Rightarrow> NoRange | Some r \<Rightarrow> Satisfiable r)"
    "sp_start plan = (case selected of None \<Rightarrow> 0 | Some r \<Rightarrow> br_start r)"
    "sp_length plan = (case selected of None \<Rightarrow> oa_size_bytes art | Some r \<Rightarrow> br_length r)"
    "st = (case selected of None \<Rightarrow> 200 | Some _ \<Rightarrow> 206)"
    "hs = response_headers app art disposition (sp_length plan) selected"
    "if app_accounting app
     then begin_attempt fresh fr (da_job authz) (map_option edp_tier (da_policy authz)) (sp_start plan)
            (sp_start plan + sp_length plan)
            (\<lambda>d'. andThen (authorize py sha s (app_policy app) bnow i token d') (\<lambda>a. Inr (da_job a))) bnow d = Inr (attempt, d')
     else attempt = None \<and> d' = d"
    "sp_attempt plan = map_option at_id attempt"
    by (rule serve_contentD [OF sc])
  note ready = authorize_ready [OF a(1)]
  have size: "dj_artifact_bytes (da_job authz) = Some (oa_size_bytes art)" by (rule opened_size [OF assms(2) a(2)])
  then have "0 < oa_size_bytes art" using ready by (auto simp: assert_ready_pointer_def artifact_size_def split: if_split_asm)
  from plan_bounds [OF a(3) this] have b: "0 \<le> sp_start plan" "0 < sp_length plan"
    "sp_start plan + sp_length plan \<le> oa_size_bytes art" using a(4,5) by simp_all
  have att: "\<exists>r. row_by dr_id k (ranges d') = Some r \<and> dr_state r = R_ACTIVE \<and>
       dr_request_start r = sp_start plan \<and> dr_request_end_exclusive r = sp_start plan + sp_length plan"
    if "sp_attempt plan = Some k" for k
    using that a(8,9) begun_attempt by (cases attempt) (auto split: if_split_asm)
  have read: "err = None \<and> concat chunks = take (nat (sp_length plan)) (drop (nat (sp_start plan)) content)"
    if "pread_law content (sp_pread plan)" "int (length content) = oa_size_bytes art"
      "read_range (sp_pread plan) chunk_bytes (sp_start plan) (sp_length plan) = (chunks, err)" for content chunks err
    using read_range_spec [OF that(1) assms(3) b(1) that(3)] b(3) that(2) by simp
  have len: "map_of hs ''Content-Length'' = Some (show_int (sp_length plan))"
    unfolding a(7) by (rule content_headers(1) [OF a(3)])
  have rng: "st \<noteq> 200 \<longrightarrow> map_of hs ''Content-Range'' = Some (content_range_header
       \<lparr>br_start = sp_start plan, br_end = sp_start plan + sp_length plan, br_total = oa_size_bytes art\<rparr>)"
    using a(4,5,6) content_headers(2) [OF a(3)] unfolding a(7) by (cases selected) simp_all
  have whole: "st = 200 \<longrightarrow> sp_start plan = 0 \<and> sp_length plan = oa_size_bytes art"
    using a(4,5,6) by (cases selected) simp_all
  show ?thesis
    by (rule exI [of _ "da_job authz"], rule exI [of _ "oa_size_bytes art"])
      (use ready size b len rng whole att read in blast)
qed

section \<open>A stranger learns nothing\<close>

lemma authorize_stranger:
  assumes "\<forall>j p h. dj_get_by_id i d = Some j \<and> mj_get_by_id (dj_media_job_id j) d = Some p \<and> bearer_hash sha token = Inr h
    \<longrightarrow> \<not> tokens_match (mj_credential_hash p) h"
  shows "(\<exists>e. authorize py sha s own t i token d = Inl e \<and>
    authorize py sha s own t i token (d\<lparr>download_jobs := del_rows (\<lambda>j. dj_id j = i) (download_jobs d)\<rparr>) = Inl e) \<or>
   (\<exists>r r'. authorize py sha s own t i token d = Inl (DownloadError DOWNLOAD_JOB_NOT_FOUND r) \<and>
    authorize py sha s own t i token (d\<lparr>download_jobs := del_rows (\<lambda>j. dj_id j = i) (download_jobs d)\<rparr>) =
      Inl (DownloadError DOWNLOAD_JOB_NOT_FOUND r'))"
proof (cases "bearer_hash sha token")
  case (Inl e)
  then show ?thesis by (simp add: authorize_def)
next
  case (Inr h)
  let ?d = "d\<lparr>download_jobs := del_rows (\<lambda>j. dj_id j = i) (download_jobs d)\<rparr>"
  have none: "dj_get_by_id i ?d = None" by (auto simp: dj_get_by_id_def row_by_None_iff)
  show ?thesis
  proof (cases "ds_media_delivery_enabled s")
    case False
    with Inr show ?thesis by (simp add: authorize_def)
  next
    case True
    have gone: "authorize py sha s own t i token ?d = Inl (DownloadError DOWNLOAD_JOB_NOT_FOUND ''MISSING'')"
      using Inr True by (simp add: authorize_def none)
    have "\<exists>r. authorize py sha s own t i token d = Inl (DownloadError DOWNLOAD_JOB_NOT_FOUND r)"
    proof (cases "dj_get_by_id i d")
      case None
      with Inr True show ?thesis by (simp add: authorize_def)
    next
      case (Some j)
      then show ?thesis using Inr True assms
        by (cases "mj_get_by_id (dj_media_job_id j) d") (simp_all add: authorize_def)
    qed
    with gone show ?thesis by blast
  qed
qed

lemma serve_refused: "auth now d = Inl e \<Longrightarrow> serve_content py u app auth rh ho fresh fr now bnow d = Inl e"
  by (simp add: serve_content_def)

text \<open>C24. Without the token of its parent a download cannot be probed: a request whose Bearer token
  is not the parent job's changes nothing, and it is answered exactly as it would be if no such
  download existed.\<close>

theorem stranger_cannot_probe:
  assumes "\<forall>j p token h. dj_get_by_id i d = Some j \<and> mj_get_by_id (dj_media_job_id j) d = Some p \<and>
      bearer_token authorization = Some token \<and> bearer_hash sha token = Inr h \<longrightarrow>
      \<not> tokens_match (mj_credential_hash p) h"
  shows "handle_content py u sha s app i authorization rh head_only fresh fr now bnow d =
    (fst (handle_content py u sha s app i authorization rh head_only fresh fr now bnow
       (d\<lparr>download_jobs := del_rows (\<lambda>j. dj_id j = i) (download_jobs d)\<rparr>)), d)"
proof (cases "parse_bearer_or_not_found authorization")
  case (Inl e)
  then show ?thesis by (simp add: handle_content_def responded_def)
next
  case (Inr token)
  then have "bearer_token authorization = Some token"
    by (auto simp: parse_bearer_or_not_found_def split: option.splits sum.splits error.splits JobErrorCode.splits)
  with assms have "\<forall>j p h. dj_get_by_id i d = Some j \<and> mj_get_by_id (dj_media_job_id j) d = Some p \<and>
      bearer_hash sha token = Inr h \<longrightarrow> \<not> tokens_match (mj_credential_hash p) h" by blast
  then consider (same) e where "authorize py sha s (app_policy app) now i token d = Inl e"
      "authorize py sha s (app_policy app) now i token (d\<lparr>download_jobs := del_rows (\<lambda>j. dj_id j = i) (download_jobs d)\<rparr>) = Inl e"
    | (gone) r r' where "authorize py sha s (app_policy app) now i token d = Inl (DownloadError DOWNLOAD_JOB_NOT_FOUND r)"
      "authorize py sha s (app_policy app) now i token (d\<lparr>download_jobs := del_rows (\<lambda>j. dj_id j = i) (download_jobs d)\<rparr>) =
         Inl (DownloadError DOWNLOAD_JOB_NOT_FOUND r')"
    using authorize_stranger by blast
  then show ?thesis
    using Inr by cases (simp_all add: handle_content_def responded_def serve_refused error_response_def)
qed

section \<open>Samples\<close>

definition sample_app :: delivery_app where
  "sample_app = \<lparr>app_reader = Some (\<lambda>rq. Inr \<lparr>oa_size_bytes = or_expected_bytes rq,
       oa_content_type = or_expected_content_type rq,
       oa_pread = (\<lambda>off n. take (nat n) (drop (nat off) (replicate 100 7)))\<rparr>),
     app_range_enabled = True, app_accounting = True, app_policy = free_policy sample_settings\<rparr>"

lemma bearer_plain: "t \<noteq> [] \<Longrightarrow> \<forall>c \<in> set t. \<not> is_space c \<Longrightarrow> bearer_token (Some (''Bearer '' @ t)) = Some t"
  by (cases t) (auto simp: bearer_token_def split_white_once_def lstrip_def is_space_def lower_def lower_char_def strip_all char_of_eq_iff)

lemma sample_bearer: "parse_bearer_or_not_found (Some (''Bearer '' @ b64_encode sample_secret)) = Inr (b64_encode sample_secret)"
proof -
  have "list_all (\<lambda>c. \<not> is_space c) (b64_encode sample_secret)" by code_simp
  moreover have "b64_encode sample_secret \<noteq> []" by code_simp
  moreover have "token_bytes sample_secret"
    by (simp add: token_bytes_def octets_def sample_secret_def list_all_iff)
  ultimately show ?thesis
    using bearer_plain [of "b64_encode sample_secret"] parse_access_iff [of "b64_encode sample_secret" sample_secret]
    by (simp add: parse_bearer_or_not_found_def list_all_iff)
qed

lemma sample_disposition:
  "case content_disposition sample_uuid_pylib sample_unidb sample_served_job of Inr _ \<Rightarrow> True | Inl _ \<Rightarrow> False"
  by code_simp

lemma sample_authorize:
  "authorize sample_uuid_pylib sample_sha sample_ds own 20 3 (b64_encode sample_secret) (sample_access_db []) =
     Inr \<lparr>da_job = sample_served_job, da_now = 20, da_policy = Some own\<rparr>"
proof -
  have rows: "dj_get_by_id 3 (sample_access_db []) = Some sample_served_job"
    "mj_get_by_id 1 (sample_access_db []) = Some sample_media_job"
    by (simp_all add: dj_get_by_id_def mj_get_by_id_def row_by_def sample_access_defs)
  have fields: "dj_media_job_id sample_served_job = 1" "mj_credential_hash sample_media_job = replicate 32 7"
    "dj_public_state sample_served_job = DJ_READY" "assert_ready_pointer sample_served_job = Inr ()"
    "\<not> ttl_elapsed sample_media_job sample_served_job 20"
    by (simp_all add: artifact_size_pointer pointer_complete_def artifact_size_def ttl_elapsed_def sample_access_defs)
  have pol: "policy_for_job sample_uuid_pylib own sample_served_job = Inr own"
    by (simp add: policy_for_job_def decode_effective_policy_snapshot_def jget_def sample_access_defs)
  have on: "ds_media_delivery_enabled sample_ds" by (simp add: sample_ds_def)
  show ?thesis
    by (simp add: authorize_def sample_hashes rows fields on pol sample_secret_tokens_match del: One_nat_def)
qed

lemma sample_get:
  "\<exists>hs plan. handle_content sample_uuid_pylib sample_unidb sample_sha sample_ds sample_app 3
     (Some (''Bearer '' @ b64_encode sample_secret)) (Some ''bytes=2-5'') False 50 (\<lambda>n. 70 + n) 20 20 (sample_access_db []) =
     (StreamingBody 206 hs plan, sample_access_db []) \<and> sp_start plan = 2 \<and> sp_length plan = 4"
proof -
  obtain disp where disp: "content_disposition sample_uuid_pylib sample_unidb sample_served_job = Inr disp"
    using sample_disposition by (auto split: sum.splits)
  have h: "range_header 2 (Some 5) = ''bytes=2-5''" by (rule sample_header)
  have rng: "parse_single_byte_range (Some ''bytes=2-5'') 100 =
      Inr (Satisfiable \<lparr>br_start = 2, br_end = 6, br_total = 100\<rparr>)"
    using range_header_understood [of 100 2 "Some 5"] by (simp add: h)
  have fields: "dj_artifact_bytes sample_served_job = Some 100" "dj_artifact_id sample_served_job = Some 8"
    "dj_artifact_container sample_served_job = Some ''mp4''" "dj_artifact_content_type sample_served_job = Some ''video/mp4''"
    "\<not> dj_expires_at sample_served_job \<le> 20"
    by (simp_all add: sample_access_defs)
  have none: "identity_id_for_download (dj_id sample_served_job) (sample_access_db []) = None"
    by (simp add: identity_id_for_download_def lock_entry_for_download_def row_by_def sample_access_defs)
  have bg: "begin_attempt f fr sample_served_job (Some ''free'') 2 6 rv t (sample_access_db []) = Inr (None, sample_access_db [])"
    for f fr rv t
    by (simp add: begin_attempt_def none fields)
  show ?thesis
    unfolding handle_content_def sample_bearer
    by (simp add: serve_content_def sample_authorize opened_def open_artifact_def
        sample_app_def fields select_range_def rng disp br_length_def responded_def Let_def free_policy_def bg)
qed

theorem head_mirrors_get_witness:
  "\<exists>hs. handle_content sample_uuid_pylib sample_unidb sample_sha sample_ds sample_app 3
     (Some (''Bearer '' @ b64_encode sample_secret)) (Some ''bytes=2-5'') True 50 (\<lambda>n. 70 + n) 20 20 (sample_access_db []) =
     (NoBody 206 hs, sample_access_db [])"
proof -
  obtain hs plan where "handle_content sample_uuid_pylib sample_unidb sample_sha sample_ds sample_app 3
     (Some (''Bearer '' @ b64_encode sample_secret)) (Some ''bytes=2-5'') False 50 (\<lambda>n. 70 + n) 20 20 (sample_access_db []) =
     (StreamingBody 206 hs plan, sample_access_db [])" using sample_get by blast
  from head_mirrors_get [OF this] show ?thesis by blast
qed

theorem stream_is_requested_part_witness:
  "\<exists>hs plan. handle_content sample_uuid_pylib sample_unidb sample_sha sample_ds sample_app 3
     (Some (''Bearer '' @ b64_encode sample_secret)) (Some ''bytes=2-5'') False 50 (\<lambda>n. 70 + n) 20 20 (sample_access_db []) =
     (StreamingBody 206 hs plan, sample_access_db []) \<and> map_of hs ''Content-Length'' = Some (show_int 4)"
proof -
  obtain hs plan where g: "handle_content sample_uuid_pylib sample_unidb sample_sha sample_ds sample_app 3
     (Some (''Bearer '' @ b64_encode sample_secret)) (Some ''bytes=2-5'') False 50 (\<lambda>n. 70 + n) 20 20 (sample_access_db []) =
     (StreamingBody 206 hs plan, sample_access_db [])" "sp_length plan = 4" using sample_get by blast
  have "reader_law sample_app" by (simp add: reader_law_def sample_app_def)
  from stream_is_requested_part [OF g(1) this, of 1] g show ?thesis by auto
qed

theorem stranger_cannot_probe_witness:
  "snd (handle_content sample_uuid_pylib sample_unidb (\<lambda>_. replicate 32 0) sample_ds sample_app 3
     (Some (''Bearer '' @ b64_encode sample_secret)) None False 50 (\<lambda>n. 70 + n) 20 20 (sample_access_db [])) =
   sample_access_db []"
proof -
  have "\<not> tokens_match (replicate 32 7) (replicate 32 0)" by (simp add: tokens_match_def)
  moreover have "mj_credential_hash p = replicate 32 7" if "mj_get_by_id k (sample_access_db []) = Some p" for p k
    using that by (auto simp: mj_get_by_id_def row_by_def sample_access_defs split: if_split_asm)
  moreover have "h = replicate 32 0" if "bearer_hash (\<lambda>_. replicate 32 0) token = Inr h" for token h
    using that by (auto simp: bearer_hash_def hash_access_token_def andThen_eq_Inr Let_def split: sum.splits error.splits JobErrorCode.splits)
  ultimately have "\<forall>j p token h. dj_get_by_id 3 (sample_access_db []) = Some j \<and>
      mj_get_by_id (dj_media_job_id j) (sample_access_db []) = Some p \<and>
      bearer_token (Some (''Bearer '' @ b64_encode sample_secret)) = Some token \<and>
      bearer_hash (\<lambda>_. replicate 32 0) token = Inr h \<longrightarrow> \<not> tokens_match (mj_credential_hash p) h" by metis
  from stranger_cannot_probe [OF this, of sample_uuid_pylib sample_unidb sample_ds sample_app None False 50 "\<lambda>n. 70 + n" 20 20]
  show ?thesis by simp
qed

end
