(* ===== verification/Metadata_Codec.thy ===== *)
theory Metadata_Codec
  imports Media_Projection Content_Route
begin

text \<open>
  The JSON form in which the metadata of an inspected page is stored (\<open>jobs/metadata_codec.py\<close>).
  Reading it back trusts the types of numbers only as far as \<open>MediaFormat\<close> and \<open>MediaMetadata\<close>
  check them: a loaded format holds its numbers as the JSON values they are.
\<close>

section \<open>Coercions of Python\<close>

text \<open>\<open>str\<close> of a loaded value; \<open>rp\<close> is the spelling of floats and containers.\<close>

fun py_str :: "(json \<Rightarrow> string) \<Rightarrow> json \<Rightarrow> string" where
  "py_str rp JNull = ''None''"
| "py_str rp (JBool b) = (if b then ''True'' else ''False'')"
| "py_str rp (JInt n) = show_int n"
| "py_str rp (JStr s) = s"
| "py_str rp v = rp v"

fun py_bool :: "json \<Rightarrow> bool" where
  "py_bool JNull = False"
| "py_bool (JBool b) = b"
| "py_bool (JInt n) = (n \<noteq> 0)"
| "py_bool (JFloat x) = (x \<noteq> 0)"
| "py_bool (JStr s) = (s \<noteq> [])"
| "py_bool (JArr xs) = (xs \<noteq> [])"
| "py_bool (JObj kvs) = (kvs \<noteq> [])"

text \<open>\<open>d[k]\<close>: the KeyError of a missing key is caught with the ValueErrors.\<close>

definition jreq :: "string \<Rightarrow> (string \<times> json) list \<Rightarrow> json res" where
  "jreq k obj = (case map_of obj k of None \<Rightarrow> Inl (ValueError ''KeyError'') | Some v \<Rightarrow> Inr v)"

text \<open>\<open>require_finite_non_negative\<close>; comparing with a maximum converts to float first.\<close>

definition check_number :: "int option \<Rightarrow> json \<Rightarrow> unit res" where
  "check_number maximum v =
     (case v of
        JNull \<Rightarrow> Inr ()
      | JInt n \<Rightarrow>
          if n < 0 then Inl (ValueError ''number'')
          else (case maximum of
                  None \<Rightarrow> Inr ()
                | Some m \<Rightarrow> if n \<ge> 2 ^ 1024 - 2 ^ 970 then Inl (UncaughtError ''OverflowError'')
                            else guard_res (n \<le> m) (ValueError ''number''))
      | JFloat x \<Rightarrow>
          if x < 0 then Inl (ValueError ''number'')
          else (case maximum of None \<Rightarrow> Inr () | Some m \<Rightarrow> guard_res (x \<le> of_int m) (ValueError ''number''))
      | _ \<Rightarrow> Inl (ValueError ''number''))"

definition enum_member :: "('e \<Rightarrow> string) \<Rightarrow> 'e list \<Rightarrow> string \<Rightarrow> 'e res" where
  "enum_member val members raw =
     (case enum_of val members raw of None \<Rightarrow> Inl (ValueError ''Enum'') | Some e \<Rightarrow> Inr e)"

section \<open>Keys\<close>

definition METADATA_TOP_LEVEL_KEYS :: "string list" where
  "METADATA_TOP_LEVEL_KEYS = [''providerId'', ''canonicalProviderUrl'', ''mediaId'', ''title'',
     ''durationSeconds'', ''formats'', ''extractionTool'', ''extractionToolVersion'', ''muxingRequired'']"

definition METADATA_FORMAT_KEYS :: "string list" where
  "METADATA_FORMAT_KEYS = [''formatOptionId'', ''container'', ''width'', ''height'', ''fps'', ''hasVideo'',
     ''hasAudio'', ''category'', ''videoCodec'', ''audioCodec'', ''approxBytes'', ''qualityLabel'',
     ''freeTierEligible'', ''mediaKind'', ''requiresPremium'', ''bitrateKbps'']"

definition METADATA_FORBIDDEN_KEYS :: "string list" where
  "METADATA_FORBIDDEN_KEYS = [''url'', ''urls'', ''directUrl'', ''directUrls'', ''signedUrl'',
     ''downloadUrl'', ''streamUrl'', ''manifestUrl'', ''cookie'', ''cookies'', ''authorization'',
     ''token'', ''accessToken'', ''password'', ''secret'', ''stderr'', ''stdout'', ''raw'', ''path'',
     ''filepath'', ''tempPath'', ''query'', ''fragment'', ''headers'', ''argv'', ''command'']"

abbreviation bad_metadata :: "string \<Rightarrow> error" where
  "bad_metadata reason \<equiv> JobError JOB_INTERNAL_ERROR reason"

definition reject_forbidden :: "string list \<Rightarrow> (string \<times> json) list \<Rightarrow> unit res" where
  "reject_forbidden allow obj =
     fold_res (\<lambda>key _.
       if key \<in> set METADATA_FORBIDDEN_KEYS \<or> lower (strip key) \<in> set (map lower METADATA_FORBIDDEN_KEYS)
       then Inl (bad_metadata ''METADATA_FORBIDDEN_KEY'')
       else if key \<notin> set allow then Inl (bad_metadata ''METADATA_UNKNOWN_KEY'')
       else Inr ()) (map fst obj) ()"

text \<open>\<open>except (KeyError, TypeError, ValueError)\<close>\<close>

fun caught_value :: "string \<Rightarrow> 'a res \<Rightarrow> 'a res" where
  "caught_value reason (Inl (ValueError _)) = Inl (bad_metadata reason)"
| "caught_value reason r = r"

section \<open>Writing\<close>

text \<open>A text is stored as its UTF-8 octets.\<close>

definition text_octets :: "codepoints \<Rightarrow> string" where
  "text_octets t = map char_of (utf8_encode t)"

definition format_json :: "MediaFormat \<Rightarrow> json" where
  "format_json f = JObj (snapshot_payload f)"

definition metadata_payload :: "MediaMetadata \<Rightarrow> (string \<times> json) list" where
  "metadata_payload m =
     [(''providerId'', JStr (mm_provider_id m)),
      (''canonicalProviderUrl'', JStr (mm_canonical_provider_url m)),
      (''mediaId'', JStr (mm_media_id m)),
      (''title'', (case mm_title m of None \<Rightarrow> JNull | Some t \<Rightarrow> JStr (text_octets t))),
      (''durationSeconds'', opt_int_json (mm_duration_seconds m)),
      (''formats'', JArr (map format_json (mm_formats m))),
      (''extractionTool'', JStr (mm_extraction_tool m)),
      (''extractionToolVersion'', (case mm_extraction_tool_version m of None \<Rightarrow> JNull | Some v \<Rightarrow> JStr v)),
      (''muxingRequired'', JBool (mm_muxing_required m))]"

definition media_metadata_to_jsonable :: "pylib \<Rightarrow> int \<Rightarrow> MediaMetadata \<Rightarrow> (string \<times> json) list res" where
  "media_metadata_to_jsonable py max_bytes m =
     (let payload = metadata_payload m
      in if json_size py (JObj payload) > max_bytes then Inl (bad_metadata ''METADATA_TOO_LARGE'')
         else Inr payload)"

section \<open>Reading\<close>

record LoadedFormat =
  lf_format_option_id :: string
  lf_container :: string
  lf_width :: json
  lf_height :: json
  lf_fps :: json
  lf_has_video :: bool
  lf_has_audio :: bool
  lf_category :: FormatCategory
  lf_video_codec :: CodecFamily
  lf_audio_codec :: CodecFamily
  lf_approx_bytes :: json
  lf_quality_label :: string
  lf_free_tier_eligible :: bool
  lf_media_kind :: MediaKind
  lf_requires_premium :: bool
  lf_bitrate_kbps :: json

text \<open>\<open>MediaFormat.__post_init__\<close> on the loaded values, in the order of its checks.\<close>

definition check_kind :: "LoadedFormat \<Rightarrow> bool" where
  "check_kind f \<longleftrightarrow>
     (lf_media_kind f = NORMAL_VIDEO \<longrightarrow> lf_has_video f \<and> lf_has_audio f) \<and>
     (lf_media_kind f = KIND_VIDEO_ONLY \<longrightarrow> lf_has_video f \<and> \<not> lf_has_audio f) \<and>
     (lf_media_kind f = KIND_AUDIO_ONLY \<longrightarrow> lf_has_audio f \<and> \<not> lf_has_video f) \<and>
     lf_category f = expected_category (lf_media_kind f) \<and>
     (lf_requires_premium f \<longleftrightarrow> lf_media_kind f \<noteq> NORMAL_VIDEO) \<and>
     \<not> (lf_has_video f \<and> lf_width f = JNull \<and> lf_height f = JNull) \<and>
     (lf_has_video f \<or> lf_has_audio f)"

definition new_loaded_format :: "LoadedFormat \<Rightarrow> LoadedFormat res" where
  "new_loaded_format f =
     andThen (guard_res (safe_token (lf_format_option_id f) \<and> safe_token (lf_container f) \<and>
                safe_token (lf_quality_label f)) (ValueError ''token'')) (\<lambda>_.
     andThen (check_number None (lf_width f)) (\<lambda>_.
     andThen (check_number None (lf_height f)) (\<lambda>_.
     andThen (check_number (Some 240) (lf_fps f)) (\<lambda>_.
     andThen (check_number None (lf_approx_bytes f)) (\<lambda>_.
     andThen (check_number (Some 100000) (lf_bitrate_kbps f)) (\<lambda>_.
     andThen (guard_res (check_kind f) (ValueError ''MediaFormat'')) (\<lambda>_. Inr f)))))))"

definition load_format_fields :: "(json \<Rightarrow> string) \<Rightarrow> (string \<times> json) list \<Rightarrow> LoadedFormat res" where
  "load_format_fields rp item =
     andThen (jreq ''category'' item) (\<lambda>cat.
     andThen (enum_member FormatCategory_value categories (py_str rp cat)) (\<lambda>category.
     andThen (enum_member MediaKind_value kinds
               (py_str rp (case map_of item ''mediaKind'' of
                             None \<Rightarrow> JStr (MediaKind_value NORMAL_VIDEO) | Some v \<Rightarrow> v))) (\<lambda>media_kind.
     andThen (jreq ''formatOptionId'' item) (\<lambda>option_id.
     andThen (jreq ''container'' item) (\<lambda>container.
     andThen (jreq ''hasVideo'' item) (\<lambda>has_video.
     andThen (jreq ''hasAudio'' item) (\<lambda>has_audio.
     andThen (jreq ''videoCodec'' item) (\<lambda>vc.
     andThen (enum_member CodecFamily_value codecs (py_str rp vc)) (\<lambda>video_codec.
     andThen (jreq ''audioCodec'' item) (\<lambda>ac.
     andThen (enum_member CodecFamily_value codecs (py_str rp ac)) (\<lambda>audio_codec.
     andThen (jreq ''qualityLabel'' item) (\<lambda>quality_label.
     andThen (jreq ''freeTierEligible'' item) (\<lambda>free_tier.
       new_loaded_format
         \<lparr>lf_format_option_id = py_str rp option_id, lf_container = py_str rp container,
          lf_width = jget ''width'' item, lf_height = jget ''height'' item, lf_fps = jget ''fps'' item,
          lf_has_video = py_bool has_video, lf_has_audio = py_bool has_audio,
          lf_category = category, lf_video_codec = video_codec, lf_audio_codec = audio_codec,
          lf_approx_bytes = jget ''approxBytes'' item, lf_quality_label = py_str rp quality_label,
          lf_free_tier_eligible = py_bool free_tier, lf_media_kind = media_kind,
          lf_requires_premium =
            py_bool (case map_of item ''requiresPremium'' of
                       None \<Rightarrow> JBool (media_kind \<noteq> NORMAL_VIDEO) | Some v \<Rightarrow> v),
          lf_bitrate_kbps = jget ''bitrateKbps'' item\<rparr>)))))))))))))"

definition load_format :: "(json \<Rightarrow> string) \<Rightarrow> json \<Rightarrow> LoadedFormat res" where
  "load_format rp v =
     (case v of
        JObj item \<Rightarrow>
          andThen (reject_forbidden METADATA_FORMAT_KEYS item) (\<lambda>_.
            caught_value ''METADATA_FORMAT_INVALID'' (load_format_fields rp item))
      | _ \<Rightarrow> Inl (bad_metadata ''METADATA_FORMAT_TYPE''))"

fun load_formats :: "(json \<Rightarrow> string) \<Rightarrow> json list \<Rightarrow> LoadedFormat list res" where
  "load_formats rp [] = Inr []"
| "load_formats rp (v # vs) =
     andThen (load_format rp v) (\<lambda>f. andThen (load_formats rp vs) (\<lambda>fs. Inr (f # fs)))"

record LoadedMetadata =
  lm_provider_id :: string
  lm_canonical_provider_url :: string
  lm_media_id :: string
  lm_title :: json
  lm_duration_seconds :: json
  lm_formats :: "LoadedFormat list"
  lm_extraction_tool :: string
  lm_extraction_tool_version :: json
  lm_muxing_required :: bool

definition muxing_required_from_payload ::
  "(string \<times> json) list \<Rightarrow> LoadedFormat list \<Rightarrow> bool res" where
  "muxing_required_from_payload payload formats =
     (case map_of payload ''muxingRequired'' of
        None \<Rightarrow> Inr (\<not> list_ex (\<lambda>f. lf_category f = PROGRESSIVE \<and> lf_free_tier_eligible f \<and>
                                  lf_has_video f \<and> lf_has_audio f) formats)
      | Some (JBool b) \<Rightarrow> Inr b
      | Some _ \<Rightarrow> Inl (bad_metadata ''METADATA_INVALID''))"

text \<open>\<open>MediaMetadata.__post_init__\<close> on the loaded values; the title is not looked at.\<close>

definition check_metadata :: "LoadedMetadata \<Rightarrow> unit res" where
  "check_metadata m =
     andThen (guard_res (safe_token (lm_provider_id m) \<and> safe_token (lm_extraction_tool m) \<and>
                no_query_fragment (lm_canonical_provider_url m) \<and>
                contains ''://'' (lm_canonical_provider_url m) \<and> safe_media_id (lm_media_id m) \<and>
                (case lm_extraction_tool_version m of
                   JNull \<Rightarrow> True | JStr v \<Rightarrow> safe_version v | _ \<Rightarrow> False)) (ValueError ''MediaMetadata'')) (\<lambda>_.
     check_number None (lm_duration_seconds m))"

definition load_metadata_fields ::
  "(json \<Rightarrow> string) \<Rightarrow> (string \<times> json) list \<Rightarrow> LoadedFormat list \<Rightarrow> LoadedMetadata res" where
  "load_metadata_fields rp payload formats =
     andThen (jreq ''providerId'' payload) (\<lambda>provider_id.
     andThen (jreq ''canonicalProviderUrl'' payload) (\<lambda>url.
     andThen (jreq ''mediaId'' payload) (\<lambda>media_id.
     andThen (jreq ''extractionTool'' payload) (\<lambda>tool.
     andThen (muxing_required_from_payload payload formats) (\<lambda>muxing_required.
       let m = \<lparr>lm_provider_id = py_str rp provider_id, lm_canonical_provider_url = py_str rp url,
                lm_media_id = py_str rp media_id, lm_title = jget ''title'' payload,
                lm_duration_seconds = jget ''durationSeconds'' payload, lm_formats = formats,
                lm_extraction_tool = py_str rp tool,
                lm_extraction_tool_version = jget ''extractionToolVersion'' payload,
                lm_muxing_required = muxing_required\<rparr>
       in andThen (check_metadata m) (\<lambda>_. Inr m))))))"

definition media_metadata_from_jsonable ::
  "pylib \<Rightarrow> (json \<Rightarrow> string) \<Rightarrow> int \<Rightarrow> json \<Rightarrow> LoadedMetadata res" where
  "media_metadata_from_jsonable py rp max_bytes v =
     (case v of
        JObj payload \<Rightarrow>
          if json_size py v > max_bytes then Inl (bad_metadata ''METADATA_TOO_LARGE'')
          else andThen (reject_forbidden METADATA_TOP_LEVEL_KEYS payload) (\<lambda>_.
            (case jget ''formats'' payload of
               JArr items \<Rightarrow>
                 andThen (load_formats rp items) (\<lambda>formats.
                   caught_value ''METADATA_INVALID'' (load_metadata_fields rp payload formats))
             | _ \<Rightarrow> Inl (bad_metadata ''METADATA_FORMATS_TYPE'')))
      | _ \<Rightarrow> Inl (bad_metadata ''METADATA_PAYLOAD_TYPE''))"

section \<open>Round trip\<close>

definition loaded_format :: "MediaFormat \<Rightarrow> LoadedFormat" where
  "loaded_format f =
     \<lparr>lf_format_option_id = mf_format_option_id f, lf_container = mf_container f,
      lf_width = opt_int_json (mf_width f), lf_height = opt_int_json (mf_height f),
      lf_fps = (case mf_fps f of None \<Rightarrow> JNull | Some x \<Rightarrow> JFloat x),
      lf_has_video = mf_has_video f, lf_has_audio = mf_has_audio f, lf_category = mf_category f,
      lf_video_codec = mf_video_codec f, lf_audio_codec = mf_audio_codec f,
      lf_approx_bytes = opt_int_json (mf_approx_bytes f), lf_quality_label = mf_quality_label f,
      lf_free_tier_eligible = mf_free_tier_eligible f, lf_media_kind = mf_media_kind f,
      lf_requires_premium = mf_requires_premium f, lf_bitrate_kbps = opt_int_json (mf_bitrate_kbps f)\<rparr>"

definition loaded_metadata :: "MediaMetadata \<Rightarrow> LoadedMetadata" where
  "loaded_metadata m =
     \<lparr>lm_provider_id = mm_provider_id m, lm_canonical_provider_url = mm_canonical_provider_url m,
      lm_media_id = mm_media_id m,
      lm_title = (case mm_title m of None \<Rightarrow> JNull | Some t \<Rightarrow> JStr (text_octets t)),
      lm_duration_seconds = opt_int_json (mm_duration_seconds m),
      lm_formats = map loaded_format (mm_formats m), lm_extraction_tool = mm_extraction_tool m,
      lm_extraction_tool_version = (case mm_extraction_tool_version m of None \<Rightarrow> JNull | Some v \<Rightarrow> JStr v),
      lm_muxing_required = mm_muxing_required m\<rparr>"

lemma check_number_int: "non_negative v m \<Longrightarrow> m = None \<or> m = Some 100000 \<Longrightarrow> check_number m (opt_int_json v) = Inr ()"
  by (cases v) (auto simp: check_number_def opt_int_json_def non_negative_def)

lemma check_number_fps:
  "non_negative v (Some 240) \<Longrightarrow> check_number (Some 240) (case v of None \<Rightarrow> JNull | Some x \<Rightarrow> JFloat x) = Inr ()"
  by (cases v) (auto simp: check_number_def non_negative_def)

lemma enum_members:
  "enum_member FormatCategory_value categories (FormatCategory_value c) = Inr c"
  "enum_member MediaKind_value kinds (MediaKind_value k) = Inr k"
  "enum_member CodecFamily_value codecs (CodecFamily_value x) = Inr x"
    apply (cases c; simp add: enum_member_def enum_of_def)
   apply (cases k; simp add: enum_member_def enum_of_def)
  apply (cases x; simp add: enum_member_def enum_of_def)
  done

lemma metadata_forbidden_lower:
  "map lower METADATA_FORBIDDEN_KEYS = [''url'', ''urls'', ''directurl'', ''directurls'', ''signedurl'',
     ''downloadurl'', ''streamurl'', ''manifesturl'', ''cookie'', ''cookies'', ''authorization'',
     ''token'', ''accesstoken'', ''password'', ''secret'', ''stderr'', ''stdout'', ''raw'', ''path'',
     ''filepath'', ''temppath'', ''query'', ''fragment'', ''headers'', ''argv'', ''command'']"
  by (simp add: METADATA_FORBIDDEN_KEYS_def lower_def lower_char_def char_of_eq_iff take_bit_eq_mod)

lemma key_names_no_space:
  "k \<in> set (METADATA_FORMAT_KEYS @ METADATA_TOP_LEVEL_KEYS) \<Longrightarrow> strip k = k"
  by (auto simp: METADATA_FORMAT_KEYS_def METADATA_TOP_LEVEL_KEYS_def is_space_def intro!: strip_all)

lemma format_keys_allowed:
  "map fst obj = METADATA_FORMAT_KEYS \<Longrightarrow> reject_forbidden METADATA_FORMAT_KEYS obj = Inr ()"
  unfolding reject_forbidden_def metadata_forbidden_lower
  by (simp add: METADATA_FORMAT_KEYS_def key_names_no_space METADATA_FORBIDDEN_KEYS_def lower_def
      lower_char_def char_of_eq_iff take_bit_eq_mod)

lemma top_level_keys_allowed:
  "map fst obj = METADATA_TOP_LEVEL_KEYS \<Longrightarrow> reject_forbidden METADATA_TOP_LEVEL_KEYS obj = Inr ()"
  unfolding reject_forbidden_def metadata_forbidden_lower
  by (simp add: METADATA_TOP_LEVEL_KEYS_def key_names_no_space METADATA_FORBIDDEN_KEYS_def lower_def
      lower_char_def char_of_eq_iff take_bit_eq_mod)

lemma format_payload_keys: "map fst (snapshot_payload f) = METADATA_FORMAT_KEYS"
  by (simp add: snapshot_payload_def METADATA_FORMAT_KEYS_def)

lemma metadata_payload_keys: "map fst (metadata_payload m) = METADATA_TOP_LEVEL_KEYS"
  by (simp add: metadata_payload_def METADATA_TOP_LEVEL_KEYS_def)

lemma check_kind_loaded: "valid_format f \<Longrightarrow> check_kind (loaded_format f)"
  by (auto simp: check_kind_def valid_format_def loaded_format_def opt_int_json_def split: option.splits)

lemma new_loaded_format_valid: "valid_format f \<Longrightarrow> new_loaded_format (loaded_format f) = Inr (loaded_format f)"
proof -
  assume v: "valid_format f"
  have "check_number None (lf_width (loaded_format f)) = Inr ()"
    "check_number None (lf_height (loaded_format f)) = Inr ()"
    "check_number None (lf_approx_bytes (loaded_format f)) = Inr ()"
    "check_number (Some 100000) (lf_bitrate_kbps (loaded_format f)) = Inr ()"
    using v by (simp_all add: loaded_format_def valid_format_def check_number_int)
  moreover have "check_number (Some 240) (lf_fps (loaded_format f)) = Inr ()"
    using v check_number_fps by (simp add: loaded_format_def valid_format_def)
  moreover have "safe_token (lf_format_option_id (loaded_format f))" "safe_token (lf_container (loaded_format f))"
    "safe_token (lf_quality_label (loaded_format f))"
    using v by (simp_all add: loaded_format_def valid_format_def)
  ultimately show ?thesis using check_kind_loaded [OF v] by (simp add: new_loaded_format_def)
qed

lemma load_format_fields_payload:
  assumes "valid_format f"
  shows "load_format_fields rp (snapshot_payload f) = Inr (loaded_format f)"
proof -
  have "load_format_fields rp (snapshot_payload f) = new_loaded_format (loaded_format f)"
    by (simp add: load_format_fields_def jreq_def snapshot_lookups enum_members)
      (simp add: loaded_format_def)
  with new_loaded_format_valid [OF assms] show ?thesis by simp
qed

lemma load_format_json: "valid_format f \<Longrightarrow> load_format rp (format_json f) = Inr (loaded_format f)"
  by (simp add: load_format_def format_json_def format_keys_allowed [OF format_payload_keys]
      load_format_fields_payload)

lemma load_formats_json:
  "\<forall>f \<in> set fs. valid_format f \<Longrightarrow> load_formats rp (map format_json fs) = Inr (map loaded_format fs)"
  by (induction fs) (simp_all add: load_format_json)

lemma check_metadata_loaded: "valid_metadata m \<Longrightarrow> check_metadata (loaded_metadata m) = Inr ()"
  by (auto simp: check_metadata_def valid_metadata_def loaded_metadata_def check_number_int split: option.splits)

lemma load_metadata_fields_payload:
  assumes "valid_metadata m"
  shows "load_metadata_fields rp (metadata_payload m) (map loaded_format (mm_formats m)) = Inr (loaded_metadata m)"
proof -
  have "load_metadata_fields rp (metadata_payload m) (map loaded_format (mm_formats m)) =
      andThen (check_metadata (loaded_metadata m)) (\<lambda>_. Inr (loaded_metadata m))"
    by (simp add: load_metadata_fields_def jreq_def jget_def metadata_payload_def
        muxing_required_from_payload_def Let_def) (simp add: loaded_metadata_def)
  with check_metadata_loaded [OF assms] show ?thesis by simp
qed

text \<open>What was written is read back, numbers and texts included.\<close>

lemma metadata_reads_back:
  assumes "valid_metadata m" and "\<forall>f \<in> set (mm_formats m). valid_format f"
    and "media_metadata_to_jsonable py mx m = Inr obj"
  shows "media_metadata_from_jsonable py rp mx (JObj obj) = Inr (loaded_metadata m)"
proof -
  have obj: "obj = metadata_payload m" and size: "\<not> json_size py (JObj (metadata_payload m)) > mx"
    using assms(3) by (auto simp: media_metadata_to_jsonable_def Let_def split: if_splits)
  have "jget ''formats'' (metadata_payload m) = JArr (map format_json (mm_formats m))"
    by (simp add: jget_def metadata_payload_def)
  then show ?thesis
    using size load_formats_json [OF assms(2)] load_metadata_fields_payload [OF assms(1)]
    by (simp add: media_metadata_from_jsonable_def obj top_level_keys_allowed [OF metadata_payload_keys])
qed

lemma title_reads_back: "list_all scalar_value t \<Longrightarrow> stored_text (text_octets t) = t"
proof -
  assume t: "list_all scalar_value t"
  then have small: "\<forall>c \<in> set t. c < 0x110000" by (auto simp: list_all_iff scalar_value_def)
  have "map (of_char \<circ> char_of) (utf8_encode t) = utf8_encode t"
    by (rule map_idI) (use utf8_bytes [OF small] in \<open>simp add: comp_def\<close>)
  with utf8_points_encode [OF small] show ?thesis by (simp add: stored_text_def text_octets_def)
qed

text \<open>Cleaning a title only removes characters or makes them spaces.\<close>

lemma strip_white_chars: "set (strip_white u s) \<subseteq> set s"
  unfolding strip_white_def by (auto dest!: set_dropWhileD)

lemma sanitize_title_chars:
  assumes "sanitize_title u (Some t) n = Some r"
  shows "set r \<subseteq> insert 32 (set t)"
proof -
  define a where "a = strip_white u (map (\<lambda>c. if c = 9 then 32 else c) (filter (\<lambda>c. \<not> dropped_control c) t))"
  define b where "b = strip_white u (collapse_white (\<lambda>c. c = 32 \<or> c = 10 \<or> c = 13) a)"
  have r: "r = (if int (length b) > n then rev (dropWhile (is_white u) (rev (take (nat n) b))) else b)"
    using assms by (simp add: sanitize_title_def Let_def a_def b_def split: if_splits)
  have "set (rev (dropWhile (is_white u) (rev (take (nat n) b)))) \<subseteq> set b"
    by (auto dest!: set_dropWhileD in_set_takeD)
  then have "set r \<subseteq> set b" by (simp add: r)
  moreover have "set b \<subseteq> insert 32 (set a)"
    unfolding b_def using strip_white_chars set_collapse by fast
  moreover have "set a \<subseteq> set (map (\<lambda>c. if c = 9 then 32 else c) (filter (\<lambda>c. \<not> dropped_control c) t))"
    unfolding a_def by (rule strip_white_chars)
  then have "set a \<subseteq> insert 32 (set t)" by auto
  ultimately show ?thesis by auto
qed

lemma sanitized_title_scalar:
  assumes "\<And>t. raw = Some t \<Longrightarrow> list_all scalar_value t" and "sanitize_title u raw n = Some r"
  shows "list_all scalar_value r"
proof (cases raw)
  case (Some t)
  with assms sanitize_title_chars [of u t n r] have "set r \<subseteq> insert 32 (set t)" "list_all scalar_value t" by auto
  then show ?thesis by (auto simp: list_all_iff scalar_value_def)
qed (use assms(2) in \<open>simp add: sanitize_title_def\<close>)

text \<open>C33. Whatever an inspection produced survives storage: if the metadata of a page fits into the
  column, reading the column back gives the same metadata, format by format and number by number,
  and the very title.\<close>

theorem inspected_metadata_survives_storage:
  assumes "project_metadata u h s url media_id provider_id draft = Inr m" and "1 \<le> is_max_formats s"
    and "media_metadata_to_jsonable py mx m = Inr obj"
    and "\<And>t. em_title draft = Some t \<Longrightarrow> list_all scalar_value t"
  shows "\<exists>lm. media_metadata_from_jsonable py rp mx (JObj obj) = Inr lm \<and>
     lm_formats lm = map loaded_format (mm_formats m) \<and>
     lm_muxing_required lm = mm_muxing_required m \<and>
     lm_duration_seconds lm = opt_int_json (mm_duration_seconds m) \<and>
     lm_canonical_provider_url lm = url \<and> lm_media_id lm = media_id \<and> lm_provider_id lm = provider_id \<and>
     (case mm_title m of None \<Rightarrow> lm_title lm = JNull
        | Some t \<Rightarrow> \<exists>o8. lm_title lm = JStr o8 \<and> stored_text o8 = t)"
proof -
  from assms(1) obtain fs where fs: "project_formats h s (em_candidates draft) = Inr fs" "mm_formats m = fs"
    and v: "valid_metadata m" and ids: "mm_canonical_provider_url m = url" "mm_media_id m = media_id"
      "mm_provider_id m = provider_id"
    by (auto simp: project_metadata_def Let_def andThen_eq_Inr split: if_split_asm)
  have "\<forall>f \<in> set (mm_formats m). valid_format f"
    using project_formats_offered [OF fs(1) assms(2)] by (simp add: fs(2) offered_def)
  from metadata_reads_back [OF v this assms(3)]
  have "media_metadata_from_jsonable py rp mx (JObj obj) = Inr (loaded_metadata m)" .
  moreover have "mm_title m = sanitize_title u (em_title draft) (is_max_title_length s)"
    using assms(1) by (auto simp: project_metadata_def Let_def andThen_eq_Inr split: if_split_asm)
  then have "\<And>t. mm_title m = Some t \<Longrightarrow> list_all scalar_value t"
    using sanitized_title_scalar [OF assms(4)] by simp
  ultimately show ?thesis
    using title_reads_back by (auto simp: loaded_metadata_def ids split: option.split)
qed

theorem inspected_metadata_survives_storage_witness:
  "\<exists>m obj lm. project_metadata sample_unidb sample_digests sample_inspection ''https://vk.com/video1_2'' ''1_2'' ''vk''
      (sample_draft [sample_progressive]) = Inr m \<and>
     media_metadata_from_jsonable sample_pylib (\<lambda>_. []) 65536 (JObj obj) = Inr lm \<and>
     lm_formats lm = [loaded_format (candidate_format sample_digests sample_progressive)]"
proof -
  obtain m where m: "project_metadata sample_unidb sample_digests sample_inspection ''https://vk.com/video1_2'' ''1_2'' ''vk''
     (sample_draft [sample_progressive]) = Inr m"
    and fs: "mm_formats m = [candidate_format sample_digests sample_progressive]" using sample_projected by blast
  have lim: "1 \<le> is_max_formats sample_inspection" by (simp add: sample_inspection_def)
  have w: "media_metadata_to_jsonable sample_pylib 65536 m = Inr (metadata_payload m)"
    by (simp add: media_metadata_to_jsonable_def sample_pylib_def)
  have tt: "\<And>t. em_title (sample_draft [sample_progressive]) = Some t \<Longrightarrow> list_all scalar_value t"
    by (auto simp: sample_draft_def scalar_value_def)
  obtain lm where "media_metadata_from_jsonable sample_pylib (\<lambda>_. []) 65536 (JObj (metadata_payload m)) = Inr lm"
    "lm_formats lm = map loaded_format (mm_formats m)"
    using inspected_metadata_survives_storage [OF m lim w tt, of "\<lambda>_. []"] by auto
  with m show ?thesis by (auto simp: fs)
qed

end
