(* ===== verification/Download_Lifecycle.thy ===== *)
theory Download_Lifecycle
  imports Download_Jobs
begin

text \<open>
  What the download queue guarantees over its runs: rows evolve along the state machine, a fence
  names one owner, a ready artifact never changes, a cancelled job never becomes ready, and no
  Free reservation outlives the job it was made for.
\<close>

section \<open>How a row may change\<close>

fun dj_reach :: "MediaDownloadJobState \<Rightarrow> MediaDownloadJobState \<Rightarrow> bool" where
  "dj_reach DJ_QUEUED t = True"
| "dj_reach DJ_DOWNLOADING t = True"
| "dj_reach DJ_READY t = (t = DJ_READY \<or> t = DJ_EXPIRED)"
| "dj_reach DJ_FAILED t = (t = DJ_FAILED \<or> t = DJ_EXPIRED)"
| "dj_reach DJ_CANCELLED t = (t = DJ_CANCELLED \<or> t = DJ_EXPIRED)"
| "dj_reach DJ_EXPIRED t = (t = DJ_EXPIRED)"

lemma dj_reach_refl [simp]: "dj_reach s s"
  by (cases s) auto

lemma dj_reach_trans: "dj_reach s t \<Longrightarrow> dj_reach t u \<Longrightarrow> dj_reach s u"
  by (cases s; cases t; cases u) auto

lemma dj_edge: "(\<lambda>a b. dj_assert_transition a b = Inr ())\<^sup>*\<^sup>* s t" if "t \<in> set (dj_allowed s)"
  using that by (intro r_into_rtranclp) (simp add: dj_assert_transition_def)

lemma dj_reach_moves: "dj_reach s t \<Longrightarrow> (\<lambda>a b. dj_assert_transition a b = Inr ())\<^sup>*\<^sup>* s t"
proof -
  assume r: "dj_reach s t"
  note step = dj_edge [of DJ_DOWNLOADING DJ_QUEUED] dj_edge [of _ DJ_DOWNLOADING]
  show ?thesis
  proof (cases "s = t \<or> t \<in> set (dj_allowed s)")
    case True
    then show ?thesis using dj_edge by auto
  next
    case False
    with r have "t \<in> {DJ_READY, DJ_FAILED}" "s = DJ_QUEUED" by (cases s; cases t; auto)+
    then show ?thesis using step by (auto intro: rtranclp_trans dj_edge)
  qed
qed

definition format_part :: "json \<Rightarrow> json" where
  "format_part v = (case v of JObj obj \<Rightarrow> JObj (strip_effective_policy_snapshot obj) | _ \<Rightarrow> v)"

text \<open>The columns of the request, which no operation changes.\<close>

definition dj_same_request :: "download_job \<Rightarrow> download_job \<Rightarrow> bool" where
  "dj_same_request j j' \<longleftrightarrow>
     dj_id j' = dj_id j \<and> dj_media_job_id j' = dj_media_job_id j \<and>
     dj_schema_version j' = dj_schema_version j \<and>
     dj_format_option_id j' = dj_format_option_id j \<and> dj_provider_id j' = dj_provider_id j \<and>
     dj_canonical_provider_url j' = dj_canonical_provider_url j \<and>
     dj_media_id j' = dj_media_id j \<and> dj_hostname j' = dj_hostname j \<and> dj_path j' = dj_path j \<and>
     dj_scheme j' = dj_scheme j \<and> dj_port j' = dj_port j \<and>
     format_part (dj_selected_format_snapshot j') = format_part (dj_selected_format_snapshot j) \<and>
     dj_max_attempts j' = dj_max_attempts j \<and> dj_created_at j' = dj_created_at j \<and>
     dj_expires_at j' = dj_expires_at j"

definition same_artifact :: "download_job \<Rightarrow> download_job \<Rightarrow> bool" where
  "same_artifact j j' \<longleftrightarrow>
     dj_artifact_id j' = dj_artifact_id j \<and> dj_artifact_bytes j' = dj_artifact_bytes j \<and>
     dj_artifact_content_type j' = dj_artifact_content_type j \<and>
     dj_artifact_container j' = dj_artifact_container j \<and> dj_fence_token j' = dj_fence_token j"

text \<open>A job that can only end expired: a cancel was accepted, or it has expired.\<close>

definition doomed :: "download_job \<Rightarrow> bool" where
  "doomed j \<longleftrightarrow> dj_cancel_requested_at j \<noteq> None \<or> dj_public_state j = DJ_EXPIRED"

definition dj_rel :: "download_job \<Rightarrow> download_job \<Rightarrow> bool" where
  "dj_rel j j' \<longleftrightarrow>
     fence_step dj_fence_token dj_lease_owner j j' \<and> dj_same_request j j' \<and>
     dj_reach (dj_public_state j) (dj_public_state j') \<and>
     (dj_public_state j = DJ_READY \<longrightarrow> dj_public_state j' = DJ_READY \<longrightarrow> same_artifact j j') \<and>
     (doomed j \<longrightarrow> doomed j') \<and>
     (dj_attempt_count j \<le> dj_max_attempts j \<longrightarrow> dj_attempt_count j' \<le> dj_max_attempts j')"

lemmas dj_rel_defs = dj_rel_def fence_step_def dj_same_request_def same_artifact_def doomed_def

lemma dj_rel_refl: "reflp dj_rel"
  by (simp add: reflp_def dj_rel_defs)

lemma dj_same_request_trans: "dj_same_request a b \<Longrightarrow> dj_same_request b c \<Longrightarrow> dj_same_request a c"
  by (simp add: dj_same_request_def)

lemma dj_relD:
  assumes "dj_rel j j'"
  shows "fence_step dj_fence_token dj_lease_owner j j'" "dj_same_request j j'"
    "dj_reach (dj_public_state j) (dj_public_state j')"
    "dj_public_state j = DJ_READY \<Longrightarrow> dj_public_state j' = DJ_READY \<Longrightarrow> same_artifact j j'"
    "doomed j \<Longrightarrow> doomed j'"
    "dj_attempt_count j \<le> dj_max_attempts j \<Longrightarrow> dj_attempt_count j' \<le> dj_max_attempts j'"
  using assms by (simp_all add: dj_rel_def)

lemma same_artifact_trans: "same_artifact a b \<Longrightarrow> same_artifact b c \<Longrightarrow> same_artifact a c"
  by (simp add: same_artifact_def)

lemma dj_rel_trans: "transp dj_rel"
proof (rule transpI)
  fix a b c assume ab: "dj_rel a b" and bc: "dj_rel b c"
  have "fence_step dj_fence_token dj_lease_owner a c"
    by (rule transpD [OF transp_fence_step dj_relD(1) [OF ab] dj_relD(1) [OF bc]])
  moreover have "dj_same_request a c"
    by (rule dj_same_request_trans [OF dj_relD(2) [OF ab] dj_relD(2) [OF bc]])
  moreover have "dj_reach (dj_public_state a) (dj_public_state c)"
    by (rule dj_reach_trans [OF dj_relD(3) [OF ab] dj_relD(3) [OF bc]])
  moreover have "same_artifact a c" if r: "dj_public_state a = DJ_READY" "dj_public_state c = DJ_READY"
  proof -
    have "dj_public_state b = DJ_READY"
      using dj_relD(3) [OF ab] dj_relD(3) [OF bc] r by (cases "dj_public_state b") simp_all
    with same_artifact_trans [OF dj_relD(4) [OF ab] dj_relD(4) [OF bc]] r show ?thesis by simp
  qed
  moreover have "doomed a \<longrightarrow> doomed c" using dj_relD(5) [OF ab] dj_relD(5) [OF bc] by simp
  moreover have "dj_attempt_count a \<le> dj_max_attempts a \<longrightarrow> dj_attempt_count c \<le> dj_max_attempts c"
    using dj_relD(6) [OF ab] dj_relD(6) [OF bc] by simp
  ultimately show "dj_rel a c" unfolding dj_rel_def by simp
qed

section \<open>The row each operation writes\<close>

named_theorems row_rules \<open>the row an operation writes is related to the row it read\<close>

lemmas row_defs = dj_claimed_def dj_ready_row_def dj_failed_row_def dj_cancelled_row_def
  dj_requeued_row_def apply_stored_cancel_def bump_fence_def dj_expired_row_def no_lease_def no_result_def

lemmas held_defs = dj_live_def dj_owned_def dj_held_def

lemma claimed_rel [row_rules]:
  "dj_claimable clk j \<Longrightarrow> dj_rel j (dj_claimed w t now j)"
  by (simp add: dj_rel_defs dj_claimable_def row_defs)

lemma renewed_rel [row_rules]:
  "dj_rel j (j\<lparr>dj_lease_expires_at := l, dj_updated_at := t\<rparr>)"
  by (simp add: dj_rel_defs)

lemma ready_rel [row_rules]:
  "dj_live clk i w f j \<Longrightarrow> dj_rel j (dj_ready_row t a b ct c j)"
  by (simp add: dj_rel_defs held_defs row_defs)

lemma failed_rel [row_rules]:
  "dj_live clk i w f j \<Longrightarrow> dj_rel j (dj_failed_row t code j)"
  by (simp add: dj_rel_defs held_defs row_defs)

lemma cancelled_rel [row_rules]:
  "dj_held i w f j \<Longrightarrow> dj_rel j (dj_cancelled_row t j)"
  by (simp add: dj_rel_defs held_defs row_defs)

lemma retried_rel [row_rules]:
  "dj_live clk i w f j \<Longrightarrow> dj_rel j ((dj_requeued_row t s av j)\<lparr>dj_public_error_code := None\<rparr>)"
  by (simp add: dj_rel_defs held_defs row_defs)

lemma released_rel [row_rules]:
  "dj_live clk i w f j \<Longrightarrow> download_job_ok j \<Longrightarrow>
     dj_rel j ((dj_requeued_row t s av j)\<lparr>dj_attempt_count := max (dj_attempt_count j - 1) 0\<rparr>)"
  by (auto simp: dj_rel_defs held_defs row_defs download_job_ok_def)

lemma stored_cancel_rel [row_rules]:
  "dj_public_state j \<in> {DJ_QUEUED, DJ_DOWNLOADING} \<Longrightarrow> dj_rel j (apply_stored_cancel now (j\<lparr>dj_cancel_requested_at := c\<rparr>))"
  by (auto simp: dj_rel_defs row_defs)

lemma reclaim_cancel_rel [row_rules]:
  "dj_public_state j = DJ_DOWNLOADING \<Longrightarrow> dj_rel j (bump_fence (apply_stored_cancel now j))"
  by (simp add: dj_rel_defs row_defs)

lemma reclaimed_rel [row_rules]:
  "dj_public_state j = DJ_DOWNLOADING \<Longrightarrow> dj_cancel_requested_at j = None \<Longrightarrow> dj_rel j (dj_reclaimed now j)"
  by (simp add: dj_rel_defs row_defs dj_reclaimed_def Let_def)

lemma expired_rel [row_rules]: "dj_public_state j \<noteq> DJ_CANCELLED \<Longrightarrow> dj_rel j (dj_expired_row now j)"
  by (cases "dj_public_state j") (simp_all add: dj_rel_defs row_defs)

lemma cancel_mark_rel [row_rules]:
  "dj_public_state j = DJ_DOWNLOADING \<Longrightarrow> dj_rel j (j\<lparr>dj_cancel_requested_at := Some t, dj_updated_at := t\<rparr>)"
  by (simp add: dj_rel_defs)

lemma stage_rel [row_rules]:
  "dj_rel j (j\<lparr>dj_progress_percent := p, dj_progress_stage := s, dj_updated_at := t\<rparr>)"
  "dj_rel j (j\<lparr>dj_progress_percent := p, dj_updated_at := t\<rparr>)"
  "dj_rel j (j\<lparr>dj_updated_at := t\<rparr>)"
  by (simp_all add: dj_rel_defs)

section \<open>Evolution of the table\<close>

definition downloads_wf :: "db \<Rightarrow> bool" where
  "downloads_wf d \<longleftrightarrow>
     (\<forall>j \<in> set (download_jobs d). download_job_ok j) \<and> distinct (map dj_id (download_jobs d)) \<and>
     distinct (map (\<lambda>j. (dj_media_job_id j, dj_format_option_id j)) (download_jobs d))"

definition dj_evolves :: "db \<Rightarrow> db \<Rightarrow> bool" where
  "dj_evolves d d' \<longleftrightarrow>
     (downloads_wf d \<longrightarrow> downloads_wf d' \<and> evolves dj_id dj_rel (download_jobs d) (download_jobs d'))"

lemma dj_evolves_same: "download_jobs d' = download_jobs d \<Longrightarrow> dj_evolves d d'"
  by (simp add: dj_evolves_def downloads_wf_def evolves_refl [OF dj_rel_refl])

lemma dj_evolves_refl [simp]: "dj_evolves d d"
  by (simp add: dj_evolves_same)

lemma dj_evolves_trans: "dj_evolves a b \<Longrightarrow> dj_evolves b c \<Longrightarrow> dj_evolves a c"
  unfolding dj_evolves_def using evolves_trans [OF dj_rel_trans] by blast

lemma dj_rel_keys:
  "dj_rel j j' \<Longrightarrow> dj_id j' = dj_id j \<and> dj_media_job_id j' = dj_media_job_id j \<and>
     dj_format_option_id j' = dj_format_option_id j"
  by (simp add: dj_rel_def dj_same_request_def)

text \<open>Rewriting rows in place, each to a related row that satisfies the constraints.\<close>

lemma dj_map_evolves:
  assumes d': "download_jobs d' = map (\<lambda>j. if P j then f j else j) (download_jobs d)"
    and rel: "\<And>j. j \<in> set (download_jobs d) \<Longrightarrow> P j \<Longrightarrow> download_job_ok j \<Longrightarrow> dj_rel j (f j) \<and> download_job_ok (f j)"
  shows "dj_evolves d d'"
  unfolding dj_evolves_def
proof (intro impI)
  assume wf: "downloads_wf d"
  let ?g = "\<lambda>j. if P j then f j else j"
  have g: "dj_rel j (?g j) \<and> download_job_ok (?g j)" if "j \<in> set (download_jobs d)" for j
    using rel [OF that] that wf dj_rel_refl by (auto simp: downloads_wf_def reflp_def)
  have keys: "map dj_id (download_jobs d') = map dj_id (download_jobs d)"
    "map (\<lambda>j. (dj_media_job_id j, dj_format_option_id j)) (download_jobs d') =
     map (\<lambda>j. (dj_media_job_id j, dj_format_option_id j)) (download_jobs d)"
    using g dj_rel_keys unfolding d' map_map comp_def by (auto intro!: map_cong)
  have "\<forall>j \<in> set (download_jobs d'). download_job_ok j"
    using g unfolding d' set_map by (metis (no_types, lifting) imageE)
  then have "downloads_wf d'" using wf keys by (simp only: downloads_wf_def)
  moreover have "evolves dj_id dj_rel (download_jobs d) (download_jobs d')"
  proof -
    have "row_by dj_id k (map ?g rows) = map_option ?g (row_by dj_id k rows)"
      if "\<forall>j \<in> set rows. dj_id (?g j) = dj_id j" for k rows
      using that by (induction rows) (auto simp: row_by_Cons)
    moreover have "\<forall>j \<in> set (download_jobs d). dj_id (?g j) = dj_id j" using g dj_rel_keys by blast
    ultimately show ?thesis unfolding evolves_def d' using g row_by_SomeD by fastforce
  qed
  ultimately show "downloads_wf d' \<and> evolves dj_id dj_rel (download_jobs d) (download_jobs d')" ..
qed

text \<open>One row per statement: the update by key and the flush of a loaded row.\<close>

lemma dj_update_evolves:
  assumes "dj_update P f d = Inr (b, d')"
    and "\<And>j. P j \<Longrightarrow> download_job_ok j \<Longrightarrow> dj_rel j (f j)"
  shows "dj_evolves d d'"
proof (rule dj_map_evolves)
  from assms(1) obtain n where u: "update_where download_job_ok dj_rejected P f (download_jobs d) =
      Inr (download_jobs d', n)"
    by (auto simp: dj_update_def andThen_eq_Inr)
  show "download_jobs d' = map (\<lambda>j. if P j then f j else j) (download_jobs d)"
    using update_where_InrD [OF u] by simp
  show "dj_rel j (f j) \<and> download_job_ok (f j)"
    if "j \<in> set (download_jobs d)" "P j" "download_job_ok j" for j
    using assms(2) [OF that(2,3)] u that by (auto simp: update_where_def split: if_splits)
qed

lemma dj_flush_Inr:
  "dj_flush j d = Inr d' \<longleftrightarrow> download_job_ok j \<and> d' = d\<lparr>download_jobs := put_row dj_id j (download_jobs d)\<rparr>"
  by (auto simp: dj_flush_def andThen_eq_Inr write_row_eq_Inr)

lemma dj_flush_evolves:
  assumes "dj_flush j' d = Inr d'" and "dj_get_by_id (dj_id j') d = Some j"
    and "download_job_ok j \<Longrightarrow> dj_rel j j'"
  shows "dj_evolves d d'"
  unfolding dj_evolves_def
proof (intro impI)
  assume wf: "downloads_wf d"
  have ok': "download_job_ok j'" and tab: "download_jobs d' = put_row dj_id j' (download_jobs d)"
    using assms(1) by (simp_all add: dj_flush_Inr)
  have row: "row_by dj_id (dj_id j') (download_jobs d) = Some j"
    using assms(2) by (simp add: dj_get_by_id_def)
  then have "j \<in> set (download_jobs d)" "dj_id j = dj_id j'"
    using row_by_SomeD by fastforce+
  with wf have "download_job_ok j" by (simp add: downloads_wf_def)
  with assms(3) have rel: "dj_rel j j'" .
  have dist: "distinct (map dj_id (download_jobs d))" using wf by (simp add: downloads_wf_def)
  have "map (\<lambda>j. (dj_media_job_id j, dj_format_option_id j)) (download_jobs d') =
      map (\<lambda>j. (dj_media_job_id j, dj_format_option_id j)) (download_jobs d)"
    unfolding tab by (rule map_put_row_same [OF row _ dist]) (use dj_rel_keys [OF rel] in simp)
  then have "downloads_wf d'"
    using wf ok' set_put_row [of dj_id j' "download_jobs d"] by (auto simp: downloads_wf_def tab)
  moreover have "evolves dj_id dj_rel (download_jobs d) (download_jobs d')"
    unfolding tab by (rule evolves_put_row [OF dj_rel_refl row rel])
  ultimately show "downloads_wf d' \<and> evolves dj_id dj_rel (download_jobs d) (download_jobs d')" ..
qed

lemma found_row:
  assumes "find P (download_jobs d) = Some j"
  shows "j \<in> set (download_jobs d) \<and> P j"
  using assms by (auto simp: find_Some_iff)

lemma dj_insert_evolves: "dj_insert row d = Inr d' \<Longrightarrow> dj_evolves d d'"
  unfolding dj_evolves_def
  by (auto simp: dj_insert_def downloads_wf_def intro!: evolves_append [OF dj_rel_refl] split: if_splits)

lemma dj_write_rows_evolves:
  assumes w: "write_rows dj_id download_job_ok dj_rejected f picked (download_jobs d) = Inr tab"
    and picked: "set picked \<subseteq> set (download_jobs d)" and dist: "downloads_wf d \<Longrightarrow> distinct (map dj_id picked)"
    and keep: "\<And>j. dj_id (f j) = dj_id j" and rel: "\<And>j. j \<in> set picked \<Longrightarrow> dj_rel j (f j)"
  shows "dj_evolves d (d\<lparr>download_jobs := tab\<rparr>)"
proof (cases "downloads_wf d")
  case True
  show ?thesis
  proof (rule dj_map_evolves [where P = "\<lambda>j. j \<in> set picked" and f = f])
    show "download_jobs (d\<lparr>download_jobs := tab\<rparr>) =
        map (\<lambda>j. if j \<in> set picked then f j else j) (download_jobs d)"
      using write_rows_map [OF w _ dist [OF True] picked keep] True by (simp add: downloads_wf_def)
    show "dj_rel j (f j) \<and> download_job_ok (f j)" if "j \<in> set picked" for j
      using rel [OF that] write_rows_picked_ok [OF w that] by simp
  qed
next
  case False
  then show ?thesis by (simp add: dj_evolves_def)
qed

section \<open>Every operation evolves the table\<close>

text \<open>Quota, grant and ledger writes leave the job table alone.\<close>

lemma qe_flush_jobs: "qe_flush e d = Inr d' \<Longrightarrow> download_jobs d' = download_jobs d"
  by (auto simp: qe_flush_Inr)

lemma release_quota_jobs:
  "release_quota_after_job_lock q i x t d = Inr d' \<Longrightarrow> download_jobs d' = download_jobs d"
  by (auto simp: release_quota_after_job_lock_def andThen_eq_Inr qe_flush_jobs split: if_splits option.splits)

lemma consume_quota_jobs:
  "consume_quota_after_job_lock q i t d = Inr d' \<Longrightarrow> download_jobs d' = download_jobs d"
  by (auto simp: consume_quota_after_job_lock_def andThen_eq_Inr qe_flush_jobs split: if_splits option.splits)

lemma revoke_jobs: "revoke_active_grants_locked i now d = Inr d' \<Longrightarrow> download_jobs d' = download_jobs d"
  by (auto simp: revoke_active_grants_locked_def revoke_grants_def andThen_eq_Inr)

lemma dj_transitions_simps [simp]:
  "dj_assert_transition DJ_DOWNLOADING DJ_READY = Inr ()"
  "dj_assert_transition DJ_DOWNLOADING DJ_FAILED = Inr ()"
  "dj_assert_transition DJ_DOWNLOADING DJ_QUEUED = Inr ()"
  "dj_assert_transition DJ_DOWNLOADING DJ_EXPIRED = Inr ()"
  "dj_assert_transition DJ_QUEUED DJ_DOWNLOADING = Inr ()"
  "dj_assert_transition DJ_QUEUED DJ_EXPIRED = Inr ()"
  "dj_assert_transition DJ_READY DJ_EXPIRED = Inr ()"
  "dj_assert_transition DJ_FAILED DJ_EXPIRED = Inr ()"
  "dj_assert_transition DJ_CANCELLED DJ_EXPIRED = Inr ()"
  by (simp_all add: dj_assert_transition_def)

lemma enqueue_evolves: "dj_enqueue_or_get i rq now d = Inr (r, d') \<Longrightarrow> dj_evolves d d'"
  by (auto simp: dj_enqueue_or_get_def Let_def intro: dj_insert_evolves
      split: if_splits sum.splits option.splits)

lemma dj_claim_selectD:
  "j \<in> set (dj_claim_select locked clk limit d) \<Longrightarrow>
     j \<in> set (download_jobs d) \<and> dj_claimable clk j \<and> \<not> locked (dj_id j)"
  using set_sql_limit by (fastforce simp: dj_claim_select_def)

lemma dj_claim_select_distinct:
  "downloads_wf d \<Longrightarrow> distinct (map dj_id (dj_claim_select locked clk limit d))"
  unfolding dj_claim_select_def downloads_wf_def
  by (intro distinct_map_order_limit distinct_map_filter_sub) simp

lemma claim_evolves:
  assumes "dj_claim_next locked clk w dur now limit d = Inr (r, d')"
  shows "dj_evolves d d'"
proof (cases "limit < 1")
  case True
  with assms show ?thesis by (simp add: dj_claim_next_def)
next
  case False
  with assms obtain tab where
    w: "write_rows dj_id download_job_ok dj_rejected (dj_claimed w (now + dur) now)
          (dj_claim_select locked clk limit d) (download_jobs d) = Inr tab"
    and d': "d' = d\<lparr>download_jobs := tab\<rparr>"
    by (auto simp: dj_claim_next_def Let_def andThen_eq_Inr split: if_splits)
  show ?thesis unfolding d'
  proof (rule dj_write_rows_evolves [OF w])
    show "set (dj_claim_select locked clk limit d) \<subseteq> set (download_jobs d)"
      using dj_claim_selectD by blast
    show "dj_id (dj_claimed w (now + dur) now j) = dj_id j" for j by (simp add: dj_claimed_def)
  qed (use dj_claim_selectD in \<open>blast intro: claimed_rel dj_claim_select_distinct\<close>)+
qed

lemma complete_ready_evolves:
  assumes "dj_complete_ready clk qclk i w f a b ct c consume d = Inr (r, d')"
  shows "dj_evolves d d'"
proof -
  from assms obtain quota applied d1 where
    u: "dj_update (dj_live clk i w f) (dj_ready_row clk a b ct c) d = Inr (applied, d1)"
    and rest: "d' = d1 \<or> consume_quota_after_job_lock quota i qclk d1 = Inr d'"
    by (auto simp: dj_complete_ready_def andThen_eq_Inr split: if_split_asm)
  have "dj_evolves d d1" by (rule dj_update_evolves [OF u]) (rule ready_rel)
  moreover have "dj_evolves d1 d'" using rest consume_quota_jobs dj_evolves_same by blast
  ultimately show ?thesis by (rule dj_evolves_trans)
qed

lemma update_release_evolves:
  assumes "dj_update P g d = Inr (applied, d1)"
    and "\<And>j. P j \<Longrightarrow> dj_rel j (g j)"
    and "d' = d1 \<or> release_quota_after_job_lock quota i x qclk d1 = Inr d'"
  shows "dj_evolves d d'"
proof (rule dj_evolves_trans)
  show "dj_evolves d d1" by (rule dj_update_evolves [OF assms(1)]) (rule assms(2))
  show "dj_evolves d1 d'" using assms(3) release_quota_jobs dj_evolves_same by blast
qed

lemma fail_permanent_evolves:
  assumes "dj_fail_permanent clk qclk i w f code d = Inr (r, d')"
  shows "dj_evolves d d'"
proof -
  from assms obtain quota applied d1 where
    u: "dj_update (dj_live clk i w f) (dj_failed_row clk code) d = Inr (applied, d1)"
    and rest: "d' = d1 \<or> release_quota_after_job_lock quota i False qclk d1 = Inr d'"
    by (auto simp: dj_fail_permanent_def andThen_eq_Inr split: if_split_asm)
  show ?thesis by (rule update_release_evolves [OF u failed_rel rest])
qed

lemma complete_cancelled_evolves:
  assumes "dj_complete_cancelled clk qclk i w f d = Inr (r, d')"
  shows "dj_evolves d d'"
proof -
  from assms obtain quota applied d1 where
    u: "dj_update (\<lambda>j. dj_held i w f j \<and> dj_cancel_requested_at j \<noteq> None) (dj_cancelled_row clk) d = Inr (applied, d1)"
    and rest: "d' = d1 \<or> release_quota_after_job_lock quota i False qclk d1 = Inr d'"
    by (auto simp: dj_complete_cancelled_def andThen_eq_Inr simp del: not_None_eq split: if_split_asm)
  show ?thesis by (rule update_release_evolves [OF u _ rest]) (blast intro: cancelled_rel)
qed

lemma renew_evolves: "dj_renew_lease clk i w f dur d = Inr (r, d') \<Longrightarrow> dj_evolves d d'"
  unfolding dj_renew_lease_def by (erule dj_update_evolves) (rule renewed_rel)

lemma release_evolves: "dj_release_to_queued clk i w f now d = Inr (r, d') \<Longrightarrow> dj_evolves d d'"
  unfolding dj_release_to_queued_def dj_transitions_simps andThen_Inr
  by (erule dj_update_evolves) (rule released_rel)

lemma retry_update_evolves:
  "dj_update (dj_live clk i w f) (\<lambda>j. (dj_requeued_row t s av j)\<lparr>dj_public_error_code := None\<rparr>) d = Inr (r, d') \<Longrightarrow>
     dj_evolves d d'"
  by (erule dj_update_evolves) (rule retried_rel)

lemma fail_retry_evolves: "dj_fail_retry clk qclk i w f now bo code d = Inr (r, d') \<Longrightarrow> dj_evolves d d'"
  unfolding dj_fail_retry_def dj_transitions_simps andThen_Inr
  by (auto split: option.split_asm if_split_asm
      intro: fail_permanent_evolves complete_cancelled_evolves retry_update_evolves)

lemma stored_found:
  assumes "downloads_wf d" and "find P (download_jobs d) = Some j"
  shows "dj_get_by_id (dj_id j) d = Some j \<and> download_job_ok j"
  using assms found_row [OF assms(2)] by (simp add: downloads_wf_def dj_get_by_id_def row_by_Some_iff)

lemma flush_found_evolves:
  assumes "dj_flush j' d = Inr d'" and "find P (download_jobs d) = Some j" and "dj_rel j j'"
  shows "dj_evolves d d'"
proof (cases "downloads_wf d")
  case True
  have "dj_id j' = dj_id j" using dj_rel_keys [OF assms(3)] by simp
  with dj_flush_evolves [OF assms(1), of j] stored_found [OF True assms(2)] assms(3) show ?thesis by simp
next
  case False
  then show ?thesis by (simp add: dj_evolves_def)
qed

lemma set_stage_evolves: "dj_set_progress_stage i w f s now d = Inr (r, d') \<Longrightarrow> dj_evolves d d'"
  unfolding dj_set_progress_stage_def
  by (auto simp: andThen_eq_Inr split: if_split_asm option.split_asm intro: flush_found_evolves stage_rel)

lemma set_percent_evolves: "dj_set_progress_percent clk i w f p now d = Inr (r, d') \<Longrightarrow> dj_evolves d d'"
  unfolding dj_set_progress_percent_def
  by (auto simp: andThen_eq_Inr split: if_split_asm option.split_asm intro: flush_found_evolves stage_rel)

lemma lease_status_evolves: "dj_lease_status clk rclk i w f dur d = Inr (r, d') \<Longrightarrow> dj_evolves d d'"
  unfolding dj_lease_status_def
  by (auto simp: andThen_eq_Inr split: if_split_asm option.split_asm prod.split_asm intro: renew_evolves)

lemma flush_loaded_evolves:
  assumes "dj_flush j' d = Inr d'" and "dj_get_by_id i d = Some j" and "dj_rel j j'"
  shows "dj_evolves d d'"
proof (rule dj_flush_evolves [OF assms(1)])
  have "dj_id j' = i" using dj_rel_keys [OF assms(3)] row_by_SomeD assms(2) by (fastforce simp: dj_get_by_id_def)
  with assms(2) show "dj_get_by_id (dj_id j') d = Some j" by simp
qed (rule assms(3))

lemma request_cancel_evolves:
  assumes "dj_request_cancel qclk i now d = Inr (r, d')"
  shows "dj_evolves d d'"
proof -
  from assms obtain quota where q: "lock_quota_identity_for_job i d = Inr quota"
    by (auto simp: dj_request_cancel_def andThen_eq_Inr)
  show ?thesis
  proof (cases "dj_get_by_id i d")
    case None
    with assms q show ?thesis by (simp add: dj_request_cancel_def)
  next
    case (Some j)
    consider (same) "d' = d"
      | (queued) d1 where "dj_public_state j = DJ_QUEUED"
          "dj_flush (apply_stored_cancel now (j\<lparr>dj_cancel_requested_at := Some now\<rparr>)) d = Inr d1"
          "release_quota_after_job_lock quota i False qclk d1 = Inr d'"
      | (running) "dj_public_state j = DJ_DOWNLOADING"
          "dj_flush (j\<lparr>dj_cancel_requested_at := Some now, dj_updated_at := now\<rparr>) d = Inr d'"
      using assms q Some by (auto simp: dj_request_cancel_def andThen_eq_Inr Let_def split: if_split_asm)
    then show ?thesis
    proof cases
      case queued
      have "dj_evolves d d1"
        by (rule flush_loaded_evolves [OF queued(2) Some stored_cancel_rel]) (simp add: queued)
      then show ?thesis
        using release_quota_jobs [OF queued(3)] dj_evolves_same dj_evolves_trans by blast
    next
      case running
      show ?thesis by (rule flush_loaded_evolves [OF running(2) Some cancel_mark_rel]) (rule running)
    qed simp
  qed
qed

subsection \<open>Reclaim\<close>

lemma reclaim_one_evolves:
  assumes "dj_reclaim_one locked rclk qclk now i (n, d) = Inr (n', d')"
  shows "dj_evolves d d'"
proof -
  from assms obtain quota where q: "lock_quota_identity_for_job i d = Inr quota"
    by (auto simp: dj_reclaim_one_def andThen_eq_Inr)
  let ?P = "\<lambda>j. dj_id j = i \<and> dj_reclaimable (rclk i) j \<and> \<not> locked i"
  show ?thesis
  proof (cases "find ?P (download_jobs d)")
    case None
    with assms q show ?thesis by (simp add: dj_reclaim_one_def)
  next
    case (Some j)
    have down: "dj_public_state j = DJ_DOWNLOADING"
      using found_row [OF Some] by (simp add: dj_reclaimable_def)
    have "\<exists>row d1. dj_flush row d = Inr d1 \<and> dj_rel j row \<and>
        (d' = d1 \<or> release_quota_after_job_lock quota i False (qclk i) d1 = Inr d')"
    proof (cases "dj_cancel_requested_at j = None")
      case True
      with assms q Some reclaimed_rel [OF down True, of now] show ?thesis
        by (auto simp: dj_reclaim_one_def andThen_eq_Inr Let_def split: if_split_asm)
    next
      case False
      with assms q Some reclaim_cancel_rel [OF down, of now] show ?thesis
        by (auto simp: dj_reclaim_one_def andThen_eq_Inr)
    qed
    then obtain row d1 where fl: "dj_flush row d = Inr d1" and rel: "dj_rel j row"
      and rest: "d' = d1 \<or> release_quota_after_job_lock quota i False (qclk i) d1 = Inr d'" by blast
    have "dj_evolves d d1" by (rule flush_found_evolves [OF fl Some rel])
    moreover have "dj_evolves d1 d'" using rest release_quota_jobs dj_evolves_same by blast
    ultimately show ?thesis by (rule dj_evolves_trans)
  qed
qed

lemma fold_evolves:
  assumes "fold_res step xs (a, d) = Inr (a', d')"
    and "\<And>x a d a' d'. step x (a, d) = Inr (a', d') \<Longrightarrow> dj_evolves d d'"
  shows "dj_evolves d d'"
proof -
  have "case (a', d') of (_, s) \<Rightarrow> dj_evolves d s"
    by (rule fold_res_invariant [OF assms(1)]) (use assms(2) dj_evolves_trans in \<open>auto split: prod.splits\<close>)
  then show ?thesis by simp
qed

lemma reclaim_evolves:
  "dj_reclaim_expired_leases locked clk rclk qclk now d = Inr (n, d') \<Longrightarrow> dj_evolves d d'"
  unfolding dj_reclaim_expired_leases_def by (erule fold_evolves) (rule reclaim_one_evolves)

subsection \<open>Expiry\<close>

lemma apply_expiredD:
  "apply_expired_job_fields j now arts = Inr (j', arts') \<Longrightarrow>
     j' = dj_expired_row now j \<and> dj_public_state j \<in> {DJ_QUEUED, DJ_DOWNLOADING, DJ_READY, DJ_FAILED, DJ_CANCELLED, DJ_EXPIRED} \<and>
     arts' = arts @ (case dj_artifact_id j of None \<Rightarrow> [] | Some a \<Rightarrow> [a])"
  by (cases "dj_public_state j") (auto simp: apply_expired_job_fields_def andThen_eq_Inr)

lemma flush_expired_evolves:
  assumes "dj_flush (dj_expired_row now j) d1 = Inr d2" and "find P (download_jobs d) = Some j"
    and "download_jobs d1 = download_jobs d"
  shows "dj_evolves d d2"
proof (cases "downloads_wf d")
  case True
  have "dj_public_state j \<noteq> DJ_CANCELLED"
    using stored_found [OF True assms(2)] by (simp add: download_job_ok_def)
  then have rel: "dj_rel j (dj_expired_row now j)" by (rule expired_rel)
  have "find P (download_jobs d1) = Some j" using assms(2,3) by simp
  then have "dj_evolves d1 d2" by (rule flush_found_evolves [OF assms(1) _ rel])
  then show ?thesis using dj_evolves_same [OF assms(3)] dj_evolves_trans by blast
next
  case False
  then show ?thesis by (simp add: dj_evolves_def)
qed

lemma expire_jobD:
  assumes "dj_expire_job now qnow j e arts d = Inr (arts', d')"
  obtains d1 d2 where
    "if dj_public_state j = DJ_READY then revoke_active_grants_locked (dj_id j) now d = Inr d1 else d1 = d"
    "dj_flush (dj_expired_row now j) d1 = Inr d2"
    "\<And>x. e = Some x \<Longrightarrow> qe_state x = Q_RESERVED \<Longrightarrow>
       \<exists>x'. release_locked x qnow True = Inr x' \<and> qe_flush x' d2 = Inr d'"
    "e = None \<or> qe_state (the e) \<noteq> Q_RESERVED \<Longrightarrow> d' = d2"
    "dj_public_state j \<noteq> DJ_CANCELLED \<Longrightarrow> arts' = arts @ (case dj_artifact_id j of None \<Rightarrow> [] | Some a \<Rightarrow> [a])"
proof -
  from assms obtain d1 row arts1 d2 where
    r: "(if dj_public_state j = DJ_READY then revoke_active_grants_locked (dj_id j) now d else Inr d) = Inr d1"
    and ap: "apply_expired_job_fields j now arts = Inr (row, arts1)"
    and fl: "dj_flush row d1 = Inr d2"
    and rest: "(case e of None \<Rightarrow> Inr (arts1, d2)
       | Some e \<Rightarrow> if qe_state e = Q_RESERVED
           then andThen (release_locked e qnow True) (\<lambda>e'. andThen (qe_flush e' d2) (\<lambda>d3. Inr (arts1, d3)))
           else Inr (arts1, d2)) = Inr (arts', d')"
    by (auto simp: dj_expire_job_def andThen_eq_Inr)
  note row = apply_expiredD [OF ap]
  show thesis
  proof (rule that)
    show "if dj_public_state j = DJ_READY then revoke_active_grants_locked (dj_id j) now d = Inr d1 else d1 = d"
      using r by (simp split: if_split_asm)
    show "dj_flush (dj_expired_row now j) d1 = Inr d2" using fl row by simp
    show "\<exists>x'. release_locked x qnow True = Inr x' \<and> qe_flush x' d2 = Inr d'"
      if "e = Some x" "qe_state x = Q_RESERVED" for x
      using rest that by (auto simp: andThen_eq_Inr)
    show "d' = d2" if "e = None \<or> qe_state (the e) \<noteq> Q_RESERVED"
      using rest that by (cases e) auto
    show "arts' = arts @ (case dj_artifact_id j of None \<Rightarrow> [] | Some a \<Rightarrow> [a])"
      using rest row by (cases e) (auto simp: andThen_eq_Inr split: if_split_asm)
  qed
qed

lemma expire_job_evolves:
  assumes "dj_expire_job now qnow j e arts d = Inr (arts', d')"
    and "find P (download_jobs d) = Some j"
  shows "dj_evolves d d'"
  using assms(1)
proof (rule expire_jobD)
  fix d1 d2
  assume r: "if dj_public_state j = DJ_READY then revoke_active_grants_locked (dj_id j) now d = Inr d1 else d1 = d"
    and fl: "dj_flush (dj_expired_row now j) d1 = Inr d2"
    and q: "\<And>x. e = Some x \<Longrightarrow> qe_state x = Q_RESERVED \<Longrightarrow>
       \<exists>x'. release_locked x qnow True = Inr x' \<and> qe_flush x' d2 = Inr d'"
    and s: "e = None \<or> qe_state (the e) \<noteq> Q_RESERVED \<Longrightarrow> d' = d2"
  have "download_jobs d1 = download_jobs d" using r revoke_jobs by (auto split: if_split_asm)
  then have "dj_evolves d d2" by (rule flush_expired_evolves [OF fl assms(2)])
  moreover have "download_jobs d' = download_jobs d2"
  proof (cases "e = None \<or> qe_state (the e) \<noteq> Q_RESERVED")
    case True
    with s show ?thesis by simp
  next
    case False
    then obtain x where "e = Some x" "qe_state x = Q_RESERVED" by (cases e) auto
    from q [OF this] qe_flush_jobs show ?thesis by blast
  qed
  ultimately show ?thesis using dj_evolves_same dj_evolves_trans by blast
qed

lemma quarantine_evolves:
  assumes "quarantine_ready_terminal_quota_locked j e now arts d = Inr (b, arts', d')"
    and "find P (download_jobs d) = Some j"
  shows "dj_evolves d d'"
proof (cases "has_live_attempt_locked e now d")
  case True
  with assms(1) show ?thesis by (simp add: quarantine_ready_terminal_quota_locked_def)
next
  case False
  with assms(1) obtain d1 where r: "revoke_active_grants_locked (dj_id j) now d = Inr d1"
    and fl: "dj_flush (dj_expired_row now j) d1 = Inr d'"
    by (auto simp: quarantine_ready_terminal_quota_locked_def andThen_eq_Inr dest!: apply_expiredD)
  show ?thesis by (rule flush_expired_evolves [OF fl assms(2) revoke_jobs [OF r]])
qed

text \<open>The ledger's writes leave the job table alone.\<close>

lemma dr_writes_jobs:
  "dr_flush r d = Inr d' \<Longrightarrow> download_jobs d' = download_jobs d"
  "dr_insert r d = Inr d' \<Longrightarrow> download_jobs d' = download_jobs d"
  "download_jobs (dr_delete i d) = download_jobs d"
  by (auto simp: dr_flush_def dr_insert_def dr_delete_def andThen_eq_Inr split: if_split_asm)

lemma fold_jobs:
  assumes "fold_res f xs d = Inr d'"
    and "\<And>x s t. f x s = Inr t \<Longrightarrow> download_jobs t = download_jobs s"
  shows "download_jobs d' = download_jobs d"
  by (rule fold_res_invariant [OF assms(1), where P = "\<lambda>s. download_jobs s = download_jobs d"])
     (use assms(2) in auto)

lemma close_stale_jobs:
  assumes "close_stale now rows d = Inr d'"
  shows "download_jobs d' = download_jobs d"
  by (rule fold_jobs [OF assms [unfolded close_stale_def]])
     (auto simp: close_one_def dr_writes_jobs split: if_split_asm)

lemma compact_closed_jobs:
  assumes "compact_closed fr i rows now d = Inr d'"
  shows "download_jobs d' = download_jobs d"
proof -
  have "download_jobs d' = download_jobs (d\<lparr>ranges := rs\<rparr>)"
    if "fold_res (\<lambda>(k, iv). dr_insert (compacted_row i t now (fr k) iv)) ys (d\<lparr>ranges := rs\<rparr>) = Inr d'" for ys t rs
    by (rule fold_jobs [OF that]) (auto simp: dr_writes_jobs split: prod.split_asm)
  with assms show ?thesis
    by (auto simp: compact_closed_def Let_def split: if_split_asm list.split_asm)
qed

lemma consume_if_complete_jobs:
  "consume_if_complete job e now d = Inr (r, e', d') \<Longrightarrow> download_jobs d' = download_jobs d"
  by (auto simp: consume_if_complete_def Let_def andThen_eq_Inr qe_flush_jobs split: if_split_asm)

lemma reconcile_jobs:
  assumes "reconcile_locked fr job e now d = Inr (r, d')"
  shows "download_jobs d' = download_jobs d"
proof -
  from assms obtain d1 d2 e' rows rows1 where "close_stale now rows d = Inr d1"
    "compact_closed fr (qe_id e) rows1 now d1 = Inr d2" "consume_if_complete job e now d2 = Inr (r, e', d')"
    by (auto simp: reconcile_locked_def Let_def andThen_eq_Inr)
  then show ?thesis
    using close_stale_jobs compact_closed_jobs consume_if_complete_jobs by metis
qed

text \<open>The branches of the loop body.\<close>

lemma expire_bodyD:
  assumes "dj_expire_body py locked rclk qclk fresh now i arts d = Inr (arts', d')"
  obtains (skipped) "d' = d" "arts' = arts"
  | (plain) j e where "find (\<lambda>j. dj_id j = i \<and> dj_due (rclk i) j \<and> \<not> locked i) (download_jobs d) = Some j"
      "dj_expire_job now (qclk i) j e arts d = Inr (arts', d')"
      "(case e of None \<Rightarrow> identity_id_for_download i d = None
        | Some x \<Rightarrow> lock_entry_for_download i d = Some x \<and>
            (dj_public_state j = DJ_READY \<longrightarrow> qe_state x \<noteq> Q_RESERVED))"
  | (quarantined) j x b where "find (\<lambda>j. dj_id j = i \<and> dj_due (rclk i) j \<and> \<not> locked i) (download_jobs d) = Some j"
      "lock_entry_for_download i d = Some x" "qe_state x \<in> {Q_RELEASED, Q_EXPIRED}"
      "quarantine_ready_terminal_quota_locked j x now arts d = Inr (b, arts', d')"
  | (reconciled) j x r d1 where "find (\<lambda>j. dj_id j = i \<and> dj_due (rclk i) j \<and> \<not> locked i) (download_jobs d) = Some j"
      "lock_entry_for_download i d = Some x" "qe_state x = Q_RESERVED" "dj_public_state j = DJ_READY"
      "reconcile_locked (fresh i) j x now d = Inr (r, d1)"
      "(d' = d1 \<and> arts' = arts) \<or> (\<exists>x1. lock_entry_for_download i d1 = Some x1 \<and>
         dj_expire_job now (qclk i) j (Some x1) arts d1 = Inr (arts', d'))"
proof -
  let ?P = "\<lambda>j. dj_id j = i \<and> dj_due (rclk i) j \<and> \<not> locked i"
  from assms obtain quota where q: "lock_quota_identity_for_job i d = Inr quota"
    by (auto simp: dj_expire_body_def andThen_eq_Inr)
  show thesis
  proof (cases "find ?P (download_jobs d)")
    case None
    with assms q skipped show thesis by (simp add: dj_expire_body_def)
  next
    case (Some j)
    note body = assms [unfolded dj_expire_body_def q andThen_Inr Some option.case]
    show thesis
    proof (cases quota)
      case None
      then have "identity_id_for_download i d = None"
        using q by (auto simp: lock_quota_identity_for_job_def split: option.split_asm)
      with body None Some plain [of j None] show thesis by simp
    next
      case (Some cl)
      then obtain x where x: "lock_entry_for_download i d = Some x"
        using q by (auto simp: lock_quota_identity_for_job_def identity_id_for_download_def
            lock_entry_for_download_def split: option.split_asm)
      note body' = body [unfolded Some x option.case]
      consider (coherent) "dj_public_state j = DJ_READY" "qe_state x = Q_RELEASED"
          "is_coherent_promoted_premium_job py j (Some (qe_anonymous_client_id x))"
        | (terminal) "dj_public_state j = DJ_READY" "qe_state x \<in> {Q_RELEASED, Q_EXPIRED}"
          "\<not> (qe_state x = Q_RELEASED \<and> is_coherent_promoted_premium_job py j (Some (qe_anonymous_client_id x)))"
        | (reserved) "dj_public_state j = DJ_READY" "qe_state x = Q_RESERVED"
        | (other) "dj_public_state j \<noteq> DJ_READY \<or> qe_state x = Q_CONSUMED"
        by (cases "qe_state x") auto
      then show thesis
      proof cases
        case coherent
        then have st: "qe_state x \<noteq> Q_RESERVED" by simp
        have "(d' = d \<and> arts' = arts) \<or> dj_expire_job now (qclk i) j (Some x) arts d = Inr (arts', d')"
          using body' coherent by (simp split: if_split_asm)
        then show thesis
        proof
          assume "d' = d \<and> arts' = arts"
          then show thesis using skipped by simp
        next
          assume "dj_expire_job now (qclk i) j (Some x) arts d = Inr (arts', d')"
          with plain [of j "Some x"] st x \<open>find ?P (download_jobs d) = Some j\<close> show thesis by simp
        qed
      next
        case terminal
        with body' obtain b where "quarantine_ready_terminal_quota_locked j x now arts d = Inr (b, arts', d')"
          by (auto simp: andThen_eq_Inr)
        with quarantined [of j x b] terminal x \<open>find ?P (download_jobs d) = Some j\<close> show thesis by blast
      next
        case reserved
        with body' obtain r d1 where rec: "reconcile_locked (fresh i) j x now d = Inr (r, d1)"
          and rest: "(case lock_entry_for_download i d1 of
                        None \<Rightarrow> Inr (arts, d1)
                      | Some entry1 \<Rightarrow>
                          if qe_state entry1 = Q_RESERVED \<and> has_live_attempt_locked entry1 now d1
                          then Inr (arts, d1)
                          else dj_expire_job now (qclk i) j (Some entry1) arts d1) = Inr (arts', d')"
          by (auto simp: andThen_eq_Inr)
        have "(d' = d1 \<and> arts' = arts) \<or> (\<exists>x1. lock_entry_for_download i d1 = Some x1 \<and>
            dj_expire_job now (qclk i) j (Some x1) arts d1 = Inr (arts', d'))"
          using rest by (auto split: option.split_asm if_split_asm)
        with reconciled [of j x r d1] reserved x rec \<open>find ?P (download_jobs d) = Some j\<close> show thesis by blast
      next
        case other
        then have "dj_expire_job now (qclk i) j (Some x) arts d = Inr (arts', d')"
          using body' by auto
        with plain [of j "Some x"] other x \<open>find ?P (download_jobs d) = Some j\<close> show thesis by auto
      qed
    qed
  qed
qed

lemma expire_body_evolves:
  assumes "dj_expire_body py locked rclk qclk fresh now i arts d = Inr (arts', d')"
  shows "dj_evolves d d'"
  using assms
proof (cases rule: expire_bodyD)
  case (plain j e)
  then show ?thesis using expire_job_evolves by blast
next
  case (quarantined j x b)
  then show ?thesis using quarantine_evolves by blast
next
  case (reconciled j x r d1)
  then have same: "download_jobs d1 = download_jobs d" using reconcile_jobs by blast
  show ?thesis
  proof (cases "d' = d1")
    case True
    then show ?thesis using same by (simp add: dj_evolves_same)
  next
    case False
    with reconciled obtain x1 where "dj_expire_job now (qclk i) j (Some x1) arts d1 = Inr (arts', d')" by blast
    with expire_job_evolves reconciled(1) same have "dj_evolves d1 d'" by metis
    then show ?thesis using dj_evolves_same [OF same] dj_evolves_trans by blast
  qed
qed simp

lemma expire_oneD:
  assumes "dj_expire_one py locked rclk qclk fresh now i (arts, d) = Inr (arts', d')"
  shows "(d' = d \<and> arts' = arts) \<or> dj_expire_body py locked rclk qclk fresh now i arts d = Inr (arts', d')"
  using assms by (auto simp: dj_expire_one_def split: sum.split_asm error.split_asm)

lemma expire_one_evolves:
  "dj_expire_one py locked rclk qclk fresh now i (arts, d) = Inr (arts', d') \<Longrightarrow> dj_evolves d d'"
  using expire_oneD expire_body_evolves dj_evolves_refl by metis

lemma expire_evolves:
  "dj_expire_due_jobs py locked clk rclk qclk fresh now d = Inr (arts, d') \<Longrightarrow> dj_evolves d d'"
  unfolding dj_expire_due_jobs_def
  by (erule fold_evolves) (rule expire_one_evolves)

end
