(* ===== verification/Download_Promotion.thy ===== *)
theory Download_Promotion
  imports Download_Lifecycle Tokens Media_Jobs
begin

text \<open>
  \<open>DownloadPremiumUpgradeService\<close> (\<open>downloads/promote.py\<close>): a ready Free video is promoted to
  Premium. The quota entry is settled by what was delivered, the policy snapshot is replaced and
  bound to the client, and the grants issued under the Free policy are revoked. \<open>now\<close> is
  \<open>quota.database_now()\<close>, \<open>pclk\<close> the clock the Premium service reads.
\<close>

section \<open>The ledger of the job\<close>

abbreviation incoherent :: "string \<Rightarrow> error" where
  "incoherent reason \<equiv> DownloadError QUOTA_STATE_INCOHERENT reason"

text \<open>\<open>_close_stale_leases\<close> is the loop of \<open>DeliveryQuotaAccounting._close_stale\<close>.\<close>

definition upgrade_close_stale :: "time \<Rightarrow> delivery_range list \<Rightarrow> db \<Rightarrow> db res" where
  "upgrade_close_stale now rows d =
     fold_res (\<lambda>r d.
       if dr_state r \<noteq> R_ACTIVE then Inr d
       else if opt_gt (dr_lease_expires_at r) now then Inr d
       else if dr_served_end_exclusive r = dr_request_start r then Inr (dr_delete (dr_id r) d)
       else dr_flush (r\<lparr>dr_request_end_exclusive := dr_served_end_exclusive r, dr_state := R_CLOSED,
                        dr_lease_expires_at := None, dr_closed_at := Some now\<rparr>) d) rows d"

definition upgrade_assert_generation :: "delivery_range list \<Rightarrow> download_job \<Rightarrow> unit res" where
  "upgrade_assert_generation rows job =
     (if list_all (\<lambda>r. dj_artifact_id job = Some (dr_artifact_id r) \<and>
                       dr_fence_token r = dj_fence_token job \<and> dr_artifact_bytes r = artifact_size job) rows
      then Inr () else Inl (incoherent ''LEDGER_GENERATION_MISMATCH''))"

definition apply_quota_rule :: "quota_entry \<Rightarrow> bool \<Rightarrow> time \<Rightarrow> db \<Rightarrow> db res" where
  "apply_quota_rule entry complete_coverage now d =
     (case qe_state entry of
        Q_CONSUMED \<Rightarrow> Inr d
      | Q_RELEASED \<Rightarrow> Inl (incoherent ''FREE_TERMINAL_QUOTA'')
      | Q_EXPIRED \<Rightarrow> Inl (incoherent ''FREE_TERMINAL_QUOTA'')
      | Q_RESERVED \<Rightarrow>
          andThen (if complete_coverage then consume_locked entry now else release_locked entry now False)
            (\<lambda>e. qe_flush e d))"

definition upgrade_quota :: "uuid \<Rightarrow> quota_entry \<Rightarrow> download_job \<Rightarrow> time \<Rightarrow> db \<Rightarrow> db res" where
  "upgrade_quota client_id entry job now d =
     (if qe_anonymous_client_id entry \<noteq> client_id
      then Inl (DownloadError DOWNLOAD_JOB_NOT_FOUND ''QUOTA_IDENTITY_MISMATCH'')
      else
        andThen (upgrade_close_stale now (lock_ranges (qe_id entry) d) d) (\<lambda>d1.
          let rows = lock_ranges (qe_id entry) d1
          in if list_ex (\<lambda>r. dr_state r = R_ACTIVE \<and> opt_gt (dr_lease_expires_at r) now) rows
             then Inl (DownloadError DELIVERY_IN_PROGRESS ''ACTIVE_DELIVERY_LEASE'')
             else andThen (upgrade_assert_generation rows job) (\<lambda>_.
                    apply_quota_rule entry (closed_intervals rows = [(0, artifact_size job)]) now d1)))"

section \<open>Guards and decoding\<close>

definition upgrade_guards :: "download_job \<Rightarrow> time \<Rightarrow> unit res" where
  "upgrade_guards job now =
     (if dj_expires_at job \<le> now then Inl (DownloadError DOWNLOAD_EXPIRED ''JOB_EXPIRED'')
      else if dj_public_state job \<noteq> DJ_READY then Inl (DownloadError DOWNLOAD_NOT_READY ''NOT_READY'')
      else if dj_artifact_id job = None \<or> dj_artifact_bytes job = None \<or> artifact_size job \<le> 0 \<or>
              dj_fence_token job < 1
      then Inl (DownloadError DOWNLOAD_NOT_READY ''ARTIFACT_INCOHERENT'')
      else Inr ())"

text \<open>Both decodings catch every exception. The column holds a JSON object.\<close>

definition upgrade_format :: "pylib \<Rightarrow> download_job \<Rightarrow> MediaFormat res" where
  "upgrade_format py job =
     (case dj_selected_format_snapshot job of
        JObj obj \<Rightarrow>
          (case decode_selected_format_snapshot py 4096 (JObj (strip_effective_policy_snapshot obj))
                  (dj_format_option_id job) of
             Inl _ \<Rightarrow> Inl (unavailable ''FORMAT_SNAPSHOT_INVALID'')
           | Inr f \<Rightarrow>
               if mf_media_kind f \<noteq> NORMAL_VIDEO
               then Inl (DownloadError MEDIA_CAPABILITY_UNAVAILABLE ''MEDIA_KIND_INELIGIBLE'')
               else Inr f)
      | _ \<Rightarrow> Inl (unavailable ''FORMAT_SNAPSHOT_INVALID''))"

definition upgrade_policy :: "pylib \<Rightarrow> download_job \<Rightarrow> EffectiveDownloadPolicy res" where
  "upgrade_policy py job =
     (case decode_effective_policy_snapshot py (dj_selected_format_snapshot job) of
        Inl _ \<Rightarrow> Inl (unavailable ''POLICY_SNAPSHOT_INVALID'')
      | Inr None \<Rightarrow> Inl (unavailable ''POLICY_SNAPSHOT_MISSING'')
      | Inr (Some policy) \<Rightarrow> Inr policy)"

definition format_only :: "download_job \<Rightarrow> (string \<times> json) list" where
  "format_only job = (case dj_selected_format_snapshot job of
     JObj obj \<Rightarrow> strip_effective_policy_snapshot obj | _ \<Rightarrow> [])"

section \<open>The transition\<close>

text \<open>The Free to Premium transition of a checked job.\<close>

definition promote ::
  "pylib \<Rightarrow> Settings \<Rightarrow> bool \<Rightarrow> time \<Rightarrow> time \<Rightarrow> uuid \<Rightarrow> download_job \<Rightarrow> db \<Rightarrow> ((download_job \<times> bool) \<times> db) res" where
  "promote py s quota_enabled now pclk client_id job d =
     (let cap = fst (status_for_client pclk client_id d)
      in if \<not> pc_is_premium cap \<or> \<not> opt_gt (pc_premium_expires_at cap) now
         then Inl (DownloadError MEDIA_CAPABILITY_REQUIRES_PREMIUM ''PREMIUM_INACTIVE'')
         else
           andThen (case lock_entry_for_download (dj_id job) d of
                      None \<Rightarrow> if quota_enabled then Inl (incoherent ''QUOTA_ENTRY_MISSING'') else Inr d
                    | Some entry \<Rightarrow> upgrade_quota client_id entry job now d) (\<lambda>d1.
           andThen (effective_download_policy s (Some cap)) (\<lambda>premium_policy.
           andThen (attach_effective_policy_snapshot py (format_only job) premium_policy (Some client_id)) (\<lambda>snapshot.
             let job' = job\<lparr>dj_selected_format_snapshot := JObj snapshot, dj_updated_at := now\<rparr>
             in andThen (revoke_grants (list_active_for_job (dj_id job) now d1) now d1) (\<lambda>d2.
                andThen (dj_flush job' d2) (\<lambda>d3. Inr ((job', True), d3)))))))"

definition upgrade ::
  "pylib \<Rightarrow> (bytes \<Rightarrow> bytes) \<Rightarrow> Settings \<Rightarrow> bool \<Rightarrow> time \<Rightarrow> time \<Rightarrow> uuid \<Rightarrow> string \<Rightarrow> uuid \<Rightarrow> db \<Rightarrow>
     ((download_job \<times> bool) \<times> db) res" where
  "upgrade py sha s quota_enabled now pclk download_job_id access_token client_id d =
     andThen (hash_access_token sha access_token) (\<lambda>credential_hash.
     (case lock_client client_id (Some now) d of
        None \<Rightarrow> Inl (DownloadError DOWNLOAD_JOB_NOT_FOUND ''IDENTITY_INACTIVE'')
      | Some _ \<Rightarrow>
     (case lock_download_job download_job_id d of
        None \<Rightarrow> Inl (DownloadError DOWNLOAD_JOB_NOT_FOUND ''MISSING'')
      | Some job \<Rightarrow>
     (case mj_get_by_id (dj_media_job_id job) d of
        None \<Rightarrow> Inl (DownloadError DOWNLOAD_JOB_NOT_FOUND ''UNAUTHORIZED'')
      | Some parent \<Rightarrow>
          if \<not> tokens_match (mj_credential_hash parent) credential_hash
          then Inl (DownloadError DOWNLOAD_JOB_NOT_FOUND ''UNAUTHORIZED'')
          else
            andThen (upgrade_guards job now) (\<lambda>_.
            andThen (upgrade_format py job) (\<lambda>_.
            andThen (upgrade_policy py job) (\<lambda>stored_policy.
            andThen (decode_authorized_identity_id py (dj_selected_format_snapshot job)) (\<lambda>authorized_identity.
              if edp_tier stored_policy = ''premium''
              then (if authorized_identity \<noteq> Some client_id
                    then Inl (DownloadError DOWNLOAD_JOB_NOT_FOUND ''PREMIUM_IDENTITY_MISMATCH'')
                    else Inr ((job, False), d))
              else if edp_tier stored_policy \<noteq> ''free''
              then Inl (unavailable ''POLICY_TIER_UNKNOWN'')
              else promote py s quota_enabled now pclk client_id job d))))))))"

section \<open>What settling the quota does\<close>

lemma upgrade_close_stale_eq: "upgrade_close_stale now rows d = close_stale now rows d"
proof -
  have "(\<lambda>r d. if dr_state r \<noteq> R_ACTIVE then Inr d
       else if opt_gt (dr_lease_expires_at r) now then Inr d
       else if dr_served_end_exclusive r = dr_request_start r then Inr (dr_delete (dr_id r) d)
       else dr_flush (r\<lparr>dr_request_end_exclusive := dr_served_end_exclusive r, dr_state := R_CLOSED,
                        dr_lease_expires_at := None, dr_closed_at := Some now\<rparr>) d) = close_one now"
    by (intro ext) (auto simp: close_one_def stale_def closed_at_prefix_def)
  then show ?thesis by (simp add: upgrade_close_stale_def close_stale_def)
qed

lemma apply_quota_ruleD:
  assumes "apply_quota_rule e full now d = Inr d'"
  shows "(qe_state e = Q_CONSUMED \<and> d' = d) \<or>
     (qe_state e = Q_RESERVED \<and> (\<exists>e'. qe_flush e' d = Inr d' \<and> qe_id e' = qe_id e \<and>
        qe_download_job_id e' = qe_download_job_id e \<and> qe_anonymous_client_id e' = qe_anonymous_client_id e \<and>
        qe_state e' = (if full then Q_CONSUMED else Q_RELEASED)))"
proof (cases "qe_state e")
  case Q_RESERVED
  then obtain e' where e': "(if full then consume_locked e now else release_locked e now False) = Inr e'"
    and fl: "qe_flush e' d = Inr d'"
    using assms by (auto simp: apply_quota_rule_def andThen_eq_Inr)
  have "qe_id e' = qe_id e \<and> qe_download_job_id e' = qe_download_job_id e \<and>
      qe_anonymous_client_id e' = qe_anonymous_client_id e \<and> qe_state e' = (if full then Q_CONSUMED else Q_RELEASED)"
    using e' Q_RESERVED by (auto simp: consume_locked_def release_locked_def split: if_splits)
  with fl Q_RESERVED show ?thesis by blast
qed (use assms in \<open>simp_all add: apply_quota_rule_def\<close>)

text \<open>
  The entry after the upgrade, by what the ledger proves: a Free download that was delivered in
  full stays paid for, one that was not is given back.
\<close>

definition settled_state :: "quota_entry \<Rightarrow> download_job \<Rightarrow> db \<Rightarrow> quota_state" where
  "settled_state e job d =
     (if qe_state e = Q_CONSUMED \<or> covered (qe_id e) d = {0..<artifact_size job}
      then Q_CONSUMED else Q_RELEASED)"

lemma upgrade_quota_settles:
  assumes "upgrade_quota c e job now d = Inr d'" and "ledger_wf d" and "0 < artifact_size job"
    and "row_by qe_id (qe_id e) (quota_entries d) = Some e"
  shows "qe_anonymous_client_id e = c \<and> qe_state e \<in> {Q_RESERVED, Q_CONSUMED} \<and>
     \<not> has_live_attempt_locked e now d' \<and> (\<forall>i. covered i d' = covered i d) \<and>
     download_jobs d' = download_jobs d \<and> grants d' = grants d \<and> media_jobs d' = media_jobs d \<and>
     clients d' = clients d \<and>
     (\<exists>e'. row_by qe_id (qe_id e) (quota_entries d') = Some e' \<and> qe_state e' = settled_state e job d \<and>
           qe_download_job_id e' = qe_download_job_id e \<and> qe_anonymous_client_id e' = c)"
proof -
  have wf: "ranges_wf d" using assms(2) by (simp add: ledger_wf_def)
  have client: "qe_anonymous_client_id e = c"
    using assms(1) by (simp add: upgrade_quota_def split: if_split_asm)
  from assms(1) client obtain d1 where c: "close_stale now (lock_ranges (qe_id e) d) d = Inr d1"
    and idle: "\<not> list_ex (\<lambda>r. dr_state r = R_ACTIVE \<and> opt_gt (dr_lease_expires_at r) now) (lock_ranges (qe_id e) d1)"
    and rule: "apply_quota_rule e (closed_intervals (lock_ranges (qe_id e) d1) = [(0, artifact_size job)]) now d1 = Inr d'"
    by (auto simp: upgrade_quota_def upgrade_close_stale_eq andThen_eq_Inr Let_def split: if_split_asm)
  have k: "keeps_evidence d d1"
    using close_lock_keeps [of now "\<lambda>_. True" "qe_id e" d d1] c wf by simp
  then have ro: "ranges_only d d1" and cov: "\<And>i. covered i d1 = covered i d"
    by (simp_all add: keeps_evidence_def)
  have tabs: "quota_entries d1 = quota_entries d" "download_jobs d1 = download_jobs d" "clients d1 = clients d"
    using ranges_only_tables [OF ro] by simp_all
  have tabs': "grants d1 = grants d" "media_jobs d1 = media_jobs d"
    using arg_cong [OF ro [unfolded ranges_only_def], of grants]
      arg_cong [OF ro [unfolded ranges_only_def], of media_jobs] by simp_all
  have full: "closed_intervals (lock_ranges (qe_id e) d1) = [(0, artifact_size job)] \<longleftrightarrow>
      covered (qe_id e) d = {0..<artifact_size job}"
    using coverage_complete_iff [OF assms(3)] cov by simp
  have row: "row_by qe_id (qe_id e) (quota_entries d1) = Some e" using assms(4) tabs by simp
  from apply_quota_ruleD [OF rule] show ?thesis
  proof (elim disjE conjE exE)
    assume "qe_state e = Q_CONSUMED" "d' = d1"
    with row idle cov tabs tabs' client show ?thesis
      by (simp add: settled_state_def has_live_attempt_locked_def)
  next
    fix e' assume st: "qe_state e = Q_RESERVED" and fl: "qe_flush e' d1 = Inr d'"
      and e': "qe_id e' = qe_id e" "qe_download_job_id e' = qe_download_job_id e"
        "qe_anonymous_client_id e' = qe_anonymous_client_id e"
        "qe_state e' = (if closed_intervals (lock_ranges (qe_id e) d1) = [(0, artifact_size job)]
           then Q_CONSUMED else Q_RELEASED)"
    have d': "d' = d1\<lparr>quota_entries := put_row qe_id e' (quota_entries d1)\<rparr>"
      using fl by (simp add: qe_flush_Inr)
    have cov': "covered i d' = covered i d" for i
      using covered_ranges [of d' d1 i] cov by (simp add: d')
    have "lock_ranges (qe_id e) d' = lock_ranges (qe_id e) d1" by (simp add: d' lock_ranges_def)
    then have "\<not> has_live_attempt_locked e now d'" using idle by (simp add: has_live_attempt_locked_def)
    moreover have "row_by qe_id (qe_id e) (quota_entries d') = Some e'" using row e'(1) by (simp add: d')
    moreover have "qe_state e' = settled_state e job d"
      using e'(4) full st by (simp add: settled_state_def)
    ultimately show ?thesis using st cov' tabs tabs' e' client by (simp add: d')
  qed
qed

section \<open>What a promotion does\<close>

lemma promoteD:
  assumes "promote py s q now pclk c job d = Inr ((job', b), d')"
  obtains d1 d2 pol snap where "b"
    "case lock_entry_for_download (dj_id job) d of
       None \<Rightarrow> \<not> q \<and> d1 = d | Some e \<Rightarrow> upgrade_quota c e job now d = Inr d1"
    "edp_tier pol = ''premium''" "opt_gt (edp_premium_expires_at pol) now"
    "attach_effective_policy_snapshot py (format_only job) pol (Some c) = Inr snap"
    "job' = job\<lparr>dj_selected_format_snapshot := JObj snap, dj_updated_at := now\<rparr>"
    "revoke_grants (list_active_for_job (dj_id job) now d1) now d1 = Inr d2" "dj_flush job' d2 = Inr d'"
proof -
  let ?cap = "fst (status_for_client pclk c d)"
  from assms have prem: "pc_is_premium ?cap" "opt_gt (pc_premium_expires_at ?cap) now"
    by (auto simp: promote_def Let_def split: if_split_asm)
  from assms prem obtain d1 pol snap d2 where
    q: "(case lock_entry_for_download (dj_id job) d of
          None \<Rightarrow> if q then Inl (incoherent ''QUOTA_ENTRY_MISSING'') else Inr d
        | Some entry \<Rightarrow> upgrade_quota c entry job now d) = Inr d1"
    and pol: "effective_download_policy s (Some ?cap) = Inr pol"
    and snap: "attach_effective_policy_snapshot py (format_only job) pol (Some c) = Inr snap"
    and rev: "revoke_grants (list_active_for_job (dj_id job) now d1) now d1 = Inr d2"
    and fl: "dj_flush (job\<lparr>dj_selected_format_snapshot := JObj snap, dj_updated_at := now\<rparr>) d2 = Inr d'"
    and res: "b" "job' = job\<lparr>dj_selected_format_snapshot := JObj snap, dj_updated_at := now\<rparr>"
    by (auto simp: promote_def Let_def andThen_eq_Inr)
  have "edp_tier pol = ''premium''" "opt_gt (edp_premium_expires_at pol) now"
    using pol prem by (auto simp: effective_download_policy_def split: option.splits)
  moreover have "case lock_entry_for_download (dj_id job) d of
       None \<Rightarrow> \<not> q \<and> d1 = d | Some e \<Rightarrow> upgrade_quota c e job now d = Inr d1"
    using q by (auto split: option.splits if_splits)
  ultimately show ?thesis using that res snap rev fl by blast
qed

lemma upgradeD:
  assumes "upgrade py sha s q now pclk i tok c d = Inr ((job', b), d')"
  obtains h job parent f pol ident where "hash_access_token sha tok = Inr h"
    "lock_client c (Some now) d \<noteq> None" "lock_download_job i d = Some job"
    "mj_get_by_id (dj_media_job_id job) d = Some parent" "tokens_match (mj_credential_hash parent) h"
    "upgrade_guards job now = Inr ()" "upgrade_format py job = Inr f" "upgrade_policy py job = Inr pol"
    "decode_authorized_identity_id py (dj_selected_format_snapshot job) = Inr ident"
    "(edp_tier pol = ''premium'' \<and> ident = Some c \<and> job' = job \<and> \<not> b \<and> d' = d) \<or>
     (edp_tier pol = ''free'' \<and> promote py s q now pclk c job d = Inr ((job', b), d'))"
proof -
  from assms obtain h cl job parent where a: "hash_access_token sha tok = Inr h"
    "lock_client c (Some now) d = Some cl" "lock_download_job i d = Some job"
    "mj_get_by_id (dj_media_job_id job) d = Some parent" "tokens_match (mj_credential_hash parent) h"
    by (auto simp: upgrade_def andThen_eq_Inr split: option.split_asm if_split_asm)
  with assms obtain f pol ident where b: "upgrade_guards job now = Inr ()" "upgrade_format py job = Inr f"
    "upgrade_policy py job = Inr pol" "decode_authorized_identity_id py (dj_selected_format_snapshot job) = Inr ident"
    "(if edp_tier pol = ''premium''
      then (if ident \<noteq> Some c then Inl (DownloadError DOWNLOAD_JOB_NOT_FOUND ''PREMIUM_IDENTITY_MISMATCH'')
            else Inr ((job, False), d))
      else if edp_tier pol \<noteq> ''free'' then Inl (unavailable ''POLICY_TIER_UNKNOWN'')
      else promote py s q now pclk c job d) = Inr ((job', b), d')"
    by (auto simp: upgrade_def andThen_eq_Inr)
  have "(edp_tier pol = ''premium'' \<and> ident = Some c \<and> job' = job \<and> \<not> b \<and> d' = d) \<or>
     (edp_tier pol = ''free'' \<and> promote py s q now pclk c job d = Inr ((job', b), d'))"
    using b(5) by (cases "edp_tier pol = ''premium''") (simp_all split: if_split_asm)
  then show ?thesis using that [OF a(1) _ a(3-5) b(1-4)] a(2) by simp
qed

text \<open>The promoted row differs from the stored one in the policy part of its snapshot only.\<close>

lemma strip_idem: "strip_effective_policy_snapshot (strip_effective_policy_snapshot obj) = strip_effective_policy_snapshot obj"
  by (simp add: strip_effective_policy_snapshot_def)

lemma attach_strips:
  "attach_effective_policy_snapshot py obj p c = Inr snap \<Longrightarrow>
     strip_effective_policy_snapshot snap = strip_effective_policy_snapshot obj"
  by (auto simp: attach_effective_policy_snapshot_def Let_def andThen_eq_Inr strip_jset split: if_splits)

lemma upgrade_format_obj:
  "upgrade_format py job = Inr f \<Longrightarrow> \<exists>obj. dj_selected_format_snapshot job = JObj obj"
  by (auto simp: upgrade_format_def split: json.splits)

lemma promoted_rel:
  assumes "dj_selected_format_snapshot job = JObj obj"
    and "attach_effective_policy_snapshot py (format_only job) p c = Inr snap"
  shows "dj_rel job (job\<lparr>dj_selected_format_snapshot := JObj snap, dj_updated_at := now\<rparr>)"
  using attach_strips [OF assms(2)] assms(1)
  by (simp add: dj_rel_defs format_part_def format_only_def strip_idem)

lemma revoke_all:
  assumes "revoke_grants (list_active_for_job i now d) now d = Inr d'" and "grants_wf d"
  shows "d' = d\<lparr>grants := grants d'\<rparr>" "grants_wf d'" "list_active_for_job i now d' = []"
proof -
  obtain d1 where d1: "revoke_grants (list_active_for_job i now d) now d = Inr d1" "grants_wf d1"
    "d1 = d\<lparr>grants := grants d1\<rparr>"
    "\<forall>g \<in> set (grants d1). gr_download_job_id g = i \<longrightarrow> gr_expires_at g > now \<longrightarrow> gr_revoked_at g \<noteq> None"
    using revoke_active_total [OF assms(2), of i now] by (elim exE conjE)
  have eq: "d1 = d'" using d1(1) assms(1) by simp
  have "filter (grant_active i now) (grants d') = []"
    using d1(4) eq by (auto simp: filter_empty_conv grant_active_def)
  then show "list_active_for_job i now d' = []" by (simp add: list_active_for_job_def order_by_def)
  show "grants_wf d'" "d' = d\<lparr>grants := grants d'\<rparr>" using d1(2,3) unfolding eq .
qed

text \<open>C13. Promoting a ready Free video settles its quota by what was delivered and moves it to
  Premium as a whole: an entry that was reserved is consumed when every byte had been served and
  released otherwise, the evidence is kept and no delivery is in progress; the stored job keeps
  its artifact and format, its policy reads back as an unexpired Premium policy bound to this
  client, and no grant of the job is left active.\<close>

theorem upgrade_settles_and_binds:
  assumes "pylib_laws py" and "ledger_wf d" and "grants_wf d"
    and up: "upgrade py sha s q now pclk i tok c d = Inr ((job', True), d')"
    and "lock_entry_for_download i d = Some e"
  shows "\<exists>job e' pol. dj_get_by_id i d = Some job \<and> dj_get_by_id i d' = Some job' \<and>
     dj_rel job job' \<and> same_artifact job job' \<and>
     row_by qe_id (qe_id e) (quota_entries d') = Some e' \<and> qe_state e' = settled_state e job d \<and>
     qe_anonymous_client_id e' = c \<and> \<not> has_live_attempt_locked e now d' \<and>
     (\<forall>k. covered k d' = covered k d) \<and>
     decode_effective_policy_snapshot py (dj_selected_format_snapshot job') = Inr (Some pol) \<and>
     edp_tier pol = ''premium'' \<and> opt_gt (edp_premium_expires_at pol) now \<and>
     is_coherent_promoted_premium_job py job' (Some c) \<and> list_active_for_job i now d' = []"
  using up
proof (rule upgradeD)
  fix h job parent f pol ident
  assume job: "lock_download_job i d = Some job" and guards: "upgrade_guards job now = Inr ()"
    and fmt: "upgrade_format py job = Inr f"
    and or: "(edp_tier pol = ''premium'' \<and> ident = Some c \<and> job' = job \<and> \<not> True \<and> d' = d) \<or>
       (edp_tier pol = ''free'' \<and> promote py s q now pclk c job d = Inr ((job', True), d'))"
  from or have pr: "promote py s q now pclk c job d = Inr ((job', True), d')" by simp
  have id: "dj_id job = i" using row_by_SomeD [OF job [unfolded lock_download_job_def]] by simp
  from pr show ?thesis
  proof (rule promoteD)
    fix d1 d2 pol' snap
    assume q: "case lock_entry_for_download (dj_id job) d of
         None \<Rightarrow> \<not> q \<and> d1 = d | Some e \<Rightarrow> upgrade_quota c e job now d = Inr d1"
      and prem: "edp_tier pol' = ''premium''" "opt_gt (edp_premium_expires_at pol') now"
      and snap: "attach_effective_policy_snapshot py (format_only job) pol' (Some c) = Inr snap"
      and job': "job' = job\<lparr>dj_selected_format_snapshot := JObj snap, dj_updated_at := now\<rparr>"
      and rev: "revoke_grants (list_active_for_job (dj_id job) now d1) now d1 = Inr d2"
      and fl: "dj_flush job' d2 = Inr d'"
    have uq: "upgrade_quota c e job now d = Inr d1" using q assms(5) id by simp
    have sz: "0 < artifact_size job" using guards by (auto simp: upgrade_guards_def split: if_split_asm)
    have row: "row_by qe_id (qe_id e) (quota_entries d) = Some e"
      using entry_by_id assms(2,5) by (simp add: ledger_wf_def)
    note st = upgrade_quota_settles [OF uq assms(2) sz row]
    then obtain e' where e': "row_by qe_id (qe_id e) (quota_entries d1) = Some e'"
      "qe_state e' = settled_state e job d" "qe_anonymous_client_id e' = c" by blast
    have "grants_wf d1" using assms(3) st by (simp add: grants_wf_def)
    note rv = revoke_all [OF rev this]
    have d2: "quota_entries d2 = quota_entries d1" "ranges d2 = ranges d1" "download_jobs d2 = download_jobs d1"
      using arg_cong [OF rv(1), of quota_entries] arg_cong [OF rv(1), of ranges]
        arg_cong [OF rv(1), of download_jobs] by simp_all
    have d': "d' = d2\<lparr>download_jobs := put_row dj_id job' (download_jobs d2)\<rparr>" using fl by (simp add: dj_flush_Inr)
    obtain obj where obj: "dj_selected_format_snapshot job = JObj obj" using upgrade_format_obj [OF fmt] by blast
    have rel: "dj_rel job job'" unfolding job' by (rule promoted_rel [OF obj snap])
    have "row_by dj_id i (download_jobs d2) = Some job" using job st d2 by (simp add: lock_download_job_def)
    then have stored: "dj_get_by_id i d' = Some job'" using id by (simp add: dj_get_by_id_def d' job')
    note rt = policy_snapshot_decodes [OF assms(1) snap]
    have dec: "decode_effective_policy_snapshot py (dj_selected_format_snapshot job') = Inr (Some pol')"
      "decode_authorized_identity_id py (dj_selected_format_snapshot job') = Inr (Some c)"
      using rt prem(1) by (simp_all add: job')
    have coh: "is_coherent_promoted_premium_job py job' (Some c)"
      using dec prem by (simp add: is_coherent_promoted_premium_job_def)
    have cov: "covered k d' = covered k d" for k
      using st covered_ranges [of d' d1 k] d2 by (simp add: d')
    have live: "\<not> has_live_attempt_locked e now d'"
      using st d2 by (simp add: has_live_attempt_locked_def lock_ranges_def d')
    have gr: "list_active_for_job i now d' = []" using rv(3) id by (simp add: list_active_for_job_def d')
    have art: "same_artifact job job'" by (simp add: same_artifact_def job')
    have ent: "row_by qe_id (qe_id e) (quota_entries d') = Some e'" using e'(1) d2 by (simp add: d')
    have got: "dj_get_by_id i d = Some job" using job by (simp add: lock_download_job_def dj_get_by_id_def)
    show ?thesis
      by (intro exI [of _ job] exI [of _ e'] exI [of _ pol'] conjI allI)
        (rule got stored rel art ent e' live cov dec prem coh gr)+
  qed
qed

text \<open>Promoting is idempotent: once an upgrade has succeeded, repeating the request at any later
  time before the job expires answers with the same job, not created, and changes nothing, even
  when the Premium window has closed meanwhile.\<close>

theorem upgrade_idempotent:
  assumes "pylib_laws py" and "ledger_wf d"
    and up: "upgrade py sha s q now pclk i tok c d = Inr ((job', b), d')"
    and "lock_client c (Some now') d' \<noteq> None" and "now' < dj_expires_at job'"
  shows "upgrade py sha s q now' pclk' i tok c d' = Inr ((job', False), d')"
  using up
proof (rule upgradeD)
  fix h job parent f pol ident
  assume h: "hash_access_token sha tok = Inr h" and job: "lock_download_job i d = Some job"
    and par: "mj_get_by_id (dj_media_job_id job) d = Some parent" "tokens_match (mj_credential_hash parent) h"
    and guards: "upgrade_guards job now = Inr ()" and fmt: "upgrade_format py job = Inr f"
    and pol: "upgrade_policy py job = Inr pol"
    and ident: "decode_authorized_identity_id py (dj_selected_format_snapshot job) = Inr ident"
    and or: "(edp_tier pol = ''premium'' \<and> ident = Some c \<and> job' = job \<and> \<not> b \<and> d' = d) \<or>
       (edp_tier pol = ''free'' \<and> promote py s q now pclk c job d = Inr ((job', b), d'))"
  obtain cl where cl: "lock_client c (Some now') d' = Some cl" using assms(4) by auto
  have "lock_download_job i d' = Some job' \<and> mj_get_by_id (dj_media_job_id job') d' = Some parent \<and>
      upgrade_guards job' now' = Inr () \<and> upgrade_format py job' = Inr f \<and>
      (\<exists>p. upgrade_policy py job' = Inr p \<and> edp_tier p = ''premium'') \<and>
      decode_authorized_identity_id py (dj_selected_format_snapshot job') = Inr (Some c)"
    using or
  proof (elim disjE conjE)
    assume "edp_tier pol = ''premium''" "ident = Some c" "job' = job" "d' = d"
    with job par guards fmt pol ident assms(5) show ?thesis by (simp add: upgrade_guards_def split: if_split_asm)
  next
    assume "promote py s q now pclk c job d = Inr ((job', b), d')"
    then show ?thesis
    proof (rule promoteD)
      fix d1 d2 pol' snap
      assume qd: "case lock_entry_for_download (dj_id job) d of
           None \<Rightarrow> \<not> q \<and> d1 = d | Some e \<Rightarrow> upgrade_quota c e job now d = Inr d1"
        and prem: "edp_tier pol' = ''premium''"
        and snap: "attach_effective_policy_snapshot py (format_only job) pol' (Some c) = Inr snap"
        and job': "job' = job\<lparr>dj_selected_format_snapshot := JObj snap, dj_updated_at := now\<rparr>"
        and rev: "revoke_grants (list_active_for_job (dj_id job) now d1) now d1 = Inr d2"
        and fl: "dj_flush job' d2 = Inr d'"
      have sz: "0 < artifact_size job" using guards by (auto simp: upgrade_guards_def split: if_split_asm)
      have tabs: "download_jobs d1 = download_jobs d \<and> media_jobs d1 = media_jobs d"
      proof (cases "lock_entry_for_download (dj_id job) d")
        case (Some e)
        then have "row_by qe_id (qe_id e) (quota_entries d) = Some e"
          using entry_by_id assms(2) by (simp add: ledger_wf_def)
        then show ?thesis using upgrade_quota_settles [OF _ assms(2) sz] qd Some by simp
      qed (use qd in simp)
      obtain tab where d2: "d2 = d1\<lparr>grants := tab\<rparr>" using rev by (auto simp: revoke_grants_def andThen_eq_Inr)
      have d': "d' = d2\<lparr>download_jobs := put_row dj_id job' (download_jobs d2)\<rparr>" using fl by (simp add: dj_flush_Inr)
      have id: "dj_id job' = i" using row_by_SomeD [OF job [unfolded lock_download_job_def]] by (simp add: job')
      have got: "lock_download_job i d' = Some job'"
        using job tabs id by (simp add: lock_download_job_def d' d2)
      have parent: "mj_get_by_id (dj_media_job_id job') d' = Some parent"
        using par tabs by (simp add: mj_get_by_id_def d' d2 job')
      have g: "upgrade_guards job' now' = Inr ()"
        using guards assms(5) by (auto simp: upgrade_guards_def job' artifact_size_def split: if_split_asm)
      obtain obj where obj: "dj_selected_format_snapshot job = JObj obj" using upgrade_format_obj [OF fmt] by blast
      have "strip_effective_policy_snapshot snap = strip_effective_policy_snapshot obj"
        using attach_strips [OF snap] obj by (simp add: format_only_def strip_idem)
      then have fm: "upgrade_format py job' = Inr f" using fmt obj by (simp add: upgrade_format_def job')
      note rt = policy_snapshot_decodes [OF assms(1) snap]
      show ?thesis using got parent g fm rt prem by (simp add: upgrade_policy_def job')
    qed
  qed
  then show ?thesis using h cl par(2) by (auto simp: upgrade_def)
qed

section \<open>A sample promotion\<close>

definition sample_free_snapshot :: "(string \<times> json) list" where
  "sample_free_snapshot = jset POLICY_KEY
     (JObj (policy_payload sample_pylib (free_policy sample_settings) None)) (snapshot_payload sample_format)"

definition sample_premium_snapshot :: "(string \<times> json) list" where
  "sample_premium_snapshot = jset POLICY_KEY
     (JObj (policy_payload sample_pylib sample_premium_policy (Some 2))) (snapshot_payload sample_format)"

definition sample_free_job :: download_job where
  "sample_free_job = sample_download_job\<lparr>dj_public_state := DJ_READY, dj_progress_stage := PS_READY,
     dj_fence_token := 1, dj_artifact_id := Some 8, dj_artifact_bytes := Some 100,
     dj_artifact_content_type := Some ''video/mp4'', dj_artifact_container := Some ''mp4'',
     dj_completed_at := Some 0, dj_format_option_id := ''f18'',
     dj_selected_format_snapshot := JObj sample_free_snapshot\<rparr>"

definition sample_promoted_job :: download_job where
  "sample_promoted_job = sample_free_job\<lparr>dj_selected_format_snapshot := JObj sample_premium_snapshot,
     dj_updated_at := 1\<rparr>"

definition sample_reserved :: quota_entry where
  "sample_reserved = sample_entry\<lparr>qe_anonymous_client_id := 2\<rparr>"

definition sample_entitlement :: premium_entitlement where
  "sample_entitlement = \<lparr>pe_id = 9, pe_public_id = 9, pe_anonymous_client_id = 2,
     pe_source_payment_order_id = 5, pe_product_code = ''premium_24h'', pe_starts_at = 0,
     pe_expires_at = 3, pe_created_at = 0\<rparr>"

definition sample_promotion_db :: "download_job \<Rightarrow> quota_entry \<Rightarrow> db" where
  "sample_promotion_db j e = empty_db\<lparr>media_jobs := [sample_media_job], download_jobs := [j],
     clients := [sample_client\<lparr>ac_id := 2\<rparr>], quota_entries := [e],
     entitlements := [sample_entitlement]\<rparr>"

lemmas sample_promotion_defs = sample_promotion_db_def sample_free_job_def sample_promoted_job_def
  sample_reserved_def sample_entitlement_def sample_entry_def sample_download_job_def sample_client_def
  empty_db_def

lemma sample_access_hash: "hash_access_token sample_sha (b64_encode sample_secret) = Inr sample_secret"
proof -
  have p: "parse_access_token (b64_encode sample_secret) = Inr sample_secret"
    by (simp add: parse_access_iff token_bytes_def octets_def sample_secret_def list_all_iff)
  have l: "length sample_secret = 32" by (simp add: sample_secret_def)
  show ?thesis by (simp add: hash_access_token_def p sample_sha_def l)
qed

lemma sample_free_strips: "strip_effective_policy_snapshot sample_free_snapshot = snapshot_payload sample_format"
  by (simp add: sample_free_snapshot_def strip_jset) (simp add: strip_effective_policy_snapshot_def
      snapshot_payload_def POLICY_KEY_def)

lemma sample_free_policy_decodes:
  "decode_effective_policy_snapshot sample_pylib (JObj sample_free_snapshot) = Inr (Some (free_policy sample_settings))"
  by (simp add: decode_effective_policy_snapshot_def sample_free_snapshot_def jget_jset policy_payload_keys
      policy_payload_lookups is_bool_def decode_free_policy_def)
    (simp add: free_policy_def sample_settings_def opt_int_json_def int_between_def int_of_json_def)

lemma sample_format_decodes:
  "decode_selected_format_snapshot sample_pylib 4096 (JObj (snapshot_payload sample_format)) ''f18'' = Inr sample_format"
  using format_snapshot_roundtrip_core [OF sample_format_valid _ _ _ sample_format_encodes]
  by (simp add: sample_format_def)

lemma sample_upgrade:
  "upgrade sample_pylib sample_sha sample_settings True 1 1 3 (b64_encode sample_secret) 2
     (sample_promotion_db sample_free_job sample_reserved) =
   Inr ((sample_promoted_job, True), sample_promotion_db sample_promoted_job
     (sample_reserved\<lparr>qe_state := Q_RELEASED, qe_released_at := Some 1\<rparr>))"
proof -
  let ?d = "sample_promotion_db sample_free_job sample_reserved"
  let ?e = "sample_reserved\<lparr>qe_state := Q_RELEASED, qe_released_at := Some 1\<rparr>"
  let ?d1 = "sample_promotion_db sample_free_job ?e"
  have rows: "lock_client 2 (Some 1) ?d = Some (sample_client\<lparr>ac_id := 2\<rparr>)"
    "lock_download_job 3 ?d = Some sample_free_job" "mj_get_by_id 1 ?d = Some sample_media_job"
    "lock_entry_for_download 3 ?d = Some sample_reserved" "lock_ranges (qe_id sample_reserved) ?d = []"
    by (simp_all add: lock_client_def lock_download_job_def mj_get_by_id_def lock_entry_for_download_def
        row_by_def lock_ranges_def order_by_def sample_promotion_defs sample_media_job_def seconds_def)
  have st: "status_for_client 1 2 ?d = (capability_from_entitlement (Some sample_entitlement), Some sample_entitlement)"
    by (simp add: status_for_client_def get_active_for_client_def order_by_def sql_limit_def Let_def sample_promotion_defs)
  have fields: "dj_id sample_free_job = 3" "dj_media_job_id sample_free_job = 1"
    "dj_format_option_id sample_free_job = ''f18''" "artifact_size sample_free_job = 100"
    "dj_selected_format_snapshot sample_free_job = JObj sample_free_snapshot"
    "qe_anonymous_client_id sample_reserved = 2" "qe_state sample_reserved = Q_RESERVED"
    "mj_credential_hash sample_media_job = replicate 32 7" "upgrade_guards sample_free_job 1 = Inr ()"
    by (simp_all add: sample_promotion_defs sample_media_job_def artifact_size_def upgrade_guards_def seconds_def)
  have t: "tokens_match (replicate 32 7) sample_secret" by (simp add: tokens_match_def sample_secret_def)
  have fmt: "upgrade_format sample_pylib sample_free_job = Inr sample_format"
    by (simp add: upgrade_format_def fields sample_free_strips sample_format_decodes) (simp add: sample_format_def)
  have pol: "upgrade_policy sample_pylib sample_free_job = Inr (free_policy sample_settings)"
    by (simp add: upgrade_policy_def fields sample_free_policy_decodes)
  have ident: "decode_authorized_identity_id sample_pylib (JObj sample_free_snapshot) = Inr None"
    by (simp add: decode_authorized_identity_id_def sample_free_policy_decodes)
  have tier: "edp_tier (free_policy sample_settings) = ''free''" by (simp add: free_policy_def)
  have empty: "closed_intervals [] \<noteq> [(0, 100)]"
    using closed_intervals_points [of "[]"] by (auto simp: points_def)
  have "qe_flush ?e ?d = Inr ?d1"
    by (simp add: qe_flush_Inr entry_ok_defs put_row_def) (simp add: sample_promotion_defs seconds_def)
  then have uq: "upgrade_quota 2 sample_reserved sample_free_job 1 ?d = Inr ?d1"
    using empty by (simp add: upgrade_quota_def fields rows upgrade_close_stale_def Let_def
        upgrade_assert_generation_def apply_quota_rule_def release_locked_def)
      (simp add: sample_promotion_defs)
  have pp: "effective_download_policy sample_settings (Some (capability_from_entitlement (Some sample_entitlement))) =
      Inr sample_premium_policy"
    by (simp add: effective_download_policy_def capability_from_entitlement_def sample_entitlement_def
        sample_premium_policy_def)
  have fo: "format_only sample_free_job = snapshot_payload sample_format"
    by (simp add: format_only_def fields sample_free_strips)
  have rg: "revoke_grants (list_active_for_job 3 1 ?d1) 1 ?d1 = Inr ?d1"
    by (simp add: list_active_for_job_def revoke_grants_def order_by_def sample_promotion_db_def empty_db_def)
  have ok: "download_job_ok sample_promoted_job"
    by (simp add: download_job_ok_defs no_query_fragment_def sample_promotion_defs)
  then have fl: "dj_flush sample_promoted_job ?d1 = Inr (sample_promotion_db sample_promoted_job ?e)"
    by (simp add: dj_flush_Inr put_row_def) (simp add: sample_promotion_defs)
  have prem: "pc_is_premium (capability_from_entitlement (Some sample_entitlement))"
    "opt_gt (pc_premium_expires_at (capability_from_entitlement (Some sample_entitlement))) 1"
    by (simp_all add: capability_from_entitlement_def sample_entitlement_def)
  have job': "sample_free_job\<lparr>dj_selected_format_snapshot := JObj sample_premium_snapshot, dj_updated_at := 1\<rparr> =
      sample_promoted_job" by (simp add: sample_promoted_job_def)
  have "promote sample_pylib sample_settings True 1 1 2 sample_free_job ?d =
      Inr ((sample_promoted_job, True), sample_promotion_db sample_promoted_job ?e)"
    by (simp add: promote_def st prem rows fields uq pp fo sample_policy_attaches
        sample_premium_snapshot_def [symmetric] job' rg fl Let_def del: One_nat_def)
  then show ?thesis
    by (simp add: upgrade_def sample_access_hash rows fields t fmt pol ident tier del: One_nat_def)
qed

lemma sample_promotion_wf:
  "ledger_wf (sample_promotion_db sample_free_job sample_reserved)"
  "grants_wf (sample_promotion_db sample_free_job sample_reserved)"
  by (simp_all add: ledger_wf_def ranges_wf_def grants_wf_def sample_promotion_defs)

theorem upgrade_settles_and_binds_witness:
  "is_coherent_promoted_premium_job sample_pylib sample_promoted_job (Some 2)"
proof -
  have "lock_entry_for_download 3 (sample_promotion_db sample_free_job sample_reserved) = Some sample_reserved"
    by (simp add: lock_entry_for_download_def row_by_def sample_promotion_defs)
  from upgrade_settles_and_binds [OF sample_pylib_laws sample_promotion_wf(1,2) sample_upgrade this]
  show ?thesis by blast
qed

theorem upgrade_idempotent_witness:
  "upgrade sample_pylib sample_sha sample_settings True 50 50 3 (b64_encode sample_secret) 2
     (sample_promotion_db sample_promoted_job (sample_reserved\<lparr>qe_state := Q_RELEASED, qe_released_at := Some 1\<rparr>)) =
   Inr ((sample_promoted_job, False),
     sample_promotion_db sample_promoted_job (sample_reserved\<lparr>qe_state := Q_RELEASED, qe_released_at := Some 1\<rparr>))"
  by (rule upgrade_idempotent [OF sample_pylib_laws sample_promotion_wf(1) sample_upgrade])
    (simp_all add: lock_client_def sample_promotion_defs seconds_def)

end
