(* ===== verification/Download_Runs.thy ===== *)
theory Download_Runs
  imports Download_Promotion
begin

text \<open>
  Runs of the download queue: any interleaving of the repository's operations, of promotions and
  of whatever the other components do to their own tables. The fenced-queue contract is
  discharged here, and the properties of the jobs over a run follow.
\<close>

section \<open>Promotion evolves the table\<close>

lemma upgrade_quota_jobs:
  assumes "upgrade_quota c e job now d = Inr d'"
  shows "download_jobs d' = download_jobs d"
proof -
  from assms obtain d1 full where c: "close_stale now (lock_ranges (qe_id e) d) d = Inr d1"
    and rule: "apply_quota_rule e full now d1 = Inr d'"
    by (auto simp: upgrade_quota_def upgrade_close_stale_eq andThen_eq_Inr Let_def split: if_split_asm)
  from apply_quota_ruleD [OF rule] have "download_jobs d' = download_jobs d1" by (auto simp: qe_flush_jobs)
  with close_stale_jobs [OF c] show ?thesis by simp
qed

lemma upgrade_evolves:
  assumes "upgrade py sha s q now pclk i tok c d = Inr ((job', b), d')"
  shows "dj_evolves d d'"
  using assms
proof (rule upgradeD)
  fix h job parent f pol ident
  assume job: "lock_download_job i d = Some job" and fmt: "upgrade_format py job = Inr f"
    and or: "(edp_tier pol = ''premium'' \<and> ident = Some c \<and> job' = job \<and> \<not> b \<and> d' = d) \<or>
       (edp_tier pol = ''free'' \<and> promote py s q now pclk c job d = Inr ((job', b), d'))"
  show "dj_evolves d d'"
  proof (cases "d' = d")
    case False
    with or have pr: "promote py s q now pclk c job d = Inr ((job', b), d')" by blast
    from pr show ?thesis
    proof (rule promoteD)
      fix d1 d2 pol' snap
      assume qd: "case lock_entry_for_download (dj_id job) d of
           None \<Rightarrow> \<not> q \<and> d1 = d | Some e \<Rightarrow> upgrade_quota c e job now d = Inr d1"
        and snap: "attach_effective_policy_snapshot py (format_only job) pol' (Some c) = Inr snap"
        and job': "job' = job\<lparr>dj_selected_format_snapshot := JObj snap, dj_updated_at := now\<rparr>"
        and rev: "revoke_grants (list_active_for_job (dj_id job) now d1) now d1 = Inr d2"
        and fl: "dj_flush job' d2 = Inr d'"
      have "download_jobs d1 = download_jobs d"
        using qd upgrade_quota_jobs by (cases "lock_entry_for_download (dj_id job) d") auto
      then have same: "download_jobs d2 = download_jobs d" using rev by (auto simp: revoke_grants_def andThen_eq_Inr)
      obtain obj where obj: "dj_selected_format_snapshot job = JObj obj" using upgrade_format_obj [OF fmt] by blast
      have rel: "dj_rel job job'" unfolding job' by (rule promoted_rel [OF obj snap])
      have "dj_get_by_id i d2 = Some job" using job same by (simp add: lock_download_job_def dj_get_by_id_def)
      then have "dj_evolves d2 d'" by (rule flush_loaded_evolves [OF fl _ rel])
      then show ?thesis using dj_evolves_same [OF same] dj_evolves_trans by blast
    qed
  qed simp
qed

section \<open>The step relation\<close>

text \<open>
  \<open>queue_op\<close> has one constructor per operation that writes \<open>media_download_jobs\<close>; a step is one
  of those or \<open>elsewhere\<close>, any operation that does not write the table.
\<close>

inductive queue_op :: "db \<Rightarrow> db \<Rightarrow> bool" where
  enqueue: "dj_enqueue_or_get i rq now d = Inr (r, d') \<Longrightarrow> queue_op d d'"
| claim: "dj_claim_next locked clk w dur now limit d = Inr (js, d') \<Longrightarrow> queue_op d d'"
| renew: "dj_renew_lease clk i w f dur d = Inr (ok, d') \<Longrightarrow> queue_op d d'"
| lease: "dj_lease_status clk rclk i w f dur d = Inr (v, d') \<Longrightarrow> queue_op d d'"
| stage: "dj_set_progress_stage i w f s now d = Inr (ok, d') \<Longrightarrow> queue_op d d'"
| percent: "dj_set_progress_percent clk i w f p now d = Inr (ok, d') \<Longrightarrow> queue_op d d'"
| ready: "dj_complete_ready clk qclk i w f a b ct c consume d = Inr (ok, d') \<Longrightarrow> queue_op d d'"
| fail: "dj_fail_permanent clk qclk i w f err d = Inr (ok, d') \<Longrightarrow> queue_op d d'"
| retry: "dj_fail_retry clk qclk i w f now bo err d = Inr (ok, d') \<Longrightarrow> queue_op d d'"
| release: "dj_release_to_queued clk i w f now d = Inr (ok, d') \<Longrightarrow> queue_op d d'"
| cancelled: "dj_complete_cancelled clk qclk i w f d = Inr (ok, d') \<Longrightarrow> queue_op d d'"
| cancel: "dj_request_cancel qclk i now d = Inr (j, d') \<Longrightarrow> queue_op d d'"
| reclaim: "dj_reclaim_expired_leases locked clk rclk qc now d = Inr (n, d') \<Longrightarrow> queue_op d d'"
| expire: "dj_expire_due_jobs py locked clk rclk qc fr now d = Inr (arts, d') \<Longrightarrow> queue_op d d'"
| promotion: "upgrade py sha s q now pclk i tok cl d = Inr ((j, b), d') \<Longrightarrow> queue_op d d'"

inductive dj_step :: "db \<Rightarrow> db \<Rightarrow> bool" where
  writes: "queue_op d d' \<Longrightarrow> dj_step d d'"
| elsewhere: "download_jobs d' = download_jobs d \<Longrightarrow> dj_step d d'"

lemmas dj_op_evolves = enqueue_evolves claim_evolves renew_evolves lease_status_evolves
  set_stage_evolves set_percent_evolves complete_ready_evolves fail_permanent_evolves
  fail_retry_evolves release_evolves complete_cancelled_evolves request_cancel_evolves
  reclaim_evolves expire_evolves upgrade_evolves

lemma queue_op_evolves: "queue_op d d' \<Longrightarrow> dj_evolves d d'"
  by (induction rule: queue_op.induct) (erule dj_op_evolves)+

lemma dj_step_evolves: "dj_step d d' \<Longrightarrow> dj_evolves d d'"
  by (induction rule: dj_step.induct) (auto intro: queue_op_evolves dj_evolves_same)

lemma dj_run_evolves:
  assumes "dj_step\<^sup>*\<^sup>* d d'"
  shows "dj_evolves d d'"
  using assms by (induction rule: rtranclp_induct) (auto intro: dj_evolves_trans dj_step_evolves)

lemma dj_rel_fence: "evolves dj_id dj_rel rows rows' \<Longrightarrow>
    evolves dj_id (fence_step dj_fence_token dj_lease_owner) rows rows'"
  unfolding evolves_def using dj_relD(1) by blast

interpretation dj: fenced_queue download_jobs dj_id dj_fence_token dj_lease_owner downloads_wf dj_step
proof unfold_locales
  fix d d' assume "dj_step d d'" and "downloads_wf d"
  then show "downloads_wf d'" using dj_step_evolves unfolding dj_evolves_def by blast
next
  fix d d' assume "dj_step d d'" and "downloads_wf d"
  then show "evolves dj_id (fence_step dj_fence_token dj_lease_owner) (download_jobs d) (download_jobs d')"
    using dj_step_evolves dj_rel_fence unfolding dj_evolves_def by blast
qed

section \<open>Jobs over a run\<close>

lemma dj_run_row:
  assumes "dj_step\<^sup>*\<^sup>* d d'" and "downloads_wf d" and "dj_get_by_id i d = Some j"
  obtains j' where "dj_get_by_id i d' = Some j'" "dj_rel j j'" "download_job_ok j'"
proof -
  have ev: "downloads_wf d'" "evolves dj_id dj_rel (download_jobs d) (download_jobs d')"
    using dj_run_evolves [OF assms(1)] assms(2) by (simp_all add: dj_evolves_def)
  obtain j' where j': "row_by dj_id i (download_jobs d') = Some j'" "dj_rel j j'"
    using evolvesD [OF ev(2)] assms(3) unfolding dj_get_by_id_def by blast
  have "download_job_ok j'" using row_by_SomeD [OF j'(1)] ev(1) by (simp add: downloads_wf_def)
  with j' that show thesis by (simp add: dj_get_by_id_def)
qed

text \<open>C10. A download job lives by its state machine: over any run a stored job stays stored, its
  request columns and format never change, its state moves only along the transition table, the
  artifact and fence of a ready job are immutable while it is ready, its attempts never exceed
  the maximum, and every table constraint holds.\<close>

theorem dj_run_lifecycle:
  assumes "dj_step\<^sup>*\<^sup>* d d'" and "downloads_wf d" and "dj_get_by_id i d = Some j"
  shows "\<exists>j'. dj_get_by_id i d' = Some j' \<and> download_job_ok j' \<and> dj_same_request j j' \<and>
     (\<lambda>a b. dj_assert_transition a b = Inr ())\<^sup>*\<^sup>* (dj_public_state j) (dj_public_state j') \<and>
     (dj_public_state j = DJ_READY \<and> dj_public_state j' = DJ_READY \<longrightarrow> same_artifact j j') \<and>
     (dj_attempt_count j \<le> dj_max_attempts j \<longrightarrow> dj_attempt_count j' \<le> dj_max_attempts j')"
  using assms
proof (rule dj_run_row)
  fix j' assume "dj_get_by_id i d' = Some j'" "dj_rel j j'" "download_job_ok j'"
  then show ?thesis
    using dj_relD [of j j'] dj_reach_moves [of "dj_public_state j" "dj_public_state j'"]
    by (intro exI [of _ j']) simp
qed

text \<open>C11. Cancelling is final: once a cancel was accepted (or the job has expired), in every later
  state of any run the job is still downloading with the cancel recorded, or expired; it never
  becomes ready or failed and never offers an artifact.\<close>

theorem dj_cancel_is_final:
  assumes "dj_step\<^sup>*\<^sup>* d d'" and "downloads_wf d" and "dj_get_by_id i d = Some j"
    and "dj_cancel_requested_at j \<noteq> None \<or> dj_public_state j = DJ_EXPIRED"
  shows "\<exists>j'. dj_get_by_id i d' = Some j' \<and> dj_artifact_id j' = None \<and>
     (dj_public_state j' = DJ_EXPIRED \<or>
      dj_public_state j' = DJ_DOWNLOADING \<and> dj_cancel_requested_at j' \<noteq> None)"
  using assms(1-3)
proof (rule dj_run_row)
  fix j' assume j': "dj_get_by_id i d' = Some j'" "dj_rel j j'" "download_job_ok j'"
  have "doomed j'" using dj_relD(5) [OF j'(2)] assms(4) by (simp add: doomed_def)
  then have "dj_public_state j' = DJ_EXPIRED \<or> dj_public_state j' = DJ_DOWNLOADING \<and> dj_cancel_requested_at j' \<noteq> None"
    using j'(3) by (auto simp: doomed_def download_job_ok_def download_job_cancel_ok_def)
  then have "dj_artifact_id j' = None"
    using j'(3) by (auto simp: download_job_ok_def download_job_result_ok_def no_artifact_def)
  with j'(1) show ?thesis
    using \<open>dj_public_state j' = DJ_EXPIRED \<or> _\<close> by blast
qed

text \<open>A fence token of the download queue names one worker: over any run, a lease held under a
  fence token was held by the same worker at every earlier moment the job had that token.\<close>

theorem dj_fence_names_one_owner:
  assumes "dj_step\<^sup>*\<^sup>* d d'" and "downloads_wf d"
    and "dj_get_by_id i d = Some j" and "dj_get_by_id i d' = Some j'"
    and "dj_fence_token j' = dj_fence_token j" and "dj_lease_owner j' = Some w"
  shows "dj_lease_owner j = Some w"
  using dj.fence_names_one_owner [OF assms(1,2)] assms(3-6) unfolding dj_get_by_id_def by blast

section \<open>Passed fences\<close>

lemma dj_passed_fence_miss:
  assumes "downloads_wf d" and "dj_get_by_id i d = Some r" and "f < dj_fence_token r"
    and "j \<in> set (download_jobs d)"
  shows "\<not> dj_held i w f j"
  using assms by (auto simp: dj_get_by_id_def dj_held_def downloads_wf_def row_by_Some_iff distinct_map inj_on_def
      dest!: row_by_SomeD)

lemma dj_update_none:
  assumes "\<And>j. j \<in> set (download_jobs d) \<Longrightarrow> \<not> P j"
  shows "dj_update P g d = Inr (False, d)"
proof -
  have none: "filter P (download_jobs d) = []" using assms by (simp add: filter_empty_conv)
  have same: "map (\<lambda>j. if P j then g j else j) (download_jobs d) = download_jobs d"
    using assms by (simp add: map_idI)
  have "update_where download_job_ok dj_rejected P g (download_jobs d) = Inr (download_jobs d, 0)"
    using assms by (simp add: update_where_def none same)
  then show ?thesis by (simp add: dj_update_def)
qed

lemma find_none: "(\<And>j. j \<in> set rows \<Longrightarrow> \<not> P j) \<Longrightarrow> find P rows = None"
  by (simp add: find_None_iff)

text \<open>
  \<open>refused d r\<close>: the call changed nothing and reported failure, or it was refused because the
  job's quota entry names a client that does not exist.
\<close>

definition refused :: "db \<Rightarrow> (bool \<times> db) res \<Rightarrow> bool" where
  "refused d r \<longleftrightarrow> r = Inr (False, d) \<or> (\<exists>e. r = Inl e)"

lemma passed_fence_refused:
  assumes "downloads_wf d" and "dj_get_by_id i d = Some r" and "f < dj_fence_token r"
  shows "dj_renew_lease clk i w f dur d = Inr (False, d)"
    "dj_set_progress_stage i w f s now d = Inr (False, d)"
    "dj_set_progress_percent clk i w f p now d = Inr (False, d)"
    "dj_release_to_queued clk i w f now d = Inr (False, d)"
    "dj_fail_retry clk qclk i w f now bo err d = Inr (False, d)"
    "refused d (dj_complete_ready clk qclk i w f a b ct c consume d)"
    "refused d (dj_fail_permanent clk qclk i w f err d)"
    "refused d (dj_complete_cancelled clk qclk i w f d)"
    "dj_lease_status clk rclk i w f dur d = Inr (LOST, d)"
proof -
  have held: "\<And>j. j \<in> set (download_jobs d) \<Longrightarrow> \<not> dj_held i w f j"
    by (rule dj_passed_fence_miss [OF assms])
  then have owned: "\<And>j clk. j \<in> set (download_jobs d) \<Longrightarrow> \<not> dj_owned clk i w f j"
    and live: "\<And>j clk. j \<in> set (download_jobs d) \<Longrightarrow> \<not> dj_live clk i w f j"
    by (simp_all add: dj_owned_def dj_live_def)
  have ul: "dj_update (dj_live clk i w f) g d = Inr (False, d)" for g clk by (rule dj_update_none) (rule live)
  show "dj_renew_lease clk i w f dur d = Inr (False, d)"
    unfolding dj_renew_lease_def by (rule dj_update_none) (rule owned)
  have "find (\<lambda>j. dj_held i w f j \<and> dj_cancel_requested_at j = None) (download_jobs d) = None"
    using held by (simp add: find_none)
  then show "dj_set_progress_stage i w f s now d = Inr (False, d)" by (simp add: dj_set_progress_stage_def)
  have "find (\<lambda>j. dj_live clk i w f j \<and> dj_progress_stage j \<in> {PS_DOWNLOADING_VIDEO, PS_DOWNLOADING_AUDIO})
      (download_jobs d) = None" using live by (simp add: find_none)
  then show "dj_set_progress_percent clk i w f p now d = Inr (False, d)" by (simp add: dj_set_progress_percent_def)
  show "dj_release_to_queued clk i w f now d = Inr (False, d)" by (simp add: dj_release_to_queued_def ul)
  show "dj_fail_retry clk qclk i w f now bo err d = Inr (False, d)"
    using assms(2,3) by (simp add: dj_fail_retry_def)
  show "refused d (dj_complete_ready clk qclk i w f a b ct c consume d)"
    by (cases "lock_quota_identity_for_job i d")
       (simp_all add: refused_def dj_complete_ready_def ul)
  show "refused d (dj_fail_permanent clk qclk i w f err d)"
    by (cases "lock_quota_identity_for_job i d") (simp_all add: refused_def dj_fail_permanent_def ul)
  have "dj_update (\<lambda>j. dj_held i w f j \<and> dj_cancel_requested_at j \<noteq> None) g d = Inr (False, d)" for g
    by (rule dj_update_none) (use held in blast)
  then show "refused d (dj_complete_cancelled clk qclk i w f d)"
    by (cases "lock_quota_identity_for_job i d") (simp_all add: refused_def dj_complete_cancelled_def)
  have "find (dj_owned clk i w f) (download_jobs d) = None" using owned by (simp add: find_none)
  then show "dj_lease_status clk rclk i w f dur d = Inr (LOST, d)" by (simp add: dj_lease_status_def)
qed

text \<open>C12. A stale download worker is fenced out: once a job's fence token has passed a worker's
  token, then in every later state of any run no call made under the old token changes anything;
  renewals, progress reports, retries and releases report failure, the lease reads as lost, and
  completion, failure and cancellation are refused.\<close>

theorem dj_stale_worker_is_fenced:
  assumes "dj_step\<^sup>*\<^sup>* d d'" and "downloads_wf d"
    and "dj_get_by_id i d = Some j" and "f < dj_fence_token j"
  shows "dj_renew_lease clk i w f dur d' = Inr (False, d') \<and>
     dj_set_progress_stage i w f s now d' = Inr (False, d') \<and>
     dj_set_progress_percent clk i w f p now d' = Inr (False, d') \<and>
     dj_release_to_queued clk i w f now d' = Inr (False, d') \<and>
     dj_fail_retry clk qclk i w f now bo err d' = Inr (False, d') \<and>
     refused d' (dj_complete_ready clk qclk i w f a b ct c consume d') \<and>
     refused d' (dj_fail_permanent clk qclk i w f err d') \<and>
     refused d' (dj_complete_cancelled clk qclk i w f d') \<and>
     dj_lease_status clk rclk i w f dur d' = Inr (LOST, d')"
proof -
  obtain r where r: "dj_get_by_id i d' = Some r" "f < dj_fence_token r"
    using dj.passed_fence_stays_passed [OF assms(1,2)] assms(3,4) unfolding dj_get_by_id_def by blast
  have "downloads_wf d'" by (rule dj.run_wf [OF assms(1,2)])
  from passed_fence_refused [OF this r] show ?thesis by simp
qed

section \<open>A sample run\<close>

text \<open>A job is claimed by \<open>w1\<close>; its lease is reclaimed when it has run out, or it is cancelled.\<close>

definition one_download :: "download_job \<Rightarrow> db" where
  "one_download j = empty_db\<lparr>download_jobs := [j]\<rparr>"

definition sample_running :: download_job where
  "sample_running = dj_claimed ''w1'' (seconds 60) 0 sample_download_job"

definition sample_requeued :: download_job where
  "sample_requeued = dj_reclaimed (seconds 60) sample_running"

definition sample_cancelling :: download_job where
  "sample_cancelling = sample_running\<lparr>dj_cancel_requested_at := Some 5, dj_updated_at := 5\<rparr>"

lemmas sample_run_defs = one_download_def sample_running_def sample_requeued_def sample_cancelling_def
  sample_download_job_def row_defs dj_reclaimed_def empty_db_def seconds_def

lemma one_download_get: "dj_get_by_id i (one_download j) = (if dj_id j = i then Some j else None)"
  by (simp add: dj_get_by_id_def one_download_def row_by_def)

lemma sample_downloads_wf:
  "downloads_wf (one_download sample_download_job)" "downloads_wf (one_download sample_running)"
  "downloads_wf (one_download sample_cancelling)"
  by (simp_all add: downloads_wf_def download_job_ok_defs no_query_fragment_def sample_run_defs)

lemma one_download_flush:
  "download_job_ok j' \<Longrightarrow> dj_id j' = dj_id j \<Longrightarrow> dj_flush j' (one_download j) = Inr (one_download j')"
  by (simp add: dj_flush_Inr put_row_def one_download_def)

lemma sample_claim_run:
  "dj_claim_next (\<lambda>_. False) 0 ''w1'' (seconds 60) 0 1 (one_download sample_download_job) =
     Inr ([sample_running], one_download sample_running)"
proof -
  have "download_job_ok sample_running"
    by (simp add: download_job_ok_defs no_query_fragment_def sample_run_defs)
  then show ?thesis
    by (simp add: dj_claim_next_def dj_claim_select_def sql_limit_def order_by_def dj_claimable_def
        write_row_def put_row_def sample_running_def one_download_def empty_db_def)
      (simp add: sample_download_job_def seconds_def dj_claimed_def)
qed

lemma sample_no_quota: "lock_quota_identity_for_job i (one_download j) = Inr None"
  by (simp add: lock_quota_identity_for_job_def identity_id_for_download_def one_download_def empty_db_def)

lemma sample_reclaim_run:
  "dj_reclaim_expired_leases (\<lambda>_. False) (seconds 60) (\<lambda>_. seconds 60) (\<lambda>_. seconds 60) (seconds 60)
     (one_download sample_running) = Inr (1, one_download sample_requeued)"
proof -
  have ok: "download_job_ok sample_requeued" "dj_id sample_requeued = dj_id sample_running"
    by (simp_all add: download_job_ok_defs no_query_fragment_def sample_run_defs Let_def)
  have r: "dj_reclaimable (seconds 60) sample_running" "dj_id sample_running = 3"
    "dj_cancel_requested_at sample_running = None" "dj_attempt_count sample_running < dj_max_attempts sample_running"
    by (simp_all add: dj_reclaimable_def sample_run_defs)
  have "download_jobs (one_download sample_running) = [sample_running]" by (simp add: one_download_def)
  then show ?thesis
    using r one_download_flush [OF ok]
    by (simp add: dj_reclaim_expired_leases_def dj_reclaim_one_def sample_no_quota sample_requeued_def Let_def)
qed

lemma sample_cancel_run:
  "dj_request_cancel 5 3 5 (one_download sample_running) =
     Inr (Some sample_cancelling, one_download sample_cancelling)"
proof -
  have ok: "download_job_ok sample_cancelling" "dj_id sample_cancelling = dj_id sample_running"
    by (simp_all add: download_job_ok_defs no_query_fragment_def sample_run_defs)
  have r: "dj_id sample_running = 3" "dj_public_state sample_running = DJ_DOWNLOADING"
    "dj_cancel_requested_at sample_running = None" "dj_progress_stage sample_running = PS_INSPECTING"
    by (simp_all add: sample_run_defs)
  then show ?thesis
    using one_download_flush [OF ok]
    by (simp add: dj_request_cancel_def sample_no_quota one_download_get is_stored_cancelled_def Let_def
        sample_cancelling_def)
qed

lemma sample_claim_step: "dj_step\<^sup>*\<^sup>* (one_download sample_download_job) (one_download sample_running)"
  by (rule r_into_rtranclp, rule dj_step.writes, rule queue_op.claim [OF sample_claim_run])

lemma sample_ids: "dj_id sample_download_job = 3" "dj_id sample_running = 3" "dj_id sample_requeued = 3"
  "dj_id sample_cancelling = 3"
  by (simp_all add: sample_run_defs Let_def)

theorem dj_run_lifecycle_witness:
  "dj_attempt_count sample_running \<le> dj_max_attempts sample_running"
proof -
  have "dj_get_by_id 3 (one_download sample_download_job) = Some sample_download_job"
    by (simp add: one_download_get sample_ids)
  moreover have "dj_attempt_count sample_download_job \<le> dj_max_attempts sample_download_job"
    by (simp add: sample_download_job_def)
  ultimately show ?thesis
    using dj_run_lifecycle [OF sample_claim_step sample_downloads_wf(1), of 3 sample_download_job]
    by (auto simp: one_download_get sample_ids)
qed

theorem dj_cancel_is_final_witness:
  "dj_artifact_id sample_cancelling = None"
proof -
  have "dj_get_by_id 3 (one_download sample_cancelling) = Some sample_cancelling"
    "dj_cancel_requested_at sample_cancelling \<noteq> None"
    by (simp_all add: one_download_get sample_ids) (simp add: sample_cancelling_def)
  from dj_cancel_is_final [OF rtranclp.rtrancl_refl sample_downloads_wf(3) this(1)] this(2)
  show ?thesis by (auto simp: one_download_get sample_ids)
qed

theorem dj_fence_names_one_owner_witness:
  "dj_lease_owner sample_running = Some ''w1''"
proof -
  have g: "dj_get_by_id 3 (one_download sample_running) = Some sample_running"
    "dj_get_by_id 3 (one_download sample_cancelling) = Some sample_cancelling"
    by (simp_all add: one_download_get sample_ids)
  have run: "dj_step\<^sup>*\<^sup>* (one_download sample_running) (one_download sample_cancelling)"
    by (rule r_into_rtranclp, rule dj_step.writes, rule queue_op.cancel [OF sample_cancel_run])
  show ?thesis
    by (rule dj_fence_names_one_owner [OF run sample_downloads_wf(2) g]) (simp_all add: sample_run_defs)
qed

theorem dj_stale_worker_is_fenced_witness:
  "dj_renew_lease (seconds 61) 3 ''w1'' 0 5 (one_download sample_requeued) =
     Inr (False, one_download sample_requeued)"
proof -
  have g: "dj_get_by_id 3 (one_download sample_running) = Some sample_running" "0 < dj_fence_token sample_running"
    by (simp_all add: one_download_get sample_ids) (simp add: sample_run_defs)
  have run: "dj_step\<^sup>*\<^sup>* (one_download sample_running) (one_download sample_requeued)"
    by (rule r_into_rtranclp, rule dj_step.writes, rule queue_op.reclaim [OF sample_reclaim_run])
  show ?thesis using dj_stale_worker_is_fenced [OF run sample_downloads_wf(2) g] by blast
qed

end
