(* ===== verification/Quota_Reconcile.thy ===== *)
theory Quota_Reconcile
  imports Download_Jobs Snapshot
begin

text \<open>
  The repair and retention pass of the Free quota (\<open>quota/reconcile.py\<close>). Its locks wait, they do
  not skip; the pruning at the end skips the rows of \<open>locked\<close> and \<open>locked_clients\<close>. \<open>fresh\<close> gives the
  uuids of the ranges a compaction inserts for a job.
\<close>

record ReconcileResult =
  rc_consumed :: nat
  rc_released :: nat
  rc_expired :: nat
  rc_entries_deleted :: nat
  rc_clients_deleted :: nat

section \<open>Quarantine\<close>

text \<open>The join of terminal entries with ready jobs, in the order of the jobs.\<close>

definition ready_terminal_pairs :: "int \<Rightarrow> db \<Rightarrow> (uuid \<times> uuid) list" where
  "ready_terminal_pairs limit d =
     map (\<lambda>(e, j). (qe_anonymous_client_id e, dj_id j))
       (sql_limit limit
         (order_by (\<lambda>(e, j). (dj_expires_at j, dj_id j))
           [(e, j). e \<leftarrow> quota_entries d, j \<leftarrow> download_jobs d,
              dj_id j = qe_download_job_id e \<and> (qe_state e = Q_RELEASED \<or> qe_state e = Q_EXPIRED) \<and>
              dj_public_state j = DJ_READY]))"

text \<open>One pair, inside its savepoint: a \<open>QuotaInvariantError\<close> rolls the savepoint back.\<close>

definition quarantine_body :: "pylib \<Rightarrow> time \<Rightarrow> uuid \<times> uuid \<Rightarrow> db \<Rightarrow> db res" where
  "quarantine_body py now pair d =
     (case pair of (client_id, job_id) \<Rightarrow>
        case (lock_client client_id None d, dj_get_by_id job_id d, lock_entry_for_download job_id d) of
          (Some _, Some job, Some entry) \<Rightarrow>
            if dj_public_state job \<noteq> DJ_READY \<or> qe_state entry \<notin> {Q_RELEASED, Q_EXPIRED} then Inr d
            else if qe_state entry = Q_RELEASED \<and>
                    is_coherent_promoted_premium_job py job (Some (qe_anonymous_client_id entry))
            then Inr d
            else andThen (quarantine_ready_terminal_quota_locked job entry now [] d)
              (\<lambda>(_, _, d'). Inr d')
        | _ \<Rightarrow> Inr d)"

definition quarantine_one :: "pylib \<Rightarrow> time \<Rightarrow> uuid \<times> uuid \<Rightarrow> db \<Rightarrow> db res" where
  "quarantine_one py now pair d =
     (case quarantine_body py now pair d of
        Inr d' \<Rightarrow> Inr d'
      | Inl (QuotaInvariantError _) \<Rightarrow> Inr d
      | Inl e \<Rightarrow> Inl e)"

section \<open>Reserved entries\<close>

definition reserved_candidates :: "int \<Rightarrow> db \<Rightarrow> (uuid \<times> uuid) list" where
  "reserved_candidates limit d =
     map (\<lambda>e. (qe_anonymous_client_id e, qe_download_job_id e))
       (sql_limit limit (order_by qe_reserved_at (filter (\<lambda>e. qe_state e = Q_RESERVED) (quota_entries d))))"

text \<open>The counters \<open>(consumed, released, expired)\<close> of the loop.\<close>

type_synonym counters = "nat \<times> nat \<times> nat"

definition release_entry :: "quota_entry \<Rightarrow> time \<Rightarrow> bool \<Rightarrow> db \<Rightarrow> db res" where
  "release_entry entry now expired d =
     andThen (release_locked entry now expired) (\<lambda>entry'. qe_flush entry' d)"

definition repair_one ::
  "bool \<Rightarrow> (uuid \<Rightarrow> nat \<Rightarrow> uuid) \<Rightarrow> time \<Rightarrow> uuid \<times> uuid \<Rightarrow> counters \<times> db \<Rightarrow> (counters \<times> db) res" where
  "repair_one compatibility_mode fresh now pair acc =
     (case (pair, acc) of ((client_id, job_id), ((consumed, released, expired), d)) \<Rightarrow>
        if lock_client client_id None d = None
        then Inl (QuotaInvariantError ''reserved entry references missing identity'')
        else (case lock_entry_for_download job_id d of
          None \<Rightarrow> Inr acc
        | Some entry \<Rightarrow>
          if qe_state entry \<noteq> Q_RESERVED then Inr acc
          else (case dj_get_by_id job_id d of
            None \<Rightarrow> Inl (QuotaInvariantError ''reserved entry references missing job'')
          | Some job \<Rightarrow>
            if dj_public_state job = DJ_READY
            then (case dj_completed_at job of
                None \<Rightarrow> Inl (QuotaInvariantError ''ready job lacks completion timestamp'')
              | Some completed_at \<Rightarrow>
                  if compatibility_mode
                  then andThen (consume_locked entry completed_at) (\<lambda>entry'.
                       andThen (qe_flush entry' d) (\<lambda>d'. Inr ((consumed + 1, released, expired), d')))
                  else andThen (reconcile_locked (fresh job_id) job entry now d) (\<lambda>(result, d').
                       Inr ((if ar_consumed result then consumed + 1 else consumed, released, expired), d')))
            else if dj_public_state job = DJ_FAILED
            then andThen (release_entry entry now False d) (\<lambda>d'. Inr ((consumed, released + 1, expired), d'))
            else if dj_public_state job = DJ_EXPIRED
            then andThen (release_entry entry now True d) (\<lambda>d'. Inr ((consumed, released, expired + 1), d'))
            else if qe_reservation_expires_at entry \<le> now \<and> dj_expires_at job \<le> now \<and>
                    dj_public_state job \<in> {DJ_QUEUED, DJ_DOWNLOADING}
            then andThen (dj_flush (dj_expired_row now job) d) (\<lambda>d1.
                 andThen (release_entry entry now True d1) (\<lambda>d2. Inr ((consumed, released, expired + 1), d2)))
            else Inr acc)))"

section \<open>The pass\<close>

definition quota_reconcile ::
  "pylib \<Rightarrow> Settings \<Rightarrow> (uuid \<Rightarrow> nat \<Rightarrow> uuid) \<Rightarrow> (uuid \<Rightarrow> bool) \<Rightarrow> (uuid \<Rightarrow> bool) \<Rightarrow> time \<Rightarrow> int \<Rightarrow> db \<Rightarrow>
     (ReconcileResult \<times> db) res" where
  "quota_reconcile py st fresh locked locked_clients now limit d =
     andThen (fold_res (quarantine_one py now) (ready_terminal_pairs limit d) d) (\<lambda>d1.
     andThen (fold_res (repair_one (st_ready_compatibility_mode st) fresh now) (reserved_candidates limit d1)
                ((0, 0, 0), d1)) (\<lambda>((consumed, released, expired), d2).
     andThen (delete_terminal_entries_before locked
                (now - seconds (st_free_download_quota_retention_seconds st)) limit d2) (\<lambda>(entries_deleted, d3).
     andThen (delete_expired_clients_without_entries locked_clients now limit d3) (\<lambda>(clients_deleted, d4).
       Inr (\<lparr>rc_consumed = consumed, rc_released = released, rc_expired = expired,
              rc_entries_deleted = entries_deleted, rc_clients_deleted = clients_deleted\<rparr>, d4)))))"

end
