(* ===== verification/Reservations.thy ===== *)
theory Reservations
  imports Download_Runs Quota_Reconcile
begin

text \<open>
  The quota and the queue together: no Free reservation outlives the job it was made for. The
  abstract state is the pair of the jobs that hold a reservation and the jobs that are still live
  (queued, downloading or ready); every operation is shown to give up the reservation of each job
  it ends.
\<close>

section \<open>Reserved and live jobs\<close>

definition live_state :: "MediaDownloadJobState \<Rightarrow> bool" where
  "live_state s \<longleftrightarrow> s \<in> {DJ_QUEUED, DJ_DOWNLOADING, DJ_READY}"

definition live_jobs :: "db \<Rightarrow> uuid set" where
  "live_jobs d = dj_id ` {j \<in> set (download_jobs d). live_state (dj_public_state j)}"

definition reserved_jobs :: "db \<Rightarrow> uuid set" where
  "reserved_jobs d = qe_download_job_id ` {e \<in> set (quota_entries d). qe_state e = Q_RESERVED}"

definition entries_wf :: "db \<Rightarrow> bool" where
  "entries_wf d \<longleftrightarrow> distinct (map qe_id (quota_entries d)) \<and> distinct (map qe_download_job_id (quota_entries d))"

definition core_wf :: "db \<Rightarrow> bool" where
  "core_wf d \<longleftrightarrow> downloads_wf d \<and> ranges_wf d \<and> entries_wf d"

text \<open>A step gives up what it ends: reservations only go away, and a live job that still holds one stays live.\<close>

definition settles :: "db \<Rightarrow> db \<Rightarrow> bool" where
  "settles d d' \<longleftrightarrow> (core_wf d \<longrightarrow> core_wf d' \<and> reserved_jobs d' \<subseteq> reserved_jobs d \<and>
     live_jobs d \<inter> reserved_jobs d' \<subseteq> live_jobs d')"

lemma settles_refl [simp]: "settles d d"
  by (simp add: settles_def)

lemma settles_trans: "settles a b \<Longrightarrow> settles b c \<Longrightarrow> settles a c"
  unfolding settles_def by blast

lemma settlesD:
  "settles d d' \<Longrightarrow> core_wf d \<Longrightarrow> reserved_jobs d \<subseteq> live_jobs d \<Longrightarrow>
     core_wf d' \<and> reserved_jobs d' \<subseteq> live_jobs d'"
  unfolding settles_def by blast

section \<open>Writing job rows\<close>

text \<open>A phase that writes job rows only: \<open>job_write d d'\<close>.\<close>

definition job_write :: "db \<Rightarrow> db \<Rightarrow> bool" where
  "job_write d d' \<longleftrightarrow> dj_evolves d d' \<and> quota_entries d' = quota_entries d \<and> ranges d' = ranges d"

lemma job_write_core: "job_write d d' \<Longrightarrow> core_wf d \<Longrightarrow> core_wf d' \<and> reserved_jobs d' = reserved_jobs d"
  by (simp add: job_write_def core_wf_def dj_evolves_def entries_wf_def ranges_wf_def reserved_jobs_def)

lemma job_write_settles: "job_write d d' \<Longrightarrow> live_jobs d \<subseteq> live_jobs d' \<Longrightarrow> settles d d'"
  unfolding settles_def using job_write_core by blast

lemma live_jobs_map:
  assumes "download_jobs d' = map (\<lambda>j. if P j then g j else j) (download_jobs d)"
    and "\<And>j. P j \<Longrightarrow> dj_id (g j) = dj_id j"
    and "\<And>j. P j \<Longrightarrow> live_state (dj_public_state (g j)) \<or> dj_id j = i"
  shows "live_jobs d - {i} \<subseteq> live_jobs d'"
proof
  fix x assume "x \<in> live_jobs d - {i}"
  then obtain j where j: "j \<in> set (download_jobs d)" "live_state (dj_public_state j)" "x = dj_id j" "x \<noteq> i"
    by (auto simp: live_jobs_def)
  let ?j = "if P j then g j else j"
  have "?j \<in> set (download_jobs d')" unfolding assms(1) using j(1) by (auto intro: rev_image_eqI)
  moreover have "live_state (dj_public_state ?j)" "dj_id ?j = x" using assms(2,3) [of j] j by auto
  ultimately show "x \<in> live_jobs d'" unfolding live_jobs_def by blast
qed

lemma live_jobs_map_all:
  assumes "download_jobs d' = map (\<lambda>j. if P j then g j else j) (download_jobs d)"
    and "\<And>j. P j \<Longrightarrow> dj_id (g j) = dj_id j" and "\<And>j. P j \<Longrightarrow> live_state (dj_public_state (g j))"
  shows "live_jobs d \<subseteq> live_jobs d'"
proof
  fix x assume "x \<in> live_jobs d"
  then obtain j where j: "j \<in> set (download_jobs d)" "live_state (dj_public_state j)" "x = dj_id j"
    by (auto simp: live_jobs_def)
  let ?j = "if P j then g j else j"
  have "?j \<in> set (download_jobs d')" unfolding assms(1) using j(1) by (auto intro: rev_image_eqI)
  moreover have "live_state (dj_public_state ?j)" "dj_id ?j = x" using assms(2,3) [of j] j by auto
  ultimately show "x \<in> live_jobs d'" unfolding live_jobs_def by blast
qed

lemma dj_updateD:
  assumes "dj_update P g d = Inr (b, d')"
  shows "download_jobs d' = map (\<lambda>j. if P j then g j else j) (download_jobs d)"
    "quota_entries d' = quota_entries d" "ranges d' = ranges d" "\<not> b \<Longrightarrow> d' = d"
proof -
  from assms obtain tab n where u: "update_where download_job_ok dj_rejected P g (download_jobs d) = Inr (tab, n)"
    and r: "b \<longleftrightarrow> n \<noteq> 0" "d' = d\<lparr>download_jobs := tab\<rparr>"
    by (auto simp: dj_update_def andThen_eq_Inr)
  note uD = update_where_InrD [OF u]
  show "download_jobs d' = map (\<lambda>j. if P j then g j else j) (download_jobs d)"
    "quota_entries d' = quota_entries d" "ranges d' = ranges d" using uD r by simp_all
  show "d' = d" if "\<not> b"
  proof -
    have "filter P (download_jobs d) = []" using uD r that by simp
    then have "\<And>j. j \<in> set (download_jobs d) \<Longrightarrow> \<not> P j" by (simp add: filter_empty_conv)
    then have "map (\<lambda>j. if P j then g j else j) (download_jobs d) = download_jobs d" by (simp add: map_idI)
    with uD r show ?thesis by simp
  qed
qed

lemma dj_flushD:
  assumes "dj_flush j' d = Inr d'"
  shows "download_jobs d' = put_row dj_id j' (download_jobs d)" "quota_entries d' = quota_entries d"
    "ranges d' = ranges d"
  using assms by (simp_all add: dj_flush_Inr)

lemma live_jobs_put:
  assumes "download_jobs d' = put_row dj_id j' (download_jobs d)"
  shows "live_jobs d - {dj_id j'} \<subseteq> live_jobs d'"
    and "live_state (dj_public_state j') \<Longrightarrow> live_jobs d \<subseteq> live_jobs d'"
proof -
  have eq: "download_jobs d' = map (\<lambda>j. if dj_id j = dj_id j' then j' else j) (download_jobs d)"
    using assms by (simp add: put_row_def)
  show "live_jobs d - {dj_id j'} \<subseteq> live_jobs d'" by (rule live_jobs_map [OF eq]) simp_all
  show "live_jobs d \<subseteq> live_jobs d'" if "live_state (dj_public_state j')"
    by (rule live_jobs_map_all [OF eq]) (simp_all add: that)
qed

section \<open>Giving a reservation up\<close>

text \<open>\<open>closes i d d'\<close>: job \<open>i\<close> holds no reservation afterwards; job rows and ranges are untouched.\<close>

definition closes :: "uuid \<Rightarrow> db \<Rightarrow> db \<Rightarrow> bool" where
  "closes i d d' \<longleftrightarrow> download_jobs d' = download_jobs d \<and> ranges d' = ranges d \<and>
     (entries_wf d \<longrightarrow> entries_wf d' \<and> reserved_jobs d' \<subseteq> reserved_jobs d - {i})"

lemma write_then_close:
  assumes "job_write d d1" and "live_jobs d - {i} \<subseteq> live_jobs d1" and "closes i d1 d2"
  shows "settles d d2"
  unfolding settles_def
proof (intro impI)
  assume wf: "core_wf d"
  note w = job_write_core [OF assms(1) wf]
  have "entries_wf d1" using w by (simp add: core_wf_def)
  then have c: "entries_wf d2" "reserved_jobs d2 \<subseteq> reserved_jobs d1 - {i}"
    "download_jobs d2 = download_jobs d1" "ranges d2 = ranges d1"
    using assms(3) by (simp_all add: closes_def)
  have "live_jobs d2 = live_jobs d1" using c(3) by (simp add: live_jobs_def)
  moreover have "core_wf d2" using w c by (simp add: core_wf_def downloads_wf_def ranges_wf_def)
  ultimately show "core_wf d2 \<and> reserved_jobs d2 \<subseteq> reserved_jobs d \<and> live_jobs d \<inter> reserved_jobs d2 \<subseteq> live_jobs d2"
    using w c(2) assms(2) by blast
qed

lemma closes_none:
  assumes "i \<notin> reserved_jobs d"
  shows "closes i d d"
  using assms by (auto simp: closes_def)

text \<open>Flushing the entry of a job in any state but reserved closes it.\<close>

lemma flush_closes:
  assumes "qe_flush e' d = Inr d'" and "lock_entry_for_download i d = Some e"
    and "qe_id e' = qe_id e" and "qe_download_job_id e' = qe_download_job_id e" and "qe_state e' \<noteq> Q_RESERVED"
  shows "closes i d d'"
proof -
  have d': "d' = d\<lparr>quota_entries := put_row qe_id e' (quota_entries d)\<rparr>" using assms(1) by (simp add: qe_flush_Inr)
  have e: "e \<in> set (quota_entries d)" "qe_download_job_id e = i"
    using row_by_SomeD [OF assms(2) [unfolded lock_entry_for_download_def]] by auto
  have "entries_wf d' \<and> reserved_jobs d' \<subseteq> reserved_jobs d - {i}" if wf: "entries_wf d"
  proof -
    have row: "row_by qe_id (qe_id e') (quota_entries d) = Some e"
      using e(1) wf assms(3) by (simp add: entries_wf_def row_by_Some_iff)
    have dist: "distinct (map qe_id (quota_entries d))" using wf by (simp add: entries_wf_def)
    have "map qe_download_job_id (put_row qe_id e' (quota_entries d)) = map qe_download_job_id (quota_entries d)"
      by (rule map_put_row_same [OF row assms(4) dist])
    then have "entries_wf d'" using wf by (simp add: entries_wf_def d')
    moreover have "reserved_jobs d' \<subseteq> reserved_jobs d - {i}"
    proof
      fix x assume "x \<in> reserved_jobs d'"
      then obtain y where y: "y \<in> set (put_row qe_id e' (quota_entries d))" "qe_state y = Q_RESERVED"
        "x = qe_download_job_id y" by (auto simp: reserved_jobs_def d')
      then obtain z where z: "z \<in> set (quota_entries d)" "y = (if qe_id z = qe_id e' then e' else z)"
        by (auto simp: put_row_def)
      have ne: "qe_id z \<noteq> qe_id e'" and yz: "y = z" using y(2) z(2) assms(5) by (auto split: if_split_asm)
      have "x \<noteq> i"
      proof
        assume "x = i"
        then have "qe_download_job_id z = qe_download_job_id e" using y(3) yz e(2) by simp
        then have "z = e" using wf z(1) e(1) unfolding entries_wf_def distinct_map inj_on_def by blast
        with ne assms(3) show False by simp
      qed
      then show "x \<in> reserved_jobs d - {i}" using y yz z(1) by (auto simp: reserved_jobs_def)
    qed
    ultimately show ?thesis by blast
  qed
  then show ?thesis by (simp add: closes_def d')
qed

lemma release_lockedD:
  "release_locked e now x = Inr e' \<Longrightarrow>
     qe_id e' = qe_id e \<and> qe_download_job_id e' = qe_download_job_id e \<and> qe_state e' \<notin> {Q_RESERVED, Q_CONSUMED}"
  by (cases "qe_state e") (auto simp: release_locked_def split: if_splits)

lemma consume_lockedD:
  "consume_locked e now = Inr e' \<Longrightarrow>
     qe_id e' = qe_id e \<and> qe_download_job_id e' = qe_download_job_id e \<and> qe_state e' = Q_CONSUMED \<and>
     qe_state e = Q_RESERVED"
  by (auto simp: consume_locked_def split: if_split_asm)

lemma no_entry_not_reserved: "lock_entry_for_download i d = None \<Longrightarrow> i \<notin> reserved_jobs d"
  by (auto simp: lock_entry_for_download_def reserved_jobs_def row_by_None_iff)

lemma quota_of_job:
  assumes "lock_quota_identity_for_job i d = Inr quota"
  shows "quota = None \<longleftrightarrow> lock_entry_for_download i d = None"
  using assms by (auto simp: lock_quota_identity_for_job_def identity_id_for_download_def
      lock_entry_for_download_def split: option.split_asm)

lemma release_closes:
  assumes "lock_quota_identity_for_job i d = Inr quota" and "quota_entries d1 = quota_entries d"
    and "release_quota_after_job_lock quota i x t d1 = Inr d2"
  shows "closes i d1 d2"
proof (cases "quota = None")
  case True
  then have "lock_entry_for_download i d1 = None"
    using quota_of_job [OF assms(1)] assms(2) by (simp add: lock_entry_for_download_def)
  then have "i \<notin> reserved_jobs d1" by (rule no_entry_not_reserved)
  with True assms(3) show ?thesis by (simp add: release_quota_after_job_lock_def closes_none)
next
  case False
  with assms(3) obtain e e' where e: "lock_entry_for_download i d1 = Some e" "release_locked e t x = Inr e'"
    "qe_flush e' d1 = Inr d2"
    by (auto simp: release_quota_after_job_lock_def andThen_eq_Inr split: option.split_asm)
  show ?thesis by (rule flush_closes [OF e(3,1)]) (use release_lockedD [OF e(2)] in simp_all)
qed

lemma consume_closes:
  assumes "quota \<noteq> None" and "consume_quota_after_job_lock quota i t d1 = Inr d2"
  shows "closes i d1 d2"
proof -
  from assms obtain e e' where e: "lock_entry_for_download i d1 = Some e" "consume_locked e t = Inr e'"
    "qe_flush e' d1 = Inr d2"
    by (auto simp: consume_quota_after_job_lock_def andThen_eq_Inr split: option.split_asm)
  show ?thesis by (rule flush_closes [OF e(3,1)]) (use consume_lockedD [OF e(2)] in simp_all)
qed

lemma closes_settles: "closes i d d' \<Longrightarrow> settles d d'"
  by (rule write_then_close [of d d i]) (auto simp: job_write_def)

section \<open>Every operation settles\<close>

lemmas live_defs = live_state_def held_defs

lemma update_write:
  assumes "dj_update P g d = Inr (b, d')" and "\<And>j. P j \<Longrightarrow> download_job_ok j \<Longrightarrow> dj_rel j (g j)"
  shows "job_write d d'"
  using dj_update_evolves [OF assms] dj_updateD [OF assms(1)] by (simp add: job_write_def)

lemma update_settles:
  assumes "dj_update P g d = Inr (b, d')" and "\<And>j. P j \<Longrightarrow> download_job_ok j \<Longrightarrow> dj_rel j (g j)"
    and "\<And>j. P j \<Longrightarrow> dj_id (g j) = dj_id j" and "\<And>j. P j \<Longrightarrow> live_state (dj_public_state (g j))"
  shows "settles d d'"
  by (rule job_write_settles [OF update_write [OF assms(1,2)] live_jobs_map_all [OF dj_updateD(1) [OF assms(1)] assms(3,4)]])

text \<open>A terminal update of job \<open>i\<close> followed by the release of its entry.\<close>

lemma update_release_settles:
  assumes "lock_quota_identity_for_job i d = Inr quota" and "dj_update P g d = Inr (b, d1)"
    and "\<And>j. P j \<Longrightarrow> dj_rel j (g j)" and "\<And>j. P j \<Longrightarrow> dj_id j = i"
    and "if b then release_quota_after_job_lock quota i x t d1 = Inr d' else d' = d1"
  shows "settles d d'"
proof (cases b)
  case True
  have w: "job_write d d1" by (rule update_write [OF assms(2,3)])
  have keep: "\<And>j. P j \<Longrightarrow> dj_id (g j) = dj_id j" using assms(3) dj_rel_keys by blast
  have live: "live_jobs d - {i} \<subseteq> live_jobs d1"
    by (rule live_jobs_map [OF dj_updateD(1) [OF assms(2)] keep]) (use assms(4) in simp_all)
  have "closes i d1 d'"
    by (rule release_closes [OF assms(1) dj_updateD(2) [OF assms(2)]]) (use True assms(5) in simp)
  then show ?thesis by (rule write_then_close [OF w live])
next
  case False
  then have "d' = d" using dj_updateD(4) [OF assms(2)] assms(5) by simp
  then show ?thesis by simp
qed

lemma fail_permanent_settles:
  assumes "dj_fail_permanent clk qclk i w f err d = Inr (ok, d')"
  shows "settles d d'"
proof -
  from assms obtain quota b d1 where q: "lock_quota_identity_for_job i d = Inr quota"
    and u: "dj_update (dj_live clk i w f) (dj_failed_row clk err) d = Inr (b, d1)"
    and r: "if b then release_quota_after_job_lock quota i False qclk d1 = Inr d' else d' = d1"
    by (auto simp: dj_fail_permanent_def andThen_eq_Inr split: if_split_asm)
  show ?thesis by (rule update_release_settles [OF q u failed_rel _ r]) (auto simp: held_defs)
qed

lemma complete_cancelled_settles:
  assumes "dj_complete_cancelled clk qclk i w f d = Inr (ok, d')"
  shows "settles d d'"
proof -
  from assms obtain quota b d1 where q: "lock_quota_identity_for_job i d = Inr quota"
    and u: "dj_update (\<lambda>j. dj_held i w f j \<and> dj_cancel_requested_at j \<noteq> None) (dj_cancelled_row clk) d = Inr (b, d1)"
    and r: "if b then release_quota_after_job_lock quota i False qclk d1 = Inr d' else d' = d1"
    by (auto simp: dj_complete_cancelled_def andThen_eq_Inr simp del: not_None_eq split: if_split_asm)
  show ?thesis by (rule update_release_settles [OF q u _ _ r]) (auto simp: held_defs intro: cancelled_rel)
qed

lemma complete_ready_settles:
  assumes "dj_complete_ready clk qclk i w f a b ct c consume d = Inr (ok, d')"
  shows "settles d d'"
proof -
  from assms obtain quota ok' d1 where
    u: "dj_update (dj_live clk i w f) (dj_ready_row clk a b ct c) d = Inr (ok', d1)"
    and r: "d' = d1 \<or> consume_quota_after_job_lock quota i qclk d1 = Inr d'"
    by (auto simp: dj_complete_ready_def andThen_eq_Inr split: if_split_asm)
  have "settles d d1"
    by (rule update_settles [OF u ready_rel]) (auto simp: row_defs live_state_def)
  moreover have "settles d1 d'"
  proof (cases "quota = None")
    case True
    with r have "d' = d1" by (auto simp: consume_quota_after_job_lock_def)
    then show ?thesis by simp
  next
    case False
    with r consume_closes [OF False] closes_settles settles_refl show ?thesis by blast
  qed
  ultimately show ?thesis by (rule settles_trans)
qed

lemma renew_settles: "dj_renew_lease clk i w f dur d = Inr (ok, d') \<Longrightarrow> settles d d'"
  unfolding dj_renew_lease_def by (erule update_settles) (auto simp: live_defs intro: renewed_rel)

lemma release_settles: "dj_release_to_queued clk i w f now d = Inr (ok, d') \<Longrightarrow> settles d d'"
  unfolding dj_release_to_queued_def dj_transitions_simps andThen_Inr
  by (erule update_settles, erule (1) released_rel) (simp_all add: row_defs live_state_def)

lemma retry_settles: "dj_fail_retry clk qclk i w f now bo err d = Inr (ok, d') \<Longrightarrow> settles d d'"
proof -
  assume r: "dj_fail_retry clk qclk i w f now bo err d = Inr (ok, d')"
  have upd: "settles d d'" if "dj_update (dj_live clk i w f)
      (\<lambda>j. (dj_requeued_row clk PS_RETRYING (now + max 0 bo) j)\<lparr>dj_public_error_code := None\<rparr>) d = Inr (ok, d')"
    by (rule update_settles [OF that], erule retried_rel) (simp_all add: row_defs live_state_def)
  show ?thesis
    using r fail_permanent_settles complete_cancelled_settles upd
    unfolding dj_fail_retry_def dj_transitions_simps andThen_Inr
    by (auto split: option.split_asm if_split_asm)
qed

text \<open>Flushing a loaded row: the job stays live, or it ends and its entry is released.\<close>

lemma flush_write:
  assumes "dj_flush j' d = Inr d'" and "find P (download_jobs d) = Some j" and "dj_rel j j'"
  shows "job_write d d'"
  using flush_found_evolves [OF assms] dj_flushD [OF assms(1)] by (simp add: job_write_def)

lemma flush_settles:
  assumes "dj_flush j' d = Inr d'" and "find P (download_jobs d) = Some j" and "dj_rel j j'"
    and "live_state (dj_public_state j')"
  shows "settles d d'"
  by (rule job_write_settles [OF flush_write [OF assms(1-3)] live_jobs_put(2) [OF dj_flushD(1) [OF assms(1)] assms(4)]])

lemma flush_release_settles:
  assumes "lock_quota_identity_for_job i d = Inr quota" and "dj_flush j' d = Inr d1"
    and "find P (download_jobs d) = Some j" and "dj_rel j j'" and "dj_id j = i"
    and "release_quota_after_job_lock quota i x t d1 = Inr d'"
  shows "settles d d'"
proof (rule write_then_close)
  show "job_write d d1" by (rule flush_write [OF assms(2-4)])
  have "dj_id j' = i" using dj_rel_keys [OF assms(4)] assms(5) by simp
  then show "live_jobs d - {i} \<subseteq> live_jobs d1" using live_jobs_put(1) [OF dj_flushD(1) [OF assms(2)]] by simp
  show "closes i d1 d'" by (rule release_closes [OF assms(1) dj_flushD(2) [OF assms(2)] assms(6)])
qed

lemma found_held:
  "find (\<lambda>j. dj_held i w f j \<and> Q j) (download_jobs d) = Some j \<Longrightarrow> live_state (dj_public_state j)"
  "find (\<lambda>j. dj_live clk i w f j \<and> Q j) (download_jobs d) = Some j \<Longrightarrow> live_state (dj_public_state j)"
  by (auto simp: live_defs dest!: found_row)

lemma stage_settles:
  assumes "dj_set_progress_stage i w f s now d = Inr (ok, d')"
  shows "settles d d'"
proof -
  let ?P = "\<lambda>j. dj_held i w f j \<and> dj_cancel_requested_at j = None"
  have "d' = d \<or> (\<exists>j row. find ?P (download_jobs d) = Some j \<and> dj_flush row d = Inr d' \<and> dj_rel j row \<and>
      dj_public_state row = dj_public_state j)"
    using assms stage_rel by (auto simp: dj_set_progress_stage_def andThen_eq_Inr
        split: if_split_asm option.split_asm)
  then show ?thesis
  proof (elim disjE exE conjE)
    fix j row assume a: "find ?P (download_jobs d) = Some j" "dj_flush row d = Inr d'" "dj_rel j row"
      "dj_public_state row = dj_public_state j"
    show ?thesis by (rule flush_settles [OF a(2,1,3)]) (use found_held(1) [OF a(1)] a(4) in simp)
  qed simp
qed

lemma percent_settles:
  assumes "dj_set_progress_percent clk i w f p now d = Inr (ok, d')"
  shows "settles d d'"
proof -
  let ?P = "\<lambda>j. dj_live clk i w f j \<and> dj_progress_stage j \<in> {PS_DOWNLOADING_VIDEO, PS_DOWNLOADING_AUDIO}"
  have "d' = d \<or> (\<exists>j row. find ?P (download_jobs d) = Some j \<and> dj_flush row d = Inr d' \<and> dj_rel j row \<and>
      dj_public_state row = dj_public_state j)"
    using assms stage_rel(2) by (auto simp: dj_set_progress_percent_def andThen_eq_Inr
        split: if_split_asm option.split_asm)
  then show ?thesis
  proof (elim disjE exE conjE)
    fix j row assume a: "find ?P (download_jobs d) = Some j" "dj_flush row d = Inr d'" "dj_rel j row"
      "dj_public_state row = dj_public_state j"
    show ?thesis by (rule flush_settles [OF a(2,1,3)]) (use found_held(2) [OF a(1)] a(4) in simp)
  qed simp
qed

lemma lease_settles: "dj_lease_status clk rclk i w f dur d = Inr (v, d') \<Longrightarrow> settles d d'"
  unfolding dj_lease_status_def
  by (auto simp: andThen_eq_Inr split: if_split_asm option.split_asm prod.split_asm intro: renew_settles)

lemma claim_settles:
  assumes "dj_claim_next locked clk w dur now limit d = Inr (js, d')"
  shows "settles d d'"
proof (cases "limit < 1 \<or> \<not> core_wf d")
  case True
  with assms show ?thesis by (auto simp: dj_claim_next_def settles_def)
next
  case False
  let ?rows = "dj_claim_select locked clk limit d" and ?g = "dj_claimed w (now + dur) now"
  from False assms obtain tab where
    w: "write_rows dj_id download_job_ok dj_rejected ?g ?rows (download_jobs d) = Inr tab"
    and d': "d' = d\<lparr>download_jobs := tab\<rparr>"
    by (auto simp: dj_claim_next_def Let_def andThen_eq_Inr split: if_splits)
  have wf: "downloads_wf d" using False by (simp add: core_wf_def)
  have sub: "set ?rows \<subseteq> set (download_jobs d)" using dj_claim_selectD by blast
  have "download_jobs d' = map (\<lambda>j. if j \<in> set ?rows then ?g j else j) (download_jobs d)"
    using write_rows_map [OF w _ dj_claim_select_distinct [OF wf] sub] wf
    by (simp add: d' downloads_wf_def dj_claimed_def)
  then have "live_jobs d \<subseteq> live_jobs d'"
    by (rule live_jobs_map_all) (simp_all add: dj_claimed_def live_state_def)
  moreover have "job_write d d'" using claim_evolves [OF assms] by (simp add: job_write_def d')
  ultimately show ?thesis by (rule job_write_settles [rotated])
qed

lemma enqueue_settles:
  assumes "dj_enqueue_or_get i rq now d = Inr (r, d')"
  shows "settles d d'"
proof -
  have "d' = d \<or> (\<exists>row. d' = d\<lparr>download_jobs := download_jobs d @ [row]\<rparr>)"
    using assms by (auto simp: dj_enqueue_or_get_def dj_insert_def Let_def split: if_splits sum.splits option.splits)
  then have "live_jobs d \<subseteq> live_jobs d'" "quota_entries d' = quota_entries d" "ranges d' = ranges d"
    by (auto simp: live_jobs_def)
  then show ?thesis using enqueue_evolves [OF assms] job_write_settles by (simp add: job_write_def)
qed

lemma cancel_settles:
  assumes "dj_request_cancel qclk i now d = Inr (r, d')"
  shows "settles d d'"
proof -
  from assms obtain quota where q: "lock_quota_identity_for_job i d = Inr quota"
    by (auto simp: dj_request_cancel_def andThen_eq_Inr)
  show ?thesis
  proof (cases "dj_get_by_id i d")
    case None
    with assms q show ?thesis by (simp add: dj_request_cancel_def)
  next
    case (Some j)
    have f: "find (\<lambda>j. dj_id j = i) (download_jobs d) = Some j" and id: "dj_id j = i"
      using Some row_by_SomeD [of dj_id i "download_jobs d" j] by (simp_all add: dj_get_by_id_def row_by_def)
    consider (same) "d' = d"
      | (queued) d1 where "dj_public_state j = DJ_QUEUED"
          "dj_flush (apply_stored_cancel now (j\<lparr>dj_cancel_requested_at := Some now\<rparr>)) d = Inr d1"
          "release_quota_after_job_lock quota i False qclk d1 = Inr d'"
      | (running) "dj_public_state j = DJ_DOWNLOADING"
          "dj_flush (j\<lparr>dj_cancel_requested_at := Some now, dj_updated_at := now\<rparr>) d = Inr d'"
      using assms q Some by (auto simp: dj_request_cancel_def andThen_eq_Inr Let_def split: if_split_asm)
    then show ?thesis
    proof cases
      case queued
      show ?thesis
        by (rule flush_release_settles [OF q queued(2) f stored_cancel_rel id queued(3)]) (simp add: queued)
    next
      case running
      show ?thesis
        by (rule flush_settles [OF running(2) f cancel_mark_rel]) (simp_all add: running live_state_def)
    qed simp
  qed
qed

lemma fold_settles:
  assumes "fold_res step xs (a, d) = Inr (a', d')"
    and "\<And>x a d a' d'. step x (a, d) = Inr (a', d') \<Longrightarrow> settles d d'"
  shows "settles d d'"
proof -
  have "case (a', d') of (_, s) \<Rightarrow> settles d s"
    by (rule fold_res_invariant [OF assms(1)]) (use assms(2) settles_trans in \<open>auto split: prod.splits\<close>)
  then show ?thesis by simp
qed

lemma reclaim_one_settles:
  assumes "dj_reclaim_one locked rclk qclk now i (n, d) = Inr (n', d')"
  shows "settles d d'"
proof -
  from assms obtain quota where q: "lock_quota_identity_for_job i d = Inr quota"
    by (auto simp: dj_reclaim_one_def andThen_eq_Inr)
  let ?P = "\<lambda>j. dj_id j = i \<and> dj_reclaimable (rclk i) j \<and> \<not> locked i"
  show ?thesis
  proof (cases "find ?P (download_jobs d)")
    case None
    with assms q show ?thesis by (simp add: dj_reclaim_one_def)
  next
    case (Some j)
    have down: "dj_public_state j = DJ_DOWNLOADING" "dj_id j = i"
      using found_row [OF Some] by (simp_all add: dj_reclaimable_def)
    have "\<exists>row d1. dj_flush row d = Inr d1 \<and> dj_rel j row \<and>
        (release_quota_after_job_lock quota i False (qclk i) d1 = Inr d' \<or>
         d' = d1 \<and> live_state (dj_public_state row))"
    proof (cases "dj_cancel_requested_at j = None")
      case True
      have st: "dj_attempt_count j < dj_max_attempts j \<Longrightarrow> live_state (dj_public_state (dj_reclaimed now j))"
        by (simp add: dj_reclaimed_def Let_def row_defs live_state_def)
      show ?thesis using assms q Some reclaimed_rel [OF down(1) True, of now] True st
        by (auto simp: dj_reclaim_one_def andThen_eq_Inr Let_def split: if_split_asm)
    next
      case False
      with assms q Some reclaim_cancel_rel [OF down(1), of now] show ?thesis
        by (auto simp: dj_reclaim_one_def andThen_eq_Inr)
    qed
    then show ?thesis
    proof (elim exE conjE disjE)
      fix row d1 assume "dj_flush row d = Inr d1" "dj_rel j row"
        "release_quota_after_job_lock quota i False (qclk i) d1 = Inr d'"
      then show ?thesis using flush_release_settles [OF q _ Some _ down(2)] by blast
    next
      fix row d1 assume "dj_flush row d = Inr d1" "dj_rel j row" "d' = d1" "live_state (dj_public_state row)"
      then show ?thesis using flush_settles [OF _ Some] by blast
    qed
  qed
qed

lemma reclaim_settles:
  "dj_reclaim_expired_leases locked clk rclk qclk now d = Inr (n, d') \<Longrightarrow> settles d d'"
  unfolding dj_reclaim_expired_leases_def by (erule fold_settles) (rule reclaim_one_settles)

text \<open>Expiry: a job that ends holds no reservation any more, whatever its entry was.\<close>

lemma closes_settled:
  assumes "lock_entry_for_download i d = Some x" and "qe_state x \<noteq> Q_RESERVED"
  shows "closes i d d"
proof -
  have x: "x \<in> set (quota_entries d)" "qe_download_job_id x = i"
    using row_by_SomeD [OF assms(1) [unfolded lock_entry_for_download_def]] by auto
  have "i \<notin> reserved_jobs d" if "entries_wf d"
  proof
    assume "i \<in> reserved_jobs d"
    then obtain e where "e \<in> set (quota_entries d)" "qe_state e = Q_RESERVED" "qe_download_job_id e = qe_download_job_id x"
      using x(2) by (auto simp: reserved_jobs_def)
    with that x(1) assms(2) show False unfolding entries_wf_def distinct_map inj_on_def by metis
  qed
  then show ?thesis by (auto simp: closes_def)
qed

lemma revoke_tables:
  "revoke_active_grants_locked i now d = Inr d' \<Longrightarrow>
     download_jobs d' = download_jobs d \<and> quota_entries d' = quota_entries d \<and> ranges d' = ranges d"
  by (auto simp: revoke_active_grants_locked_def revoke_grants_def andThen_eq_Inr)

lemma flush_expired_write:
  assumes "dj_flush (dj_expired_row now j) d1 = Inr d2" and "find P (download_jobs d) = Some j"
    and "download_jobs d1 = download_jobs d" "quota_entries d1 = quota_entries d" "ranges d1 = ranges d"
  shows "job_write d d2 \<and> live_jobs d - {dj_id j} \<subseteq> live_jobs d2"
proof -
  have "live_jobs d1 - {dj_id (dj_expired_row now j)} \<subseteq> live_jobs d2"
    by (rule live_jobs_put(1) [OF dj_flushD(1) [OF assms(1)]])
  moreover have "live_jobs d1 = live_jobs d" "dj_id (dj_expired_row now j) = dj_id j"
    using assms(3) by (simp_all add: live_jobs_def row_defs)
  ultimately show ?thesis
    using flush_expired_evolves [OF assms(1-3)] dj_flushD [OF assms(1)] assms(4,5) by (simp add: job_write_def)
qed

lemma expire_job_settles:
  assumes "dj_expire_job now qnow j e arts d = Inr (arts', d')" and "find P (download_jobs d) = Some j"
    and "lock_entry_for_download (dj_id j) d = e"
  shows "settles d d'"
  using assms(1)
proof (rule expire_jobD)
  fix d1 d2
  assume r: "if dj_public_state j = DJ_READY then revoke_active_grants_locked (dj_id j) now d = Inr d1 else d1 = d"
    and fl: "dj_flush (dj_expired_row now j) d1 = Inr d2"
    and q: "\<And>x. e = Some x \<Longrightarrow> qe_state x = Q_RESERVED \<Longrightarrow>
       \<exists>x'. release_locked x qnow True = Inr x' \<and> qe_flush x' d2 = Inr d'"
    and s: "e = None \<or> qe_state (the e) \<noteq> Q_RESERVED \<Longrightarrow> d' = d2"
  have t: "download_jobs d1 = download_jobs d" "quota_entries d1 = quota_entries d" "ranges d1 = ranges d"
    using r revoke_tables by (auto split: if_split_asm)
  note w = flush_expired_write [OF fl assms(2) t]
  have e2: "lock_entry_for_download (dj_id j) d2 = e"
    using assms(3) t(2) dj_flushD(2) [OF fl] by (simp add: lock_entry_for_download_def)
  have "closes (dj_id j) d2 d'"
  proof (cases e)
    case None
    with s e2 show ?thesis by (simp add: closes_none no_entry_not_reserved)
  next
    case (Some x)
    show ?thesis
    proof (cases "qe_state x = Q_RESERVED")
      case True
      from q [OF Some this] obtain x' where x': "release_locked x qnow True = Inr x'" "qe_flush x' d2 = Inr d'" by blast
      show ?thesis by (rule flush_closes [OF x'(2) e2 [unfolded Some]]) (use release_lockedD [OF x'(1)] in simp_all)
    next
      case False
      with s Some have "d' = d2" by simp
      with closes_settled [OF e2 [unfolded Some] False] show ?thesis by simp
    qed
  qed
  with w show ?thesis using write_then_close by blast
qed

lemma quarantine_settles:
  assumes "quarantine_ready_terminal_quota_locked j x now arts d = Inr (b, arts', d')"
    and "find P (download_jobs d) = Some j" and "lock_entry_for_download (dj_id j) d = Some x"
    and "qe_state x \<noteq> Q_RESERVED"
  shows "settles d d'"
proof (cases "has_live_attempt_locked x now d")
  case True
  with assms(1) show ?thesis by (simp add: quarantine_ready_terminal_quota_locked_def)
next
  case False
  with assms(1) obtain d1 where r: "revoke_active_grants_locked (dj_id j) now d = Inr d1"
    and fl: "dj_flush (dj_expired_row now j) d1 = Inr d'"
    by (auto simp: quarantine_ready_terminal_quota_locked_def andThen_eq_Inr dest!: apply_expiredD)
  note t = revoke_tables [OF r]
  have w: "job_write d d' \<and> live_jobs d - {dj_id j} \<subseteq> live_jobs d'"
    by (rule flush_expired_write [OF fl assms(2)]) (use t in simp_all)
  have "lock_entry_for_download (dj_id j) d' = Some x"
    using assms(3) t dj_flushD(2) [OF fl] by (simp add: lock_entry_for_download_def)
  then have "closes (dj_id j) d' d'" by (rule closes_settled [OF _ assms(4)])
  with w show ?thesis using write_then_close by blast
qed

text \<open>The ledger changes entries only from reserved to consumed.\<close>

lemma keyed_column_eq:
  assumes "map key ys = map key xs" and "distinct (map key xs)"
    and "\<And>i x. row_by key i xs = Some x \<Longrightarrow> \<exists>y. row_by key i ys = Some y \<and> g y = g x"
  shows "map g ys = map g xs"
proof (rule nth_equalityI)
  show len: "length (map g ys) = length (map g xs)" using arg_cong [OF assms(1), of length] by simp
  fix k assume k: "k < length (map g ys)"
  then have kx: "k < length xs" and ky: "k < length ys" using len by simp_all
  have key: "key (ys ! k) = key (xs ! k)" using arg_cong [OF assms(1), of "\<lambda>l. l ! k"] kx ky by simp
  have "row_by key (key (xs ! k)) xs = Some (xs ! k)" using kx assms(2) by (simp add: row_by_Some_iff)
  then obtain y where y: "row_by key (key (xs ! k)) ys = Some y" "g y = g (xs ! k)" using assms(3) by blast
  have "row_by key (key (xs ! k)) ys = Some (ys ! k)"
    using ky key assms(1,2) by (simp add: row_by_Some_iff)
  with y kx ky show "map g ys ! k = map g xs ! k" by simp
qed

lemma accounts_settles:
  assumes "core_wf d \<Longrightarrow> accounts d d' \<and> ranges_wf d'"
  shows "settles d d'"
  unfolding settles_def
proof (intro impI)
  assume wf: "core_wf d"
  then have acc: "accounts d d'" and rw: "ranges_wf d'" using assms by simp_all
  have keys: "map qe_id (quota_entries d') = map qe_id (quota_entries d)" and jobs: "download_jobs d' = download_jobs d"
    using acc by (simp_all add: accounts_def)
  have dist: "distinct (map qe_id (quota_entries d))" using wf by (simp add: core_wf_def entries_wf_def)
  have row: "\<exists>e'. row_by qe_id i (quota_entries d') = Some e' \<and> qe_download_job_id e' = qe_download_job_id e \<and>
      (qe_state e' = Q_RESERVED \<longrightarrow> qe_state e = Q_RESERVED)" if "row_by qe_id i (quota_entries d) = Some e" for i e
    using acc that unfolding accounts_def by (metis quota_state.distinct(1))
  have col: "map qe_download_job_id (quota_entries d') = map qe_download_job_id (quota_entries d)"
    by (rule keyed_column_eq [OF keys dist]) (use row in blast)
  have "entries_wf d'" using wf keys col by (simp add: core_wf_def entries_wf_def)
  then have core: "core_wf d'" using wf rw jobs by (simp add: core_wf_def downloads_wf_def)
  have "reserved_jobs d' \<subseteq> reserved_jobs d"
  proof
    fix x assume "x \<in> reserved_jobs d'"
    then obtain e' where e': "e' \<in> set (quota_entries d')" "qe_state e' = Q_RESERVED" "x = qe_download_job_id e'"
      by (auto simp: reserved_jobs_def)
    have "qe_id e' \<in> set (map qe_id (quota_entries d))" using e'(1) keys by (metis image_eqI list.set_map)
    then obtain e where e: "e \<in> set (quota_entries d)" "qe_id e = qe_id e'" by auto
    then have "row_by qe_id (qe_id e') (quota_entries d) = Some e" using dist by (simp add: row_by_Some_iff)
    from row [OF this] obtain y where y: "row_by qe_id (qe_id e') (quota_entries d') = Some y"
      "qe_download_job_id y = qe_download_job_id e" "qe_state y = Q_RESERVED \<longrightarrow> qe_state e = Q_RESERVED" by blast
    have "row_by qe_id (qe_id e') (quota_entries d') = Some e'"
      using e'(1) dist keys by (simp add: row_by_Some_iff)
    with y e'(2) have "qe_download_job_id e' = qe_download_job_id e \<and> qe_state e = Q_RESERVED" by simp
    with e(1) e'(3) show "x \<in> reserved_jobs d" by (auto simp: reserved_jobs_def)
  qed
  moreover have "live_jobs d' = live_jobs d" using jobs by (simp add: live_jobs_def)
  ultimately show "core_wf d' \<and> reserved_jobs d' \<subseteq> reserved_jobs d \<and> live_jobs d \<inter> reserved_jobs d' \<subseteq> live_jobs d'"
    using core by blast
qed

lemma core_ledger: "core_wf d \<Longrightarrow> ledger_wf d"
  by (simp add: core_wf_def entries_wf_def ledger_wf_def)

lemma ready_size: "download_job_ok j \<Longrightarrow> dj_public_state j = DJ_READY \<Longrightarrow> 0 < artifact_size j"
  by (auto simp: download_job_ok_def download_job_result_ok_def artifact_size_def)

lemma reconcile_settles:
  assumes "reconcile_locked fr j x now d = Inr (r, d1)" and "find P (download_jobs d) = Some j"
    and "lock_entry_for_download (dj_id j) d = Some x" and "dj_public_state j = DJ_READY"
  shows "settles d d1"
proof (rule accounts_settles)
  assume wf: "core_wf d"
  have lw: "ledger_wf d" by (rule core_ledger [OF wf])
  have dw: "downloads_wf d" using wf by (simp add: core_wf_def)
  have x: "row_by qe_id (qe_id x) (quota_entries d) = Some x"
    using entry_by_id assms(3) lw by (simp add: ledger_wf_def)
  have j: "dj_get_by_id (dj_id j) d = Some j" "download_job_ok j" using stored_found [OF dw assms(2)] by simp_all
  have "qe_download_job_id x = dj_id j"
    using row_by_SomeD [OF assms(3) [unfolded lock_entry_for_download_def]] by simp
  then have "row_by dj_id (qe_download_job_id x) (download_jobs d) = Some j" using j by (simp add: dj_get_by_id_def)
  then show "accounts d d1 \<and> ranges_wf d1"
    by (rule reconcile_accounts [OF assms(1) lw x _ ready_size [OF j(2) assms(4)]])
qed

lemma expire_body_settles:
  assumes "dj_expire_body py locked rclk qclk fresh now i arts d = Inr (arts', d')"
  shows "settles d d'"
  using assms
proof (cases rule: expire_bodyD)
  case (plain j e)
  have "dj_id j = i" using found_row [OF plain(1)] by simp
  moreover have "lock_entry_for_download i d = e"
    using plain(3) by (cases e) (auto simp: identity_id_for_download_def lock_entry_for_download_def)
  ultimately show ?thesis using expire_job_settles [OF plain(2,1)] by simp
next
  case (quarantined j x b)
  have "dj_id j = i" using found_row [OF quarantined(1)] by simp
  then show ?thesis using quarantine_settles [OF quarantined(4,1)] quarantined(2,3) by auto
next
  case (reconciled j x r d1)
  have id: "dj_id j = i" using found_row [OF reconciled(1)] by simp
  have s1: "settles d d1" using reconcile_settles [OF reconciled(5,1)] reconciled(2,4) id by simp
  have same: "download_jobs d1 = download_jobs d" by (rule reconcile_jobs [OF reconciled(5)])
  have f1: "find (\<lambda>j. dj_id j = i \<and> dj_due (rclk i) j \<and> \<not> locked i) (download_jobs d1) = Some j"
    using reconciled(1) same by simp
  from reconciled(6) show ?thesis
  proof (elim disjE conjE exE)
    fix x1 assume x1: "lock_entry_for_download i d1 = Some x1"
      and ex: "dj_expire_job now (qclk i) j (Some x1) arts d1 = Inr (arts', d')"
    have "settles d1 d'" by (rule expire_job_settles [OF ex f1]) (use x1 id in simp)
    with s1 show ?thesis by (rule settles_trans)
  qed (use s1 in simp)
qed simp

lemma expire_one_settles:
  "dj_expire_one py locked rclk qclk fresh now i (arts, d) = Inr (arts', d') \<Longrightarrow> settles d d'"
  using expire_oneD expire_body_settles settles_refl by metis

lemma expire_settles:
  "dj_expire_due_jobs py locked clk rclk qclk fresh now d = Inr (arts, d') \<Longrightarrow> settles d d'"
  unfolding dj_expire_due_jobs_def
  by (erule fold_settles) (rule expire_one_settles)

lemma same_tables_settles:
  assumes "download_jobs d' = download_jobs d" and "quota_entries d' = quota_entries d" and "ranges d' = ranges d"
  shows "settles d d'"
  using assms by (simp add: settles_def core_wf_def downloads_wf_def ranges_wf_def entries_wf_def
      reserved_jobs_def live_jobs_def)

lemma upgrade_quota_gives_up:
  assumes "upgrade_quota c e job now d = Inr d'" and "lock_entry_for_download (dj_id job) d = Some e"
  shows "settles d d'"
proof -
  from assms(1) obtain d1 full where c: "close_stale now (lock_ranges (qe_id e) d) d = Inr d1"
    and rule: "apply_quota_rule e full now d1 = Inr d'"
    by (auto simp: upgrade_quota_def upgrade_close_stale_eq andThen_eq_Inr Let_def split: if_split_asm)
  have k: "keeps_evidence d d1" if "core_wf d"
    using close_lock_keeps [of now "\<lambda>_. True" "qe_id e" d d1] c that by (simp add: core_wf_def)
  have s1: "settles d d1"
    by (rule accounts_settles) (use k keeps_accounts keeps_evidence_def in blast)
  show ?thesis
  proof (cases "core_wf d")
    case True
    then have "lock_entry_for_download (dj_id job) d1 = Some e"
      using k ranges_only_tables [of d d1] assms(2) by (simp add: keeps_evidence_def lock_entry_for_download_def)
    then have "settles d1 d'"
      using apply_quota_ruleD [OF rule] flush_closes closes_settles settles_refl
      by (metis quota_state.distinct(1,3))
    with s1 show ?thesis by (rule settles_trans)
  qed (simp add: settles_def)
qed

lemma upgrade_settles:
  assumes "upgrade py sha s q now pclk i tok c d = Inr ((job', b), d')"
  shows "settles d d'"
  using assms
proof (rule upgradeD)
  fix h job parent f pol ident
  assume job: "lock_download_job i d = Some job" and guards: "upgrade_guards job now = Inr ()"
    and fmt: "upgrade_format py job = Inr f"
    and or: "(edp_tier pol = ''premium'' \<and> ident = Some c \<and> job' = job \<and> \<not> b \<and> d' = d) \<or>
       (edp_tier pol = ''free'' \<and> promote py s q now pclk c job d = Inr ((job', b), d'))"
  show "settles d d'"
  proof (cases "d' = d")
    case False
    with or have pr: "promote py s q now pclk c job d = Inr ((job', b), d')" by blast
    from pr show ?thesis
    proof (rule promoteD)
      fix d1 d2 pol' snap
      assume qd: "case lock_entry_for_download (dj_id job) d of
           None \<Rightarrow> \<not> q \<and> d1 = d | Some e \<Rightarrow> upgrade_quota c e job now d = Inr d1"
        and snap: "attach_effective_policy_snapshot py (format_only job) pol' (Some c) = Inr snap"
        and job': "job' = job\<lparr>dj_selected_format_snapshot := JObj snap, dj_updated_at := now\<rparr>"
        and rev: "revoke_grants (list_active_for_job (dj_id job) now d1) now d1 = Inr d2"
        and fl: "dj_flush job' d2 = Inr d'"
      have s1: "settles d d1"
        using qd upgrade_quota_gives_up by (cases "lock_entry_for_download (dj_id job) d") auto
      have "download_jobs d1 = download_jobs d"
        using qd upgrade_quota_jobs by (cases "lock_entry_for_download (dj_id job) d") auto
      then have same: "download_jobs d2 = download_jobs d" using rev by (auto simp: revoke_grants_def andThen_eq_Inr)
      have s2: "settles d1 d2" by (rule same_tables_settles) (use rev in \<open>auto simp: revoke_grants_def andThen_eq_Inr\<close>)
      obtain obj where obj: "dj_selected_format_snapshot job = JObj obj" using upgrade_format_obj [OF fmt] by blast
      have rel: "dj_rel job job'" unfolding job' by (rule promoted_rel [OF obj snap])
      have f: "find (\<lambda>j. dj_id j = i) (download_jobs d2) = Some job"
        using job same by (simp add: lock_download_job_def row_by_def)
      have "live_state (dj_public_state job')"
        using guards by (simp add: job' upgrade_guards_def live_state_def split: if_split_asm)
      then have "settles d2 d'" by (rule flush_settles [OF fl f rel])
      with s1 s2 show ?thesis using settles_trans by blast
    qed
  qed simp
qed

lemmas op_settles = enqueue_settles claim_settles renew_settles lease_settles stage_settles percent_settles
  complete_ready_settles fail_permanent_settles retry_settles release_settles complete_cancelled_settles
  cancel_settles reclaim_settles expire_settles upgrade_settles

lemma queue_op_settles: "queue_op d d' \<Longrightarrow> settles d d'"
  by (induction rule: queue_op.induct) (erule op_settles)+

section \<open>The repair pass\<close>

lemma found_get: "dj_get_by_id i d = Some j \<Longrightarrow> find (\<lambda>j. dj_id j = i) (download_jobs d) = Some j \<and> dj_id j = i"
  using row_by_SomeD [of dj_id i "download_jobs d" j] by (simp add: dj_get_by_id_def row_by_def)

lemma quarantine_one_settles:
  assumes "quarantine_one py now pair d = Inr d'"
  shows "settles d d'"
proof (cases "quarantine_body py now pair d")
  case (Inl e)
  with assms have "d' = d" by (cases e) (simp_all add: quarantine_one_def)
  then show ?thesis by simp
next
  case (Inr d1)
  obtain c i where pair: "pair = (c, i)" by (cases pair)
  from assms Inr have d1: "quarantine_body py now (c, i) d = Inr d'" by (simp add: quarantine_one_def pair)
  show ?thesis
  proof (cases "d' = d")
    case False
    with d1 obtain j x b arts where j: "dj_get_by_id i d = Some j" and x: "lock_entry_for_download i d = Some x"
      and st: "qe_state x \<noteq> Q_RESERVED"
      and q: "quarantine_ready_terminal_quota_locked j x now [] d = Inr (b, arts, d')"
      by (auto simp: quarantine_body_def andThen_eq_Inr split: option.split_asm if_split_asm)
    from found_get [OF j] have "find (\<lambda>j. dj_id j = i) (download_jobs d) = Some j" "dj_id j = i" by simp_all
    with quarantine_settles [OF q _ _ st] x show ?thesis by blast
  qed simp
qed

lemma release_entry_closes:
  assumes "release_entry x now expired d = Inr d'" and "lock_entry_for_download i d = Some x"
  shows "closes i d d'"
proof -
  from assms(1) obtain x' where "release_locked x now expired = Inr x'" "qe_flush x' d = Inr d'"
    by (auto simp: release_entry_def andThen_eq_Inr)
  then show ?thesis using flush_closes [OF _ assms(2)] release_lockedD by blast
qed

text \<open>What one iteration does: nothing to a live job but the ledger's work, and the end of any other.\<close>

lemma repair_one_cases:
  assumes "repair_one m fresh now (c, i) (k, d) = Inr (k', d')"
  obtains (untouched) "d' = d" and "i \<notin> reserved_jobs d"
  | (unchanged) j where "d' = d" and "dj_get_by_id i d = Some j" and "dj_public_state j \<notin> {DJ_READY, DJ_FAILED, DJ_EXPIRED}"
  | (closed) "closes i d d'"
  | (accounted) j x r where "dj_get_by_id i d = Some j" and "dj_public_state j = DJ_READY"
      and "lock_entry_for_download i d = Some x" and "qe_state x = Q_RESERVED"
      and "reconcile_locked (fresh i) j x now d = Inr (r, d')"
  | (ended) j d1 where "dj_get_by_id i d = Some j" and "dj_public_state j \<in> {DJ_QUEUED, DJ_DOWNLOADING}"
      and "dj_flush (dj_expired_row now j) d = Inr d1" and "closes i d1 d'"
proof (cases "lock_entry_for_download i d")
  case None
  with assms have "d' = d" by (auto simp: repair_one_def split: prod.split_asm if_split_asm)
  with None no_entry_not_reserved untouched show thesis by blast
next
  case (Some x)
  obtain a b e where k: "k = (a, b, e)" by (cases k)
  show thesis
  proof (cases "qe_state x = Q_RESERVED")
    case False
    with assms Some k have "d' = d" by (auto simp: repair_one_def split: if_split_asm)
    moreover have "i \<notin> reserved_jobs d \<or> closes i d d" using closes_settled [OF Some False] by blast
    ultimately show thesis using untouched closed by blast
  next
    case True
    with assms Some k obtain j where j: "dj_get_by_id i d = Some j"
      by (auto simp: repair_one_def split: if_split_asm option.split_asm)
    consider (ready) "dj_public_state j = DJ_READY" | (failed) "dj_public_state j = DJ_FAILED"
      | (expired) "dj_public_state j = DJ_EXPIRED" | (other) "dj_public_state j \<notin> {DJ_READY, DJ_FAILED, DJ_EXPIRED}"
      by blast
    then show thesis
    proof cases
      case ready
      with assms Some True k j consider (compat) t x' where "consume_locked x t = Inr x'" "qe_flush x' d = Inr d'"
        | (ledger) r where "reconcile_locked (fresh i) j x now d = Inr (r, d')"
        by (auto simp: repair_one_def andThen_eq_Inr split: if_split_asm option.split_asm)
      then show thesis
      proof cases
        case compat
        have "closes i d d'" by (rule flush_closes [OF compat(2) Some]) (use consume_lockedD [OF compat(1)] in simp_all)
        then show thesis by (rule closed)
      next
        case ledger
        show thesis by (rule accounted [OF j ready Some True ledger])
      qed
    next
      case failed
      with assms Some True k j have "release_entry x now False d = Inr d'"
        by (auto simp: repair_one_def andThen_eq_Inr split: if_split_asm)
      then show thesis using release_entry_closes [OF _ Some] closed by blast
    next
      case expired
      with assms Some True k j have "release_entry x now True d = Inr d'"
        by (auto simp: repair_one_def andThen_eq_Inr split: if_split_asm)
      then show thesis using release_entry_closes [OF _ Some] closed by blast
    next
      case other
      with assms Some True k j consider (skip) "d' = d"
        | (due) d1 where "dj_public_state j \<in> {DJ_QUEUED, DJ_DOWNLOADING}" "dj_flush (dj_expired_row now j) d = Inr d1"
            "release_entry x now True d1 = Inr d'"
        by (auto simp: repair_one_def andThen_eq_Inr split: if_split_asm)
      then show thesis
      proof cases
        case skip
        show thesis by (rule unchanged [OF skip j other])
      next
        case due
        have "lock_entry_for_download i d1 = Some x"
          using Some dj_flushD(2) [OF due(2)] by (simp add: lock_entry_for_download_def)
        then have "closes i d1 d'" by (rule release_entry_closes [OF due(3)])
        then show thesis by (rule ended [OF j due(1,2)])
      qed
    qed
  qed
qed

lemma get_live:
  assumes "dj_get_by_id i d = Some j" and "live_state (dj_public_state j)"
  shows "i \<in> live_jobs d"
  using row_by_SomeD [OF assms(1) [unfolded dj_get_by_id_def]] assms(2) by (auto simp: live_jobs_def)

lemma repair_one_settles:
  assumes "repair_one m fresh now (c, i) (k, d) = Inr (k', d')"
  shows "settles d d'" and "core_wf d \<Longrightarrow> i \<in> reserved_jobs d' \<Longrightarrow> i \<in> live_jobs d'"
proof -
  have "settles d d' \<and> (core_wf d \<longrightarrow> i \<in> reserved_jobs d' \<longrightarrow> i \<in> live_jobs d')"
    using assms
  proof (cases rule: repair_one_cases)
    case (unchanged j)
    have "i \<in> live_jobs d" if "core_wf d"
    proof (rule get_live [OF unchanged(2)])
      have "download_job_ok j" using that found_get [OF unchanged(2)] found_row
        by (fastforce simp: core_wf_def downloads_wf_def)
      then show "live_state (dj_public_state j)"
        using unchanged(3) by (cases "dj_public_state j") (auto simp: live_state_def download_job_ok_def)
    qed
    with unchanged(1) show ?thesis by simp
  next
    case closed
    then have "core_wf d \<Longrightarrow> i \<notin> reserved_jobs d'" by (auto simp: closes_def core_wf_def)
    with closes_settles [OF closed] show ?thesis by blast
  next
    case (accounted j x r)
    note f = found_get [OF accounted(1)]
    have s: "settles d d'"
      by (rule reconcile_settles [OF accounted(5) f [THEN conjunct1]]) (use f accounted in simp_all)
    have "i \<in> live_jobs d" by (rule get_live [OF accounted(1)]) (simp add: accounted live_state_def)
    moreover have "live_jobs d' = live_jobs d" using reconcile_jobs [OF accounted(5)] by (simp add: live_jobs_def)
    ultimately show ?thesis using s by simp
  next
    case (ended j d1)
    note f = found_get [OF ended(1)]
    have w: "job_write d d1 \<and> live_jobs d - {dj_id j} \<subseteq> live_jobs d1"
      by (rule flush_expired_write [OF ended(3) f [THEN conjunct1]]) simp_all
    have s: "settles d d'" by (rule write_then_close [of d d1 i d']) (use w f ended(4) in simp_all)
    have "entries_wf d1" if "core_wf d" using job_write_core [of d d1] w that by (simp add: core_wf_def)
    then have "core_wf d \<Longrightarrow> i \<notin> reserved_jobs d'" using ended(4) by (auto simp: closes_def)
    with s show ?thesis by blast
  qed simp
  then show "settles d d'" "core_wf d \<Longrightarrow> i \<in> reserved_jobs d' \<Longrightarrow> i \<in> live_jobs d'" by blast+
qed

lemma prune_settles:
  assumes "delete_terminal_entries_before locked cutoff limit d = Inr (n, d')"
  shows "settles d d'"
  unfolding settles_def
proof (intro impI)
  assume wf: "core_wf d"
  then have "pruned cutoff d d'"
    using prune_removes_terminal [OF assms] by (simp add: core_wf_def entries_wf_def)
  then obtain S where d': "d' = without_entries S d" unfolding pruned_def by blast
  have "core_wf d'"
    using wf by (auto simp: d' without_entries_def core_wf_def downloads_wf_def ranges_wf_def entries_wf_def
        distinct_map_filter)
  moreover have "reserved_jobs d' \<subseteq> reserved_jobs d" "live_jobs d' = live_jobs d"
    by (auto simp: d' without_entries_def reserved_jobs_def live_jobs_def)
  ultimately show "core_wf d' \<and> reserved_jobs d' \<subseteq> reserved_jobs d \<and> live_jobs d \<inter> reserved_jobs d' \<subseteq> live_jobs d'"
    by blast
qed

lemma delete_clients_settles:
  assumes "delete_expired_clients_without_entries locked now limit d = Inr (n, d')"
  shows "settles d d'"
  by (rule same_tables_settles)
    (use assms in \<open>auto simp: delete_expired_clients_without_entries_def Let_def split: if_split_asm\<close>)

lemma quarantine_loop_settles: "fold_res (quarantine_one py now) ps d = Inr d' \<Longrightarrow> settles d d'"
proof (induction ps arbitrary: d)
  case (Cons p ps)
  from Cons.prems obtain x where x: "quarantine_one py now p d = Inr x"
    and rest: "fold_res (quarantine_one py now) ps x = Inr d'" by (auto simp: andThen_eq_Inr)
  show ?case by (rule settles_trans [OF quarantine_one_settles [OF x] Cons.IH [OF rest]])
qed simp

text \<open>The loop keeps the reservations it has checked within the live jobs.\<close>

lemma repair_loop:
  assumes "fold_res (repair_one m fresh now) ps (k, d) = Inr (k', d')" and "core_wf d"
  shows "settles d d' \<and> core_wf d' \<and> (\<forall>i \<in> snd ` set ps. i \<in> reserved_jobs d' \<longrightarrow> i \<in> live_jobs d')"
  using assms
proof (induction ps arbitrary: k d)
  case (Cons p ps)
  obtain c i where p: "p = (c, i)" by (cases p)
  from Cons.prems(1) obtain k1 d1 where one: "repair_one m fresh now (c, i) (k, d) = Inr (k1, d1)"
    and rest: "fold_res (repair_one m fresh now) ps (k1, d1) = Inr (k', d')"
    by (auto simp: p andThen_eq_Inr)
  note s1 = repair_one_settles [OF one]
  have wf1: "core_wf d1" using s1(1) Cons.prems(2) by (simp add: settles_def)
  from Cons.IH [OF rest wf1] have IH: "settles d1 d'" "core_wf d'"
    "\<forall>i \<in> snd ` set ps. i \<in> reserved_jobs d' \<longrightarrow> i \<in> live_jobs d'" by blast+
  have "i \<in> live_jobs d'" if "i \<in> reserved_jobs d'"
    using that IH(1) wf1 s1(2) [OF Cons.prems(2)] unfolding settles_def by blast
  with IH s1(1) settles_trans show ?case by (auto simp: p)
qed simp

lemma quota_reconcileD:
  assumes "quota_reconcile py st fresh locked lc now limit d = Inr (res, d')"
  obtains d1 k d2 n d3 m where "fold_res (quarantine_one py now) (ready_terminal_pairs limit d) d = Inr d1"
    and "fold_res (repair_one (st_ready_compatibility_mode st) fresh now) (reserved_candidates limit d1)
          ((0, 0, 0), d1) = Inr (k, d2)"
    and "delete_terminal_entries_before locked (now - seconds (st_free_download_quota_retention_seconds st))
          limit d2 = Inr (n, d3)"
    and "delete_expired_clients_without_entries lc now limit d3 = Inr (m, d')"
  using assms by (auto simp: quota_reconcile_def andThen_eq_Inr)

lemma quota_reconcile_settles:
  assumes "quota_reconcile py st fresh locked lc now limit d = Inr (res, d')"
  shows "settles d d'"
  using assms
proof (rule quota_reconcileD)
  fix d1 k d2 n d3 m
  assume a: "fold_res (quarantine_one py now) (ready_terminal_pairs limit d) d = Inr d1"
    and b: "fold_res (repair_one (st_ready_compatibility_mode st) fresh now) (reserved_candidates limit d1)
          ((0, 0, 0), d1) = Inr (k, d2)"
    and c: "delete_terminal_entries_before locked (now - seconds (st_free_download_quota_retention_seconds st))
          limit d2 = Inr (n, d3)"
    and e: "delete_expired_clients_without_entries lc now limit d3 = Inr (m, d')"
  have s2: "settles d1 d2" using repair_loop [OF b] by (auto simp: settles_def)
  from quarantine_loop_settles [OF a] s2 prune_settles [OF c] delete_clients_settles [OF e]
  show ?thesis by (blast intro: settles_trans)
qed

section \<open>Runs of queue, quota and ledger together\<close>

text \<open>
  Admission reserves for a job that is queued (the service admits the job it has just inserted);
  the ledger and the pruning are those of the quota component.
\<close>

inductive life_step :: "db \<Rightarrow> db \<Rightarrow> bool" where
  queue: "queue_op d d' \<Longrightarrow> life_step d d'"
| admits: "dj_get_by_id i d = Some j \<Longrightarrow> dj_public_state j = DJ_QUEUED \<Longrightarrow>
     admit_locked st fresh now pnow cl i t d = Inr (a, d') \<Longrightarrow> life_step d d'"
| ledger: "ledger_step d d' \<Longrightarrow> life_step d d'"
| prunes: "delete_terminal_entries_before locked cutoff limit d = Inr (n, d') \<Longrightarrow> life_step d d'"
| repairs: "quota_reconcile py st fresh locked lc now limit d = Inr (res, d') \<Longrightarrow> life_step d d'"

definition life_wf :: "db \<Rightarrow> bool" where
  "life_wf d \<longleftrightarrow> core_wf d \<and> reserved_jobs d \<subseteq> live_jobs d"

lemma settles_life: "settles d d' \<Longrightarrow> life_wf d \<Longrightarrow> life_wf d'"
  unfolding life_wf_def using settlesD by blast

lemma admit_life:
  assumes "dj_get_by_id i d = Some j" and "dj_public_state j = DJ_QUEUED"
    and "admit_locked st fresh now pnow cl i t d = Inr (a, d')" and "life_wf d"
  shows "life_wf d'"
proof (cases "d' = d")
  case False
  with admit_locked_InrD [OF assms(3)] obtain e where "reserve_locked fresh cl i now t d = Inr (e, d')" by blast
  then have d': "d' = d\<lparr>quota_entries := quota_entries d @ [e]\<rparr>" and e: "qe_download_job_id e = i"
    "qe_id e \<notin> qe_id ` set (quota_entries d)" "i \<notin> qe_download_job_id ` set (quota_entries d)"
    by (auto simp: reserve_locked_def qe_insert_def Let_def andThen_eq_Inr split: if_splits)
  have "i \<in> live_jobs d"
    using assms(1,2) row_by_SomeD [of dj_id i "download_jobs d" j]
    by (auto simp: dj_get_by_id_def live_jobs_def live_state_def)
  moreover have "live_jobs d' = live_jobs d" by (simp add: d' live_jobs_def)
  moreover have "reserved_jobs d' \<subseteq> insert i (reserved_jobs d)" using e(1) by (auto simp: d' reserved_jobs_def)
  moreover have "core_wf d'"
    using assms(4) e by (simp add: life_wf_def core_wf_def d' entries_wf_def downloads_wf_def ranges_wf_def)
  ultimately show ?thesis using assms(4) unfolding life_wf_def by blast
qed (use assms(4) in simp)

lemma life_step_wf: "life_step d d' \<Longrightarrow> life_wf d \<Longrightarrow> life_wf d'"
proof (induction rule: life_step.induct)
  case (queue d d')
  then show ?case using queue_op_settles settles_life by blast
next
  case (admits i d j st fresh now pnow cl t a d')
  then show ?case using admit_life by blast
next
  case (ledger d d')
  have "settles d d'"
    by (rule accounts_settles) (use ledger_step_accounts [OF ledger.hyps] core_ledger in \<open>auto simp: ledger_wf_def\<close>)
  then show ?case using ledger.prems settles_life by blast
next
  case (prunes locked cutoff limit d n d')
  then show ?case using prune_settles settles_life by blast
next
  case (repairs py st fresh locked lc now limit d res d')
  then show ?case using quota_reconcile_settles settles_life by blast
qed

lemma life_run_live:
  assumes "life_step\<^sup>*\<^sup>* d d'" and "life_wf d" and "e \<in> set (quota_entries d')" and "qe_state e = Q_RESERVED"
  shows "\<exists>j. dj_get_by_id (qe_download_job_id e) d' = Some j \<and>
     dj_public_state j \<in> {DJ_QUEUED, DJ_DOWNLOADING, DJ_READY}"
proof -
  have wf: "life_wf d'"
    using assms(1,2) by (induction rule: rtranclp_induct) (auto intro: life_step_wf)
  have "qe_download_job_id e \<in> reserved_jobs d'" using assms(3,4) by (auto simp: reserved_jobs_def)
  then have "qe_download_job_id e \<in> live_jobs d'" using wf by (auto simp: life_wf_def)
  then obtain j where "j \<in> set (download_jobs d')" "live_state (dj_public_state j)" "dj_id j = qe_download_job_id e"
    by (auto simp: live_jobs_def)
  then show ?thesis
    using wf by (intro exI [of _ j]) (simp add: life_wf_def core_wf_def downloads_wf_def dj_get_by_id_def
        row_by_Some_iff live_state_def)
qed

text \<open>C9. No Free reservation leaks: over any interleaving of the download queue's operations,
  promotions, admissions, deliveries, reconciliations and prunings, every quota entry that is
  still reserved belongs to a stored job that is queued, downloading or ready; a failed,
  cancelled or expired job never holds the client's quota.\<close>

theorem no_reservation_leaks:
  assumes "life_step\<^sup>*\<^sup>* d d'" and "life_wf d" and "e \<in> set (quota_entries d')" and "qe_state e = Q_RESERVED"
  shows "\<exists>j. dj_get_by_id (qe_download_job_id e) d' = Some j \<and>
     dj_public_state j \<in> {DJ_QUEUED, DJ_DOWNLOADING, DJ_READY}"
  by (rule life_run_live [OF assms])

section \<open>A sample\<close>

definition sample_leased_db :: db where
  "sample_leased_db = (sample_quota_db [sample_entry])\<lparr>download_jobs := [sample_running]\<rparr>"

lemma sample_leased_claim:
  "dj_claim_next (\<lambda>_. False) 0 ''w1'' (seconds 60) 0 1 (sample_quota_db [sample_entry]) =
     Inr ([sample_running], sample_leased_db)"
proof -
  have "download_job_ok sample_running"
    by (simp add: download_job_ok_defs no_query_fragment_def sample_run_defs)
  then show ?thesis
    by (simp add: dj_claim_next_def dj_claim_select_def sql_limit_def order_by_def dj_claimable_def
        write_row_def put_row_def sample_running_def sample_leased_db_def sample_quota_db_def)
      (simp add: sample_download_job_def seconds_def dj_claimed_def)
qed

lemma sample_life_wf: "life_wf (sample_quota_db [sample_entry])"
proof -
  have "core_wf (sample_quota_db [sample_entry])"
    by (simp add: core_wf_def downloads_wf_def ranges_wf_def entries_wf_def download_job_ok_defs
        no_query_fragment_def sample_quota_defs)
  moreover have "reserved_jobs (sample_quota_db [sample_entry]) \<subseteq> {3}"
    by (auto simp: reserved_jobs_def sample_quota_db_def) (simp add: sample_entry_def)
  moreover have "sample_download_job \<in> set (download_jobs (sample_quota_db [sample_entry]))"
    "live_state (dj_public_state sample_download_job)" "dj_id sample_download_job = 3"
    by (simp_all add: sample_quota_db_def) (simp_all add: live_state_def sample_download_job_def)
  then have "3 \<in> live_jobs (sample_quota_db [sample_entry])" unfolding live_jobs_def by force
  ultimately show ?thesis unfolding life_wf_def by blast
qed

theorem no_reservation_leaks_witness:
  "\<exists>j. dj_get_by_id 3 sample_leased_db = Some j \<and>
     dj_public_state j \<in> {DJ_QUEUED, DJ_DOWNLOADING, DJ_READY}"
proof -
  have run: "life_step\<^sup>*\<^sup>* (sample_quota_db [sample_entry]) sample_leased_db"
    by (rule r_into_rtranclp, rule life_step.queue, rule queue_op.claim [OF sample_leased_claim])
  have "sample_entry \<in> set (quota_entries sample_leased_db)"
    by (simp add: sample_leased_db_def sample_quota_db_def)
  from no_reservation_leaks [OF run sample_life_wf this] show ?thesis by (simp add: sample_entry_def)
qed

end
