(* ===== verification/Download_View.thy ===== *)
theory Download_View
  imports Content_Route Reservations
begin

text \<open>
  What a client sees of a download job: the views of \<open>downloads/service.py\<close> and the calls that
  read, cancel and upgrade a job. A job is reached through the credential of its media job; an
  unknown id and a wrong credential are the same error. \<open>now\<close> is \<open>database_now()\<close>.
\<close>

section \<open>Error codes as stored\<close>

fun DownloadErrorCode_value :: "DownloadErrorCode \<Rightarrow> string" where
  "DownloadErrorCode_value DOWNLOADS_DISABLED = ''DOWNLOADS_DISABLED''"
| "DownloadErrorCode_value DOWNLOAD_JOB_NOT_FOUND = ''DOWNLOAD_JOB_NOT_FOUND''"
| "DownloadErrorCode_value PARENT_JOB_NOT_READY = ''PARENT_JOB_NOT_READY''"
| "DownloadErrorCode_value FORMAT_NOT_FOUND = ''FORMAT_NOT_FOUND''"
| "DownloadErrorCode_value FORMAT_NOT_ELIGIBLE = ''FORMAT_NOT_ELIGIBLE''"
| "DownloadErrorCode_value FORMAT_UNAVAILABLE = ''FORMAT_UNAVAILABLE''"
| "DownloadErrorCode_value MEDIA_CAPABILITY_REQUIRES_PREMIUM = ''MEDIA_CAPABILITY_REQUIRES_PREMIUM''"
| "DownloadErrorCode_value MEDIA_CAPABILITY_UNAVAILABLE = ''MEDIA_CAPABILITY_UNAVAILABLE''"
| "DownloadErrorCode_value PROVIDER_CAPABILITY_DISABLED = ''PROVIDER_CAPABILITY_DISABLED''"
| "DownloadErrorCode_value DOWNLOAD_TIMEOUT = ''DOWNLOAD_TIMEOUT''"
| "DownloadErrorCode_value DOWNLOAD_TOO_LARGE = ''DOWNLOAD_TOO_LARGE''"
| "DownloadErrorCode_value DOWNLOAD_TOOL_FAILED = ''DOWNLOAD_TOOL_FAILED''"
| "DownloadErrorCode_value DOWNLOAD_INVALID_OUTPUT = ''DOWNLOAD_INVALID_OUTPUT''"
| "DownloadErrorCode_value DOWNLOAD_STORAGE_UNAVAILABLE = ''DOWNLOAD_STORAGE_UNAVAILABLE''"
| "DownloadErrorCode_value DOWNLOAD_EXPIRED = ''DOWNLOAD_EXPIRED''"
| "DownloadErrorCode_value DELIVERY_DISABLED = ''DELIVERY_DISABLED''"
| "DownloadErrorCode_value DOWNLOAD_NOT_READY = ''DOWNLOAD_NOT_READY''"
| "DownloadErrorCode_value MUXING_UNAVAILABLE = ''MUXING_UNAVAILABLE''"
| "DownloadErrorCode_value MUXING_FAILED = ''MUXING_FAILED''"
| "DownloadErrorCode_value MUXING_TIMEOUT = ''MUXING_TIMEOUT''"
| "DownloadErrorCode_value MUXED_OUTPUT_INVALID = ''MUXED_OUTPUT_INVALID''"
| "DownloadErrorCode_value DELIVERY_IN_PROGRESS = ''DELIVERY_IN_PROGRESS''"
| "DownloadErrorCode_value QUOTA_STATE_INCOHERENT = ''QUOTA_STATE_INCOHERENT''"
| "DownloadErrorCode_value INTERNAL_ERROR = ''INTERNAL_ERROR''"

text \<open>\<open>DownloadErrorCode(value)\<close>\<close>

definition DownloadErrorCode_of :: "string \<Rightarrow> DownloadErrorCode option" where
  "DownloadErrorCode_of raw =
     enum_of DownloadErrorCode_value
       [DOWNLOADS_DISABLED, DOWNLOAD_JOB_NOT_FOUND, PARENT_JOB_NOT_READY, FORMAT_NOT_FOUND,
        FORMAT_NOT_ELIGIBLE, FORMAT_UNAVAILABLE, MEDIA_CAPABILITY_REQUIRES_PREMIUM,
        MEDIA_CAPABILITY_UNAVAILABLE, PROVIDER_CAPABILITY_DISABLED, DOWNLOAD_TIMEOUT,
        DOWNLOAD_TOO_LARGE, DOWNLOAD_TOOL_FAILED, DOWNLOAD_INVALID_OUTPUT,
        DOWNLOAD_STORAGE_UNAVAILABLE, DOWNLOAD_EXPIRED, DELIVERY_DISABLED, DOWNLOAD_NOT_READY,
        MUXING_UNAVAILABLE, MUXING_FAILED, MUXING_TIMEOUT, MUXED_OUTPUT_INVALID,
        DELIVERY_IN_PROGRESS, QUOTA_STATE_INCOHERENT, INTERNAL_ERROR] raw"

lemma DownloadErrorCode_of_value: "DownloadErrorCode_of (DownloadErrorCode_value c) = Some c"
  by (cases c) (simp_all add: DownloadErrorCode_of_def enum_of_def)

section \<open>The view\<close>

record DownloadJobView =
  dv_id :: uuid
  dv_media_job_id :: uuid
  dv_public_state :: MediaDownloadJobState
  dv_provider_id :: string
  dv_format_option_id :: string
  dv_selected_format :: "(string \<times> json) list"
  dv_created_at :: time
  dv_updated_at :: time
  dv_expires_at :: time
  dv_completed_at :: "time option"
  dv_artifact_ready :: bool
  dv_error_code :: "DownloadErrorCode option"
  dv_progress_stage :: DownloadProgressStage
  dv_attempt_count :: int
  dv_max_attempts :: int
  dv_next_attempt_at :: "time option"
  dv_cancellable :: bool
  dv_progress_percent :: "int option"
  dv_artifact_bytes :: "int option"
  dv_suggested_filename :: codepoints
  dv_created :: bool
  dv_effective_policy :: EffectiveDownloadPolicy

abbreviation internal :: "string \<Rightarrow> error" where
  "internal reason \<equiv> DownloadError INTERNAL_ERROR reason"

text \<open>\<open>except DownloadError\<close>: any of them becomes the given internal error.\<close>

fun caught :: "string \<Rightarrow> 'a res \<Rightarrow> 'a res" where
  "caught reason (Inl (DownloadError _ _)) = Inl (internal reason)"
| "caught reason (Inl (DownloadErrorHttp _ _ _)) = Inl (internal reason)"
| "caught reason r = r"

definition public_snapshot :: "pylib \<Rightarrow> download_job \<Rightarrow> (string \<times> json) list res" where
  "public_snapshot py job =
     caught ''PERSISTED_SNAPSHOT_INVALID''
       (andThen (decode_selected_format_snapshot py 4096 (dj_selected_format_snapshot job)
                   (dj_format_option_id job)) (\<lambda>f.
        encode_selected_format_snapshot py 4096 f))"

definition effective_policy_snapshot ::
  "pylib \<Rightarrow> Settings \<Rightarrow> download_job \<Rightarrow> EffectiveDownloadPolicy res" where
  "effective_policy_snapshot py s job =
     andThen (caught ''PERSISTED_POLICY_SNAPSHOT_INVALID''
                (decode_effective_policy_snapshot py (dj_selected_format_snapshot job))) (\<lambda>policy.
       case policy of
         Some p \<Rightarrow> Inr p
       | None \<Rightarrow> effective_download_policy s None)"

definition public_progress_percent ::
  "download_job \<Rightarrow> MediaDownloadJobState \<Rightarrow> DownloadProgressStage \<Rightarrow> int option res" where
  "public_progress_percent job st stage =
     (if st \<noteq> DJ_DOWNLOADING \<or> stage \<notin> {PS_DOWNLOADING_VIDEO, PS_DOWNLOADING_AUDIO}
      then (if dj_progress_percent job \<noteq> None then Inl (internal ''PROGRESS_PERCENT_INVALID'')
            else Inr None)
      else (case dj_progress_percent job of
              None \<Rightarrow> Inr None
            | Some p \<Rightarrow> if p < 0 \<or> p > 99 then Inl (internal ''PROGRESS_PERCENT_INVALID'')
                        else Inr (Some p)))"

definition public_artifact_bytes :: "download_job \<Rightarrow> MediaDownloadJobState \<Rightarrow> int option res" where
  "public_artifact_bytes job st =
     (if st \<noteq> DJ_READY
      then (if dj_artifact_bytes job \<noteq> None then Inl (internal ''ARTIFACT_BYTES_INVALID'')
            else Inr None)
      else (case dj_artifact_bytes job of
              None \<Rightarrow> Inl (internal ''ARTIFACT_BYTES_INVALID'')
            | Some b \<Rightarrow> if b \<le> 0 then Inl (internal ''ARTIFACT_BYTES_INVALID'') else Inr (Some b)))"

text \<open>\<open>str(selected.get("container") or job.artifact_container or "mp4")\<close>\<close>

definition view_container :: "download_job \<Rightarrow> (string \<times> json) list \<Rightarrow> string" where
  "view_container job selected =
     (case jget ''container'' selected of
        JStr (c # cs) \<Rightarrow> c # cs
      | _ \<Rightarrow> (case dj_artifact_container job of Some (c # cs) \<Rightarrow> c # cs | _ \<Rightarrow> ''mp4''))"

definition public_suggested_filename ::
  "pylib \<Rightarrow> unidb \<Rightarrow> download_job \<Rightarrow> (string \<times> json) list \<Rightarrow> codepoints res" where
  "public_suggested_filename py u job selected =
     (let container = view_container job selected;
          result =
            (case dj_suggested_filename job of
               None \<Rightarrow> fallback_filename py (dj_id job) container
             | Some stored \<Rightarrow>
                 if stored = [] then fallback_filename py (dj_id job) container
                 else andThen (is_safe_suggested_filename u (stored_text stored) container) (\<lambda>safe.
                        if \<not> safe then Inl (internal ''SUGGESTED_FILENAME_INVALID'')
                        else Inr (stored_text stored)))
      in case result of
           Inl (ValueError _) \<Rightarrow> Inl (internal ''SUGGESTED_FILENAME_INVALID'')
         | _ \<Rightarrow> result)"

text \<open>The error code of the view, before anything else can fail.\<close>

definition view_error_code ::
  "download_job \<Rightarrow> MediaDownloadJobState \<Rightarrow> DownloadErrorCode option \<Rightarrow> DownloadErrorCode option" where
  "view_error_code job st force_error_code =
     (case force_error_code of
        Some c \<Rightarrow> Some c
      | None \<Rightarrow>
          if st = DJ_FAILED
          then (case DownloadErrorCode_of (case dj_public_error_code job of
                        None \<Rightarrow> ''None'' | Some c \<Rightarrow> c) of
                  Some c \<Rightarrow> Some c | None \<Rightarrow> Some INTERNAL_ERROR)
          else if st = DJ_EXPIRED then Some DOWNLOAD_EXPIRED
          else None)"

definition to_view ::
  "pylib \<Rightarrow> unidb \<Rightarrow> Settings \<Rightarrow> download_job \<Rightarrow> bool \<Rightarrow> MediaDownloadJobState option \<Rightarrow>
     DownloadErrorCode option \<Rightarrow> DownloadJobView res" where
  "to_view py u s job created force_state force_error_code =
     (let st = (case force_state of
                  Some f \<Rightarrow> f
                | None \<Rightarrow> project_public_state (dj_public_state job) (Some (dj_progress_stage job))
                            (dj_cancel_requested_at job));
          stage = (case force_state of
                     Some f \<Rightarrow> progress_for_public_state f | None \<Rightarrow> dj_progress_stage job)
      in andThen (public_snapshot py job) (\<lambda>selected.
         andThen (public_progress_percent job st stage) (\<lambda>percent.
         andThen (public_artifact_bytes job st) (\<lambda>artifact_bytes.
         andThen (public_suggested_filename py u job selected) (\<lambda>name.
         andThen (effective_policy_snapshot py s job) (\<lambda>policy.
           Inr \<lparr>dv_id = dj_id job, dv_media_job_id = dj_media_job_id job, dv_public_state = st,
                dv_provider_id = dj_provider_id job, dv_format_option_id = dj_format_option_id job,
                dv_selected_format = selected, dv_created_at = dj_created_at job,
                dv_updated_at = dj_updated_at job, dv_expires_at = dj_expires_at job,
                dv_completed_at = dj_completed_at job, dv_artifact_ready = (st = DJ_READY),
                dv_error_code = view_error_code job st force_error_code,
                dv_progress_stage = stage, dv_attempt_count = dj_attempt_count job,
                dv_max_attempts = dj_max_attempts job,
                dv_next_attempt_at =
                  (if st = DJ_QUEUED \<and> stage = PS_RETRYING \<and> force_state = None
                   then Some (dj_available_at job) else None),
                dv_cancellable = (st \<in> {DJ_QUEUED, DJ_DOWNLOADING} \<and> force_state = None),
                dv_progress_percent = percent, dv_artifact_bytes = artifact_bytes,
                dv_suggested_filename = name, dv_created = created,
                dv_effective_policy = policy\<rparr>))))))"

section \<open>The calls\<close>

text \<open>The checks that \<open>get\<close> and \<open>cancel\<close> share: the job, when the token opens its media job.\<close>

definition authorized_job ::
  "(bytes \<Rightarrow> bytes) \<Rightarrow> uuid \<Rightarrow> string \<Rightarrow> db \<Rightarrow> download_job res" where
  "authorized_job sha download_job_id access_token d =
     andThen (hash_access_token sha access_token) (\<lambda>credential_hash.
     (case dj_get_by_id download_job_id d of
        None \<Rightarrow> Inl (DownloadError DOWNLOAD_JOB_NOT_FOUND ''MISSING'')
      | Some job \<Rightarrow>
          (case mj_get_by_id (dj_media_job_id job) d of
             None \<Rightarrow> Inl (DownloadError DOWNLOAD_JOB_NOT_FOUND ''UNAUTHORIZED'')
           | Some parent \<Rightarrow>
               if \<not> tokens_match (mj_credential_hash parent) credential_hash
               then Inl (DownloadError DOWNLOAD_JOB_NOT_FOUND ''UNAUTHORIZED'')
               else Inr job)))"

definition ds_get ::
  "pylib \<Rightarrow> unidb \<Rightarrow> (bytes \<Rightarrow> bytes) \<Rightarrow> Settings \<Rightarrow> time \<Rightarrow> uuid \<Rightarrow> string \<Rightarrow> db \<Rightarrow> DownloadJobView res" where
  "ds_get py u sha s now download_job_id access_token d =
     andThen (authorized_job sha download_job_id access_token d) (\<lambda>job.
       if dj_public_state job \<noteq> DJ_EXPIRED \<and> dj_expires_at job \<le> now
       then to_view py u s job False (Some DJ_EXPIRED) (Some DOWNLOAD_EXPIRED)
       else to_view py u s job False None None)"

definition ds_cancel ::
  "pylib \<Rightarrow> unidb \<Rightarrow> (bytes \<Rightarrow> bytes) \<Rightarrow> Settings \<Rightarrow> bool \<Rightarrow> time \<Rightarrow> time \<Rightarrow> uuid \<Rightarrow> string \<Rightarrow> db \<Rightarrow>
     (DownloadJobView \<times> db) res" where
  "ds_cancel py u sha s downloads_enabled qclk now download_job_id access_token d =
     (if \<not> downloads_enabled then Inl (DownloadError DOWNLOADS_DISABLED ''DOWNLOADS_DISABLED'')
      else
        andThen (authorized_job sha download_job_id access_token d) (\<lambda>job.
        andThen (dj_request_cancel qclk (dj_id job) now d) (\<lambda>(updated, d').
          case updated of
            None \<Rightarrow> Inl (DownloadError DOWNLOAD_JOB_NOT_FOUND ''MISSING'')
          | Some row \<Rightarrow> andThen (to_view py u s row False None None) (\<lambda>view. Inr (view, d')))))"

definition ds_upgrade_to_premium ::
  "pylib \<Rightarrow> unidb \<Rightarrow> (bytes \<Rightarrow> bytes) \<Rightarrow> Settings \<Rightarrow> bool \<Rightarrow> bool \<Rightarrow> time \<Rightarrow> time \<Rightarrow> uuid \<Rightarrow> string \<Rightarrow> uuid \<Rightarrow>
     db \<Rightarrow> (DownloadJobView \<times> db) res" where
  "ds_upgrade_to_premium py u sha s downloads_enabled quota_enabled now pclk download_job_id
       access_token client_id d =
     (if \<not> downloads_enabled then Inl (DownloadError DOWNLOADS_DISABLED ''DOWNLOADS_DISABLED'')
      else
        andThen (upgrade py sha s quota_enabled now pclk download_job_id access_token client_id d)
          (\<lambda>((job, created), d').
             andThen (to_view py u s job created None None) (\<lambda>view. Inr (view, d'))))"

section \<open>Coherent views\<close>

text \<open>
  What a client may rely on in a view: the flags and optional fields follow the state, and the
  format it shows has the public keys and no others.
\<close>

definition coherent_view :: "DownloadJobView \<Rightarrow> bool" where
  "coherent_view v \<longleftrightarrow>
     (dv_artifact_ready v \<longleftrightarrow> dv_public_state v = DJ_READY) \<and>
     (if dv_public_state v = DJ_READY then present (dv_artifact_bytes v) (\<lambda>b. 0 < b)
      else dv_artifact_bytes v = None) \<and>
     (dv_error_code v \<noteq> None \<longleftrightarrow> dv_public_state v \<in> {DJ_FAILED, DJ_EXPIRED}) \<and>
     (dv_cancellable v \<longleftrightarrow> dv_public_state v \<in> {DJ_QUEUED, DJ_DOWNLOADING}) \<and>
     (dv_next_attempt_at v \<noteq> None \<longleftrightarrow> dv_progress_stage v = PS_RETRYING) \<and>
     (case dv_progress_percent v of
        None \<Rightarrow> True
      | Some p \<Rightarrow> 0 \<le> p \<and> p \<le> 99 \<and> dv_public_state v = DJ_DOWNLOADING) \<and>
     (dv_progress_stage v \<in> set TERMINAL_PROGRESS \<longleftrightarrow>
        dv_public_state v \<in> {DJ_READY, DJ_FAILED, DJ_CANCELLED, DJ_EXPIRED}) \<and>
     map fst (dv_selected_format v) = SNAPSHOT_KEYS"

text \<open>The texts of a row that a view decodes, and what they decode to.\<close>

definition shows_as ::
  "pylib \<Rightarrow> unidb \<Rightarrow> Settings \<Rightarrow> download_job \<Rightarrow> MediaFormat \<Rightarrow> EffectiveDownloadPolicy \<Rightarrow> codepoints \<Rightarrow> bool" where
  "shows_as py u s job f policy name \<longleftrightarrow>
     decode_selected_format_snapshot py 4096 (dj_selected_format_snapshot job) (dj_format_option_id job) = Inr f \<and>
     json_size py (JObj (snapshot_payload f)) \<le> 4096 \<and>
     effective_policy_snapshot py s job = Inr policy \<and>
     public_suggested_filename py u job (snapshot_payload f) = Inr name"

definition describes ::
  "DownloadJobView \<Rightarrow> download_job \<Rightarrow> MediaFormat \<Rightarrow> EffectiveDownloadPolicy \<Rightarrow> codepoints \<Rightarrow> bool" where
  "describes v job f policy name \<longleftrightarrow>
     dv_id v = dj_id job \<and> dv_media_job_id v = dj_media_job_id job \<and>
     dv_format_option_id v = dj_format_option_id job \<and> dv_selected_format v = snapshot_payload f \<and>
     dv_effective_policy v = policy \<and> dv_suggested_filename v = name \<and>
     dv_expires_at v = dj_expires_at job"

lemma public_snapshot_shown:
  "shows_as py u s job f policy name \<Longrightarrow> public_snapshot py job = Inr (snapshot_payload f)"
  unfolding shows_as_def public_snapshot_def encode_selected_format_snapshot_def Let_def same_keys_def snapshot_payload_keys
  by simp

lemmas view_defs = to_view_def public_progress_percent_def public_artifact_bytes_def Let_def

lemma stored_view:
  assumes "download_job_ok job" and "shows_as py u s job f policy name"
  shows "\<exists>v. to_view py u s job created None None = Inr v \<and> coherent_view v \<and>
     describes v job f policy name \<and> dv_created v = created \<and>
     dv_public_state v = project_public_state (dj_public_state job) (Some (dj_progress_stage job))
                           (dj_cancel_requested_at job)"
proof -
  let ?st = "project_public_state (dj_public_state job) (Some (dj_progress_stage job)) (dj_cancel_requested_at job)"
  have ok: "download_job_result_ok job" "download_job_progress_ok job" "download_job_cancel_ok job"
    "download_job_percent_ok job" "dj_public_state job \<noteq> DJ_CANCELLED"
    using assms(1) by (simp_all add: download_job_ok_def)
  have st: "?st = (if dj_public_state job = DJ_EXPIRED \<and> dj_progress_stage job = PS_CANCELLED
      then DJ_CANCELLED else dj_public_state job)"
    using ok(2,3) by (auto simp: project_public_state_def is_stored_cancelled_def
        download_job_cancel_ok_def download_job_progress_ok_def)
  have pct: "public_progress_percent job ?st (dj_progress_stage job) = Inr (dj_progress_percent job)"
    using ok(4) st by (auto simp: public_progress_percent_def download_job_percent_ok_def split: option.splits)
  have bytes: "public_artifact_bytes job ?st = Inr (dj_artifact_bytes job)"
    using ok(1,5) st by (cases "dj_public_state job")
      (auto simp: public_artifact_bytes_def download_job_result_ok_def no_artifact_def split: option.splits)
  from assms(2) have rest: "public_suggested_filename py u job (snapshot_payload f) = Inr name"
    "effective_policy_snapshot py s job = Inr policy" by (simp_all add: shows_as_def)
  have keys: "map fst (snapshot_payload f) = SNAPSHOT_KEYS" by (rule snapshot_payload_keys)
  obtain v where v: "to_view py u s job created None None = Inr v" and proj: "dv_public_state v = ?st"
      "dv_artifact_ready v \<longleftrightarrow> ?st = DJ_READY" "dv_artifact_bytes v = dj_artifact_bytes job"
      "dv_error_code v = view_error_code job ?st None" "dv_progress_stage v = dj_progress_stage job"
      "dv_cancellable v \<longleftrightarrow> ?st \<in> {DJ_QUEUED, DJ_DOWNLOADING}" "dv_progress_percent v = dj_progress_percent job"
      "dv_next_attempt_at v = (if ?st = DJ_QUEUED \<and> dj_progress_stage job = PS_RETRYING
         then Some (dj_available_at job) else None)" "dv_selected_format v = snapshot_payload f"
      "dv_created v = created" and desc: "describes v job f policy name"
    by (simp add: to_view_def Let_def public_snapshot_shown [OF assms(2)] pct bytes rest describes_def)
  have "coherent_view v"
    unfolding coherent_view_def proj keys
    using ok unfolding st
    by (cases "dj_public_state job")
      (auto simp: download_job_result_ok_def download_job_progress_ok_def download_job_percent_ok_def
        no_artifact_def view_error_code_def TERMINAL_PROGRESS_def split: option.splits)
  with v desc proj show ?thesis by blast
qed

lemma ds_get_fresh:
  assumes "authorized_job sha i token d = Inr job" and "now < dj_expires_at job \<or> dj_public_state job = DJ_EXPIRED"
  shows "ds_get py u sha s now i token d = to_view py u s job False None None"
  using assms by (auto simp: ds_get_def)


text \<open>C26. The documented preference for "an authorized expired view" does not hold for the jobs it
  matters for. Once the retention time of a row has passed and the worker has not yet marked it,
  \<open>get\<close> shows an expired view only if the row carries neither an artifact nor a percentage: a ready
  job, whose row always carries its artifact, and a job caught while downloading with a percentage
  are internal errors, although the same row was shown until its last moment.\<close>

theorem elapsed_job_is_an_error:
  assumes "authorized_job sha i token d = Inr job" and "download_job_ok job"
    and "shows_as py u s job f policy name"
    and "dj_public_state job \<noteq> DJ_EXPIRED" and "dj_expires_at job \<le> now"
  shows "(dj_public_state job = DJ_READY \<longrightarrow>
       ds_get py u sha s now i token d = Inl (DownloadError INTERNAL_ERROR ''ARTIFACT_BYTES_INVALID'')) \<and>
     (dj_progress_percent job \<noteq> None \<longrightarrow>
       ds_get py u sha s now i token d = Inl (DownloadError INTERNAL_ERROR ''PROGRESS_PERCENT_INVALID'')) \<and>
     (dj_public_state job \<noteq> DJ_READY \<and> dj_progress_percent job = None \<longrightarrow>
       (\<exists>v. ds_get py u sha s now i token d = Inr v \<and> dv_public_state v = DJ_EXPIRED \<and>
            dv_error_code v = Some DOWNLOAD_EXPIRED \<and> \<not> dv_cancellable v)) \<and>
     (\<exists>v. ds_get py u sha s (dj_expires_at job - 1) i token d = Inr v)"
proof -
  have forced: "ds_get py u sha s now i token d = to_view py u s job False (Some DJ_EXPIRED) (Some DOWNLOAD_EXPIRED)"
    using assms(1,4,5) by (simp add: ds_get_def)
  have before: "\<exists>v. ds_get py u sha s (dj_expires_at job - 1) i token d = Inr v"
    using stored_view [OF assms(2,3), of False] ds_get_fresh [OF assms(1), of "dj_expires_at job - 1"] by auto
  have bytes: "dj_artifact_bytes job \<noteq> None \<longleftrightarrow> dj_public_state job = DJ_READY"
    and pct: "dj_public_state job = DJ_READY \<Longrightarrow> dj_progress_percent job = None"
  proof -
    have ok: "download_job_result_ok job" "download_job_percent_ok job" using assms(2) by (simp_all add: download_job_ok_def)
    from ok(1) show "dj_artifact_bytes job \<noteq> None \<longleftrightarrow> dj_public_state job = DJ_READY"
      by (cases "dj_public_state job") (auto simp: download_job_result_ok_def no_artifact_def)
    from ok(2) show "dj_progress_percent job = None" if "dj_public_state job = DJ_READY"
      using that by (cases "dj_progress_percent job") (simp_all add: download_job_percent_ok_def)
  qed
  have rest: "public_suggested_filename py u job (snapshot_payload f) = Inr name"
    "effective_policy_snapshot py s job = Inr policy" using assms(3) by (simp_all add: shows_as_def)
  have percent: "public_progress_percent job DJ_EXPIRED PS_EXPIRED =
      (if dj_progress_percent job = None then Inr None else Inl (internal ''PROGRESS_PERCENT_INVALID''))"
    by (simp add: public_progress_percent_def)
  have size: "public_artifact_bytes job DJ_EXPIRED =
      (if dj_public_state job = DJ_READY then Inl (internal ''ARTIFACT_BYTES_INVALID'') else Inr None)"
    using bytes by (simp add: public_artifact_bytes_def)
  have view: "to_view py u s job False (Some DJ_EXPIRED) (Some DOWNLOAD_EXPIRED) =
      andThen (public_progress_percent job DJ_EXPIRED PS_EXPIRED) (\<lambda>percent.
      andThen (public_artifact_bytes job DJ_EXPIRED) (\<lambda>b. to_view py u s job False (Some DJ_EXPIRED) (Some DOWNLOAD_EXPIRED)))"
    by (simp add: percent size to_view_def Let_def public_snapshot_shown [OF assms(3)])
  have ok: "\<exists>v. to_view py u s job False (Some DJ_EXPIRED) (Some DOWNLOAD_EXPIRED) = Inr v \<and>
      dv_public_state v = DJ_EXPIRED \<and> dv_error_code v = Some DOWNLOAD_EXPIRED \<and> \<not> dv_cancellable v"
    if "dj_public_state job \<noteq> DJ_READY" "dj_progress_percent job = None"
    using that by (simp add: to_view_def Let_def public_snapshot_shown [OF assms(3)] percent size rest view_error_code_def)
  have ready: "to_view py u s job False (Some DJ_EXPIRED) (Some DOWNLOAD_EXPIRED) = Inl (internal ''ARTIFACT_BYTES_INVALID'')"
    if "dj_public_state job = DJ_READY"
    using view that pct [OF that] by (simp add: percent size)
  have moving: "to_view py u s job False (Some DJ_EXPIRED) (Some DOWNLOAD_EXPIRED) = Inl (internal ''PROGRESS_PERCENT_INVALID'')"
    if "dj_progress_percent job \<noteq> None"
    using view that by (simp add: percent)
  show ?thesis unfolding forced using before ok ready moving by blast
qed

section \<open>Cancelling\<close>

lemma authorized_jobD:
  assumes "authorized_job sha i token d = Inr job"
  obtains h parent where "hash_access_token sha token = Inr h" "dj_get_by_id i d = Some job"
    "mj_get_by_id (dj_media_job_id job) d = Some parent" "tokens_match (mj_credential_hash parent) h"
proof -
  from assms obtain h where h: "hash_access_token sha token = Inr h"
    by (auto simp: authorized_job_def andThen_eq_Inr)
  obtain j where j: "dj_get_by_id i d = Some j"
    using assms h by (cases "dj_get_by_id i d") (simp_all add: authorized_job_def)
  obtain parent where p: "mj_get_by_id (dj_media_job_id j) d = Some parent"
    using assms h j by (cases "mj_get_by_id (dj_media_job_id j) d") (simp_all add: authorized_job_def)
  have "tokens_match (mj_credential_hash parent) h \<and> j = job"
    using assms h j p by (simp add: authorized_job_def split: if_split_asm)
  with h j p that show thesis by blast
qed

lemma release_keeps_identity:
  assumes "release_quota_after_job_lock quota i x t d = Inr d'" and "entries_wf d"
  shows "identity_id_for_download k d' = identity_id_for_download k d \<and> clients d' = clients d \<and>
     media_jobs d' = media_jobs d \<and> download_jobs d' = download_jobs d"
proof (cases "quota = None")
  case True
  with assms(1) show ?thesis by (simp add: release_quota_after_job_lock_def)
next
  case False
  with assms(1) obtain e e' where e: "lock_entry_for_download i d = Some e" "release_locked e t x = Inr e'"
    "qe_flush e' d = Inr d'"
    by (auto simp: release_quota_after_job_lock_def andThen_eq_Inr split: option.split_asm)
  have same: "qe_id e' = qe_id e \<and> qe_download_job_id e' = qe_download_job_id e \<and>
      qe_anonymous_client_id e' = qe_anonymous_client_id e"
    using e(2) by (cases "qe_state e") (auto simp: release_locked_def split: if_splits)
  have d': "d' = d\<lparr>quota_entries := put_row qe_id e' (quota_entries d)\<rparr>"
    using e(3) by (auto simp: qe_flush_def andThen_eq_Inr write_row_eq_Inr)
  have mem: "e \<in> set (quota_entries d)" using e(1) row_by_SomeD by (fastforce simp: lock_entry_for_download_def)
  then have old: "row_by qe_id (qe_id e') (quota_entries d) = Some e"
    using assms(2) same by (simp add: row_by_Some_iff entries_wf_def)
  let ?g = "\<lambda>e. (qe_download_job_id e, qe_anonymous_client_id e)"
  have cols: "map ?g (put_row qe_id e' (quota_entries d)) = map ?g (quota_entries d)"
    by (rule map_put_row_same [OF old]) (use same assms(2) in \<open>simp_all add: entries_wf_def\<close>)
  have "map_option qe_anonymous_client_id (find (\<lambda>r. qe_download_job_id r = k) rows) = map_of (map ?g rows) k" for rows
    by (induction rows) auto
  then have id: "identity_id_for_download k d = map_of (map ?g (quota_entries d)) k" for d
    by (simp add: identity_id_for_download_def row_by_def)
  show ?thesis by (simp add: id cols d')
qed

lemma request_cancel_settles:
  assumes "dj_request_cancel qclk i now d = Inr (Some row, d')" and wf: "core_wf d"
  obtains j where "dj_get_by_id i d = Some j" "dj_id row = dj_id j" "dj_media_job_id row = dj_media_job_id j"
    "dj_get_by_id i d' = Some row" "media_jobs d' = media_jobs d"
    "dj_public_state row \<noteq> DJ_QUEUED" "\<And>q n. dj_request_cancel q i n d' = Inr (Some row, d')"
    "dj_public_state j = DJ_QUEUED \<Longrightarrow> i \<notin> reserved_jobs d' \<and>
       project_public_state (dj_public_state row) (Some (dj_progress_stage row)) (dj_cancel_requested_at row) = DJ_CANCELLED"
proof -
  from assms(1) obtain quota where q: "lock_quota_identity_for_job i d = Inr quota"
    by (auto simp: dj_request_cancel_def andThen_eq_Inr)
  from assms(1) q obtain j where j: "dj_get_by_id i d = Some j"
    by (auto simp: dj_request_cancel_def split: option.split_asm)
  then have id: "dj_id j = i" using row_by_SomeD by (fastforce simp: dj_get_by_id_def)
  have put: "row_by dj_id i (put_row dj_id r (download_jobs d)) = Some r" if "dj_id r = i" for r
    using j that by (simp add: dj_get_by_id_def)
  consider (same) "row = j" "d' = d" "dj_public_state j \<noteq> DJ_QUEUED"
    | (queued) d1 where "dj_public_state j = DJ_QUEUED"
        "row = apply_stored_cancel now (j\<lparr>dj_cancel_requested_at := Some now\<rparr>)"
        "dj_flush row d = Inr d1" "release_quota_after_job_lock quota i False qclk d1 = Inr d'"
    | (running) "dj_public_state j = DJ_DOWNLOADING"
        "row = j\<lparr>dj_cancel_requested_at := Some now, dj_updated_at := now\<rparr>" "dj_flush row d = Inr d'"
  proof (cases "dj_public_state j")
    case DJ_QUEUED
    with assms(1) q j obtain d1
      where "row = apply_stored_cancel now (j\<lparr>dj_cancel_requested_at := Some now\<rparr>)"
        "dj_flush (apply_stored_cancel now (j\<lparr>dj_cancel_requested_at := Some now\<rparr>)) d = Inr d1"
        "release_quota_after_job_lock quota i False qclk d1 = Inr d'"
      by (fastforce simp add: dj_request_cancel_def is_stored_cancelled_def andThen_eq_Inr Let_def)
    with DJ_QUEUED show ?thesis by (intro queued) simp_all
  next
    case DJ_DOWNLOADING
    show ?thesis
    proof (cases "dj_cancel_requested_at j")
      case None
      with assms(1) q j DJ_DOWNLOADING
      have "row = j\<lparr>dj_cancel_requested_at := Some now, dj_updated_at := now\<rparr>"
        "dj_flush (j\<lparr>dj_cancel_requested_at := Some now, dj_updated_at := now\<rparr>) d = Inr d'"
        by (auto simp: dj_request_cancel_def is_stored_cancelled_def andThen_eq_Inr Let_def)
      with DJ_DOWNLOADING show ?thesis by (intro running) simp_all
    next
      case (Some t)
      with assms(1) q j DJ_DOWNLOADING show ?thesis
        by (intro same) (simp_all add: dj_request_cancel_def is_stored_cancelled_def)
    qed
  next
    case DJ_CANCELLED
    with assms(1) q j show ?thesis by (simp add: dj_request_cancel_def is_stored_cancelled_def)
  next
    case DJ_READY
    with assms(1) q j have "row = j" "d' = d"
      by (simp_all add: dj_request_cancel_def is_stored_cancelled_def)
    with DJ_READY show ?thesis by (intro same) simp_all
  next
    case DJ_FAILED
    with assms(1) q j have "row = j" "d' = d"
      by (simp_all add: dj_request_cancel_def is_stored_cancelled_def)
    with DJ_FAILED show ?thesis by (intro same) simp_all
  next
    case DJ_EXPIRED
    with assms(1) q j have "row = j" "d' = d"
      by (simp_all add: dj_request_cancel_def split: if_split_asm)
    with DJ_EXPIRED show ?thesis by (intro same) simp_all
  qed
  then show thesis
  proof cases
    case same
    have kept: "dj_cancel_requested_at j \<noteq> None" if "dj_public_state j = DJ_DOWNLOADING"
    proof
      assume none: "dj_cancel_requested_at j = None"
      with assms(1) q j that have "row = j\<lparr>dj_cancel_requested_at := Some now, dj_updated_at := now\<rparr>"
        by (simp add: dj_request_cancel_def is_stored_cancelled_def andThen_eq_Inr Let_def)
      with same(1) none show False by (cases j) simp
    qed
    have "dj_request_cancel t i n d = Inr (Some row, d)" for t n
    proof (cases "dj_public_state j")
      case DJ_DOWNLOADING
      then obtain c where "dj_cancel_requested_at j = Some c" using kept by auto
      with DJ_DOWNLOADING same q j show ?thesis by (simp add: dj_request_cancel_def is_stored_cancelled_def)
    next
      case DJ_CANCELLED
      with assms(1) q j show ?thesis by (simp add: dj_request_cancel_def is_stored_cancelled_def)
    qed (use same q j in \<open>simp_all add: dj_request_cancel_def\<close>)
    with same j show thesis by (intro that) auto
  next
    case queued
    have d1: "d1 = d\<lparr>download_jobs := put_row dj_id row (download_jobs d)\<rparr>"
      using queued(3) by (simp add: dj_flush_Inr)
    have rid: "dj_id row = i" "dj_media_job_id row = dj_media_job_id j"
      and st: "dj_public_state row = DJ_EXPIRED" "dj_progress_stage row = PS_CANCELLED" "dj_cancel_requested_at row = Some now"
      using id by (simp_all add: queued(2) apply_stored_cancel_def no_result_def no_lease_def)
    have e1: "entries_wf d1" using wf by (simp add: d1 core_wf_def entries_wf_def)
    note kept = release_keeps_identity [OF queued(4) e1]
    have get: "dj_get_by_id i d' = Some row" using kept put [OF rid(1)] by (simp add: dj_get_by_id_def d1)
    have q': "lock_quota_identity_for_job i d' = Inr quota"
    proof -
      have "identity_id_for_download i d1 = identity_id_for_download i d"
        by (simp add: d1 identity_id_for_download_def)
      then have "identity_id_for_download i d' = identity_id_for_download i d" using kept by simp
      moreover have "lock_client c None d' = lock_client c None d" for c
        using kept by (simp add: lock_client_def d1)
      ultimately show ?thesis
        using q by (cases "identity_id_for_download i d") (simp_all add: lock_quota_identity_for_job_def)
    qed
    have again: "dj_request_cancel t i n d' = Inr (Some row, d')" for t n
      using q' get st by (simp add: dj_request_cancel_def is_stored_cancelled_def)
    have cl: "closes i d1 d'" by (rule release_closes [OF q _ queued(4)]) (simp add: d1)
    have "i \<notin> reserved_jobs d'" using cl e1 by (auto simp: closes_def)
    moreover have "media_jobs d' = media_jobs d" using kept by (simp add: d1)
    ultimately show thesis
      using j id rid get again st by (intro that) (auto simp: project_public_state_def is_stored_cancelled_def)
  next
    case running
    have d': "d' = d\<lparr>download_jobs := put_row dj_id row (download_jobs d)\<rparr>"
      using running(3) by (simp add: dj_flush_Inr)
    have rid: "dj_id row = i" "dj_media_job_id row = dj_media_job_id j" "dj_public_state row = DJ_DOWNLOADING"
      "dj_cancel_requested_at row = Some now" using id running by simp_all
    have get: "dj_get_by_id i d' = Some row" using put [OF rid(1)] by (simp add: dj_get_by_id_def d')
    have q': "lock_quota_identity_for_job i d' = Inr quota"
    proof -
      have "identity_id_for_download i d' = identity_id_for_download i d"
        by (simp add: d' identity_id_for_download_def)
      moreover have "lock_client c None d' = lock_client c None d" for c by (simp add: lock_client_def d')
      ultimately show ?thesis
        using q by (cases "identity_id_for_download i d") (simp_all add: lock_quota_identity_for_job_def)
    qed
    have "dj_request_cancel t i n d' = Inr (Some row, d')" for t n
      using q' get rid by (simp add: dj_request_cancel_def is_stored_cancelled_def)
    with j id rid get running(1) show thesis by (intro that) (auto simp: d')
  qed
qed

text \<open>C27. Cancelling is final and can be repeated. When a client's cancellation succeeds, the job is no
  longer queued; if it was queued, the client sees it cancelled and its quota reservation has been
  given up. Sending the same request again, at whatever later time, changes nothing and returns
  the same view.\<close>

theorem cancel_is_idempotent:
  assumes "ds_cancel py u sha s enabled qclk now i token d = Inr (v, d')" and "core_wf d"
  shows "dv_public_state v \<noteq> DJ_QUEUED \<and>
     ds_cancel py u sha s enabled qclk' now' i token d' = Inr (v, d') \<and>
     (\<forall>j. dj_get_by_id i d = Some j \<and> dj_public_state j = DJ_QUEUED \<longrightarrow>
        dv_public_state v = DJ_CANCELLED \<and> i \<notin> reserved_jobs d')"
proof -
  from assms(1) obtain job row where on: "enabled" and auth: "authorized_job sha i token d = Inr job"
    and rc: "dj_request_cancel qclk (dj_id job) now d = Inr (Some row, d')"
    and view: "to_view py u s row False None None = Inr v"
    by (auto simp: ds_cancel_def andThen_eq_Inr split: if_split_asm option.split_asm)
  from auth obtain h parent where h: "hash_access_token sha token = Inr h" and get: "dj_get_by_id i d = Some job"
    and parent: "mj_get_by_id (dj_media_job_id job) d = Some parent" "tokens_match (mj_credential_hash parent) h"
    by (rule authorized_jobD)
  have id: "dj_id job = i" using get row_by_SomeD by (fastforce simp: dj_get_by_id_def)
  have st: "dv_public_state v = project_public_state (dj_public_state row) (Some (dj_progress_stage row))
      (dj_cancel_requested_at row)"
    using view by (auto simp: to_view_def Let_def andThen_eq_Inr)
  show ?thesis
  proof (rule request_cancel_settles [OF rc [unfolded id] assms(2)])
    fix j assume j: "dj_get_by_id i d = Some j" "dj_id row = dj_id j" "dj_media_job_id row = dj_media_job_id j"
      "dj_get_by_id i d' = Some row" "media_jobs d' = media_jobs d" "dj_public_state row \<noteq> DJ_QUEUED"
      and again: "\<And>q n. dj_request_cancel q i n d' = Inr (Some row, d')"
      and queued: "dj_public_state j = DJ_QUEUED \<Longrightarrow> i \<notin> reserved_jobs d' \<and>
        project_public_state (dj_public_state row) (Some (dj_progress_stage row)) (dj_cancel_requested_at row) = DJ_CANCELLED"
    have jj: "j = job" using j(1) get by simp
    have "authorized_job sha i token d' = Inr row"
      using h j(3-5) parent jj by (simp add: authorized_job_def mj_get_by_id_def)
    then have "ds_cancel py u sha s enabled qclk' now' i token d' = Inr (v, d')"
      using on again view j(2) jj id by (simp add: ds_cancel_def)
    moreover have "dv_public_state v \<noteq> DJ_QUEUED"
      using j(6) by (simp add: st project_public_state_def is_stored_cancelled_def)
    ultimately show ?thesis using queued st j(1) by simp
  qed
qed

section \<open>Samples\<close>

definition sample_shown :: "download_job \<Rightarrow> download_job" where
  "sample_shown j = j\<lparr>dj_format_option_id := ''f18'',
     dj_selected_format_snapshot := JObj (snapshot_payload sample_format)\<rparr>"

definition sample_view_db :: "download_job \<Rightarrow> db" where
  "sample_view_db j = empty_db\<lparr>media_jobs := [sample_media_job], clients := [sample_client],
     download_jobs := [sample_shown j], quota_entries := [sample_entry]\<rparr>"

lemmas sample_view_defs = sample_view_db_def sample_shown_def sample_access_defs sample_client_def
  sample_entry_def

lemma sample_authorized:
  assumes "dj_id j = 3" and "dj_media_job_id j = 1"
  shows "authorized_job sample_sha 3 (b64_encode sample_secret) (sample_view_db j) = Inr (sample_shown j)"
proof -
  have rows: "dj_get_by_id 3 (sample_view_db j) = Some (sample_shown j)"
    "mj_get_by_id 1 (sample_view_db j) = Some sample_media_job"
    using assms by (simp_all add: dj_get_by_id_def mj_get_by_id_def row_by_def sample_view_db_def
        sample_shown_def sample_media_job_def)
  have "dj_media_job_id (sample_shown j) = 1" "mj_credential_hash sample_media_job = replicate 32 7"
    using assms by (simp_all add: sample_shown_def sample_media_job_def)
  then show ?thesis
    by (simp add: authorized_job_def sample_access_hash rows sample_secret_tokens_match del: One_nat_def)
qed

lemma sample_shows:
  assumes "dj_suggested_filename j = None"
  shows "\<exists>name. shows_as sample_pylib sample_unidb sample_settings (sample_shown j) sample_format (free_policy sample_settings) name"
proof -
  have "decode_selected_format_snapshot sample_pylib 4096 (JObj (snapshot_payload sample_format))
      (mf_format_option_id sample_format) = Inr sample_format"
    by (rule format_snapshot_roundtrip_core [OF sample_format_valid _ _ _ sample_format_encodes])
      (simp_all add: sample_format_def)
  moreover have "mf_format_option_id sample_format = ''f18''" by (simp add: sample_format_def)
  moreover have "effective_policy_snapshot sample_pylib sample_settings (sample_shown j) = Inr (free_policy sample_settings)"
    by (simp add: effective_policy_snapshot_def sample_shown_def decode_effective_policy_snapshot_def jget_def
        snapshot_payload_def POLICY_KEY_def effective_download_policy_def)
  moreover have "view_container (sample_shown j) (snapshot_payload sample_format) = ''mp4''"
    by (simp add: view_container_def jget_def snapshot_payload_def sample_format_def)
  moreover have "json_size sample_pylib v = 0" for v by (simp add: sample_pylib_def)
  ultimately show ?thesis
    using assms by (simp add: shows_as_def sample_shown_def public_suggested_filename_def
        fallback_filename_def sample_container Let_def)
qed

lemma sample_rows_ok: "download_job_ok (sample_shown sample_served_job)" "download_job_ok (sample_shown sample_download_job)"
  by (simp_all add: download_job_ok_defs no_query_fragment_def sample_view_defs)

lemma sample_keys:
  "dj_id sample_served_job = 3" "dj_media_job_id sample_served_job = 1" "dj_suggested_filename sample_served_job = None"
  "dj_id sample_download_job = 3" "dj_media_job_id sample_download_job = 1" "dj_suggested_filename sample_download_job = None"
  by (simp_all add: sample_view_defs)


theorem elapsed_job_is_an_error_witness:
  "ds_get sample_pylib sample_unidb sample_sha sample_settings (seconds 900) 3 (b64_encode sample_secret)
     (sample_view_db sample_served_job) = Inl (DownloadError INTERNAL_ERROR ''ARTIFACT_BYTES_INVALID'')"
proof -
  obtain name where sh: "shows_as sample_pylib sample_unidb sample_settings (sample_shown sample_served_job)
      sample_format (free_policy sample_settings) name" using sample_shows sample_keys by blast
  have "dj_public_state (sample_shown sample_served_job) \<noteq> DJ_EXPIRED"
    "dj_expires_at (sample_shown sample_served_job) \<le> seconds 900"
    "dj_public_state (sample_shown sample_served_job) = DJ_READY"
    by (simp_all add: sample_view_defs)
  with elapsed_job_is_an_error [OF sample_authorized [OF sample_keys(1,2)] sample_rows_ok(1) sh] show ?thesis by blast
qed

theorem cancel_is_idempotent_witness:
  "\<exists>v d'. ds_cancel sample_pylib sample_unidb sample_sha sample_settings True 5 5 3 (b64_encode sample_secret)
     (sample_view_db sample_download_job) = Inr (v, d') \<and> dv_public_state v = DJ_CANCELLED \<and>
     ds_cancel sample_pylib sample_unidb sample_sha sample_settings True 6 6 3 (b64_encode sample_secret) d' = Inr (v, d')"
proof -
  let ?j = "sample_shown sample_download_job"
  let ?row = "apply_stored_cancel 5 (?j\<lparr>dj_cancel_requested_at := Some 5\<rparr>)"
  let ?d = "sample_view_db sample_download_job"
  let ?e = "sample_entry\<lparr>qe_state := Q_RELEASED, qe_released_at := Some 5\<rparr>"
  let ?d' = "?d\<lparr>download_jobs := [?row], quota_entries := [?e]\<rparr>"
  have rc: "dj_request_cancel 5 3 5 ?d = Inr (Some ?row, ?d')"
    by (simp add: dj_request_cancel_def lock_quota_identity_for_job_def identity_id_for_download_def row_by_def
        lock_client_def dj_get_by_id_def is_stored_cancelled_def dj_flush_def write_row_def put_row_def
        release_quota_after_job_lock_def lock_entry_for_download_def release_locked_def qe_flush_def
        download_job_ok_defs no_query_fragment_def apply_stored_cancel_def no_result_def no_lease_def
        entry_ok_defs Let_def sample_view_defs sample_quota_defs)
  have "\<exists>name. shows_as sample_pylib sample_unidb sample_settings ?row sample_format (free_policy sample_settings) name"
  proof -
    have "?row = sample_shown (apply_stored_cancel 5 (sample_download_job\<lparr>dj_cancel_requested_at := Some 5\<rparr>))"
      by (simp add: apply_stored_cancel_def no_result_def no_lease_def sample_shown_def)
    moreover have "dj_suggested_filename (apply_stored_cancel 5 (sample_download_job\<lparr>dj_cancel_requested_at := Some 5\<rparr>)) = None"
      by (simp add: apply_stored_cancel_def no_result_def no_lease_def sample_keys)
    ultimately show ?thesis using sample_shows by metis
  qed
  then obtain name where sh: "shows_as sample_pylib sample_unidb sample_settings ?row sample_format (free_policy sample_settings) name" ..
  have ok: "download_job_ok ?row"
    by (simp add: download_job_ok_defs no_query_fragment_def apply_stored_cancel_def no_result_def no_lease_def sample_view_defs)
  obtain v where v: "to_view sample_pylib sample_unidb sample_settings ?row False None None = Inr v"
    using stored_view [OF ok sh, of False] by blast
  have id: "dj_id ?j = 3" by (simp add: sample_shown_def sample_keys)
  have first: "ds_cancel sample_pylib sample_unidb sample_sha sample_settings True 5 5 3 (b64_encode sample_secret) ?d = Inr (v, ?d')"
    using v by (simp add: ds_cancel_def sample_authorized [OF sample_keys(4,5)] id rc)
  have wf: "core_wf ?d"
    using sample_rows_ok by (simp add: core_wf_def downloads_wf_def ranges_wf_def entries_wf_def sample_view_db_def empty_db_def)
  have "dj_get_by_id 3 ?d = Some ?j" "dj_public_state ?j = DJ_QUEUED"
    by (simp_all add: dj_get_by_id_def row_by_def sample_view_defs)
  with cancel_is_idempotent [OF first wf, of 6 6] first show ?thesis by blast
qed

end
