(* ===== verification/Download_Create.thy ===== *)
theory Download_Create
  imports Capabilities Metadata_Codec Download_View
begin

text \<open>
  Creation of a download job (\<open>DownloadJobService.create\<close> of \<open>downloads/service.py\<close>): from the token
  of an inspected page and one of its formats to a queued job, admitted under the client's policy.
  A second call for the same format finds the job that is there.
\<close>

section \<open>The format\<close>

definition find_format :: "LoadedFormat list \<Rightarrow> string \<Rightarrow> LoadedFormat res" where
  "find_format formats option_id =
     (case find (\<lambda>f. lf_format_option_id f = option_id) formats of
        None \<Rightarrow> Inl (DownloadError FORMAT_NOT_FOUND ''FORMAT_MISSING'')
      | Some f \<Rightarrow> Inr f)"

fun expected_tracks :: "MediaKind \<Rightarrow> bool \<times> bool" where
  "expected_tracks NORMAL_VIDEO = (True, True)"
| "expected_tracks KIND_VIDEO_ONLY = (True, False)"
| "expected_tracks KIND_AUDIO_ONLY = (False, True)"

definition assert_format_available :: "LoadedFormat \<Rightarrow> bool \<Rightarrow> unit res" where
  "assert_format_available f muxing_required =
     (if lf_media_kind f = NORMAL_VIDEO \<and> muxing_required
      then Inl (DownloadError MUXING_UNAVAILABLE ''MUXING_REQUIRED'')
      else if lf_media_kind f = NORMAL_VIDEO \<and> \<not> lf_free_tier_eligible f
      then Inl (DownloadError FORMAT_NOT_ELIGIBLE ''NOT_FREE_TIER'')
      else if (lf_has_video f, lf_has_audio f) \<noteq> expected_tracks (lf_media_kind f)
      then Inl (DownloadError MEDIA_CAPABILITY_UNAVAILABLE ''MEDIA_KIND_TRACK_MISMATCH'')
      else Inr ())"

fun kind_allowed :: "EffectiveDownloadPolicy \<Rightarrow> MediaKind \<Rightarrow> bool" where
  "kind_allowed p NORMAL_VIDEO = edp_allow_combined p"
| "kind_allowed p KIND_VIDEO_ONLY = edp_allow_video_only p"
| "kind_allowed p KIND_AUDIO_ONLY = edp_allow_audio_only p"

definition assert_media_kind_authorized :: "LoadedFormat \<Rightarrow> EffectiveDownloadPolicy \<Rightarrow> unit res" where
  "assert_media_kind_authorized f policy =
     guard_res (kind_allowed policy (lf_media_kind f))
       (DownloadError MEDIA_CAPABILITY_REQUIRES_PREMIUM ''MEDIA_KIND_NOT_AUTHORIZED'')"

definition operation_for :: "MediaKind \<Rightarrow> MediaOperation" where
  "operation_for kind = (if kind = KIND_AUDIO_ONLY then EXTRACT_AUDIO else DOWNLOAD_VIDEO)"

text \<open>\<open>format_snapshot_from_media_format\<close> on a loaded format: the numbers go in as they came out.\<close>

definition loaded_payload :: "LoadedFormat \<Rightarrow> (string \<times> json) list" where
  "loaded_payload f =
     [(''formatOptionId'', JStr (lf_format_option_id f)), (''container'', JStr (lf_container f)),
      (''width'', lf_width f), (''height'', lf_height f), (''fps'', lf_fps f),
      (''hasVideo'', JBool (lf_has_video f)), (''hasAudio'', JBool (lf_has_audio f)),
      (''category'', JStr (FormatCategory_value (lf_category f))),
      (''videoCodec'', JStr (CodecFamily_value (lf_video_codec f))),
      (''audioCodec'', JStr (CodecFamily_value (lf_audio_codec f))),
      (''approxBytes'', lf_approx_bytes f),
      (''qualityLabel'', JStr (lf_quality_label f)),
      (''freeTierEligible'', JBool (lf_free_tier_eligible f)),
      (''mediaKind'', JStr (MediaKind_value (lf_media_kind f))),
      (''requiresPremium'', JBool (lf_requires_premium f)),
      (''bitrateKbps'', lf_bitrate_kbps f)]"

definition encode_loaded_snapshot :: "pylib \<Rightarrow> int \<Rightarrow> LoadedFormat \<Rightarrow> (string \<times> json) list res" where
  "encode_loaded_snapshot py max_bytes f =
     (let payload = loaded_payload f
      in if \<not> same_keys payload SNAPSHOT_KEYS
         then Inl (DownloadError INTERNAL_ERROR ''SNAPSHOT_ENCODE_KEYS'')
         else if json_size py (JObj payload) > max_bytes
         then Inl (DownloadError INTERNAL_ERROR ''SNAPSHOT_TOO_LARGE'')
         else Inr payload)"

section \<open>The request\<close>

text \<open>The settings \<open>create\<close> reads, and what a call takes from its surroundings.\<close>

record CreateSettings =
  cs_media_downloads_enabled :: bool
  cs_free_download_quota_enabled :: bool
  cs_media_job_result_max_bytes :: int
  cs_media_download_artifact_ttl_seconds :: int
  cs_media_download_max_attempts :: int

record create_call =
  cc_now :: time
  cc_quota_now :: time
  cc_premium_now :: time
  cc_job_id :: uuid
  cc_entry_id :: uuid

text \<open>The media job, when the token opens it and its inspection succeeded.\<close>

definition inspected_parent ::
  "(bytes \<Rightarrow> bytes) \<Rightarrow> time \<Rightarrow> uuid \<Rightarrow> string \<Rightarrow> db \<Rightarrow> (media_job \<times> (string \<times> json) list) res" where
  "inspected_parent sha now media_job_id access_token d =
     andThen (hash_access_token sha access_token) (\<lambda>credential_hash.
     (case mj_get_by_id media_job_id d of
        None \<Rightarrow> Inl (DownloadError DOWNLOAD_JOB_NOT_FOUND ''PARENT_MISSING_OR_UNAUTHORIZED'')
      | Some parent \<Rightarrow>
          if \<not> tokens_match (mj_credential_hash parent) credential_hash
          then Inl (DownloadError DOWNLOAD_JOB_NOT_FOUND ''PARENT_MISSING_OR_UNAUTHORIZED'')
          else if mj_public_state parent = MJ_EXPIRED \<or> mj_expires_at parent \<le> now
          then Inl (DownloadError DOWNLOAD_EXPIRED ''PARENT_EXPIRED'')
          else if mj_public_state parent \<noteq> MJ_INSPECTED
          then Inl (DownloadError PARENT_JOB_NOT_READY ''PARENT_NOT_INSPECTED'')
          else (case mj_result_metadata parent of
                  Some (JObj obj) \<Rightarrow> Inr (parent, obj)
                | _ \<Rightarrow> Inl (DownloadError PARENT_JOB_NOT_READY ''PARENT_METADATA_MISSING''))))"

text \<open>The chosen format with the snapshot and the name of the file.\<close>

definition chosen_format ::
  "pylib \<Rightarrow> unidb \<Rightarrow> (json \<Rightarrow> string) \<Rightarrow> CreateSettings \<Rightarrow> capability_registry \<Rightarrow> uuid \<Rightarrow> media_job \<Rightarrow>
     (string \<times> json) list \<Rightarrow> string \<Rightarrow> (LoadedFormat \<times> (string \<times> json) list \<times> codepoints) res" where
  "chosen_format py u rp cs reg job_id parent obj option_id =
     andThen (media_metadata_from_jsonable py rp (cs_media_job_result_max_bytes cs) (JObj obj)) (\<lambda>metadata.
     andThen (find_format (lm_formats metadata) option_id) (\<lambda>f.
     andThen (assert_format_available f (lm_muxing_required metadata)) (\<lambda>_.
     andThen (assert_operation_allowed reg (mj_provider_id parent) (operation_for (lf_media_kind f))) (\<lambda>_.
     andThen (encode_loaded_snapshot py 4096 f) (\<lambda>snapshot.
     andThen (suggested_filename_for py u
               (case lm_title metadata of JStr t \<Rightarrow> Some (stored_text t) | _ \<Rightarrow> None)
               (lf_container f) job_id (lf_media_kind f)) (\<lambda>filename.
       Inr (f, snapshot, filename)))))))"

definition create_request ::
  "CreateSettings \<Rightarrow> media_job \<Rightarrow> LoadedFormat \<Rightarrow> (string \<times> json) list \<Rightarrow> codepoints \<Rightarrow> enqueue_request" where
  "create_request cs parent f snapshot filename =
     \<lparr>eq_media_job_id = mj_id parent, eq_format_option_id = lf_format_option_id f,
      eq_provider_id = mj_provider_id parent,
      eq_canonical_provider_url = mj_canonical_provider_url parent,
      eq_media_id = mj_media_id parent, eq_hostname = mj_hostname parent, eq_path = mj_path parent,
      eq_scheme = mj_scheme parent, eq_port = mj_port parent, eq_selected_format_snapshot = snapshot,
      eq_ttl_seconds = cs_media_download_artifact_ttl_seconds cs,
      eq_max_attempts = cs_media_download_max_attempts cs,
      eq_parent_expires_at = mj_expires_at parent,
      eq_suggested_filename = Some (text_octets filename)\<rparr>"

section \<open>Admission\<close>

text \<open>The policy a new job is admitted under; with the quota enabled a Free download is reserved.\<close>

definition admission_policy ::
  "Settings \<Rightarrow> CreateSettings \<Rightarrow> create_call \<Rightarrow> download_job \<Rightarrow> uuid option \<Rightarrow> db \<Rightarrow>
     (EffectiveDownloadPolicy \<times> db) res" where
  "admission_policy s cs call job client d =
     andThen (effective_download_policy s None) (\<lambda>policy.
       if cs_free_download_quota_enabled cs
       then (case client of
               None \<Rightarrow> Inl AnonymousIdentityRequiredError
             | Some c \<Rightarrow>
                 andThen (admit_locked s (cc_entry_id call) (cc_quota_now call) (cc_premium_now call)
                            c (dj_id job) (dj_expires_at job) d)
                   (\<lambda>(admission, d'). Inr (qa_policy admission, d')))
       else (case client of
               Some c \<Rightarrow> andThen (resolve_policy s (cc_premium_now call) c d) (\<lambda>p. Inr (p, d))
             | None \<Rightarrow> Inr (policy, d)))"

definition bound_identity :: "uuid option \<Rightarrow> EffectiveDownloadPolicy \<Rightarrow> uuid option" where
  "bound_identity client policy = (if edp_tier policy = ''premium'' then client else None)"

definition admit_created ::
  "pylib \<Rightarrow> Settings \<Rightarrow> CreateSettings \<Rightarrow> create_call \<Rightarrow> LoadedFormat \<Rightarrow> (string \<times> json) list \<Rightarrow>
     download_job \<Rightarrow> uuid option \<Rightarrow> db \<Rightarrow> (download_job \<times> db) res" where
  "admit_created py s cs call f snapshot job client d =
     andThen (admission_policy s cs call job client d) (\<lambda>(policy, d1).
     andThen (assert_media_kind_authorized f policy) (\<lambda>_.
     andThen (attach_effective_policy_snapshot py snapshot policy (bound_identity client policy)) (\<lambda>attached.
       let row = job\<lparr>dj_selected_format_snapshot := JObj attached\<rparr>
       in andThen (dj_flush row d1) (\<lambda>d2. Inr (row, d2)))))"

text \<open>A job that was there already: its stored policy decides, and a standalone format belongs to
  the identity it was authorized for.\<close>

definition recheck_existing ::
  "pylib \<Rightarrow> Settings \<Rightarrow> LoadedFormat \<Rightarrow> download_job \<Rightarrow> uuid option \<Rightarrow> unit res" where
  "recheck_existing py s f job client =
     andThen (decode_effective_policy_snapshot py (dj_selected_format_snapshot job)) (\<lambda>stored.
     andThen (case stored of Some p \<Rightarrow> Inr p | None \<Rightarrow> effective_download_policy s None) (\<lambda>policy.
     andThen (assert_media_kind_authorized f policy) (\<lambda>_.
       if lf_media_kind f = NORMAL_VIDEO then Inr ()
       else
         andThen (decode_authorized_identity_id py (dj_selected_format_snapshot job)) (\<lambda>authorized.
           guard_res (client \<noteq> None \<and> authorized = client)
             (DownloadError MEDIA_CAPABILITY_REQUIRES_PREMIUM ''PREMIUM_IDENTITY_MISMATCH'')))))"

section \<open>Create\<close>

definition ds_create ::
  "pylib \<Rightarrow> unidb \<Rightarrow> (json \<Rightarrow> string) \<Rightarrow> (bytes \<Rightarrow> bytes) \<Rightarrow> Settings \<Rightarrow> CreateSettings \<Rightarrow>
     capability_registry \<Rightarrow> create_call \<Rightarrow> uuid \<Rightarrow> string \<Rightarrow> string \<Rightarrow> uuid option \<Rightarrow> db \<Rightarrow>
     (DownloadJobView \<times> db) res" where
  "ds_create py u rp sha s cs reg call media_job_id option_id access_token client d =
     (if \<not> cs_media_downloads_enabled cs then Inl (DownloadError DOWNLOADS_DISABLED ''DOWNLOADS_DISABLED'')
      else
        andThen (inspected_parent sha (cc_now call) media_job_id access_token d) (\<lambda>(parent, obj).
        andThen (chosen_format py u rp cs reg (cc_job_id call) parent obj option_id) (\<lambda>(f, snapshot, filename).
        andThen (dj_enqueue_or_get (cc_job_id call) (create_request cs parent f snapshot filename)
                   (cc_now call) d) (\<lambda>((job, created), d1).
          if created
          then andThen (admit_created py s cs call f snapshot job client d1) (\<lambda>(row, d2).
               andThen (to_view py u s row True None None) (\<lambda>view. Inr (view, d2)))
          else andThen (recheck_existing py s f job client) (\<lambda>_.
               andThen (to_view py u s job False None None) (\<lambda>view. Inr (view, d1)))))))"

section \<open>What a successful call went through\<close>

lemma inspected_parentD:
  assumes "inspected_parent sha now mid token d = Inr (parent, obj)"
  shows "mj_get_by_id mid d = Some parent" "mj_public_state parent = MJ_INSPECTED" "now < mj_expires_at parent"
    "mj_result_metadata parent = Some (JObj obj)"
    "\<exists>h. hash_access_token sha token = Inr h \<and> tokens_match (mj_credential_hash parent) h"
proof -
  obtain h where h: "hash_access_token sha token = Inr h"
    using assms by (cases "hash_access_token sha token") (simp_all add: inspected_parent_def)
  obtain p where p: "mj_get_by_id mid d = Some p"
    using assms h by (cases "mj_get_by_id mid d") (simp_all add: inspected_parent_def)
  note run = assms [unfolded inspected_parent_def h andThen_Inr p option.case]
  have c: "tokens_match (mj_credential_hash p) h" "\<not> mj_expires_at p \<le> now" "mj_public_state p = MJ_INSPECTED"
    using run by (simp_all split: if_split_asm)
  have "mj_result_metadata p = Some (JObj obj) \<and> p = parent"
  proof (cases "mj_result_metadata p")
    case None
    with run c show ?thesis by simp
  next
    case (Some v)
    with run c show ?thesis by (cases v) simp_all
  qed
  with h p c show "mj_get_by_id mid d = Some parent" "mj_public_state parent = MJ_INSPECTED" "now < mj_expires_at parent"
    "mj_result_metadata parent = Some (JObj obj)"
    "\<exists>h. hash_access_token sha token = Inr h \<and> tokens_match (mj_credential_hash parent) h" by auto
qed

lemma inspected_parent_cong:
  assumes "inspected_parent sha now mid token d = Inr (parent, obj)" and "media_jobs d' = media_jobs d"
    and "now' < mj_expires_at parent"
  shows "inspected_parent sha now' mid token d' = Inr (parent, obj)"
proof -
  note p = inspected_parentD [OF assms(1)]
  have "mj_get_by_id mid d' = Some parent" using p(1) assms(2) by (simp add: mj_get_by_id_def)
  with p assms(3) show ?thesis by (auto simp: inspected_parent_def)
qed

lemma find_formatD: "find_format fs opt = Inr f \<Longrightarrow> f \<in> set fs \<and> lf_format_option_id f = opt"
  by (cases "find (\<lambda>f. lf_format_option_id f = opt) fs") (auto simp: find_format_def find_Some_iff)

lemma encode_loadedD: "encode_loaded_snapshot py n f = Inr obj \<Longrightarrow> obj = loaded_payload f"
  by (auto simp: encode_loaded_snapshot_def Let_def split: if_splits)

lemma chosen_formatD:
  assumes "chosen_format py u rp cs reg i parent obj opt = Inr (f, snapshot, filename)"
  obtains m where "media_metadata_from_jsonable py rp (cs_media_job_result_max_bytes cs) (JObj obj) = Inr m"
    and "f \<in> set (lm_formats m)" and "lf_format_option_id f = opt"
    and "assert_format_available f (lm_muxing_required m) = Inr ()"
    and "assert_operation_allowed reg (mj_provider_id parent) (operation_for (lf_media_kind f)) = Inr ()"
    and "snapshot = loaded_payload f"
  using assms by (auto simp: chosen_format_def andThen_eq_Inr dest!: find_formatD encode_loadedD intro: that)

text \<open>Only the fallback name depends on the id of the job.\<close>

lemma suggested_filename_total:
  assumes "suggested_filename_for py u t c i k = Inr n"
  shows "\<exists>n'. suggested_filename_for py u t c i' k = Inr n'"
proof -
  obtain ext where e: "validated_container c = Inr ext"
    using assms by (auto simp: suggested_filename_for_def andThen_eq_Inr)
  then show ?thesis
    using validated_containerD(2) [OF e]
    by (auto simp: suggested_filename_for_def fallback_filename_def Let_def split: option.split)
qed

lemma chosen_format_again:
  assumes "chosen_format py u rp cs reg i parent obj opt = Inr (f, snapshot, filename)"
  shows "\<exists>n. chosen_format py u rp cs reg i' parent obj opt = Inr (f, snapshot, n)"
  using assms suggested_filename_total
  by (fastforce simp: chosen_format_def andThen_eq_Inr)

section \<open>A second call finds the job\<close>

definition scalar_json :: "json \<Rightarrow> bool" where
  "scalar_json v \<longleftrightarrow> (case v of JArr _ \<Rightarrow> False | JObj _ \<Rightarrow> False | _ \<Rightarrow> True)"

lemma py_eq_scalar: "scalar_json v \<Longrightarrow> py_eq v v"
  by (cases v) (simp_all add: scalar_json_def num_of_def)

lemma py_eq_flat:
  assumes "distinct (map fst obj)" and "\<forall>(k, v) \<in> set obj. scalar_json v"
  shows "py_eq (JObj obj) (JObj obj)"
proof -
  have "case map_of obj k of None \<Rightarrow> False | Some y \<Rightarrow> py_eq v y" if "(k, v) \<in> set obj" for k v
    using that assms py_eq_scalar [of v] by (auto simp: map_of_eq_Some_iff)
  then show ?thesis by (auto simp: list_all_iff)
qed

lemma checked_scalar: "check_number mx v = Inr () \<Longrightarrow> scalar_json v"
  by (cases v) (simp_all add: check_number_def scalar_json_def)

lemma new_loaded_formatD:
  "new_loaded_format f = Inr g \<Longrightarrow> g = f \<and> scalar_json (lf_width f) \<and> scalar_json (lf_height f) \<and>
     scalar_json (lf_fps f) \<and> scalar_json (lf_approx_bytes f) \<and> scalar_json (lf_bitrate_kbps f)"
  by (auto simp: new_loaded_format_def andThen_eq_Inr intro: checked_scalar)

lemma load_format_checked:
  assumes "load_format rp v = Inr g"
  shows "new_loaded_format g = Inr g"
proof -
  obtain item where item: "v = JObj item" using assms by (cases v) (simp_all add: load_format_def)
  then have "caught_value ''METADATA_FORMAT_INVALID'' (load_format_fields rp item) = Inr g"
    using assms by (auto simp: load_format_def andThen_eq_Inr)
  then have "load_format_fields rp item = Inr g"
    by (cases "(''METADATA_FORMAT_INVALID'', load_format_fields rp item)" rule: caught_value.cases) auto
  then obtain x where "new_loaded_format x = Inr g" unfolding load_format_fields_def andThen_eq_Inr by blast
  then show ?thesis using new_loaded_formatD by blast
qed

lemma load_formats_checked: "load_formats rp vs = Inr fs \<Longrightarrow> f \<in> set fs \<Longrightarrow> new_loaded_format f = Inr f"
  by (induction vs arbitrary: fs) (auto simp: andThen_eq_Inr dest: load_format_checked)

lemma caught_value_Inr: "caught_value r m = Inr x \<Longrightarrow> m = Inr x"
  by (cases "(r, m)" rule: caught_value.cases) auto

lemma loaded_metadata_checked:
  assumes "media_metadata_from_jsonable py rp mx v = Inr m" and "f \<in> set (lm_formats m)"
  shows "new_loaded_format f = Inr f"
proof -
  obtain payload where v: "v = JObj payload"
    using assms(1) by (cases v) (simp_all add: media_metadata_from_jsonable_def)
  obtain items where items: "jget ''formats'' payload = JArr items"
    using assms(1) v by (cases "jget ''formats'' payload")
      (auto simp: media_metadata_from_jsonable_def andThen_eq_Inr split: if_splits)
  obtain fs where fs: "load_formats rp items = Inr fs"
    and m: "caught_value ''METADATA_INVALID'' (load_metadata_fields rp payload fs) = Inr m"
    using assms(1) v items by (auto simp: media_metadata_from_jsonable_def andThen_eq_Inr split: if_splits)
  have "lm_formats m = fs"
    using caught_value_Inr [OF m] by (auto simp: load_metadata_fields_def andThen_eq_Inr Let_def)
  with load_formats_checked [OF fs] assms(2) show ?thesis by simp
qed

lemma loaded_payload_eq: "new_loaded_format f = Inr f \<Longrightarrow> py_eq (JObj (loaded_payload f)) (JObj (loaded_payload f))"
  by (rule py_eq_flat)
    (use new_loaded_formatD [of f f] in \<open>auto simp: loaded_payload_def scalar_json_def\<close>)

lemma loaded_payload_keys: "map fst (loaded_payload f) = SNAPSHOT_KEYS"
  by (simp add: loaded_payload_def SNAPSHOT_KEYS_def LEGACY_SNAPSHOT_KEYS_def)

lemma strip_loaded_payload: "strip_effective_policy_snapshot (loaded_payload f) = loaded_payload f"
  by (simp add: strip_effective_policy_snapshot_def loaded_payload_def POLICY_KEY_def)

lemma enqueue_created:
  assumes "dj_enqueue_or_get i rq now d = Inr ((job, True), d1)"
  shows "job = enqueue_row i rq now" "dj_insert job d = Inr d1"
    "no_query_fragment (eq_canonical_provider_url rq)" "eq_format_option_id rq \<noteq> []"
    "length (eq_format_option_id rq) \<le> 64"
  using assms by (auto simp: dj_enqueue_or_get_def Let_def split: if_splits sum.splits option.splits)

lemma enqueue_existing:
  assumes "dj_enqueue_or_get i rq now d = Inr ((job, False), d1)"
  shows "d1 = d" "immutable_fields_match job (enqueue_row i rq now)"
    "find (\<lambda>j. dj_media_job_id j = eq_media_job_id rq \<and> dj_format_option_id j = eq_format_option_id rq)
       (download_jobs d) = Some job"
    "no_query_fragment (eq_canonical_provider_url rq)" "eq_format_option_id rq \<noteq> []"
    "length (eq_format_option_id rq) \<le> 64"
  using assms by (auto simp: dj_enqueue_or_get_def Let_def split: if_splits sum.splits option.splits)

lemma enqueue_finds:
  assumes "find (\<lambda>j. dj_media_job_id j = eq_media_job_id rq \<and> dj_format_option_id j = eq_format_option_id rq)
       (download_jobs d) = Some job"
    and "immutable_fields_match job (enqueue_row i rq now)"
    and "no_query_fragment (eq_canonical_provider_url rq)" "eq_format_option_id rq \<noteq> []"
      "length (eq_format_option_id rq) \<le> 64"
  shows "dj_enqueue_or_get i rq now d = Inr ((job, False), d)"
proof -
  have "(dj_media_job_id (enqueue_row i rq now), dj_format_option_id (enqueue_row i rq now))
      \<in> (\<lambda>j. (dj_media_job_id j, dj_format_option_id j)) ` set (download_jobs d)"
  proof -
    from assms(1) have "job \<in> set (download_jobs d)" "dj_media_job_id job = eq_media_job_id rq"
      "dj_format_option_id job = eq_format_option_id rq" by (auto simp: find_Some_iff)
    then show ?thesis by (auto simp: enqueue_row_def image_iff intro!: bexI [of _ job])
  qed
  then have "dj_insert (enqueue_row i rq now) d = Inl dj_rejected" by (simp add: dj_insert_def)
  with assms show ?thesis by (simp add: dj_enqueue_or_get_def Let_def)
qed

lemma ds_createE:
  assumes "ds_create py u rp sha s cs reg call mid opt token client d = Inr (v, d')"
  obtains (created) parent obj f filename job d1 row where
      "inspected_parent sha (cc_now call) mid token d = Inr (parent, obj)"
      "chosen_format py u rp cs reg (cc_job_id call) parent obj opt = Inr (f, loaded_payload f, filename)"
      "dj_enqueue_or_get (cc_job_id call) (create_request cs parent f (loaded_payload f) filename) (cc_now call) d =
         Inr ((job, True), d1)"
      "admit_created py s cs call f (loaded_payload f) job client d1 = Inr (row, d')"
      "to_view py u s row True None None = Inr v"
  | (existing) parent obj f filename job where
      "inspected_parent sha (cc_now call) mid token d = Inr (parent, obj)"
      "chosen_format py u rp cs reg (cc_job_id call) parent obj opt = Inr (f, loaded_payload f, filename)"
      "dj_enqueue_or_get (cc_job_id call) (create_request cs parent f (loaded_payload f) filename) (cc_now call) d =
         Inr ((job, False), d)"
      "d' = d" "recheck_existing py s f job client = Inr ()" "to_view py u s job False None None = Inr v"
proof -
  obtain parent obj where p: "inspected_parent sha (cc_now call) mid token d = Inr (parent, obj)"
    using assms by (auto simp: ds_create_def andThen_eq_Inr split: if_splits)
  obtain f snapshot filename where c: "chosen_format py u rp cs reg (cc_job_id call) parent obj opt = Inr (f, snapshot, filename)"
    using assms p by (auto simp: ds_create_def andThen_eq_Inr split: if_splits)
  have snap: "snapshot = loaded_payload f" using chosen_formatD [OF c] by blast
  obtain job b d1 where q: "dj_enqueue_or_get (cc_job_id call) (create_request cs parent f snapshot filename) (cc_now call) d =
      Inr ((job, b), d1)"
    using assms p c by (auto simp: ds_create_def andThen_eq_Inr split: if_splits)
  show thesis
  proof (cases b)
    case True
    with assms p c q snap show ?thesis
      by (auto simp: ds_create_def andThen_eq_Inr split: if_splits intro: created)
  next
    case False
    with assms p c q snap enqueue_existing(1) [of _ _ _ _ job d1] show ?thesis
      by (auto simp: ds_create_def andThen_eq_Inr split: if_splits intro: existing)
  qed
qed

lemma admit_createdE:
  assumes "admit_created py s cs call f snapshot job client d = Inr (row, d2)"
  obtains policy d1 attached where "admission_policy s cs call job client d = Inr (policy, d1)"
    "kind_allowed policy (lf_media_kind f)"
    "attach_effective_policy_snapshot py snapshot policy (bound_identity client policy) = Inr attached"
    "row = job\<lparr>dj_selected_format_snapshot := JObj attached\<rparr>" "dj_flush row d1 = Inr d2"
  using assms by (auto simp: admit_created_def assert_media_kind_authorized_def andThen_eq_Inr Let_def intro: that)

text \<open>A policy that allows a standalone format is a Premium policy of a known client.\<close>

lemma resolved_policy:
  "resolve_policy s n c d = Inr p \<Longrightarrow>
     p = free_policy s \<or> (edp_tier p = ''premium'' \<and> edp_allow_combined p)"
  by (auto simp: resolve_policy_cases split: option.splits)

lemma admit_locked_policy:
  assumes "admit_locked s e n p c i t d = Inr (a, d1)"
  shows "resolve_policy s p c d = Inr (qa_policy a)"
proof -
  obtain x where x: "resolve_policy s p c d = Inr x"
    using assms by (auto simp: admit_locked_def andThen_eq_Inr split: option.splits)
  have "qa_policy a = x"
    using assms unfolding admit_locked_def x
    by (auto simp: andThen_eq_Inr Let_def split: option.splits if_splits)
  with x show ?thesis by simp
qed

lemma admit_locked_frame:
  assumes "admit_locked s e n p c i t d = Inr (a, d1)"
  shows "download_jobs d1 = download_jobs d \<and> media_jobs d1 = media_jobs d"
  using admit_locked_InrD [OF assms]
  by (auto simp: reserve_locked_def qe_insert_def Let_def andThen_eq_Inr split: if_splits)

lemma free_kinds: "kind_allowed (free_policy s) k \<longleftrightarrow> k = NORMAL_VIDEO"
  by (cases k) (simp_all add: free_policy_def)

lemma admission_policy_cases:
  assumes "admission_policy s cs call job client d = Inr (policy, d1)"
  obtains (anonymous) "client = None" "policy = free_policy s" "d1 = d" "\<not> cs_free_download_quota_enabled cs"
  | (resolved) c where "client = Some c" "resolve_policy s (cc_premium_now call) c d = Inr policy" "d1 = d"
      "\<not> cs_free_download_quota_enabled cs"
  | (admitted) c a where "client = Some c" "cs_free_download_quota_enabled cs" "policy = qa_policy a"
      "admit_locked s (cc_entry_id call) (cc_quota_now call) (cc_premium_now call) c (dj_id job)
         (dj_expires_at job) d = Inr (a, d1)"
proof -
  have free: "effective_download_policy s None = Inr (free_policy s)"
    by (simp add: effective_download_policy_def)
  note run = assms [unfolded admission_policy_def free andThen_Inr]
  show thesis
  proof (cases "cs_free_download_quota_enabled cs")
    case True
    obtain c where c: "client = Some c" using run True by (cases client) simp_all
    with run True obtain a where "admit_locked s (cc_entry_id call) (cc_quota_now call) (cc_premium_now call) c
        (dj_id job) (dj_expires_at job) d = Inr (a, d1)" "policy = qa_policy a"
      by (auto simp: andThen_eq_Inr)
    with c True show thesis by (intro admitted)
  next
    case False
    show thesis
    proof (cases client)
      case None
      with run False show thesis by (intro anonymous) simp_all
    next
      case (Some c)
      with run False have "resolve_policy s (cc_premium_now call) c d = Inr policy" "d1 = d"
        by (auto simp: andThen_eq_Inr)
      with Some False show thesis by (intro resolved)
    qed
  qed
qed

lemma admission_policyD:
  assumes "admission_policy s cs call job client d = Inr (policy, d1)"
  shows "download_jobs d1 = download_jobs d" "media_jobs d1 = media_jobs d"
    and "kind_allowed policy k \<Longrightarrow> k \<noteq> NORMAL_VIDEO \<Longrightarrow> edp_tier policy = ''premium'' \<and> client \<noteq> None"
proof -
  have frame: "download_jobs d1 = download_jobs d \<and> media_jobs d1 = media_jobs d"
    using assms
  proof (cases rule: admission_policy_cases)
    case (admitted c a)
    then show ?thesis using admit_locked_frame by blast
  qed simp_all
  then show "download_jobs d1 = download_jobs d" "media_jobs d1 = media_jobs d" by simp_all
  have "policy = free_policy s \<or> (edp_tier policy = ''premium'' \<and> client \<noteq> None)"
    using assms
  proof (cases rule: admission_policy_cases)
    case (resolved c)
    with resolved_policy [OF resolved(2)] show ?thesis by blast
  next
    case (admitted c a)
    with resolved_policy [OF admit_locked_policy [OF admitted(4)]] show ?thesis by blast
  qed simp
  then show "kind_allowed policy k \<Longrightarrow> k \<noteq> NORMAL_VIDEO \<Longrightarrow> edp_tier policy = ''premium'' \<and> client \<noteq> None"
    using free_kinds by blast
qed

text \<open>The row of a job that was admitted: what its snapshot says of the policy and the identity.\<close>

definition admitted_row ::
  "pylib \<Rightarrow> LoadedFormat \<Rightarrow> uuid option \<Rightarrow> download_job \<Rightarrow> EffectiveDownloadPolicy \<Rightarrow> download_job \<Rightarrow> bool" where
  "admitted_row py f client job policy row \<longleftrightarrow>
     (\<exists>attached. row = job\<lparr>dj_selected_format_snapshot := JObj attached\<rparr> \<and>
        strip_effective_policy_snapshot attached = loaded_payload f) \<and>
     decode_effective_policy_snapshot py (dj_selected_format_snapshot row) = Inr (Some policy) \<and>
     kind_allowed policy (lf_media_kind f) \<and>
     (lf_media_kind f \<noteq> NORMAL_VIDEO \<longrightarrow> edp_tier policy = ''premium'' \<and> client \<noteq> None \<and>
        decode_authorized_identity_id py (dj_selected_format_snapshot row) = Inr client)"

lemma admitted_job:
  assumes laws: "pylib_laws py" and ins: "dj_insert job d = Inr d1"
    and adm: "admit_created py s cs call f (loaded_payload f) job client d1 = Inr (row, d')"
  obtains policy d2 where "admission_policy s cs call job client d1 = Inr (policy, d2)"
    "admitted_row py f client job policy row" "download_jobs d' = download_jobs d @ [row]"
    "media_jobs d' = media_jobs d" "quota_entries d' = quota_entries d2" "download_job_ok row"
proof -
  have d1: "d1 = d\<lparr>download_jobs := download_jobs d @ [job]\<rparr>" "dj_id job \<notin> dj_id ` set (download_jobs d)"
    using ins by (auto simp: dj_insert_def split: if_splits)
  obtain policy d2 attached where pol: "admission_policy s cs call job client d1 = Inr (policy, d2)"
    and kind: "kind_allowed policy (lf_media_kind f)"
    and att: "attach_effective_policy_snapshot py (loaded_payload f) policy (bound_identity client policy) = Inr attached"
    and row: "row = job\<lparr>dj_selected_format_snapshot := JObj attached\<rparr>" and fl: "dj_flush row d2 = Inr d'"
    using admit_createdE [OF adm] by blast
  note snap = policy_snapshot_decodes [OF laws att]
  note prem = admission_policyD(3) [OF pol kind]
  have "put_row dj_id row (download_jobs d) = download_jobs d"
    by (rule put_row_id) (use d1(2) in \<open>simp add: row_by_None_iff row\<close>)
  then have jobs: "put_row dj_id row (download_jobs d1) = download_jobs d @ [row]"
    by (simp add: d1(1) put_row_def row)
  have d': "d' = d2\<lparr>download_jobs := put_row dj_id row (download_jobs d2)\<rparr>" "download_job_ok row"
    using fl by (auto simp: dj_flush_def andThen_eq_Inr write_row_eq_Inr)
  show thesis
  proof (rule that [OF pol])
    show "admitted_row py f client job policy row"
      using snap kind prem row unfolding admitted_row_def
      by (auto simp: bound_identity_def strip_loaded_payload)
    show "download_jobs d' = download_jobs d @ [row]" "media_jobs d' = media_jobs d"
      "quota_entries d' = quota_entries d2" "download_job_ok row"
      using d' jobs admission_policyD(1,2) [OF pol] by (simp_all add: d1(1))
  qed
qed

lemma to_viewD:
  assumes "to_view py u s job b None None = Inr v"
  shows "dv_id v = dj_id job" "dv_created v = b" "dv_media_job_id v = dj_media_job_id job"
    "effective_policy_snapshot py s job = Inr (dv_effective_policy v)"
    "dv_format_option_id v = dj_format_option_id job"
  using assms by (auto simp: to_view_def Let_def andThen_eq_Inr)

lemma to_view_created:
  "to_view py u s job b None None = Inr v \<Longrightarrow>
     to_view py u s job b' None None = Inr (v\<lparr>dv_created := b'\<rparr>)"
  by (auto simp: to_view_def Let_def andThen_eq_Inr)

lemma stored_policy_shown:
  "decode_effective_policy_snapshot py (dj_selected_format_snapshot job) = Inr (Some p) \<Longrightarrow>
     effective_policy_snapshot py s job = Inr p"
  by (simp add: effective_policy_snapshot_def)

lemma recheck_existingD:
  assumes "recheck_existing py s f job client = Inr ()" and "effective_policy_snapshot py s job = Inr p"
  shows "kind_allowed p (lf_media_kind f)"
    and "lf_media_kind f \<noteq> NORMAL_VIDEO \<Longrightarrow> client \<noteq> None \<and> edp_tier p = ''premium'' \<and>
       decode_authorized_identity_id py (dj_selected_format_snapshot job) = Inr client"
proof -
  obtain stored where st: "decode_effective_policy_snapshot py (dj_selected_format_snapshot job) = Inr stored"
    using assms(1) by (auto simp: recheck_existing_def andThen_eq_Inr)
  have p: "(case stored of Some q \<Rightarrow> Inr q | None \<Rightarrow> effective_download_policy s None) = Inr p"
    using assms(2) st by (cases stored) (simp_all add: effective_policy_snapshot_def)
  note run = assms(1) [unfolded recheck_existing_def st andThen_Inr p]
  show k: "kind_allowed p (lf_media_kind f)"
    using run by (auto simp: assert_media_kind_authorized_def andThen_eq_Inr)
  assume n: "lf_media_kind f \<noteq> NORMAL_VIDEO"
  with run obtain a where a: "decode_authorized_identity_id py (dj_selected_format_snapshot job) = Inr a"
    and c: "client \<noteq> None" "a = client"
    by (auto simp: assert_media_kind_authorized_def andThen_eq_Inr)
  have "edp_tier p = ''premium''"
    using a c st p by (auto simp: decode_authorized_identity_id_def andThen_eq_Inr split: option.splits if_splits)
  with a c show "client \<noteq> None \<and> edp_tier p = ''premium'' \<and>
       decode_authorized_identity_id py (dj_selected_format_snapshot job) = Inr client" by simp
qed

section \<open>Nothing is created without authority\<close>

text \<open>C34. A client gets a download job only for a format that the inspection of its own page offered,
  while the page is unexpired, and only under a policy that allows this kind of format; a video-only
  or audio-only job is always Premium and bound to the very client that asked, whether the job is
  new or was already there.\<close>

theorem created_job_is_authorized:
  assumes "pylib_laws py"
    and "ds_create py u rp sha s cs reg call mid opt token client d = Inr (v, d')"
  shows "\<exists>parent obj m f j. mj_get_by_id mid d = Some parent \<and> mj_public_state parent = MJ_INSPECTED \<and>
     cc_now call < mj_expires_at parent \<and>
     (\<exists>h. hash_access_token sha token = Inr h \<and> tokens_match (mj_credential_hash parent) h) \<and>
     mj_result_metadata parent = Some (JObj obj) \<and>
     media_metadata_from_jsonable py rp (cs_media_job_result_max_bytes cs) (JObj obj) = Inr m \<and>
     f \<in> set (lm_formats m) \<and> lf_format_option_id f = opt \<and>
     j \<in> set (download_jobs d') \<and> dj_id j = dv_id v \<and> dj_media_job_id j = mj_id parent \<and>
     dj_format_option_id j = opt \<and>
     kind_allowed (dv_effective_policy v) (lf_media_kind f) \<and>
     (lf_media_kind f \<noteq> NORMAL_VIDEO \<longrightarrow> client \<noteq> None \<and> edp_tier (dv_effective_policy v) = ''premium'' \<and>
        decode_authorized_identity_id py (dj_selected_format_snapshot j) = Inr client)"
  using assms(2)
proof (cases rule: ds_createE)
  case (created parent obj f filename job d1 row)
  note p = inspected_parentD [OF created(1)]
  obtain m where m: "media_metadata_from_jsonable py rp (cs_media_job_result_max_bytes cs) (JObj obj) = Inr m"
    "f \<in> set (lm_formats m)" "lf_format_option_id f = opt"
    using chosen_formatD [OF created(2)] by blast
  note e = enqueue_created [OF created(3)]
  obtain policy d2 where a: "admitted_row py f client job policy row" "download_jobs d' = download_jobs d @ [row]"
    using admitted_job [OF assms(1) e(2) created(4)] by blast
  note v = to_viewD [OF created(5)]
  have row: "dj_media_job_id row = mj_id parent" "dj_format_option_id row = opt"
    using a(1) e(1) m(3) by (auto simp: admitted_row_def enqueue_row_def create_request_def)
  have pol: "dv_effective_policy v = policy"
    using a(1) v(4) stored_policy_shown unfolding admitted_row_def by (metis Inr_inject)
  show ?thesis
    by (rule exI [of _ parent], rule exI [of _ obj], rule exI [of _ m], rule exI [of _ f], rule exI [of _ row])
      (use p m a v(1) row pol in \<open>auto simp: admitted_row_def\<close>)
next
  case (existing parent obj f filename job)
  note p = inspected_parentD [OF existing(1)]
  obtain m where m: "media_metadata_from_jsonable py rp (cs_media_job_result_max_bytes cs) (JObj obj) = Inr m"
    "f \<in> set (lm_formats m)" "lf_format_option_id f = opt"
    using chosen_formatD [OF existing(2)] by blast
  have job: "job \<in> set (download_jobs d)" "dj_media_job_id job = mj_id parent" "dj_format_option_id job = opt"
    using enqueue_existing(3) [OF existing(3)] m(3) by (auto simp: find_Some_iff create_request_def)
  note v = to_viewD [OF existing(6)]
  note r = recheck_existingD [OF existing(5) v(4)]
  show ?thesis
    by (rule exI [of _ parent], rule exI [of _ obj], rule exI [of _ m], rule exI [of _ f], rule exI [of _ job])
      (use p m job v(1) r existing(4) in auto)
qed

section \<open>Creating twice is creating once\<close>

lemma find_last: "\<forall>y \<in> set xs. \<not> P y \<Longrightarrow> P x \<Longrightarrow> find P (xs @ [x]) = Some x"
  by (induction xs) auto

lemma immutable_request:
  "immutable_fields_match j (enqueue_row i (create_request cs parent f snapshot n) now) \<longleftrightarrow>
     immutable_fields_match j (enqueue_row i' (create_request cs parent f snapshot n') now')"
  by (cases "dj_selected_format_snapshot j")
    (simp_all add: immutable_fields_match_def enqueue_row_def create_request_def)

lemma admitted_row_matches:
  assumes "admitted_row py f client (enqueue_row i (create_request cs parent f (loaded_payload f) n) now) policy row"
    and "new_loaded_format f = Inr f"
  shows "immutable_fields_match row (enqueue_row i' (create_request cs parent f (loaded_payload f) n') now')"
  using assms loaded_payload_eq [OF assms(2)]
  by (auto simp: admitted_row_def immutable_fields_match_def enqueue_row_def create_request_def
      strip_loaded_payload)

lemma admitted_row_found:
  assumes "dj_enqueue_or_get i (create_request cs parent f (loaded_payload f) n) now d = Inr ((job, True), d0)"
    and "admitted_row py f client job policy row" and "download_jobs d1 = download_jobs d @ [row]"
    and "new_loaded_format f = Inr f"
  shows "dj_enqueue_or_get i' (create_request cs parent f (loaded_payload f) n') now' d1 = Inr ((row, False), d1)"
proof -
  let ?rq = "create_request cs parent f (loaded_payload f) n'"
  note e = enqueue_created [OF assms(1)]
  have pair: "dj_media_job_id row = eq_media_job_id ?rq" "dj_format_option_id row = eq_format_option_id ?rq"
    using assms(2) e(1) by (auto simp: admitted_row_def enqueue_row_def create_request_def)
  have "dj_media_job_id job = mj_id parent" "dj_format_option_id job = lf_format_option_id f"
    by (simp_all add: e(1) enqueue_row_def create_request_def)
  then have "(mj_id parent, lf_format_option_id f)
      \<notin> (\<lambda>j. (dj_media_job_id j, dj_format_option_id j)) ` set (download_jobs d)"
    using e(2) by (simp add: dj_insert_def split: if_splits)
  then have "\<forall>j \<in> set (download_jobs d). \<not> (dj_media_job_id j = eq_media_job_id ?rq \<and>
      dj_format_option_id j = eq_format_option_id ?rq)" by (force simp: create_request_def image_iff)
  then have "find (\<lambda>j. dj_media_job_id j = eq_media_job_id ?rq \<and> dj_format_option_id j = eq_format_option_id ?rq)
      (download_jobs d1) = Some row"
    unfolding assms(3) by (rule find_last) (simp add: pair)
  from enqueue_finds [OF this admitted_row_matches [OF assms(2) [unfolded e(1)] assms(4)]] show ?thesis
    using e(3-5) by (simp add: create_request_def)
qed

lemma recheck_admitted:
  assumes "admitted_row py f client job policy row"
  shows "recheck_existing py s f row client = Inr ()"
  using assms by (auto simp: admitted_row_def recheck_existing_def assert_media_kind_authorized_def)

lemma ds_create_found:
  assumes "cs_media_downloads_enabled cs"
    and "inspected_parent sha (cc_now call) mid token d = Inr (parent, obj)"
    and "chosen_format py u rp cs reg (cc_job_id call) parent obj opt = Inr (f, loaded_payload f, n)"
    and "dj_enqueue_or_get (cc_job_id call) (create_request cs parent f (loaded_payload f) n) (cc_now call) d =
         Inr ((job, False), d)"
    and "recheck_existing py s f job client = Inr ()" and "to_view py u s job False None None = Inr v"
  shows "ds_create py u rp sha s cs reg call mid opt token client d = Inr (v, d)"
  using assms by (simp add: ds_create_def)

text \<open>C35. Asking again for the same format, at any later moment before the page expires, finds the job
  of the first call: the same view, apart from the flag that says it is new, and not the slightest
  change of the database, so that a retry never charges the quota a second time.\<close>

theorem create_is_idempotent:
  assumes laws: "pylib_laws py"
    and first: "ds_create py u rp sha s cs reg call mid opt token client d = Inr (v, d1)"
    and live: "\<And>parent. mj_get_by_id mid d = Some parent \<Longrightarrow> cc_now call' < mj_expires_at parent"
  shows "ds_create py u rp sha s cs reg call' mid opt token client d1 = Inr (v\<lparr>dv_created := False\<rparr>, d1)"
proof -
  have on: "cs_media_downloads_enabled cs" using first by (simp add: ds_create_def split: if_splits)
  show ?thesis
    using first
  proof (cases rule: ds_createE)
    case (created parent obj f filename job d0 row)
    note p = inspected_parentD [OF created(1)]
    note e = enqueue_created [OF created(3)]
    obtain policy d2 where a: "admitted_row py f client job policy row" "download_jobs d1 = download_jobs d @ [row]"
      "media_jobs d1 = media_jobs d"
      using admitted_job [OF laws e(2) created(4)] by blast
    obtain n where n: "chosen_format py u rp cs reg (cc_job_id call') parent obj opt = Inr (f, loaded_payload f, n)"
      using chosen_format_again [OF created(2)] by blast
    obtain m where "media_metadata_from_jsonable py rp (cs_media_job_result_max_bytes cs) (JObj obj) = Inr m"
      "f \<in> set (lm_formats m)" using chosen_formatD [OF created(2)] by blast
    then have f: "new_loaded_format f = Inr f" by (rule loaded_metadata_checked)
    have "dj_enqueue_or_get (cc_job_id call') (create_request cs parent f (loaded_payload f) n) (cc_now call') d1 =
        Inr ((row, False), d1)"
      by (rule admitted_row_found [OF created(3) a(1,2) f])
    from ds_create_found [OF on inspected_parent_cong [OF created(1) a(3) live [OF p(1)]] n this
        recheck_admitted [OF a(1)] to_view_created [OF created(5)]]
    show ?thesis .
  next
    case (existing parent obj f filename job)
    note p = inspected_parentD [OF existing(1)]
    note e = enqueue_existing [OF existing(3)]
    obtain n where n: "chosen_format py u rp cs reg (cc_job_id call') parent obj opt = Inr (f, loaded_payload f, n)"
      using chosen_format_again [OF existing(2)] by blast
    have "dj_enqueue_or_get (cc_job_id call') (create_request cs parent f (loaded_payload f) n) (cc_now call') d =
        Inr ((job, False), d)"
    proof (rule enqueue_finds)
      show "immutable_fields_match job (enqueue_row (cc_job_id call')
          (create_request cs parent f (loaded_payload f) n) (cc_now call'))"
        using e(2) by (rule immutable_request [THEN iffD1])
    qed (use e(3-6) in \<open>simp_all add: create_request_def\<close>)
    from ds_create_found [OF on inspected_parent_cong [OF existing(1) refl live [OF p(1)]] n this
        existing(5) to_view_created [OF existing(6)]]
    show ?thesis by (simp add: existing(4))
  qed
qed

section \<open>What a creation charges\<close>

lemma admit_locked_free:
  assumes "admit_locked st fresh now pnow client jid t d = Inr (a, d')"
    and "get_active_for_client client pnow d = None"
  shows "charged client (window_of st) now d < st_free_download_limit st"
    and "\<exists>e. reserve_locked fresh client jid now t d = Inr (e, d')"
proof -
  obtain s where s: "status_locked client now (free_policy st) d = Inr s"
    and rem: "qs_downloads_remaining s =
      Some (max 0 (st_free_download_limit st - charged client (window_of st) now d))"
    using status_locked_free [of client now st d] by blast
  then show "charged client (window_of st) now d < st_free_download_limit st"
    "\<exists>e. reserve_locked fresh client jid now t d = Inr (e, d')"
    using assms s rem
    by (auto simp: admit_locked_def resolve_policy_cases andThen_eq_Inr Let_def split: option.splits if_splits)
qed

lemma reserve_locked_entry:
  assumes "reserve_locked fresh client jid now t d = Inr (e, d')"
  shows "quota_entries d' = quota_entries d @ [e]" "qe_state e = Q_RESERVED" "qe_anonymous_client_id e = client"
    "qe_download_job_id e = jid" "jid \<notin> qe_download_job_id ` set (quota_entries d)"
  using assms by (auto simp: reserve_locked_def qe_insert_def Let_def andThen_eq_Inr split: if_splits)

lemma charged_cong: "quota_entries d' = quota_entries d \<Longrightarrow> charged c w now d' = charged c w now d"
  by (simp add: charged_def)

text \<open>C36. With the quota enabled, a client without Premium that is given a new job is charged exactly one
  download, within the limit and to nobody else, as a reservation held by that job; one that is
  given an existing job is charged nothing.\<close>

theorem creation_charges_once:
  assumes "pylib_laws py" and "cs_free_download_quota_enabled cs"
    and "ds_create py u rp sha s cs reg call mid opt token (Some c) d = Inr (v, d')"
    and "get_active_for_client c (cc_premium_now call) d = None"
  shows "let w = window_of s; now = cc_quota_now call
     in if dv_created v
        then charged c w now d' = charged c w now d + 1 \<and> charged c w now d' \<le> st_free_download_limit s \<and>
             (\<forall>c'. c' \<noteq> c \<longrightarrow> charged c' w now d' = charged c' w now d) \<and>
             (\<exists>e. lock_entry_for_download (dv_id v) d' = Some e \<and> qe_state e = Q_RESERVED \<and>
                  qe_anonymous_client_id e = c)
        else d' = d"
  using assms(3)
proof (cases rule: ds_createE)
  case (created parent obj f filename job d1 row)
  note e = enqueue_created [OF created(3)]
  obtain policy d2 where pol: "admission_policy s cs call job (Some c) d1 = Inr (policy, d2)"
    and a: "admitted_row py f (Some c) job policy row" "quota_entries d' = quota_entries d2"
    using admitted_job [OF assms(1) e(2) created(4)] by blast
  have d1: "quota_entries d1 = quota_entries d" "entitlements d1 = entitlements d"
    using e(2) by (auto simp: dj_insert_def split: if_splits)
  obtain adm where adm: "admit_locked s (cc_entry_id call) (cc_quota_now call) (cc_premium_now call) c (dj_id job)
         (dj_expires_at job) d1 = Inr (adm, d2)"
    using pol assms(2) by (cases rule: admission_policy_cases) auto
  have "get_active_for_client c (cc_premium_now call) d1 = None"
    using assms(4) d1(2) by (simp add: get_active_for_client_def)
  note free = admit_locked_free [OF adm this]
  obtain q where q: "reserve_locked (cc_entry_id call) c (dj_id job) (cc_quota_now call) (dj_expires_at job) d1 = Inr (q, d2)"
    using free(2) by blast
  note ch = reserve_locked_charged [OF q, of "window_of s"]
  note en = reserve_locked_entry [OF q]
  note v = to_viewD [OF created(5)]
  have id: "dv_id v = dj_id job" using v(1) a(1) by (auto simp: admitted_row_def)
  have "row_by qe_download_job_id (dj_id job) (quota_entries d1) = None"
    using en(5) by (simp add: row_by_None_iff)
  then have "lock_entry_for_download (dv_id v) d' = Some q"
    using en(1,4) by (simp add: lock_entry_for_download_def a(2) id row_by_append row_by_Cons)
  then show ?thesis
    using ch free(1) en(2,3) v(2) charged_cong [OF a(2)] charged_cong [OF d1(1)] by (simp add: Let_def)
next
  case (existing parent obj f filename job)
  then show ?thesis using to_viewD(2) [OF existing(6)] by simp
qed

section \<open>A container without a name\<close>

text \<open>The inspection offers formats in any container of up to eight letters; for one that the file names
  do not know, the error that escapes \<open>create\<close> is no error of the domain.\<close>

lemma unknown_container:
  assumes "lower (strip c) \<notin> ALLOWED_CONTAINERS"
  shows "suggested_filename_for py u t c i k = Inl (ValueError ''unsafe container'')"
  using assms by (auto simp: suggested_filename_for_def validated_container_def Let_def)

theorem unnamed_container_escapes:
  assumes "cs_media_downloads_enabled cs"
    and "inspected_parent sha (cc_now call) mid token d = Inr (parent, obj)"
    and "media_metadata_from_jsonable py rp (cs_media_job_result_max_bytes cs) (JObj obj) = Inr m"
    and "find_format (lm_formats m) opt = Inr f" and "assert_format_available f (lm_muxing_required m) = Inr ()"
    and "assert_operation_allowed reg (mj_provider_id parent) (operation_for (lf_media_kind f)) = Inr ()"
    and "encode_loaded_snapshot py 4096 f = Inr snapshot"
    and "lower (strip (lf_container f)) \<notin> ALLOWED_CONTAINERS"
  shows "ds_create py u rp sha s cs reg call mid opt token client d = Inl (ValueError ''unsafe container'')"
  using assms by (simp add: ds_create_def chosen_format_def unknown_container)

lemma flv_is_offered:
  "valid_format (sample_format\<lparr>mf_container := ''flv''\<rparr>)" "lower (strip ''flv'') \<notin> ALLOWED_CONTAINERS"
proof -
  show "valid_format (sample_format\<lparr>mf_container := ''flv''\<rparr>)"
    using sample_format_valid by (simp add: valid_format_def safe_token_def lower_ascii_def digit_ascii_def)
  show "lower (strip ''flv'') \<notin> ALLOWED_CONTAINERS" by code_simp
qed

section \<open>Samples\<close>

definition sample_clip :: MediaMetadata where
  "sample_clip = \<lparr>mm_provider_id = ''vk'', mm_canonical_provider_url = ''https://vk.com/video1_2'',
     mm_media_id = ''1_2'', mm_title = Some (cps ''Clip''), mm_duration_seconds = Some 60,
     mm_formats = [sample_format], mm_extraction_tool = ''ytdlp'', mm_extraction_tool_version = None,
     mm_muxing_required = False\<rparr>"

definition sample_page :: media_job where
  "sample_page = sample_media_job\<lparr>mj_public_state := MJ_INSPECTED,
     mj_result_metadata := Some (JObj (metadata_payload sample_clip))\<rparr>"

definition sample_cs :: CreateSettings where
  "sample_cs = \<lparr>cs_media_downloads_enabled = True, cs_free_download_quota_enabled = True,
     cs_media_job_result_max_bytes = 65536, cs_media_download_artifact_ttl_seconds = 900,
     cs_media_download_max_attempts = 3\<rparr>"

definition sample_call :: create_call where
  "sample_call = \<lparr>cc_now = 10, cc_quota_now = 10, cc_premium_now = 10, cc_job_id = 3, cc_entry_id = 4\<rparr>"

definition sample_create_db :: db where
  "sample_create_db = empty_db\<lparr>media_jobs := [sample_page], clients := [sample_client]\<rparr>"

lemma loaded_format_payload: "loaded_payload (loaded_format f) = snapshot_payload f"
  by (simp add: loaded_payload_def loaded_format_def snapshot_payload_def)

lemma sample_page_opens:
  "inspected_parent sample_sha 10 1 (b64_encode sample_secret) sample_create_db =
     Inr (sample_page, metadata_payload sample_clip)"
proof -
  have "mj_get_by_id 1 sample_create_db = Some sample_page"
    by (simp add: mj_get_by_id_def row_by_def sample_create_db_def sample_page_def sample_media_job_def)
  moreover have "mj_credential_hash sample_page = replicate 32 7" "mj_public_state sample_page = MJ_INSPECTED"
    "\<not> mj_expires_at sample_page \<le> 10" "mj_result_metadata sample_page = Some (JObj (metadata_payload sample_clip))"
    by (simp_all add: sample_page_def sample_media_job_def seconds_def)
  ultimately show ?thesis
    by (simp add: inspected_parent_def sample_access_hash sample_secret_tokens_match del: One_nat_def)
qed

lemma sample_clip_valid: "valid_metadata sample_clip"
  by (simp add: valid_metadata_def sample_clip_def safe_token_def lower_ascii_def digit_ascii_def
      no_query_fragment_def contains_def safe_media_id_def ascii_alnum_def non_negative_def)

lemma sample_clip_reads:
  "media_metadata_from_jsonable sample_pylib rp 65536 (JObj (metadata_payload sample_clip)) =
     Inr (loaded_metadata sample_clip)"
  by (rule metadata_reads_back [OF sample_clip_valid])
    (simp_all add: sample_clip_def sample_format_valid media_metadata_to_jsonable_def sample_pylib_def)

lemma sample_clip_chosen:
  "chosen_format sample_pylib sample_unidb rp sample_cs DEFAULT_PROVIDER_CAPABILITIES 3 sample_page
     (metadata_payload sample_clip) ''f18'' =
   Inr (loaded_format sample_format, snapshot_payload sample_format, cps ''Clip.mp4'')"
proof -
  have lm: "lm_formats (loaded_metadata sample_clip) = [loaded_format sample_format]"
    "\<not> lm_muxing_required (loaded_metadata sample_clip)"
    "lm_title (loaded_metadata sample_clip) = JStr (text_octets (cps ''Clip''))"
    by (simp_all add: loaded_metadata_def sample_clip_def)
  have "list_all scalar_value (cps ''Clip'')" by (simp add: cps_def scalar_value_def)
  then have title: "stored_text (text_octets (cps ''Clip'')) = cps ''Clip''" by (rule title_reads_back)
  have f: "lf_format_option_id (loaded_format sample_format) = ''f18''" "lf_media_kind (loaded_format sample_format) = NORMAL_VIDEO"
    "lf_container (loaded_format sample_format) = ''mp4''"
    "assert_format_available (loaded_format sample_format) False = Inr ()"
    by (simp_all add: loaded_format_def sample_format_def assert_format_available_def)
  have p: "mj_provider_id sample_page = ProviderID_value VK"
    by (simp add: sample_page_def sample_media_job_def)
  have b: "filename_bounds_ok (cps ''Clip.mp4'')" by (simp add: filename_eval)
  have n: "suggested_filename_for sample_pylib sample_unidb (Some (cps ''Clip'')) ''mp4'' 3 NORMAL_VIDEO = Inr (cps ''Clip.mp4'')"
    using sample_stem b by (simp add: suggested_filename_for_def fallback_filename_def sample_container with_ext_def Let_def)
  have "cs_media_job_result_max_bytes sample_cs = 65536" by (simp add: sample_cs_def)
  moreover have "encode_loaded_snapshot sample_pylib 4096 (loaded_format sample_format) = Inr (snapshot_payload sample_format)"
    unfolding encode_loaded_snapshot_def loaded_format_payload Let_def same_keys_def snapshot_payload_keys
    by (simp add: sample_pylib_def)
  ultimately show ?thesis
    by (simp add: chosen_format_def sample_clip_reads lm find_format_def f p default_allows operation_for_def title n
        del: cps_simps ProviderID_value.simps)
qed

abbreviation "sample_request \<equiv> create_request sample_cs sample_page (loaded_format sample_format)
  (snapshot_payload sample_format) (cps ''Clip.mp4'')"

definition sample_created :: download_job where
  "sample_created = (enqueue_row 3 sample_request 10)\<lparr>dj_selected_format_snapshot := JObj sample_free_snapshot\<rparr>"

lemma sample_octets: "text_octets (cps ''Clip.mp4'') = ''Clip.mp4''"
  by code_simp

lemma sample_enqueued:
  "dj_enqueue_or_get 3 sample_request 10 sample_create_db =
     Inr ((enqueue_row 3 sample_request 10, True),
          sample_create_db\<lparr>download_jobs := [enqueue_row 3 sample_request 10]\<rparr>)"
  "download_job_ok (enqueue_row 3 sample_request 10)" "download_job_ok sample_created"
proof -
  have rq: "no_query_fragment (eq_canonical_provider_url sample_request)" "eq_format_option_id sample_request = ''f18''"
    by (simp_all add: create_request_def loaded_format_def sample_format_def sample_page_def sample_media_job_def
        no_query_fragment_def)
  show ok: "download_job_ok (enqueue_row 3 sample_request 10)" "download_job_ok sample_created"
    by (simp_all add: download_job_ok_defs sample_created_def enqueue_row_def create_request_def sample_page_def
        sample_media_job_def sample_cs_def loaded_format_def sample_format_def no_query_fragment_def seconds_def
        sample_octets char_length_def del: cps_simps)
  have "dj_insert (enqueue_row 3 sample_request 10) sample_create_db =
      Inr (sample_create_db\<lparr>download_jobs := [enqueue_row 3 sample_request 10]\<rparr>)"
    by (simp add: dj_insert_def ok del: cps_simps) (simp add: sample_create_db_def empty_db_def enqueue_row_def create_request_def)
  then show "dj_enqueue_or_get 3 sample_request 10 sample_create_db =
     Inr ((enqueue_row 3 sample_request 10, True),
          sample_create_db\<lparr>download_jobs := [enqueue_row 3 sample_request 10]\<rparr>)"
    using rq by (simp add: dj_enqueue_or_get_def Let_def)
qed

lemma sample_charges:
  "\<exists>a d'. admit_locked sample_settings 4 10 10 1 3 (seconds 900 + 10)
      (sample_create_db\<lparr>download_jobs := [enqueue_row 3 sample_request 10]\<rparr>) = Inr (a, d')"
proof -
  let ?d = "sample_create_db\<lparr>download_jobs := [enqueue_row 3 sample_request 10]\<rparr>"
  have "lock_client 1 (Some 10) ?d \<noteq> None"
    by (simp add: lock_client_def sample_create_db_def sample_client_def seconds_def)
  moreover have "get_active_for_client 1 10 ?d = None"
    by (simp add: get_active_for_client_def sql_limit_def order_by_def sample_create_db_def empty_db_def)
  moreover have "charged 1 (window_of sample_settings) 10 ?d < st_free_download_limit sample_settings"
    by (simp add: charged_def sample_create_db_def empty_db_def sample_settings_def)
  moreover have "3 \<in> dj_id ` set (download_jobs ?d)" by (simp add: enqueue_row_def)
  moreover have "quota_entries ?d = []" by (simp add: sample_create_db_def empty_db_def)
  ultimately show ?thesis
    using admit_locked_exact_core [of 1 10 ?d 10 "seconds 900 + 10" 3 4 sample_settings]
    by (auto simp: Let_def seconds_def)
qed

lemma sample_free_attaches:
  "attach_effective_policy_snapshot sample_pylib (snapshot_payload sample_format)
     (free_policy sample_settings) None = Inr sample_free_snapshot"
proof -
  have id: "jget ''formatOptionId'' (snapshot_payload sample_format) = JStr ''f18''"
    by (simp add: jget_def snapshot_payload_def sample_format_def)
  have small: "json_size sample_pylib v = 0" for v by (simp add: sample_pylib_def)
  show ?thesis
    unfolding attach_effective_policy_snapshot_def id
    by (simp add: Let_def small sample_format_decodes sample_free_policy_decodes jget_jset
        sample_free_snapshot_def [symmetric])
qed

lemma sample_admitted:
  "\<exists>d'. admit_created sample_pylib sample_settings sample_cs sample_call (loaded_format sample_format)
      (snapshot_payload sample_format) (enqueue_row 3 sample_request 10) (Some 1)
      (sample_create_db\<lparr>download_jobs := [enqueue_row 3 sample_request 10]\<rparr>) = Inr (sample_created, d')"
proof -
  let ?d = "sample_create_db\<lparr>download_jobs := [enqueue_row 3 sample_request 10]\<rparr>"
  obtain a d' where a: "admit_locked sample_settings 4 10 10 1 3 (seconds 900 + 10) ?d = Inr (a, d')"
    using sample_charges by blast
  have "get_active_for_client 1 10 ?d = None"
    by (simp add: get_active_for_client_def sql_limit_def order_by_def sample_create_db_def empty_db_def)
  then have pol: "qa_policy a = free_policy sample_settings"
    using admit_locked_policy [OF a] by (simp add: resolve_policy_cases)
  have c: "cs_free_download_quota_enabled sample_cs" "cc_entry_id sample_call = 4" "cc_quota_now sample_call = 10"
    "cc_premium_now sample_call = 10" "lf_media_kind (loaded_format sample_format) = NORMAL_VIDEO"
    "dj_id (enqueue_row 3 sample_request 10) = 3"
    "dj_expires_at (enqueue_row 3 sample_request 10) = seconds 900 + 10"
    by (simp_all add: sample_cs_def sample_call_def loaded_format_def sample_format_def enqueue_row_def
        create_request_def sample_page_def sample_media_job_def seconds_def)
  have ap: "admission_policy sample_settings sample_cs sample_call (enqueue_row 3 sample_request 10) (Some 1) ?d =
      Inr (free_policy sample_settings, d')"
    by (simp add: admission_policy_def effective_download_policy_def c a pol del: cps_simps One_nat_def)
  have "bound_identity (Some 1) (free_policy sample_settings) = None" "edp_allow_combined (free_policy sample_settings)"
    by (simp_all add: bound_identity_def free_policy_def)
  then show ?thesis
    using sample_enqueued(3)
    by (simp add: admit_created_def ap c assert_media_kind_authorized_def sample_free_attaches Let_def
        sample_created_def [symmetric] dj_flush_def del: cps_simps One_nat_def)
qed

lemma decode_fields_cong:
  assumes "\<And>k. k \<noteq> POLICY_KEY \<Longrightarrow> map_of obj' k = map_of obj k"
  shows "decode_fields obj' e = decode_fields obj e"
  unfolding decode_fields_def jget_def by (simp add: assms POLICY_KEY_def)

lemma policy_key_accepted: "reject_key POLICY_KEY = Inr ()"
  by (simp add: POLICY_KEY_def reject_key_def forbidden_keys_folded FORBIDDEN_KEYS_def casefold_def
      upper_ascii_def char_of_eq_iff take_bit_eq_mod)

lemma fold_res_append: "fold_res f (xs @ ys) s = andThen (fold_res f xs s) (fold_res f ys)"
  by (induction xs arbitrary: s) (auto simp: andThen_def split: sum.splits)

lemma sample_size: "json_size sample_pylib v = 0"
  by (simp add: sample_pylib_def)

lemma sample_free_decodes:
  "decode_selected_format_snapshot sample_pylib 4096 (JObj sample_free_snapshot) ''f18'' = Inr sample_format"
proof -
  have new: "POLICY_KEY \<notin> fst ` set (snapshot_payload sample_format)"
    by (simp add: snapshot_payload_def POLICY_KEY_def)
  have keys: "map fst sample_free_snapshot = SNAPSHOT_KEYS @ [POLICY_KEY]"
    unfolding sample_free_snapshot_def jset_def using new by (simp add: snapshot_payload_keys)
  have "reject_keys sample_free_snapshot = Inr ()"
    unfolding reject_keys_def keys by (simp add: fold_res_append snapshot_keys_accepted policy_key_accepted)
  moreover have "same_keys sample_free_snapshot (SNAPSHOT_KEYS @ [POLICY_KEY])"
    by (simp only: same_keys_def keys)
  moreover have "decode_fields sample_free_snapshot ''f18'' = decode_fields (snapshot_payload sample_format) ''f18''"
    by (rule decode_fields_cong) (use new in \<open>simp add: sample_free_snapshot_def jset_def map_add_def split: option.split\<close>)
  moreover have "decode_fields (snapshot_payload sample_format) (mf_format_option_id sample_format) = Inr sample_format"
    by (rule decode_fields_payload [OF sample_format_valid]) (simp_all add: sample_format_def)
  moreover have "mf_format_option_id sample_format = ''f18''" by (simp add: sample_format_def)
  ultimately show ?thesis
    by (simp add: decode_selected_format_snapshot_def Let_def sample_size)
qed

lemma sample_created_shown:
  "\<exists>v. to_view sample_pylib sample_unidb sample_settings sample_created True None None = Inr v \<and> dv_created v"
proof -
  have snap: "dj_selected_format_snapshot sample_created = JObj sample_free_snapshot"
    "dj_suggested_filename sample_created = Some (text_octets (cps ''Clip.mp4''))"
    "dj_format_option_id sample_created = ''f18''"
    by (simp_all add: sample_created_def enqueue_row_def create_request_def loaded_format_def sample_format_def)
  have b: "filename_bounds_ok (cps ''Clip.mp4'')" by (simp add: filename_eval)
  have "stem_of (cps ''Clip.mp4'') = cps ''Clip''" by (simp add: stem_of_def)
  have cont: "view_container sample_created (snapshot_payload sample_format) = ''mp4''"
    by (simp add: view_container_def jget_def snapshot_payload_def sample_format_def)
  have ne: "text_octets (cps ''Clip.mp4'') \<noteq> []" and st: "stored_text (text_octets (cps ''Clip.mp4'')) = cps ''Clip.mp4''"
    by code_simp+
  have safe: "is_safe_suggested_filename sample_unidb (cps ''Clip.mp4'') ''mp4'' = Inr True"
    using b sample_stem by (simp add: is_safe_suggested_filename_def sample_container Let_def ends_with_ext_def
        FORBIDDEN_def)
  have "shows_as sample_pylib sample_unidb sample_settings sample_created sample_format
      (free_policy sample_settings) (cps ''Clip.mp4'')"
    by (simp add: shows_as_def snap effective_policy_snapshot_def sample_free_policy_decodes sample_free_decodes
      sample_size
      public_suggested_filename_def cont ne st safe Let_def del: cps_simps)
  from stored_view [OF sample_enqueued(3) this] show ?thesis by blast
qed

lemma sample_creation:
  "\<exists>v d'. ds_create sample_pylib sample_unidb rp sample_sha sample_settings sample_cs
      DEFAULT_PROVIDER_CAPABILITIES sample_call 1 ''f18'' (b64_encode sample_secret) (Some 1) sample_create_db =
    Inr (v, d') \<and> dv_created v"
proof -
  have c: "cs_media_downloads_enabled sample_cs" "cc_now sample_call = 10" "cc_job_id sample_call = 3"
    by (simp_all add: sample_cs_def sample_call_def)
  show ?thesis
    using sample_admitted sample_created_shown
    by (auto simp: ds_create_def c sample_page_opens sample_clip_chosen sample_enqueued(1)
        simp del: One_nat_def cps_simps)
qed

lemma sample_no_premium: "get_active_for_client 1 (cc_premium_now sample_call) sample_create_db = None"
  by (simp add: get_active_for_client_def sql_limit_def order_by_def sample_create_db_def empty_db_def)

theorem created_job_is_authorized_witness:
  "\<exists>v d' j. ds_create sample_pylib sample_unidb (\<lambda>_. []) sample_sha sample_settings sample_cs
      DEFAULT_PROVIDER_CAPABILITIES sample_call 1 ''f18'' (b64_encode sample_secret) (Some 1) sample_create_db =
    Inr (v, d') \<and> j \<in> set (download_jobs d') \<and> dj_format_option_id j = ''f18''"
proof -
  obtain v d' where "ds_create sample_pylib sample_unidb (\<lambda>_. []) sample_sha sample_settings sample_cs
      DEFAULT_PROVIDER_CAPABILITIES sample_call 1 ''f18'' (b64_encode sample_secret) (Some 1) sample_create_db =
    Inr (v, d')" using sample_creation by blast
  with created_job_is_authorized [OF sample_pylib_laws this] show ?thesis by blast
qed

theorem create_is_idempotent_witness:
  "\<exists>v d'. ds_create sample_pylib sample_unidb (\<lambda>_. []) sample_sha sample_settings sample_cs
      DEFAULT_PROVIDER_CAPABILITIES (sample_call\<lparr>cc_now := 20, cc_job_id := 5\<rparr>) 1 ''f18''
      (b64_encode sample_secret) (Some 1) d' = Inr (v, d') \<and> \<not> dv_created v"
proof -
  obtain v d' where run: "ds_create sample_pylib sample_unidb (\<lambda>_. []) sample_sha sample_settings sample_cs
      DEFAULT_PROVIDER_CAPABILITIES sample_call 1 ''f18'' (b64_encode sample_secret) (Some 1) sample_create_db =
    Inr (v, d')" using sample_creation by blast
  have "cc_now (sample_call\<lparr>cc_now := 20, cc_job_id := 5\<rparr>) < mj_expires_at p"
    if "mj_get_by_id 1 sample_create_db = Some p" for p
    using that by (auto simp: mj_get_by_id_def row_by_def sample_create_db_def sample_page_def sample_media_job_def
        seconds_def split: if_split_asm)
  from create_is_idempotent [OF sample_pylib_laws run this] show ?thesis by force
qed

theorem creation_charges_once_witness:
  "\<exists>d'. charged 1 (window_of sample_settings) 10 d' = 1 \<and> charged 2 (window_of sample_settings) 10 d' = 0"
proof -
  obtain v d' where run: "ds_create sample_pylib sample_unidb (\<lambda>_. []) sample_sha sample_settings sample_cs
      DEFAULT_PROVIDER_CAPABILITIES sample_call 1 ''f18'' (b64_encode sample_secret) (Some 1) sample_create_db =
    Inr (v, d')" "dv_created v" using sample_creation by blast
  have "charged c (window_of sample_settings) 10 sample_create_db = 0" for c
    by (simp add: charged_def sample_create_db_def empty_db_def)
  moreover have "cs_free_download_quota_enabled sample_cs" "cc_quota_now sample_call = 10"
    by (simp_all add: sample_cs_def sample_call_def)
  ultimately show ?thesis
    using creation_charges_once [OF sample_pylib_laws _ run(1) sample_no_premium] run(2) by (auto simp: Let_def)
qed

end
