(* ===== verification/Ledger_Limits.thy ===== *)
theory Ledger_Limits
  imports Delivery_Ledger
begin

text \<open>
  Two runs of the delivery ledger that its guards do not exclude, evaluated on concrete
  databases: the fragment bound that \<open>begin\<close> checks does not protect later finalization, and a
  late checkpoint consumes a reservation that has expired.
\<close>

text \<open>64 single bytes at even offsets, and an active attempt for the byte between the first two.\<close>

definition fragment_rows :: "delivery_range list" where
  "fragment_rows = map (\<lambda>k. sample_range (2 + k) R_CLOSED (2 * int k) (2 * int k + 1) (2 * int k + 1))
     [0..<64] @ [sample_range 0 R_ACTIVE 1 2 1]"

text \<open>
  An isolated attempt is admitted, because the byte the active attempt may still send merges two
  fragments; that attempt then closes without a byte, the isolated one sends a byte, and when
  its lease has run out the entry is reconciled.
\<close>

definition overflow_run :: "(DeliveryAccountingResult \<times> db) res" where
  "overflow_run =
     andThen (begin_attempt 1 (\<lambda>k. 70 + k) sample_ready_job None 500 600
                (\<lambda>_. Inr sample_ready_job) 8 (ledger_db [sample_entry] fragment_rows)) (\<lambda>(_, d1).
     andThen (finalize (\<lambda>k. 70 + k) 0 1 9 d1) (\<lambda>(_, d2).
     andThen (checkpoint 1 501 10 d2) (\<lambda>(_, d3).
       reconcile_locked (\<lambda>k. 70 + k) sample_ready_job sample_entry (seconds 700) d3)))"

text \<open>The admission check of \<open>begin\<close> does not keep later closing within the fragment bound,
  although its comment says so: there is a run in which every begin, finalize and checkpoint is
  accepted and the reconciliation of the entry then fails with the fragment-bound invariant
  error.\<close>

theorem admitted_attempts_overflow_fragments:
  "overflow_run = Inl (QuotaInvariantError ''delivery coverage exceeds fragment bound'')"
  by code_simp

section \<open>A late checkpoint\<close>

text \<open>
  The limit is 1. The reservation of the first download ran out at 900 s while its job is still
  stored ready, a second download is admitted at 901 s, and a checkpoint of the first one's
  attempt, whose own lease ended at 600 s, arrives at 902 s.
\<close>

definition late_db :: db where
  "late_db = empty_db\<lparr>clients := [sample_client],
     download_jobs := [sample_ready_job, sample_download_job\<lparr>dj_id := 6\<rparr>],
     quota_entries := [sample_entry], ranges := [sample_attempt]\<rparr>"

definition late_run :: "(bool \<times> int) res" where
  "late_run =
     andThen (admit_locked sample_settings 5 (seconds 901) (seconds 901) 1 6 (seconds 1800) late_db)
       (\<lambda>(_, d1). andThen (checkpoint 9 1000 (seconds 902) d1)
         (\<lambda>(result, d2). Inr (ar_consumed result, charged 1 (window_of sample_settings) (seconds 902) d2)))"

text \<open>The ledger does not ask whether the reservation it consumes is still live: with a limit of
  one download, an admission after the reservation has expired and a late checkpoint of the old
  attempt leave the client charged with two.\<close>

theorem late_checkpoint_exceeds_limit:
  "late_run = Inr (True, st_free_download_limit sample_settings + 1)"
  by code_simp

end
