(* ===== verification/Reservation_Repair.thy ===== *)
theory Reservation_Repair
  imports Reservations
begin

text \<open>
  What the repair pass achieves from any state of the tables, also one in which the bookkeeping of
  quota and queue has come apart: every reservation it could see is settled against its job.
\<close>

section \<open>Quarantine leaves the entries alone\<close>

lemma quarantine_one_entries: "quarantine_one py now p d = Inr d' \<Longrightarrow> quota_entries d' = quota_entries d"
proof -
  assume a: "quarantine_one py now p d = Inr d'"
  obtain c i where p: "p = (c, i)" by (cases p)
  show ?thesis
  proof (cases "quarantine_body py now p d")
    case (Inl e)
    with a show ?thesis by (cases e) (simp_all add: quarantine_one_def)
  next
    case (Inr d1)
    with a have q: "quarantine_body py now (c, i) d = Inr d'" by (simp add: quarantine_one_def p)
    have step: "quota_entries d' = quota_entries d"
      if q: "quarantine_ready_terminal_quota_locked j x now [] d = Inr (b, arts, d')" for j x b arts
    proof (cases "has_live_attempt_locked x now d")
      case False
      with q obtain d1 j' where "revoke_active_grants_locked (dj_id j) now d = Inr d1" "dj_flush j' d1 = Inr d'"
        by (auto simp: quarantine_ready_terminal_quota_locked_def andThen_eq_Inr)
      then show ?thesis using revoke_tables dj_flushD(2) by metis
    qed (use q in \<open>simp add: quarantine_ready_terminal_quota_locked_def\<close>)
    show ?thesis
      using q by (auto simp: quarantine_body_def andThen_eq_Inr split: option.split_asm if_split_asm intro: step)
  qed
qed

lemma quarantine_loop_entries:
  "fold_res (quarantine_one py now) ps d = Inr d' \<Longrightarrow> quota_entries d' = quota_entries d"
  by (induction ps arbitrary: d) (auto simp: andThen_eq_Inr dest: quarantine_one_entries)

section \<open>The pass settles every reservation\<close>

lemma all_candidates:
  assumes "length (filter (\<lambda>e. qe_state e = Q_RESERVED) (quota_entries d)) \<le> nat limit"
  shows "snd ` set (reserved_candidates limit d) = reserved_jobs d"
proof -
  have "sql_limit limit (order_by qe_reserved_at (filter (\<lambda>e. qe_state e = Q_RESERVED) (quota_entries d))) =
      order_by qe_reserved_at (filter (\<lambda>e. qe_state e = Q_RESERVED) (quota_entries d))"
    using assms by (simp add: sql_limit_def)
  then show ?thesis by (auto simp: reserved_candidates_def reserved_jobs_def image_image)
qed

lemma repair_core:
  assumes wf: "core_wf d"
    and limit: "length (filter (\<lambda>e. qe_state e = Q_RESERVED) (quota_entries d)) \<le> nat limit"
    and run: "quota_reconcile py st fresh locked lc now limit d = Inr (res, d')"
  shows "life_wf d'"
  using run
proof (rule quota_reconcileD)
  fix d1 k d2 n d3 m
  assume a: "fold_res (quarantine_one py now) (ready_terminal_pairs limit d) d = Inr d1"
    and b: "fold_res (repair_one (st_ready_compatibility_mode st) fresh now) (reserved_candidates limit d1)
          ((0, 0, 0), d1) = Inr (k, d2)"
    and c: "delete_terminal_entries_before locked (now - seconds (st_free_download_quota_retention_seconds st))
          limit d2 = Inr (n, d3)"
    and e: "delete_expired_clients_without_entries lc now limit d3 = Inr (m, d')"
  have wf1: "core_wf d1" using quarantine_loop_settles [OF a] wf by (simp add: settles_def)
  note loop = repair_loop [OF b wf1]
  have "snd ` set (reserved_candidates limit d1) = reserved_jobs d1"
    by (rule all_candidates) (use limit quarantine_loop_entries [OF a] in simp)
  moreover have "reserved_jobs d2 \<subseteq> reserved_jobs d1" using loop wf1 by (simp add: settles_def)
  ultimately have "reserved_jobs d2 \<subseteq> live_jobs d2" using loop by blast
  then have "life_wf d2" using loop by (simp add: life_wf_def)
  then have "life_wf d3" by (rule settles_life [OF prune_settles [OF c]])
  then show "life_wf d'" by (rule settles_life [OF delete_clients_settles [OF e]])
qed


section \<open>A leaked reservation\<close>

text \<open>A job that failed while its entry stayed reserved.\<close>

definition sample_failed_job :: download_job where
  "sample_failed_job = sample_download_job\<lparr>dj_public_state := DJ_FAILED, dj_progress_stage := PS_FAILED,
     dj_public_error_code := Some ''DOWNLOAD_TOOL_FAILED'', dj_completed_at := Some 5\<rparr>"

definition sample_leaked_db :: db where
  "sample_leaked_db = (sample_quota_db [sample_entry])\<lparr>download_jobs := [sample_failed_job]\<rparr>"

definition sample_healed_db :: db where
  "sample_healed_db = sample_leaked_db\<lparr>quota_entries := [sample_entry\<lparr>qe_state := Q_RELEASED, qe_released_at := Some 9\<rparr>]\<rparr>"

lemma sample_leaked_core: "core_wf sample_leaked_db"
  by (simp add: core_wf_def downloads_wf_def ranges_wf_def entries_wf_def download_job_ok_defs
      no_query_fragment_def sample_leaked_db_def sample_failed_job_def sample_quota_defs)

lemma sample_reconcile:
  "quota_reconcile py sample_settings fresh (\<lambda>_. False) (\<lambda>_. False) 9 64 sample_leaked_db =
     Inr (\<lparr>rc_consumed = 0, rc_released = 1, rc_expired = 0, rc_entries_deleted = 0, rc_clients_deleted = 0\<rparr>,
       sample_healed_db)"
proof -
  have pairs: "ready_terminal_pairs 64 sample_leaked_db = []"
    by (simp add: ready_terminal_pairs_def sample_leaked_db_def sample_quota_db_def sample_entry_def
        sql_limit_def order_by_def)
  have cand: "reserved_candidates 64 sample_leaked_db = [(1, 3)]"
    by (simp add: reserved_candidates_def sample_leaked_db_def sample_quota_db_def sql_limit_def order_by_def
        del: One_nat_def) (simp add: sample_entry_def)
  have rel: "release_entry sample_entry 9 False sample_leaked_db = Inr sample_healed_db"
    by (simp add: release_entry_def release_locked_def sample_healed_db_def sample_leaked_db_def sample_quota_db_def
        qe_flush_Inr put_row_def) (simp add: sample_entry_def entry_ok_defs seconds_def qe_flush_Inr put_row_def empty_db_def)
  have rows: "lock_client 1 None sample_leaked_db = Some sample_client"
    "lock_entry_for_download 3 sample_leaked_db = Some sample_entry"
    "dj_get_by_id 3 sample_leaked_db = Some sample_failed_job"
    by (simp_all add: lock_client_def lock_entry_for_download_def dj_get_by_id_def row_by_def sample_leaked_db_def
        sample_quota_db_def) (simp_all add: sample_client_def sample_entry_def sample_failed_job_def sample_download_job_def)
  have st: "qe_state sample_entry = Q_RESERVED" "dj_public_state sample_failed_job = DJ_FAILED"
    by (simp_all add: sample_entry_def sample_failed_job_def)
  have one: "repair_one m fresh 9 (1, 3) ((0, 0, 0), sample_leaked_db) = Inr ((0, 1, 0), sample_healed_db)" for m
    by (simp add: repair_one_def rows st rel del: One_nat_def)
  have prune: "delete_terminal_entries_before (\<lambda>_. False) (9 - seconds 172800) 64 sample_healed_db =
      Inr (0, sample_healed_db)"
    by (simp add: delete_terminal_entries_before_def sample_healed_db_def terminal_before_def sql_limit_def
        order_by_def seconds_def)
  have cl: "delete_expired_clients_without_entries (\<lambda>_. False) 9 64 sample_healed_db = Inr (0, sample_healed_db)"
    by (simp add: delete_expired_clients_without_entries_def expired_clients_picked_def sample_healed_db_def
        sample_leaked_db_def sample_quota_db_def sql_limit_def order_by_def sample_client_def seconds_def)
  have "st_free_download_quota_retention_seconds sample_settings = 172800" by (simp add: sample_settings_def)
  with prune cl one show ?thesis by (simp add: quota_reconcile_def pairs cand del: One_nat_def)
qed


end
