(* ===== verification/Robokassa.thy ===== *)
theory Robokassa
  imports Tokens Quota
begin

text \<open>
  Money, receipts and signatures of the payment provider (\<open>payments/robokassa.py\<close>), the product
  catalog (\<open>payments/catalog.py\<close>) and the payment settings. A text of this theory is the string
  of its UTF-8 octets: every test the code makes on such a text is on ASCII characters, which
  UTF-8 keeps apart from all others. SHA-256 is the function \<open>sha\<close>. \<open>Decimal\<close> is modelled with the
  28 digits and the rounding (half to even) of Python's default context.
\<close>

section \<open>Settings and catalog\<close>

record RobokassaSettings =
  rs_robokassa_mode :: string
  rs_robokassa_merchant_login :: string
  rs_robokassa_test_password1 :: string
  rs_robokassa_test_password2 :: string
  rs_robokassa_test_amount_minor :: int
  rs_robokassa_receipt_tax :: string
  rs_robokassa_receipt_payment_method :: string
  rs_robokassa_order_ttl_seconds :: int
  rs_premium_test_checkout_visible :: bool

definition PRODUCT_CODE :: string where
  "PRODUCT_CODE = ''premium_24h''"

text \<open>The Russian product name, in UTF-8.\<close>

definition PRODUCT_DESCRIPTION :: string where
  "PRODUCT_DESCRIPTION = map char_of [208, 148, 208, 190, 209, 129, 209, 130, 209, 131, 208, 191::nat] @
     '' '' @ map char_of [208, 186::nat] @ '' '' @
     map char_of [209, 132, 209, 131, 208, 189, 208, 186, 209, 134, 208, 184, 209, 143, 208, 188::nat] @
     '' FetchNow '' @ map char_of [208, 189, 208, 176::nat] @ '' 24 '' @
     map char_of [209, 135, 208, 176, 209, 129, 208, 176::nat]"

record PaymentProduct =
  pp_code :: string
  pp_amount_minor :: int
  pp_currency :: string
  pp_entitlement_duration_seconds :: int
  pp_receipt_name :: string
  pp_receipt_tax :: string
  pp_receipt_payment_method :: string
  pp_receipt_payment_object :: string

definition get_product :: "RobokassaSettings \<Rightarrow> string \<Rightarrow> PaymentProduct res" where
  "get_product s product_code =
     (if product_code \<noteq> PRODUCT_CODE then Inl (PaymentError UnknownProductError)
      else if rs_robokassa_mode s \<noteq> ''test'' \<or> rs_robokassa_test_amount_minor s \<le> 0
      then Inl (PaymentError UnknownProductError)
      else Inr \<lparr>pp_code = PRODUCT_CODE, pp_amount_minor = rs_robokassa_test_amount_minor s,
        pp_currency = ''RUB'', pp_entitlement_duration_seconds = 86400,
        pp_receipt_name = PRODUCT_DESCRIPTION, pp_receipt_tax = rs_robokassa_receipt_tax s,
        pp_receipt_payment_method = rs_robokassa_receipt_payment_method s,
        pp_receipt_payment_object = ''service''\<rparr>)"

section \<open>Amounts\<close>

definition two_digits :: "nat \<Rightarrow> string" where
  "two_digits n = (if n < 10 then ''0'' @ show_nat n else show_nat n)"

definition format_out_sum :: "int \<Rightarrow> string res" where
  "format_out_sum amount_minor =
     (if amount_minor \<le> 0 then Inl (ValueError ''amount_minor must be a positive integer'')
      else Inr (show_nat (nat (amount_minor div 100)) @ ''.'' @ two_digits (nat (amount_minor mod 100))))"

text \<open>\<open>(?:0|[1-9][0-9]*)(?:\.([0-9]+))?\<close>\<close>

definition whole_part_ok :: "string \<Rightarrow> bool" where
  "whole_part_ok w \<longleftrightarrow> w = ''0'' \<or> w \<noteq> [] \<and> hd w \<noteq> CHR ''0'' \<and> list_all digit_ascii w"

definition out_sum_shape :: "string \<Rightarrow> bool" where
  "out_sum_shape raw \<longleftrightarrow>
     (if CHR ''.'' \<in> set raw
      then case split_once (CHR ''.'') raw of
        (w, f) \<Rightarrow> whole_part_ok w \<and> f \<noteq> [] \<and> list_all digit_ascii f
      else whole_part_ok raw)"

text \<open>
  A non-negative \<open>Decimal\<close>: coefficient and exponent. The constructor is exact; a product is
  rounded to the 28 digits of the context.
\<close>

type_synonym Decimal = "nat \<times> int"

definition Decimal_of :: "string \<Rightarrow> Decimal" where
  "Decimal_of raw =
     (case split_once (CHR ''.'') raw of (w, f) \<Rightarrow> (nat (decimal_value (w @ f)), - int (length f)))"

definition context_round :: "Decimal \<Rightarrow> Decimal" where
  "context_round x =
     (case x of (c, e) \<Rightarrow>
        let k = length (show_nat c) - 28; q = c div 10 ^ k; r = c mod 10 ^ k;
            q' = (if 10 ^ k < 2 * r \<or> 2 * r = 10 ^ k \<and> odd q then q + 1 else q)
        in if k = 0 then (c, e)
           else if q' = 10 ^ 28 then (10 ^ 27, e + int k + 1)
           else (q', e + int k))"

definition times_100 :: "Decimal \<Rightarrow> Decimal" where
  "times_100 x = context_round (fst x * 100, snd x)"

definition is_integral :: "Decimal \<Rightarrow> bool" where
  "is_integral x \<longleftrightarrow> 0 \<le> snd x \<or> 10 ^ nat (- snd x) dvd fst x"

definition int_of_decimal :: "Decimal \<Rightarrow> int" where
  "int_of_decimal x =
     (if 0 \<le> snd x then int (fst x) * 10 ^ nat (snd x) else int (fst x) div 10 ^ nat (- snd x))"

definition parse_callback_out_sum :: "string \<Rightarrow> int res" where
  "parse_callback_out_sum raw =
     (if length raw > 64 \<or> \<not> out_sum_shape raw then Inl (PaymentError InvalidCallbackError)
      else
        let scaled = times_100 (Decimal_of raw)
        in if \<not> is_integral scaled \<or> fst scaled = 0 then Inl (PaymentError InvalidCallbackError)
           else if int_of_decimal scaled > 9223372036854775807 then Inl (PaymentError InvalidCallbackError)
           else Inr (int_of_decimal scaled))"

section \<open>Receipts\<close>

definition hex_digit :: "nat \<Rightarrow> char" where
  "hex_digit n = ''0123456789abcdef'' ! n"

definition HEX_digit :: "nat \<Rightarrow> char" where
  "HEX_digit n = ''0123456789ABCDEF'' ! n"

text \<open>\<open>json.dumps(value, ensure_ascii=False)\<close> of a string.\<close>

definition json_char :: "char \<Rightarrow> string" where
  "json_char c =
     (if c = CHR 0x22 then [CHR 0x5C, CHR 0x22]
      else if c = CHR 0x5C then [CHR 0x5C, CHR 0x5C]
      else if code c = 10 then [CHR 0x5C, CHR ''n'']
      else if code c = 13 then [CHR 0x5C, CHR ''r'']
      else if code c = 9 then [CHR 0x5C, CHR ''t'']
      else if code c = 12 then [CHR 0x5C, CHR ''f'']
      else if code c = 8 then [CHR 0x5C, CHR ''b'']
      else if code c < 32
      then [CHR 0x5C, CHR ''u'', CHR ''0'', CHR ''0'', hex_digit (code c div 16), hex_digit (code c mod 16)]
      else [c])"

definition json_string :: "string \<Rightarrow> string" where
  "json_string s = [CHR 0x22] @ concat (map json_char s) @ [CHR 0x22]"

definition json_key :: "string \<Rightarrow> string" where
  "json_key k = json_string k @ '':''"

text \<open>\<open>urllib.parse.quote(text, safe='''')\<close>\<close>

definition unreserved :: "char \<Rightarrow> bool" where
  "unreserved c \<longleftrightarrow> upper_ascii c \<or> 97 \<le> code c \<and> code c \<le> 122 \<or> digit_ascii c \<or>
     c \<in> {CHR ''_'', CHR ''.'', CHR ''-'', CHR ''~''}"

definition encode_receipt_json :: "string \<Rightarrow> string" where
  "encode_receipt_json receipt_json =
     concat (map (\<lambda>c. if unreserved c then [c]
                      else [CHR ''%'', HEX_digit (code c div 16), HEX_digit (code c mod 16)]) receipt_json)"

record ReceiptRepresentation =
  rr_json_text :: string
  rr_url_encoded :: string

definition serialize_receipt :: "PaymentProduct \<Rightarrow> ReceiptRepresentation res" where
  "serialize_receipt product =
     (if pp_amount_minor product \<le> 0 \<or> pp_receipt_payment_object product \<noteq> ''service''
      then Inl (PaymentError PaymentInvariantError)
      else andThen (format_out_sum (pp_amount_minor product)) (\<lambda>out_sum.
        let json_body = ''{'' @ json_key ''items'' @ ''[{'' @
              json_key ''name'' @ json_string (pp_receipt_name product) @ '','' @
              json_key ''quantity'' @ ''1,'' @
              json_key ''sum'' @ out_sum @ '','' @
              json_key ''payment_method'' @ json_string (pp_receipt_payment_method product) @ '','' @
              json_key ''payment_object'' @ json_string (pp_receipt_payment_object product) @ '','' @
              json_key ''tax'' @ json_string (pp_receipt_tax product) @ ''}]}''
        in Inr \<lparr>rr_json_text = json_body, rr_url_encoded = encode_receipt_json json_body\<rparr>))"

section \<open>Signatures\<close>

definition sha256_hex :: "(bytes \<Rightarrow> bytes) \<Rightarrow> string \<Rightarrow> string" where
  "sha256_hex sha v =
     concat (map (\<lambda>b. [hex_digit (b div 16), hex_digit (b mod 16)]) (sha (ascii v)))"

definition initiation_signature_base :: "string \<Rightarrow> string \<Rightarrow> int \<Rightarrow> string \<Rightarrow> string \<Rightarrow> string" where
  "initiation_signature_base merchant_login out_sum inv_id encoded_receipt password1 =
     merchant_login @ '':'' @ out_sum @ '':'' @ show_int inv_id @ '':'' @ encoded_receipt @ '':'' @ password1"

definition sign_initiation ::
  "(bytes \<Rightarrow> bytes) \<Rightarrow> string \<Rightarrow> string \<Rightarrow> int \<Rightarrow> string \<Rightarrow> string \<Rightarrow> string" where
  "sign_initiation sha merchant_login out_sum inv_id encoded_receipt password1 =
     sha256_hex sha (initiation_signature_base merchant_login out_sum inv_id encoded_receipt password1)"

definition callback_signature_base :: "string \<Rightarrow> int \<Rightarrow> string \<Rightarrow> string" where
  "callback_signature_base raw_out_sum inv_id password2 =
     raw_out_sum @ '':'' @ show_int inv_id @ '':'' @ password2"

definition sign_callback :: "(bytes \<Rightarrow> bytes) \<Rightarrow> string \<Rightarrow> int \<Rightarrow> string \<Rightarrow> string" where
  "sign_callback sha raw_out_sum inv_id password2 =
     sha256_hex sha (callback_signature_base raw_out_sum inv_id password2)"

definition hex_sha256_shape :: "string \<Rightarrow> bool" where
  "hex_sha256_shape s \<longleftrightarrow> length s = 64 \<and>
     list_all (\<lambda>c. digit_ascii c \<or> 65 \<le> code c \<and> code c \<le> 70 \<or> 97 \<le> code c \<and> code c \<le> 102) s"

definition signature_matches :: "string \<Rightarrow> string \<Rightarrow> bool" where
  "signature_matches supplied expected \<longleftrightarrow>
     hex_sha256_shape supplied \<and> lower supplied = lower expected"

section \<open>Amounts are read back\<close>

lemma length_show_nat: "length (show_nat n) \<le> Suc k \<longleftrightarrow> n < 10 ^ Suc k"
proof (induction k arbitrary: n)
  case 0
  show ?case
  proof (cases "n < 10")
    case False
    have "show_nat (n div 10) \<noteq> []" by (rule show_nat_nonempty)
    with False show ?thesis by (simp add: show_nat.simps [of n])
  qed (simp add: show_nat.simps [of n])
next
  case (Suc k)
  show ?case
  proof (cases "n < 10")
    case True
    then have "n < 10 ^ Suc (Suc k)" using less_le_trans [of n 10 "10 ^ Suc (Suc k)"] by simp
    with True show ?thesis by (simp add: show_nat.simps [of n])
  next
    case False
    then have "length (show_nat n) \<le> Suc (Suc k) \<longleftrightarrow> n div 10 < 10 ^ Suc k"
      using Suc.IH [of "n div 10"] by (simp add: show_nat.simps [of n])
    also have "\<dots> \<longleftrightarrow> n < 10 ^ Suc (Suc k)" by (simp add: div_less_iff_less_mult mult.commute)
    finally show ?thesis .
  qed
qed

lemma context_round_id: "c < 10 ^ 28 \<Longrightarrow> context_round (c, e) = (c, e)"
  using length_show_nat [of c 27] by (simp add: context_round_def Let_def)

lemma hd_show_nat: "0 < n \<Longrightarrow> hd (show_nat n) \<noteq> CHR ''0''"
proof (induction n rule: show_nat.induct)
  case (1 n)
  show ?case
  proof (cases "n < 10")
    case True
    with 1 code_digit [of n] show ?thesis by (auto simp: show_nat.simps [of n] dest: arg_cong [of _ _ code])
  next
    case False
    then have "hd (show_nat n) = hd (show_nat (n div 10))"
      by (simp add: show_nat.simps [of n] show_nat_nonempty)
    with False 1 show ?thesis by (simp add: div_greater_zero_iff)
  qed
qed

lemma whole_part_show: "whole_part_ok (show_nat n)"
proof (cases "n = 0")
  case True
  have "char_of (48::nat) = CHR ''0''" by code_simp
  with True show ?thesis by (simp add: whole_part_ok_def show_nat.simps [of 0])
next
  case False
  then show ?thesis using hd_show_nat [of n] by (simp add: whole_part_ok_def show_nat_nonempty show_nat_digits)
qed

lemma split_once_none: "c \<notin> set s \<Longrightarrow> split_once c s = (s, [])"
  by (induction s) (auto simp: split_once_def)

lemma digits_no_point: "list_all digit_ascii s \<Longrightarrow> CHR ''.'' \<notin> set s"
  by (auto simp: list_all_iff digit_ascii_def)

lemma whole_part_digits: "whole_part_ok w \<Longrightarrow> list_all digit_ascii w"
  by (auto simp: whole_part_ok_def digit_ascii_def)

text \<open>The digits before and after the point.\<close>

lemma out_sum_parts:
  assumes "out_sum_shape raw"
  obtains w f where "split_once (CHR ''.'') raw = (w, f)" and "list_all digit_ascii w" and "list_all digit_ascii f"
    and "length w + length f \<le> length raw"
proof (cases "CHR ''.'' \<in> set raw")
  case True
  obtain w f where wf: "split_once (CHR ''.'') raw = (w, f)" by (cases "split_once (CHR ''.'') raw")
  have parts: "w = takeWhile (\<lambda>x. x \<noteq> CHR ''.'') raw" "f = tl (dropWhile (\<lambda>x. x \<noteq> CHR ''.'') raw)"
    using wf by (auto simp: split_once_def drop_Suc)
  have "length raw = length (takeWhile (\<lambda>x. x \<noteq> CHR ''.'') raw) + length (dropWhile (\<lambda>x. x \<noteq> CHR ''.'') raw)"
    by (metis length_append takeWhile_dropWhile_id)
  then have "length w + length f \<le> length raw" unfolding parts by simp
  with True wf assms that show thesis by (simp add: out_sum_shape_def whole_part_digits)
next
  case False
  then have "split_once (CHR ''.'') raw = (raw, [])" by (rule split_once_none)
  with False assms that show thesis by (simp add: out_sum_shape_def whole_part_digits)
qed

lemma decimal_value_bound: "list_all digit_ascii s \<Longrightarrow> decimal_value s < 10 ^ length s"
proof (induction s rule: rev_induct)
  case (snoc c s)
  then show ?case by (simp add: decimal_value_def digit_value_def digit_ascii_def)
qed (simp add: decimal_value_def)

lemma decimal_value_append: "decimal_value (a @ b) = decimal_value a * 10 ^ length b + decimal_value b"
proof (induction b rule: rev_induct)
  case (snoc c b)
  then show ?case by (simp add: decimal_value_def algebra_simps flip: append_assoc)
qed (simp add: decimal_value_def)

text \<open>
  Within 26 digits nothing is rounded: a text is accepted exactly when it denotes a whole,
  positive number of hundredths that fits a BIGINT.
\<close>

lemma parse_exact:
  assumes "out_sum_shape raw" and "length raw \<le> 26" and "split_once (CHR ''.'') raw = (w, f)"
  shows "parse_callback_out_sum raw = Inr a \<longleftrightarrow>
     0 < a \<and> a \<le> 9223372036854775807 \<and> decimal_value (w @ f) * 100 = a * 10 ^ length f"
proof -
  obtain w' f' where parts: "split_once (CHR ''.'') raw = (w', f')" "list_all digit_ascii w'"
      "list_all digit_ascii f'" "length w' + length f' \<le> length raw"
    by (rule out_sum_parts [OF assms(1)])
  then have digits: "list_all digit_ascii (w @ f)" "length (w @ f) \<le> 26"
    using assms(2,3) by simp_all
  define c where "c = nat (decimal_value (w @ f))"
  have c: "int c = decimal_value (w @ f)" using decimal_value_nonneg [OF digits(1)] by (simp add: c_def)
  have "decimal_value (w @ f) < 10 ^ 26"
    using decimal_value_bound [OF digits(1)] power_increasing [OF digits(2), of "10::int"] by simp
  then have "int c < int (10 ^ 26)" unfolding c by simp
  then have "c < 10 ^ 26" by (simp only: of_nat_less_iff)
  then have "c * 100 < 10 ^ 28" by simp
  then have scaled: "times_100 (Decimal_of raw) = (c * 100, - int (length f))"
    using assms(3) by (simp add: times_100_def Decimal_of_def c_def context_round_id)
  let ?p = "(10::nat) ^ length f"
  have int: "is_integral (c * 100, - int (length f)) \<longleftrightarrow> ?p dvd c * 100"
    by (auto simp: is_integral_def)
  have val: "int_of_decimal (c * 100, - int (length f)) = int (c * 100 div ?p)"
    by (simp add: int_of_decimal_def zdiv_int)
  have "parse_callback_out_sum raw = Inr a \<longleftrightarrow>
      ?p dvd c * 100 \<and> c \<noteq> 0 \<and> int (c * 100 div ?p) \<le> 9223372036854775807 \<and> a = int (c * 100 div ?p)"
    using assms(1,2) int val by (auto simp: parse_callback_out_sum_def scaled Let_def)
  also have "\<dots> \<longleftrightarrow> 0 < a \<and> a \<le> 9223372036854775807 \<and> int c * 100 = a * 10 ^ length f"
  proof
    assume a: "?p dvd c * 100 \<and> c \<noteq> 0 \<and> int (c * 100 div ?p) \<le> 9223372036854775807 \<and> a = int (c * 100 div ?p)"
    then obtain k where k: "c * 100 = ?p * k" by (elim conjE dvdE)
    then have "c * 100 div ?p = k" by simp
    moreover from a k have "k \<noteq> 0" by (intro notI) simp
    moreover note a
    ultimately have "k \<noteq> 0" "a = int k" "int k \<le> 9223372036854775807" by simp_all
    moreover have "int c * 100 = int (?p * k)" using k by (metis of_nat_mult of_nat_numeral)
    ultimately show "0 < a \<and> a \<le> 9223372036854775807 \<and> int c * 100 = a * 10 ^ length f" by simp
  next
    assume a: "0 < a \<and> a \<le> 9223372036854775807 \<and> int c * 100 = a * 10 ^ length f"
    then have "int (c * 100) = int (nat a * ?p)" by simp
    then have k: "c * 100 = nat a * ?p" by (simp only: of_nat_eq_iff)
    then have "c * 100 div ?p = nat a" "?p dvd c * 100" by simp_all
    moreover have "c \<noteq> 0" using k a by (intro notI) simp
    ultimately show "?p dvd c * 100 \<and> c \<noteq> 0 \<and> int (c * 100 div ?p) \<le> 9223372036854775807 \<and> a = int (c * 100 div ?p)"
      using a by simp
  qed
  finally show ?thesis by (simp add: c)
qed

lemma two_digits_facts:
  assumes "n < 100"
  shows "list_all digit_ascii (two_digits n)" "length (two_digits n) = 2" "decimal_value (two_digits n) = int n"
proof -
  have zero: "digit_ascii (CHR ''0'')" by (simp add: digit_ascii_def)
  then show "list_all digit_ascii (two_digits n)" by (simp add: two_digits_def show_nat_digits)
  have "length (show_nat n) \<le> 2" using length_show_nat [of n 1] assms by simp
  moreover have "length (show_nat n) \<le> 1 \<longleftrightarrow> n < 10" using length_show_nat [of n 0] by simp
  moreover have "0 < length (show_nat n)" using show_nat_nonempty [of n] by simp
  ultimately show "length (two_digits n) = 2" by (cases "n < 10") (auto simp: two_digits_def le_Suc_eq numeral_2_eq_2)
  show "decimal_value (two_digits n) = int n"
    using decimal_value_append [of "''0''" "show_nat n"]
    by (simp add: two_digits_def show_nat_value) (simp add: decimal_value_def digit_value_def)
qed

lemma format_parse_core:
  assumes "0 < a" and "a \<le> 9223372036854775807"
  shows "\<exists>raw. format_out_sum a = Inr raw \<and> parse_callback_out_sum raw = Inr a"
proof -
  define w where "w = show_nat (nat (a div 100))"
  define f where "f = two_digits (nat (a mod 100))"
  have f: "list_all digit_ascii f" "length f = 2" "decimal_value f = a mod 100"
    using two_digits_facts [of "nat (a mod 100)"] by (simp_all add: f_def)
  have w: "whole_part_ok w" "list_all digit_ascii w" "decimal_value w = a div 100"
    using assms by (simp_all add: w_def whole_part_show show_nat_digits show_nat_value pos_imp_zdiv_nonneg_iff)
  have split: "split_once (CHR ''.'') (w @ ''.'' @ f) = (w, f)"
    using split_once_append [OF digits_no_point [OF w(2)], of f] by simp
  have "nat (a div 100) < 10 ^ Suc 17" using assms by simp
  then have "length w \<le> 18" using length_show_nat [of "nat (a div 100)" 17] by (simp add: w_def)
  with f(2) have len: "length (w @ ''.'' @ f) \<le> 26" by simp
  have shape: "out_sum_shape (w @ ''.'' @ f)"
    using split w f by (simp add: out_sum_shape_def) auto
  have "decimal_value (w @ f) * 100 = a * 10 ^ length f"
    using f w by (simp add: decimal_value_append) 
  then have "parse_callback_out_sum (w @ ''.'' @ f) = Inr a"
    using parse_exact [OF shape len split, of a] assms by blast
  then show ?thesis using assms by (simp add: format_out_sum_def w_def f_def)
qed

text \<open>Amounts of money survive the trip to the provider: every amount of minor units that fits the
  column is written as a sum that the callback parser reads back as exactly that amount, and no
  other sum of up to 26 characters is read as it unless it denotes the same number.\<close>

theorem out_sum_roundtrip:
  assumes "0 < a" and "a \<le> 9223372036854775807"
  shows "(\<exists>raw. format_out_sum a = Inr raw \<and> parse_callback_out_sum raw = Inr a) \<and>
     (\<forall>raw w f. length raw \<le> 26 \<longrightarrow> split_once (CHR ''.'') raw = (w, f) \<longrightarrow>
        parse_callback_out_sum raw = Inr a \<longrightarrow> decimal_value (w @ f) * 100 = a * 10 ^ length f)"
proof (intro conjI allI impI)
  show "\<exists>raw. format_out_sum a = Inr raw \<and> parse_callback_out_sum raw = Inr a"
    by (rule format_parse_core [OF assms])
  fix raw w f
  assume "length raw \<le> 26" "split_once (CHR ''.'') raw = (w, f)" "parse_callback_out_sum raw = Inr a"
  moreover from this(3) have "out_sum_shape raw" by (simp add: parse_callback_out_sum_def split: if_split_asm)
  ultimately show "decimal_value (w @ f) * 100 = a * 10 ^ length f" using parse_exact by blast
qed

theorem out_sum_roundtrip_witness: "\<exists>raw. format_out_sum 9905 = Inr raw \<and> parse_callback_out_sum raw = Inr 9905"
  using out_sum_roundtrip [of 9905] by simp

text \<open>
  Beyond the 28 digits of the decimal context the product is rounded before it is compared: a
  sum that is not a whole number of minor units is then accepted.
\<close>

theorem long_out_sum_is_rounded:
  "parse_callback_out_sum ''1.000000000000000000000000000000000001'' = Inr 100 \<and>
   parse_callback_out_sum ''1.001'' = Inl (PaymentError InvalidCallbackError)"
proof -
  let ?f = "''000000000000000000000000000000000001''" 
  have split: "split_once (CHR ''.'') ''1.000000000000000000000000000000000001'' = (''1'', ?f)"
    by (simp add: split_once_def)
  have val: "decimal_value (''1'' @ ?f) = 1000000000000000000000000000000000001"
    by (simp add: decimal_value_def digit_value_def)
  have len: "length (show_nat 100000000000000000000000000000000000100) = 39"
    using length_show_nat [of 100000000000000000000000000000000000100 38]
      length_show_nat [of 100000000000000000000000000000000000100 37] by simp
  have "times_100 (Decimal_of ''1.000000000000000000000000000000000001'') = (10 ^ 27, -25)"
    using split val by (simp add: times_100_def Decimal_of_def context_round_def len)
  then have "parse_callback_out_sum ''1.000000000000000000000000000000000001'' = Inr 100"
    by (simp add: parse_callback_out_sum_def out_sum_shape_def split whole_part_ok_def digit_ascii_def
        is_integral_def int_of_decimal_def)
  moreover have "parse_callback_out_sum ''1.001'' = Inl (PaymentError InvalidCallbackError)"
    by (simp add: parse_callback_out_sum_def out_sum_shape_def split_once_def whole_part_ok_def digit_ascii_def
        Decimal_of_def times_100_def decimal_value_def digit_value_def context_round_id is_integral_def)
  ultimately show ?thesis ..
qed

end
