(* ===== verification/Payments.thy ===== *)
theory Payments
  imports Robokassa Premium
begin

text \<open>
  Payment orders: the repository (\<open>payments/repository.py\<close>), the service
  (\<open>payments/service.py\<close>) and the two endpoints that write (\<open>api/v1/payments.py\<close>). Fresh uuids and
  the next value of the invoice sequence are arguments; \<open>now\<close> is the value of \<open>database_now\<close>, \<open>pnow\<close>
  the one the Premium service reads. A callback reads the order twice, first without a lock: the
  two reads see the databases \<open>seen\<close> and \<open>d\<close>, between which other transactions may commit.
\<close>

section \<open>Repository\<close>

definition get_by_invoice_id :: "int \<Rightarrow> db \<Rightarrow> payment_order option" where
  "get_by_invoice_id inv_id d = row_by po_provider_invoice_id inv_id (orders d)"

definition lock_by_invoice_id :: "int \<Rightarrow> db \<Rightarrow> payment_order option" where
  "lock_by_invoice_id inv_id d = row_by po_provider_invoice_id inv_id (orders d)"

definition get_by_public_id_for_client :: "uuid \<Rightarrow> uuid \<Rightarrow> db \<Rightarrow> payment_order option" where
  "get_by_public_id_for_client public_id client d =
     find (\<lambda>r. po_public_id r = public_id \<and> po_anonymous_client_id r = client) (orders d)"

definition creation_key :: "payment_order \<Rightarrow> uuid \<times> bytes" where
  "creation_key r = (po_anonymous_client_id r, po_creation_idempotency_hash r)"

text \<open>The insert: CHECKs, primary key, three unique constraints, one foreign key.\<close>

definition po_insert :: "payment_order \<Rightarrow> db \<Rightarrow> db res" where
  "po_insert row d =
     (if order_ok row \<and> po_id row \<notin> po_id ` set (orders d) \<and>
         po_public_id row \<notin> po_public_id ` set (orders d) \<and>
         po_provider_invoice_id row \<notin> po_provider_invoice_id ` set (orders d) \<and>
         creation_key row \<notin> creation_key ` set (orders d) \<and>
         po_anonymous_client_id row \<in> ac_id ` set (clients d)
      then Inr (d\<lparr>orders := orders d @ [row]\<rparr>)
      else Inl (IntegrityError ''payment_orders''))"

definition immutable_matches :: "payment_order \<Rightarrow> PaymentProduct \<Rightarrow> string \<Rightarrow> bool" where
  "immutable_matches row product receipt_json \<longleftrightarrow>
     po_provider row = ''robokassa'' \<and> po_product_code row = pp_code product \<and>
     po_amount_minor row = pp_amount_minor product \<and> po_currency row = pp_currency product \<and>
     po_entitlement_duration_seconds row = pp_entitlement_duration_seconds product \<and>
     po_is_test row \<and> po_receipt_json row = receipt_json"

definition new_order ::
  "uuid \<Rightarrow> uuid \<Rightarrow> int \<Rightarrow> uuid \<Rightarrow> bytes \<Rightarrow> PaymentProduct \<Rightarrow> string \<Rightarrow> time \<Rightarrow> int \<Rightarrow> payment_order" where
  "new_order fresh_id fresh_public next_inv client idempotency_hash product receipt_json now ttl_seconds =
     \<lparr>po_id = fresh_id, po_public_id = fresh_public, po_anonymous_client_id = client,
      po_provider = ''robokassa'', po_provider_invoice_id = next_inv, po_product_code = pp_code product,
      po_amount_minor = pp_amount_minor product, po_currency = pp_currency product,
      po_entitlement_duration_seconds = pp_entitlement_duration_seconds product,
      po_status = PO_CREATED, po_is_test = True, po_receipt_json = receipt_json,
      po_creation_idempotency_hash = idempotency_hash, po_created_at = now, po_updated_at = now,
      po_pending_at = None, po_paid_at = None, po_provider_callback_at = None,
      po_expires_at = now + seconds ttl_seconds, po_provider_operation_key = None\<rparr>"

definition create_or_get ::
  "uuid \<Rightarrow> uuid \<Rightarrow> int \<Rightarrow> uuid \<Rightarrow> bytes \<Rightarrow> PaymentProduct \<Rightarrow> string \<Rightarrow> time \<Rightarrow> int \<Rightarrow> db \<Rightarrow>
     ((payment_order \<times> bool) \<times> db) res" where
  "create_or_get fresh_id fresh_public next_inv client idempotency_hash product receipt_json now ttl_seconds d =
     (if length idempotency_hash \<noteq> 32 then Inl (PaymentError PaymentInvariantError)
      else
        let row = new_order fresh_id fresh_public next_inv client idempotency_hash product receipt_json
                    now ttl_seconds
        in case po_insert row d of
             Inr d' \<Rightarrow> Inr ((row, True), d')
           | Inl _ \<Rightarrow>
               (case row_by creation_key (client, idempotency_hash) (orders d) of
                  None \<Rightarrow> Inl (PaymentError PaymentInvariantError)
                | Some existing \<Rightarrow>
                    if \<not> immutable_matches existing product receipt_json
                    then Inl (PaymentError IdempotencyConflictError)
                    else Inr ((existing, False), d)))"

definition po_flush :: "payment_order \<Rightarrow> db \<Rightarrow> db res" where
  "po_flush row d =
     andThen (write_row po_id order_ok (IntegrityError ''payment_orders'') row (orders d))
       (\<lambda>rows. Inr (d\<lparr>orders := rows\<rparr>))"

definition mark_pending :: "payment_order \<Rightarrow> time \<Rightarrow> db \<Rightarrow> (payment_order \<times> db) res" where
  "mark_pending row now d =
     (if po_status row = PO_PENDING then Inr (row, d)
      else andThen (assert_payment_transition (po_status row) PO_PENDING) (\<lambda>_.
        let row' = row\<lparr>po_status := PO_PENDING, po_pending_at := Some now, po_updated_at := now\<rparr>
        in andThen (po_flush row' d) (\<lambda>d'. Inr (row', d'))))"

definition paid_row :: "time \<Rightarrow> payment_order \<Rightarrow> payment_order" where
  "paid_row now row = row\<lparr>po_status := PO_PAID, po_paid_at := Some now,
     po_provider_callback_at := Some now, po_updated_at := now\<rparr>"

definition mark_paid :: "payment_order \<Rightarrow> time \<Rightarrow> db \<Rightarrow> ((payment_order \<times> bool) \<times> db) res" where
  "mark_paid row now d =
     (if po_status row = PO_PAID then Inr ((row, False), d)
      else andThen (assert_payment_transition (po_status row) PO_PAID) (\<lambda>_.
        andThen (po_flush (paid_row now row) d) (\<lambda>d'. Inr ((paid_row now row, True), d'))))"

definition expire_unpaid :: "time \<Rightarrow> db \<Rightarrow> (nat \<times> db) res" where
  "expire_unpaid now d =
     andThen (update_where order_ok (IntegrityError ''payment_orders'')
                (\<lambda>r. po_status r \<in> {PO_CREATED, PO_PENDING} \<and> po_expires_at r \<le> now)
                (\<lambda>r. r\<lparr>po_status := PO_EXPIRED, po_updated_at := now\<rparr>) (orders d))
       (\<lambda>(rows, n). Inr (n, d\<lparr>orders := rows\<rparr>))"

section \<open>Service\<close>

definition require_test_mode :: "RobokassaSettings \<Rightarrow> unit res" where
  "require_test_mode s = guard_res (rs_robokassa_mode s = ''test'') (PaymentError PaymentsDisabledError)"

definition test_checkout_available :: "RobokassaSettings \<Rightarrow> bool" where
  "test_checkout_available s \<longleftrightarrow> rs_robokassa_mode s = ''test'' \<and> rs_premium_test_checkout_visible s"

definition ensure_checkout_available :: "RobokassaSettings \<Rightarrow> unit res" where
  "ensure_checkout_available s = guard_res (test_checkout_available s) (PaymentError PaymentsDisabledError)"

record ProductSummary =
  ps_product_code :: string
  ps_amount_minor :: int
  ps_currency :: string
  ps_entitlement_duration_seconds :: int

definition public_product_summary :: "RobokassaSettings \<Rightarrow> ProductSummary option" where
  "public_product_summary s =
     (if \<not> test_checkout_available s then None
      else (case get_product s PRODUCT_CODE of
              Inl _ \<Rightarrow> None
            | Inr p \<Rightarrow> Some \<lparr>ps_product_code = pp_code p, ps_amount_minor = pp_amount_minor p,
                ps_currency = pp_currency p,
                ps_entitlement_duration_seconds = pp_entitlement_duration_seconds p\<rparr>))"

definition PAYMENT_DESCRIPTION :: string where
  "PAYMENT_DESCRIPTION = map char_of [208, 148, 208, 190, 209, 129, 209, 130, 209, 131, 208, 191::nat] @
     '' FetchNow '' @ map char_of [208, 189, 208, 176::nat] @ '' 24 '' @
     map char_of [209, 135, 208, 176, 209, 129, 208, 176::nat]"

definition form_fields ::
  "(bytes \<Rightarrow> bytes) \<Rightarrow> RobokassaSettings \<Rightarrow> payment_order \<Rightarrow> (string \<times> string) list res" where
  "form_fields sha s row =
     andThen (require_test_mode s) (\<lambda>_.
     if po_provider row \<noteq> ''robokassa'' \<or> po_product_code row \<noteq> PRODUCT_CODE \<or>
        po_currency row \<noteq> ''RUB'' \<or> \<not> po_is_test row \<or> po_provider_invoice_id row \<le> 0
     then Inl (PaymentError PaymentInvariantError)
     else andThen (format_out_sum (po_amount_minor row)) (\<lambda>out_sum.
       let encoded_receipt = encode_receipt_json (po_receipt_json row);
           signature = sign_initiation sha (rs_robokassa_merchant_login s) out_sum
                         (po_provider_invoice_id row) encoded_receipt (rs_robokassa_test_password1 s)
       in Inr [(''MerchantLogin'', rs_robokassa_merchant_login s), (''OutSum'', out_sum),
               (''InvId'', show_int (po_provider_invoice_id row)),
               (''Description'', PAYMENT_DESCRIPTION), (''SignatureValue'', signature),
               (''IsTest'', ''1''), (''Receipt'', encoded_receipt), (''Culture'', ''ru'')]))"

record CreatedPayment =
  cp_order :: payment_order
  cp_fields :: "(string \<times> string) list"
  cp_created :: bool

definition create_order ::
  "(bytes \<Rightarrow> bytes) \<Rightarrow> RobokassaSettings \<Rightarrow> uuid \<Rightarrow> uuid \<Rightarrow> int \<Rightarrow> uuid \<Rightarrow> string \<Rightarrow> string \<Rightarrow> time \<Rightarrow> db \<Rightarrow>
     (CreatedPayment \<times> db) res" where
  "create_order sha s fresh_id fresh_public next_inv client product_code idempotency_key now d =
     andThen (ensure_checkout_available s) (\<lambda>_.
     andThen (get_product s product_code) (\<lambda>product.
     andThen (serialize_receipt product) (\<lambda>receipt.
     andThen (hash_idempotency_key sha idempotency_key) (\<lambda>idempotency_hash.
     andThen (create_or_get fresh_id fresh_public next_inv client idempotency_hash product
                (rr_json_text receipt) now (rs_robokassa_order_ttl_seconds s) d) (\<lambda>((row, created), d1).
     andThen (if po_status row = PO_CREATED then mark_pending row now d1
              else if po_status row \<noteq> PO_PENDING then Inl (PaymentError PaymentInvariantError)
              else Inr (row, d1)) (\<lambda>(row', d2).
     andThen (form_fields sha s row') (\<lambda>fields.
       Inr (\<lparr>cp_order = row', cp_fields = fields, cp_created = created\<rparr>, d2))))))))"

definition get_order :: "RobokassaSettings \<Rightarrow> uuid \<Rightarrow> uuid \<Rightarrow> db \<Rightarrow> payment_order res" where
  "get_order s public_id client d =
     andThen (require_test_mode s) (\<lambda>_.
       case get_by_public_id_for_client public_id client d of
         None \<Rightarrow> Inl (PaymentError PaymentOrderNotFoundError)
       | Some row \<Rightarrow> Inr row)"

definition validate_callback_snapshot :: "payment_order \<Rightarrow> unit res" where
  "validate_callback_snapshot row =
     guard_res (\<not> (po_provider row \<noteq> ''robokassa'' \<or> po_product_code row \<noteq> PRODUCT_CODE \<or>
                   po_currency row \<noteq> ''RUB'' \<or> \<not> po_is_test row \<or>
                   po_entitlement_duration_seconds row \<noteq> 86400 \<or>
                   po_status row \<notin> {PO_PENDING, PO_PAID}))
       (PaymentError InvalidCallbackError)"

text \<open>\<open>parse_callback_out_sum(raw) != row.amount_minor\<close>\<close>

definition amount_is :: "string \<Rightarrow> payment_order \<Rightarrow> unit res" where
  "amount_is raw_out_sum row =
     andThen (parse_callback_out_sum raw_out_sum) (\<lambda>amount.
       guard_res (amount = po_amount_minor row) (PaymentError InvalidCallbackError))"

record CallbackResult =
  cr_inv_id :: int
  cr_transitioned :: bool

definition accept_callback ::
  "(bytes \<Rightarrow> bytes) \<Rightarrow> RobokassaSettings \<Rightarrow> uuid \<Rightarrow> uuid \<Rightarrow> string \<Rightarrow> int \<Rightarrow> string \<Rightarrow> time \<Rightarrow> time \<Rightarrow> db \<Rightarrow> db \<Rightarrow>
     (CallbackResult \<times> db) res" where
  "accept_callback sha s fresh_id fresh_public raw_out_sum inv_id supplied now pnow seen d =
     andThen (require_test_mode s) (\<lambda>_.
     case get_by_invoice_id inv_id seen of
       None \<Rightarrow> Inl (PaymentError InvalidCallbackError)
     | Some snapshot \<Rightarrow>
         let expected = sign_callback sha raw_out_sum inv_id (rs_robokassa_test_password2 s)
         in if \<not> signature_matches supplied expected then Inl (PaymentError InvalidCallbackError)
            else andThen (amount_is raw_out_sum snapshot) (\<lambda>_.
                 andThen (validate_callback_snapshot snapshot) (\<lambda>_.
                 case lock_by_invoice_id inv_id d of
                   None \<Rightarrow> Inl (PaymentError InvalidCallbackError)
                 | Some row \<Rightarrow>
                     andThen (amount_is raw_out_sum row) (\<lambda>_.
                     andThen (validate_callback_snapshot row) (\<lambda>_.
                     andThen (mark_paid row now d) (\<lambda>((row', transitioned), d1).
                     andThen (if po_status row' = PO_PAID
                              then andThen (ensure_for_paid_order fresh_id fresh_public row' pnow d1)
                                     (\<lambda>(_, d2). Inr d2)
                              else Inr d1) (\<lambda>d2.
                       Inr (\<lparr>cr_inv_id = inv_id, cr_transitioned = transitioned\<rparr>, d2))))))))"

section \<open>Endpoints\<close>

text \<open>\<open>pairs\<close> is what \<open>parse_qsl\<close> made of the body; the fields other than the three are ignored.\<close>

definition required_field :: "string \<Rightarrow> bool" where
  "required_field k \<longleftrightarrow> k = ''OutSum'' \<or> k = ''InvId'' \<or> k = ''SignatureValue''"

definition callback_field ::
  "string \<times> string \<Rightarrow> (string \<times> string) list \<Rightarrow> (string \<times> string) list res" where
  "callback_field pair vals =
     (case pair of (k, v) \<Rightarrow>
        if \<not> required_field k then Inr vals
        else if map_of vals k \<noteq> None then Inl (PaymentError InvalidCallbackError)
        else if has_control v then Inl (PaymentError InvalidCallbackError)
        else Inr ((k, v) # vals))"

definition callback_form :: "(string \<times> string) list \<Rightarrow> (string \<times> string \<times> string) res" where
  "callback_form pairs =
     andThen (fold_res callback_field pairs []) (\<lambda>vals.
       case (map_of vals ''OutSum'', map_of vals ''InvId'', map_of vals ''SignatureValue'') of
         (Some out_sum, Some raw_inv, Some signature) \<Rightarrow> Inr (out_sum, raw_inv, signature)
       | _ \<Rightarrow> Inl (PaymentError InvalidCallbackError))"

text \<open>\<open>[1-9][0-9]{0,18}\<close>\<close>

definition parse_inv_id :: "string \<Rightarrow> int res" where
  "parse_inv_id raw =
     (if raw = [] \<or> length raw > 19 \<or> hd raw = CHR ''0'' \<or> \<not> list_all digit_ascii raw
      then Inl (PaymentError InvalidCallbackError)
      else if decimal_value raw > 9223372036854775807 then Inl (PaymentError InvalidCallbackError)
      else Inr (decimal_value raw))"

text \<open>The response is its status and body; a failed request leaves the transaction uncommitted.\<close>

definition robokassa_result ::
  "(bytes \<Rightarrow> bytes) \<Rightarrow> RobokassaSettings \<Rightarrow> uuid \<Rightarrow> uuid \<Rightarrow> (string \<times> string) list \<Rightarrow> time \<Rightarrow> time \<Rightarrow> db \<Rightarrow> db \<Rightarrow>
     (int \<times> string) \<times> db" where
  "robokassa_result sha s fresh_id fresh_public pairs now pnow seen d =
     (case andThen (callback_form pairs) (\<lambda>(out_sum, raw_inv, signature).
             andThen (parse_inv_id raw_inv) (\<lambda>inv_id.
               accept_callback sha s fresh_id fresh_public out_sum inv_id signature now pnow seen d)) of
        Inr (result, d') \<Rightarrow> ((200, ''OK'' @ show_int (cr_inv_id result)), d')
      | Inl e \<Rightarrow>
          if e = PaymentError InvalidCallbackError \<or> e = PaymentError PaymentsDisabledError
          then ((400, ''ERROR''), d) else ((500, ''ERROR''), d))"

definition payment_error_status :: "error \<Rightarrow> int option" where
  "payment_error_status e =
     (if e = PaymentError PaymentsDisabledError then Some 503
      else if e = AnonymousIdentityRequiredError then Some 428
      else if e = PaymentError UnknownProductError then Some 422
      else if e = PaymentError InvalidIdempotencyKeyError then Some 400
      else if e = PaymentError IdempotencyConflictError then Some 409
      else None)"

definition create_payment_order ::
  "(bytes \<Rightarrow> bytes) \<Rightarrow> RobokassaSettings \<Rightarrow> uuid \<Rightarrow> uuid \<Rightarrow> int \<Rightarrow> string option \<Rightarrow> string \<Rightarrow> string \<Rightarrow> time \<Rightarrow> time \<Rightarrow>
     db \<Rightarrow> (CreatedPayment \<times> db) res" where
  "create_payment_order sha s fresh_id fresh_public next_inv cookie_header product_code idempotency_key
      inow now d =
     andThen (ensure_checkout_available s) (\<lambda>_.
     andThen (require_identity sha inow cookie_header d) (\<lambda>identity.
       create_order sha s fresh_id fresh_public next_inv (ai_id identity) product_code idempotency_key now d))"

section \<open>How an order may change\<close>

fun po_reach :: "PaymentOrderState \<Rightarrow> PaymentOrderState \<Rightarrow> bool" where
  "po_reach PO_CREATED t = True"
| "po_reach PO_PENDING t = (t \<noteq> PO_CREATED)"
| "po_reach PO_PAID t = (t = PO_PAID)"
| "po_reach PO_EXPIRED t = (t = PO_EXPIRED)"

lemma po_reach_refl [simp]: "po_reach s s"
  by (cases s) auto

lemma po_reach_trans: "po_reach s t \<Longrightarrow> po_reach t u \<Longrightarrow> po_reach s u"
  by (cases s; cases t; cases u) auto

lemma po_edge: "t \<in> set (po_allowed s) \<Longrightarrow> po_reach s t"
  by (cases s; cases t) auto

lemma po_reach_moves: "po_reach s t \<Longrightarrow> (\<lambda>a b. assert_payment_transition a b = Inr ())\<^sup>*\<^sup>* s t"
proof -
  assume r: "po_reach s t"
  have edge: "(\<lambda>a b. assert_payment_transition a b = Inr ())\<^sup>*\<^sup>* a b" if "b \<in> set (po_allowed a)" for a b
    using that by (intro r_into_rtranclp) (simp add: assert_payment_transition_def)
  have "(\<lambda>a b. assert_payment_transition a b = Inr ())\<^sup>*\<^sup>* PO_CREATED PO_PAID"
    by (rule rtranclp_trans [OF edge [of PO_PENDING PO_CREATED] edge [of PO_PAID PO_PENDING]]) auto
  with r show ?thesis by (cases s; cases t) (auto intro: edge)
qed

text \<open>The columns of the purchase, which no operation changes.\<close>

definition same_purchase :: "payment_order \<Rightarrow> payment_order \<Rightarrow> bool" where
  "same_purchase r r' \<longleftrightarrow>
     po_id r' = po_id r \<and> po_public_id r' = po_public_id r \<and>
     po_anonymous_client_id r' = po_anonymous_client_id r \<and> po_provider r' = po_provider r \<and>
     po_provider_invoice_id r' = po_provider_invoice_id r \<and> po_product_code r' = po_product_code r \<and>
     po_amount_minor r' = po_amount_minor r \<and> po_currency r' = po_currency r \<and>
     po_entitlement_duration_seconds r' = po_entitlement_duration_seconds r \<and>
     po_is_test r' = po_is_test r \<and> po_receipt_json r' = po_receipt_json r \<and>
     po_creation_idempotency_hash r' = po_creation_idempotency_hash r \<and>
     po_created_at r' = po_created_at r \<and> po_expires_at r' = po_expires_at r"

definition po_rel :: "payment_order \<Rightarrow> payment_order \<Rightarrow> bool" where
  "po_rel r r' \<longleftrightarrow> same_purchase r r' \<and> po_reach (po_status r) (po_status r') \<and>
     (po_status r = PO_PAID \<longrightarrow> r' = r)"

lemma po_rel_refl [simp]: "po_rel r r"
  by (simp add: po_rel_def same_purchase_def)

lemma po_rel_trans: "po_rel a b \<Longrightarrow> po_rel b c \<Longrightarrow> po_rel a c"
  using po_reach_trans [of "po_status a" "po_status b" "po_status c"]
  by (auto simp: po_rel_def same_purchase_def)

lemma po_rel_orders: "reflp po_rel" "transp po_rel"
  by (auto simp: reflp_def transp_def intro: po_rel_trans)

lemma po_rel_columns:
  assumes "list_all2 po_rel rows rows'"
  shows "map po_id rows' = map po_id rows" "map po_public_id rows' = map po_public_id rows"
    "map po_provider_invoice_id rows' = map po_provider_invoice_id rows"
    "map creation_key rows' = map creation_key rows"
  using assms by (induction rule: list_all2_induct) (auto simp: po_rel_def same_purchase_def creation_key_def)

section \<open>Invariant\<close>

text \<open>The constraints of the two tables, and what no constraint says: every entitlement belongs to
  a paid order and has its window.\<close>

definition payments_wf :: "db \<Rightarrow> bool" where
  "payments_wf d \<longleftrightarrow>
     orders_wf d \<and> entitlements_wf d \<and> distinct (map po_public_id (orders d)) \<and>
     distinct (map po_provider_invoice_id (orders d)) \<and> distinct (map creation_key (orders d)) \<and>
     (\<forall>e \<in> set (entitlements d). \<exists>r \<in> set (orders d). po_status r = PO_PAID \<and> entitles r e)"

lemma payments_wfD:
  assumes "payments_wf d"
  shows "orders_wf d" "entitlements_wf d" "distinct (map po_id (orders d))"
    "distinct (map po_provider_invoice_id (orders d))" "distinct (map creation_key (orders d))"
    "r \<in> set (orders d) \<Longrightarrow> order_ok r"
  using assms by (simp_all add: payments_wf_def orders_wf_def)

lemma rewrite_orders:
  assumes wf: "payments_wf d" and rel: "list_all2 po_rel (orders d) rows"
    and ok: "\<And>r. r \<in> set rows \<Longrightarrow> order_ok r"
  shows "payments_wf (d\<lparr>orders := rows\<rparr>)"
proof -
  note cols = po_rel_columns [OF rel]
  have client: "po_anonymous_client_id r \<in> ac_id ` set (clients d)" if "r \<in> set rows" for r
  proof -
    from that rel obtain r0 where "r0 \<in> set (orders d)" "po_rel r0 r"
      by (metis in_set_conv_nth list_all2_conv_all_nth)
    with wf show ?thesis by (auto simp: payments_wf_def orders_wf_def po_rel_def same_purchase_def)
  qed
  have paid: "r \<in> set rows" if "r \<in> set (orders d)" "po_status r = PO_PAID" for r
    using that rel by (metis in_set_conv_nth list_all2_conv_all_nth po_rel_def)
  have ids: "po_id ` set rows = po_id ` set (orders d)" by (metis cols(1) list.set_map)
  show ?thesis
    using wf ok client cols paid ids by (simp add: payments_wf_def orders_wf_def entitlements_wf_def) blast
qed

lemma put_order_rel:
  assumes "distinct (map po_id rows)" and "r \<in> set rows" and "po_rel r r'"
  shows "list_all2 po_rel rows (put_row po_id r' rows)"
proof -
  have "po_id r' = po_id r" using assms(3) by (simp add: po_rel_def same_purchase_def)
  then have "po_rel x (if po_id x = po_id r' then r' else x)" if "x \<in> set rows" for x
    using assms that by (auto simp: distinct_map inj_on_def)
  then show ?thesis by (simp add: put_row_def list_all2_conv_all_nth)
qed

lemma po_flush_Inr: "po_flush row d = Inr d' \<longleftrightarrow> order_ok row \<and> d' = d\<lparr>orders := put_row po_id row (orders d)\<rparr>"
  by (auto simp: po_flush_def andThen_eq_Inr write_row_eq_Inr)

lemma flush_order:
  assumes "payments_wf d" and "r \<in> set (orders d)" and "po_rel r r'" and "po_flush r' d = Inr d'"
  shows "payments_wf d'" "list_all2 po_rel (orders d) (orders d')" "r' \<in> set (orders d')"
proof -
  from assms(4) have ok: "order_ok r'" and d': "d' = d\<lparr>orders := put_row po_id r' (orders d)\<rparr>"
    by (simp_all add: po_flush_Inr)
  have rel: "list_all2 po_rel (orders d) (put_row po_id r' (orders d))"
    by (rule put_order_rel [OF payments_wfD(3) [OF assms(1)] assms(2,3)])
  then show "list_all2 po_rel (orders d) (orders d')" by (simp add: d')
  have "order_ok x" if "x \<in> set (put_row po_id r' (orders d))" for x
    using that ok payments_wfD(6) [OF assms(1)] set_put_row [of po_id r' "orders d"] by blast
  then show "payments_wf d'" unfolding d' by (rule rewrite_orders [OF assms(1) rel])
  have "po_id r' = po_id r" using assms(3) by (simp add: po_rel_def same_purchase_def)
  then show "r' \<in> set (orders d')" using assms(2) by (force simp: d' put_row_def)
qed

lemma insert_order:
  assumes "payments_wf d" and "po_insert row d = Inr d'"
  shows "payments_wf d'" "d' = d\<lparr>orders := orders d @ [row]\<rparr>" "order_ok row"
  using assms by (auto simp: po_insert_def payments_wf_def orders_wf_def entitlements_wf_def split: if_split_asm)

text \<open>Issuing the entitlement of a paid order: afterwards it has exactly one.\<close>

lemma ensure_paid:
  assumes wf: "payments_wf d" and mem: "order \<in> set (orders d)" and paid: "po_status order = PO_PAID"
    and run: "ensure_for_paid_order i p order now d = Inr ((e, c), d')"
  shows "payments_wf d'" "d' = d\<lparr>entitlements := entitlements d'\<rparr>" "entitles order e"
    "filter (\<lambda>x. pe_source_payment_order_id x = po_id order) (entitlements d') = [e]"
    "set (entitlements d) \<subseteq> set (entitlements d')"
proof -
  have ok: "order_ok order" using wf mem by (rule payments_wfD(6))
  have ent': "entitlements_wf d'" by (rule ensure_wf [OF run payments_wfD(2) [OF wf]])
  have *: "payments_wf d' \<and> d' = d\<lparr>entitlements := entitlements d'\<rparr> \<and> entitles order e \<and>
      e \<in> set (entitlements d') \<and> set (entitlements d) \<subseteq> set (entitlements d')"
  proof (cases "get_by_source_payment_order_id (po_id order) d")
    case (Some x)
    with ensure_reuses [OF Some paid ok] run have xe: "x = e" "d' = d" by auto
    with Some have x: "e \<in> set (entitlements d)" "pe_source_payment_order_id e = po_id order"
      unfolding get_by_source_payment_order_id_def by (auto dest!: row_by_SomeD)
    with wf obtain r where "r \<in> set (orders d)" "entitles r e" by (auto simp: payments_wf_def)
    moreover with x mem payments_wfD(3) [OF wf] have "r = order"
      by (auto simp: entitles_def distinct_map inj_on_def)
    ultimately show ?thesis using x xe wf by simp
  next
    case None
    obtain t where t: "po_paid_at order = Some t" "po_entitlement_duration_seconds order = 86400"
      using ok paid by (auto simp: order_ok_defs)
    from run None t paid obtain row where
      "row = \<lparr>pe_id = i, pe_public_id = p, pe_anonymous_client_id = po_anonymous_client_id order,
         pe_source_payment_order_id = po_id order, pe_product_code = po_product_code order, pe_starts_at = t,
         pe_expires_at = t + seconds (po_entitlement_duration_seconds order), pe_created_at = now\<rparr>"
      and "pe_insert row d = Inr d'" and "e = row"
      by (auto simp: ensure_for_paid_order_def Let_def split: if_split_asm sum.split_asm option.split_asm)
    then have d': "d' = d\<lparr>entitlements := entitlements d @ [e]\<rparr>" and e: "entitles order e"
      using t by (simp_all add: pe_insert_frame entitles_def)
    with wf ent' mem paid show ?thesis by (auto simp: payments_wf_def orders_wf_def)
  qed
  then show "payments_wf d'" "d' = d\<lparr>entitlements := entitlements d'\<rparr>" "entitles order e"
    "set (entitlements d) \<subseteq> set (entitlements d')" by blast+
  have "distinct (map pe_source_payment_order_id (entitlements d'))" using ent' by (simp add: entitlements_wf_def)
  from filter_key_row_by [OF this, of "po_id order" "\<lambda>_. True"] row_by_Some_iff [OF this, of "po_id order" e] *
  show "filter (\<lambda>x. pe_source_payment_order_id x = po_id order) (entitlements d') = [e]"
    by (simp add: entitles_def)
qed

section \<open>Callbacks\<close>

lemma paid_row_rel: "po_status r = PO_PENDING \<Longrightarrow> po_rel r (paid_row now r)"
  by (simp add: po_rel_def same_purchase_def paid_row_def)

lemma mark_paid_Inr:
  assumes "payments_wf d" and "r \<in> set (orders d)" and "po_status r \<in> {PO_PENDING, PO_PAID}"
    and "mark_paid r now d = Inr ((r', b), d')"
  shows "payments_wf d'" "list_all2 po_rel (orders d) (orders d')" "r' \<in> set (orders d')" "po_status r' = PO_PAID"
    "po_rel r r'" "b \<longleftrightarrow> po_status r = PO_PENDING" "entitlements d' = entitlements d"
    "x \<in> set (orders d) \<Longrightarrow> po_id x \<noteq> po_id r \<Longrightarrow> x \<in> set (orders d')"
    "y \<in> set (orders d') \<Longrightarrow> y \<noteq> r' \<Longrightarrow> y \<in> set (orders d)"
proof -
  have "payments_wf d' \<and> list_all2 po_rel (orders d) (orders d') \<and> r' \<in> set (orders d') \<and>
      po_status r' = PO_PAID \<and> po_rel r r' \<and> (b \<longleftrightarrow> po_status r = PO_PENDING) \<and> entitlements d' = entitlements d"
  proof (cases "po_status r = PO_PAID")
    case True
    with assms show ?thesis by (auto simp: mark_paid_def list_all2_same)
  next
    case False
    then have pending: "po_status r = PO_PENDING" using assms(3) by simp
    with assms(4) have f: "po_flush (paid_row now r) d = Inr d'" and r': "r' = paid_row now r" and b
      by (auto simp: mark_paid_def andThen_eq_Inr)
    with flush_order [OF assms(1,2) paid_row_rel [OF pending] f] pending paid_row_rel [OF pending]
    show ?thesis by (auto simp: po_flush_Inr) (simp add: paid_row_def)
  qed
  then show "payments_wf d'" "list_all2 po_rel (orders d) (orders d')" "r' \<in> set (orders d')" "po_status r' = PO_PAID"
    "po_rel r r'" "b \<longleftrightarrow> po_status r = PO_PENDING" "entitlements d' = entitlements d" by blast+
  show "x \<in> set (orders d')" if "x \<in> set (orders d)" "po_id x \<noteq> po_id r"
  proof (cases "po_status r = PO_PAID")
    case False
    with assms(4) have "po_flush (paid_row now r) d = Inr d'" by (auto simp: mark_paid_def andThen_eq_Inr)
    with that show ?thesis by (force simp: po_flush_Inr put_row_def paid_row_def)
  qed (use assms(4) that in \<open>simp add: mark_paid_def\<close>)
  show "y \<in> set (orders d)" if "y \<in> set (orders d')" "y \<noteq> r'"
  proof (cases "po_status r = PO_PAID")
    case False
    with assms(4) have "po_flush r' d = Inr d'" by (auto simp: mark_paid_def andThen_eq_Inr)
    with that show ?thesis using set_put_row [of po_id r' "orders d"] by (auto simp: po_flush_Inr)
  qed (use assms(4) that in \<open>simp add: mark_paid_def\<close>)
qed

lemma amount_is_Inr:
  "amount_is raw r = Inr u \<longleftrightarrow> parse_callback_out_sum raw = Inr (po_amount_minor r)"
  by (auto simp: amount_is_def andThen_eq_Inr)

lemma validate_Inr: "validate_callback_snapshot r = Inr u \<Longrightarrow> po_status r \<in> {PO_PENDING, PO_PAID}"
  by (auto simp: validate_callback_snapshot_def)

lemma accept_callback_Inr:
  assumes "accept_callback sha s i p raw inv_id sig now pnow seen d = Inr (res, d')"
  obtains r r' b d1 e c where "lock_by_invoice_id inv_id d = Some r"
    and "signature_matches sig (sign_callback sha raw inv_id (rs_robokassa_test_password2 s))"
    and "parse_callback_out_sum raw = Inr (po_amount_minor r)"
    and "validate_callback_snapshot r = Inr ()" and "mark_paid r now d = Inr ((r', b), d1)"
    and "po_status r' = PO_PAID \<longrightarrow> ensure_for_paid_order i p r' pnow d1 = Inr ((e, c), d')"
    and "res = \<lparr>cr_inv_id = inv_id, cr_transitioned = b\<rparr>"
proof -
  from assms obtain snapshot where "get_by_invoice_id inv_id seen = Some snapshot"
    by (auto simp: accept_callback_def andThen_eq_Inr split: option.split_asm)
  with assms have sig: "signature_matches sig (sign_callback sha raw inv_id (rs_robokassa_test_password2 s))"
    by (auto simp: accept_callback_def andThen_eq_Inr Let_def split: if_split_asm)
  with assms \<open>get_by_invoice_id inv_id seen = Some snapshot\<close> obtain r where r: "lock_by_invoice_id inv_id d = Some r"
    by (auto simp: accept_callback_def andThen_eq_Inr split: option.split_asm)
  with assms sig \<open>get_by_invoice_id inv_id seen = Some snapshot\<close>
  have "parse_callback_out_sum raw = Inr (po_amount_minor r)"
    and "validate_callback_snapshot r = Inr ()"
    by (auto simp: accept_callback_def andThen_eq_Inr amount_is_Inr)
  moreover from assms sig r \<open>get_by_invoice_id inv_id seen = Some snapshot\<close>
  obtain r' b d1 where "mark_paid r now d = Inr ((r', b), d1)"
    and rest: "(if po_status r' = PO_PAID
         then andThen (ensure_for_paid_order i p r' pnow d1) (\<lambda>(_, d2). Inr d2) else Inr d1) = Inr d'"
    and "res = \<lparr>cr_inv_id = inv_id, cr_transitioned = b\<rparr>"
    by (auto simp: accept_callback_def andThen_eq_Inr)
  moreover have "\<exists>e c. po_status r' = PO_PAID \<longrightarrow> ensure_for_paid_order i p r' pnow d1 = Inr ((e, c), d')"
    using rest by (auto simp: andThen_eq_Inr)
  then obtain e c where "po_status r' = PO_PAID \<longrightarrow> ensure_for_paid_order i p r' pnow d1 = Inr ((e, c), d')"
    by blast
  ultimately show thesis using r sig that by blast
qed

text \<open>What an accepted callback has done.\<close>

lemma callback_effect:
  assumes wf: "payments_wf d"
    and run: "accept_callback sha s i p raw inv_id sig now pnow seen d = Inr (res, d')"
  obtains r r' e where "lock_by_invoice_id inv_id d = Some r" and "lock_by_invoice_id inv_id d' = Some r'"
    and "signature_matches sig (sign_callback sha raw inv_id (rs_robokassa_test_password2 s))"
    and "parse_callback_out_sum raw = Inr (po_amount_minor r)"
    and "po_status r = PO_PENDING \<or> po_status r = PO_PAID" and "po_rel r r'" and "po_status r' = PO_PAID"
    and "res = \<lparr>cr_inv_id = inv_id, cr_transitioned = (po_status r = PO_PENDING)\<rparr>"
    and "entitles r' e" and "filter (\<lambda>x. pe_source_payment_order_id x = po_id r') (entitlements d') = [e]"
    and "payments_wf d'" and "list_all2 po_rel (orders d) (orders d')"
    and "set (entitlements d) \<subseteq> set (entitlements d')"
    and "\<forall>x \<in> set (orders d). po_provider_invoice_id x \<noteq> inv_id \<longrightarrow> x \<in> set (orders d')"
    and "\<forall>x \<in> set (orders d'). po_provider_invoice_id x \<noteq> inv_id \<longrightarrow> x \<in> set (orders d)"
proof -
  from run obtain r r' b d1 e c where l: "lock_by_invoice_id inv_id d = Some r"
    and sig: "signature_matches sig (sign_callback sha raw inv_id (rs_robokassa_test_password2 s))"
    and amount: "parse_callback_out_sum raw = Inr (po_amount_minor r)"
    and val: "validate_callback_snapshot r = Inr ()" and mark: "mark_paid r now d = Inr ((r', b), d1)"
    and ens: "po_status r' = PO_PAID \<longrightarrow> ensure_for_paid_order i p r' pnow d1 = Inr ((e, c), d')"
    and res: "res = \<lparr>cr_inv_id = inv_id, cr_transitioned = b\<rparr>"
    by (rule accept_callback_Inr)
  have r: "r \<in> set (orders d)" "po_provider_invoice_id r = inv_id"
    using row_by_SomeD [OF l [unfolded lock_by_invoice_id_def]] by auto
  note st = validate_Inr [OF val]
  note paid = mark_paid_Inr [OF wf r(1) st mark]
  note en = ensure_paid [OF paid(1,3,4) ens [THEN mp, OF paid(4)]]
  have ord: "orders d' = orders d1" using arg_cong [OF en(2), of orders] by simp
  have inv': "po_provider_invoice_id r' = inv_id" using paid(5) r(2) by (simp add: po_rel_def same_purchase_def)
  then have l': "lock_by_invoice_id inv_id d' = Some r'"
    using row_by_Some_iff [OF payments_wfD(4) [OF en(1)]] paid(3) ord by (simp add: lock_by_invoice_id_def)
  have kept: "\<forall>x \<in> set (orders d). po_provider_invoice_id x \<noteq> inv_id \<longrightarrow> x \<in> set (orders d')"
  proof (intro ballI impI)
    fix x assume x: "x \<in> set (orders d)" "po_provider_invoice_id x \<noteq> inv_id"
    then have "po_id x \<noteq> po_id r" using r payments_wfD(3) [OF wf] by (auto simp: distinct_map inj_on_def)
    with x(1) paid(8) ord show "x \<in> set (orders d')" by simp
  qed
  have only: "\<forall>x \<in> set (orders d'). po_provider_invoice_id x \<noteq> inv_id \<longrightarrow> x \<in> set (orders d)"
  proof (intro ballI impI)
    fix x assume x: "x \<in> set (orders d')" "po_provider_invoice_id x \<noteq> inv_id"
    then have "x \<noteq> r'" using inv' by auto
    with x(1) ord paid(9) [of x] show "x \<in> set (orders d)" by simp
  qed
  have st': "po_status r = PO_PENDING \<or> po_status r = PO_PAID" using st by simp
  have rel: "list_all2 po_rel (orders d) (orders d')" using paid(2) ord by simp
  have sub: "set (entitlements d) \<subseteq> set (entitlements d')" using paid(7) en(5) by simp
  from res paid(6) have "res = \<lparr>cr_inv_id = inv_id, cr_transitioned = (po_status r = PO_PENDING)\<rparr>" by simp
  from that [OF l l' sig amount st' paid(5,4) this en(3,4,1) rel sub kept only] show thesis .
qed

lemma repeated_callback:
  assumes wf: "payments_wf d" and l: "lock_by_invoice_id inv_id d = Some r" and paid: "po_status r = PO_PAID"
    and ent: "filter (\<lambda>x. pe_source_payment_order_id x = po_id r) (entitlements d) = [e]"
    and sig: "signature_matches sig (sign_callback sha raw inv_id (rs_robokassa_test_password2 s))"
    and mode: "rs_robokassa_mode s = ''test''" and amount: "parse_callback_out_sum raw = Inr (po_amount_minor r)"
    and val: "validate_callback_snapshot r = Inr ()"
  shows "accept_callback sha s i p raw inv_id sig now pnow d d =
     Inr (\<lparr>cr_inv_id = inv_id, cr_transitioned = False\<rparr>, d)"
proof -
  have "r \<in> set (orders d)" using row_by_SomeD [OF l [unfolded lock_by_invoice_id_def]] by simp
  then have ok: "order_ok r" by (rule payments_wfD(6) [OF wf])
  have "e \<in> set (filter (\<lambda>x. pe_source_payment_order_id x = po_id r) (entitlements d))" using ent by simp
  then have "get_by_source_payment_order_id (po_id r) d \<noteq> None"
    by (metis (mono_tags, lifting) get_by_source_None image_eqI mem_Collect_eq set_filter)
  then obtain x where "get_by_source_payment_order_id (po_id r) d = Some x" by blast
  moreover have "amount_is raw r = Inr ()" using amount by (simp add: amount_is_Inr)
  ultimately show ?thesis using ensure_reuses [OF _ paid ok] l sig mode val paid
    by (simp add: accept_callback_def get_by_invoice_id_def lock_by_invoice_id_def require_test_mode_def
        mark_paid_def)
qed

text \<open>C16. Payment is taken exactly once: an accepted callback carries the signature of the provider
  over the sum and the invoice, names an existing order by its exact amount, and leaves that
  order paid with exactly one entitlement that opens at the payment; it reports a transition
  only when the order was not paid before, touches no other order, and any later repetition
  of the callback is accepted, reports no transition and changes nothing.\<close>

theorem callback_settles_once:
  assumes "payments_wf d"
    and "accept_callback sha s i p raw inv_id sig now pnow seen d = Inr (res, d')"
  shows "\<exists>r r' e. lock_by_invoice_id inv_id d = Some r \<and> lock_by_invoice_id inv_id d' = Some r' \<and>
     lower sig = lower (sign_callback sha raw inv_id (rs_robokassa_test_password2 s)) \<and>
     parse_callback_out_sum raw = Inr (po_amount_minor r) \<and>
     po_status r \<in> {PO_PENDING, PO_PAID} \<and> po_rel r r' \<and> po_status r' = PO_PAID \<and>
     cr_transitioned res = (po_status r = PO_PENDING) \<and> entitles r' e \<and>
     filter (\<lambda>x. pe_source_payment_order_id x = po_id r') (entitlements d') = [e] \<and> payments_wf d' \<and>
     (\<forall>x \<in> set (orders d). po_provider_invoice_id x \<noteq> inv_id \<longrightarrow> x \<in> set (orders d')) \<and>
     (\<forall>i' p' now' pnow'. accept_callback sha s i' p' raw inv_id sig now' pnow' d' d' =
        Inr (\<lparr>cr_inv_id = inv_id, cr_transitioned = False\<rparr>, d'))"
proof -
  obtain r r' e where l: "lock_by_invoice_id inv_id d = Some r"
      "lock_by_invoice_id inv_id d' = Some r'"
    and sig: "signature_matches sig (sign_callback sha raw inv_id (rs_robokassa_test_password2 s))"
    and amount: "parse_callback_out_sum raw = Inr (po_amount_minor r)"
    and st: "po_status r = PO_PENDING \<or> po_status r = PO_PAID" and rel: "po_rel r r'" "po_status r' = PO_PAID"
    and res: "res = \<lparr>cr_inv_id = inv_id, cr_transitioned = (po_status r = PO_PENDING)\<rparr>"
    and ent: "entitles r' e" "filter (\<lambda>x. pe_source_payment_order_id x = po_id r') (entitlements d') = [e]"
    and wf': "payments_wf d'"
    and others: "\<forall>x \<in> set (orders d). po_provider_invoice_id x \<noteq> inv_id \<longrightarrow> x \<in> set (orders d')"
    by (rule callback_effect [OF assms])
  have mode: "rs_robokassa_mode s = ''test''"
    using assms(2) by (simp add: accept_callback_def require_test_mode_def andThen_eq_Inr)
  obtain r0 where "lock_by_invoice_id inv_id d = Some r0" "validate_callback_snapshot r0 = Inr ()"
    using accept_callback_Inr [OF assms(2)] by metis
  with l(1) rel have val: "validate_callback_snapshot r' = Inr ()"
    by (simp add: validate_callback_snapshot_def po_rel_def same_purchase_def)
  have again: "accept_callback sha s i' p' raw inv_id sig now' pnow' d' d' =
      Inr (\<lparr>cr_inv_id = inv_id, cr_transitioned = False\<rparr>, d')" for i' p' now' pnow'
    by (rule repeated_callback [OF wf' l(2) rel(2) ent(2) sig]) (use amount rel(1) mode val in \<open>simp_all add: po_rel_def same_purchase_def\<close>)
  with l sig amount st rel res ent wf' others show ?thesis
    by (intro exI [of _ r] exI [of _ r'] exI [of _ e]) (simp add: signature_matches_def)
qed

section \<open>Creating an order\<close>

definition pending_row :: "time \<Rightarrow> payment_order \<Rightarrow> payment_order" where
  "pending_row now row = row\<lparr>po_status := PO_PENDING, po_pending_at := Some now, po_updated_at := now\<rparr>"

lemma mark_pending_created:
  "po_status row = PO_CREATED \<Longrightarrow> mark_pending row now d =
     andThen (po_flush (pending_row now row) d) (\<lambda>d'. Inr (pending_row now row, d'))"
  by (simp add: mark_pending_def assert_payment_transition_def pending_row_def Let_def)

lemma pending_row_rel: "po_status r = PO_CREATED \<Longrightarrow> po_rel r (pending_row now r)"
  by (simp add: po_rel_def same_purchase_def pending_row_def)

lemma new_order_fields [simp]:
  "po_status (new_order i p n client h product rj now ttl) = PO_CREATED"
  "creation_key (new_order i p n client h product rj now ttl) = (client, h)"
  "immutable_matches (new_order i p n client h product rj now ttl) product rj"
  by (simp_all add: new_order_def creation_key_def immutable_matches_def)

lemma create_or_get_Inr:
  assumes "payments_wf d"
    and "create_or_get i p n client h product rj now ttl d = Inr ((row, created), d1)"
  shows "payments_wf d1" "row \<in> set (orders d1)" "creation_key row = (client, h)"
    "immutable_matches row product rj" "length h = 32" "entitlements d1 = entitlements d"
    "created \<and> d1 = d\<lparr>orders := orders d @ [row]\<rparr> \<or> \<not> created \<and> d1 = d"
proof -
  have "length h = 32" using assms(2) by (simp add: create_or_get_def split: if_split_asm)
  moreover have "payments_wf d1 \<and> row \<in> set (orders d1) \<and> creation_key row = (client, h) \<and>
      immutable_matches row product rj \<and> entitlements d1 = entitlements d \<and>
      (created \<and> d1 = d\<lparr>orders := orders d @ [row]\<rparr> \<or> \<not> created \<and> d1 = d)"
  proof (cases "po_insert (new_order i p n client h product rj now ttl) d")
    case (Inl e)
    with assms(2) have "row_by creation_key (client, h) (orders d) = Some row" "immutable_matches row product rj"
      "d1 = d" "\<not> created"
      by (auto simp: create_or_get_def split: if_split_asm option.split_asm)
    with assms(1) show ?thesis using row_by_SomeD [of creation_key "(client, h)" "orders d" row] by simp
  next
    case (Inr d')
    with assms(2) have "d1 = d'" "row = new_order i p n client h product rj now ttl" created
      by (auto simp: create_or_get_def split: if_split_asm)
    with insert_order [OF assms(1) Inr] show ?thesis by simp
  qed
  ultimately show "payments_wf d1" "row \<in> set (orders d1)" "creation_key row = (client, h)"
    "immutable_matches row product rj" "length h = 32" "entitlements d1 = entitlements d"
    "created \<and> d1 = d\<lparr>orders := orders d @ [row]\<rparr> \<or> \<not> created \<and> d1 = d" by blast+
qed

lemma create_order_Inr:
  assumes wf: "payments_wf d"
    and run: "create_order sha s i p n client code' key now d = Inr (cp, d')"
  obtains product receipt h where "ensure_checkout_available s = Inr ()"
    and "get_product s code' = Inr product" and "serialize_receipt product = Inr receipt"
    and "hash_idempotency_key sha key = Inr h" and "length h = 32" and "payments_wf d'"
    and "cp_order cp \<in> set (orders d')" and "creation_key (cp_order cp) = (client, h)"
    and "po_status (cp_order cp) = PO_PENDING"
    and "immutable_matches (cp_order cp) product (rr_json_text receipt)"
    and "form_fields sha s (cp_order cp) = Inr (cp_fields cp)" and "entitlements d' = entitlements d"
    and "\<forall>r \<in> set (orders d). \<exists>r' \<in> set (orders d'). po_rel r r'"
    and "\<forall>r' \<in> set (orders d'). po_status r' = PO_PAID \<longrightarrow> r' \<in> set (orders d)"
proof -
  from run obtain product receipt h row created d1 where
    p: "ensure_checkout_available s = Inr ()" "get_product s code' = Inr product"
      "serialize_receipt product = Inr receipt" "hash_idempotency_key sha key = Inr h"
    and cg: "create_or_get i p n client h product (rr_json_text receipt) now (rs_robokassa_order_ttl_seconds s) d =
       Inr ((row, created), d1)"
    and mark: "(if po_status row = PO_CREATED then mark_pending row now d1
       else if po_status row \<noteq> PO_PENDING then Inl (PaymentError PaymentInvariantError)
       else Inr (row, d1)) = Inr (cp_order cp, d')"
    and ff: "form_fields sha s (cp_order cp) = Inr (cp_fields cp)"
    by (auto simp: create_order_def andThen_eq_Inr)
  note c = create_or_get_Inr [OF wf cg]
  have old: "r \<in> set (orders d1)" if "r \<in> set (orders d)" for r using c(7) that by auto
  show thesis
  proof (cases "po_status row = PO_CREATED")
    case True
    with mark have row: "cp_order cp = pending_row now row" "po_flush (pending_row now row) d1 = Inr d'"
      by (auto simp: mark_pending_created andThen_eq_Inr)
    note f = flush_order [OF c(1,2) pending_row_rel [OF True] row(2)]
    have "entitlements d' = entitlements d" using row(2) c(6) by (auto simp: po_flush_Inr)
    moreover have "r' \<in> set (orders d)" if "r' \<in> set (orders d')" "po_status r' = PO_PAID" for r'
    proof -
      have "r' = pending_row now row \<or> r' \<in> set (orders d1)"
        using row(2) that(1) set_put_row [of po_id "pending_row now row" "orders d1"] by (auto simp: po_flush_Inr)
      with that(2) c(7) True show ?thesis by (auto simp: pending_row_def)
    qed
    moreover have "\<exists>r' \<in> set (orders d'). po_rel r r'" if "r \<in> set (orders d)" for r
      using old [OF that] f(2) by (metis in_set_conv_nth list_all2_conv_all_nth)
    moreover have "creation_key (cp_order cp) = (client, h)" "po_status (cp_order cp) = PO_PENDING"
      "immutable_matches (cp_order cp) product (rr_json_text receipt)"
      using c(3,4) row(1) by (simp_all add: pending_row_def creation_key_def immutable_matches_def)
    ultimately show thesis using that p ff c(5) f(1,3) row(1) by simp
  next
    case False
    with mark have "po_status row = PO_PENDING" "cp_order cp = row" "d' = d1" by (auto split: if_split_asm)
    moreover have "\<forall>r' \<in> set (orders d1). po_status r' = PO_PAID \<longrightarrow> r' \<in> set (orders d)"
      using c(7) \<open>po_status row = PO_PENDING\<close> by auto
    moreover have "\<exists>r' \<in> set (orders d1). po_rel r r'" if "r \<in> set (orders d)" for r
      using old [OF that] po_rel_refl by blast
    ultimately show thesis using that p ff c by simp
  qed
qed

lemma create_order_again:
  assumes wf: "payments_wf d" and mem: "r \<in> set (orders d)" and key: "creation_key r = (client, h)"
    and st: "po_status r = PO_PENDING" and im: "immutable_matches r product (rr_json_text receipt)"
    and ff: "form_fields sha s r = Inr flds" and h: "hash_idempotency_key sha key = Inr h" "length h = 32"
    and p: "ensure_checkout_available s = Inr ()" "get_product s code' = Inr product"
      "serialize_receipt product = Inr receipt"
  shows "create_order sha s i p n client code' key now d =
     Inr (\<lparr>cp_order = r, cp_fields = flds, cp_created = False\<rparr>, d)"
proof -
  have k: "(client, h) \<in> creation_key ` set (orders d)" using mem key by force
  have "row_by creation_key (client, h) (orders d) = Some r"
    using row_by_Some_iff [OF payments_wfD(5) [OF wf]] mem key by blast
  with k im h(2) have "create_or_get i p n client h product (rr_json_text receipt) now
      (rs_robokassa_order_ttl_seconds s) d = Inr ((r, False), d)"
    by (simp add: create_or_get_def po_insert_def)
  with p h(1) st ff show ?thesis by (simp add: create_order_def)
qed

text \<open>Ordering is idempotent: a created order is stored as pending for the client, the product
  and the price of the catalog; asking again under the same key returns the same order with the
  same signed form, reports that nothing was created and changes nothing, and the client has
  only one order under the key.\<close>

theorem create_order_idempotent:
  assumes "payments_wf d"
    and "create_order sha s i p n client code' key now d = Inr (cp, d')"
  shows "payments_wf d' \<and> cp_order cp \<in> set (orders d') \<and> po_status (cp_order cp) = PO_PENDING \<and>
     po_anonymous_client_id (cp_order cp) = client \<and>
     po_amount_minor (cp_order cp) = rs_robokassa_test_amount_minor s \<and>
     (\<forall>r \<in> set (orders d'). creation_key r = creation_key (cp_order cp) \<longrightarrow> r = cp_order cp) \<and>
     (\<forall>r \<in> set (orders d). \<exists>r' \<in> set (orders d'). po_rel r r') \<and>
     (\<forall>i' p' n' now'. create_order sha s i' p' n' client code' key now' d' =
        Inr (\<lparr>cp_order = cp_order cp, cp_fields = cp_fields cp, cp_created = False\<rparr>, d'))"
proof -
  from assms obtain product receipt h where p: "ensure_checkout_available s = Inr ()"
      "get_product s code' = Inr product" "serialize_receipt product = Inr receipt"
    and h: "hash_idempotency_key sha key = Inr h" "length h = 32" and wf': "payments_wf d'"
    and mem: "cp_order cp \<in> set (orders d')" and key: "creation_key (cp_order cp) = (client, h)"
    and st: "po_status (cp_order cp) = PO_PENDING"
    and im: "immutable_matches (cp_order cp) product (rr_json_text receipt)"
    and ff: "form_fields sha s (cp_order cp) = Inr (cp_fields cp)"
    and old: "\<forall>r \<in> set (orders d). \<exists>r' \<in> set (orders d'). po_rel r r'"
    by (rule create_order_Inr)
  have "pp_amount_minor product = rs_robokassa_test_amount_minor s"
    using p(2) by (auto simp: get_product_def split: if_split_asm)
  moreover have "r = cp_order cp" if "r \<in> set (orders d')" "creation_key r = creation_key (cp_order cp)" for r
    using that mem payments_wfD(5) [OF wf'] by (auto simp: distinct_map inj_on_def)
  moreover have "po_amount_minor (cp_order cp) = pp_amount_minor product" "po_anonymous_client_id (cp_order cp) = client"
    using key im by (simp_all add: creation_key_def immutable_matches_def)
  ultimately show ?thesis
    using wf' mem st old create_order_again [OF wf' mem key st im ff h p] by (intro conjI allI ballI impI) simp_all
qed

section \<open>From order to Premium\<close>

definition digest_ok :: "(bytes \<Rightarrow> bytes) \<Rightarrow> bool" where
  "digest_ok sha \<longleftrightarrow> (\<forall>v. length (sha v) = 32 \<and> list_all (\<lambda>b. b < 256) (sha v))"

lemma hex_digit_shape: "n < 16 \<Longrightarrow> digit_ascii (hex_digit n) \<or> 97 \<le> code (hex_digit n) \<and> code (hex_digit n) \<le> 102"
proof -
  have "\<forall>n \<in> set [0..<16]. digit_ascii (hex_digit n) \<or> 97 \<le> code (hex_digit n) \<and> code (hex_digit n) \<le> 102"
    by (simp add: upt_rec hex_digit_def digit_ascii_def)
  then show "n < 16 \<Longrightarrow> ?thesis" by simp
qed

lemma length_pairs: "length (concat (map (\<lambda>b. [f b, g b]) bs)) = 2 * length bs"
  by (induction bs) auto

lemma sha256_hex_shape:
  assumes "digest_ok sha"
  shows "hex_sha256_shape (sha256_hex sha v)"
proof -
  let ?bs = "sha (ascii v)"
  have bs: "length ?bs = 32" "\<And>b. b \<in> set ?bs \<Longrightarrow> b < 256" using assms by (auto simp: digest_ok_def list_all_iff)
  have "digit_ascii c \<or> 97 \<le> code c \<and> code c \<le> 102" if "c \<in> set (sha256_hex sha v)" for c
  proof -
    from that obtain b where b: "b \<in> set ?bs" "c = hex_digit (b div 16) \<or> c = hex_digit (b mod 16)"
      by (auto simp: sha256_hex_def)
    from bs(2) [OF b(1)] have "b div 16 < 16" "b mod 16 < 16" by simp_all
    with b(2) show ?thesis using hex_digit_shape [of "b div 16"] hex_digit_shape [of "b mod 16"] by blast
  qed
  moreover have "length (sha256_hex sha v) = 64" using bs(1) by (simp add: sha256_hex_def length_pairs)
  ultimately show ?thesis by (auto simp: hex_sha256_shape_def list_all_iff)
qed

lemma format_parse:
  "format_out_sum a = Inr raw \<Longrightarrow> a \<le> 9223372036854775807 \<Longrightarrow> parse_callback_out_sum raw = Inr a"
  using format_parse_core [of a] by (auto simp: format_out_sum_def split: if_split_asm)

lemma premium_opens:
  assumes "e \<in> set (entitlements d)" and "pe_anonymous_client_id e = client"
    and "pe_starts_at e \<le> t" and "t < pe_expires_at e"
  shows "pc_is_premium (fst (status_for_client t client d))"
proof -
  let ?q = "order_by (\<lambda>e. - pe_expires_at e) (filter (\<lambda>e. pe_anonymous_client_id e = client \<and>
      pe_starts_at e \<le> t \<and> t < pe_expires_at e) (entitlements d))"
  have "e \<in> set ?q" using assms by simp
  then obtain x xs where "?q = x # xs" by (cases ?q) auto
  then show ?thesis by (simp add: status_for_client_def Let_def get_active_for_client_def sql_limit_def
      capability_from_entitlement_def)
qed

text \<open>The service accepts the provider's signed answer to a pending order.\<close>

lemma pending_order_is_paid:
  assumes wf: "payments_wf d" and mem: "r \<in> set (orders d)" and st: "po_status r = PO_PENDING"
    and pr: "po_product_code r = PRODUCT_CODE" and mode: "rs_robokassa_mode s = ''test''" and sha: "digest_ok sha"
    and raw: "parse_callback_out_sum raw = Inr (po_amount_minor r)"
    and clk: "\<And>t. po_pending_at r = Some t \<Longrightarrow> t \<le> now"
    and fresh: "i \<notin> pe_id ` set (entitlements d)" "p \<notin> pe_public_id ` set (entitlements d)"
  obtains d' e where "accept_callback sha s i p raw (po_provider_invoice_id r)
       (sign_callback sha raw (po_provider_invoice_id r) (rs_robokassa_test_password2 s)) now pnow d d =
       Inr (\<lparr>cr_inv_id = po_provider_invoice_id r, cr_transitioned = True\<rparr>, d')"
    and "e \<in> set (entitlements d')" and "pe_anonymous_client_id e = po_anonymous_client_id r"
    and "pe_starts_at e = now" and "pe_expires_at e = now + seconds 86400"
proof -
  let ?n = "po_provider_invoice_id r" and ?r = "paid_row now r"
  have l: "lock_by_invoice_id ?n d = Some r"
    using row_by_Some_iff [OF payments_wfD(4) [OF wf]] mem by (simp add: lock_by_invoice_id_def)
  have ok: "order_ok r" by (rule payments_wfD(6) [OF wf mem])
  with st obtain t where t: "po_pending_at r = Some t" by (auto simp: order_ok_defs)
  with ok st clk have ok': "order_ok ?r" by (auto simp: order_ok_def order_lifecycle_ok_def paid_row_def)
  let ?d = "d\<lparr>orders := put_row po_id ?r (orders d)\<rparr>"
  have f: "po_flush ?r d = Inr ?d" using ok' by (simp add: po_flush_Inr)
  then have mark: "mark_paid r now d = Inr ((?r, True), ?d)"
    using st by (simp add: mark_paid_def assert_payment_transition_def)
  note fo = flush_order [OF wf mem paid_row_rel [OF st] f]
  have paid: "po_status ?r = PO_PAID" by (simp add: paid_row_def)
  have none: "get_by_source_payment_order_id (po_id ?r) ?d = None"
  proof -
    have "pe_source_payment_order_id e \<noteq> po_id r" if e: "e \<in> set (entitlements d)" for e
    proof
      assume a: "pe_source_payment_order_id e = po_id r"
      obtain q where q: "q \<in> set (orders d)" "po_status q = PO_PAID" "entitles q e"
        using wf e unfolding payments_wf_def by blast
      then have "po_id q = po_id r" using a by (simp add: entitles_def)
      with payments_wfD(3) [OF wf] q(1) mem have "q = r" by (simp add: distinct_map inj_on_def)
      with q(2) st show False by simp
    qed
    then have "po_id r \<notin> pe_source_payment_order_id ` set (entitlements d)" by (metis imageE)
    then show ?thesis by (simp add: get_by_source_None paid_row_def)
  qed
  have fr: "i \<notin> pe_id ` set (entitlements ?d)" "p \<notin> pe_public_id ` set (entitlements ?d)" using fresh by simp_all
  from ensure_creates [OF fo(3) payments_wfD(1) [OF fo(1)] paid none fr, of pnow] obtain e
    where e: "ensure_for_paid_order i p ?r pnow ?d =
        Inr ((e, True), ?d\<lparr>entitlements := entitlements ?d @ [e]\<rparr>)" "entitles ?r e" by blast
  let ?d' = "?d\<lparr>entitlements := entitlements ?d @ [e]\<rparr>"
  have sig: "signature_matches (sign_callback sha raw ?n pw) (sign_callback sha raw ?n pw)" for pw
    using sha256_hex_shape [OF sha] by (simp add: signature_matches_def sign_callback_def)
  have val: "validate_callback_snapshot r = Inr ()"
    using ok st pr by (simp add: validate_callback_snapshot_def order_ok_def)
  have "amount_is raw r = Inr ()" using raw by (simp add: amount_is_Inr)
  then have "accept_callback sha s i p raw ?n (sign_callback sha raw ?n (rs_robokassa_test_password2 s)) now pnow d d =
      Inr (\<lparr>cr_inv_id = ?n, cr_transitioned = True\<rparr>, ?d')"
    using l mode sig val mark e(1) paid
    by (simp add: accept_callback_def get_by_invoice_id_def lock_by_invoice_id_def require_test_mode_def)
  moreover have "e \<in> set (entitlements ?d')" by simp
  ultimately show thesis
    by (rule that) (use e(2) ok in \<open>simp_all add: entitles_def paid_row_def order_ok_def\<close>)
qed

lemma form_out_sum:
  assumes "form_fields sha s r = Inr flds"
  obtains raw where "format_out_sum (po_amount_minor r) = Inr raw" and "map_of flds ''OutSum'' = Some raw"
    and "po_product_code r = PRODUCT_CODE" and "rs_robokassa_mode s = ''test''"
  using assms by (auto simp: form_fields_def andThen_eq_Inr require_test_mode_def Let_def split: if_split_asm)

text \<open>C17. Paying works end to end: when an order was created and the provider confirms the sum of
  its form under its invoice with the shared secret, not before the order was made pending, the
  callback is accepted and the client is Premium from that moment for 24 hours.\<close>

theorem payment_opens_premium:
  assumes "payments_wf d"
    and "create_order sha s i p n client code' key now d = Inr (cp, d1)"
    and "digest_ok sha" and "rs_robokassa_test_amount_minor s \<le> 9223372036854775807"
    and "\<forall>t. po_pending_at (cp_order cp) = Some t \<longrightarrow> t \<le> now'"
    and "i' \<notin> pe_id ` set (entitlements d)" and "p' \<notin> pe_public_id ` set (entitlements d)"
  shows "\<exists>raw d2. map_of (cp_fields cp) ''OutSum'' = Some raw \<and>
     accept_callback sha s i' p' raw (po_provider_invoice_id (cp_order cp))
       (sign_callback sha raw (po_provider_invoice_id (cp_order cp)) (rs_robokassa_test_password2 s)) now' pnow d1 d1 =
       Inr (\<lparr>cr_inv_id = po_provider_invoice_id (cp_order cp), cr_transitioned = True\<rparr>, d2) \<and>
     (\<forall>t. now' \<le> t \<and> t < now' + seconds 86400 \<longrightarrow> pc_is_premium (fst (status_for_client t client d2)))"
proof -
  let ?r = "cp_order cp"
  from assms(1,2) obtain product receipt h where gp: "get_product s code' = Inr product"
    and "serialize_receipt product = Inr receipt" and wf': "payments_wf d1" and mem: "?r \<in> set (orders d1)" and key: "creation_key ?r = (client, h)"
    and st: "po_status ?r = PO_PENDING" and im: "immutable_matches ?r product (rr_json_text receipt)"
    and ff: "form_fields sha s ?r = Inr (cp_fields cp)" and ent: "entitlements d1 = entitlements d"
    by (rule create_order_Inr)
  obtain raw where raw: "format_out_sum (po_amount_minor ?r) = Inr raw" "map_of (cp_fields cp) ''OutSum'' = Some raw"
    "po_product_code ?r = PRODUCT_CODE" "rs_robokassa_mode s = ''test''"
    by (rule form_out_sum [OF ff])
  have "po_amount_minor ?r \<le> 9223372036854775807"
    using gp im assms(4) by (auto simp: get_product_def immutable_matches_def split: if_split_asm)
  with raw(1) have amount: "parse_callback_out_sum raw = Inr (po_amount_minor ?r)" by (rule format_parse)
  have clk: "t \<le> now'" if "po_pending_at ?r = Some t" for t using assms(5) that by blast
  from assms(6,7) ent have fresh: "i' \<notin> pe_id ` set (entitlements d1)" "p' \<notin> pe_public_id ` set (entitlements d1)"
    by simp_all
  obtain d2 e where acc: "accept_callback sha s i' p' raw (po_provider_invoice_id ?r)
       (sign_callback sha raw (po_provider_invoice_id ?r) (rs_robokassa_test_password2 s)) now' pnow d1 d1 =
       Inr (\<lparr>cr_inv_id = po_provider_invoice_id ?r, cr_transitioned = True\<rparr>, d2)"
    and e: "e \<in> set (entitlements d2)" "pe_anonymous_client_id e = po_anonymous_client_id ?r"
      "pe_starts_at e = now'" "pe_expires_at e = now' + seconds 86400"
    by (rule pending_order_is_paid [OF wf' mem st raw(3,4) assms(3) amount clk fresh])
  have "po_anonymous_client_id ?r = client" using key by (simp add: creation_key_def)
  with e have "pc_is_premium (fst (status_for_client t client d2))" if "now' \<le> t" "t < now' + seconds 86400" for t
    using premium_opens [OF e(1)] that by simp
  with acc raw(2) show ?thesis by blast
qed

section \<open>Runs\<close>

text \<open>
  \<open>payment_op\<close> has one constructor per operation that writes the two tables; a step is one of those or
  \<open>elsewhere\<close>, any other operation, which keeps the clients that orders refer to (the foreign
  key is RESTRICT).
\<close>

inductive payment_op :: "db \<Rightarrow> db \<Rightarrow> bool" where
  create: "create_payment_order sha s i p n cookie c key inow now d = Inr (cp, d') \<Longrightarrow> payment_op d d'"
| callback: "robokassa_result sha s i p pairs now pnow seen d = (resp, d') \<Longrightarrow> payment_op d d'"
| expire: "expire_unpaid now d = Inr (k, d') \<Longrightarrow> payment_op d d'"
| reconcile: "reconcile_paid_orders_without_entitlement fresh now d = Inr (rec, d') \<Longrightarrow> payment_op d d'"

inductive payment_step :: "db \<Rightarrow> db \<Rightarrow> bool" where
  writes: "payment_op d d' \<Longrightarrow> payment_step d d'"
| elsewhere: "orders d' = orders d \<Longrightarrow> entitlements d' = entitlements d \<Longrightarrow>
    \<forall>r \<in> set (orders d). po_anonymous_client_id r \<in> ac_id ` set (clients d') \<Longrightarrow>
    \<forall>e \<in> set (entitlements d). pe_anonymous_client_id e \<in> ac_id ` set (clients d') \<Longrightarrow> payment_step d d'"

text \<open>Every paid order has its entitlement.\<close>

definition all_entitled :: "db \<Rightarrow> bool" where
  "all_entitled d \<longleftrightarrow> (\<forall>r \<in> set (orders d). po_status r = PO_PAID \<longrightarrow> (\<exists>e \<in> set (entitlements d). entitles r e))"

definition payments_advance :: "db \<Rightarrow> db \<Rightarrow> bool" where
  "payments_advance d d' \<longleftrightarrow> payments_wf d' \<and> (\<forall>r \<in> set (orders d). \<exists>r' \<in> set (orders d'). po_rel r r') \<and>
     set (entitlements d) \<subseteq> set (entitlements d') \<and> (all_entitled d \<longrightarrow> all_entitled d')"

lemma payments_advance_trans:
  "payments_advance a b \<Longrightarrow> payments_advance b c \<Longrightarrow> payments_advance a c"
  unfolding payments_advance_def by (meson po_rel_trans subset_trans)

lemma list_all2_ex: "list_all2 R xs ys \<Longrightarrow> x \<in> set xs \<Longrightarrow> \<exists>y \<in> set ys. R x y"
  by (metis in_set_conv_nth list_all2_conv_all_nth)

lemma list_all2_ex': "list_all2 R xs ys \<Longrightarrow> y \<in> set ys \<Longrightarrow> \<exists>x \<in> set xs. R x y"
  by (metis in_set_conv_nth list_all2_conv_all_nth)

lemma create_advances:
  assumes "payments_wf d" and "create_order sha s i p n client c key now d = Inr (cp, d')"
  shows "payments_advance d d'"
proof -
  from assms obtain product receipt h where "serialize_receipt product = Inr receipt"
    and "hash_idempotency_key sha key = Inr h" and "payments_wf d'" and "entitlements d' = entitlements d"
    and "\<forall>r \<in> set (orders d). \<exists>r' \<in> set (orders d'). po_rel r r'"
    and "\<forall>r' \<in> set (orders d'). po_status r' = PO_PAID \<longrightarrow> r' \<in> set (orders d)"
    by (rule create_order_Inr)
  then show ?thesis by (simp add: payments_advance_def all_entitled_def)
qed

lemma callback_advances:
  assumes "payments_wf d"
    and "accept_callback sha s i p raw inv_id sig now pnow seen d = Inr (res, d')"
  shows "payments_advance d d'"
proof -
  obtain r r' e where
    l: "lock_by_invoice_id inv_id d' = Some r'" and rel: "po_rel r r'" and ent: "entitles r' e"
    and f: "filter (\<lambda>x. pe_source_payment_order_id x = po_id r') (entitlements d') = [e]"
    and wf: "payments_wf d'" and l2: "list_all2 po_rel (orders d) (orders d')"
    and sub: "set (entitlements d) \<subseteq> set (entitlements d')"
    and others: "\<forall>x \<in> set (orders d'). po_provider_invoice_id x \<noteq> inv_id \<longrightarrow> x \<in> set (orders d)"
    by (rule callback_effect [OF assms])
  have r': "r' \<in> set (orders d')" "po_provider_invoice_id r' = inv_id"
    using row_by_SomeD [OF l [unfolded lock_by_invoice_id_def]] by auto
  have "e \<in> set (filter (\<lambda>x. pe_source_payment_order_id x = po_id r') (entitlements d'))" by (simp add: f)
  then have e: "e \<in> set (entitlements d')" by simp
  have "all_entitled d'" if "all_entitled d"
    unfolding all_entitled_def
  proof (intro ballI impI)
    fix x assume x: "x \<in> set (orders d')" "po_status x = PO_PAID"
    show "\<exists>e \<in> set (entitlements d'). entitles x e"
    proof (cases "po_provider_invoice_id x = inv_id")
      case True
      with x(1) r' payments_wfD(4) [OF wf] have "x = r'" by (simp add: distinct_map inj_on_def)
      with e ent show ?thesis by blast
    next
      case False
      with others x(1) have "x \<in> set (orders d)" by blast
      with that x(2) sub show ?thesis unfolding all_entitled_def by blast
    qed
  qed
  with wf sub list_all2_ex [OF l2] show ?thesis by (simp add: payments_advance_def)
qed

lemma expire_advances:
  assumes "payments_wf d" and "expire_unpaid now d = Inr (k, d')"
  shows "payments_advance d d'"
proof -
  let ?P = "\<lambda>r. po_status r \<in> {PO_CREATED, PO_PENDING} \<and> po_expires_at r \<le> now"
  let ?f = "\<lambda>r. r\<lparr>po_status := PO_EXPIRED, po_updated_at := now\<rparr>"
  from assms(2) obtain rows n where u: "update_where order_ok (IntegrityError ''payment_orders'') ?P ?f (orders d) = Inr (rows, n)"
    and d': "d' = d\<lparr>orders := rows\<rparr>"
    by (auto simp: expire_unpaid_def andThen_eq_Inr)
  then have rows: "rows = map (\<lambda>r. if ?P r then ?f r else r) (orders d)"
    and ok: "\<forall>r \<in> set (orders d). ?P r \<longrightarrow> order_ok (?f r)"
    by (auto simp: update_where_def split: if_split_asm)
  have rel: "list_all2 po_rel (orders d) rows"
    unfolding rows by (auto simp: list_all2_conv_all_nth po_rel_def same_purchase_def)
  have "payments_wf d'"
    unfolding d' by (rule rewrite_orders [OF assms(1) rel]) (use ok payments_wfD(6) [OF assms(1)] in \<open>auto simp: rows\<close>)
  moreover have "r \<in> set (orders d)" if "r \<in> set rows" "po_status r = PO_PAID" for r
    using that by (auto simp: rows split: if_split_asm)
  ultimately show ?thesis using list_all2_ex [OF rel] by (simp add: payments_advance_def all_entitled_def d')
qed

lemma reconcile_advances:
  assumes "payments_wf d" and "reconcile_paid_orders_without_entitlement fresh now d = Inr (rec, d')"
  shows "payments_advance d d'"
proof -
  let ?P = "\<lambda>(_, _, x). payments_wf x \<and> orders x = orders d \<and> set (entitlements d) \<subseteq> set (entitlements x)"
  obtain c r where f: "fold_res (reconcile_one fresh now) (paid_without_entitlement d) (0, 0, d) = Inr (c, r, d')"
    using assms(2) by (auto simp: reconcile_paid_orders_without_entitlement_def Let_def andThen_eq_Inr)
  have "?P (c, r, d')"
  proof (rule fold_res_invariant [where P = ?P, OF f])
    fix x s t assume x: "x \<in> set (paid_without_entitlement d)" and s: "?P s" and t: "reconcile_one fresh now x s = Inr t"
    obtain a b y where y: "s = (a, b, y)" by (cases s)
    with t obtain e was z where z: "ensure_for_paid_order (fst (fresh (po_id x))) (snd (fresh (po_id x))) x now y =
        Inr ((e, was), z)" and tz: "snd (snd t) = z"
      by (auto simp: andThen_eq_Inr split: if_split_asm)
    from s y have sy: "payments_wf y" "orders y = orders d" "set (entitlements d) \<subseteq> set (entitlements y)" by auto
    have "x \<in> set (orders y)" "po_status x = PO_PAID" using x sy(2) by (simp_all add: paid_without_entitlement_set)
    note en = ensure_paid [OF sy(1) this z]
    have "orders z = orders y" using arg_cong [OF en(2), of orders] by simp
    with en(1,5) sy have "?P (fst t, fst (snd t), z)" by auto
    with tz show "?P t" by (simp add: case_prod_unfold)
  qed (simp add: assms(1))
  then have "payments_wf d'" "orders d' = orders d" "set (entitlements d) \<subseteq> set (entitlements d')" by auto
  then show ?thesis unfolding payments_advance_def all_entitled_def by (simp, blast intro: po_rel_refl)
qed

lemma elsewhere_advances:
  assumes "payments_wf d" and "orders d' = orders d" and "entitlements d' = entitlements d"
    and "\<forall>r \<in> set (orders d). po_anonymous_client_id r \<in> ac_id ` set (clients d')"
    and "\<forall>e \<in> set (entitlements d). pe_anonymous_client_id e \<in> ac_id ` set (clients d')"
  shows "payments_advance d d'"
  using assms by (auto simp: payments_advance_def payments_wf_def orders_wf_def entitlements_wf_def all_entitled_def
      intro: po_rel_refl)

lemma payments_advance_refl: "payments_wf d \<Longrightarrow> payments_advance d d"
  by (auto simp: payments_advance_def intro: po_rel_refl)

lemma create_endpoint_advances:
  "payments_wf d \<Longrightarrow> create_payment_order sha s i p n cookie c key inow now d = Inr (cp, d') \<Longrightarrow> payments_advance d d'"
  by (auto simp: create_payment_order_def andThen_eq_Inr intro: create_advances)

lemma result_endpoint_advances:
  "payments_wf d \<Longrightarrow> robokassa_result sha s i p pairs now pnow seen d = (resp, d') \<Longrightarrow> payments_advance d d'"
  by (auto simp: robokassa_result_def andThen_eq_Inr intro: callback_advances payments_advance_refl
      split: sum.split_asm if_split_asm)

lemmas op_advances = create_endpoint_advances result_endpoint_advances expire_advances reconcile_advances

lemma payment_step_advances: "payment_step d d' \<Longrightarrow> payments_wf d \<Longrightarrow> payments_advance d d'"
  by (induction rule: payment_step.induct) (auto elim!: payment_op.cases intro: op_advances elsewhere_advances)

lemma payment_run_advances:
  assumes "payment_step\<^sup>*\<^sup>* d d'" and "payments_wf d"
  shows "payments_advance d d'"
  using assms
proof (induction rule: rtranclp_induct)
  case base
  then show ?case by (rule payments_advance_refl)
next
  case (step y z)
  then have "payments_advance d y" by blast
  moreover have "payments_advance y z"
    using payment_step_advances [OF step.hyps(2)] \<open>payments_advance d y\<close> by (simp add: payments_advance_def)
  ultimately show ?case by (rule payments_advance_trans)
qed

text \<open>Orders live by their state machine: over any interleaving of orders, callbacks, expiry,
  reconciliation and other work every order stays stored with its purchase unchanged, moves only
  along the transition table and never changes again once paid; entitlements are never lost, each
  belongs to a paid order, and when every paid order had its entitlement, every one still has.\<close>

theorem payments_follow_lifecycle:
  assumes "payment_step\<^sup>*\<^sup>* d d'" and "payments_wf d" and "r \<in> set (orders d)"
  shows "\<exists>r' \<in> set (orders d'). same_purchase r r' \<and> order_ok r' \<and>
     (\<lambda>a b. assert_payment_transition a b = Inr ())\<^sup>*\<^sup>* (po_status r) (po_status r') \<and>
     (po_status r = PO_PAID \<longrightarrow> r' = r) \<and> set (entitlements d) \<subseteq> set (entitlements d') \<and>
     (\<forall>e \<in> set (entitlements d'). \<exists>x \<in> set (orders d'). po_status x = PO_PAID \<and> entitles x e) \<and>
     (all_entitled d \<longrightarrow> all_entitled d')"
proof -
  note adv = payment_run_advances [OF assms(1,2)]
  then obtain r' where r': "r' \<in> set (orders d')" "po_rel r r'"
    using assms(3) unfolding payments_advance_def by blast
  have wf: "payments_wf d'" using adv by (simp add: payments_advance_def)
  show ?thesis
  proof (rule bexI [OF _ r'(1)], intro conjI)
    show "same_purchase r r'" "po_status r = PO_PAID \<longrightarrow> r' = r" using r'(2) by (simp_all add: po_rel_def)
    show "order_ok r'" by (rule payments_wfD(6) [OF wf r'(1)])
    show "(\<lambda>a b. assert_payment_transition a b = Inr ())\<^sup>*\<^sup>* (po_status r) (po_status r')"
      using r'(2) by (intro po_reach_moves) (simp add: po_rel_def)
    show "set (entitlements d) \<subseteq> set (entitlements d')" "all_entitled d \<longrightarrow> all_entitled d'"
      using adv by (simp_all add: payments_advance_def)
    show "\<forall>e \<in> set (entitlements d'). \<exists>x \<in> set (orders d'). po_status x = PO_PAID \<and> entitles x e"
      using wf by (simp add: payments_wf_def)
  qed
qed

section \<open>A sample payment\<close>

definition sample_robokassa :: RobokassaSettings where
  "sample_robokassa = \<lparr>rs_robokassa_mode = ''test'', rs_robokassa_merchant_login = ''shop'',
     rs_robokassa_test_password1 = ''p1'', rs_robokassa_test_password2 = ''p2'',
     rs_robokassa_test_amount_minor = 9900, rs_robokassa_receipt_tax = ''none'',
     rs_robokassa_receipt_payment_method = ''full_payment'', rs_robokassa_order_ttl_seconds = 3600,
     rs_premium_test_checkout_visible = True\<rparr>"

text \<open>A digest of 32 octets.\<close>

definition sample_digest :: "bytes \<Rightarrow> bytes" where
  "sample_digest v = replicate 32 (length v mod 256)"

lemma sample_digest_ok: "digest_ok sample_digest"
  by (simp add: digest_ok_def sample_digest_def list_all_iff)

definition sample_shop :: db where
  "sample_shop = empty_db\<lparr>clients := [sample_client]\<rparr>"

lemma sample_shop_wf: "payments_wf sample_shop"
  by (simp add: payments_wf_def orders_wf_def entitlements_wf_def sample_shop_def empty_db_def)

definition sample_key :: string where
  "sample_key = ''abcdefghijklmnopqrstuv''"

definition sample_receipt :: string where
  "sample_receipt = (case andThen (get_product sample_robokassa PRODUCT_CODE) serialize_receipt of
     Inr r \<Rightarrow> rr_json_text r | Inl _ \<Rightarrow> [])"

lemma sample_product:
  "get_product sample_robokassa PRODUCT_CODE = Inr \<lparr>pp_code = PRODUCT_CODE, pp_amount_minor = 9900,
     pp_currency = ''RUB'', pp_entitlement_duration_seconds = 86400, pp_receipt_name = PRODUCT_DESCRIPTION,
     pp_receipt_tax = ''none'', pp_receipt_payment_method = ''full_payment'', pp_receipt_payment_object = ''service''\<rparr>"
  by (simp add: get_product_def sample_robokassa_def)

lemma char_length_append: "char_length (a @ b) = char_length a + char_length b"
  by (simp add: char_length_def)

lemma char_length_Cons: "char_length (c # s) = (if code c div 64 \<noteq> 2 then 1 else 0) + char_length s"
  by (simp add: char_length_def)

lemma char_length_le: "char_length s \<le> length s"
  by (simp add: char_length_def)

lemma json_string_length: "length (json_string s) \<le> 2 + 6 * length s"
  by (induction s) (auto simp: json_string_def json_char_def)

text \<open>Receipts of ordinary settings fit the column.\<close>

lemma receipt_length:
  assumes "serialize_receipt product = Inr r" and "length (pp_receipt_name product) \<le> 100"
    and "length (pp_receipt_tax product) \<le> 20" and "length (pp_receipt_payment_method product) \<le> 20"
    and "pp_amount_minor product \<le> 9223372036854775807"
  shows "2 \<le> char_length (rr_json_text r)" "char_length (rr_json_text r) \<le> 4096"
proof -
  from assms(1) obtain out_sum where o: "format_out_sum (pp_amount_minor product) = Inr out_sum"
    and obj: "pp_receipt_payment_object product = ''service''"
    by (auto simp: serialize_receipt_def andThen_eq_Inr split: if_split_asm)
  have "length out_sum \<le> 64"
    using format_parse [OF o assms(5)] by (simp add: parse_callback_out_sum_def split: if_split_asm)
  with assms o obj show "char_length (rr_json_text r) \<le> 4096"
    using json_string_length [of "pp_receipt_name product"] json_string_length [of "pp_receipt_tax product"]
      json_string_length [of "pp_receipt_payment_method product"] json_string_length [of "''service''"]
      json_string_length [of "''items''"] json_string_length [of "''name''"] json_string_length [of "''quantity''"]
      json_string_length [of "''sum''"] json_string_length [of "''payment_method''"]
      json_string_length [of "''payment_object''"] json_string_length [of "''tax''"]
    by (intro order_trans [OF char_length_le]) (auto simp: serialize_receipt_def json_key_def Let_def split: if_split_asm)
  have "char_length ''}]}'' = 3" by (simp add: char_length_def)
  with assms(1) o obj show "2 \<le> char_length (rr_json_text r)"
    by (auto simp: serialize_receipt_def Let_def char_length_append char_length_Cons split: if_split_asm)
qed

definition sample_order :: payment_order where
  "sample_order = pending_row 10 (new_order 5 6 1 1 (sample_digest (IDEMPOTENCY_DOMAIN @ ascii sample_key))
     (case get_product sample_robokassa PRODUCT_CODE of Inr p \<Rightarrow> p) sample_receipt 10 3600)"

lemma sample_create:
  "\<exists>flds. create_order sample_digest sample_robokassa 5 6 1 1 PRODUCT_CODE sample_key 10 sample_shop =
     Inr (\<lparr>cp_order = sample_order, cp_fields = flds, cp_created = True\<rparr>, sample_shop\<lparr>orders := [sample_order]\<rparr>)"
proof -
  obtain product where product: "get_product sample_robokassa PRODUCT_CODE = Inr product"
    and pf: "pp_code product = PRODUCT_CODE" "pp_amount_minor product = 9900" "pp_currency product = ''RUB''"
      "pp_entitlement_duration_seconds product = 86400" "length (pp_receipt_name product) \<le> 100"
      "length (pp_receipt_tax product) \<le> 20" "length (pp_receipt_payment_method product) \<le> 20"
      "pp_receipt_payment_object product = ''service''"
    using sample_product by (simp add: PRODUCT_DESCRIPTION_def)
  obtain receipt where receipt: "serialize_receipt product = Inr receipt"
    using pf by (simp add: serialize_receipt_def format_out_sum_def Let_def)
  then have rj: "sample_receipt = rr_json_text receipt" by (simp add: sample_receipt_def product)
  have len: "2 \<le> char_length sample_receipt" "char_length sample_receipt \<le> 4096"
    using receipt_length [OF receipt pf(5-7)] pf(2) by (simp_all add: rj)
  let ?h = "sample_digest (IDEMPOTENCY_DOMAIN @ ascii sample_key)"
  have h: "hash_idempotency_key sample_digest sample_key = Inr ?h" "length ?h = 32"
    by (simp_all add: hash_idempotency_key_def idempotency_key_ok_def sample_key_def upper_ascii_def sample_digest_def)
  let ?r = "new_order 5 6 1 1 ?h product sample_receipt 10 3600"
  have so: "sample_order = pending_row 10 ?r" by (simp add: sample_order_def product)
  have ok: "order_ok ?r" "order_ok sample_order" and id: "po_id ?r = 5" "po_id sample_order = 5"
      "po_anonymous_client_id ?r = ac_id sample_client"
    using pf len h(2)
    by (simp_all add: so new_order_def pending_row_def order_ok_def order_lifecycle_ok_def seconds_def sample_client_def)
  have shop: "orders sample_shop = []" "clients sample_shop = [sample_client]"
    by (simp_all add: sample_shop_def empty_db_def)
  have "po_insert ?r sample_shop = Inr (sample_shop\<lparr>orders := [?r]\<rparr>)"
    using ok(1) id(3) by (simp add: po_insert_def shop del: One_nat_def)
  then have "create_or_get 5 6 1 1 ?h product sample_receipt 10 3600 sample_shop =
      Inr ((?r, True), sample_shop\<lparr>orders := [?r]\<rparr>)"
    using h(2) by (simp add: create_or_get_def Let_def del: One_nat_def)
  moreover have "po_flush sample_order (sample_shop\<lparr>orders := [?r]\<rparr>) = Inr (sample_shop\<lparr>orders := [sample_order]\<rparr>)"
    using ok(2) id by (simp add: po_flush_Inr put_row_def del: One_nat_def)
  then have "mark_pending ?r 10 (sample_shop\<lparr>orders := [?r]\<rparr>) = Inr (sample_order, sample_shop\<lparr>orders := [sample_order]\<rparr>)"
    by (simp add: mark_pending_created so del: One_nat_def)
  moreover have "\<exists>flds. form_fields sample_digest sample_robokassa sample_order = Inr flds"
    using pf by (simp add: form_fields_def require_test_mode_def sample_robokassa_def so new_order_def pending_row_def
        format_out_sum_def Let_def)
  moreover have "ensure_checkout_available sample_robokassa = Inr ()" "rs_robokassa_order_ttl_seconds sample_robokassa = 3600"
    by (simp_all add: ensure_checkout_available_def test_checkout_available_def sample_robokassa_def)
  ultimately show ?thesis
    using product receipt h(1) rj by (auto simp: create_order_def)
qed

theorem create_order_idempotent_witness:
  "\<exists>cp d'. create_order sample_digest sample_robokassa 5 6 1 1 PRODUCT_CODE sample_key 10 sample_shop = Inr (cp, d') \<and>
     create_order sample_digest sample_robokassa 7 8 2 1 PRODUCT_CODE sample_key 20 d' = Inr (cp\<lparr>cp_created := False\<rparr>, d')"
proof -
  obtain flds where c: "create_order sample_digest sample_robokassa 5 6 1 1 PRODUCT_CODE sample_key 10 sample_shop =
     Inr (\<lparr>cp_order = sample_order, cp_fields = flds, cp_created = True\<rparr>, sample_shop\<lparr>orders := [sample_order]\<rparr>)"
    using sample_create by blast
  from create_order_idempotent [OF sample_shop_wf c]
  have "create_order sample_digest sample_robokassa 7 8 2 1 PRODUCT_CODE sample_key 20 (sample_shop\<lparr>orders := [sample_order]\<rparr>) =
      Inr (\<lparr>cp_order = sample_order, cp_fields = flds, cp_created = True\<rparr>\<lparr>cp_created := False\<rparr>,
        sample_shop\<lparr>orders := [sample_order]\<rparr>)" by simp
  with c show ?thesis by blast
qed

lemma sample_order_facts: "po_pending_at sample_order = Some 10" "entitlements sample_shop = []"
  by (simp_all add: sample_order_def pending_row_def sample_shop_def empty_db_def)

theorem payment_opens_premium_witness:
  "\<exists>raw d2. accept_callback sample_digest sample_robokassa 7 8 raw (po_provider_invoice_id sample_order)
       (sign_callback sample_digest raw (po_provider_invoice_id sample_order) (rs_robokassa_test_password2 sample_robokassa))
       20 20 (sample_shop\<lparr>orders := [sample_order]\<rparr>) (sample_shop\<lparr>orders := [sample_order]\<rparr>) =
       Inr (\<lparr>cr_inv_id = po_provider_invoice_id sample_order, cr_transitioned = True\<rparr>, d2) \<and>
     pc_is_premium (fst (status_for_client 20 1 d2))"
proof -
  obtain flds where c: "create_order sample_digest sample_robokassa 5 6 1 1 PRODUCT_CODE sample_key 10 sample_shop =
     Inr (\<lparr>cp_order = sample_order, cp_fields = flds, cp_created = True\<rparr>, sample_shop\<lparr>orders := [sample_order]\<rparr>)"
    using sample_create by blast
  have p: "rs_robokassa_test_amount_minor sample_robokassa \<le> 9223372036854775807" by (simp add: sample_robokassa_def)
  from payment_opens_premium [OF sample_shop_wf c sample_digest_ok p, of 20 7 8 20]
  have *: "\<exists>raw d2. accept_callback sample_digest sample_robokassa 7 8 raw (po_provider_invoice_id sample_order)
       (sign_callback sample_digest raw (po_provider_invoice_id sample_order) (rs_robokassa_test_password2 sample_robokassa))
       20 20 (sample_shop\<lparr>orders := [sample_order]\<rparr>) (sample_shop\<lparr>orders := [sample_order]\<rparr>) =
       Inr (\<lparr>cr_inv_id = po_provider_invoice_id sample_order, cr_transitioned = True\<rparr>, d2) \<and>
     (\<forall>t. 20 \<le> t \<and> t < 20 + seconds 86400 \<longrightarrow> pc_is_premium (fst (status_for_client t 1 d2)))"
    by (auto simp: sample_order_facts)
  have "(20::int) \<le> 20 \<and> 20 < 20 + seconds 86400" by (simp add: seconds_def)
  with * show ?thesis by blast
qed

lemma sample_order_wf: "payments_wf (sample_shop\<lparr>orders := [sample_order]\<rparr>)"
proof -
  obtain flds where c: "create_order sample_digest sample_robokassa 5 6 1 1 PRODUCT_CODE sample_key 10 sample_shop =
     Inr (\<lparr>cp_order = sample_order, cp_fields = flds, cp_created = True\<rparr>, sample_shop\<lparr>orders := [sample_order]\<rparr>)"
    using sample_create by blast
  have "payments_advance sample_shop (sample_shop\<lparr>orders := [sample_order]\<rparr>)" by (rule create_advances [OF sample_shop_wf c])
  then show ?thesis by (simp add: payments_advance_def)
qed

theorem payments_follow_lifecycle_witness:
  "\<exists>d' r'. payment_step\<^sup>*\<^sup>* (sample_shop\<lparr>orders := [sample_order]\<rparr>) d' \<and> r' \<in> set (orders d') \<and>
     same_purchase sample_order r' \<and> po_status r' = PO_EXPIRED"
proof -
  let ?d = "sample_shop\<lparr>orders := [sample_order]\<rparr>" and ?t = "10 + seconds 3600"
  let ?r = "sample_order\<lparr>po_status := PO_EXPIRED, po_updated_at := ?t\<rparr>"
  have st: "po_status sample_order = PO_PENDING" "po_expires_at sample_order = ?t"
    by (simp_all add: sample_order_def pending_row_def new_order_def)
  have "order_ok sample_order" using payments_wfD(6) [OF sample_order_wf] by simp
  then have "order_ok ?r" using st by (auto simp: order_ok_def order_lifecycle_ok_def)
  then have "expire_unpaid ?t ?d = Inr (1, ?d\<lparr>orders := [?r]\<rparr>)"
    using st by (simp add: expire_unpaid_def update_where_def)
  then have run: "payment_step\<^sup>*\<^sup>* ?d (?d\<lparr>orders := [?r]\<rparr>)"
    by (intro r_into_rtranclp payment_step.writes payment_op.expire)
  from payments_follow_lifecycle [OF run sample_order_wf, of sample_order]
  have "same_purchase sample_order ?r" by simp
  with run show ?thesis by (intro exI [of _ "?d\<lparr>orders := [?r]\<rparr>"] exI [of _ ?r]) simp
qed

theorem callback_settles_once_witness:
  "\<exists>raw d' r' e. lock_by_invoice_id (po_provider_invoice_id sample_order) d' = Some r' \<and> po_status r' = PO_PAID \<and>
     entitles r' e \<and> parse_callback_out_sum raw = Inr (po_amount_minor sample_order)"
proof -
  obtain flds where c: "create_order sample_digest sample_robokassa 5 6 1 1 PRODUCT_CODE sample_key 10 sample_shop =
     Inr (\<lparr>cp_order = sample_order, cp_fields = flds, cp_created = True\<rparr>, sample_shop\<lparr>orders := [sample_order]\<rparr>)"
    using sample_create by blast
  let ?d = "sample_shop\<lparr>orders := [sample_order]\<rparr>"
  obtain product receipt h where "serialize_receipt product = Inr receipt"
    and "hash_idempotency_key sample_digest sample_key = Inr h" and wf: "payments_wf ?d"
    and st: "po_status (cp_order \<lparr>cp_order = sample_order, cp_fields = flds, cp_created = True\<rparr>) = PO_PENDING"
    and ff: "form_fields sample_digest sample_robokassa
        (cp_order \<lparr>cp_order = sample_order, cp_fields = flds, cp_created = True\<rparr>) =
        Inr (cp_fields \<lparr>cp_order = sample_order, cp_fields = flds, cp_created = True\<rparr>)"
    by (rule create_order_Inr [OF sample_shop_wf c])
  obtain raw where raw: "format_out_sum (po_amount_minor sample_order) = Inr raw"
    "po_product_code sample_order = PRODUCT_CODE" "rs_robokassa_mode sample_robokassa = ''test''"
    using form_out_sum [OF ff] by auto
  have "po_amount_minor sample_order = 9900"
    by (simp add: sample_order_def pending_row_def new_order_def sample_product)
  then have amount: "parse_callback_out_sum raw = Inr (po_amount_minor sample_order)"
    using format_parse [OF raw(1)] by simp
  have mem: "sample_order \<in> set (orders ?d)" and ent: "entitlements ?d = []" by (simp_all add: sample_order_facts)
  obtain d' where acc: "accept_callback sample_digest sample_robokassa 7 8 raw (po_provider_invoice_id sample_order)
       (sign_callback sample_digest raw (po_provider_invoice_id sample_order) (rs_robokassa_test_password2 sample_robokassa))
       20 20 ?d ?d = Inr (\<lparr>cr_inv_id = po_provider_invoice_id sample_order, cr_transitioned = True\<rparr>, d')"
    by (rule pending_order_is_paid [OF wf mem _ raw(2,3) sample_digest_ok amount, of 20 7 8 20])
       (use st ent in \<open>simp_all add: sample_order_facts\<close>)
  from callback_settles_once [OF wf acc] amount show ?thesis by blast
qed

end
