(* ===== verification/Selection.thy ===== *)
theory Selection
  imports Media_Projection
begin

text \<open>
  The way back from a chosen option to the stream that is downloaded (\<open>downloads/selection.py\<close>,
  \<open>downloads/format_token.py\<close>): the worker inspects the page again and accepts a stream only if it is
  exactly the one that was offered.
\<close>

section \<open>Provider tokens\<close>

definition token_char :: "char \<Rightarrow> bool" where
  "token_char c \<longleftrightarrow> ascii_alnum c \<or> c \<in> {CHR ''.'', CHR ''_'', CHR '':'', CHR ''-''}"

definition forbidden_char :: "char \<Rightarrow> bool" where
  "forbidden_char c \<longleftrightarrow>
     c \<in> set ''+/,[]()|{} '' \<or> c \<in> {CHR 0x09, CHR 0x0D, CHR 0x0A, CHR 0x0B, CHR 0x0C}"

text \<open>\<open>validate_provider_format_token\<close>; casefolding an ASCII token lowers it.\<close>

definition validate_provider_format_token :: "string \<Rightarrow> string res" where
  "validate_provider_format_token token =
     (if token = [] \<or> hd token = CHR ''-'' then Inl (ValueError ''provider format token invalid'')
      else if list_ex (\<lambda>c. code c < 32 \<or> code c = 127) token then Inl (ValueError ''provider format token invalid'')
      else if list_ex forbidden_char token then Inl (ValueError ''provider format token invalid'')
      else if \<not> (length token \<le> 64 \<and> list_all token_char token)
      then Inl (ValueError ''provider format token invalid'')
      else if lower token \<in> {''best'', ''worst'', ''bestvideo'', ''bestaudio'', ''worstvideo'', ''worstaudio''}
      then Inl (ValueError ''provider format token reserved'')
      else Inr token)"

definition validate_token :: "string option \<Rightarrow> string res" where
  "validate_token raw =
     (case raw of
        None \<Rightarrow> Inl (unavailable ''TOKEN_MISSING'')
      | Some t \<Rightarrow>
          if strip t = [] then Inl (unavailable ''TOKEN_MISSING'')
          else (case validate_provider_format_token t of
                  Inl _ \<Rightarrow> Inl (unavailable ''TOKEN_INVALID'')
                | Inr v \<Rightarrow> Inr v))"

section \<open>Selections\<close>

record ResolvedDownloadSelection =
  rs_format_option_id :: string
  rs_container :: string
  rs_width :: "int option"
  rs_height :: "int option"
  rs_fps :: "rat option"
  rs_has_video :: bool
  rs_has_audio :: bool
  rs_category :: FormatCategory
  rs_quality_label :: string
  rs_free_tier_eligible :: bool
  rs_approx_bytes :: "int option"
  rs_provider_format_token :: string
  rs_media_kind :: MediaKind
  rs_bitrate_kbps :: "int option"

record MuxedDownloadSelection =
  ms_format_option_id :: string
  ms_container :: string
  ms_width :: "int option"
  ms_height :: "int option"
  ms_fps :: "rat option"
  ms_has_video :: bool
  ms_has_audio :: bool
  ms_category :: FormatCategory
  ms_quality_label :: string
  ms_free_tier_eligible :: bool
  ms_approx_bytes :: "int option"
  ms_video_approx_bytes :: "int option"
  ms_audio_approx_bytes :: "int option"
  ms_expected_duration_seconds :: "rat option"
  ms_video_format_token :: string
  ms_audio_format_token :: string

datatype DownloadSelection =
    DirectDownloadSelection ResolvedDownloadSelection
  | MuxedSelection MuxedDownloadSelection

section \<open>Matching\<close>

definition free_tier_eligible :: "InternalFormatCandidate \<Rightarrow> bool" where
  "free_tier_eligible c \<longleftrightarrow> category_for (ic_has_video c) (ic_has_audio c) = PROGRESSIVE \<and> ic_height c \<noteq> None"

fun kind_of_category :: "FormatCategory \<Rightarrow> MediaKind" where
  "kind_of_category PROGRESSIVE = NORMAL_VIDEO"
| "kind_of_category CAT_VIDEO_ONLY = KIND_VIDEO_ONLY"
| "kind_of_category CAT_AUDIO_ONLY = KIND_AUDIO_ONLY"

definition props_match :: "InternalFormatCandidate \<Rightarrow> MediaFormat \<Rightarrow> bool" where
  "props_match c f \<longleftrightarrow>
     (let category = category_for (ic_has_video c) (ic_has_audio c); kind = kind_of_category category
      in ic_container c = mf_container f \<and> ic_width c = mf_width f \<and> ic_height c = mf_height f \<and>
         ic_fps c = mf_fps f \<and> ic_has_video c = mf_has_video f \<and> ic_has_audio c = mf_has_audio f \<and>
         category = mf_category f \<and> ic_video_codec c = mf_video_codec f \<and>
         ic_audio_codec c = mf_audio_codec f \<and> ic_approx_bytes c = mf_approx_bytes f \<and>
         quality_label_for (ic_height c) (ic_has_video c) = mf_quality_label f \<and>
         kind = mf_media_kind f \<and> mf_requires_premium f = (kind \<noteq> NORMAL_VIDEO) \<and>
         ic_bitrate_kbps c = mf_bitrate_kbps f \<and> free_tier_eligible c = mf_free_tier_eligible f)"

definition binding_equivalent :: "InternalFormatCandidate \<Rightarrow> InternalFormatCandidate \<Rightarrow> bool" where
  "binding_equivalent l r \<longleftrightarrow>
     ic_token l = ic_token r \<and> ic_container l = ic_container r \<and> ic_width l = ic_width r \<and>
     ic_height l = ic_height r \<and> ic_fps l = ic_fps r \<and> ic_has_video l = ic_has_video r \<and>
     ic_has_audio l = ic_has_audio r \<and> ic_video_codec l = ic_video_codec r \<and>
     ic_audio_codec l = ic_audio_codec r \<and> ic_bitrate_kbps l = ic_bitrate_kbps r \<and>
     ic_approx_bytes l = ic_approx_bytes r"

text \<open>\<open>value or -1\<close>: zero is falsy.\<close>

definition or_minus_one :: "int option \<Rightarrow> int" where
  "or_minus_one v = (case v of None \<Rightarrow> -1 | Some n \<Rightarrow> if n = 0 then -1 else n)"

definition selection_sort_key ::
  "string \<times> InternalFormatCandidate \<Rightarrow> string \<times> string \<times> string \<times> int \<times> int \<times> int \<times> string" where
  "selection_sort_key item =
     (case item of (option_id, c) \<Rightarrow>
        (option_id, ic_container c, (case ic_token c of None \<Rightarrow> [] | Some t \<Rightarrow> t),
         or_minus_one (ic_height c), or_minus_one (ic_width c), or_minus_one (ic_bitrate_kbps c),
         str_opt (ic_approx_bytes c)))"

definition kind_matches :: "MediaKind \<Rightarrow> InternalFormatCandidate \<Rightarrow> bool" where
  "kind_matches kind c \<longleftrightarrow>
     (kind = NORMAL_VIDEO \<longrightarrow> ic_has_video c \<and> ic_has_audio c) \<and>
     (kind = KIND_VIDEO_ONLY \<longrightarrow> ic_has_video c \<and> \<not> ic_has_audio c) \<and>
     (kind = KIND_AUDIO_ONLY \<longrightarrow> ic_has_audio c \<and> \<not> ic_has_video c)"

definition resolve_direct ::
  "InternalFormatCandidate \<Rightarrow> MediaFormat \<Rightarrow> string \<Rightarrow> ResolvedDownloadSelection res" where
  "resolve_direct matched f requested =
     andThen (validate_token (ic_token matched)) (\<lambda>token.
       if \<not> props_match matched f then Inl (unavailable ''PROPS_MISMATCH'')
       else if \<not> kind_matches (mf_media_kind f) matched then Inl (unavailable ''MEDIA_KIND_MISMATCH'')
       else Inr \<lparr>rs_format_option_id = requested, rs_container = ic_container matched,
              rs_width = ic_width matched, rs_height = ic_height matched, rs_fps = ic_fps matched,
              rs_has_video = ic_has_video matched, rs_has_audio = ic_has_audio matched,
              rs_category = category_for (ic_has_video matched) (ic_has_audio matched),
              rs_quality_label = quality_label_for (ic_height matched) (ic_has_video matched),
              rs_free_tier_eligible = mf_free_tier_eligible f,
              rs_approx_bytes = ic_approx_bytes matched, rs_provider_format_token = token,
              rs_media_kind = mf_media_kind f, rs_bitrate_kbps = ic_bitrate_kbps matched\<rparr>)"

definition resolve_muxed ::
  "digests \<Rightarrow> InspectionSettings \<Rightarrow> InternalFormatCandidate list \<Rightarrow> string \<Rightarrow> MediaFormat \<Rightarrow> int option \<Rightarrow>
     MuxedDownloadSelection option res" where
  "resolve_muxed h s candidates requested f duration =
     (if \<not> is_muxing_enabled s then Inr None
      else if mf_category f \<noteq> PROGRESSIVE then Inr None
      else if \<not> (mf_has_video f \<and> mf_has_audio f \<and> mf_free_tier_eligible f) then Inr None
      else
        andThen (derive_mux_options h s candidates) (\<lambda>derived.
          case find (\<lambda>item. mo_id item = requested) (rev derived) of
            None \<Rightarrow> Inr None
          | Some matched \<Rightarrow>
              if mo_public matched \<noteq> f then Inl (unavailable ''PROPS_MISMATCH'')
              else
                andThen (validate_token (ic_token (mo_video matched))) (\<lambda>video_token.
                andThen (validate_token (ic_token (mo_audio matched))) (\<lambda>audio_token.
                  Inr (Some \<lparr>ms_format_option_id = requested, ms_container = mo_output_container matched,
                     ms_width = mf_width f, ms_height = mf_height f, ms_fps = mf_fps f,
                     ms_has_video = True, ms_has_audio = True, ms_category = PROGRESSIVE,
                     ms_quality_label = mf_quality_label f, ms_free_tier_eligible = True,
                     ms_approx_bytes = mf_approx_bytes f,
                     ms_video_approx_bytes = ic_approx_bytes (mo_video matched),
                     ms_audio_approx_bytes = ic_approx_bytes (mo_audio matched),
                     ms_expected_duration_seconds = map_option of_int duration,
                     ms_video_format_token = video_token, ms_audio_format_token = audio_token\<rparr>)))))"

definition resolve_selection_from_draft ::
  "digests \<Rightarrow> InspectionSettings \<Rightarrow> ExtractedMediaDraft \<Rightarrow> string \<Rightarrow> MediaFormat \<Rightarrow> DownloadSelection res" where
  "resolve_selection_from_draft h s draft requested f =
     (if requested \<noteq> mf_format_option_id f then Inl (unavailable ''OPTION_ID_MISMATCH'')
      else
        let bounded = filter (candidate_bounded s) (em_candidates draft);
            prepared = map (\<lambda>c. (candidate_option_id h c, c)) bounded
        in andThen (dedupe fst (\<lambda>a b. binding_equivalent (snd a) (snd b)) (unavailable ''OPTION_AMBIGUOUS'')
                      (order_by selection_sort_key prepared)) (\<lambda>by_option.
             case find (\<lambda>x. fst x = requested) by_option of
               Some (_, matched) \<Rightarrow> andThen (resolve_direct matched f requested) (\<lambda>sel. Inr (DirectDownloadSelection sel))
             | None \<Rightarrow>
                 andThen (resolve_muxed h s bounded requested f (em_duration_seconds draft)) (\<lambda>muxed.
                   case muxed of
                     Some sel \<Rightarrow> Inr (MuxedSelection sel)
                   | None \<Rightarrow> Inl (unavailable ''OPTION_MISSING''))))"

section \<open>Only the offered stream is selected\<close>

text \<open>A selection names the tokens of streams of the page whose public format is the stored one.\<close>

definition binds ::
  "digests \<Rightarrow> InspectionSettings \<Rightarrow> InternalFormatCandidate list \<Rightarrow> MediaFormat \<Rightarrow> DownloadSelection \<Rightarrow> bool" where
  "binds h s cs f sel \<longleftrightarrow>
     (case sel of
        DirectDownloadSelection r \<Rightarrow>
          \<exists>c \<in> set cs. candidate_bounded s c \<and> candidate_format h c = f \<and>
            ic_token c = Some (rs_provider_format_token r) \<and>
            validate_provider_format_token (rs_provider_format_token r) = Inr (rs_provider_format_token r) \<and>
            rs_format_option_id r = mf_format_option_id f \<and> rs_container r = mf_container f \<and>
            rs_height r = mf_height f \<and> rs_media_kind r = mf_media_kind f
      | MuxedSelection m \<Rightarrow>
          \<exists>item. derived_ok h s cs item \<and> mo_public item = f \<and>
            ic_token (mo_video item) = Some (ms_video_format_token m) \<and>
            ic_token (mo_audio item) = Some (ms_audio_format_token m) \<and>
            validate_provider_format_token (ms_video_format_token m) = Inr (ms_video_format_token m) \<and>
            validate_provider_format_token (ms_audio_format_token m) = Inr (ms_audio_format_token m) \<and>
            ms_format_option_id m = mf_format_option_id f \<and> ms_container m = mf_container f)"

lemma validate_tokenD:
  "validate_token raw = Inr t \<Longrightarrow> raw = Some t \<and> validate_provider_format_token t = Inr t"
  by (auto simp: validate_token_def validate_provider_format_token_def split: option.split_asm sum.split_asm if_split_asm)

lemma kind_of_category_for: "kind_of_category (category_for v a) = media_kind_for v a"
  by (simp add: category_for_def media_kind_for_def)

lemma props_match_iff:
  assumes "candidate_option_id h c = mf_format_option_id f"
  shows "props_match c f \<longleftrightarrow> candidate_format h c = f"
proof
  assume "props_match c f"
  with assms show "candidate_format h c = f"
    by (cases f) (simp add: props_match_def candidate_format_def Let_def kind_of_category_for free_tier_eligible_def)
next
  assume "candidate_format h c = f"
  then show "props_match c f"
    by (auto simp: props_match_def candidate_format_def Let_def kind_of_category_for free_tier_eligible_def)
qed

lemma format_kind_matches: "ic_has_video c \<or> ic_has_audio c \<Longrightarrow> kind_matches (mf_media_kind (candidate_format h c)) c"
  by (auto simp: kind_matches_def candidate_format_def media_kind_for_def Let_def)

lemma resolve_direct_binds:
  assumes "resolve_direct c f (mf_format_option_id f) = Inr r" and "candidate_option_id h c = mf_format_option_id f"
    and "c \<in> set cs" and "candidate_bounded s c"
  shows "binds h s cs f (DirectDownloadSelection r)"
proof -
  from assms(1) obtain t where t: "validate_token (ic_token c) = Inr t" and pm: "props_match c f"
    and r: "rs_provider_format_token r = t" "rs_format_option_id r = mf_format_option_id f"
      "rs_container r = ic_container c" "rs_height r = ic_height c" "rs_media_kind r = mf_media_kind f"
    by (auto simp: resolve_direct_def andThen_eq_Inr split: if_split_asm)
  have "candidate_format h c = f" using pm assms(2) by (simp add: props_match_iff)
  with validate_tokenD [OF t] r assms(3,4) show ?thesis
    unfolding binds_def by (auto intro!: bexI [of _ c] simp: candidate_format_def Let_def)
qed

lemma derived_ok_mono: "derived_ok h s (filter P cs) item \<Longrightarrow> derived_ok h s cs item"
  by (auto simp: derived_ok_def)

lemma resolve_muxed_binds:
  assumes "resolve_muxed h s (filter P cs) (mf_format_option_id f) f duration = Inr (Some m)"
  shows "binds h s cs f (MuxedSelection m)"
proof -
  from assms obtain items item v a where d: "derive_mux_options h s (filter P cs) = Inr items"
    and find: "find (\<lambda>item. mo_id item = mf_format_option_id f) (rev items) = Some item" and f: "mo_public item = f"
    and v: "validate_token (ic_token (mo_video item)) = Inr v" and a: "validate_token (ic_token (mo_audio item)) = Inr a"
    and m: "ms_format_option_id m = mf_format_option_id f" "ms_container m = mo_output_container item"
      "ms_video_format_token m = v" "ms_audio_format_token m = a"
    by (auto simp: resolve_muxed_def andThen_eq_Inr split: if_split_asm option.split_asm)
  have "item \<in> set items" using find by (metis find_Some_iff nth_mem set_rev)
  then have ok: "derived_ok h s (filter P cs) item" using derived_options [OF d] by blast
  then have "mf_container f = mo_output_container item" using f by (auto simp: derived_ok_def mux_format_def Let_def)
  with derived_ok_mono [OF ok] validate_tokenD [OF v] validate_tokenD [OF a] f m show ?thesis
    unfolding binds_def by auto
qed

lemma selection_binds:
  assumes "resolve_selection_from_draft h s draft requested f = Inr sel"
  shows "requested = mf_format_option_id f \<and> binds h s (em_candidates draft) f sel"
proof -
  let ?cs = "em_candidates draft" and ?key = "\<lambda>c. (candidate_option_id h c, c)"
  have req: "requested = mf_format_option_id f"
    using assms by (simp add: resolve_selection_from_draft_def split: if_split_asm)
  from assms req obtain by_option where
    d: "dedupe fst (\<lambda>a b. binding_equivalent (snd a) (snd b)) (unavailable ''OPTION_AMBIGUOUS'')
          (order_by selection_sort_key (map ?key (filter (candidate_bounded s) ?cs))) = Inr by_option"
    and rest: "(case find (\<lambda>x. fst x = requested) by_option of
        Some (_, matched) \<Rightarrow> andThen (resolve_direct matched f requested) (\<lambda>sel. Inr (DirectDownloadSelection sel))
      | None \<Rightarrow> andThen (resolve_muxed h s (filter (candidate_bounded s) ?cs) requested f (em_duration_seconds draft)) (\<lambda>muxed.
          case muxed of Some sel \<Rightarrow> Inr (MuxedSelection sel) | None \<Rightarrow> Inl (unavailable ''OPTION_MISSING''))) = Inr sel"
    by (auto simp: resolve_selection_from_draft_def Let_def andThen_eq_Inr)
  have "binds h s ?cs f sel"
  proof (cases "find (\<lambda>x. fst x = requested) by_option")
    case None
    with rest obtain m where "resolve_muxed h s (filter (candidate_bounded s) ?cs) requested f (em_duration_seconds draft) = Inr (Some m)"
      "sel = MuxedSelection m" by (auto simp: andThen_eq_Inr split: option.split_asm)
    then show ?thesis using resolve_muxed_binds req by simp
  next
    case (Some x)
    obtain i c where x: "x = (i, c)" by (cases x)
    have "x \<in> set by_option \<and> fst x = requested" using Some by (auto simp: find_Some_iff)
    then have "x \<in> set by_option" "i = requested" using x by auto
    then have "(i, c) \<in> ?key ` {c \<in> set ?cs. candidate_bounded s c}" using dedupe_Inr [OF d] x by auto
    then have c: "c \<in> set ?cs" "candidate_bounded s c" "candidate_option_id h c = mf_format_option_id f"
      using \<open>i = requested\<close> req by auto
    from rest Some x req obtain r where "resolve_direct c f (mf_format_option_id f) = Inr r" "sel = DirectDownloadSelection r"
      by (auto simp: andThen_eq_Inr)
    with resolve_direct_binds [OF _ c(3,1,2)] show ?thesis by blast
  qed
  with req show ?thesis ..
qed

text \<open>C30. There is no closest or best match: whenever the worker gets a selection for an option, the
  tokens it will hand to the downloader are those of a stream (or pair of streams) of the page as
  inspected now whose public format equals the stored one in every field, and they satisfy the
  token grammar.\<close>

theorem selection_is_exactly_the_offer:
  assumes "resolve_selection_from_draft h s draft requested f = Inr sel"
  shows "requested = mf_format_option_id f \<and> binds h s (em_candidates draft) f sel"
  by (rule selection_binds [OF assms])

section \<open>What is offered can be selected\<close>

text \<open>What the way back needs of the page: streams that can be paired are within the bounds, streams
  with the same id bind the same download, ids of single streams and of pairs do not collide, and
  every stream has a token of the accepted grammar.\<close>

definition selectable :: "digests \<Rightarrow> InspectionSettings \<Rightarrow> InternalFormatCandidate list \<Rightarrow> bool" where
  "selectable h s cs \<longleftrightarrow>
     (\<forall>c \<in> set cs. usable_video c \<or> usable_audio c \<longrightarrow> candidate_bounded s c) \<and>
     (\<forall>c \<in> set cs. \<forall>c' \<in> set cs. candidate_option_id h c = candidate_option_id h c' \<longrightarrow> binding_equivalent c c') \<and>
     (\<forall>c \<in> set cs. \<forall>v \<in> set cs. \<forall>a \<in> set cs. \<forall>out. usable_video v \<and> usable_audio a \<longrightarrow>
        candidate_option_id h c \<noteq> mux_option_id_for h v a out (height_label (ic_height v))) \<and>
     (\<forall>c \<in> set cs. \<exists>t. ic_token c = Some t \<and> strip t \<noteq> [] \<and> validate_provider_format_token t = Inr t)"

lemma binding_format: "binding_equivalent l r \<Longrightarrow> candidate_format h l = candidate_format h r"
  by (simp add: binding_equivalent_def candidate_format_def candidate_option_id_def format_option_id_for_def)

lemma candidate_format_id [simp]: "mf_format_option_id (candidate_format h c) = candidate_option_id h c"
  by (simp add: candidate_format_def Let_def)

lemma valid_token_found:
  "ic_token c = Some t \<Longrightarrow> strip t \<noteq> [] \<Longrightarrow> validate_provider_format_token t = Inr t \<Longrightarrow> validate_token (ic_token c) = Inr t"
  by (simp add: validate_token_def)

lemma find_distinct:
  assumes "distinct (map key xs)" and "x \<in> set xs" and "key x = k"
  shows "find (\<lambda>y. key y = k) xs = Some x"
  using assms by (induction xs) force+

lemma bounded_streams_derive:
  assumes "\<forall>c \<in> set cs. usable_video c \<or> usable_audio c \<longrightarrow> candidate_bounded s c"
  shows "derive_mux_options h s (filter (candidate_bounded s) cs) = derive_mux_options h s cs"
proof -
  have "filter usable_video (filter (candidate_bounded s) cs) = filter usable_video cs"
    "filter usable_audio (filter (candidate_bounded s) cs) = filter usable_audio cs"
    using assms by (auto intro!: filter_cong simp: filter_filter)
  then show ?thesis by (simp add: derive_mux_options_def mux_videos_def mux_audios_def)
qed


section \<open>Samples\<close>

lemma sample_token_valid: "strip ''18'' \<noteq> [] \<and> validate_provider_format_token ''18'' = Inr ''18''"
  by code_simp

lemma sample_selectable: "selectable sample_digests sample_inspection [sample_progressive]"
proof -
  have "\<not> usable_video sample_progressive" "\<not> usable_audio sample_progressive"
    by (simp_all add: usable_video_def usable_audio_def sample_progressive_def)
  moreover have "binding_equivalent c c" for c by (simp add: binding_equivalent_def)
  moreover have "ic_token sample_progressive = Some ''18''" by (simp add: sample_progressive_def)
  ultimately show ?thesis using sample_token_valid by (simp add: selectable_def)
qed

lemma sample_formats:
  "project_formats sample_digests sample_inspection (em_candidates (sample_draft [sample_progressive])) =
     Inr [candidate_format sample_digests sample_progressive]"
  using sample_projected by (auto simp: project_metadata_def andThen_eq_Inr Let_def split: if_split_asm)

lemma sample_selected:
  "\<exists>sel. resolve_selection_from_draft sample_digests sample_inspection (sample_draft [sample_progressive])
     (candidate_option_id sample_digests sample_progressive) (candidate_format sample_digests sample_progressive) = Inr sel"
proof -
  have t: "validate_token (ic_token sample_progressive) = Inr ''18''"
    using sample_token_valid by (simp add: validate_token_def sample_progressive_def)
  have "props_match sample_progressive (candidate_format sample_digests sample_progressive)"
    by (rule iffD2 [OF props_match_iff [of sample_digests]]) simp_all
  moreover have "kind_matches (mf_media_kind (candidate_format sample_digests sample_progressive)) sample_progressive"
    by (rule format_kind_matches) (simp add: sample_progressive_def)
  moreover have "candidate_bounded sample_inspection sample_progressive" by (rule sample_bounded)
  ultimately show ?thesis
    by (simp add: resolve_selection_from_draft_def sample_draft_def order_by_def dedupe_def Let_def resolve_direct_def t)
qed


theorem selection_is_exactly_the_offer_witness:
  "\<exists>sel. binds sample_digests sample_inspection [sample_progressive] (candidate_format sample_digests sample_progressive) sel"
proof -
  obtain sel where sel: "resolve_selection_from_draft sample_digests sample_inspection (sample_draft [sample_progressive])
     (candidate_option_id sample_digests sample_progressive) (candidate_format sample_digests sample_progressive) = Inr sel"
    using sample_selected by blast
  have cs: "em_candidates (sample_draft [sample_progressive]) = [sample_progressive]" by (simp add: sample_draft_def)
  from selection_is_exactly_the_offer [OF sel, unfolded cs] show ?thesis by blast
qed

end
