(* ===== verification/Spec2Isabelle.thy ===== *)
theory Spec2Isabelle
  imports Byte_Progress Resolution Download_Create Media_Jobs Ledger_Limits Reservation_Repair Payments Content_Route Download_View Selection
begin

text \<open>
  FetchNow is a media download service. A client submits a page address to an API, an inspection
  worker finds the formats of the media, the client picks one, a download worker fetches it, and a
  delivery process streams the finished file to a browser. Everything the parts agree on is kept in
  PostgreSQL: queues of jobs, the quota of Free downloads, the ledger of bytes served, delivery
  grants, payment orders and Premium entitlements. This library models that durable core, written in
  Python under \<open>src/backend/src/fetchnow/\<close>; file names below are relative to that directory.

  \<^bold>\<open>Conventions.\<close> A table is the list of its rows in insertion order, a row is a record with one field
  per column, the database is the record \<open>db\<close> (theory Schema) and every CHECK constraint is a
  predicate on a row. A repository or service call is a function of its arguments and the database
  that returns \<open>Inr (result, database)\<close>, or \<open>Inl error\<close> for each \<open>raise\<close>; an \<open>Inl\<close> discards the changes,
  as the rollback of the enclosing transaction does. A write that violates a constraint is the error
  \<open>IntegrityError\<close>, so that the absence of such errors is something to prove. Time is an integer of
  microseconds. What a call reads from its surroundings is an argument: \<open>now\<close> is the time it is
  given, \<open>clk\<close>, \<open>rclk\<close>, \<open>qclk\<close> and \<open>pclk\<close> are readings of the database clock (functions of the row where a loop
  reads the clock anew for each row), \<open>fresh\<close> supplies new uuids, \<open>locked\<close> tells which rows another
  transaction holds when a query says SKIP LOCKED, and \<open>seen\<close> an earlier snapshot of a row. One call is
  one serializable step, as the row locks make it; interleavings are runs of an inductive step
  relation, in which other components may do whatever they do to their own tables. SHA-256, the
  Unicode database and the ISO time format (\<open>pylib\<close>, \<open>unidb\<close>) are parameters with their documented laws
  as hypotheses; each property with such a hypothesis has a witness at a concrete instance.

  \<^bold>\<open>Theories.\<close>
  \<^item> Prelude: the error monad, tables (lookup, insert, update, order, limit) and row evolution; the
    collections \<open>res_simps\<close> and \<open>tbl_simps\<close>.
  \<^item> Domain\_Errors: the error catalogues (\<open>downloads/errors.py\<close>, \<open>jobs/errors.py\<close>, \<open>quota/errors.py\<close>,
    \<open>payments/errors.py\<close>) and their sanitizing constructors.
  \<^item> Job\_States: the state machines of jobs, progress stages and orders, behind the locale
    \<open>transition_table\<close>.
  \<^item> Schema: all tables with their constraints (\<open>jobs/models.py\<close>, \<open>downloads/models.py\<close>,
    \<open>downloads/grant_models.py\<close>, \<open>quota/models.py\<close>, \<open>payments/models.py\<close>, \<open>premium/models.py\<close>).
  \<^item> Fenced\_Queue: the locale of a queue whose workers hold leases under fence tokens. Media\_Jobs
    (\<open>jobs/repository.py\<close>) and Download\_Runs (\<open>downloads/repository.py\<close>) interpret it on the two queues:
    a fence names one owner, and a worker whose fence was passed can never change a row again.
  \<^item> Download\_Jobs, Download\_Lifecycle: the operations of the download queue and what each one
    preserves; Download\_Promotion (\<open>downloads/promote.py\<close>): promotion of a ready Free job to Premium.
  \<^item> Intervals, Delivery\_Ledger, Ledger\_Limits (\<open>quota/delivery.py\<close>): byte-interval arithmetic behind the
    locale \<open>coverage\<close>, the ledger of served ranges, exact accounting of each operation, and two runs
    that its guards do not exclude.
  \<^item> Premium (\<open>premium/\<close>), Quota (\<open>quota/policy.py\<close>, \<open>repository.py\<close>, \<open>service.py\<close>): entitlements and the rolling
    quota of Free downloads: never more than the limit, exact admission and reset time, pruning
    invisible. Quota\_Reconcile, Reservation\_Repair (\<open>quota/reconcile.py\<close>): the repair pass.
  \<^item> Reservations: queue, quota and ledger together; a reservation never outlives its job.
  \<^item> Snapshot (\<open>downloads/snapshot_codec.py\<close>), Text, Tokens (\<open>jobs/credentials.py\<close>,
    \<open>downloads/browser_grant_tokens.py\<close>, \<open>quota/identity.py\<close>), Range\_Parse (\<open>delivery/range_parse.py\<close>),
    Filename (\<open>downloads/filename.py\<close>): codecs and parsers with round trips; the locale
    \<open>canonical_codec\<close> is interpreted on the three token formats.
  \<^item> Grants, Delivery\_Access (\<open>downloads/grant_repository.py\<close>, \<open>grant_service.py\<close>, \<open>delivery/service.py\<close>): who may fetch an
    artifact.
  \<^item> Robokassa, Payments (\<open>payments/\<close>, \<open>api/v1/payments.py\<close>): amounts, signatures, orders and callbacks.
  \<^item> Content\_Stream, Content\_Route (\<open>delivery/stream.py\<close>, \<open>delivery/routes.py\<close>): the paced body, which reports
    every byte it sends to the ledger, and the endpoints that choose status, headers and range.
  \<^item> Mux\_Pairing, Media\_Projection, Selection (\<open>media_inspection/mux_pairing.py\<close>, \<open>normalize.py\<close>,
    \<open>downloads/format_token.py\<close>, \<open>downloads/selection.py\<close>): from the streams a page offers to the formats a client sees, and
    from the format a client chose back to the streams the worker fetches.
  \<^item> Download\_View (\<open>downloads/service.py\<close>): authorization of a job, the view of it a client gets, and cancellation.
  \<^item> Byte\_Progress (\<open>downloads/byte_progress.py\<close>, the writer of \<open>downloads/process_download.py\<close>): percentages from
    sizes, and the gate and writer that throttle what is stored.
  \<^item> Capabilities (\<open>capabilities/\<close>), Metadata\_Codec (\<open>jobs/metadata_codec.py\<close>), Download\_Create
    (\<open>downloads/service.py\<close>): what a provider allows, the column that keeps inspected metadata, and the creation
    of a download job from it with its admission by the quota.
  \<^item> Destination (\<open>url/destination.py\<close>), Url\_Policy (\<open>url/parse.py\<close>, \<open>providers.py\<close>, \<open>validate.py\<close>), Provider\_Identity
    (\<open>url/provider_identity.py\<close>, \<open>media_inspection/identity.py\<close>): which addresses a client may submit, their canonical
    form, and the identity of the page they name.
  \<^bold>\<open>What the lemmas show.\<close> For each table: every reachable state satisfies the constraints, and rows
  evolve only along the state machine (\<open>_run_\<close> and \<open>_lifecycle\<close> lemmas). For each operation: its exact
  effect on every branch. For the components together: fencing, no leaked reservation, no quota
  exceeded, consumption only of a fully served artifact, exactly one entitlement for a paid order.
  Where the code departs from what it documents, a theorem exhibits the run.

  \<^bold>\<open>Bounds.\<close> All recursions are structural or have a measure; no operation needs fuel. Integers are
  unbounded as Python's are; the width of database columns is not modelled.

  \<^bold>\<open>Not modelled.\<close> Sockets, files, subprocesses and event loops: the network client, page resolution,
  the yt-dlp and ffmpeg processes and the parsers of their output, the artifact store and the worker loops.
  Of streaming: the semaphore, the socket and the closing of descriptors. Logging, settings loading,
  migrations. The deployment, backup and audit scripts, which orchestrate docker, git and the
  file system. Isolation below row locks (a statement sees one state of the database).
\<close>

end
